(* ===== verification/Wtm_Prelude.thy ===== *)
theory Wtm_Prelude
  imports Main "HOL-Library.Char_ord" "HOL-Library.List_Lexorder" "HOL-Library.Product_Lexorder"
begin

text \<open>
  Shared vocabulary of the development: JavaScript numbers as far as the code inspects them,
  tables of an SQLite database as lists of rows with the four statement shapes the stores use
  (select one, update where, delete where, count), insertion-ordered \<open>Map\<close> objects, and the
  \<open>named_theorems\<close> collections the component theories feed.
\<close>

section \<open>Collections\<close>

named_theorems table_simps \<open>rewriting of table statements\<close>
named_theorems job_frames \<open>which tables a job operation leaves alone\<close>
named_theorems job_preserves \<open>job invariants are kept by the operations\<close>

section \<open>Basic types\<close>

text \<open>
  Timestamps are the ISO-8601 texts that \<open>Date.prototype.toISOString\<close> prints. All of them have
  the same width, so the text order the code compares with is the order of the instants; a
  timestamp is modelled by its instant, in milliseconds.
\<close>

type_synonym time = nat
type_synonym ident = string

text \<open>
  A JavaScript number, as far as \<open>Number.isSafeInteger\<close> and \<open>Number.isInteger\<close> look at it: an
  integer, or one of the numbers that are none (a fraction, \<open>NaN\<close>, an infinity). \<open>null\<close> and
  \<open>undefined\<close> are the \<open>None\<close> of an option around it.
\<close>

datatype jsnum = Whole int | Not_Whole

definition max_safe_integer :: int where
  "max_safe_integer = 9007199254740991"

fun is_safe_integer :: "jsnum \<Rightarrow> bool" where
  "is_safe_integer (Whole n) \<longleftrightarrow> - max_safe_integer \<le> n \<and> n \<le> max_safe_integer"
| "is_safe_integer Not_Whole \<longleftrightarrow> False"

fun whole :: "jsnum \<Rightarrow> int" where
  "whole (Whole n) = n"
| "whole Not_Whole = 0"

definition safe_positive :: "jsnum \<Rightarrow> bool" where
  "safe_positive x \<longleftrightarrow> is_safe_integer x \<and> 1 \<le> whole x"

lemma safe_positive_Whole [simp]:
  "safe_positive (Whole n) \<longleftrightarrow> 1 \<le> n \<and> n \<le> max_safe_integer"
  by (auto simp: safe_positive_def max_safe_integer_def)

lemma safe_positive_Not_Whole [simp]: "\<not> safe_positive Not_Whole"
  by (simp add: safe_positive_def)

lemma safe_positive_whole: "safe_positive x \<Longrightarrow> 1 \<le> whole x"
  by (simp add: safe_positive_def)

section \<open>Tables\<close>

text \<open>A table is the list of its rows in the order of insertion (the order of their rowids).\<close>

definition upd_where :: "('r \<Rightarrow> bool) \<Rightarrow> ('r \<Rightarrow> 'r) \<Rightarrow> 'r list \<Rightarrow> 'r list" where
  "upd_where P f rows = map (\<lambda>r. if P r then f r else r) rows"

definition del_where :: "('r \<Rightarrow> bool) \<Rightarrow> 'r list \<Rightarrow> 'r list" where
  "del_where P rows = filter (\<lambda>r. \<not> P r) rows"

definition count_where :: "('r \<Rightarrow> bool) \<Rightarrow> 'r list \<Rightarrow> nat" where
  "count_where P rows = length (filter P rows)"

abbreviation exists_where :: "('r \<Rightarrow> bool) \<Rightarrow> 'r list \<Rightarrow> bool" where
  "exists_where P rows \<equiv> list_ex P rows"

lemma upd_where_Nil [simp]: "upd_where P f [] = []"
  by (simp add: upd_where_def)

lemma upd_where_Cons [simp]:
  "upd_where P f (r # rows) = (if P r then f r else r) # upd_where P f rows"
  by (simp add: upd_where_def)

lemma upd_where_append [simp]: "upd_where P f (xs @ ys) = upd_where P f xs @ upd_where P f ys"
  by (simp add: upd_where_def)

lemma del_where_Nil [simp]: "del_where P [] = []"
  by (simp add: del_where_def)

lemma del_where_Cons [simp]:
  "del_where P (r # rows) = (if P r then del_where P rows else r # del_where P rows)"
  by (simp add: del_where_def)

lemma count_where_Nil [simp]: "count_where P [] = 0"
  by (simp add: count_where_def)

lemma count_where_Cons [simp]:
  "count_where P (r # rows) = (if P r then Suc (count_where P rows) else count_where P rows)"
  by (simp add: count_where_def)

lemma count_where_append [simp]: "count_where P (xs @ ys) = count_where P xs + count_where P ys"
  by (simp add: count_where_def)

lemma length_upd_where [simp]: "length (upd_where P f rows) = length rows"
  by (simp add: upd_where_def)

lemma set_upd_where: "set (upd_where P f rows) = (\<lambda>r. if P r then f r else r) ` set rows"
  by (simp add: upd_where_def)

lemma set_del_where [simp]: "set (del_where P rows) = {r \<in> set rows. \<not> P r}"
  by (simp add: del_where_def)

lemma del_where_absent: "\<forall>r\<in>set rows. \<not> P r \<Longrightarrow> del_where P rows = rows"
  by (induction rows) auto

lemma upd_where_absent: "\<forall>r\<in>set rows. \<not> P r \<Longrightarrow> upd_where P f rows = rows"
  by (induction rows) auto

lemma upd_where_id: "(\<And>r. r \<in> set rows \<Longrightarrow> P r \<Longrightarrow> f r = r) \<Longrightarrow> upd_where P f rows = rows"
  by (induction rows) auto

lemma map_upd_where: "(\<And>r. P r \<Longrightarrow> g (f r) = g r) \<Longrightarrow> map g (upd_where P f rows) = map g rows"
  by (induction rows) auto

lemma count_where_0: "count_where P rows = 0 \<longleftrightarrow> (\<forall>r\<in>set rows. \<not> P r)"
  by (induction rows) auto

lemma count_where_mono: "(\<And>r. r \<in> set rows \<Longrightarrow> P r \<Longrightarrow> Q r) \<Longrightarrow> count_where P rows \<le> count_where Q rows"
  by (induction rows) (auto simp: le_SucI)

lemma count_where_del_where_le: "count_where P (del_where Q rows) \<le> count_where P rows"
  by (induction rows) auto

lemma count_where_upd_where_le:
  "(\<And>r. r \<in> set rows \<Longrightarrow> Q r \<Longrightarrow> P (f r) \<Longrightarrow> P r) \<Longrightarrow>
   count_where P (upd_where Q f rows) \<le> count_where P rows"
  by (induction rows) (auto simp: le_SucI)

lemma count_where_upd_where_eq:
  "(\<And>r. r \<in> set rows \<Longrightarrow> Q r \<Longrightarrow> P (f r) = P r) \<Longrightarrow>
   count_where P (upd_where Q f rows) = count_where P rows"
  by (induction rows) auto

lemma list_ex_upd_where: "list_ex P (upd_where Q f rows) \<longleftrightarrow> (\<exists>r\<in>set rows. P (if Q r then f r else r))"
  by (induction rows) auto

section \<open>Rows found by a key\<close>

text \<open>
  \<open>SELECT * FROM t WHERE key = ?\<close> on a table with a primary key or a \<open>UNIQUE\<close> column; the
  lemmas say what the other statements do to the row of one key.
\<close>

definition row_by :: "('r \<Rightarrow> 'k) \<Rightarrow> 'k \<Rightarrow> 'r list \<Rightarrow> 'r option" where
  "row_by key k rows = find (\<lambda>r. key r = k) rows"

lemma row_by_Nil [simp]: "row_by key k [] = None"
  by (simp add: row_by_def)

lemma row_by_Cons [simp]: "row_by key k (r # rows) = (if key r = k then Some r else row_by key k rows)"
  by (simp add: row_by_def)

lemma row_by_None: "row_by key k rows = None \<longleftrightarrow> k \<notin> key ` set rows"
  by (induction rows) auto

lemma row_by_SomeD: "row_by key k rows = Some r \<Longrightarrow> r \<in> set rows \<and> key r = k"
  by (induction rows) (auto split: if_splits)

lemma row_by_unique:
  "distinct (map key rows) \<Longrightarrow> r \<in> set rows \<Longrightarrow> row_by key (key r) rows = Some r"
  by (induction rows) (auto simp: image_iff)

lemma key_notin: "k \<notin> key ` A \<longleftrightarrow> (\<forall>a\<in>A. key a \<noteq> k)"
  by auto

lemma row_by_append:
  "row_by key k (xs @ ys) = (case row_by key k xs of None \<Rightarrow> row_by key k ys | Some r \<Rightarrow> Some r)"
  by (induction xs) auto

lemma row_by_upd:
  assumes "\<And>r. P r \<Longrightarrow> key (f r) = key r"
  shows "row_by key k (upd_where P f rows) =
    map_option (\<lambda>r. if P r then f r else r) (row_by key k rows)"
  using assms by (induction rows) auto

lemma row_by_upd_key:
  assumes "\<And>r. key (f r) = key r"
  shows "row_by key k (upd_where (\<lambda>r. key r = k' \<and> P r) f rows) =
    (if k = k' then map_option (\<lambda>r. if P r then f r else r) (row_by key k rows) else row_by key k rows)"
  using assms by (induction rows) auto

lemma row_by_del_key:
  "row_by key k (del_where (\<lambda>r. key r = k') rows) = (if k = k' then None else row_by key k rows)"
  by (induction rows) auto

lemma distinct_upd_where:
  "(\<And>r. P r \<Longrightarrow> key (f r) = key r) \<Longrightarrow> distinct (map key rows) \<Longrightarrow>
   distinct (map key (upd_where P f rows))"
  by (simp add: map_upd_where)

lemma distinct_del_where: "distinct (map key rows) \<Longrightarrow> distinct (map key (del_where P rows))"
  by (simp add: del_where_def distinct_map_filter)

lemma row_by_del:
  assumes "distinct (map key rows)"
  shows "row_by key k (del_where P rows) =
    (case row_by key k rows of None \<Rightarrow> None | Some r \<Rightarrow> if P r then None else Some r)"
  using assms
proof (induction rows)
  case Nil
  then show ?case by simp
next
  case (Cons a rows)
  have "row_by key (key a) (del_where P rows) = None"
    using Cons.prems by (auto simp: row_by_None)
  with Cons show ?case by auto
qed

lemma count_key_1: "distinct (map key rows) \<Longrightarrow> r \<in> set rows \<Longrightarrow> count_where (\<lambda>x. key x = key r) rows = 1"
  by (induction rows) (auto simp: count_where_0 key_notin)

lemma distinct_key_filter: "distinct (map key rows) \<Longrightarrow> r \<in> set rows \<Longrightarrow> filter (\<lambda>x. key x = key r) rows = [r]"
  by (induction rows) (auto simp: filter_empty_conv key_notin)

lemma distinct_filter_del_where:
  "distinct (map f (filter P rows)) \<Longrightarrow> distinct (map f (filter P (del_where Q rows)))"
  by (induction rows) auto

section \<open>Insertion-ordered maps\<close>

text \<open>\<open>Map.prototype.set\<close>: an existing key keeps its position, a new one goes to the end.\<close>

fun map_set :: "'k \<Rightarrow> 'v \<Rightarrow> ('k \<times> 'v) list \<Rightarrow> ('k \<times> 'v) list" where
  "map_set k v [] = [(k, v)]"
| "map_set k v ((k', v') # m) = (if k' = k then (k, v) # m else (k', v') # map_set k v m)"

lemma map_of_map_set [simp]: "map_of (map_set k v m) = (map_of m)(k \<mapsto> v)"
  by (induction k v m rule: map_set.induct) auto

lemma keys_map_set: "map fst (map_set k v m) = (if k \<in> fst ` set m then map fst m else map fst m @ [k])"
  by (induction k v m rule: map_set.induct) auto

lemma map_set_new: "k \<notin> fst ` set m \<Longrightarrow> map_set k v m = m @ [(k, v)]"
  by (induction k v m rule: map_set.induct) auto

section \<open>Ordered listings\<close>

text \<open>\<open>ORDER BY\<close> on a table that is already in that order changes nothing.\<close>

lemma sort_key_sorted: "sorted (map f xs) \<Longrightarrow> sort_key f xs = xs"
  by (induction xs) (auto simp: insort_is_Cons)

lemma sorted_map_filter: "sorted (map f xs) \<Longrightarrow> sorted (map f (filter P xs))"
  by (induction xs) auto

lemma sort_key_filter_sorted: "sorted (map f xs) \<Longrightarrow> sort_key f (filter P xs) = filter P xs"
  by (simp add: sort_key_sorted sorted_map_filter)

lemma head_in_set: "(case xs of [] \<Rightarrow> None | x # _ \<Rightarrow> Some x) = Some y \<Longrightarrow> y \<in> set xs"
  by (cases xs) auto

section \<open>Pointwise related tables\<close>

lemma list_all2_upd_where:
  "(\<And>r. r \<in> set rows \<Longrightarrow> P r \<Longrightarrow> R r (f r)) \<Longrightarrow> (\<And>r. r \<in> set rows \<Longrightarrow> \<not> P r \<Longrightarrow> R r r) \<Longrightarrow>
   list_all2 R rows (upd_where P f rows)"
  by (induction rows) auto

lemma list_all2_map_eq: "list_all2 R xs ys \<Longrightarrow> (\<And>x y. R x y \<Longrightarrow> g y = g x) \<Longrightarrow> map g ys = map g xs"
  by (induction rule: list_all2_induct) auto

lemma list_all2_count_le:
  "list_all2 R xs ys \<Longrightarrow> (\<And>x y. R x y \<Longrightarrow> P y \<Longrightarrow> P x) \<Longrightarrow> count_where P ys \<le> count_where P xs"
  by (induction rule: list_all2_induct) (auto simp: le_SucI)

lemma list_all2_setD: "list_all2 R xs ys \<Longrightarrow> y \<in> set ys \<Longrightarrow> \<exists>x\<in>set xs. R x y"
  by (induction rule: list_all2_induct) auto

lemma list_all2_filter_image:
  assumes "list_all2 R xs ys" and "\<And>x y. R x y \<Longrightarrow> P y \<Longrightarrow> P x \<and> g y = g x"
  shows "g ` set (filter P ys) \<subseteq> g ` set (filter P xs)"
proof
  fix k assume "k \<in> g ` set (filter P ys)"
  then obtain y where y: "y \<in> set ys" "P y" "k = g y" by auto
  from list_all2_setD [OF assms(1) y(1)] obtain x where x: "x \<in> set xs" "R x y" by blast
  with y assms(2) [OF x(2)] show "k \<in> g ` set (filter P xs)" by auto
qed

lemma list_all2_distinct_filter:
  assumes "list_all2 R xs ys" and "\<And>x y. R x y \<Longrightarrow> P y \<Longrightarrow> P x \<and> g y = g x"
    and "distinct (map g (filter P xs))"
  shows "distinct (map g (filter P ys))"
  using assms(1,3)
proof (induction rule: list_all2_induct)
  case Nil
  then show ?case by simp
next
  case (Cons x xs y ys)
  have "g ` set (filter P ys) \<subseteq> g ` set (filter P xs)"
    by (rule list_all2_filter_image [OF Cons.hyps(2)]) (use assms(2) in blast)
  with Cons assms(2) [OF Cons.hyps(1)] show ?case by (auto split: if_splits)
qed

lemma distinct_map_filterI: "distinct (map g xs) \<Longrightarrow> distinct (map g (filter P xs))"
  by (simp add: distinct_map_filter)

lemma list_all2_sum_filter_le:
  fixes w :: "'a \<Rightarrow> int"
  assumes "list_all2 R xs ys" and "\<And>x y. R x y \<Longrightarrow> P y \<Longrightarrow> P x \<and> w y = w x" and "\<And>x. x \<in> set xs \<Longrightarrow> 0 \<le> w x"
  shows "sum_list (map w (filter P ys)) \<le> sum_list (map w (filter P xs))"
  using assms(1,3)
proof (induction rule: list_all2_induct)
  case Nil
  then show ?case by simp
next
  case (Cons x xs y ys)
  then have ih: "sum_list (map w (filter P ys)) \<le> sum_list (map w (filter P xs))" by simp
  from Cons.prems [of x] have "0 \<le> w x" by simp
  with ih assms(2) [OF Cons.hyps(1)] show ?case by auto
qed

section \<open>State machines\<close>

text \<open>
  The contract of a component whose operations are steps: every step keeps an invariant, and
  relates the states before and after by a preorder (what the component promises about history).
  The lemmas lift both to runs of any length.
\<close>

lemma rtranclp_steps3: "R a b \<Longrightarrow> R b c \<Longrightarrow> R c d \<Longrightarrow> R\<^sup>*\<^sup>* a d"
  by (blast intro: rtranclp.rtrancl_into_rtrancl)

locale machine =
  fixes step :: "'s \<Rightarrow> 's \<Rightarrow> bool" and inv :: "'s \<Rightarrow> bool"
  assumes step_inv: "step s t \<Longrightarrow> inv s \<Longrightarrow> inv t"
begin

lemma run_inv: "step\<^sup>*\<^sup>* s t \<Longrightarrow> inv s \<Longrightarrow> inv t"
  by (induction rule: rtranclp_induct) (auto intro: step_inv)

end

locale history_machine = machine +
  fixes history :: "'s \<Rightarrow> 's \<Rightarrow> bool"
  assumes step_history: "step s t \<Longrightarrow> inv s \<Longrightarrow> history s t"
    and history_refl: "history s s"
    and history_trans: "history s t \<Longrightarrow> history t u \<Longrightarrow> history s u"
begin

lemma run_history: "step\<^sup>*\<^sup>* s t \<Longrightarrow> inv s \<Longrightarrow> history s t"
proof (induction rule: rtranclp_induct)
  case base
  show ?case by (rule history_refl)
next
  case (step t u)
  then have "inv t" by (auto intro: run_inv)
  with step show ?case by (blast intro: history_trans step_history)
qed

end

section \<open>Results\<close>

text \<open>
  An operation that may throw returns \<open>Inl\<close> the error or \<open>Inr\<close> its result. A throw inside a
  transaction rolls it back, so an error result carries no state.
\<close>

definition is_ok :: "'e + 'a \<Rightarrow> bool" where
  "is_ok r = (case r of Inl _ \<Rightarrow> False | Inr _ \<Rightarrow> True)"

lemma is_ok_simps [simp]: "\<not> is_ok (Inl e)" "is_ok (Inr a)"
  by (simp_all add: is_ok_def)

definition starts_with :: "'a list \<Rightarrow> 'a list \<Rightarrow> bool" where
  "starts_with p s \<longleftrightarrow> take (length p) s = p"

lemma starts_with_append [simp]: "starts_with p (p @ s)"
  by (simp add: starts_with_def)

lemma starts_with_iff: "starts_with p s \<longleftrightarrow> (\<exists>r. s = p @ r)"
  by (metis append_take_drop_id append_eq_conv_conj starts_with_def)

end
