(* ===== verification/Store_Types.thy ===== *)
theory Store_Types
  imports Wtm_Prelude
begin

text \<open>
  The rows of the state database (\<open>packages/core/src/state/store.ts\<close>, \<open>jobs.ts\<close>, \<open>ci.ts\<close> and the
  row interfaces of \<open>sqlite-store.ts\<close>), the enumerations their columns range over, and the record
  \<open>db\<close> that holds one list per table. A row record is at once the SQL row and the camel-case record the
  stores hand out, since the conversions between them are field by field; booleans are HOL
  booleans, \<open>NULL\<close> is \<open>None\<close>.
\<close>

section \<open>Errors\<close>

datatype job_error_code =
    JOB_NOT_FOUND | JOB_QUEUE_FULL | JOB_IDEMPOTENCY_CONFLICT | JOB_NOT_QUEUEABLE
  | JOB_NOT_COMPLETE | JOB_UNSUCCESSFUL | JOB_SOURCE_CHANGED | OPERATION_CONFLICT
  | JOB_MEMORY_ESTIMATE_REQUIRED | JOB_MEMORY_BUDGET_EXCEEDED

datatype plain_error =
    Unknown_Repository | Unknown_Worktree | Unknown_Process | No_Endpoint bool
  | Reservation_Not_Owned | Task_Already_Active | Invalid_Transition
  | Sandbox_Identity_Changed | Reference_During_Cleanup | Journal_Not_Finalized
  | Journal_Lost_Row | Journal_Backward | Creation_Not_Open | Creation_Not_Completable
  | Creation_Not_Supersedable | Constraint_Violation | Ci_Unavailable
  | Lease_Not_Held | Start_Identity_Unreadable | Lease_Undecided

datatype store_error =
    Type_Error | Range_Error | Plain_Error plain_error | Heavy_Job_Error job_error_code

section \<open>Registrations\<close>

datatype workspace_scope = Scope_Local | Scope_Global_Only

record workspace_input =
  wsi_name :: string
  wsi_root :: string
  wsi_scope :: workspace_scope
  wsi_config_path :: "string option"

record workspace_row =
  ws_id :: ident
  ws_name :: string
  ws_root :: string
  ws_scope :: workspace_scope
  ws_config_path :: "string option"
  ws_created_at :: time
  ws_last_seen_at :: time

record repository_input =
  rpi_workspace_id :: ident
  rpi_common_git_dir :: string
  rpi_main_root :: string
  rpi_remote_identity :: "string option"

record repository_row =
  rp_id :: ident
  rp_workspace_id :: ident
  rp_common_git_dir :: string
  rp_main_root :: string
  rp_remote_identity :: "string option"
  rp_created_at :: time
  rp_last_reconciled_at :: "time option"

datatype worktree_state =
    WT_DISCOVERED | WT_ALLOCATED | WT_PREPARING | WT_READY | WT_STARTING | WT_RUNNING
  | WT_STOPPING | WT_DEGRADED | WT_FAILED | WT_ORPHANED | WT_CLEANING | WT_REMOVED
  | WT_DEGRADED_CLEANUP

record worktree_row =
  wt_id :: ident
  wt_repository_id :: ident
  wt_numeric_id :: nat
  wt_path :: string
  wt_branch :: "string option"
  wt_head_oid :: "string option"
  wt_is_main :: bool
  wt_is_locked :: bool
  wt_state :: worktree_state
  wt_created_at :: time
  wt_last_seen_at :: time
  wt_last_runtime_at :: "time option"

record reconcile_result =
  discovered :: "worktree_row list"
  updated :: "worktree_row list"
  orphaned :: "worktree_row list"

text \<open>A record of \<open>git worktree list --porcelain\<close> (\<open>packages/core/src/git/worktree-parser.ts\<close>).\<close>

record git_worktree_record =
  gw_path :: string
  gw_head :: "string option"
  gw_branch :: "string option"
  gw_detached :: bool
  gw_bare :: bool
  gw_locked_reason :: "string option"
  gw_prunable_reason :: "string option"

datatype event_subject = Subject_Workspace | Subject_Repository | Subject_Worktree

record lifecycle_dispatch =
  le_subject_type :: event_subject
  le_subject_id :: ident
  le_event :: string
  le_dispatched_at :: time

section \<open>Endpoint leases\<close>

datatype endpoint_protocol = Tcp | Udp
datatype endpoint_state = EP_ACTIVE | EP_RELEASED

record port_range =
  pr_min :: jsnum
  pr_max :: jsnum

record endpoint_request =
  er_worktree_id :: ident
  er_name :: string
  er_protocol :: endpoint_protocol
  er_host :: string
  er_port_range :: port_range
  er_preferred_port :: "jsnum option"

record endpoint_candidate =
  ec_protocol :: endpoint_protocol
  ec_host :: string
  ec_port :: int

record endpoint_lease =
  ep_id :: ident
  ep_worktree_id :: ident
  ep_name :: string
  ep_protocol :: endpoint_protocol
  ep_host :: string
  ep_port :: int
  ep_state :: endpoint_state
  ep_allocated_at :: time
  ep_last_verified_at :: time

record endpoint_query =
  eq_worktree_ids :: "ident list option"
  eq_name :: "string option"
  eq_states :: "endpoint_state list option"

section \<open>Managed processes\<close>

datatype process_state =
    PS_STARTING | PS_RUNNING | PS_STOPPING | PS_STOPPED | PS_FAILED | PS_STALE_IDENTITY

record process_input =
  pi_worktree_id :: ident
  pi_task_name :: string
  pi_pid :: jsnum
  pi_pgid :: jsnum
  pi_process_start_time :: string
  pi_command_fingerprint :: string
  pi_state :: process_state
  pi_started_at :: time
  pi_stopped_at :: "time option"
  pi_stdout_path :: string
  pi_stderr_path :: string
  pi_cleanup_required :: "bool option"
  pi_cleanup_owner_token :: "string option"

record process_row =
  mp_id :: ident
  mp_worktree_id :: ident
  mp_task_name :: string
  mp_pid :: int
  mp_pgid :: int
  mp_process_start_time :: string
  mp_command_fingerprint :: string
  mp_state :: process_state
  mp_started_at :: time
  mp_stopped_at :: "time option"
  mp_stdout_path :: string
  mp_stderr_path :: string
  mp_cleanup_required :: bool
  mp_cleanup_owner_token :: "string option"
  mp_exit_code :: "int option"
  mp_exit_signal :: "string option"

record process_exit =
  px_code :: "int option"
  px_signal :: "string option"

record process_update =
  pu_expected_states :: "process_state list"
  pu_state :: process_state
  pu_stopped_at :: "time option"
  pu_reservation_token :: "string option"
  pu_cleanup_required :: "bool option"
  pu_exit :: "process_exit option"

record process_query =
  pq_worktree_id :: "ident option"
  pq_task_name :: "string option"
  pq_states :: "process_state list option"

record reservation_options =
  ro_expires_at :: "time option"
  ro_replace_process_id :: "ident option"

record reservation_row =
  sr_worktree_id :: ident
  sr_task_name :: string
  sr_token :: string
  sr_created_at :: time
  sr_expires_at :: time
  sr_replace_process_id :: "ident option"

section \<open>Repository operation leases\<close>

datatype repository_operation = Op_Remove | Op_Gc | Op_Repair | Op_Create
datatype owner_verdict = Alive | Unknown | Gone

text \<open>\<open>ORDER BY acquired_at, operation\<close> sorts the operation column as text.\<close>

fun operation_text :: "repository_operation \<Rightarrow> string" where
  "operation_text Op_Remove = ''remove''"
| "operation_text Op_Gc = ''gc''"
| "operation_text Op_Repair = ''repair''"
| "operation_text Op_Create = ''create''"

instantiation repository_operation :: linorder
begin

definition less_eq_repository_operation :: "repository_operation \<Rightarrow> repository_operation \<Rightarrow> bool" where
  "less_eq_repository_operation a b \<longleftrightarrow> operation_text a \<le> operation_text b"

definition less_repository_operation :: "repository_operation \<Rightarrow> repository_operation \<Rightarrow> bool" where
  "less_repository_operation a b \<longleftrightarrow> operation_text a < operation_text b"

lemma operation_text_inject: "operation_text a = operation_text b \<Longrightarrow> a = b"
  by (cases a; cases b) simp_all

instance
  by standard
    (auto simp: less_eq_repository_operation_def less_repository_operation_def
       intro: operation_text_inject)

end

record op_lease_row =
  ol_repository_id :: ident
  ol_operation :: repository_operation
  ol_token :: string
  ol_pid :: int
  ol_process_start_time :: string
  ol_host_id :: string
  ol_subject_worktree_id :: "ident option"
  ol_stage :: "string option"
  ol_acquired_at :: time
  ol_renewed_at :: time
  ol_expires_at :: time

text \<open>A \<open>RepositoryOperationLeaseHolder\<close> is the row without its token.\<close>

record lease_holder =
  lh_repository_id :: ident
  lh_operation :: repository_operation
  lh_pid :: int
  lh_process_start_time :: string
  lh_host_id :: string
  lh_subject_worktree_id :: "ident option"
  lh_stage :: "string option"
  lh_acquired_at :: time
  lh_renewed_at :: time
  lh_expires_at :: time

datatype lease_result =
    Acquired op_lease_row "string option"
  | Conflict lease_holder
  | Abandoned lease_holder

text \<open>
  \<open>lr_ttl_ms\<close> is \<open>None\<close> when \<open>Number.isFinite\<close> fails; \<open>lr_liveness\<close> is \<open>None\<close> when the caller passes
  no \<open>ownerLiveness\<close> callback.
\<close>

record lease_request =
  lr_repository_id :: ident
  lr_operation :: repository_operation
  lr_token :: string
  lr_pid :: jsnum
  lr_process_start_time :: string
  lr_host_id :: string
  lr_subject_worktree_id :: "ident option"
  lr_ttl_ms :: "int option"
  lr_adopt :: bool
  lr_liveness :: "(lease_holder \<Rightarrow> owner_verdict) option"

section \<open>Heavy jobs\<close>

datatype job_state =
    J_QUEUED | J_RUNNING | J_SUCCEEDED | J_FAILED | J_CANCELLED | J_TIMED_OUT | J_INTERRUPTED

datatype source_validity = Source_Unchanged | Source_Changed | Source_Unknown
datatype stop_reason = Stop_Cancelled | Stop_Timed_Out | Stop_Interrupted

record heavy_job =
  hj_id :: ident
  hj_sequence :: nat
  hj_scope :: string
  hj_workspace_id :: ident
  hj_repository_id :: ident
  hj_worktree_id :: ident
  hj_worktree_path :: string
  hj_task_name :: string
  hj_idempotency_key :: string
  hj_command_fingerprint :: string
  hj_source_fingerprint :: string
  hj_timeout_ms :: int
  hj_memory_estimate :: "int option"
  hj_state :: job_state
  hj_slot_held :: bool
  hj_process_id :: "ident option"
  hj_anchor_pid :: "int option"
  hj_created_at :: time
  hj_started_at :: "time option"
  hj_finished_at :: "time option"
  hj_exit_code :: "int option"
  hj_signal :: "string option"
  hj_error :: "string option"
  hj_source_validity :: source_validity
  hj_stop_reason :: "stop_reason option"

record job_enqueue_input =
  ji_scope :: string
  ji_workspace_id :: ident
  ji_repository_id :: ident
  ji_worktree_id :: ident
  ji_worktree_path :: string
  ji_task_name :: string
  ji_idempotency_key :: string
  ji_command_fingerprint :: string
  ji_source_fingerprint :: string
  ji_timeout_ms :: jsnum
  ji_memory_estimate :: "jsnum option"
  ji_now :: time

record job_finish_input =
  jf_state :: job_state
  jf_exit_code :: "int option"
  jf_signal :: "string option"
  jf_error :: "string option"
  jf_source_validity :: source_validity
  jf_now :: time

section \<open>Resources\<close>

datatype storage_kind = Kind_File | Kind_Directory
datatype storage_state = SO_READY | SO_STALE | SO_ORPHANED | SO_QUARANTINED | SO_REMOVED
datatype retention = Ephemeral | Persistent

record sandbox_row =
  sb_id :: ident
  sb_root :: string
  sb_generation :: string
  sb_dev :: int
  sb_ino :: int
  sb_uid :: int

record storage_object =
  so_id :: ident
  so_sandbox_id :: ident
  so_path :: string
  so_dev :: int
  so_ino :: int
  so_uid :: int
  so_kind :: storage_kind
  so_state :: storage_state
  so_retention :: retention
  so_owned :: bool
  so_created_at :: time
  so_last_used_at :: time
  so_last_verified_at :: time
  so_logical_bytes :: int
  so_allocated_bytes :: int

record resource_reference =
  rr_id :: ident
  rr_storage_object_id :: ident
  rr_owner_type :: string
  rr_owner_id :: ident
  rr_resource_name :: string
  rr_created_at :: time
  rr_released_at :: "time option"

record cleanup_request =
  cr_storage_object_id :: ident
  cr_sandbox_id :: ident
  cr_sandbox_generation :: string
  cr_path :: string
  cr_dev :: int
  cr_ino :: int
  cr_uid :: int
  cr_kind :: storage_kind
  cr_state :: storage_state
  cr_retention :: retention

record cleanup_lease =
  cl_storage_object_id :: ident
  cl_token :: string
  cl_sandbox_id :: ident
  cl_sandbox_generation :: string
  cl_path :: string
  cl_dev :: int
  cl_ino :: int
  cl_uid :: int
  cl_kind :: storage_kind
  cl_previous_state :: storage_state
  cl_retention :: retention
  cl_acquired_at :: time
  cl_expires_at :: time

datatype journal_phase =
    JP_Prepared | JP_Linked | JP_Unlinking | JP_Quarantined | JP_Deleting | JP_Deleted | JP_Finalized

record quarantine_container =
  qc_path :: string
  qc_dev :: int
  qc_ino :: int
  qc_uid :: int
  qc_mode :: int

record gc_journal_input =
  gj_operation_id :: ident
  gj_storage_object_id :: ident
  gj_phase :: journal_phase
  gj_original_path :: string
  gj_quarantine_path :: "string option"
  gj_dev :: int
  gj_ino :: int
  gj_uid :: int
  gj_sandbox_id :: ident
  gj_sandbox_generation :: string
  gj_kind :: storage_kind
  gj_container :: "quarantine_container option"

text \<open>A journal row is the input it was last written from, and when.\<close>

record gc_journal_row =
  gr_input :: gc_journal_input
  gr_updated_at :: time

section \<open>Feature creations\<close>

datatype creation_state = FC_IN_PROGRESS | FC_COMPLETED | FC_SUPERSEDED
datatype creation_phase = FP_PLANNED | FP_APPLYING | FP_APPLIED | FP_REGISTERED

record feature_row =
  ft_id :: ident
  ft_workspace_id :: ident
  ft_branch :: string
  ft_created_at :: time

record creation_row =
  fc_id :: ident
  fc_feature_id :: ident
  fc_state :: creation_state
  fc_from_ref :: "string option"
  fc_created_at :: time
  fc_updated_at :: time
  fc_completed_at :: "time option"

record member_input =
  fi_repository_id :: ident
  fi_repository_main_root :: string
  fi_position :: nat
  fi_worktree_path :: string
  fi_branch_existed :: bool
  fi_start_oid :: string

record member_row =
  fm_creation_id :: ident
  fm_repository_id :: ident
  fm_repository_main_root :: string
  fm_position :: nat
  fm_worktree_path :: string
  fm_branch_existed :: bool
  fm_start_oid :: string
  fm_phase :: creation_phase
  fm_last_error_code :: "string option"
  fm_updated_at :: time

record creation_record =
  cf_creation :: creation_row
  cf_feature :: feature_row
  cf_members :: "member_row list"

record begin_creation_input =
  bc_workspace_id :: ident
  bc_branch :: string
  bc_from_ref :: "string option"
  bc_members :: "member_input list"
  bc_supersede :: "ident option"

section \<open>Adapter trust, CI watches, task overrides, checklists\<close>

record adapter_trust =
  at_adapter_id :: ident
  at_canonical_path :: string
  at_sha256 :: string
  at_trusted_at :: time

datatype ci_state =
    CI_pending | CI_success | CI_failure | CI_cancelled | CI_timed_out | CI_no_runs
  | CI_superseded | CI_unavailable

record ci_watch =
  cw_id :: ident
  cw_sequence :: nat
  cw_repository_id :: ident
  cw_worktree_id :: ident
  cw_worktree_path :: string
  cw_provider_repo :: string
  cw_branch :: "string option"
  cw_head_sha :: string
  cw_pr :: "int option"
  cw_state :: ci_state
  cw_detail :: "string option"
  cw_started_at :: time
  cw_updated_at :: time
  cw_finished_at :: "time option"
  cw_next_poll_at :: time
  cw_poll_interval_ms :: int
  cw_failure_streak :: nat
  cw_saw_runs :: bool

record task_override =
  to_worktree_id :: ident
  to_task_name :: string
  to_task_json :: string
  to_created_at :: time
  to_updated_at :: time

record checklist_item =
  ck_worktree_id :: ident
  ck_position :: nat
  ck_text :: string
  ck_checked :: bool
  ck_created_at :: time
  ck_updated_at :: time

section \<open>The database\<close>

text \<open>
  \<open>job_owner\<close> is the singleton table \<open>heavy_job_state_owner\<close>, \<open>job_high_water\<close> the counter behind
  \<open>sequence INTEGER PRIMARY KEY AUTOINCREMENT\<close>.
\<close>

record db =
  workspaces :: "workspace_row list"
  repositories :: "repository_row list"
  worktrees :: "worktree_row list"
  endpoint_leases :: "endpoint_lease list"
  processes :: "process_row list"
  reservations :: "reservation_row list"
  op_leases :: "op_lease_row list"
  events :: "lifecycle_dispatch list"
  jobs :: "heavy_job list"
  job_high_water :: nat
  job_owner :: "string option"
  sandboxes :: "sandbox_row list"
  storage_objects :: "storage_object list"
  references :: "resource_reference list"
  cleanup_leases :: "cleanup_lease list"
  journal :: "gc_journal_row list"
  features :: "feature_row list"
  creations :: "creation_row list"
  members :: "member_row list"
  trusts :: "adapter_trust list"
  ci_watches :: "ci_watch list"
  overrides :: "task_override list"
  checklist :: "checklist_item list"

definition empty_db :: db where
  "empty_db = \<lparr> workspaces = [], repositories = [], worktrees = [], endpoint_leases = [],
     processes = [], reservations = [], op_leases = [], events = [], jobs = [], job_high_water = 0,
     job_owner = None, sandboxes = [], storage_objects = [], references = [], cleanup_leases = [],
     journal = [], features = [], creations = [], members = [], trusts = [], ci_watches = [],
     overrides = [], checklist = [] \<rparr>"

end
