(* ===== verification/Job_Memory.thy ===== *)
theory Job_Memory
  imports Store_Types
begin

text \<open>
  Memory admission of heavy jobs (\<open>packages/core/src/state/job-memory.ts\<close>): the capacity left by the
  budget and the host reserve, and the test whether one more job fits beside the held ones.
\<close>

section \<open>Definitions\<close>

record memory_admission =
  ma_budget_bytes :: jsnum
  ma_reserve_bytes :: jsnum
  ma_available_bytes :: "jsnum option"
  ma_total_bytes :: "jsnum option"

definition valid_bytes :: "jsnum option \<Rightarrow> bool" where
  "valid_bytes v = (case v of None \<Rightarrow> False | Some x \<Rightarrow> is_safe_integer x \<and> whole x \<ge> 0)"

definition bytes :: "jsnum option \<Rightarrow> int" where
  "bytes v = (case v of None \<Rightarrow> 0 | Some x \<Rightarrow> whole x)"

definition memory_capacity :: "memory_admission \<Rightarrow> int" where
  "memory_capacity m =
    (if \<not> valid_bytes (Some (ma_budget_bytes m)) \<or> \<not> valid_bytes (Some (ma_reserve_bytes m)) then 0
     else min (whole (ma_budget_bytes m))
       (if valid_bytes (ma_total_bytes m)
        then max 0 (bytes (ma_total_bytes m) - whole (ma_reserve_bytes m))
        else whole (ma_budget_bytes m)))"

definition memory_estimate_error :: "jsnum option \<Rightarrow> memory_admission \<Rightarrow> job_error_code option" where
  "memory_estimate_error estimate m =
    (if \<not> valid_bytes estimate \<or> bytes estimate = 0 then Some JOB_MEMORY_ESTIMATE_REQUIRED
     else if bytes estimate > memory_capacity m then Some JOB_MEMORY_BUDGET_EXCEEDED
     else None)"

text \<open>
  The sum is taken over integers. JavaScript adds the same safe integers as doubles, which is exact
  below \<open>2\<^sup>5\<^sup>3\<close> and stays at least \<open>2\<^sup>5\<^sup>3\<close> from the first partial sum that reaches it, so the test
  \<open>Number.isSafeInteger(held)\<close> has the same outcome.
\<close>

definition memory_allows_claim ::
  "jsnum option \<Rightarrow> jsnum option list \<Rightarrow> memory_admission \<Rightarrow> bool" where
  "memory_allows_claim estimate held_estimates m =
    (if memory_estimate_error estimate m \<noteq> None \<or> \<not> valid_bytes (ma_available_bytes m)
        \<or> list_ex (\<lambda>h. \<not> valid_bytes h \<or> bytes h = 0) held_estimates
     then False
     else let held = sum_list (map bytes held_estimates) in
       if \<not> is_safe_integer (Whole held) then False
       else let capacity = min (memory_capacity m)
                  (max 0 (bytes (ma_available_bytes m) - whole (ma_reserve_bytes m)))
            in bytes estimate \<le> capacity - held)"

section \<open>Lemmas\<close>

lemma valid_bytes_nonneg: "valid_bytes v \<Longrightarrow> 0 \<le> bytes v"
  by (auto simp: valid_bytes_def bytes_def split: option.splits)

lemma valid_bytes_Whole [simp]:
  "valid_bytes (Some (Whole n)) \<longleftrightarrow> 0 \<le> n \<and> n \<le> max_safe_integer"
  by (auto simp: valid_bytes_def max_safe_integer_def)

lemma bytes_Whole [simp]: "bytes (Some (Whole n)) = n"
  by (simp add: bytes_def)

lemma memory_capacity_nonneg: "0 \<le> memory_capacity m"
  by (auto simp: memory_capacity_def valid_bytes_def)

lemma memory_capacity_le_budget:
  "valid_bytes (Some (ma_budget_bytes m)) \<Longrightarrow> memory_capacity m \<le> whole (ma_budget_bytes m)"
  by (auto simp: memory_capacity_def valid_bytes_def)

lemma memory_estimate_okD:
  assumes "memory_estimate_error e m = None"
  shows "valid_bytes e" "0 < bytes e" "bytes e \<le> memory_capacity m"
  using assms valid_bytes_nonneg [of e]
  by (auto simp: memory_estimate_error_def split: if_splits)

lemma memory_capacity_positiveD:
  assumes "0 < memory_capacity m"
  shows "valid_bytes (Some (ma_budget_bytes m))" "valid_bytes (Some (ma_reserve_bytes m))"
  using assms by (auto simp: memory_capacity_def split: if_splits)

lemma memory_allows_claimD:
  assumes "memory_allows_claim e hs m"
  shows "memory_estimate_error e m = None"
    and "\<And>h. h \<in> set hs \<Longrightarrow> 0 < bytes h"
    and "bytes e + sum_list (map bytes hs) \<le> memory_capacity m"
    and "bytes e + sum_list (map bytes hs)
           \<le> max 0 (bytes (ma_available_bytes m) - whole (ma_reserve_bytes m))"
proof -
  from assms show "memory_estimate_error e m = None"
    by (auto simp: memory_allows_claim_def split: if_splits)
  show "\<And>h. h \<in> set hs \<Longrightarrow> 0 < bytes h"
    using assms valid_bytes_nonneg
    by (force simp: memory_allows_claim_def list_ex_iff split: if_splits)
  show "bytes e + sum_list (map bytes hs) \<le> memory_capacity m"
    "bytes e + sum_list (map bytes hs)
       \<le> max 0 (bytes (ma_available_bytes m) - whole (ma_reserve_bytes m))"
    using assms by (auto simp: memory_allows_claim_def Let_def split: if_splits)
qed

section \<open>The admission interface\<close>

text \<open>
  What the scheduler relies on when it admits a job: an admitted job fits the capacity together
  with every held reservation. \<open>reserved\<close> is what a list of held jobs reserves.
\<close>

locale admission =
  fixes size_of :: "'e \<Rightarrow> int"
    and allows :: "'e \<Rightarrow> 'e list \<Rightarrow> 'm \<Rightarrow> bool"
    and capacity :: "'m \<Rightarrow> int"
  assumes fits: "allows e hs m \<Longrightarrow> size_of e + sum_list (map size_of hs) \<le> capacity m"
    and positive: "allows e hs m \<Longrightarrow> 0 < size_of e"
begin

lemma admitted_within:
  assumes "allows e hs m" and "capacity m \<le> budget"
  shows "sum_list (map size_of (e # hs)) \<le> budget"
  using fits [OF assms(1)] assms(2) by simp

lemma refused_when_full:
  assumes "capacity m \<le> sum_list (map size_of hs)"
  shows "\<not> allows e hs m"
proof
  assume "allows e hs m"
  from fits [OF this] positive [OF this] assms show False by simp
qed

end

interpretation memory: admission bytes memory_allows_claim memory_capacity
  by unfold_locales (auto dest: memory_allows_claimD memory_estimate_okD)

section \<open>Properties\<close>

lemma memory_admission_fits:
  assumes "memory_allows_claim estimate held m"
  shows "sum_list (map bytes (estimate # held)) \<le> whole (ma_budget_bytes m)"
proof -
  note e = memory_estimate_okD [OF memory_allows_claimD(1) [OF assms]]
  have cap: "valid_bytes (Some (ma_budget_bytes m))"
    by (rule memory_capacity_positiveD) (use e in linarith)
  show ?thesis by (rule memory.admitted_within [OF assms memory_capacity_le_budget [OF cap]])
qed

text \<open>
  An admitted job fits: its estimate together with all held estimates stays within the
  configured budget, and, with the reserve, within the memory sampled as available.
\<close>

theorem memory_admission_bound:
  assumes "memory_allows_claim estimate held m"
  shows "sum_list (map bytes (estimate # held)) \<le> whole (ma_budget_bytes m)
    \<and> sum_list (map bytes (estimate # held)) + whole (ma_reserve_bytes m) \<le> bytes (ma_available_bytes m)"
proof -
  note d = memory_allows_claimD [OF assms]
  have "0 \<le> sum_list (map bytes held)"
    by (rule sum_list_nonneg) (auto dest: d(2))
  with memory_admission_fits [OF assms] d(4) memory_estimate_okD(2) [OF d(1)] show ?thesis by auto
qed

lemma memory_admission_bound_witness:
  "memory_allows_claim (Some (Whole 300)) [Some (Whole 200)]
     \<lparr>ma_budget_bytes = Whole 1000, ma_reserve_bytes = Whole 100,
      ma_available_bytes = Some (Whole 700), ma_total_bytes = None\<rparr> \<and>
   sum_list (map bytes [Some (Whole 300), Some (Whole 200)]) \<le> 1000"
proof -
  let ?m = "\<lparr>ma_budget_bytes = Whole 1000, ma_reserve_bytes = Whole 100,
      ma_available_bytes = Some (Whole 700), ma_total_bytes = None\<rparr>"
  have a: "memory_allows_claim (Some (Whole 300)) [Some (Whole 200)] ?m"
    by (simp add: memory_allows_claim_def memory_estimate_error_def memory_capacity_def
        max_safe_integer_def valid_bytes_def [of None] Let_def)
  with memory_admission_bound [OF a] show ?thesis by simp
qed

end
