(* ===== verification/Job_Schedule.thy ===== *)
theory Job_Schedule
  imports Job_Memory
begin

text \<open>
  The scheduling decision of the heavy-job queue (\<open>packages/core/src/state/job-scheduling.ts\<close>): why
  each queued job waits, from a FIFO snapshot of the queued and held jobs.
\<close>

section \<open>Definitions\<close>

record scheduling_entry =
  se_job_id :: ident
  se_state :: job_state
  se_slot_held :: bool
  se_worktree_busy :: bool
  se_memory_estimate :: "jsnum option"

datatype waiting_reason =
    Wait_Concurrency | Wait_Worktree_Busy | Wait_Fifo | Wait_Dispatch_Pending | Wait_Memory_Budget

text \<open>
  The loop over the entries. \<open>entry !== head\<close> compares object identities, and \<open>head\<close> is the first
  queued entry: the loop carries whether it has been passed.
\<close>

definition waiting_reason_of ::
  "bool \<Rightarrow> jsnum option list \<Rightarrow> memory_admission option \<Rightarrow> bool \<Rightarrow> scheduling_entry \<Rightarrow> waiting_reason" where
  "waiting_reason_of full held memory passed e =
    (if full then Wait_Concurrency
     else if passed then Wait_Fifo
     else if se_worktree_busy e then Wait_Worktree_Busy
     else if (case memory of None \<Rightarrow> False
              | Some m \<Rightarrow> \<not> memory_allows_claim (se_memory_estimate e) held m)
          then Wait_Memory_Budget
     else Wait_Dispatch_Pending)"

fun waiting_loop ::
  "bool \<Rightarrow> jsnum option list \<Rightarrow> memory_admission option \<Rightarrow> bool \<Rightarrow> scheduling_entry list
   \<Rightarrow> (ident \<times> waiting_reason) list \<Rightarrow> (ident \<times> waiting_reason) list" where
  "waiting_loop full held memory passed [] reasons = reasons"
| "waiting_loop full held memory passed (e # es) reasons =
    (if se_state e \<noteq> J_QUEUED then waiting_loop full held memory passed es reasons
     else waiting_loop full held memory True es
       (map_set (se_job_id e) (waiting_reason_of full held memory passed e) reasons))"

definition slots_held :: "scheduling_entry list \<Rightarrow> nat" where
  "slots_held entries = count_where se_slot_held entries"

definition job_waiting_reasons ::
  "scheduling_entry list \<Rightarrow> jsnum \<Rightarrow> memory_admission option
   \<Rightarrow> store_error + (ident \<times> waiting_reason) list" where
  "job_waiting_reasons entries max_concurrent memory =
    (if \<not> is_safe_integer max_concurrent \<or> whole max_concurrent < 1 then Inl Type_Error
     else let full = int (slots_held entries) \<ge> whole max_concurrent;
              held = map se_memory_estimate (filter se_slot_held entries)
          in Inr (waiting_loop full held memory False entries []))"

section \<open>Lemmas\<close>

abbreviation queued_entries :: "scheduling_entry list \<Rightarrow> scheduling_entry list" where
  "queued_entries es \<equiv> filter (\<lambda>e. se_state e = J_QUEUED) es"

lemma waiting_loop_append:
  assumes "distinct (map se_job_id (queued_entries es))"
    and "\<forall>e\<in>set (queued_entries es). se_job_id e \<notin> fst ` set acc"
  shows "\<exists>others. waiting_loop full held memory passed es acc = acc @ others \<and>
    map fst others = map se_job_id (queued_entries es)"
  using assms
proof (induction es arbitrary: acc passed)
  case Nil
  then show ?case by simp
next
  case (Cons e es)
  show ?case
  proof (cases "se_state e = J_QUEUED")
    case False
    with Cons show ?thesis by simp
  next
    case True
    let ?r = "waiting_reason_of full held memory passed e"
    from True Cons.prems have new: "map_set (se_job_id e) ?r acc = acc @ [(se_job_id e, ?r)]"
      by (simp add: map_set_new)
    have "\<exists>others. waiting_loop full held memory True es (acc @ [(se_job_id e, ?r)])
        = (acc @ [(se_job_id e, ?r)]) @ others \<and> map fst others = map se_job_id (queued_entries es)"
      by (rule Cons.IH) (use True Cons.prems in \<open>auto simp: image_iff\<close>)
    with True new show ?thesis by auto
  qed
qed

lemma waiting_loop_no_queued:
  "queued_entries es = [] \<Longrightarrow> waiting_loop full held memory passed es acc = acc"
  by (induction es) (auto split: if_splits)

lemma waiting_loop_head:
  assumes "queued_entries es = e # rest" and "distinct (map se_job_id (queued_entries es))"
  shows "\<exists>others. waiting_loop full held memory False es [] =
    (se_job_id e, waiting_reason_of full held memory False e) # others"
  using assms
proof (induction es)
  case Nil
  then show ?case by simp
next
  case (Cons a es)
  show ?case
  proof (cases "se_state a = J_QUEUED")
    case False
    with Cons show ?thesis by simp
  next
    case True
    let ?acc = "[(se_job_id e, waiting_reason_of full held memory False e)]"
    from True Cons.prems have e: "a = e" "queued_entries es = rest" by auto
    have "distinct (map se_job_id (queued_entries es))"
      and "\<forall>x\<in>set (queued_entries es). se_job_id x \<notin> fst ` set ?acc"
      using True Cons.prems(2) e(1) by (auto simp: image_iff)
    from waiting_loop_append [OF this]
    obtain others where "waiting_loop full held memory True es ?acc = ?acc @ others"
      by blast
    with True e show ?thesis by simp
  qed
qed

text \<open>The head of the reasons decides a claim: what a dispatchable head says about the snapshot.\<close>

lemma dispatch_pending_head:
  assumes ok: "job_waiting_reasons es n memory = Inr ((i, Wait_Dispatch_Pending) # others)"
    and dist: "distinct (map se_job_id (queued_entries es))"
  shows "\<exists>e rest. queued_entries es = e # rest \<and> se_job_id e = i \<and> \<not> se_worktree_busy e \<and>
    int (slots_held es) < whole n \<and>
    (case memory of None \<Rightarrow> True | Some m \<Rightarrow>
       memory_allows_claim (se_memory_estimate e) (map se_memory_estimate (filter se_slot_held es)) m)"
proof (cases "queued_entries es")
  case Nil
  with ok show ?thesis
    by (auto simp: job_waiting_reasons_def Let_def waiting_loop_no_queued split: if_splits)
next
  case (Cons e rest)
  let ?full = "int (slots_held es) \<ge> whole n"
  let ?held = "map se_memory_estimate (filter se_slot_held es)"
  from ok have "waiting_loop ?full ?held memory False es [] = (i, Wait_Dispatch_Pending) # others"
    by (auto simp: job_waiting_reasons_def Let_def split: if_splits)
  with waiting_loop_head [OF Cons dist, of ?full ?held memory] Cons show ?thesis
    by (auto simp: waiting_reason_of_def split: if_splits option.splits)
qed

end
