(* ===== verification/Job_Store.thy ===== *)
theory Job_Store
  imports Job_Schedule
begin

text \<open>
  The durable heavy-job queue (\<open>packages/core/src/state/jobs-store.ts\<close>, \<open>jobs.ts\<close>): admission with
  idempotency keys, claiming under the concurrency limit, binding of processes, cancellation,
  finalization and pruning. Every operation is one SQLite transaction, hence one function on the
  database; an operation that throws returns \<open>Inl\<close> and leaves the database as it was.
\<close>

section \<open>Definitions\<close>

definition max_pending_heavy_jobs :: nat where
  "max_pending_heavy_jobs = 128"

definition max_retained_heavy_jobs :: nat where
  "max_retained_heavy_jobs = 256"

definition heavy_job_retention_ms :: int where
  "heavy_job_retention_ms = 7 * 24 * 60 * 60 * 1000"

definition max_memory_estimate :: int where
  "max_memory_estimate = 1099511627776"

fun stop_state :: "stop_reason \<Rightarrow> job_state" where
  "stop_state Stop_Cancelled = J_CANCELLED"
| "stop_state Stop_Timed_Out = J_TIMED_OUT"
| "stop_state Stop_Interrupted = J_INTERRUPTED"

fun stop_text :: "stop_reason \<Rightarrow> string" where
  "stop_text Stop_Cancelled = ''CANCELLED''"
| "stop_text Stop_Timed_Out = ''TIMED_OUT''"
| "stop_text Stop_Interrupted = ''INTERRUPTED''"

fun memory_error_text :: "job_error_code \<Rightarrow> string" where
  "memory_error_text JOB_MEMORY_ESTIMATE_REQUIRED = ''WTM_JOB_MEMORY_ESTIMATE_REQUIRED''"
| "memory_error_text JOB_MEMORY_BUDGET_EXCEEDED = ''WTM_JOB_MEMORY_BUDGET_EXCEEDED''"
| "memory_error_text _ = ''''"

text \<open>The condition \<open>state = 'QUEUED' OR slot_held = 1\<close> of most statements.\<close>

definition pending :: "heavy_job \<Rightarrow> bool" where
  "pending j \<longleftrightarrow> hj_state j = J_QUEUED \<or> hj_slot_held j"

definition assert_no_heavy_jobs :: "db \<Rightarrow> ident \<Rightarrow> store_error + unit" where
  "assert_no_heavy_jobs s repository_id =
    (if exists_where (\<lambda>j. hj_repository_id j = repository_id \<and> pending j) (jobs s)
     then Inl (Heavy_Job_Error OPERATION_CONFLICT) else Inr ())"

definition scheduling_snapshot :: "db \<Rightarrow> string \<Rightarrow> scheduling_entry list" where
  "scheduling_snapshot s scope =
    map (\<lambda>j. \<lparr> se_job_id = hj_id j, se_state = hj_state j, se_slot_held = hj_slot_held j,
               se_worktree_busy =
                 exists_where (\<lambda>occ. hj_worktree_id occ = hj_worktree_id j \<and> hj_slot_held occ) (jobs s),
               se_memory_estimate = map_option Whole (hj_memory_estimate j) \<rparr>)
      (sort_key hj_sequence (filter (\<lambda>j. hj_scope j = scope \<and> pending j) (jobs s)))"

definition get_job_by_id :: "db \<Rightarrow> ident \<Rightarrow> store_error + heavy_job" where
  "get_job_by_id s job_id = (case row_by hj_id job_id (jobs s) of
     None \<Rightarrow> Inl (Heavy_Job_Error JOB_NOT_FOUND) | Some j \<Rightarrow> Inr j)"

definition assert_registered :: "db \<Rightarrow> ident \<Rightarrow> ident \<Rightarrow> string \<Rightarrow> store_error + unit" where
  "assert_registered s repository_id worktree_id worktree_path =
    (case find (\<lambda>w. wt_id w = worktree_id \<and> wt_repository_id w = repository_id) (worktrees s) of
       None \<Rightarrow> Inl (Heavy_Job_Error OPERATION_CONFLICT)
     | Some w \<Rightarrow>
         if wt_path w \<noteq> worktree_path
           \<or> wt_state w \<in> {WT_CLEANING, WT_DEGRADED_CLEANUP, WT_REMOVED, WT_ORPHANED}
         then Inl (Heavy_Job_Error OPERATION_CONFLICT)
         else if exists_where (\<lambda>l. ol_repository_id l = repository_id) (op_leases s)
         then Inl (Heavy_Job_Error OPERATION_CONFLICT)
         else Inr ())"

definition assert_scope :: "db \<Rightarrow> string \<Rightarrow> store_error + db" where
  "assert_scope s scope = (case job_owner s of
     Some owner \<Rightarrow> if owner \<noteq> scope then Inl (Heavy_Job_Error JOB_NOT_QUEUEABLE) else Inr s
   | None \<Rightarrow> Inr (s\<lparr>job_owner := Some scope\<rparr>))"

text \<open>\<open>new_id\<close> is the \<open>randomUUID()\<close> of this call; a value in use violates \<open>job_id UNIQUE\<close>.\<close>

definition enqueue_job ::
  "db \<Rightarrow> job_enqueue_input \<Rightarrow> ident \<Rightarrow> store_error + (db \<times> heavy_job \<times> bool)" where
  "enqueue_job s i new_id =
    (if \<not> safe_positive (ji_timeout_ms i) \<or> length (ji_idempotency_key i) < 1 then Inl Type_Error
     else if (case ji_memory_estimate i of None \<Rightarrow> False
              | Some e \<Rightarrow> \<not> is_safe_integer e \<or> whole e < 1 \<or> whole e > max_memory_estimate)
     then Inl Type_Error
     else case find (\<lambda>j. hj_scope j = ji_scope i \<and> hj_idempotency_key j = ji_idempotency_key i) (jobs s) of
       Some job \<Rightarrow>
         if hj_worktree_id job \<noteq> ji_worktree_id i \<or> hj_task_name job \<noteq> ji_task_name i
           \<or> hj_command_fingerprint job \<noteq> ji_command_fingerprint i
           \<or> hj_source_fingerprint job \<noteq> ji_source_fingerprint i
           \<or> Whole (hj_timeout_ms job) \<noteq> ji_timeout_ms i
           \<or> map_option Whole (hj_memory_estimate job) \<noteq> ji_memory_estimate i
         then Inl (Heavy_Job_Error JOB_IDEMPOTENCY_CONFLICT)
         else Inr (s, job, True)
     | None \<Rightarrow>
         (case assert_registered s (ji_repository_id i) (ji_worktree_id i) (ji_worktree_path i) of
            Inl e \<Rightarrow> Inl e
          | Inr _ \<Rightarrow>
            if count_where (\<lambda>j. hj_scope j = ji_scope i \<and> pending j) (jobs s) \<ge> max_pending_heavy_jobs
              \<or> count_where (\<lambda>j. hj_scope j = ji_scope i) (jobs s)
                  \<ge> max_pending_heavy_jobs + max_retained_heavy_jobs
            then Inl (Heavy_Job_Error JOB_QUEUE_FULL)
            else if exists_where (\<lambda>j. hj_id j = new_id) (jobs s)
            then Inl (Plain_Error Constraint_Violation)
            else let job = \<lparr> hj_id = new_id, hj_sequence = Suc (job_high_water s), hj_scope = ji_scope i,
                   hj_workspace_id = ji_workspace_id i, hj_repository_id = ji_repository_id i,
                   hj_worktree_id = ji_worktree_id i, hj_worktree_path = ji_worktree_path i,
                   hj_task_name = ji_task_name i, hj_idempotency_key = ji_idempotency_key i,
                   hj_command_fingerprint = ji_command_fingerprint i,
                   hj_source_fingerprint = ji_source_fingerprint i,
                   hj_timeout_ms = whole (ji_timeout_ms i),
                   hj_memory_estimate = map_option whole (ji_memory_estimate i),
                   hj_state = J_QUEUED, hj_slot_held = False, hj_process_id = None,
                   hj_anchor_pid = None, hj_created_at = ji_now i, hj_started_at = None,
                   hj_finished_at = None, hj_exit_code = None, hj_signal = None, hj_error = None,
                   hj_source_validity = Source_Unknown, hj_stop_reason = None \<rparr>
              in Inr (s\<lparr>jobs := jobs s @ [job], job_high_water := Suc (job_high_water s)\<rparr>, job, False)))"

definition get_job :: "db \<Rightarrow> ident \<Rightarrow> string \<Rightarrow> heavy_job option" where
  "get_job s job_id scope = find (\<lambda>j. hj_id j = job_id \<and> hj_scope j = scope) (jobs s)"

definition list_jobs :: "db \<Rightarrow> string \<Rightarrow> int \<Rightarrow> heavy_job list" where
  "list_jobs s scope limit = take (nat (min 100 (max 1 limit)))
     (rev (sort_key hj_sequence (filter (\<lambda>j. hj_scope j = scope) (jobs s))))"

definition active_jobs :: "db \<Rightarrow> string \<Rightarrow> heavy_job list" where
  "active_jobs s scope = sort_key hj_sequence (filter (\<lambda>j. hj_scope j = scope \<and> pending j) (jobs s))"

definition store_waiting_reasons ::
  "db \<Rightarrow> string \<Rightarrow> jsnum \<Rightarrow> memory_admission option \<Rightarrow> store_error + (ident \<times> waiting_reason) list" where
  "store_waiting_reasons s scope max_concurrent memory =
     job_waiting_reasons (scheduling_snapshot s scope) max_concurrent memory"

definition upd_jobs :: "(heavy_job \<Rightarrow> bool) \<Rightarrow> (heavy_job \<Rightarrow> heavy_job) \<Rightarrow> db \<Rightarrow> db" where
  "upd_jobs P f s = s\<lparr>jobs := upd_where P f (jobs s)\<rparr>"

text \<open>
  The filter at the head of \<open>claim\<close>: a queued job that can no longer fit the memory policy fails,
  in FIFO order, and leaves the snapshot.
\<close>

fun fail_unfit ::
  "memory_admission \<Rightarrow> time \<Rightarrow> scheduling_entry list \<Rightarrow> db \<Rightarrow> scheduling_entry list \<times> db" where
  "fail_unfit m now [] s = ([], s)"
| "fail_unfit m now (e # es) s =
    (if se_state e \<noteq> J_QUEUED \<or> se_slot_held e
     then (let (es', s') = fail_unfit m now es s in (e # es', s'))
     else case memory_estimate_error (se_memory_estimate e) m of
       None \<Rightarrow> (let (es', s') = fail_unfit m now es s in (e # es', s'))
     | Some err \<Rightarrow> fail_unfit m now es
         (upd_jobs (\<lambda>j. hj_id j = se_job_id e \<and> hj_state j = J_QUEUED \<and> \<not> hj_slot_held j)
            (\<lambda>j. j\<lparr>hj_state := J_FAILED, hj_finished_at := Some now,
                    hj_error := Some (memory_error_text err)\<rparr>) s))"

definition claim_job ::
  "db \<Rightarrow> string \<Rightarrow> jsnum \<Rightarrow> time \<Rightarrow> memory_admission option \<Rightarrow> store_error + (db \<times> heavy_job option)" where
  "claim_job s scope max_concurrent now memory =
    (if \<not> safe_positive max_concurrent then Inl Type_Error
     else let (entries, s1) = (case memory of None \<Rightarrow> (scheduling_snapshot s scope, s)
                               | Some m \<Rightarrow> fail_unfit m now (scheduling_snapshot s scope) s)
     in case job_waiting_reasons entries max_concurrent memory of
       Inl e \<Rightarrow> Inl e
     | Inr reasons \<Rightarrow> (case reasons of
         [] \<Rightarrow> Inr (s1, None)
       | (job_id, reason) # _ \<Rightarrow>
           if reason \<noteq> Wait_Dispatch_Pending then Inr (s1, None)
           else (case get_job_by_id s1 job_id of
             Inl e \<Rightarrow> Inl e
           | Inr job \<Rightarrow>
             (case assert_registered s1 (hj_repository_id job) (hj_worktree_id job) (hj_worktree_path job) of
                Inl _ \<Rightarrow> Inr (upd_jobs (\<lambda>j. hj_id j = hj_id job)
                  (\<lambda>j. j\<lparr>hj_state := J_INTERRUPTED, hj_finished_at := Some now,
                          hj_error := Some ''WORKTREE_UNAVAILABLE''\<rparr>) s1, None)
              | Inr _ \<Rightarrow>
                let s2 = upd_jobs (\<lambda>j. hj_id j = hj_id job \<and> hj_state j = J_QUEUED)
                  (\<lambda>j. j\<lparr>hj_state := J_RUNNING, hj_slot_held := True, hj_started_at := Some now\<rparr>) s1
                in case get_job_by_id s2 (hj_id job) of Inl e \<Rightarrow> Inl e | Inr j \<Rightarrow> Inr (s2, Some j)))))"

definition bind_process :: "db \<Rightarrow> ident \<Rightarrow> ident \<Rightarrow> db \<times> bool" where
  "bind_process s job_id process_id =
    (let P = (\<lambda>j. hj_id j = job_id \<and> hj_state j = J_RUNNING \<and> hj_slot_held j \<and> hj_process_id j = None)
     in (upd_jobs P (\<lambda>j. j\<lparr>hj_process_id := Some process_id\<rparr>) s, count_where P (jobs s) = 1))"

definition bind_anchor :: "db \<Rightarrow> ident \<Rightarrow> jsnum \<Rightarrow> store_error + (db \<times> bool)" where
  "bind_anchor s job_id pid =
    (if \<not> safe_positive pid then Inl Type_Error
     else let P = (\<lambda>j. hj_id j = job_id \<and> hj_state j = J_RUNNING \<and> hj_slot_held j \<and> hj_anchor_pid j = None)
     in Inr (upd_jobs P (\<lambda>j. j\<lparr>hj_anchor_pid := Some (whole pid)\<rparr>) s, count_where P (jobs s) = 1))"

definition request_cancellation ::
  "db \<Rightarrow> ident \<Rightarrow> string \<Rightarrow> stop_reason \<Rightarrow> time \<Rightarrow> store_error + (db \<times> heavy_job)" where
  "request_cancellation s job_id scope reason now =
    (case get_job_by_id s job_id of
       Inl e \<Rightarrow> Inl e
     | Inr job \<Rightarrow>
       if hj_scope job \<noteq> scope then Inl (Heavy_Job_Error JOB_NOT_FOUND)
       else let s' =
         (if hj_state job = J_QUEUED then upd_jobs (\<lambda>j. hj_id j = job_id)
            (\<lambda>j. j\<lparr>hj_state := stop_state reason, hj_stop_reason := Some reason,
                    hj_error := Some (if reason = Stop_Cancelled then ''USER_CANCELLED'' else stop_text reason),
                    hj_finished_at := Some now\<rparr>) s
          else if hj_slot_held job \<and> hj_stop_reason job = None
          then upd_jobs (\<lambda>j. hj_id j = job_id) (\<lambda>j. j\<lparr>hj_stop_reason := Some reason\<rparr>) s
          else s)
       in case get_job_by_id s' job_id of Inl e \<Rightarrow> Inl e | Inr j \<Rightarrow> Inr (s', j))"

definition confirm_timeout :: "db \<Rightarrow> ident \<Rightarrow> string \<Rightarrow> store_error + (db \<times> heavy_job)" where
  "confirm_timeout s job_id scope =
    (case get_job_by_id s job_id of
       Inl e \<Rightarrow> Inl e
     | Inr job \<Rightarrow>
       if hj_scope job \<noteq> scope then Inl (Heavy_Job_Error JOB_NOT_FOUND)
       else let s' = upd_jobs (\<lambda>j. hj_id j = job_id \<and> hj_scope j = scope \<and> hj_state j = J_RUNNING
                \<and> hj_slot_held j \<and> (hj_stop_reason j = None \<or> hj_stop_reason j = Some Stop_Interrupted))
              (\<lambda>j. j\<lparr>hj_stop_reason := Some Stop_Timed_Out\<rparr>) s
       in case get_job_by_id s' job_id of Inl e \<Rightarrow> Inl e | Inr j \<Rightarrow> Inr (s', j))"

definition coalesce :: "'a option \<Rightarrow> 'a option \<Rightarrow> 'a option" where
  "coalesce a b = (case a of None \<Rightarrow> b | Some _ \<Rightarrow> a)"

definition finish_error :: "heavy_job \<Rightarrow> job_finish_input \<Rightarrow> string option" where
  "finish_error job i = (case hj_stop_reason job of
     Some Stop_Cancelled \<Rightarrow> Some ''USER_CANCELLED''
   | Some Stop_Timed_Out \<Rightarrow>
       if jf_state i = J_TIMED_OUT then coalesce (jf_error i) (Some ''TIMEOUT'') else Some ''TIMEOUT''
   | Some Stop_Interrupted \<Rightarrow>
       coalesce (if jf_state i = J_INTERRUPTED then jf_error i else None)
         (coalesce (hj_error job) (Some ''DAEMON_INTERRUPTED''))
   | None \<Rightarrow> jf_error i)"

definition finish_job :: "db \<Rightarrow> ident \<Rightarrow> job_finish_input \<Rightarrow> store_error + (db \<times> heavy_job)" where
  "finish_job s job_id i =
    (case get_job_by_id s job_id of
       Inl e \<Rightarrow> Inl e
     | Inr job \<Rightarrow>
       if hj_state job \<noteq> J_QUEUED \<and> \<not> hj_slot_held job then Inr (s, job)
       else let state = (case hj_stop_reason job of Some r \<Rightarrow> stop_state r | None \<Rightarrow> jf_state i);
                s' = upd_jobs (\<lambda>j. hj_id j = job_id \<and> pending j)
                  (\<lambda>j. j\<lparr>hj_state := state, hj_slot_held := False, hj_finished_at := Some (jf_now i),
                          hj_exit_code := jf_exit_code i, hj_signal := jf_signal i,
                          hj_error := finish_error job i,
                          hj_source_validity := jf_source_validity i\<rparr>) s
       in case get_job_by_id s' job_id of Inl e \<Rightarrow> Inl e | Inr j \<Rightarrow> Inr (s', j))"

definition set_job_error :: "db \<Rightarrow> ident \<Rightarrow> string \<Rightarrow> db" where
  "set_job_error s job_id err =
     upd_jobs (\<lambda>j. hj_id j = job_id \<and> hj_slot_held j) (\<lambda>j. j\<lparr>hj_error := Some err\<rparr>) s"

definition prunable_jobs :: "db \<Rightarrow> string \<Rightarrow> time \<Rightarrow> heavy_job list" where
  "prunable_jobs s scope now =
    (let cutoff = int now - heavy_job_retention_ms;
         rows = rev (sort_key hj_sequence
           (filter (\<lambda>j. hj_scope j = scope \<and> \<not> hj_slot_held j \<and> hj_state j \<noteq> J_QUEUED) (jobs s)))
     in map snd (filter (\<lambda>(index, job). index \<ge> max_retained_heavy_jobs
          \<or> int (case hj_finished_at job of Some t \<Rightarrow> t | None \<Rightarrow> hj_created_at job) < cutoff)
          (enumerate 0 rows)))"

definition live_process :: "process_row \<Rightarrow> bool" where
  "live_process p \<longleftrightarrow> mp_cleanup_required p \<or> mp_state p \<in> {PS_STARTING, PS_RUNNING, PS_STOPPING}"

definition delete_finished :: "db \<Rightarrow> ident \<Rightarrow> store_error + (db \<times> bool)" where
  "delete_finished s job_id =
    (case get_job_by_id s job_id of
       Inl e \<Rightarrow> Inl e
     | Inr job \<Rightarrow>
       if hj_slot_held job \<or> hj_state job = J_QUEUED then Inr (s, False)
       else if (case hj_process_id job of None \<Rightarrow> False
                | Some p \<Rightarrow> exists_where (\<lambda>r. mp_id r = p \<and> live_process r) (processes s))
       then Inr (s, False)
       else let s1 = (case hj_process_id job of None \<Rightarrow> s
                | Some p \<Rightarrow> s\<lparr>processes := del_where (\<lambda>r. mp_id r = p \<and> \<not> live_process r) (processes s)\<rparr>)
       in Inr (s1\<lparr>jobs := del_where (\<lambda>j. hj_id j = job_id) (jobs s1)\<rparr>,
               count_where (\<lambda>j. hj_id j = job_id) (jobs s1) = 1))"

end
