(* ===== verification/Job_Invariants.thy ===== *)
theory Job_Invariants
  imports Job_Store
begin

text \<open>
  What every operation of the job store keeps: the abstract life cycle of a job, the
  well-formedness of its row, and the invariants of the whole table (unique ids and keys, FIFO
  order, the slot limit, one held job per worktree, the bound on pending jobs).
\<close>

section \<open>The abstract life cycle\<close>

definition terminal :: "job_state \<Rightarrow> bool" where
  "terminal st \<longleftrightarrow> st \<noteq> J_QUEUED \<and> st \<noteq> J_RUNNING"

text \<open>The promise of the queue: a job is queued, then runs, then ends, and never changes after.\<close>

fun may_follow :: "job_state \<Rightarrow> job_state \<Rightarrow> bool" where
  "may_follow J_QUEUED st \<longleftrightarrow> True"
| "may_follow J_RUNNING st \<longleftrightarrow> st \<noteq> J_QUEUED"
| "may_follow st st' \<longleftrightarrow> st' = st"

lemma may_follow_refl [simp]: "may_follow st st"
  by (cases st) auto

lemma may_follow_trans: "may_follow a b \<Longrightarrow> may_follow b c \<Longrightarrow> may_follow a c"
  by (cases a; cases b; cases c) auto

lemma terminal_simps [simp]:
  "\<not> terminal J_QUEUED" "\<not> terminal J_RUNNING" "terminal J_SUCCEEDED" "terminal J_FAILED"
  "terminal J_CANCELLED" "terminal J_TIMED_OUT" "terminal J_INTERRUPTED"
  "terminal (stop_state r)"
  by (auto simp: terminal_def) (cases r; simp)+

definition wf_job :: "heavy_job \<Rightarrow> bool" where
  "wf_job j \<longleftrightarrow>
    (hj_slot_held j \<longleftrightarrow> hj_state j = J_RUNNING) \<and>
    (hj_finished_at j = None \<longleftrightarrow> \<not> terminal (hj_state j)) \<and>
    (hj_state j = J_QUEUED \<longrightarrow> hj_stop_reason j = None \<and> hj_process_id j = None \<and>
       hj_anchor_pid j = None \<and> hj_started_at j = None) \<and>
    (hj_state j = J_RUNNING \<longrightarrow> hj_started_at j \<noteq> None) \<and>
    (\<forall>r. terminal (hj_state j) \<and> hj_stop_reason j = Some r \<longrightarrow> hj_state j = stop_state r)"

text \<open>The columns written at admission and never again.\<close>

definition same_request :: "heavy_job \<Rightarrow> heavy_job \<Rightarrow> bool" where
  "same_request j k \<longleftrightarrow>
    hj_id k = hj_id j \<and> hj_sequence k = hj_sequence j \<and> hj_scope k = hj_scope j \<and>
    hj_workspace_id k = hj_workspace_id j \<and> hj_repository_id k = hj_repository_id j \<and>
    hj_worktree_id k = hj_worktree_id j \<and> hj_worktree_path k = hj_worktree_path j \<and>
    hj_task_name k = hj_task_name j \<and> hj_idempotency_key k = hj_idempotency_key j \<and>
    hj_command_fingerprint k = hj_command_fingerprint j \<and>
    hj_source_fingerprint k = hj_source_fingerprint j \<and> hj_timeout_ms k = hj_timeout_ms j \<and>
    hj_memory_estimate k = hj_memory_estimate j \<and> hj_created_at k = hj_created_at j"

text \<open>
  One row across an operation: a well-formed row stays well-formed and follows the life cycle, a
  terminal row is untouched, an accepted cancellation is never replaced, and a bound process or
  anchor stays bound.
\<close>

definition job_evolves :: "heavy_job \<Rightarrow> heavy_job \<Rightarrow> bool" where
  "job_evolves j k \<longleftrightarrow> same_request j k \<and> (wf_job j \<longrightarrow>
    wf_job k \<and> may_follow (hj_state j) (hj_state k) \<and> (terminal (hj_state j) \<longrightarrow> k = j) \<and>
    (hj_stop_reason j = Some Stop_Cancelled \<longrightarrow> hj_stop_reason k = Some Stop_Cancelled) \<and>
    (hj_stop_reason j \<noteq> None \<longrightarrow> hj_stop_reason k \<noteq> None) \<and>
    (hj_process_id j \<noteq> None \<longrightarrow> hj_process_id k = hj_process_id j) \<and>
    (hj_anchor_pid j \<noteq> None \<longrightarrow> hj_anchor_pid k = hj_anchor_pid j))"

text \<open>The operations other than a successful claim never hand out a slot.\<close>

definition job_keeps :: "heavy_job \<Rightarrow> heavy_job \<Rightarrow> bool" where
  "job_keeps j k \<longleftrightarrow> job_evolves j k \<and> (wf_job j \<longrightarrow> hj_slot_held k \<longrightarrow> hj_slot_held j)"

lemma job_evolves_refl [simp]: "job_evolves j j"
  by (auto simp: job_evolves_def same_request_def)

lemma job_keeps_refl [simp]: "job_keeps j j"
  by (simp add: job_keeps_def)

lemma same_request_trans: "same_request a b \<Longrightarrow> same_request b c \<Longrightarrow> same_request a c"
  by (simp add: same_request_def)

lemma job_evolves_trans: "job_evolves a b \<Longrightarrow> job_evolves b c \<Longrightarrow> job_evolves a c"
  unfolding job_evolves_def
  by (intro conjI impI) (blast intro: same_request_trans may_follow_trans, (metis may_follow_trans)+)

lemma job_keeps_trans: "job_keeps a b \<Longrightarrow> job_keeps b c \<Longrightarrow> job_keeps a c"
  unfolding job_keeps_def using job_evolves_trans by (metis job_evolves_def)

lemma job_evolves_idD: "job_evolves j k \<Longrightarrow> hj_id k = hj_id j"
  by (simp add: job_evolves_def same_request_def)

lemma job_evolves_columns:
  "job_evolves j k \<Longrightarrow> hj_scope k = hj_scope j \<and> hj_worktree_id k = hj_worktree_id j \<and> hj_sequence k = hj_sequence j"
  by (simp add: job_evolves_def same_request_def)

lemma job_keeps_evolves: "job_keeps j k \<Longrightarrow> job_evolves j k"
  by (simp add: job_keeps_def)

section \<open>Tables related row by row\<close>

definition jobs_keep :: "db \<Rightarrow> db \<Rightarrow> bool" where
  "jobs_keep s t \<longleftrightarrow> list_all2 job_keeps (jobs s) (jobs t) \<and> job_high_water t = job_high_water s"

lemma jobs_keep_refl [simp]: "jobs_keep s s"
  by (simp add: jobs_keep_def list_all2_same)

lemma jobs_keep_trans: "jobs_keep s t \<Longrightarrow> jobs_keep t u \<Longrightarrow> jobs_keep s u"
  unfolding jobs_keep_def using list_all2_trans [of job_keeps job_keeps job_keeps] job_keeps_trans
  by metis

lemma upd_jobs_simps [simp]:
  "jobs (upd_jobs P f s) = upd_where P f (jobs s)"
  "job_high_water (upd_jobs P f s) = job_high_water s"
  "worktrees (upd_jobs P f s) = worktrees s"
  "op_leases (upd_jobs P f s) = op_leases s"
  "processes (upd_jobs P f s) = processes s"
  "job_owner (upd_jobs P f s) = job_owner s"
  by (simp_all add: upd_jobs_def)

lemma jobs_keep_upd:
  "(\<And>j. j \<in> set (jobs s) \<Longrightarrow> P j \<Longrightarrow> job_keeps j (f j)) \<Longrightarrow> jobs_keep s (upd_jobs P f s)"
  by (simp add: jobs_keep_def list_all2_upd_where)

text \<open>The updates the operations make, each as a fact about one row.\<close>

lemma keeps_end_queued [job_preserves]:
  "hj_state j = J_QUEUED \<Longrightarrow> terminal st \<Longrightarrow>
   job_keeps j (j\<lparr>hj_state := st, hj_finished_at := Some now, hj_error := e\<rparr>)"
  by (auto simp: job_keeps_def job_evolves_def same_request_def wf_job_def)

lemma keeps_cancel_queued [job_preserves]:
  "hj_state j = J_QUEUED \<Longrightarrow> st = stop_state r \<Longrightarrow>
   job_keeps j (j\<lparr>hj_state := st, hj_stop_reason := Some r, hj_error := e, hj_finished_at := Some now\<rparr>)"
  by (cases r) (auto simp: job_keeps_def job_evolves_def same_request_def wf_job_def)

lemma keeps_stop_running [job_preserves]:
  "hj_slot_held j \<Longrightarrow> hj_stop_reason j \<noteq> Some Stop_Cancelled \<Longrightarrow>
   job_keeps j (j\<lparr>hj_stop_reason := Some r\<rparr>)"
  by (auto simp: job_keeps_def job_evolves_def same_request_def wf_job_def)

lemma keeps_bind_process [job_preserves]:
  "hj_state j = J_RUNNING \<Longrightarrow> hj_process_id j = None \<Longrightarrow> job_keeps j (j\<lparr>hj_process_id := Some p\<rparr>)"
  by (auto simp: job_keeps_def job_evolves_def same_request_def wf_job_def)

lemma keeps_bind_anchor [job_preserves]:
  "hj_state j = J_RUNNING \<Longrightarrow> hj_anchor_pid j = None \<Longrightarrow> job_keeps j (j\<lparr>hj_anchor_pid := Some p\<rparr>)"
  by (auto simp: job_keeps_def job_evolves_def same_request_def wf_job_def)

lemma keeps_endI:
  assumes "pending j" and "terminal (hj_state k)" and "\<not> hj_slot_held k" and "hj_finished_at k \<noteq> None"
    and "same_request j k" and "hj_stop_reason k = hj_stop_reason j"
    and "hj_process_id k = hj_process_id j" and "hj_anchor_pid k = hj_anchor_pid j"
    and "\<forall>r. hj_stop_reason j = Some r \<longrightarrow> hj_state k = stop_state r"
  shows "job_keeps j k"
  using assms
  by (cases "hj_state j") (auto simp: job_keeps_def job_evolves_def wf_job_def pending_def terminal_def)

lemma keeps_finish [job_preserves]:
  "pending j \<Longrightarrow> terminal st \<Longrightarrow> \<forall>r. hj_stop_reason j = Some r \<longrightarrow> st = stop_state r \<Longrightarrow>
   job_keeps j (j\<lparr>hj_state := st, hj_slot_held := False, hj_finished_at := Some now, hj_exit_code := c,
     hj_signal := sg, hj_error := e, hj_source_validity := v\<rparr>)"
  by (rule keeps_endI) (simp_all add: same_request_def)

lemma keeps_error [job_preserves]:
  "hj_slot_held j \<Longrightarrow> job_keeps j (j\<lparr>hj_error := e\<rparr>)"
  by (auto simp: job_keeps_def job_evolves_def same_request_def wf_job_def)

section \<open>The table invariant\<close>

text \<open>
  \<open>m\<close> is the configured concurrency. The two length bounds are those of the admission check.
\<close>

definition held_in :: "string \<Rightarrow> heavy_job list \<Rightarrow> nat" where
  "held_in scope js = count_where (\<lambda>j. hj_scope j = scope \<and> hj_slot_held j) js"

definition pending_in :: "string \<Rightarrow> heavy_job list \<Rightarrow> nat" where
  "pending_in scope js = count_where (\<lambda>j. hj_scope j = scope \<and> pending j) js"

definition job_table_ok :: "db \<Rightarrow> bool" where
  "job_table_ok s \<longleftrightarrow>
    distinct (map hj_id (jobs s)) \<and>
    distinct (map (\<lambda>j. (hj_scope j, hj_idempotency_key j)) (jobs s)) \<and>
    sorted_wrt (<) (map hj_sequence (jobs s)) \<and>
    (\<forall>j\<in>set (jobs s). wf_job j \<and> hj_sequence j \<le> job_high_water s)"

definition jobs_inv :: "int \<Rightarrow> db \<Rightarrow> bool" where
  "jobs_inv m s \<longleftrightarrow> job_table_ok s \<and>
    (\<forall>scope. int (held_in scope (jobs s)) \<le> m) \<and>
    (\<forall>scope. pending_in scope (jobs s) \<le> max_pending_heavy_jobs) \<and>
    distinct (map hj_worktree_id (filter hj_slot_held (jobs s)))"

lemma job_evolves_table_columns:
  "list_all2 job_evolves xs ys \<Longrightarrow> map hj_id ys = map hj_id xs \<and> map hj_sequence ys = map hj_sequence xs \<and>
   map (\<lambda>j. (hj_scope j, hj_idempotency_key j)) ys = map (\<lambda>j. (hj_scope j, hj_idempotency_key j)) xs"
  by (induction rule: list_all2_induct) (auto simp: job_evolves_def same_request_def)

lemma job_table_ok_evolves:
  assumes "list_all2 job_evolves (jobs s) (jobs t)" and "job_high_water t = job_high_water s"
    and "job_table_ok s"
  shows "job_table_ok t"
proof -
  have "wf_job k \<and> hj_sequence k \<le> job_high_water t" if "k \<in> set (jobs t)" for k
  proof -
    from list_all2_setD [OF assms(1) that] obtain j where "j \<in> set (jobs s)" "job_evolves j k" by blast
    with assms(2,3) show ?thesis by (auto simp: job_table_ok_def job_evolves_def same_request_def)
  qed
  with job_evolves_table_columns [OF assms(1)] assms(3) show ?thesis
    by (simp add: job_table_ok_def)
qed

lemma not_pending: "wf_job j \<Longrightarrow> \<not> pending j \<longleftrightarrow> terminal (hj_state j)"
  unfolding wf_job_def pending_def terminal_def by blast

lemma wf_pending_evolves: "job_evolves j k \<Longrightarrow> wf_job j \<Longrightarrow> pending k \<Longrightarrow> pending j"
  using not_pending [of j] unfolding job_evolves_def by blast

text \<open>Rows of a well-formed table, paired with their successors.\<close>

lemma list_all2_wf:
  "list_all2 R xs ys \<Longrightarrow> \<forall>j\<in>set xs. wf_job j \<Longrightarrow> list_all2 (\<lambda>j k. R j k \<and> wf_job j) xs ys"
  by (induction rule: list_all2_induct) auto

lemma pending_in_evolves:
  assumes "list_all2 job_evolves xs ys" and "\<forall>j\<in>set xs. wf_job j"
  shows "pending_in scope ys \<le> pending_in scope xs"
  unfolding pending_in_def
  by (rule list_all2_count_le [OF list_all2_wf [OF assms]])
    (auto dest: wf_pending_evolves job_evolves_columns)

lemma held_in_keeps:
  assumes "list_all2 job_keeps xs ys" and "\<forall>j\<in>set xs. wf_job j"
  shows "held_in scope ys \<le> held_in scope xs"
  unfolding held_in_def
  by (rule list_all2_count_le [OF list_all2_wf [OF assms]])
    (auto simp: job_keeps_def job_evolves_def same_request_def)

lemma jobs_keep_evolves: "jobs_keep s t \<Longrightarrow> list_all2 job_evolves (jobs s) (jobs t)"
  unfolding jobs_keep_def by (auto elim: list_all2_mono dest: job_keeps_evolves)

lemma jobs_keep_table_ok: "jobs_keep s t \<Longrightarrow> job_table_ok s \<Longrightarrow> job_table_ok t"
  by (rule job_table_ok_evolves [OF jobs_keep_evolves]) (auto simp: jobs_keep_def)

lemma jobs_inv_keep:
  assumes k: "jobs_keep s t" and inv: "jobs_inv m s"
  shows "jobs_inv m t"
proof -
  from inv have wf: "\<forall>j\<in>set (jobs s). wf_job j" by (simp add: jobs_inv_def job_table_ok_def)
  from k have l: "list_all2 job_keeps (jobs s) (jobs t)" by (simp add: jobs_keep_def)
  have "int (held_in scope (jobs t)) \<le> m" for scope
    using held_in_keeps [OF l wf, of scope] inv by (simp add: jobs_inv_def) (meson of_nat_mono order_trans)
  moreover have "pending_in scope (jobs t) \<le> max_pending_heavy_jobs" for scope
    using pending_in_evolves [OF jobs_keep_evolves [OF k] wf, of scope] inv
    by (auto simp: jobs_inv_def intro: order_trans)
  moreover have "distinct (map hj_worktree_id (filter hj_slot_held (jobs t)))"
    by (rule list_all2_distinct_filter [OF list_all2_wf [OF l wf]])
      (use inv in \<open>auto simp: jobs_inv_def job_keeps_def job_evolves_def same_request_def\<close>)
  ultimately show ?thesis
    using inv jobs_keep_table_ok [OF k] by (simp add: jobs_inv_def)
qed

end
