(* ===== verification/Job_Operations.thy ===== *)
theory Job_Operations
  imports Job_Invariants
begin

text \<open>
  The operations of the job store against the life cycle and the table invariants: what each of
  them does to the row it names, and that all of them keep the invariants.
\<close>

section \<open>Rows by id\<close>

lemma get_job_by_idD: "get_job_by_id s i = Inr j \<Longrightarrow> j \<in> set (jobs s) \<and> hj_id j = i"
  by (auto simp: get_job_by_id_def dest: row_by_SomeD split: option.splits)

lemma get_job_by_id_iff:
  "job_table_ok s \<Longrightarrow> get_job_by_id s i = Inr j \<longleftrightarrow> j \<in> set (jobs s) \<and> hj_id j = i"
  using row_by_unique [of hj_id "jobs s"]
  by (auto simp: get_job_by_id_def job_table_ok_def dest: row_by_SomeD split: option.splits)

lemma get_job_by_id_Inl: "get_job_by_id s i = Inl e \<longleftrightarrow> e = Heavy_Job_Error JOB_NOT_FOUND \<and> i \<notin> hj_id ` set (jobs s)"
  by (auto simp: get_job_by_id_def row_by_None split: option.splits dest: row_by_SomeD)

lemma job_id_unique:
  "job_table_ok s \<Longrightarrow> j \<in> set (jobs s) \<Longrightarrow> k \<in> set (jobs s) \<Longrightarrow> hj_id j = hj_id k \<Longrightarrow> j = k"
  by (auto simp: job_table_ok_def distinct_map inj_on_def)

lemma job_sequence_unique:
  assumes "job_table_ok s" and "j \<in> set (jobs s)" and "k \<in> set (jobs s)" and "hj_sequence j = hj_sequence k"
  shows "j = k"
proof -
  have "sorted_wrt (<) (map hj_sequence (jobs s))" using assms(1) unfolding job_table_ok_def by blast
  then have "inj_on hj_sequence (set (jobs s))" by (simp add: strict_sorted_iff distinct_map)
  with assms(2-4) show ?thesis by (simp add: inj_on_def)
qed

lemma row_by_upd_jobs:
  assumes "\<And>j. hj_id (f j) = hj_id j"
  shows "get_job_by_id (upd_jobs (\<lambda>j. hj_id j = i \<and> P j) f s) i =
    map_sum id (\<lambda>j. if P j then f j else j) (get_job_by_id s i)"
  using row_by_upd_key [of hj_id f i i P "jobs s"] assms
  by (auto simp: get_job_by_id_def split: option.splits)

lemma row_by_upd_jobs_all:
  assumes "\<And>j. hj_id (f j) = hj_id j"
  shows "get_job_by_id (upd_jobs (\<lambda>j. hj_id j = i) f s) i = map_sum id f (get_job_by_id s i)"
  using row_by_upd_jobs [of f i "\<lambda>_. True" s] assms by simp

lemma table_wf: "job_table_ok s \<Longrightarrow> j \<in> set (jobs s) \<Longrightarrow> wf_job j"
  by (simp add: job_table_ok_def)

section \<open>Stop requests\<close>

text \<open>What a stop request makes of the job it names.\<close>

definition cancelled_job :: "stop_reason \<Rightarrow> time \<Rightarrow> heavy_job \<Rightarrow> heavy_job" where
  "cancelled_job reason now j =
    (if hj_state j = J_QUEUED then j\<lparr>hj_state := stop_state reason, hj_stop_reason := Some reason,
       hj_error := Some (if reason = Stop_Cancelled then ''USER_CANCELLED'' else stop_text reason),
       hj_finished_at := Some now\<rparr>
     else if hj_slot_held j \<and> hj_stop_reason j = None then j\<lparr>hj_stop_reason := Some reason\<rparr>
     else j)"

lemma request_cancellation_result:
  assumes "get_job_by_id s i = Inr job" and "hj_scope job = scope"
  shows "\<exists>t. request_cancellation s i scope reason now = Inr (t, cancelled_job reason now job)"
  using assms
  by (auto simp: request_cancellation_def cancelled_job_def row_by_upd_jobs_all split: if_splits)

lemma request_cancellation_keep:
  assumes ok: "job_table_ok s" and r: "request_cancellation s i scope reason now = Inr (t, j)"
  shows "jobs_keep s t"
proof -
  from r obtain job where job: "get_job_by_id s i = Inr job" "hj_scope job = scope"
    by (auto simp: request_cancellation_def split: sum.splits if_splits)
  have only: "k = job" if "k \<in> set (jobs s)" "hj_id k = i" for k
    using that job_id_unique [OF ok] get_job_by_idD [OF job(1)] by blast
  from r job have t: "t = (if hj_state job = J_QUEUED then upd_jobs (\<lambda>j. hj_id j = i)
        (\<lambda>j. j\<lparr>hj_state := stop_state reason, hj_stop_reason := Some reason,
          hj_error := Some (if reason = Stop_Cancelled then ''USER_CANCELLED'' else stop_text reason),
          hj_finished_at := Some now\<rparr>) s
      else if hj_slot_held job \<and> hj_stop_reason job = None
      then upd_jobs (\<lambda>j. hj_id j = i) (\<lambda>j. j\<lparr>hj_stop_reason := Some reason\<rparr>) s else s)"
    by (auto simp: request_cancellation_def Let_def split: sum.splits if_splits)
  show ?thesis unfolding t
    by (auto intro!: jobs_keep_upd keeps_cancel_queued keeps_stop_running dest!: only)
qed

lemma confirm_timeout_keep:
  assumes r: "confirm_timeout s i scope = Inr (t, j)"
  shows "jobs_keep s t"
proof -
  from r have t: "t = upd_jobs (\<lambda>j. hj_id j = i \<and> hj_scope j = scope \<and> hj_state j = J_RUNNING
        \<and> hj_slot_held j \<and> (hj_stop_reason j = None \<or> hj_stop_reason j = Some Stop_Interrupted))
      (\<lambda>j. j\<lparr>hj_stop_reason := Some Stop_Timed_Out\<rparr>) s"
    by (auto simp: confirm_timeout_def Let_def split: sum.splits if_splits)
  show ?thesis unfolding t by (rule jobs_keep_upd) (auto intro: keeps_stop_running)
qed

section \<open>Finalization\<close>

definition final_state :: "heavy_job \<Rightarrow> job_finish_input \<Rightarrow> job_state" where
  "final_state job i = (case hj_stop_reason job of Some r \<Rightarrow> stop_state r | None \<Rightarrow> jf_state i)"

definition finished_job :: "job_finish_input \<Rightarrow> heavy_job \<Rightarrow> heavy_job" where
  "finished_job i job = (if pending job then job\<lparr>hj_state := final_state job i, hj_slot_held := False,
     hj_finished_at := Some (jf_now i), hj_exit_code := jf_exit_code i, hj_signal := jf_signal i,
     hj_error := finish_error job i, hj_source_validity := jf_source_validity i\<rparr> else job)"

lemma finish_job_result:
  assumes "get_job_by_id s i = Inr job"
  shows "\<exists>t. finish_job s i inp = Inr (t, finished_job inp job)"
  using assms
  by (auto simp: finish_job_def finished_job_def final_state_def pending_def Let_def row_by_upd_jobs)

lemma final_state_terminal: "terminal (jf_state i) \<Longrightarrow> terminal (final_state job i)"
  by (auto simp: final_state_def split: option.splits)

lemma finish_job_keep:
  assumes ok: "job_table_ok s" and st: "terminal (jf_state inp)" and r: "finish_job s i inp = Inr (t, j)"
  shows "jobs_keep s t"
proof -
  from r obtain job where job: "get_job_by_id s i = Inr job"
    by (auto simp: finish_job_def split: sum.splits)
  let ?f = "\<lambda>j. j\<lparr>hj_state := final_state job inp, hj_slot_held := False,
     hj_finished_at := Some (jf_now inp), hj_exit_code := jf_exit_code inp, hj_signal := jf_signal inp,
     hj_error := finish_error job inp, hj_source_validity := jf_source_validity inp\<rparr>"
  from r job have t: "t = s \<or> t = upd_jobs (\<lambda>j. hj_id j = i \<and> pending j) ?f s"
    by (auto simp: finish_job_def final_state_def Let_def split: sum.splits if_splits)
  have "jobs_keep s (upd_jobs (\<lambda>j. hj_id j = i \<and> pending j) ?f s)"
  proof (rule jobs_keep_upd)
    fix j assume j: "j \<in> set (jobs s)" "hj_id j = i \<and> pending j"
    then have "j = job" using job_id_unique [OF ok] get_job_by_idD [OF job] by blast
    with j show "job_keeps j (?f j)"
      using final_state_terminal [OF st, of job]
      by (auto intro!: keeps_finish simp: final_state_def)
  qed
  with t show ?thesis by auto
qed

section \<open>Binding, errors, scope\<close>

lemma bind_process_keep: "bind_process s i p = (t, b) \<Longrightarrow> jobs_keep s t"
  by (auto simp: bind_process_def Let_def intro!: jobs_keep_upd keeps_bind_process)

lemma bind_anchor_keep: "bind_anchor s i p = Inr (t, b) \<Longrightarrow> jobs_keep s t"
  by (auto simp: bind_anchor_def Let_def intro!: jobs_keep_upd keeps_bind_anchor split: if_splits)

lemma set_job_error_keep: "jobs_keep s (set_job_error s i e)"
  by (auto simp: set_job_error_def intro!: jobs_keep_upd keeps_error)

lemma assert_scope_keep: "assert_scope s scope = Inr t \<Longrightarrow> jobs t = jobs s \<and> job_high_water t = job_high_water s"
  by (auto simp: assert_scope_def split: option.splits if_splits)

section \<open>The scheduling snapshot\<close>

lemma table_sorted: "job_table_ok s \<Longrightarrow> sorted (map hj_sequence (jobs s))"
  by (simp add: job_table_ok_def strict_sorted_imp_sorted)

text \<open>The snapshot without the sorting, which an ordered table does not need.\<close>

definition entry_of :: "heavy_job list \<Rightarrow> heavy_job \<Rightarrow> scheduling_entry" where
  "entry_of js j = \<lparr> se_job_id = hj_id j, se_state = hj_state j, se_slot_held = hj_slot_held j,
     se_worktree_busy = exists_where (\<lambda>occ. hj_worktree_id occ = hj_worktree_id j \<and> hj_slot_held occ) js,
     se_memory_estimate = map_option Whole (hj_memory_estimate j) \<rparr>"

lemma entry_of_simps [simp]:
  "se_job_id (entry_of js j) = hj_id j" "se_state (entry_of js j) = hj_state j"
  "se_slot_held (entry_of js j) = hj_slot_held j"
  "se_memory_estimate (entry_of js j) = map_option Whole (hj_memory_estimate j)"
  "se_worktree_busy (entry_of js j) \<longleftrightarrow> (\<exists>occ\<in>set js. hj_worktree_id occ = hj_worktree_id j \<and> hj_slot_held occ)"
  by (auto simp: entry_of_def list_ex_iff)

lemma scheduling_snapshot_eq:
  "job_table_ok s \<Longrightarrow> scheduling_snapshot s scope =
     map (entry_of (jobs s)) (filter (\<lambda>j. hj_scope j = scope \<and> pending j) (jobs s))"
  by (simp add: scheduling_snapshot_def sort_key_filter_sorted table_sorted entry_of_def [abs_def])

lemma active_jobs_eq:
  "job_table_ok s \<Longrightarrow> active_jobs s scope = filter (\<lambda>j. hj_scope j = scope \<and> pending j) (jobs s)"
  by (simp add: active_jobs_def sort_key_filter_sorted table_sorted)

lemma snapshot_ids: "job_table_ok s \<Longrightarrow> distinct (map se_job_id (scheduling_snapshot s scope))"
  by (simp add: scheduling_snapshot_eq comp_def job_table_ok_def distinct_map_filterI)

lemma snapshot_slots: "job_table_ok s \<Longrightarrow> slots_held (scheduling_snapshot s scope) = held_in scope (jobs s)"
  by (simp add: scheduling_snapshot_eq slots_held_def held_in_def count_where_def filter_map comp_def
      pending_def conj_ac cong: filter_cong) (metis (mono_tags, lifting))

section \<open>Jobs that no longer fit\<close>

definition unfit :: "memory_admission \<Rightarrow> scheduling_entry \<Rightarrow> bool" where
  "unfit m e \<longleftrightarrow> se_state e = J_QUEUED \<and> \<not> se_slot_held e \<and> memory_estimate_error (se_memory_estimate e) m \<noteq> None"

lemma fail_unfit_entries: "fst (fail_unfit m now es s) = filter (\<lambda>e. \<not> unfit m e) es"
  by (induction m now es s rule: fail_unfit.induct)
    (auto simp: unfit_def split: option.splits prod.splits)

lemma fail_unfit_keep: "jobs_keep s (snd (fail_unfit m now es s))"
proof (induction m now es s rule: fail_unfit.induct)
  case (1 m now s)
  then show ?case by simp
next
  case (2 m now e es s)
  have "jobs_keep s (upd_jobs (\<lambda>j. hj_id j = se_job_id e \<and> hj_state j = J_QUEUED \<and> \<not> hj_slot_held j)
     (\<lambda>j. j\<lparr>hj_state := J_FAILED, hj_finished_at := Some now, hj_error := Some (memory_error_text err)\<rparr>) s)" for err
    by (rule jobs_keep_upd) (auto intro: keeps_end_queued)
  with 2 show ?case by (auto split: option.splits prod.splits intro: jobs_keep_trans)
qed

lemma fail_unfit_frame:
  "worktrees (snd (fail_unfit m now es s)) = worktrees s \<and> op_leases (snd (fail_unfit m now es s)) = op_leases s \<and>
   processes (snd (fail_unfit m now es s)) = processes s \<and> job_owner (snd (fail_unfit m now es s)) = job_owner s"
  by (induction m now es s rule: fail_unfit.induct) (auto split: option.splits prod.splits)

text \<open>Failing one queued job removes exactly its entry from the snapshot.\<close>

lemma snapshot_fail_one:
  assumes ok: "job_table_ok s"
    and f: "\<And>j. hj_id (f j) = hj_id j \<and> hj_worktree_id (f j) = hj_worktree_id j \<and> hj_state (f j) = J_FAILED \<and>
              hj_slot_held (f j) = hj_slot_held j \<and> hj_scope (f j) = hj_scope j"
    and t: "t = upd_jobs (\<lambda>j. hj_id j = i \<and> hj_state j = J_QUEUED \<and> \<not> hj_slot_held j) f s"
    and okt: "job_table_ok t"
    and i: "\<forall>j\<in>set (jobs s). hj_id j = i \<longrightarrow> hj_state j = J_QUEUED \<and> \<not> hj_slot_held j"
  shows "scheduling_snapshot t scope = filter (\<lambda>e. se_job_id e \<noteq> i) (scheduling_snapshot s scope)"
proof -
  let ?P = "\<lambda>j. hj_scope j = scope \<and> pending j"
  have busy: "entry_of (jobs t) = entry_of (jobs s)"
    by (rule ext) (auto simp: entry_of_def t set_upd_where f list_ex_iff split: if_splits)
  have rows: "filter ?P (upd_where (\<lambda>j. hj_id j = i \<and> hj_state j = J_QUEUED \<and> \<not> hj_slot_held j) f js)
      = filter (\<lambda>j. hj_id j \<noteq> i) (filter ?P js)"
    if "\<forall>j\<in>set js. hj_id j = i \<longrightarrow> hj_state j = J_QUEUED \<and> \<not> hj_slot_held j" for js
    using that by (induction js) (auto simp: pending_def f)
  from rows [OF i] show ?thesis
    by (simp add: scheduling_snapshot_eq ok okt busy) (simp add: t filter_map comp_def)
qed

lemma fail_unfit_snapshot:
  assumes "job_table_ok s" and "set es \<subseteq> set (scheduling_snapshot s scope)" and "distinct (map se_job_id es)"
  shows "scheduling_snapshot (snd (fail_unfit m now es s)) scope =
    filter (\<lambda>e. \<not> (e \<in> set es \<and> unfit m e)) (scheduling_snapshot s scope)"
  using assms
proof (induction es arbitrary: s)
  case Nil
  then show ?case by simp
next
  case (Cons e es)
  show ?case
  proof (cases "unfit m e")
    case False
    have "fail_unfit m now (e # es) s = (e # fst (fail_unfit m now es s), snd (fail_unfit m now es s))"
      using False by (auto simp: unfit_def split: prod.splits)
    with Cons False show ?thesis by (auto intro!: filter_cong)
  next
    case True
    then obtain err where err: "memory_estimate_error (se_memory_estimate e) m = Some err"
      by (auto simp: unfit_def)
    let ?f = "\<lambda>j. j\<lparr>hj_state := J_FAILED, hj_finished_at := Some now, hj_error := Some (memory_error_text err)\<rparr>"
    let ?t = "upd_jobs (\<lambda>j. hj_id j = se_job_id e \<and> hj_state j = J_QUEUED \<and> \<not> hj_slot_held j) ?f s"
    have step: "fail_unfit m now (e # es) s = fail_unfit m now es ?t"
      using True err by (simp add: unfit_def)
    have okt: "job_table_ok ?t"
      by (rule jobs_keep_table_ok [OF jobs_keep_upd Cons.prems(1)]) (auto intro: keeps_end_queued)
    from Cons.prems(1,2) obtain j where j: "j \<in> set (jobs s)" "e = entry_of (jobs s) j"
      by (auto simp: scheduling_snapshot_eq)
    have snap: "scheduling_snapshot ?t scope = filter (\<lambda>x. se_job_id x \<noteq> se_job_id e) (scheduling_snapshot s scope)"
    proof (rule snapshot_fail_one [OF Cons.prems(1) _ refl okt])
      show "\<forall>k\<in>set (jobs s). hj_id k = se_job_id e \<longrightarrow> hj_state k = J_QUEUED \<and> \<not> hj_slot_held k"
        using True j job_id_unique [OF Cons.prems(1)] by (auto simp: unfit_def)
    qed simp
    have same: "x = e" if "x \<in> set (scheduling_snapshot s scope)" "se_job_id x = se_job_id e" for x
      using that Cons.prems(1,2) snapshot_ids [OF Cons.prems(1), of scope]
      by (auto simp: distinct_map inj_on_def)
    have "scheduling_snapshot (snd (fail_unfit m now es ?t)) scope =
        filter (\<lambda>x. \<not> (x \<in> set es \<and> unfit m x)) (scheduling_snapshot ?t scope)"
      by (rule Cons.IH [OF okt]) (use Cons.prems in \<open>auto simp: snap, metis image_eqI\<close>)
    with step snap True show ?thesis
      by (auto simp: intro!: filter_cong dest!: same)
  qed
qed

section \<open>Claiming\<close>

definition started_job :: "time \<Rightarrow> heavy_job \<Rightarrow> heavy_job" where
  "started_job now j = j\<lparr>hj_state := J_RUNNING, hj_slot_held := True, hj_started_at := Some now\<rparr>"

text \<open>
  What the queue knows when it hands out a slot to \<open>j\<close>: \<open>j\<close> is the oldest queued job of its scope, a
  slot is free, no job of its worktree holds one, the memory policy admits it, and its worktree is
  registered, alive and under no repository operation.
\<close>

definition dispatchable :: "db \<Rightarrow> string \<Rightarrow> jsnum \<Rightarrow> memory_admission option \<Rightarrow> heavy_job \<Rightarrow> bool" where
  "dispatchable s scope m memory j \<longleftrightarrow> j \<in> set (jobs s) \<and> hj_scope j = scope \<and> hj_state j = J_QUEUED \<and>
    (\<forall>k\<in>set (jobs s). hj_scope k = scope \<and> hj_state k = J_QUEUED \<longrightarrow> hj_sequence j \<le> hj_sequence k) \<and>
    int (held_in scope (jobs s)) < whole m \<and>
    (\<forall>k\<in>set (jobs s). hj_slot_held k \<longrightarrow> hj_worktree_id k \<noteq> hj_worktree_id j) \<and>
    (\<forall>a. memory = Some a \<longrightarrow> memory_allows_claim (map_option Whole (hj_memory_estimate j))
       (map (\<lambda>k. map_option Whole (hj_memory_estimate k))
          (filter (\<lambda>k. hj_scope k = scope \<and> hj_slot_held k) (jobs s))) a)"

definition claimable :: "db \<Rightarrow> string \<Rightarrow> jsnum \<Rightarrow> memory_admission option \<Rightarrow> heavy_job \<Rightarrow> bool" where
  "claimable s scope m memory j \<longleftrightarrow> dispatchable s scope m memory j \<and>
    is_ok (assert_registered s (hj_repository_id j) (hj_worktree_id j) (hj_worktree_path j))"

lemma snapshot_held_estimates:
  assumes "job_table_ok s"
  shows "map se_memory_estimate (filter se_slot_held (scheduling_snapshot s scope)) =
    map (\<lambda>k. map_option Whole (hj_memory_estimate k)) (filter (\<lambda>k. hj_scope k = scope \<and> hj_slot_held k) (jobs s))"
proof -
  have "filter hj_slot_held (filter (\<lambda>j. hj_scope j = scope \<and> pending j) js) =
      filter (\<lambda>k. hj_scope k = scope \<and> hj_slot_held k) js" for js
    by (induction js) (auto simp: pending_def)
  then show ?thesis by (simp add: scheduling_snapshot_eq assms filter_map comp_def)
qed

lemma queued_snapshot:
  "job_table_ok s \<Longrightarrow> queued_entries (scheduling_snapshot s scope) =
     map (entry_of (jobs s)) (filter (\<lambda>j. hj_scope j = scope \<and> hj_state j = J_QUEUED) (jobs s))"
  by (simp add: scheduling_snapshot_eq filter_map comp_def pending_def conj_ac) (metis (mono_tags, lifting))

lemma dispatchable_head:
  assumes ok: "job_table_ok s"
    and r: "job_waiting_reasons (scheduling_snapshot s scope) m memory = Inr ((i, Wait_Dispatch_Pending) # others)"
    and j: "j \<in> set (jobs s)" "hj_id j = i"
  shows "dispatchable s scope m memory j"
proof -
  let ?P = "\<lambda>j. hj_scope j = scope \<and> pending j"
  obtain e rest where e: "queued_entries (scheduling_snapshot s scope) = e # rest" "se_job_id e = i"
      "\<not> se_worktree_busy e" "int (slots_held (scheduling_snapshot s scope)) < whole m"
      "case memory of None \<Rightarrow> True | Some a \<Rightarrow> memory_allows_claim (se_memory_estimate e)
         (map se_memory_estimate (filter se_slot_held (scheduling_snapshot s scope))) a"
    using dispatch_pending_head [OF r distinct_map_filterI [OF snapshot_ids [OF ok]]] by blast
  note q = queued_snapshot [OF ok, of scope]
  from q e(1) obtain h hs where h: "filter (\<lambda>j. hj_scope j = scope \<and> hj_state j = J_QUEUED) (jobs s) = h # hs"
      "e = entry_of (jobs s) h"
    by (auto simp: map_eq_Cons_conv)
  have hin: "h \<in> set (jobs s)" "hj_scope h = scope" "hj_state h = J_QUEUED"
    using h(1) by (metis (mono_tags, lifting) filter_eq_ConsD in_set_conv_decomp)+
  with e(2) h(2) j have hj: "h = j" by (auto intro: job_id_unique [OF ok])
  have "sorted (map hj_sequence (h # hs))"
    using sorted_map_filter [OF table_sorted [OF ok], of "\<lambda>j. hj_scope j = scope \<and> hj_state j = J_QUEUED"] h(1)
    by simp
  then have "\<forall>k\<in>set (h # hs). hj_sequence h \<le> hj_sequence k" by auto
  then have fifo: "\<forall>k\<in>set (jobs s). hj_scope k = scope \<and> hj_state k = J_QUEUED \<longrightarrow> hj_sequence j \<le> hj_sequence k"
    using set_filter [of "\<lambda>j. hj_scope j = scope \<and> hj_state j = J_QUEUED" "jobs s"] unfolding h(1) hj by blast
  show ?thesis
    using hin hj fifo e(3-5) j(1) h(2)
    by (auto simp: dispatchable_def snapshot_slots ok snapshot_held_estimates)
qed

lemma claim_job_cases:
  assumes ok: "job_table_ok s" and c: "claim_job s scope m now memory = Inr (t, r)"
  obtains (none) "r = None" "jobs_keep s t"
  | (grant) s1 j where "jobs_keep s s1" "claimable s1 scope m memory j" "r = Some (started_job now j)"
      "t = upd_jobs (\<lambda>k. hj_id k = hj_id j \<and> hj_state k = J_QUEUED) (started_job now) s1"
proof -
  obtain es s1 where es: "(es, s1) = (case memory of None \<Rightarrow> (scheduling_snapshot s scope, s)
      | Some a \<Rightarrow> fail_unfit a now (scheduling_snapshot s scope) s)"
    by (metis surj_pair)
  have keep: "jobs_keep s s1"
    using es fail_unfit_keep [of s _ now "scheduling_snapshot s scope"] by (auto split: option.splits) (metis snd_conv)
  note ok1 = jobs_keep_table_ok [OF keep ok]
  have snap: "es = scheduling_snapshot s1 scope"
  proof (cases memory)
    case None
    with es show ?thesis by simp
  next
    case (Some a)
    have "es = fst (fail_unfit a now (scheduling_snapshot s scope) s)"
      "s1 = snd (fail_unfit a now (scheduling_snapshot s scope) s)"
      using es Some by (simp_all add: prod_eq_iff)
    then show ?thesis
      using fail_unfit_snapshot [OF ok subset_refl snapshot_ids [OF ok]] fail_unfit_entries
      by (auto intro!: filter_cong)
  qed
  have m: "safe_positive m" using c by (auto simp: claim_job_def split: if_splits)
  show thesis
  proof (cases "job_waiting_reasons es m memory")
    case (Inl e)
    with c m es show ?thesis by (auto simp: claim_job_def split: prod.splits)
  next
    case (Inr reasons)
    show ?thesis
    proof (cases "\<exists>i others. reasons = (i, Wait_Dispatch_Pending) # others")
      case False
      then have "r = None \<and> t = s1"
        using c m es Inr by (auto simp: claim_job_def split: prod.splits list.splits)
      with keep none show ?thesis by simp
    next
      case True
      then obtain i others where reasons: "reasons = (i, Wait_Dispatch_Pending) # others" by blast
      obtain j where g: "get_job_by_id s1 i = Inr j"
        using c m es Inr reasons by (auto simp: claim_job_def split: prod.splits sum.splits)
      note j = get_job_by_idD [OF g]
      let ?reg = "assert_registered s1 (hj_repository_id j) (hj_worktree_id j) (hj_worktree_path j)"
      have c': "claim_job s scope m now memory = (case ?reg of
          Inl _ \<Rightarrow> Inr (upd_jobs (\<lambda>k. hj_id k = hj_id j)
            (\<lambda>j. j\<lparr>hj_state := J_INTERRUPTED, hj_finished_at := Some now, hj_error := Some ''WORKTREE_UNAVAILABLE''\<rparr>) s1, None)
        | Inr _ \<Rightarrow> let s2 = upd_jobs (\<lambda>k. hj_id k = hj_id j \<and> hj_state k = J_QUEUED) (started_job now) s1
            in case get_job_by_id s2 (hj_id j) of Inl e \<Rightarrow> Inl e | Inr j \<Rightarrow> Inr (s2, Some j))"
        using m Inr reasons g unfolding started_job_def [abs_def] by (simp add: claim_job_def es [symmetric])
      have d: "dispatchable s1 scope m memory j"
        using dispatchable_head [OF ok1, of scope m memory i others j] Inr reasons snap j by auto
      show ?thesis
      proof (cases ?reg)
        case (Inl e)
        have "jobs_keep s1 t"
          using c c' Inl d job_id_unique [OF ok1]
          by (auto intro!: jobs_keep_upd keeps_end_queued simp: dispatchable_def)
        with c c' Inl keep none show ?thesis by (auto intro: jobs_keep_trans)
      next
        case (Inr u)
        have "r = Some (started_job now j)"
          "t = upd_jobs (\<lambda>k. hj_id k = hj_id j \<and> hj_state k = J_QUEUED) (started_job now) s1"
          using c c' Inr g d j
          by (auto simp: Let_def row_by_upd_jobs dispatchable_def started_job_def split: sum.splits)
        moreover have "claimable s1 scope m memory j"
          using d Inr by (simp add: claimable_def)
        ultimately show ?thesis using keep grant by blast
      qed
    qed
  qed
qed

section \<open>Granting, admitting, deleting keep the invariants\<close>

lemma started_evolves: "hj_state j = J_QUEUED \<Longrightarrow> job_evolves j (started_job now j)"
  by (auto simp: job_evolves_def same_request_def wf_job_def started_job_def)

lemma grant_evolves:
  "list_all2 job_evolves (jobs s) (jobs (upd_jobs (\<lambda>k. hj_id k = i \<and> hj_state k = J_QUEUED) (started_job now) s))"
  by (auto intro!: list_all2_upd_where started_evolves)

lemma held_after_grant:
  assumes "distinct (map hj_id js)" and "\<And>k. hj_id k = i \<Longrightarrow> k \<in> set js \<Longrightarrow> hj_scope k = scope"
  shows "held_in sc (upd_where (\<lambda>k. hj_id k = i \<and> hj_state k = J_QUEUED) (started_job now) js)
    \<le> held_in sc js + (if sc = scope then 1 else 0)"
  using assms
proof (induction js)
  case Nil
  then show ?case by (simp add: held_in_def)
next
  case (Cons k js)
  show ?case
  proof (cases "hj_id k = i")
    case True
    with Cons.prems(1) have "\<forall>r\<in>set js. \<not> (hj_id r = i \<and> hj_state r = J_QUEUED)" by (simp add: key_notin)
    from upd_where_absent [OF this] True Cons.prems(2) [of k] show ?thesis
      by (auto simp: held_in_def started_job_def)
  next
    case False
    with Cons show ?thesis by (auto simp: held_in_def)
  qed
qed

lemma held_worktrees_after_grant:
  assumes "distinct (map hj_id js)" and "j \<in> set js"
    and "\<forall>k\<in>set js. hj_slot_held k \<longrightarrow> hj_worktree_id k \<noteq> hj_worktree_id j"
    and "distinct (map hj_worktree_id (filter hj_slot_held js))"
  shows "distinct (map hj_worktree_id (filter hj_slot_held
    (upd_where (\<lambda>k. hj_id k = hj_id j \<and> hj_state k = J_QUEUED) (started_job now) js)))"
proof -
  from split_list [OF assms(2)] obtain xs ys where js: "js = xs @ j # ys" by blast
  have same: "upd_where (\<lambda>k. hj_id k = hj_id j \<and> hj_state k = J_QUEUED) (started_job now) zs = zs"
    if "zs = xs \<or> zs = ys" for zs
    by (rule upd_where_absent) (use assms(1) js that in \<open>auto simp: key_notin\<close>)
  show ?thesis using assms(3,4) by (auto simp: js same started_job_def)
qed

lemma jobs_inv_grant:
  assumes inv: "jobs_inv (whole m) s" and c: "claimable s scope m memory j"
  shows "jobs_inv (whole m) (upd_jobs (\<lambda>k. hj_id k = hj_id j \<and> hj_state k = J_QUEUED) (started_job now) s)"
    (is "jobs_inv _ ?t")
proof -
  from inv have ok: "job_table_ok s" by (simp add: jobs_inv_def)
  from c have j: "j \<in> set (jobs s)" "hj_scope j = scope" and free: "int (held_in scope (jobs s)) < whole m"
    and wt: "\<forall>k\<in>set (jobs s). hj_slot_held k \<longrightarrow> hj_worktree_id k \<noteq> hj_worktree_id j"
    by (auto simp: claimable_def dispatchable_def)
  have ids: "distinct (map hj_id (jobs s))" using ok by (simp add: job_table_ok_def)
  have sc: "hj_scope k = scope" if "hj_id k = hj_id j" "k \<in> set (jobs s)" for k
    using that j job_id_unique [OF ok] by auto
  have g: "held_in sc (jobs ?t) \<le> held_in sc (jobs s) + (if sc = scope then 1 else 0)" for sc
    using held_after_grant [OF ids, where i = "hj_id j" and scope = scope and sc = sc and now = now]
      \<open>\<And>k. hj_id k = hj_id j \<Longrightarrow> k \<in> set (jobs s) \<Longrightarrow> hj_scope k = scope\<close> by simp
  have "int (held_in sc (jobs ?t)) \<le> whole m" for sc
  proof (cases "sc = scope")
    case True
    with g [of sc] free show ?thesis by simp
  next
    case False
    with g [of sc] have "held_in sc (jobs ?t) \<le> held_in sc (jobs s)" by simp
    moreover have "int (held_in sc (jobs s)) \<le> whole m" using inv by (simp add: jobs_inv_def)
    ultimately show ?thesis by linarith
  qed
  moreover have "pending_in sc (jobs ?t) \<le> max_pending_heavy_jobs" for sc
    using pending_in_evolves [OF grant_evolves [of s "hj_id j" now], of sc] inv
    by (auto simp: jobs_inv_def job_table_ok_def intro: order_trans)
  moreover have "distinct (map hj_worktree_id (filter hj_slot_held (jobs ?t)))"
    using held_worktrees_after_grant [OF ids j(1) wt] inv by (simp add: jobs_inv_def)
  moreover have "job_table_ok ?t"
    by (rule job_table_ok_evolves [OF grant_evolves _ ok]) simp
  ultimately show ?thesis by (simp add: jobs_inv_def)
qed

lemma claim_job_inv:
  assumes inv: "jobs_inv (whole m) s" and c: "claim_job s scope m now memory = Inr (t, r)"
  shows "jobs_inv (whole m) t"
proof -
  from inv have ok: "job_table_ok s" by (simp add: jobs_inv_def)
  from ok c show ?thesis
  proof (cases rule: claim_job_cases)
    case none
    with inv show ?thesis by (auto intro: jobs_inv_keep)
  next
    case (grant s1 j)
    show ?thesis unfolding grant(4)
      by (rule jobs_inv_grant [OF jobs_inv_keep [OF grant(1) inv] grant(2)])
  qed
qed

text \<open>The row an admission appends.\<close>

lemma enqueue_job_cases:
  assumes e: "enqueue_job s i new_id = Inr (t, j, reused)"
  obtains (reuse) "t = s" "reused" "j \<in> set (jobs s)" "hj_scope j = ji_scope i"
      "hj_idempotency_key j = ji_idempotency_key i"
  | (admit) "\<not> reused" "jobs t = jobs s @ [j]" "job_high_water t = Suc (job_high_water s)"
      "hj_id j = new_id" "new_id \<notin> hj_id ` set (jobs s)" "hj_sequence j = Suc (job_high_water s)"
      "hj_scope j = ji_scope i" "hj_idempotency_key j = ji_idempotency_key i" "wf_job j"
      "hj_state j = J_QUEUED" "\<not> hj_slot_held j"
      "\<forall>k\<in>set (jobs s). hj_scope k = ji_scope i \<longrightarrow> hj_idempotency_key k \<noteq> ji_idempotency_key i"
      "pending_in (ji_scope i) (jobs s) < max_pending_heavy_jobs"
proof (cases "find (\<lambda>j. hj_scope j = ji_scope i \<and> hj_idempotency_key j = ji_idempotency_key i) (jobs s)")
  case (Some job)
  with e have "t = s \<and> reused \<and> j = job" by (auto simp: enqueue_job_def split: if_splits)
  moreover from Some have "job \<in> set (jobs s) \<and> hj_scope job = ji_scope i \<and> hj_idempotency_key job = ji_idempotency_key i"
    by (auto simp: find_Some_iff)
  ultimately show ?thesis using reuse by blast
next
  case None
  then have none: "\<forall>k\<in>set (jobs s). hj_scope k = ji_scope i \<longrightarrow> hj_idempotency_key k \<noteq> ji_idempotency_key i"
    by (auto simp: find_None_iff)
  show ?thesis
    by (rule admit)
      (use e None none in \<open>auto simp: enqueue_job_def Let_def wf_job_def pending_in_def list_ex_iff image_iff
         split: if_splits sum.splits\<close>)
qed

lemma enqueue_job_inv:
  assumes inv: "jobs_inv m s" and e: "enqueue_job s i new_id = Inr (t, j, reused)"
  shows "jobs_inv m t"
  using e
proof (cases rule: enqueue_job_cases)
  case reuse
  with inv show ?thesis by simp
next
  case admit
  from inv have ok: "job_table_ok s" by (simp add: jobs_inv_def)
  have "job_table_ok t"
    using ok admit unfolding job_table_ok_def
    by (auto simp: sorted_wrt_append image_iff le_Suc_eq dest: le_imp_less_Suc)
  moreover have "held_in sc (jobs t) = held_in sc (jobs s)" for sc
    using admit by (simp add: held_in_def)
  moreover have "pending_in sc (jobs t) \<le> max_pending_heavy_jobs" for sc
    using inv admit by (auto simp: pending_in_def jobs_inv_def)
  ultimately show ?thesis using inv admit by (simp add: jobs_inv_def)
qed

lemma delete_finished_jobs:
  assumes "delete_finished s i = Inr (t, b)" and "job_table_ok s"
  shows "jobs t = (if b then del_where (\<lambda>j. hj_id j = i) (jobs s) else jobs s)"
    and "job_high_water t = job_high_water s"
    and "b \<Longrightarrow> \<exists>j\<in>set (jobs s). hj_id j = i \<and> \<not> pending j"
proof -
  have one: "count_where (\<lambda>j. hj_id j = i) (jobs s) = 1" if "j \<in> set (jobs s)" "hj_id j = i" for j
  proof -
    have "distinct (map hj_id js) \<Longrightarrow> j \<in> set js \<Longrightarrow> count_where (\<lambda>j. hj_id j = i) js = 1" for js
      using that(2) by (induction js) (auto simp: count_where_0 image_iff)
    with assms(2) that show ?thesis by (simp add: job_table_ok_def)
  qed
  obtain job where "get_job_by_id s i = Inr job"
    using assms(1) by (auto simp: delete_finished_def split: sum.splits)
  with get_job_by_idD [OF this] one [of job] assms(1) show "jobs t = (if b then del_where (\<lambda>j. hj_id j = i) (jobs s) else jobs s)"
    "job_high_water t = job_high_water s"
    "b \<Longrightarrow> \<exists>j\<in>set (jobs s). hj_id j = i \<and> \<not> pending j"
    by (auto simp: delete_finished_def Let_def pending_def split: if_splits option.splits)
qed

lemma jobs_inv_delete:
  assumes "jobs_inv m s" and "jobs t = del_where P (jobs s)" and "job_high_water t = job_high_water s"
  shows "jobs_inv m t"
proof -
  have "sorted_wrt (<) (map hj_sequence (del_where P js))" if "sorted_wrt (<) (map hj_sequence js)" for js
    using that by (induction js) auto
  moreover have "distinct (map hj_worktree_id (filter hj_slot_held (del_where P js)))"
    if "distinct (map hj_worktree_id (filter hj_slot_held js))" for js
    using that by (induction js) auto
  moreover have "held_in sc (del_where P js) \<le> held_in sc js" "pending_in sc (del_where P js) \<le> pending_in sc js" for sc js
    by (simp_all add: held_in_def pending_in_def count_where_del_where_le)
  moreover have "job_table_ok s \<Longrightarrow> job_table_ok t"
    using assms(2,3) calculation(1) by (auto simp: job_table_ok_def intro: distinct_del_where)
  moreover have "int (held_in sc (jobs t)) \<le> m" "pending_in sc (jobs t) \<le> max_pending_heavy_jobs" for sc
    using calculation(3) [of sc "jobs s"] calculation(4) [of sc "jobs s"] assms(1)
    unfolding jobs_inv_def assms(2) by (meson of_nat_mono order_trans)+
  ultimately show ?thesis
    using assms(1) unfolding jobs_inv_def assms(2) by blast
qed

lemma delete_finished_inv:
  assumes "jobs_inv m s" and "delete_finished s i = Inr (t, b)"
  shows "jobs_inv m t"
proof -
  from assms(1) have ok: "job_table_ok s" by (simp add: jobs_inv_def)
  note d = delete_finished_jobs [OF assms(2) ok]
  have "jobs t = del_where (\<lambda>j. b \<and> hj_id j = i) (jobs s)"
    using d(1) by (cases b) (simp_all add: del_where_absent)
  with jobs_inv_delete [OF assms(1)] d(2) show ?thesis by blast
qed

text \<open>The table invariant alone.\<close>

lemma enqueue_table_ok:
  assumes ok: "job_table_ok s" and e: "enqueue_job s i new_id = Inr (t, j, reused)"
  shows "job_table_ok t"
  using e
proof (cases rule: enqueue_job_cases)
  case admit
  then show ?thesis
    using ok unfolding job_table_ok_def
    by (auto simp: sorted_wrt_append image_iff le_Suc_eq dest: le_imp_less_Suc)
qed (use ok in simp)

lemma delete_table_ok:
  assumes ok: "job_table_ok s" and d: "delete_finished s i = Inr (t, b)"
  shows "job_table_ok t"
proof -
  have "sorted_wrt (<) (map hj_sequence (del_where P js))" if "sorted_wrt (<) (map hj_sequence js)" for P js
    using that by (induction js) auto
  with ok delete_finished_jobs(1,2) [OF d ok] show ?thesis
    by (auto simp: job_table_ok_def intro: distinct_del_where)
qed

end
