(* ===== verification/Job_Properties.thy ===== *)
theory Job_Properties
  imports Job_Operations
begin

text \<open>
  The heavy-job store as a state machine: its operations in any order, interleaved with the other
  stores of the database, and the properties that hold after any run.
\<close>

section \<open>The machine\<close>

text \<open>
  \<open>m\<close> is the concurrency every claim is made with, \<open>policy\<close> says which memory policies the claims
  use. \<open>Other\<close> is any statement of another store: it leaves the job table alone.
\<close>

inductive job_step :: "jsnum \<Rightarrow> (memory_admission option \<Rightarrow> bool) \<Rightarrow> db \<Rightarrow> db \<Rightarrow> bool"
  for m :: jsnum and policy :: "memory_admission option \<Rightarrow> bool" where
  Enqueue: "enqueue_job s i new_id = Inr (t, j, reused) \<Longrightarrow> job_step m policy s t"
| Claim: "policy memory \<Longrightarrow> claim_job s scope m now memory = Inr (t, r) \<Longrightarrow> job_step m policy s t"
| Bind_Process: "bind_process s i p = (t, b) \<Longrightarrow> job_step m policy s t"
| Bind_Anchor: "bind_anchor s i pid = Inr (t, b) \<Longrightarrow> job_step m policy s t"
| Cancel: "request_cancellation s i scope reason now = Inr (t, j) \<Longrightarrow> job_step m policy s t"
| Timeout: "confirm_timeout s i scope = Inr (t, j) \<Longrightarrow> job_step m policy s t"
| Finish: "terminal (jf_state f) \<Longrightarrow> finish_job s i f = Inr (t, j) \<Longrightarrow> job_step m policy s t"
| Set_Error: "t = set_job_error s i e \<Longrightarrow> job_step m policy s t"
| Delete: "delete_finished s i = Inr (t, b) \<Longrightarrow> job_step m policy s t"
| Other: "jobs t = jobs s \<Longrightarrow> job_high_water t = job_high_water s \<Longrightarrow> job_step m policy s t"

text \<open>A step is an admission, a deletion, a grant, or changes rows without granting a slot.\<close>

lemma job_step_cases4:
  assumes "job_step m policy s t" and "job_table_ok s"
  obtains (keep) "jobs_keep s t"
  | (admit) i new_id j reused where "enqueue_job s i new_id = Inr (t, j, reused)"
  | (delete) i b where "delete_finished s i = Inr (t, b)"
  | (grant) s1 j scope memory now where "policy memory" "jobs_keep s s1" "claimable s1 scope m memory j"
      "t = upd_jobs (\<lambda>k. hj_id k = hj_id j \<and> hj_state k = J_QUEUED) (started_job now) s1"
proof -
  note give = grant
  from assms(1) show thesis
  proof cases
    case (Claim memory scope now r)
    from assms(2) Claim(2) show ?thesis
    proof (cases rule: claim_job_cases)
      case none
      with keep show ?thesis by blast
    next
      case (grant s1 j)
      with Claim(1) give show ?thesis by blast
    qed
  next
    case Other
    then have "jobs_keep s t" by (simp add: jobs_keep_def list_all2_same)
    with keep show ?thesis by blast
  qed (use assms(2) keep admit delete in \<open>blast intro: bind_process_keep bind_anchor_keep request_cancellation_keep
      confirm_timeout_keep finish_job_keep set_job_error_keep\<close>)+
qed

lemma job_step_inv: "job_step m policy s t \<Longrightarrow> jobs_inv (whole m) s \<Longrightarrow> jobs_inv (whole m) t"
proof -
  assume st: "job_step m policy s t" and inv: "jobs_inv (whole m) s"
  from inv have "job_table_ok s" by (simp add: jobs_inv_def)
  with st show ?thesis
  proof (cases rule: job_step_cases4)
    case (grant s1 j scope memory now)
    show ?thesis unfolding grant(4) by (rule jobs_inv_grant [OF jobs_inv_keep [OF grant(2) inv] grant(3)])
  qed (use inv in \<open>blast intro: jobs_inv_keep enqueue_job_inv delete_finished_inv\<close>)+
qed

text \<open>
  History: sequence numbers are never reused, so a row with an old number is the descendant of the
  old row, and has followed the life cycle since.
\<close>

definition jobs_history :: "db \<Rightarrow> db \<Rightarrow> bool" where
  "jobs_history s t \<longleftrightarrow> job_high_water s \<le> job_high_water t \<and>
    (\<forall>k\<in>set (jobs t). hj_sequence k \<le> job_high_water s \<longrightarrow>
      (\<exists>j\<in>set (jobs s). hj_sequence j = hj_sequence k \<and> job_evolves j k))"

lemma jobs_history_refl [simp]: "jobs_history s s"
  by (auto simp: jobs_history_def)

lemma jobs_history_trans:
  assumes st: "jobs_history s t" and tu: "jobs_history t u"
  shows "jobs_history s u"
  unfolding jobs_history_def
proof (intro conjI ballI impI)
  show "job_high_water s \<le> job_high_water u"
    using st tu by (simp add: jobs_history_def)
  fix l assume l: "l \<in> set (jobs u)" "hj_sequence l \<le> job_high_water s"
  with st tu obtain k where k: "k \<in> set (jobs t)" "hj_sequence k = hj_sequence l" "job_evolves k l"
    unfolding jobs_history_def by (meson order_trans)
  with st l(2) obtain j where "j \<in> set (jobs s)" "hj_sequence j = hj_sequence k" "job_evolves j k"
    unfolding jobs_history_def by auto
  with k show "\<exists>j\<in>set (jobs s). hj_sequence j = hj_sequence l \<and> job_evolves j l"
    by (auto intro: job_evolves_trans)
qed

lemma jobs_history_evolves:
  assumes "list_all2 job_evolves (jobs s) (jobs t)" and "job_high_water t = job_high_water s"
  shows "jobs_history s t"
  unfolding jobs_history_def
proof (intro conjI ballI impI)
  fix k assume "k \<in> set (jobs t)"
  from list_all2_setD [OF assms(1) this] show "\<exists>j\<in>set (jobs s). hj_sequence j = hj_sequence k \<and> job_evolves j k"
    using job_evolves_columns by metis
qed (simp add: assms(2))

lemma jobs_keep_history: "jobs_keep s t \<Longrightarrow> jobs_history s t"
  by (rule jobs_history_evolves [OF jobs_keep_evolves]) (auto simp: jobs_keep_def)

lemma job_step_history:
  assumes st: "job_step m policy s t" and inv: "jobs_inv (whole m) s"
  shows "jobs_history s t"
proof -
  from inv have ok: "job_table_ok s" by (simp add: jobs_inv_def)
  from st ok show ?thesis
  proof (cases rule: job_step_cases4)
    case keep
    then show ?thesis by (rule jobs_keep_history)
  next
    case (admit i new_id j reused)
    from admit show ?thesis by (cases rule: enqueue_job_cases) (auto simp: jobs_history_def)
  next
    case (delete i b)
    from delete_finished_jobs(1,2) [OF delete ok] show ?thesis
      by (auto simp: jobs_history_def split: if_splits)
  next
    case (grant s1 j scope memory now)
    from grant(2) have "jobs_history s s1" by (rule jobs_keep_history)
    moreover have "jobs_history s1 t"
      unfolding grant(4) by (rule jobs_history_evolves [OF grant_evolves]) simp
    ultimately show ?thesis by (rule jobs_history_trans)
  qed
qed

interpretation jobq: history_machine "job_step m policy" "jobs_inv (whole m)" jobs_history for m policy
  by unfold_locales (blast intro: job_step_inv job_step_history jobs_history_trans jobs_history_refl)+

lemma jobs_inv_empty: "0 \<le> m \<Longrightarrow> jobs_inv m empty_db"
  by (simp add: jobs_inv_def job_table_ok_def held_in_def pending_in_def empty_db_def)

lemma reachable_jobs_inv: "(job_step m policy)\<^sup>*\<^sup>* empty_db s \<Longrightarrow> safe_positive m \<Longrightarrow> jobs_inv (whole m) s"
  using jobq.run_inv [OF _ jobs_inv_empty] safe_positive_whole by force

section \<open>Memory reservations\<close>

definition reserved_in :: "string \<Rightarrow> heavy_job list \<Rightarrow> int" where
  "reserved_in scope js = sum_list (map (\<lambda>j. bytes (map_option Whole (hj_memory_estimate j)))
     (filter (\<lambda>j. hj_scope j = scope \<and> hj_slot_held j) js))"

definition estimates_ok :: "db \<Rightarrow> bool" where
  "estimates_ok s \<longleftrightarrow> (\<forall>j\<in>set (jobs s). 0 \<le> bytes (map_option Whole (hj_memory_estimate j)))"

definition reservations_inv :: "int \<Rightarrow> db \<Rightarrow> bool" where
  "reservations_inv budget s \<longleftrightarrow> job_table_ok s \<and> estimates_ok s \<and> (\<forall>scope. reserved_in scope (jobs s) \<le> budget)"

text \<open>Every claim is made under a memory policy with this budget.\<close>

definition budget_policy :: "int \<Rightarrow> memory_admission option \<Rightarrow> bool" where
  "budget_policy budget memory \<longleftrightarrow> (\<exists>a. memory = Some a \<and> whole (ma_budget_bytes a) = budget)"

lemma estimates_ok_evolves:
  assumes "list_all2 job_evolves (jobs s) (jobs t)" and "estimates_ok s"
  shows "estimates_ok t"
  unfolding estimates_ok_def
proof
  fix k assume "k \<in> set (jobs t)"
  from list_all2_setD [OF assms(1) this] obtain j where "j \<in> set (jobs s)" "job_evolves j k" by blast
  with assms(2) show "0 \<le> bytes (map_option Whole (hj_memory_estimate k))"
    by (auto simp: estimates_ok_def job_evolves_def same_request_def)
qed

lemma reservations_inv_keep:
  assumes k: "jobs_keep s t" and inv: "reservations_inv b s"
  shows "reservations_inv b t"
proof -
  from inv have ok: "job_table_ok s" "estimates_ok s" by (simp_all add: reservations_inv_def)
  from k have l: "list_all2 job_keeps (jobs s) (jobs t)" by (simp add: jobs_keep_def)
  have wf: "\<forall>j\<in>set (jobs s). wf_job j" using ok(1) by (simp add: job_table_ok_def)
  have "reserved_in scope (jobs t) \<le> reserved_in scope (jobs s)" for scope
    unfolding reserved_in_def
    by (rule list_all2_sum_filter_le [OF list_all2_wf [OF l wf]])
      (use ok(2) in \<open>auto simp: job_keeps_def job_evolves_def same_request_def estimates_ok_def\<close>)
  then show ?thesis
    using inv jobs_keep_table_ok [OF k ok(1)] estimates_ok_evolves [OF jobs_keep_evolves [OF k] ok(2)]
    by (auto simp: reservations_inv_def intro: order_trans)
qed

lemma reserved_after_grant:
  assumes "distinct (map hj_id js)" and "j \<in> set js" and "\<not> hj_slot_held j"
  shows "reserved_in sc (upd_where (\<lambda>k. hj_id k = hj_id j \<and> hj_state k = J_QUEUED) (started_job now) js)
    \<le> reserved_in sc js + (if hj_scope j = sc \<and> hj_state j = J_QUEUED then bytes (map_option Whole (hj_memory_estimate j)) else 0)"
proof -
  from split_list [OF assms(2)] obtain xs ys where js: "js = xs @ j # ys" by blast
  have same: "upd_where (\<lambda>k. hj_id k = hj_id j \<and> hj_state k = J_QUEUED) (started_job now) zs = zs"
    if "zs = xs \<or> zs = ys" for zs
    by (rule upd_where_absent) (use assms(1) js that in \<open>auto simp: key_notin\<close>)
  show ?thesis using assms(3) by (auto simp: js same started_job_def reserved_in_def)
qed

lemma reservations_inv_grant:
  assumes inv: "reservations_inv b s" and p: "budget_policy b memory" and c: "claimable s scope m memory j"
  shows "reservations_inv b (upd_jobs (\<lambda>k. hj_id k = hj_id j \<and> hj_state k = J_QUEUED) (started_job now) s)"
    (is "reservations_inv b ?t")
proof -
  from inv have ok: "job_table_ok s" "estimates_ok s" by (simp_all add: reservations_inv_def)
  from c have j: "j \<in> set (jobs s)" "hj_scope j = scope" "hj_state j = J_QUEUED"
    by (auto simp: claimable_def dispatchable_def)
  from table_wf [OF ok(1) j(1)] j(3) have nh: "\<not> hj_slot_held j" by (simp add: wf_job_def)
  from p obtain a where a: "memory = Some a" "whole (ma_budget_bytes a) = b" by (auto simp: budget_policy_def)
  have "sum_list (map bytes (map_option Whole (hj_memory_estimate j) # map (\<lambda>k. map_option Whole (hj_memory_estimate k))
      (filter (\<lambda>k. hj_scope k = scope \<and> hj_slot_held k) (jobs s)))) \<le> whole (ma_budget_bytes a)"
    by (rule memory_admission_fits) (use c a in \<open>simp add: claimable_def dispatchable_def\<close>)
  then have fit: "bytes (map_option Whole (hj_memory_estimate j)) + reserved_in scope (jobs s) \<le> b"
    by (simp add: a(2) reserved_in_def comp_def)
  have ids: "distinct (map hj_id (jobs s))" using ok(1) by (simp add: job_table_ok_def)
  have "reserved_in sc (jobs ?t) \<le> b" for sc
    using reserved_after_grant [OF ids j(1) nh, of sc now] fit inv j
    by (auto simp: reservations_inv_def split: if_splits intro: order_trans)
  then show ?thesis
    using job_table_ok_evolves [OF grant_evolves _ ok(1), of "hj_id j" now] estimates_ok_evolves [OF grant_evolves ok(2), of "hj_id j" now]
    by (simp add: reservations_inv_def)
qed

lemma enqueue_job_estimate:
  assumes "enqueue_job s i new_id = Inr (t, j, reused)"
  shows "reused \<or> 0 \<le> bytes (map_option Whole (hj_memory_estimate j))"
  using assms
  by (auto simp: enqueue_job_def Let_def bytes_def split: if_splits option.splits sum.splits)

lemma reservations_step:
  assumes st: "job_step m (budget_policy b) s t" and inv: "reservations_inv b s"
  shows "reservations_inv b t"
proof -
  from inv have ok: "job_table_ok s" by (simp add: reservations_inv_def)
  from st ok show ?thesis
  proof (cases rule: job_step_cases4)
    case keep
    with inv show ?thesis by (auto intro: reservations_inv_keep)
  next
    case (admit i new_id j reused)
    have "job_table_ok t"
      using admit ok by (cases rule: enqueue_job_cases) (auto simp: job_table_ok_def sorted_wrt_append image_iff le_Suc_eq dest: le_imp_less_Suc)
    with admit inv enqueue_job_estimate [OF admit] show ?thesis
      by (cases rule: enqueue_job_cases) (auto simp: reservations_inv_def estimates_ok_def reserved_in_def)
  next
    case (delete i b')
    note d = delete_finished_jobs [OF delete ok]
    have le: "reserved_in sc (del_where P js) \<le> reserved_in sc js"
      if "\<forall>j\<in>set js. 0 \<le> bytes (map_option Whole (hj_memory_estimate j))" for sc P js
      using that by (induction js) (auto simp: reserved_in_def)
    have "job_table_ok t"
    proof -
      have "sorted_wrt (<) (map hj_sequence (del_where P js))" if "sorted_wrt (<) (map hj_sequence js)" for P js
        using that by (induction js) auto
      with ok d(1,2) show ?thesis by (auto simp: job_table_ok_def intro: distinct_del_where)
    qed
    moreover have "reserved_in sc (jobs t) \<le> b" for sc
    proof -
      have "reserved_in sc (jobs t) \<le> reserved_in sc (jobs s)"
        using d(1) le [of "jobs s" sc] inv by (auto simp: reservations_inv_def estimates_ok_def)
      also have "\<dots> \<le> b" using inv by (simp add: reservations_inv_def)
      finally show ?thesis .
    qed
    moreover have "estimates_ok t"
      using inv d(1) by (auto simp: reservations_inv_def estimates_ok_def)
    ultimately show ?thesis by (simp add: reservations_inv_def)
  next
    case (grant s1 j scope memory now)
    show ?thesis unfolding grant(4)
      by (rule reservations_inv_grant [OF reservations_inv_keep [OF grant(2) inv] grant(1,3)])
  qed
qed

interpretation budgeted: machine "job_step m (budget_policy b)" "reservations_inv b" for m b
  by unfold_locales (rule reservations_step)

lemma run_job_evolves:
  assumes "(job_step m policy)\<^sup>*\<^sup>* s t" and "jobs_inv (whole m) s"
    and "j \<in> set (jobs s)" and "k \<in> set (jobs t)" and "hj_sequence k = hj_sequence j"
  shows "job_evolves j k \<and> wf_job j \<and> wf_job k"
proof -
  from assms(2) have ok: "job_table_ok s" by (simp add: jobs_inv_def)
  with assms(3) have j: "wf_job j" "hj_sequence j \<le> job_high_water s" by (auto simp: job_table_ok_def)
  from jobq.run_history [OF assms(1,2)] assms(4,5) j(2) obtain i where
    i: "i \<in> set (jobs s)" "hj_sequence i = hj_sequence k" "job_evolves i k"
    by (auto simp: jobs_history_def)
  with assms(3,5) have "i = j" by (intro job_sequence_unique [OF ok]) simp_all
  with i(3) j(1) show ?thesis by (simp add: job_evolves_def)
qed

section \<open>A small run\<close>

text \<open>The concrete states the witnesses use: one registered worktree, one admitted job, one claim.\<close>

definition demo_worktree :: worktree_row where
  "demo_worktree = \<lparr> wt_id = ''w1'', wt_repository_id = ''r1'', wt_numeric_id = 1, wt_path = ''/p'',
     wt_branch = None, wt_head_oid = None, wt_is_main = True, wt_is_locked = False,
     wt_state = WT_READY, wt_created_at = 0, wt_last_seen_at = 0, wt_last_runtime_at = None \<rparr>"

definition demo_request :: job_enqueue_input where
  "demo_request = \<lparr> ji_scope = ''u'', ji_workspace_id = ''s1'', ji_repository_id = ''r1'',
     ji_worktree_id = ''w1'', ji_worktree_path = ''/p'', ji_task_name = ''build'',
     ji_idempotency_key = ''k1'', ji_command_fingerprint = ''c'', ji_source_fingerprint = ''f'',
     ji_timeout_ms = Whole 1000, ji_memory_estimate = Some (Whole 300), ji_now = 5 \<rparr>"

definition demo_job :: heavy_job where
  "demo_job = \<lparr> hj_id = ''j1'', hj_sequence = 1, hj_scope = ''u'', hj_workspace_id = ''s1'',
     hj_repository_id = ''r1'', hj_worktree_id = ''w1'', hj_worktree_path = ''/p'',
     hj_task_name = ''build'', hj_idempotency_key = ''k1'', hj_command_fingerprint = ''c'',
     hj_source_fingerprint = ''f'', hj_timeout_ms = 1000, hj_memory_estimate = Some 300,
     hj_state = J_QUEUED, hj_slot_held = False, hj_process_id = None, hj_anchor_pid = None,
     hj_created_at = 5, hj_started_at = None, hj_finished_at = None, hj_exit_code = None,
     hj_signal = None, hj_error = None, hj_source_validity = Source_Unknown, hj_stop_reason = None \<rparr>"

definition demo_registered :: db where
  "demo_registered = empty_db\<lparr>worktrees := [demo_worktree]\<rparr>"

definition demo_queued :: db where
  "demo_queued = demo_registered\<lparr>jobs := [demo_job], job_high_water := 1\<rparr>"

definition demo_memory :: memory_admission where
  "demo_memory = \<lparr> ma_budget_bytes = Whole 1000, ma_reserve_bytes = Whole 100,
     ma_available_bytes = Some (Whole 900), ma_total_bytes = None \<rparr>"

definition demo_running :: db where
  "demo_running = demo_queued\<lparr>jobs := [started_job 7 demo_job]\<rparr>"

definition demo_finish :: job_finish_input where
  "demo_finish = \<lparr> jf_state = J_SUCCEEDED, jf_exit_code = Some 0, jf_signal = None, jf_error = None,
     jf_source_validity = Source_Unchanged, jf_now = 9 \<rparr>"

definition demo_done :: db where
  "demo_done = demo_queued\<lparr>jobs := [finished_job demo_finish (started_job 7 demo_job)]\<rparr>"

lemmas demo_defs = demo_worktree_def demo_request_def demo_job_def demo_registered_def demo_queued_def
  demo_memory_def demo_running_def demo_finish_def demo_done_def empty_db_def

lemma demo_enqueue: "enqueue_job demo_registered demo_request ''j1'' = Inr (demo_queued, demo_job, False)"
  by (simp add: demo_defs enqueue_job_def assert_registered_def max_safe_integer_def max_memory_estimate_def
      max_pending_heavy_jobs_def max_retained_heavy_jobs_def pending_def Let_def)

lemma demo_claim:
  "claim_job demo_queued ''u'' (Whole 1) 7 (Some demo_memory) = Inr (demo_running, Some (started_job 7 demo_job))"
  by (simp add: demo_defs claim_job_def scheduling_snapshot_def pending_def memory_estimate_error_def
      memory_capacity_def max_safe_integer_def valid_bytes_def [of None] job_waiting_reasons_def
      slots_held_def waiting_reason_of_def memory_allows_claim_def assert_registered_def get_job_by_id_def
      upd_jobs_def started_job_def Let_def)

lemma demo_finish_job:
  "finish_job demo_running ''j1'' demo_finish = Inr (demo_done, finished_job demo_finish (started_job 7 demo_job))"
  by (simp add: demo_defs finish_job_def get_job_by_id_def upd_jobs_def started_job_def finished_job_def
      pending_def final_state_def finish_error_def Let_def)

lemma demo_run_queued: "(job_step m policy)\<^sup>*\<^sup>* empty_db demo_queued"
proof -
  have "job_step m policy empty_db demo_registered"
    by (rule job_step.Other) (simp_all add: demo_registered_def)
  moreover have "job_step m policy demo_registered demo_queued"
    by (rule job_step.Enqueue [OF demo_enqueue])
  ultimately show ?thesis by (meson rtranclp.simps)
qed

lemma demo_run_running:
  assumes "policy (Some demo_memory)"
  shows "(job_step (Whole 1) policy)\<^sup>*\<^sup>* empty_db demo_running"
  by (rule rtranclp.rtrancl_into_rtrancl [OF demo_run_queued job_step.Claim [where policy = policy and memory = "Some demo_memory", OF assms demo_claim]])

lemma demo_step_done: "job_step m policy demo_running demo_done"
  by (rule job_step.Finish [OF _ demo_finish_job]) (simp add: demo_finish_def)

lemma demo_queued_inv: "jobs_inv 1 demo_queued"
  using reachable_jobs_inv [OF demo_run_queued, of "Whole 1"] by (simp add: max_safe_integer_def)

lemma demo_running_inv: "jobs_inv 1 demo_running"
  using reachable_jobs_inv [OF demo_run_running, of "\<lambda>_. True"] by (simp add: max_safe_integer_def)

section \<open>Properties\<close>

text \<open>
  C1. Concurrency of the heavy-job queue: after any sequence of operations from an empty store in which
  every claim uses the concurrency limit \<open>m\<close>, at most \<open>m\<close> jobs of a scope hold a slot, no two held
  jobs share a worktree, and at most 128 jobs of a scope are pending.
\<close>

theorem heavy_job_slots:
  assumes "(job_step m policy)\<^sup>*\<^sup>* empty_db s" and "safe_positive m"
  shows "int (held_in scope (jobs s)) \<le> whole m
    \<and> distinct (map hj_worktree_id (filter hj_slot_held (jobs s)))
    \<and> pending_in scope (jobs s) \<le> max_pending_heavy_jobs"
  using reachable_jobs_inv [OF assms] by (simp add: jobs_inv_def)

lemma heavy_job_slots_witness:
  "held_in ''u'' (jobs demo_running) = 1 \<and> int (held_in ''u'' (jobs demo_running)) \<le> whole (Whole 1)"
proof -
  have "held_in ''u'' (jobs demo_running) = 1"
    by (simp add: demo_defs held_in_def started_job_def)
  with heavy_job_slots [OF demo_run_running, of "\<lambda>_. True" "''u''"] show ?thesis
    by (simp add: max_safe_integer_def)
qed

text \<open>
  C18. A finished job is final: whatever operations run after a job reached a terminal state, the row with
  its sequence number, if it was not pruned, is the very same row.
\<close>

theorem terminal_job_immutable:
  assumes "(job_step m policy)\<^sup>*\<^sup>* s t" and "jobs_inv (whole m) s"
    and "j \<in> set (jobs s)" and "terminal (hj_state j)"
    and "k \<in> set (jobs t)" and "hj_sequence k = hj_sequence j"
  shows "k = j"
  using run_job_evolves [OF assms(1,2,3,5,6)] assms(4) by (simp add: job_evolves_def)

lemma terminal_job_immutable_witness:
  "{k \<in> set (jobs demo_done). hj_sequence k = 1} = {finished_job demo_finish (started_job 7 demo_job)}"
proof -
  have inv: "jobs_inv (whole (Whole 1)) demo_done"
    using job_step_inv [OF demo_step_done, of "Whole 1"] demo_running_inv by simp
  let ?j = "finished_job demo_finish (started_job 7 demo_job)"
  have j: "?j \<in> set (jobs demo_done)" "terminal (hj_state ?j)" "hj_sequence ?j = 1"
    by (simp_all add: demo_defs finished_job_def started_job_def pending_def final_state_def)
  have "k = ?j" if "k \<in> set (jobs demo_done)" "hj_sequence k = 1" for k
    using terminal_job_immutable [OF rtranclp.rtrancl_refl inv j(1,2) that(1)] that(2) j(3) by simp
  with j(1,3) show ?thesis by blast
qed

text \<open>
  C17. An accepted cancellation is never lost: once a job's stop reason is \<open>CANCELLED\<close>, every later state
  of that job still says so, and if it has ended it ended as \<open>CANCELLED\<close> (neither a late success nor
  a timeout replaces it).
\<close>

theorem cancellation_is_kept:
  assumes "(job_step m policy)\<^sup>*\<^sup>* s t" and "jobs_inv (whole m) s"
    and "j \<in> set (jobs s)" and "hj_stop_reason j = Some Stop_Cancelled"
    and "k \<in> set (jobs t)" and "hj_sequence k = hj_sequence j"
  shows "hj_stop_reason k = Some Stop_Cancelled \<and> (terminal (hj_state k) \<longrightarrow> hj_state k = J_CANCELLED)"
proof -
  have "hj_stop_reason k = Some Stop_Cancelled" and "wf_job k"
    using run_job_evolves [OF assms(1,2,3,5,6)] assms(4) by (simp_all add: job_evolves_def)
  then show ?thesis by (auto simp: wf_job_def)
qed

lemma cancellation_is_kept_witness:
  "let j = cancelled_job Stop_Cancelled 8 (started_job 7 demo_job); s = demo_running\<lparr>jobs := [j]\<rparr> in
   hj_stop_reason j = Some Stop_Cancelled \<and> (\<forall>k\<in>set (jobs s). hj_sequence k = 1 \<longrightarrow> hj_stop_reason k = Some Stop_Cancelled)"
proof -
  let ?j = "cancelled_job Stop_Cancelled 8 (started_job 7 demo_job)" and ?s = "demo_running\<lparr>jobs := [cancelled_job Stop_Cancelled 8 (started_job 7 demo_job)]\<rparr>"
  have "request_cancellation demo_running ''j1'' ''u'' Stop_Cancelled 8 = Inr (?s, ?j)"
    by (simp add: demo_defs request_cancellation_def get_job_by_id_def upd_jobs_def started_job_def cancelled_job_def)
  from job_step_inv [OF job_step.Cancel [OF this], of "Whole 1"] demo_running_inv
  have inv: "jobs_inv (whole (Whole 1)) ?s" by simp
  have j: "?j \<in> set (jobs ?s)" "hj_stop_reason ?j = Some Stop_Cancelled" "hj_sequence ?j = 1"
    by (simp_all add: demo_defs cancelled_job_def started_job_def)
  from cancellation_is_kept [OF rtranclp.rtrancl_refl inv j(1,2)] j show ?thesis by (auto simp: Let_def)
qed

end
