(* ===== verification/Job_Guarantees.thy ===== *)
theory Job_Guarantees
  imports Job_Properties
begin

text \<open>
  What a single call of the heavy-job store promises its caller: a claim hands out the right job and
  hands it out when it can, a repeated submission is the first one, the first finalization wins, pruning
  and deletion touch finished jobs only, and the memory reserved stays under the budget.
\<close>

section \<open>Claims\<close>

text \<open>What the filter at the head of a claim leaves: it only fails queued jobs, and only those that no longer fit.\<close>

lemma fail_unfit_Cons:
  "snd (fail_unfit m now (e # es) s) = snd (fail_unfit m now es
     (if unfit m e then upd_jobs (\<lambda>j. hj_id j = se_job_id e \<and> hj_state j = J_QUEUED \<and> \<not> hj_slot_held j)
        (\<lambda>j. j\<lparr>hj_state := J_FAILED, hj_finished_at := Some now,
           hj_error := Some (memory_error_text (the (memory_estimate_error (se_memory_estimate e) m)))\<rparr>) s else s))"
  by (auto simp: unfit_def split: option.splits prod.splits)

lemma fail_unfit_rows:
  "k \<in> set (jobs (snd (fail_unfit m now es s))) \<Longrightarrow> k \<in> set (jobs s) \<or> hj_state k = J_FAILED \<and> \<not> hj_slot_held k"
proof (induction es arbitrary: s)
  case (Cons e es)
  from Cons.IH [OF Cons.prems [unfolded fail_unfit_Cons]] show ?case
    by (cases "unfit m e") (auto simp: set_upd_where split: if_splits)
qed simp

lemma fail_unfit_others:
  "k \<in> set (jobs s) \<Longrightarrow> \<forall>e\<in>set es. unfit m e \<longrightarrow> se_job_id e \<noteq> hj_id k \<Longrightarrow> k \<in> set (jobs (snd (fail_unfit m now es s)))"
proof (induction es arbitrary: s)
  case (Cons e es)
  from Cons.prems have "unfit m e \<Longrightarrow> se_job_id e \<noteq> hj_id k" by simp
  with Cons.prems(1) show ?case
    unfolding fail_unfit_Cons by (intro Cons.IH) (use Cons.prems(2) in \<open>auto simp: set_upd_where intro!: image_eqI [of _ _ k]\<close>)
qed simp

lemma held_upd_where:
  "(\<And>k. P k \<Longrightarrow> \<not> hj_slot_held k \<and> \<not> hj_slot_held (f k)) \<Longrightarrow>
   filter (\<lambda>k. hj_scope k = scope \<and> hj_slot_held k) (upd_where P f js) = filter (\<lambda>k. hj_scope k = scope \<and> hj_slot_held k) js"
  by (induction js) auto

lemma fail_unfit_held:
  "filter (\<lambda>k. hj_scope k = scope \<and> hj_slot_held k) (jobs (snd (fail_unfit m now es s))) =
   filter (\<lambda>k. hj_scope k = scope \<and> hj_slot_held k) (jobs s)"
proof (induction es arbitrary: s)
  case (Cons e es)
  show ?case unfolding fail_unfit_Cons Cons.IH by (auto intro!: held_upd_where)
qed simp

lemma dispatchable_reasons:
  assumes ok: "job_table_ok s" and m: "safe_positive m" and d: "dispatchable s scope m memory j"
  shows "\<exists>others. job_waiting_reasons (scheduling_snapshot s scope) m memory = Inr ((hj_id j, Wait_Dispatch_Pending) # others)"
proof -
  let ?Q = "\<lambda>j. hj_scope j = scope \<and> hj_state j = J_QUEUED"
  from d have j: "j \<in> set (filter ?Q (jobs s))" by (simp add: dispatchable_def)
  then obtain h hs where h: "filter ?Q (jobs s) = h # hs" by (cases "filter ?Q (jobs s)") auto
  have "sorted_wrt (<) (map hj_sequence (filter ?Q (jobs s)))"
  proof -
    have "sorted_wrt (<) (map hj_sequence js) \<Longrightarrow> sorted_wrt (<) (map hj_sequence (filter ?Q js))" for js
      by (induction js) auto
    with ok show ?thesis unfolding job_table_ok_def by blast
  qed
  with h have less: "\<forall>k\<in>set hs. hj_sequence h < hj_sequence k" by simp
  have "h \<in> set (filter ?Q (jobs s))" by (simp add: h)
  with d have "hj_sequence j \<le> hj_sequence h" by (auto simp: dispatchable_def)
  with less j h have hj: "h = j" by auto
  note q = queued_snapshot [OF ok, of scope, unfolded h hj]
  let ?full = "int (slots_held (scheduling_snapshot s scope)) \<ge> whole m"
  let ?held = "map se_memory_estimate (filter se_slot_held (scheduling_snapshot s scope))"
  obtain others where "waiting_loop ?full ?held memory False (scheduling_snapshot s scope) [] =
      (hj_id j, waiting_reason_of ?full ?held memory False (entry_of (jobs s) j)) # others"
    using waiting_loop_head [OF q [unfolded list.map] distinct_map_filterI [OF snapshot_ids [OF ok]], of ?full ?held memory]
    by auto
  moreover have "waiting_reason_of ?full ?held memory False (entry_of (jobs s) j) = Wait_Dispatch_Pending"
    using d by (auto simp: waiting_reason_of_def dispatchable_def snapshot_slots ok snapshot_held_estimates split: option.splits)
  ultimately show ?thesis
    using m by (simp add: job_waiting_reasons_def Let_def safe_positive_def)
qed

text \<open>
  The next job of a scope, in the state a claim finds: the oldest of the queued jobs that the memory policy can
  still admit at all, when it finds a free slot, an idle worktree, enough memory and a usable worktree.
\<close>

definition fits :: "memory_admission option \<Rightarrow> heavy_job \<Rightarrow> bool" where
  "fits memory k = (case memory of None \<Rightarrow> True
     | Some a \<Rightarrow> memory_estimate_error (map_option Whole (hj_memory_estimate k)) a = None)"

definition next_job :: "db \<Rightarrow> string \<Rightarrow> jsnum \<Rightarrow> memory_admission option \<Rightarrow> heavy_job \<Rightarrow> bool" where
  "next_job s scope m memory j \<longleftrightarrow> j \<in> set (jobs s) \<and> hj_scope j = scope \<and> hj_state j = J_QUEUED \<and>
    (\<forall>k\<in>set (jobs s). hj_scope k = scope \<and> hj_state k = J_QUEUED \<and> fits memory k \<longrightarrow> hj_sequence j \<le> hj_sequence k) \<and>
    int (held_in scope (jobs s)) < whole m \<and>
    (\<forall>k\<in>set (jobs s). hj_slot_held k \<longrightarrow> hj_worktree_id k \<noteq> hj_worktree_id j) \<and>
    (\<forall>a. memory = Some a \<longrightarrow> memory_allows_claim (map_option Whole (hj_memory_estimate j))
       (map (\<lambda>k. map_option Whole (hj_memory_estimate k))
          (filter (\<lambda>k. hj_scope k = scope \<and> hj_slot_held k) (jobs s))) a) \<and>
    is_ok (assert_registered s (hj_repository_id j) (hj_worktree_id j) (hj_worktree_path j))"

definition filtered :: "db \<Rightarrow> string \<Rightarrow> time \<Rightarrow> memory_admission option \<Rightarrow> db" where
  "filtered s scope now memory =
    (case memory of None \<Rightarrow> s | Some a \<Rightarrow> snd (fail_unfit a now (scheduling_snapshot s scope) s))"

lemma filtered_claims:
  assumes "job_table_ok s"
  shows "(case memory of None \<Rightarrow> (scheduling_snapshot s scope, s)
      | Some a \<Rightarrow> fail_unfit a now (scheduling_snapshot s scope) s) =
    (scheduling_snapshot (filtered s scope now memory) scope, filtered s scope now memory)"
    and "jobs_keep s (filtered s scope now memory)" and "job_table_ok (filtered s scope now memory)"
proof -
  show "jobs_keep s (filtered s scope now memory)" by (simp add: filtered_def fail_unfit_keep split: option.split)
  then show "job_table_ok (filtered s scope now memory)" by (rule jobs_keep_table_ok) (rule assms)
  show "(case memory of None \<Rightarrow> (scheduling_snapshot s scope, s)
      | Some a \<Rightarrow> fail_unfit a now (scheduling_snapshot s scope) s) =
    (scheduling_snapshot (filtered s scope now memory) scope, filtered s scope now memory)"
  proof (cases memory)
    case (Some a)
    have "fst (fail_unfit a now (scheduling_snapshot s scope) s) =
        scheduling_snapshot (snd (fail_unfit a now (scheduling_snapshot s scope) s)) scope"
      using fail_unfit_snapshot [OF assms subset_refl snapshot_ids [OF assms]] fail_unfit_entries
      by (auto intro!: filter_cong)
    with Some show ?thesis by (simp add: filtered_def prod_eq_iff)
  qed (simp add: filtered_def)
qed

lemma filtered_queued:
  assumes ok: "job_table_ok s" and k: "k \<in> set (jobs (filtered s scope now memory))"
  shows "k \<in> set (jobs s) \<and> (hj_scope k = scope \<and> hj_state k = J_QUEUED \<longrightarrow> fits memory k)
    \<or> hj_state k = J_FAILED \<and> \<not> hj_slot_held k"
proof (cases memory)
  case None
  with k show ?thesis by (simp add: filtered_def fits_def)
next
  case (Some a)
  let ?t = "filtered s scope now memory"
  from fail_unfit_rows [of k a now "scheduling_snapshot s scope" s] k Some
  have "k \<in> set (jobs s) \<or> hj_state k = J_FAILED \<and> \<not> hj_slot_held k" by (simp add: filtered_def)
  moreover have "fits memory k" if "hj_scope k = scope" "hj_state k = J_QUEUED"
  proof -
    note okt = filtered_claims(3) [OF ok, of scope now memory]
    have "\<not> hj_slot_held k" using table_wf [OF okt k] that by (simp add: wf_job_def)
    have "entry_of (jobs ?t) k \<in> set (scheduling_snapshot ?t scope)"
      using k that by (simp add: scheduling_snapshot_eq okt pending_def)
    moreover have "scheduling_snapshot ?t scope =
        filter (\<lambda>e. \<not> (e \<in> set (scheduling_snapshot s scope) \<and> unfit a e)) (scheduling_snapshot s scope)"
      using fail_unfit_snapshot [OF ok subset_refl snapshot_ids [OF ok]] Some by (simp add: filtered_def)
    ultimately have "\<not> unfit a (entry_of (jobs ?t) k)" by simp
    then show ?thesis using Some that \<open>\<not> hj_slot_held k\<close> by (simp add: unfit_def fits_def)
  qed
  ultimately show ?thesis by blast
qed

lemma filtered_others:
  assumes ok: "job_table_ok s" and k: "k \<in> set (jobs s)" and fit: "hj_state k = J_QUEUED \<longrightarrow> fits memory k"
  shows "k \<in> set (jobs (filtered s scope now memory))"
proof (cases memory)
  case (Some a)
  have "se_job_id e \<noteq> hj_id k" if "e \<in> set (scheduling_snapshot s scope)" "unfit a e" for e
  proof
    assume id: "se_job_id e = hj_id k"
    from that(1) obtain i where "i \<in> set (jobs s)" "e = entry_of (jobs s) i" by (auto simp: scheduling_snapshot_eq ok)
    with id job_id_unique [OF ok _ k] have "e = entry_of (jobs s) k" by auto
    with that(2) fit Some show False by (simp add: unfit_def fits_def)
  qed
  with k Some show ?thesis by (simp add: filtered_def fail_unfit_others)
qed (use k in \<open>simp add: filtered_def\<close>)

lemma filtered_frame:
  "filter (\<lambda>k. hj_scope k = sc \<and> hj_slot_held k) (jobs (filtered s scope now memory)) = filter (\<lambda>k. hj_scope k = sc \<and> hj_slot_held k) (jobs s)"
  "assert_registered (filtered s scope now memory) = assert_registered s"
  by (simp add: filtered_def fail_unfit_held split: option.split)
    (intro ext, simp add: filtered_def assert_registered_def fail_unfit_frame split: option.split)

text \<open>After the filter the next job is the head of the queue.\<close>

lemma next_job_claimable:
  assumes ok: "job_table_ok s" and n: "next_job s scope m memory j"
  shows "claimable (filtered s scope now memory) scope m memory j"
proof -
  let ?t = "filtered s scope now memory"
  note j = n [unfolded next_job_def]
  have fit: "fits memory j" using j by (auto simp: fits_def dest: memory_allows_claimD(1) split: option.split)
  have held: "filter (\<lambda>k. hj_scope k = scope \<and> hj_slot_held k) (jobs ?t) = filter (\<lambda>k. hj_scope k = scope \<and> hj_slot_held k) (jobs s)"
    by (rule filtered_frame(1))
  have "j \<in> set (jobs ?t)" using j fit by (intro filtered_others [OF ok]) auto
  moreover have "hj_sequence j \<le> hj_sequence k" if "k \<in> set (jobs ?t)" "hj_scope k = scope" "hj_state k = J_QUEUED" for k
    using filtered_queued [OF ok that(1)] that(2,3) j by auto
  moreover have "hj_worktree_id k \<noteq> hj_worktree_id j" if "k \<in> set (jobs ?t)" "hj_slot_held k" for k
    using filtered_queued [OF ok that(1)] that(2) j by auto
  moreover have "held_in scope (jobs ?t) = held_in scope (jobs s)" using held by (simp add: held_in_def count_where_def)
  ultimately show ?thesis using j by (simp add: claimable_def dispatchable_def filtered_frame)
qed

lemma claim_job_grants:
  assumes ok: "job_table_ok s" and m: "safe_positive m" and n: "next_job s scope m memory j"
  shows "claim_job s scope m now memory =
    Inr (upd_jobs (\<lambda>k. hj_id k = hj_id j \<and> hj_state k = J_QUEUED) (started_job now) (filtered s scope now memory), Some (started_job now j))"
proof -
  let ?t = "filtered s scope now memory"
  note c = next_job_claimable [OF ok n, of now] and entries = filtered_claims(1) [OF ok, of scope now memory]
    and okt = filtered_claims(3) [OF ok, of scope now memory]
  from c have d: "dispatchable ?t scope m memory j" and j: "j \<in> set (jobs ?t)" "hj_state j = J_QUEUED"
    and reg: "is_ok (assert_registered ?t (hj_repository_id j) (hj_worktree_id j) (hj_worktree_path j))"
    by (auto simp: claimable_def dispatchable_def)
  have g: "get_job_by_id ?t (hj_id j) = Inr j" using get_job_by_id_iff [OF okt] j(1) by simp
  have g2: "get_job_by_id (upd_jobs (\<lambda>k. hj_id k = hj_id j \<and> hj_state k = J_QUEUED) (started_job now) ?t) (hj_id j)
      = Inr (started_job now j)"
    using row_by_upd_jobs [of "started_job now" "hj_id j" "\<lambda>k. hj_state k = J_QUEUED" ?t] g j(2)
    by (simp add: started_job_def)
  from dispatchable_reasons [OF okt m d] obtain others where
    "job_waiting_reasons (scheduling_snapshot ?t scope) m memory = Inr ((hj_id j, Wait_Dispatch_Pending) # others)" by blast
  with m g g2 reg show ?thesis
    unfolding started_job_def [abs_def]
    by (simp add: claim_job_def entries is_ok_def Let_def split: sum.splits)
qed

lemma claim_job_granted:
  assumes ok: "job_table_ok s" and c: "claim_job s scope m now memory = Inr (t, Some k)"
  obtains s1 j where "jobs_keep s s1" "job_table_ok s1" "claimable s1 scope m memory j" "k = started_job now j"
    "t = upd_jobs (\<lambda>k. hj_id k = hj_id j \<and> hj_state k = J_QUEUED) (started_job now) s1"
  using ok c
proof (cases rule: claim_job_cases)
  case none
  then show thesis by simp
next
  case (grant s1 j)
  with jobs_keep_table_ok [OF grant(1) ok] show thesis by (intro that) simp_all
qed

text \<open>
  C15. A claim hands out the right job: the job returned is stored as \<open>RUNNING\<close> with a slot, it is older
  than every job of its scope still queued, no other job of its worktree holds a slot, and its worktree is
  registered, alive and under no repository operation.
\<close>

theorem claim_is_fair:
  assumes "jobs_inv (whole m) s" and "claim_job s scope m now memory = Inr (t, Some k)"
  shows "k \<in> set (jobs t) \<and> hj_state k = J_RUNNING \<and> hj_slot_held k \<and> hj_started_at k = Some now
    \<and> hj_scope k = scope
    \<and> (\<forall>i\<in>set (jobs t). hj_scope i = scope \<and> hj_state i = J_QUEUED \<longrightarrow> hj_sequence k < hj_sequence i)
    \<and> (\<forall>i\<in>set (jobs t). hj_slot_held i \<and> hj_worktree_id i = hj_worktree_id k \<longrightarrow> i = k)
    \<and> is_ok (assert_registered t (hj_repository_id k) (hj_worktree_id k) (hj_worktree_path k))"
proof -
  from assms(1) have ok: "job_table_ok s" by (simp add: jobs_inv_def)
  obtain s1 j where s1: "job_table_ok s1" and c: "claimable s1 scope m memory j" and k: "k = started_job now j"
    and t: "t = upd_jobs (\<lambda>k. hj_id k = hj_id j \<and> hj_state k = J_QUEUED) (started_job now) s1"
    using claim_job_granted [OF ok assms(2)] by metis
  from c have j: "j \<in> set (jobs s1)" "hj_scope j = scope" "hj_state j = J_QUEUED"
    and old: "\<forall>i\<in>set (jobs s1). hj_scope i = scope \<and> hj_state i = J_QUEUED \<longrightarrow> hj_sequence j \<le> hj_sequence i"
    and free: "\<forall>i\<in>set (jobs s1). hj_slot_held i \<longrightarrow> hj_worktree_id i \<noteq> hj_worktree_id j"
    and reg: "is_ok (assert_registered s1 (hj_repository_id j) (hj_worktree_id j) (hj_worktree_path j))"
    by (auto simp: claimable_def dispatchable_def)
  have rows: "set (jobs t) = insert k (set (jobs s1) - {j})"
  proof -
    have "(hj_id i = hj_id j \<and> hj_state i = J_QUEUED) = (i = j)" if "i \<in> set (jobs s1)" for i
      using j(3) job_id_unique [OF s1 that j(1)] by blast
    then have "set (jobs t) = (\<lambda>i. if i = j then k else i) ` set (jobs s1)"
      by (simp add: t k set_upd_where cong: image_cong) auto
    with j(1) show ?thesis by auto
  qed
  have "hj_sequence j < hj_sequence i" if "i \<in> set (jobs s1)" "i \<noteq> j" "hj_scope i = scope" "hj_state i = J_QUEUED" for i
    using old job_sequence_unique [OF s1 j(1)] that by (metis order_le_less)
  moreover have "hj_sequence k = hj_sequence j \<and> hj_scope k = scope \<and> hj_state k = J_RUNNING \<and> hj_slot_held k \<and>
      hj_worktree_id k = hj_worktree_id j \<and> hj_repository_id k = hj_repository_id j \<and>
      hj_worktree_path k = hj_worktree_path j \<and> hj_started_at k = Some now"
    using j(2) by (simp add: k started_job_def)
  moreover have "assert_registered t = assert_registered s1"
    by (intro ext) (simp add: assert_registered_def t)
  ultimately show ?thesis using free reg by (auto simp: rows)
qed

lemma claim_is_fair_witness:
  "hj_state (started_job 7 demo_job) = J_RUNNING \<and>
   {i \<in> set (jobs demo_running). hj_slot_held i \<and> hj_worktree_id i = ''w1''} = {started_job 7 demo_job}"
proof -
  have "hj_worktree_id (started_job 7 demo_job) = ''w1''" by (simp add: demo_defs started_job_def)
  with claim_is_fair [of "Whole 1", OF _ demo_claim] demo_queued_inv show ?thesis by auto
qed

text \<open>A queue whose oldest job asks for more memory than the whole budget.\<close>

definition demo_oversized :: heavy_job where
  "demo_oversized = demo_job\<lparr>hj_id := ''j0'', hj_idempotency_key := ''k0'', hj_memory_estimate := Some 5000\<rparr>"

definition demo_blocked :: db where
  "demo_blocked = demo_registered\<lparr>jobs := [demo_oversized, demo_job\<lparr>hj_sequence := 2\<rparr>], job_high_water := 2\<rparr>"

text \<open>
  C16. The queue makes progress: take the oldest queued job of a scope among those the memory policy can admit at all
  (an older job whose estimate is missing or above the whole budget does not stand in its way). When it finds a free
  slot, an idle and usable worktree and enough memory, the next claim starts exactly that job; and every queued job of
  the scope that can never be admitted has failed afterwards.
\<close>

theorem claim_progress:
  assumes "job_table_ok s" and "safe_positive m" and "next_job s scope m memory j"
  shows "\<exists>t. claim_job s scope m now memory = Inr (t, Some (started_job now j))
    \<and> get_job_by_id t (hj_id j) = Inr (started_job now j)
    \<and> (\<forall>k\<in>set (jobs t). hj_scope k = scope \<and> hj_state k = J_QUEUED \<longrightarrow> fits memory k)
    \<and> (\<forall>k\<in>set (jobs s). hj_scope k = scope \<and> hj_state k = J_QUEUED \<and> \<not> fits memory k \<longrightarrow>
         (\<exists>k'\<in>set (jobs t). hj_id k' = hj_id k \<and> hj_state k' = J_FAILED))"
proof -
  let ?f = "filtered s scope now memory"
  let ?t = "upd_jobs (\<lambda>k. hj_id k = hj_id j \<and> hj_state k = J_QUEUED) (started_job now) ?f"
  note okf = filtered_claims(3) [OF assms(1), of scope now memory]
  have j: "get_job_by_id ?f (hj_id j) = Inr j" "hj_state j = J_QUEUED"
    using get_job_by_id_iff [OF okf] next_job_claimable [OF assms(1,3)] by (auto simp: claimable_def dispatchable_def)
  then have "get_job_by_id ?t (hj_id j) = Inr (started_job now j)"
    using row_by_upd_jobs [of "started_job now" "hj_id j" "\<lambda>k. hj_state k = J_QUEUED" ?f] by (simp add: started_job_def)
  moreover have "fits memory k" if "k \<in> set (jobs ?t)" "hj_scope k = scope" "hj_state k = J_QUEUED" for k
  proof -
    from that(1,3) have "k \<in> set (jobs ?f)" by (auto simp: set_upd_where started_job_def split: if_splits)
    from filtered_queued [OF assms(1) this] that(2,3) show ?thesis by auto
  qed
  moreover have "\<exists>k'\<in>set (jobs ?t). hj_id k' = hj_id k \<and> hj_state k' = J_FAILED"
    if k: "k \<in> set (jobs s)" "hj_scope k = scope" "hj_state k = J_QUEUED" "\<not> fits memory k" for k
  proof -
    obtain k' where k': "k' \<in> set (jobs ?f)" "hj_id k' = hj_id k"
    proof -
      from k(1) filtered_claims(2) [OF assms(1), of scope now memory] obtain n where
        "n < length (jobs s)" "k = jobs s ! n" "n < length (jobs ?f)" "job_keeps k (jobs ?f ! n)"
        by (auto simp: jobs_keep_def list_all2_conv_all_nth in_set_conv_nth)
      then show thesis by (intro that [of "jobs ?f ! n"]) (simp_all add: job_keeps_def job_evolves_def same_request_def)
    qed
    have "k' \<noteq> k" using filtered_queued [OF assms(1) k'(1)] k(2-4) by auto
    with job_id_unique [OF assms(1) _ k(1) k'(2)] have "k' \<notin> set (jobs s)" by blast
    with filtered_queued [OF assms(1) k'(1)] have "hj_state k' = J_FAILED" by blast
    then have "k' \<in> set (jobs ?t)" using k'(1) by (auto simp: set_upd_where intro!: image_eqI [of _ _ k'])
    with k'(2) \<open>hj_state k' = J_FAILED\<close> show ?thesis by blast
  qed
  ultimately show ?thesis using claim_job_grants [OF assms, of now] by blast
qed

lemma claim_progress_witness:
  "\<exists>t. claim_job demo_blocked ''u'' (Whole 1) 7 (Some demo_memory) = Inr (t, Some (started_job 7 (demo_job\<lparr>hj_sequence := 2\<rparr>)))
    \<and> (\<exists>k\<in>set (jobs t). hj_id k = ''j0'' \<and> hj_state k = J_FAILED)"
proof -
  have "next_job demo_blocked ''u'' (Whole 1) (Some demo_memory) (demo_job\<lparr>hj_sequence := 2\<rparr>)"
    by (simp add: demo_defs demo_blocked_def demo_oversized_def next_job_def fits_def held_in_def assert_registered_def
        memory_estimate_error_def memory_allows_claim_def memory_capacity_def max_safe_integer_def valid_bytes_def [of None] Let_def)
  moreover have "job_table_ok demo_blocked"
    by (simp add: demo_defs demo_blocked_def demo_oversized_def job_table_ok_def wf_job_def terminal_def)
  moreover have "demo_oversized \<in> set (jobs demo_blocked)" "hj_scope demo_oversized = ''u''"
    "hj_state demo_oversized = J_QUEUED" "hj_id demo_oversized = ''j0''" "\<not> fits (Some demo_memory) demo_oversized"
    by (simp_all add: demo_defs demo_blocked_def demo_oversized_def fits_def memory_estimate_error_def
        memory_capacity_def max_safe_integer_def)
  ultimately show ?thesis
    using claim_progress [of demo_blocked "Whole 1" "''u''" "Some demo_memory" "demo_job\<lparr>hj_sequence := 2\<rparr>" 7]
    by (fastforce simp: max_safe_integer_def)
qed

section \<open>Submissions\<close>

text \<open>
  Submitting is idempotent: after a submission was accepted, repeating it (with any fresh id) changes
  nothing and returns the same job, and a different command under the same key is refused.
\<close>

theorem enqueue_idempotent:
  assumes "enqueue_job s i n = Inr (t, j, r)"
  shows "enqueue_job t i n' = Inr (t, j, True)
    \<and> (fp \<noteq> ji_command_fingerprint i \<longrightarrow>
        enqueue_job t (i\<lparr>ji_command_fingerprint := fp\<rparr>) n' = Inl (Heavy_Job_Error JOB_IDEMPOTENCY_CONFLICT))"
proof (cases "find (\<lambda>j. hj_scope j = ji_scope i \<and> hj_idempotency_key j = ji_idempotency_key i) (jobs s)")
  case (Some k)
  with assms show ?thesis by (auto simp: enqueue_job_def split: if_splits)
next
  case None
  have app: "find P (xs @ [x]) = Some x" if "find P xs = None" "P x" for P :: "heavy_job \<Rightarrow> bool" and xs x
    using that by (induction xs) (auto split: if_splits)
  from None assms have j: "jobs t = jobs s @ [j]" "hj_scope j = ji_scope i" "hj_idempotency_key j = ji_idempotency_key i"
    using enqueue_job_cases [OF assms] by (fastforce simp: find_None_iff)+
  have "find (\<lambda>j. hj_scope j = ji_scope i \<and> hj_idempotency_key j = ji_idempotency_key i) (jobs t) = Some j"
    using app [OF None, of j] j by simp
  moreover have "hj_worktree_id j = ji_worktree_id i" "hj_task_name j = ji_task_name i"
    "hj_command_fingerprint j = ji_command_fingerprint i" "hj_source_fingerprint j = ji_source_fingerprint i"
    "Whole (hj_timeout_ms j) = ji_timeout_ms i" "map_option Whole (hj_memory_estimate j) = ji_memory_estimate i"
    using assms None
    by (auto simp: enqueue_job_def Let_def safe_positive_def split: if_splits sum.splits option.splits elim: is_safe_integer.elims)
  moreover have "safe_positive (ji_timeout_ms i)" "\<not> length (ji_idempotency_key i) < 1"
    "\<not> (case ji_memory_estimate i of None \<Rightarrow> False
              | Some e \<Rightarrow> \<not> is_safe_integer e \<or> whole e < 1 \<or> whole e > max_memory_estimate)"
    using assms by (auto simp: enqueue_job_def split: if_splits)
  ultimately show ?thesis by (simp add: enqueue_job_def)
qed

lemma enqueue_idempotent_witness:
  "enqueue_job demo_queued demo_request ''j2'' = Inr (demo_queued, demo_job, True)"
  using enqueue_idempotent [OF demo_enqueue] by blast

section \<open>Finalization\<close>

lemma finished_job_terminal:
  "wf_job job \<Longrightarrow> terminal (jf_state inp) \<Longrightarrow> terminal (hj_state (finished_job inp job)) \<and> \<not> pending (finished_job inp job)"
  using not_pending [of job] final_state_terminal [of inp job]
  by (auto simp: finished_job_def pending_def terminal_def)

text \<open>
  The first finalization wins and a stop request outranks it: finalizing a held job frees its slot
  and ends it in the state its stop reason dictates, or in the reported state when nobody asked it to stop;
  every later finalization, whatever it reports, changes nothing.
\<close>

theorem finish_is_final:
  assumes "job_table_ok s" and "get_job_by_id s i = Inr job" and "hj_slot_held job" and "terminal (jf_state inp)"
  shows "\<exists>t k. finish_job s i inp = Inr (t, k)
    \<and> hj_state k = (case hj_stop_reason job of Some r \<Rightarrow> stop_state r | None \<Rightarrow> jf_state inp)
    \<and> \<not> hj_slot_held k \<and> hj_finished_at k = Some (jf_now inp) \<and> hj_source_validity k = jf_source_validity inp
    \<and> (\<forall>late. finish_job t i late = Inr (t, k))"
proof -
  let ?k = "finished_job inp job"
  from assms(2) have j: "job \<in> set (jobs s)" "hj_id job = i" using get_job_by_idD by auto
  from finish_job_result [OF assms(2)] obtain t where t: "finish_job s i inp = Inr (t, ?k)" by blast
  note keep = finish_job_keep [OF assms(1,4) t]
  note ok = jobs_keep_table_ok [OF keep assms(1)]
  from t have "get_job_by_id t i = Inr ?k"
    using assms(2) by (auto simp: finish_job_def pending_def Let_def split: sum.splits if_splits)
  moreover have "\<not> pending ?k"
    using finished_job_terminal [OF table_wf [OF assms(1) j(1)] assms(4)] by blast
  ultimately have "finish_job t i late = Inr (t, ?k)" for late
    by (simp add: finish_job_def pending_def)
  moreover have "hj_state ?k = (case hj_stop_reason job of Some r \<Rightarrow> stop_state r | None \<Rightarrow> jf_state inp) \<and>
      \<not> hj_slot_held ?k \<and> hj_finished_at ?k = Some (jf_now inp) \<and> hj_source_validity ?k = jf_source_validity inp"
    using assms(3) by (simp add: finished_job_def pending_def final_state_def)
  ultimately show ?thesis using t by blast
qed

lemma finish_is_final_witness:
  "\<exists>t k. finish_job demo_running ''j1'' demo_finish = Inr (t, k) \<and> hj_state k = J_SUCCEEDED \<and>
     finish_job t ''j1'' (demo_finish\<lparr>jf_state := J_FAILED\<rparr>) = Inr (t, k)"
proof -
  have "job_table_ok demo_running" using demo_running_inv by (simp add: jobs_inv_def)
  moreover have "get_job_by_id demo_running ''j1'' = Inr (started_job 7 demo_job)"
    "hj_slot_held (started_job 7 demo_job)" "hj_stop_reason (started_job 7 demo_job) = None"
    by (simp_all add: demo_defs get_job_by_id_def started_job_def)
  moreover have "jf_state demo_finish = J_SUCCEEDED" "terminal (jf_state demo_finish)" by (simp_all add: demo_finish_def)
  ultimately show ?thesis
    using finish_is_final [of demo_running "''j1''" "started_job 7 demo_job" demo_finish] by auto
qed

section \<open>Pruning and deletion\<close>

lemma enumerate_member: "(\<exists>n. (n, x) \<in> set (enumerate k xs)) \<longleftrightarrow> x \<in> set xs"
  by (induction xs arbitrary: k) auto

lemma prunable_index:
  assumes "sorted_wrt (<) (map hj_sequence xs)" and "(n, j) \<in> set (enumerate 0 (rev xs))"
  shows "n = count_where (\<lambda>i. hj_sequence j < hj_sequence i) xs"
proof -
  from assms(2) have n: "n < length xs" "j = rev xs ! n" by (auto simp: in_set_enumerate_eq)
  define p where "p = length xs - Suc n"
  from n have p: "p < length xs" "j = xs ! p" by (simp_all add: p_def rev_nth)
  have split: "xs = take p xs @ j # drop (Suc p) xs" using p id_take_nth_drop by blast
  with assms(1) have "sorted_wrt (<) (map hj_sequence (take p xs @ j # drop (Suc p) xs))" by simp
  then have l: "\<forall>i\<in>set (take p xs). \<not> hj_sequence j < hj_sequence i" "\<forall>i\<in>set (drop (Suc p) xs). hj_sequence j < hj_sequence i"
    by (auto simp: sorted_wrt_append)
  have "count_where (\<lambda>i. hj_sequence j < hj_sequence i) (take p xs) = 0" using l(1) by (simp add: count_where_0)
  moreover have "count_where (\<lambda>i. hj_sequence j < hj_sequence i) (drop (Suc p) xs) = length (drop (Suc p) xs)"
    using l(2) by (simp add: count_where_def)
  ultimately have "count_where (\<lambda>i. hj_sequence j < hj_sequence i) xs = length (drop (Suc p) xs)"
    by (subst split) simp
  with n(1) show ?thesis by (simp add: p_def)
qed

text \<open>
  Pruning selects exactly the finished jobs that may go: a job of the scope is prunable iff it has
  ended and either 256 newer finished jobs of the scope exist or it ended more than seven days ago; no
  queued or running job is ever selected.
\<close>

theorem prunable_exactly:
  assumes "job_table_ok s"
  shows "j \<in> set (prunable_jobs s scope now) \<longleftrightarrow>
    j \<in> set (jobs s) \<and> hj_scope j = scope \<and> terminal (hj_state j) \<and>
    (count_where (\<lambda>i. hj_scope i = scope \<and> terminal (hj_state i) \<and> hj_sequence j < hj_sequence i) (jobs s) \<ge> 256
      \<or> int (case hj_finished_at j of Some t \<Rightarrow> t | None \<Rightarrow> hj_created_at j) < int now - heavy_job_retention_ms)"
proof -
  let ?P = "\<lambda>j. hj_scope j = scope \<and> \<not> hj_slot_held j \<and> hj_state j \<noteq> J_QUEUED"
  have P: "?P k \<longleftrightarrow> hj_scope k = scope \<and> terminal (hj_state k)" if "k \<in> set (jobs s)" for k
    using not_pending [OF table_wf [OF assms that]] by (auto simp: pending_def)
  define rows where "rows = filter ?P (jobs s)"
  have srt: "sorted_wrt (<) (map hj_sequence rows)"
  proof -
    have "sorted_wrt (<) (map hj_sequence js) \<Longrightarrow> sorted_wrt (<) (map hj_sequence (filter ?P js))" for js
      by (induction js) auto
    with assms show ?thesis unfolding job_table_ok_def rows_def by blast
  qed
  have cnt: "count_where (\<lambda>i. hj_sequence j < hj_sequence i) rows =
      count_where (\<lambda>i. hj_scope i = scope \<and> terminal (hj_state i) \<and> hj_sequence j < hj_sequence i) (jobs s)" for j
    unfolding count_where_def rows_def filter_filter
    by (rule arg_cong [of _ _ length], rule filter_cong [OF refl]) (use P in blast)
  have mem: "(\<exists>n. (n, j) \<in> set (enumerate 0 (rev rows))) \<longleftrightarrow> j \<in> set rows" for j
    using enumerate_member [of j 0 "rev rows"] by simp
  have "j \<in> set (prunable_jobs s scope now) \<longleftrightarrow> (\<exists>n. (n, j) \<in> set (enumerate 0 (rev rows)) \<and>
      (n \<ge> max_retained_heavy_jobs \<or> int (case hj_finished_at j of Some t \<Rightarrow> t | None \<Rightarrow> hj_created_at j)
         < int now - heavy_job_retention_ms))"
  proof -
    have "prunable_jobs s scope now = map snd (filter (\<lambda>(n, j). n \<ge> max_retained_heavy_jobs
        \<or> int (case hj_finished_at j of Some t \<Rightarrow> t | None \<Rightarrow> hj_created_at j) < int now - heavy_job_retention_ms)
        (enumerate 0 (rev rows)))"
      by (simp add: prunable_jobs_def Let_def rows_def sort_key_filter_sorted [OF table_sorted [OF assms]])
    then show ?thesis by (simp only: set_map set_filter) (auto simp: image_iff Bex_def simp del: enumerate_simps)
  qed
  also have "\<dots> \<longleftrightarrow> j \<in> set rows \<and> (count_where (\<lambda>i. hj_sequence j < hj_sequence i) rows \<ge> max_retained_heavy_jobs
      \<or> int (case hj_finished_at j of Some t \<Rightarrow> t | None \<Rightarrow> hj_created_at j) < int now - heavy_job_retention_ms)"
    using prunable_index [OF srt] mem by blast
  also have "j \<in> set rows \<longleftrightarrow> j \<in> set (jobs s) \<and> hj_scope j = scope \<and> terminal (hj_state j)"
    using P by (auto simp: rows_def)
  finally show ?thesis by (simp only: cnt max_retained_heavy_jobs_def conj_assoc)
qed

lemma prunable_exactly_witness:
  "finished_job demo_finish (started_job 7 demo_job) \<notin> set (prunable_jobs demo_done ''u'' 700)"
proof -
  have "job_table_ok demo_done" using job_step_inv [OF demo_step_done, of "Whole 1"] demo_running_inv by (simp add: jobs_inv_def)
  from prunable_exactly [OF this, of "finished_job demo_finish (started_job 7 demo_job)" "''u''" 700] show ?thesis
    by (simp add: demo_defs heavy_job_retention_ms_def finished_job_def started_job_def pending_def)
qed

text \<open>
  Deleting a job record destroys nothing live: a deletion that succeeds removes one finished job and
  nothing else from the queue, and no process record that is running or still needs cleanup; a deletion
  that is refused changes nothing.
\<close>

theorem delete_is_safe:
  assumes "job_table_ok s" and "delete_finished s i = Inr (t, b)"
  shows "(\<not> b \<longrightarrow> t = s) \<and> (b \<longrightarrow> jobs t = filter (\<lambda>j. hj_id j \<noteq> i) (jobs s) \<and> i \<in> hj_id ` set (jobs s))
    \<and> (\<forall>j\<in>set (jobs s). pending j \<longrightarrow> j \<in> set (jobs t))
    \<and> (\<forall>p\<in>set (processes s). live_process p \<longrightarrow> p \<in> set (processes t))"
proof -
  note d = delete_finished_jobs [OF assms(2,1)]
  have "t = s" if "\<not> b"
  proof -
    obtain j where j: "get_job_by_id s i = Inr j" using assms(2) by (auto simp: delete_finished_def split: sum.splits)
    then have "count_where (\<lambda>j. hj_id j = i) (jobs s) = 1"
      using get_job_by_idD [OF j] assms(1) count_key_1 [of hj_id "jobs s" j] by (auto simp: job_table_ok_def)
    with assms(2) that j show ?thesis
      by (auto simp: delete_finished_def Let_def split: if_splits option.splits)
  qed
  moreover have "\<forall>j\<in>set (jobs s). pending j \<longrightarrow> j \<in> set (jobs t)"
    using d(1,3) job_id_unique [OF assms(1)] by (cases b) auto
  moreover have "\<forall>p\<in>set (processes s). live_process p \<longrightarrow> p \<in> set (processes t)"
    using assms(2) by (auto simp: delete_finished_def Let_def split: sum.splits if_splits option.splits)
  ultimately show ?thesis using d(1,3) by (auto simp: del_where_def)
qed

lemma delete_is_safe_witness:
  "delete_finished demo_running ''j1'' = Inr (demo_running, False) \<and> started_job 7 demo_job \<in> set (jobs demo_running)"
proof -
  have r: "delete_finished demo_running ''j1'' = Inr (demo_running, False)"
    by (simp add: demo_defs delete_finished_def get_job_by_id_def started_job_def)
  have "pending (started_job 7 demo_job)" "started_job 7 demo_job \<in> set (jobs demo_running)"
    by (simp_all add: demo_defs pending_def started_job_def)
  with r delete_is_safe [OF _ r] demo_running_inv show ?thesis by (simp add: jobs_inv_def)
qed

section \<open>Memory over runs\<close>

text \<open>
  C26. Memory is never over-reserved: after any run in which every claim uses a memory policy with the
  budget \<open>b\<close>, the estimates of the jobs that hold a slot in a scope add up to at most \<open>b\<close>.
\<close>

theorem memory_reservations_bounded:
  assumes "(job_step m (budget_policy b))\<^sup>*\<^sup>* empty_db s" and "0 \<le> b"
  shows "reserved_in scope (jobs s) \<le> b"
proof -
  have "reservations_inv b empty_db"
    using assms(2) jobs_inv_empty [of 0] by (simp add: reservations_inv_def jobs_inv_def estimates_ok_def reserved_in_def empty_db_def)
  from budgeted.run_inv [OF assms(1) this] show ?thesis by (simp add: reservations_inv_def)
qed

lemma memory_reservations_bounded_witness:
  "reserved_in ''u'' (jobs demo_running) = 300 \<and> reserved_in ''u'' (jobs demo_running) \<le> 1000"
proof -
  have "budget_policy 1000 (Some demo_memory)" by (simp add: budget_policy_def demo_memory_def)
  from memory_reservations_bounded [OF demo_run_running [of "budget_policy 1000", OF this], of "''u''"]
  show ?thesis by (simp add: demo_defs reserved_in_def started_job_def bytes_def)
qed

end
