(* ===== verification/Lease_Store.thy ===== *)
theory Lease_Store
  imports Job_Store
begin

text \<open>
  Repository operation leases (\<open>packages/core/src/state/sqlite-store.ts\<close>): the rows that keep two
  destructive operations (\<open>remove\<close>, \<open>gc\<close>, \<open>repair\<close>, \<open>create\<close>) out of one repository, and their invariant:
  a repository has at most one lease, and only its token, or an adoption after its owner was judged
  gone, takes it away.
\<close>

section \<open>Definitions\<close>

text \<open>\<open>None\<close> is a TTL that is not finite; \<open>now\<close> is a timestamp, hence a date.\<close>

text \<open>The last instant a \<open>Date\<close> can name: \<open>toISOString\<close> throws beyond it.\<close>

definition last_date :: int where
  "last_date = 8640000000000000"

definition lease_expiry :: "time \<Rightarrow> int option \<Rightarrow> store_error + time" where
  "lease_expiry now ttl_ms = (case ttl_ms of
     None \<Rightarrow> Inl Range_Error
   | Some ttl \<Rightarrow> if ttl \<le> 0 \<or> int now + ttl > last_date then Inl Range_Error else Inr (nat (int now + ttl)))"

definition lease_expired :: "lease_holder \<Rightarrow> time \<Rightarrow> bool" where
  "lease_expired holder now \<longleftrightarrow> lh_expires_at holder \<le> now"

definition holder_of :: "op_lease_row \<Rightarrow> lease_holder" where
  "holder_of r = \<lparr> lh_repository_id = ol_repository_id r, lh_operation = ol_operation r, lh_pid = ol_pid r,
     lh_process_start_time = ol_process_start_time r, lh_host_id = ol_host_id r,
     lh_subject_worktree_id = ol_subject_worktree_id r, lh_stage = ol_stage r,
     lh_acquired_at = ol_acquired_at r, lh_renewed_at = ol_renewed_at r, lh_expires_at = ol_expires_at r \<rparr>"

definition repository_leases :: "db \<Rightarrow> ident \<Rightarrow> lease_holder list" where
  "repository_leases s repository_id = map holder_of
     (sort_key (\<lambda>r. (ol_acquired_at r, ol_operation r))
       (filter (\<lambda>r. ol_repository_id r = repository_id) (op_leases s)))"

text \<open>
  The loop over the existing rows: the first one that has not expired, or whose owner is not known to
  be gone, refuses the request (\<open>Inl\<close>); otherwise all of them are reclaimable.
\<close>

fun scan_holders :: "(lease_holder \<Rightarrow> owner_verdict) option \<Rightarrow> time \<Rightarrow> lease_holder list
    \<Rightarrow> lease_holder list \<Rightarrow> lease_holder + lease_holder list" where
  "scan_holders liveness now [] reclaimable = Inr reclaimable"
| "scan_holders liveness now (existing # rest) reclaimable =
    (if \<not> lease_expired existing now then Inl existing
     else if (case liveness of None \<Rightarrow> Gone | Some verdict \<Rightarrow> verdict existing) \<noteq> Gone then Inl existing
     else scan_holders liveness now rest (reclaimable @ [existing]))"

definition forget_holders :: "db \<Rightarrow> ident \<Rightarrow> lease_holder list \<Rightarrow> db" where
  "forget_holders s repository_id holders = s\<lparr>op_leases :=
     del_where (\<lambda>r. ol_repository_id r = repository_id \<and> ol_operation r \<in> set (map lh_operation holders)) (op_leases s)\<rparr>"

text \<open>The inserted row must name a registered repository (\<open>REFERENCES repositories(id)\<close>).\<close>

definition acquire_operation_lease :: "db \<Rightarrow> lease_request \<Rightarrow> time \<Rightarrow> store_error + (db \<times> lease_result)" where
  "acquire_operation_lease s q now =
    (if lr_token q = [] then Inl Type_Error
     else if \<not> safe_positive (lr_pid q) then Inl Range_Error
     else if lr_process_start_time q = [] then Inl Type_Error
     else if lr_host_id q = [] then Inl Type_Error
     else case lease_expiry now (lr_ttl_ms q) of Inl e \<Rightarrow> Inl e
     | Inr expires_at \<Rightarrow>
       (case (if lr_operation q \<noteq> Op_Create then assert_no_heavy_jobs s (lr_repository_id q) else Inr ()) of
          Inl e \<Rightarrow> Inl e
        | Inr _ \<Rightarrow>
          (case scan_holders (lr_liveness q) now (repository_leases s (lr_repository_id q)) [] of
             Inl holder \<Rightarrow> Inr (s, Conflict holder)
           | Inr reclaimable \<Rightarrow>
             if reclaimable \<noteq> [] \<and> \<not> lr_adopt q then Inr (s, Abandoned (hd reclaimable))
             else
               let s1 = forget_holders s (lr_repository_id q) reclaimable;
                   resumed = find (\<lambda>h. lh_operation h = lr_operation q) reclaimable;
                   stage = Option.bind resumed lh_stage;
                   subject = coalesce (lr_subject_worktree_id q) (Option.bind resumed lh_subject_worktree_id);
                   row = \<lparr> ol_repository_id = lr_repository_id q, ol_operation = lr_operation q,
                     ol_token = lr_token q, ol_pid = whole (lr_pid q),
                     ol_process_start_time = lr_process_start_time q, ol_host_id = lr_host_id q,
                     ol_subject_worktree_id = subject, ol_stage = stage, ol_acquired_at = now,
                     ol_renewed_at = now, ol_expires_at = expires_at \<rparr>
               in if \<not> exists_where (\<lambda>r. rp_id r = lr_repository_id q) (repositories s1)
                     \<or> exists_where (\<lambda>r. ol_repository_id r = lr_repository_id q \<and> ol_operation r = lr_operation q) (op_leases s1)
                  then Inl (Plain_Error Constraint_Violation)
                  else Inr (s1\<lparr>op_leases := op_leases s1 @ [row]\<rparr>, Acquired row stage))))"

text \<open>The row a key and a token select.\<close>

definition lease_row_matches :: "ident \<Rightarrow> repository_operation \<Rightarrow> string \<Rightarrow> op_lease_row \<Rightarrow> bool" where
  "lease_row_matches repository_id operation token r \<longleftrightarrow>
     ol_repository_id r = repository_id \<and> ol_operation r = operation \<and> ol_token r = token"

definition renew_operation_lease ::
  "db \<Rightarrow> ident \<Rightarrow> repository_operation \<Rightarrow> string \<Rightarrow> time \<Rightarrow> int option \<Rightarrow> store_error + (db \<times> bool)" where
  "renew_operation_lease s repository_id operation token now ttl_ms =
    (case lease_expiry now ttl_ms of Inl e \<Rightarrow> Inl e
     | Inr expires_at \<Rightarrow>
       let P = lease_row_matches repository_id operation token
       in Inr (s\<lparr>op_leases := upd_where P (\<lambda>r. r\<lparr>ol_renewed_at := now, ol_expires_at := expires_at\<rparr>) (op_leases s)\<rparr>,
               count_where P (op_leases s) = 1))"

definition advance_operation_lease ::
  "db \<Rightarrow> ident \<Rightarrow> repository_operation \<Rightarrow> string \<Rightarrow> string \<Rightarrow> time \<Rightarrow> store_error + (db \<times> bool)" where
  "advance_operation_lease s repository_id operation token stage now =
    (if stage = [] then Inl Type_Error
     else let P = lease_row_matches repository_id operation token
       in Inr (s\<lparr>op_leases := upd_where P (\<lambda>r. r\<lparr>ol_stage := Some stage, ol_renewed_at := now\<rparr>) (op_leases s)\<rparr>,
               count_where P (op_leases s) = 1))"

definition release_operation_lease ::
  "db \<Rightarrow> ident \<Rightarrow> repository_operation \<Rightarrow> string \<Rightarrow> db \<times> bool" where
  "release_operation_lease s repository_id operation token =
    (let P = lease_row_matches repository_id operation token
     in (s\<lparr>op_leases := del_where P (op_leases s)\<rparr>, count_where P (op_leases s) = 1))"

definition read_operation_lease :: "db \<Rightarrow> ident \<Rightarrow> repository_operation \<Rightarrow> lease_holder option" where
  "read_operation_lease s repository_id operation = map_option holder_of
     (find (\<lambda>r. ol_repository_id r = repository_id \<and> ol_operation r = operation) (op_leases s))"

definition assert_no_live_operation_lease :: "db \<Rightarrow> ident \<Rightarrow> time \<Rightarrow> store_error + unit" where
  "assert_no_live_operation_lease s repository_id now =
    (case find (\<lambda>h. \<not> lease_expired h now) (repository_leases s repository_id) of
       None \<Rightarrow> Inr () | Some _ \<Rightarrow> Inl (Heavy_Job_Error OPERATION_CONFLICT))"

section \<open>The rows of a repository\<close>

lemma holder_of_simps [simp]:
  "lh_repository_id (holder_of r) = ol_repository_id r" "lh_operation (holder_of r) = ol_operation r"
  "lh_pid (holder_of r) = ol_pid r" "lh_process_start_time (holder_of r) = ol_process_start_time r"
  "lh_host_id (holder_of r) = ol_host_id r" "lh_subject_worktree_id (holder_of r) = ol_subject_worktree_id r"
  "lh_stage (holder_of r) = ol_stage r" "lh_acquired_at (holder_of r) = ol_acquired_at r"
  "lh_renewed_at (holder_of r) = ol_renewed_at r" "lh_expires_at (holder_of r) = ol_expires_at r"
  by (simp_all add: holder_of_def)

lemma set_repository_leases:
  "set (repository_leases s r) = holder_of ` {l \<in> set (op_leases s). ol_repository_id l = r}"
  by (simp add: repository_leases_def)

lemma repository_leases_empty:
  "repository_leases s r = [] \<longleftrightarrow> (\<forall>l\<in>set (op_leases s). ol_repository_id l \<noteq> r)"
  unfolding set_empty [symmetric] set_repository_leases by auto

text \<open>The scan, declaratively.\<close>

definition reclaimable_holder :: "(lease_holder \<Rightarrow> owner_verdict) option \<Rightarrow> time \<Rightarrow> lease_holder \<Rightarrow> bool" where
  "reclaimable_holder liveness now h \<longleftrightarrow> lease_expired h now \<and>
    (case liveness of None \<Rightarrow> True | Some verdict \<Rightarrow> verdict h = Gone)"

lemma scan_holders_Inr:
  "scan_holders lv now hs acc = Inr rs \<longleftrightarrow> rs = acc @ hs \<and> (\<forall>h\<in>set hs. reclaimable_holder lv now h)"
  by (induction lv now hs acc rule: scan_holders.induct)
    (auto simp: reclaimable_holder_def split: option.splits)

lemma scan_holders_Inl:
  "scan_holders lv now hs acc = Inl h \<longleftrightarrow> find (\<lambda>h. \<not> reclaimable_holder lv now h) hs = Some h"
  by (induction lv now hs acc rule: scan_holders.induct)
    (auto simp: reclaimable_holder_def split: option.splits)

definition lease_of_request :: "lease_request \<Rightarrow> time \<Rightarrow> time \<Rightarrow> lease_holder list \<Rightarrow> op_lease_row" where
  "lease_of_request q now expires_at dead =
    (let resumed = find (\<lambda>h. lh_operation h = lr_operation q) dead in
     \<lparr> ol_repository_id = lr_repository_id q, ol_operation = lr_operation q, ol_token = lr_token q,
       ol_pid = whole (lr_pid q), ol_process_start_time = lr_process_start_time q, ol_host_id = lr_host_id q,
       ol_subject_worktree_id = coalesce (lr_subject_worktree_id q) (Option.bind resumed lh_subject_worktree_id),
       ol_stage = Option.bind resumed lh_stage, ol_acquired_at = now, ol_renewed_at = now, ol_expires_at = expires_at \<rparr>)"

lemma lease_of_request_simps [simp]:
  "ol_repository_id (lease_of_request q now e dead) = lr_repository_id q"
  "ol_operation (lease_of_request q now e dead) = lr_operation q"
  "ol_token (lease_of_request q now e dead) = lr_token q"
  "ol_expires_at (lease_of_request q now e dead) = e"
  "ol_acquired_at (lease_of_request q now e dead) = now"
  "ol_pid (lease_of_request q now e dead) = whole (lr_pid q)"
  "ol_process_start_time (lease_of_request q now e dead) = lr_process_start_time q"
  "ol_host_id (lease_of_request q now e dead) = lr_host_id q"
  by (simp_all add: lease_of_request_def Let_def)

lemma forget_holders_leases:
  "op_leases (forget_holders s r (repository_leases s r)) = filter (\<lambda>l. ol_repository_id l \<noteq> r) (op_leases s)"
  by (auto simp: forget_holders_def del_where_def set_repository_leases image_image intro!: filter_cong)

text \<open>Every outcome of an acquisition.\<close>

lemma acquire_cases:
  assumes "acquire_operation_lease s q now = Inr (t, res)"
  obtains (conflict) h where "res = Conflict h" "t = s" "h \<in> set (repository_leases s (lr_repository_id q))"
      "find (\<lambda>h. \<not> reclaimable_holder (lr_liveness q) now h) (repository_leases s (lr_repository_id q)) = Some h"
  | (abandoned) h hs where "res = Abandoned h" "t = s" "repository_leases s (lr_repository_id q) = h # hs"
      "\<forall>h\<in>set (repository_leases s (lr_repository_id q)). reclaimable_holder (lr_liveness q) now h" "\<not> lr_adopt q"
  | (acquired) row e where "res = Acquired row (ol_stage row)"
      "\<forall>h\<in>set (repository_leases s (lr_repository_id q)). reclaimable_holder (lr_liveness q) now h"
      "repository_leases s (lr_repository_id q) \<noteq> [] \<longrightarrow> lr_adopt q"
      "row = lease_of_request q now e (repository_leases s (lr_repository_id q))" "now < e"
      "lr_operation q \<noteq> Op_Create \<longrightarrow> is_ok (assert_no_heavy_jobs s (lr_repository_id q))"
      "exists_where (\<lambda>r. rp_id r = lr_repository_id q) (repositories s)"
      "t = s\<lparr>op_leases := filter (\<lambda>l. ol_repository_id l \<noteq> lr_repository_id q) (op_leases s) @ [row]\<rparr>"
proof -
  let ?hs = "repository_leases s (lr_repository_id q)"
  from assms obtain e where e: "lease_expiry now (lr_ttl_ms q) = Inr e"
    by (auto simp: acquire_operation_lease_def split: if_splits sum.splits)
  then have now: "now < e" by (auto simp: lease_expiry_def split: option.splits if_splits)
  from assms e have jobs: "lr_operation q \<noteq> Op_Create \<longrightarrow> is_ok (assert_no_heavy_jobs s (lr_repository_id q))"
    by (auto simp: acquire_operation_lease_def is_ok_def split: if_splits sum.splits)
  show thesis
  proof (cases "scan_holders (lr_liveness q) now ?hs []")
    case (Inl h)
    then have f: "find (\<lambda>h. \<not> reclaimable_holder (lr_liveness q) now h) ?hs = Some h" by (simp add: scan_holders_Inl)
    then have "h \<in> set ?hs" by (auto simp: find_Some_iff)
    moreover have "res = Conflict h \<and> t = s"
      using assms e Inl by (auto simp: acquire_operation_lease_def split: if_splits sum.splits)
    ultimately show thesis using conflict f by blast
  next
    case (Inr rs)
    then have rs: "rs = ?hs" "\<forall>h\<in>set ?hs. reclaimable_holder (lr_liveness q) now h" by (simp_all add: scan_holders_Inr)
    show thesis
    proof (cases "?hs \<noteq> [] \<and> \<not> lr_adopt q")
      case True
      then have "res = Abandoned (hd ?hs) \<and> t = s"
        using assms e Inr rs(1) by (auto simp: acquire_operation_lease_def split: if_splits sum.splits)
      moreover from True obtain h hs where "?hs = h # hs" by (cases ?hs) auto
      ultimately show thesis using abandoned rs(2) True by simp
    next
      case False
      let ?row = "lease_of_request q now e ?hs"
      have "res = Acquired ?row (ol_stage ?row) \<and> exists_where (\<lambda>r. rp_id r = lr_repository_id q) (repositories s) \<and>
          t = (forget_holders s (lr_repository_id q) ?hs)\<lparr>op_leases := op_leases (forget_holders s (lr_repository_id q) ?hs) @ [?row]\<rparr>"
        using assms e Inr rs(1) False jobs
        by (auto simp: acquire_operation_lease_def lease_of_request_def forget_holders_def Let_def is_ok_def split: if_splits sum.splits)
      moreover have "(forget_holders s (lr_repository_id q) ?hs)\<lparr>op_leases := op_leases (forget_holders s (lr_repository_id q) ?hs) @ [?row]\<rparr>
          = s\<lparr>op_leases := filter (\<lambda>l. ol_repository_id l \<noteq> lr_repository_id q) (op_leases s) @ [?row]\<rparr>"
        unfolding forget_holders_leases by (simp add: forget_holders_def)
      ultimately show thesis using acquired rs(2) False now jobs by auto
    qed
  qed
qed

end
