(* ===== verification/Lease_Properties.thy ===== *)
theory Lease_Properties
  imports Lease_Store Job_Properties
begin

text \<open>
  The lease table as a state machine, alone and together with the heavy-job queue: one lease per
  repository, no lease is stolen, a displaced owner is powerless, and a destructive operation never
  runs beside a pending job of its repository.
\<close>

section \<open>The machine\<close>

text \<open>
  \<open>Forget\<close> is what forgetting a repository does to its leases; \<open>Other\<close> is any statement of another store.
\<close>

inductive lease_step :: "db \<Rightarrow> db \<Rightarrow> bool" where
  Acquire: "acquire_operation_lease s q now = Inr (t, res) \<Longrightarrow> lease_step s t"
| Renew: "renew_operation_lease s r operation token now ttl = Inr (t, b) \<Longrightarrow> lease_step s t"
| Advance: "advance_operation_lease s r operation token stage now = Inr (t, b) \<Longrightarrow> lease_step s t"
| Release: "release_operation_lease s r operation token = (t, b) \<Longrightarrow> lease_step s t"
| Forget: "assert_no_live_operation_lease s r now = Inr () \<Longrightarrow>
    t = s\<lparr>op_leases := del_where (\<lambda>l. ol_repository_id l = r) (op_leases s)\<rparr> \<Longrightarrow> lease_step s t"
| Other: "op_leases t = op_leases s \<Longrightarrow> lease_step s t"

definition one_lease :: "db \<Rightarrow> bool" where
  "one_lease s \<longleftrightarrow> distinct (map ol_repository_id (op_leases s))"

text \<open>Apart from an acquisition a step only edits or deletes rows, keeping key and token.\<close>

definition same_lease :: "op_lease_row \<Rightarrow> op_lease_row \<Rightarrow> bool" where
  "same_lease k l \<longleftrightarrow> ol_repository_id k = ol_repository_id l \<and> ol_operation k = ol_operation l \<and> ol_token k = ol_token l"

lemma lease_step_cases2:
  assumes "lease_step s t"
  obtains (acquire) q now res where "acquire_operation_lease s q now = Inr (t, res)"
  | (edit) P f Q where "op_leases t = del_where Q (upd_where P f (op_leases s))" "\<And>l. same_lease (f l) l"
  using assms
proof cases
  case (Acquire q now res)
  then show ?thesis using acquire by blast
next
  case (Renew r operation token now ttl b)
  then show ?thesis
    using edit [of "\<lambda>_. False" "lease_row_matches r operation token" "\<lambda>l. l\<lparr>ol_renewed_at := now, ol_expires_at := e\<rparr>" for e]
    by (fastforce simp: renew_operation_lease_def Let_def same_lease_def del_where_absent split: sum.splits)
next
  case (Advance r operation token stage now b)
  then show ?thesis
    using edit [of "\<lambda>_. False" "lease_row_matches r operation token" "\<lambda>l. l\<lparr>ol_stage := Some stage, ol_renewed_at := now\<rparr>"]
    by (auto simp: advance_operation_lease_def Let_def same_lease_def del_where_absent split: if_splits)
next
  case (Release r operation token b)
  then show ?thesis
    using edit [of "lease_row_matches r operation token" "\<lambda>_. False" id]
    by (auto simp: release_operation_lease_def Let_def same_lease_def upd_where_absent)
next
  case (Forget r now)
  then show ?thesis
    using edit [of "\<lambda>l. ol_repository_id l = r" "\<lambda>_. False" id] by (auto simp: same_lease_def upd_where_absent)
next
  case Other
  then show ?thesis
    using edit [of "\<lambda>_. False" "\<lambda>_. False" id] by (auto simp: same_lease_def upd_where_absent del_where_absent)
qed

lemma one_lease_acquire:
  assumes "acquire_operation_lease s q now = Inr (t, res)" and "one_lease s"
  shows "one_lease t"
  using assms(1)
proof (cases rule: acquire_cases)
  case (acquired row e)
  with assms(2) show ?thesis by (auto simp: one_lease_def distinct_map_filter)
qed (use assms(2) in simp_all)

lemma one_lease_step: "lease_step s t \<Longrightarrow> one_lease s \<Longrightarrow> one_lease t"
proof (erule lease_step_cases2)
  fix q now res assume "one_lease s" "acquire_operation_lease s q now = Inr (t, res)"
  then show "one_lease t" by (blast intro: one_lease_acquire)
next
  fix P f Q assume "one_lease s" "op_leases t = del_where Q (upd_where P f (op_leases s))" "\<And>l. same_lease (f l) l"
  then show "one_lease t"
    unfolding one_lease_def same_lease_def by (simp add: distinct_del_where distinct_upd_where)
qed

interpretation leases: machine lease_step one_lease
  by unfold_locales (rule one_lease_step)

lemma one_lease_rows:
  assumes "one_lease s" and "l \<in> set (op_leases s)"
  shows "repository_leases s (ol_repository_id l) = [holder_of l]"
proof -
  have "filter (\<lambda>r. ol_repository_id r = ol_repository_id l) (op_leases s) = [l]"
    using assms distinct_key_filter [of ol_repository_id "op_leases s" l] by (simp add: one_lease_def)
  then show ?thesis by (simp add: repository_leases_def)
qed

section \<open>Leases and jobs\<close>

text \<open>
  The two tables move together: a step of the queue leaves the leases alone, and a step of the leases
  leaves the jobs alone.
\<close>

inductive work_step :: "jsnum \<Rightarrow> (memory_admission option \<Rightarrow> bool) \<Rightarrow> db \<Rightarrow> db \<Rightarrow> bool"
  for m :: jsnum and policy :: "memory_admission option \<Rightarrow> bool" where
  Job: "job_step m policy s t \<Longrightarrow> op_leases t = op_leases s \<Longrightarrow> work_step m policy s t"
| Lease: "lease_step s t \<Longrightarrow> jobs t = jobs s \<Longrightarrow> job_high_water t = job_high_water s \<Longrightarrow> work_step m policy s t"

definition busy_repository :: "db \<Rightarrow> ident \<Rightarrow> bool" where
  "busy_repository s r \<longleftrightarrow> exists_where (\<lambda>j. hj_repository_id j = r \<and> pending j) (jobs s)"

definition work_inv :: "db \<Rightarrow> bool" where
  "work_inv s \<longleftrightarrow> job_table_ok s \<and> one_lease s \<and>
    (\<forall>l\<in>set (op_leases s). ol_operation l \<noteq> Op_Create \<longrightarrow> \<not> busy_repository s (ol_repository_id l))"

lemma busy_evolves:
  assumes "list_all2 job_evolves (jobs s) (jobs t)" and "job_table_ok s" and "busy_repository t r"
  shows "busy_repository s r"
proof -
  from assms(3) obtain k where k: "k \<in> set (jobs t)" "hj_repository_id k = r" "pending k"
    by (auto simp: busy_repository_def list_ex_iff)
  from list_all2_setD [OF assms(1) k(1)] obtain j where j: "j \<in> set (jobs s)" "job_evolves j k" by blast
  from wf_pending_evolves [OF j(2) table_wf [OF assms(2) j(1)] k(3)] j k(2) show ?thesis
    by (auto simp: busy_repository_def list_ex_iff job_evolves_def same_request_def)
qed

lemma enqueue_unleased:
  assumes "enqueue_job s i n = Inr (t, j, False)"
  shows "hj_repository_id j = ji_repository_id i \<and> (\<forall>l\<in>set (op_leases s). ol_repository_id l \<noteq> ji_repository_id i)"
  using assms
  by (auto simp: enqueue_job_def assert_registered_def Let_def list_ex_iff split: if_splits option.splits sum.splits)

lemma job_step_busy:
  assumes st: "job_step m policy s t" and ok: "job_table_ok s" and busy: "busy_repository t r"
  shows "busy_repository s r \<or> (\<forall>l\<in>set (op_leases s). ol_repository_id l \<noteq> r)"
  using st ok
proof (cases rule: job_step_cases4)
  case keep
  from busy_evolves [OF jobs_keep_evolves [OF keep] ok busy] show ?thesis ..
next
  case (admit i new_id j reused)
  then show ?thesis
  proof (cases rule: enqueue_job_cases)
    case reuse
    with busy show ?thesis by simp
  next
    case admit: admit
    with enqueue_unleased [of s i new_id t j] \<open>enqueue_job s i new_id = Inr (t, j, reused)\<close> busy show ?thesis
      by (auto simp: busy_repository_def list_ex_iff)
  qed
next
  case (delete i b)
  with delete_finished_jobs(1) [OF delete ok] busy show ?thesis
    by (auto simp: busy_repository_def list_ex_iff split: if_splits)
next
  case (grant s1 j scope memory now)
  have "list_all2 job_evolves (jobs s1) (jobs t)" unfolding grant(4) by (rule grant_evolves)
  from busy_evolves [OF this jobs_keep_table_ok [OF grant(2) ok] busy] have "busy_repository s1 r" .
  from busy_evolves [OF jobs_keep_evolves [OF grant(2)] ok this] show ?thesis ..
qed

lemma job_step_table_ok:
  assumes st: "job_step m policy s t" and ok: "job_table_ok s"
  shows "job_table_ok t"
  using st ok
proof (cases rule: job_step_cases4)
  case keep
  then show ?thesis using jobs_keep_table_ok ok by blast
next
  case (admit i new_id j reused)
  then show ?thesis by (rule enqueue_table_ok [OF ok])
next
  case (delete i b)
  then show ?thesis by (rule delete_table_ok [OF ok])
next
  case (grant s1 j scope memory now)
  show ?thesis unfolding grant(4)
    by (rule job_table_ok_evolves [OF grant_evolves _ jobs_keep_table_ok [OF grant(2) ok]]) simp
qed

lemma work_step_inv:
  assumes "work_step m policy s t" and inv: "work_inv s"
  shows "work_inv t"
  using assms(1)
proof cases
  case Job
  from inv have ok: "job_table_ok s" by (simp add: work_inv_def)
  have "\<not> busy_repository t (ol_repository_id l)" if "l \<in> set (op_leases s)" "ol_operation l \<noteq> Op_Create" for l
    using job_step_busy [OF Job(1) ok, of "ol_repository_id l"] inv that by (auto simp: work_inv_def)
  with Job inv job_step_table_ok [OF Job(1) ok] show ?thesis by (auto simp: work_inv_def one_lease_def)
next
  case Lease
  from inv have ok: "job_table_ok t" and one: "one_lease t"
    using one_lease_step [OF Lease(1)] Lease(2,3) by (auto simp: work_inv_def job_table_ok_def)
  have busy: "busy_repository t r = busy_repository s r" for r by (simp add: busy_repository_def Lease(2))
  from Lease(1) have "\<not> busy_repository s (ol_repository_id l)" if "l \<in> set (op_leases t)" "ol_operation l \<noteq> Op_Create" for l
  proof (cases rule: lease_step_cases2)
    case (acquire q now res)
    then show ?thesis
    proof (cases rule: acquire_cases)
      case (acquired row e)
      with that inv show ?thesis
        by (auto simp: work_inv_def assert_no_heavy_jobs_def busy_repository_def split: if_splits)
    qed (use that inv in \<open>auto simp: work_inv_def\<close>)
  next
    case (edit P f Q)
    with that obtain k where "k \<in> set (op_leases s)" "same_lease l k"
      by (auto simp: set_upd_where same_lease_def split: if_splits)
    with that inv show ?thesis by (auto simp: work_inv_def same_lease_def)
  qed
  with ok one show ?thesis by (simp add: work_inv_def busy)
qed

interpretation work: machine "work_step m policy" work_inv for m policy
  by unfold_locales (rule work_step_inv)

section \<open>Concrete leases\<close>

definition demo_repository :: repository_row where
  "demo_repository = \<lparr> rp_id = ''r1'', rp_workspace_id = ''s1'', rp_common_git_dir = ''/g'', rp_main_root = ''/p'',
     rp_remote_identity = None, rp_created_at = 0, rp_last_reconciled_at = None \<rparr>"

definition demo_lease_request :: "repository_operation \<Rightarrow> string \<Rightarrow> lease_request" where
  "demo_lease_request operation token = \<lparr> lr_repository_id = ''r1'', lr_operation = operation, lr_token = token,
     lr_pid = Whole 42, lr_process_start_time = ''t0'', lr_host_id = ''h'', lr_subject_worktree_id = None,
     lr_ttl_ms = Some 100, lr_adopt = True, lr_liveness = Some (\<lambda>_. Gone) \<rparr>"

definition demo_lease :: "repository_operation \<Rightarrow> string \<Rightarrow> time \<Rightarrow> op_lease_row" where
  "demo_lease operation token now = \<lparr> ol_repository_id = ''r1'', ol_operation = operation, ol_token = token,
     ol_pid = 42, ol_process_start_time = ''t0'', ol_host_id = ''h'', ol_subject_worktree_id = None,
     ol_stage = None, ol_acquired_at = now, ol_renewed_at = now, ol_expires_at = now + 100 \<rparr>"

definition demo_repo_db :: db where
  "demo_repo_db = empty_db\<lparr>repositories := [demo_repository]\<rparr>"

definition demo_leased :: "repository_operation \<Rightarrow> string \<Rightarrow> time \<Rightarrow> db" where
  "demo_leased operation token now = demo_repo_db\<lparr>op_leases := [demo_lease operation token now]\<rparr>"

lemmas demo_lease_defs = demo_repository_def demo_lease_request_def demo_lease_def demo_repo_db_def demo_leased_def empty_db_def

lemma demo_acquire:
  "acquire_operation_lease demo_repo_db (demo_lease_request Op_Gc ''a'') 10 =
    Inr (demo_leased Op_Gc ''a'' 10, Acquired (demo_lease Op_Gc ''a'' 10) None)"
  by (simp add: demo_lease_defs acquire_operation_lease_def lease_expiry_def last_date_def assert_no_heavy_jobs_def
      repository_leases_def forget_holders_def coalesce_def max_safe_integer_def Let_def)

lemma demo_adopt:
  "acquire_operation_lease (demo_leased Op_Gc ''a'' 10) (demo_lease_request Op_Gc ''b'') 200 =
    Inr (demo_leased Op_Gc ''b'' 200, Acquired (demo_lease Op_Gc ''b'' 200) None)"
  by (simp add: demo_lease_defs acquire_operation_lease_def lease_expiry_def last_date_def assert_no_heavy_jobs_def
      repository_leases_def forget_holders_def coalesce_def holder_of_def lease_expired_def max_safe_integer_def Let_def)

lemma demo_leased_run: "lease_step\<^sup>*\<^sup>* empty_db (demo_leased Op_Gc ''b'' 200)"
proof -
  have a: "lease_step empty_db demo_repo_db" by (rule lease_step.Other) (simp add: demo_repo_db_def)
  show ?thesis
    by (rule rtranclp_steps3 [of lease_step, OF a lease_step.Acquire [OF demo_acquire] lease_step.Acquire [OF demo_adopt]])
qed

lemma one_lease_empty: "one_lease empty_db"
  by (simp add: one_lease_def empty_db_def)

section \<open>Properties\<close>

text \<open>
  C2. Mutual exclusion of repository operations: in every state reached from an empty store, two lease
  rows of the same repository are the same row, whatever operations (\<open>remove\<close>, \<open>gc\<close>, \<open>repair\<close>, \<open>create\<close>) were
  requested, renewed, journalled, released, adopted or forgotten before.
\<close>

theorem one_operation_per_repository:
  assumes "lease_step\<^sup>*\<^sup>* empty_db s" and "k \<in> set (op_leases s)" and "l \<in> set (op_leases s)"
    and "ol_repository_id k = ol_repository_id l"
  shows "k = l"
proof -
  from leases.run_inv [OF assms(1) one_lease_empty] have "inj_on ol_repository_id (set (op_leases s))"
    by (simp add: one_lease_def distinct_map)
  with assms(2-4) show ?thesis by (simp add: inj_on_def)
qed

lemma one_operation_per_repository_witness:
  "{k \<in> set (op_leases (demo_leased Op_Gc ''b'' 200)). ol_repository_id k = ''r1''} = {demo_lease Op_Gc ''b'' 200}"
proof -
  have d: "demo_lease Op_Gc ''b'' 200 \<in> set (op_leases (demo_leased Op_Gc ''b'' 200))"
    "ol_repository_id (demo_lease Op_Gc ''b'' 200) = ''r1''" by (simp_all add: demo_leased_def demo_lease_def)
  then have "k = demo_lease Op_Gc ''b'' 200" if "k \<in> set (op_leases (demo_leased Op_Gc ''b'' 200))" "ol_repository_id k = ''r1''" for k
    using one_operation_per_repository [OF demo_leased_run that(1) d(1)] that(2) by simp
  with d show ?thesis by blast
qed

text \<open>
  No lease is stolen: an acquisition removes another lease only when that lease is one of the
  requested repository, has expired, its owner was judged gone, and the caller asked to adopt; in
  particular a lapsed TTL alone never evicts a holder.
\<close>

theorem acquisition_never_steals:
  assumes "acquire_operation_lease s q now = Inr (t, res)" and "l \<in> set (op_leases s)" and "l \<notin> set (op_leases t)"
  shows "ol_repository_id l = lr_repository_id q \<and> ol_expires_at l \<le> now \<and> lr_adopt q
    \<and> (\<forall>verdict. lr_liveness q = Some verdict \<longrightarrow> verdict (holder_of l) = Gone)"
  using assms(1)
proof (cases rule: acquire_cases)
  case (acquired row e)
  with assms(2,3) have l: "ol_repository_id l = lr_repository_id q" by auto
  with assms(2) have "holder_of l \<in> set (repository_leases s (lr_repository_id q))" by (auto simp: set_repository_leases)
  with acquired l show ?thesis by (fastforce simp: reclaimable_holder_def lease_expired_def)
qed (use assms(2,3) in simp_all)

lemma acquisition_never_steals_witness:
  "demo_lease Op_Gc ''a'' 10 \<notin> set (op_leases (demo_leased Op_Gc ''b'' 200)) \<and> ol_expires_at (demo_lease Op_Gc ''a'' 10) \<le> 200"
proof -
  have "demo_lease Op_Gc ''a'' 10 \<in> set (op_leases (demo_leased Op_Gc ''a'' 10))"
    "demo_lease Op_Gc ''a'' 10 \<notin> set (op_leases (demo_leased Op_Gc ''b'' 200))"
    by (simp_all add: demo_leased_def demo_lease_def)
  with acquisition_never_steals [OF demo_adopt this] show ?thesis by simp
qed

text \<open>
  What an acquisition answers when the repository already has a lease: a conflict naming the
  holder while the lease has not expired or its owner is not known to be gone; otherwise a report of the
  abandoned lease, or, for a caller that adopts, a new lease that continues the recorded stage exactly
  when it is for the same operation. Only the last changes the table.
\<close>

theorem acquisition_answer:
  assumes "one_lease s" and "l \<in> set (op_leases s)" and "ol_repository_id l = lr_repository_id q"
    and "acquire_operation_lease s q now = Inr (t, res)"
  shows "if ol_expires_at l > now \<or> (\<exists>v. lr_liveness q = Some v \<and> v (holder_of l) \<noteq> Gone)
    then res = Conflict (holder_of l) \<and> t = s
    else if \<not> lr_adopt q then res = Abandoned (holder_of l) \<and> t = s
    else \<exists>row. res = Acquired row (ol_stage row) \<and> ol_token row = lr_token q \<and> ol_operation row = lr_operation q
      \<and> ol_acquired_at row = now \<and> now < ol_expires_at row
      \<and> ol_stage row = (if ol_operation l = lr_operation q then ol_stage l else None)
      \<and> op_leases t = filter (\<lambda>k. ol_repository_id k \<noteq> lr_repository_id q) (op_leases s) @ [row]"
proof -
  have one: "repository_leases s (lr_repository_id q) = [holder_of l]"
    using one_lease_rows [OF assms(1,2)] assms(3) by simp
  have rec: "reclaimable_holder (lr_liveness q) now (holder_of l) \<longleftrightarrow>
      \<not> (ol_expires_at l > now \<or> (\<exists>v. lr_liveness q = Some v \<and> v (holder_of l) \<noteq> Gone))"
    by (auto simp: reclaimable_holder_def lease_expired_def split: option.splits)
  from assms(4) show ?thesis
  proof (cases rule: acquire_cases)
    case (acquired row e)
    have "ol_stage row = (if ol_operation l = lr_operation q then ol_stage l else None)"
      using acquired(4) by (simp add: one lease_of_request_def)
    with acquired rec show ?thesis unfolding one by auto
  qed (use rec in \<open>auto simp: one split: if_splits\<close>)
qed

lemma acquisition_answer_witness:
  "\<exists>row. op_leases (demo_leased Op_Gc ''b'' 200) = [row] \<and> ol_token row = ''b'' \<and> ol_stage row = None"
  using acquisition_answer [of "demo_leased Op_Gc ''a'' 10" "demo_lease Op_Gc ''a'' 10" "demo_lease_request Op_Gc ''b''" 200, OF _ _ _ demo_adopt]
  by (auto simp: demo_lease_defs one_lease_def)

text \<open>
  A displaced owner is powerless: once a lease of the repository was acquired with another token,
  renewing, journalling or releasing with an old token of that repository changes nothing and reports \<open>false\<close>.
\<close>

theorem displaced_owner_is_powerless:
  assumes "acquire_operation_lease s q now = Inr (t, Acquired row stage)" and "token \<noteq> lr_token q" and "ttl > 0" and "text \<noteq> []"
    and "int later + ttl \<le> last_date"
  shows "renew_operation_lease t (lr_repository_id q) operation token later (Some ttl) = Inr (t, False)
    \<and> advance_operation_lease t (lr_repository_id q) operation token text later = Inr (t, False)
    \<and> release_operation_lease t (lr_repository_id q) operation token = (t, False)"
proof -
  from assms(1) have "\<forall>l\<in>set (op_leases t). ol_repository_id l = lr_repository_id q \<longrightarrow> ol_token l = lr_token q"
    by (cases rule: acquire_cases) auto
  then have none: "\<forall>l\<in>set (op_leases t). \<not> lease_row_matches (lr_repository_id q) operation token l"
    using assms(2) by (auto simp: lease_row_matches_def)
  then have "count_where (lease_row_matches (lr_repository_id q) operation token) (op_leases t) = 0"
    by (simp add: count_where_0)
  with none assms(3-5) show ?thesis
    by (simp add: renew_operation_lease_def advance_operation_lease_def release_operation_lease_def
        lease_expiry_def Let_def upd_where_absent del_where_absent)
qed

lemma displaced_owner_is_powerless_witness:
  "release_operation_lease (demo_leased Op_Gc ''b'' 200) ''r1'' Op_Gc ''a'' = (demo_leased Op_Gc ''b'' 200, False)"
  using displaced_owner_is_powerless [OF demo_adopt, of "''a''" 1 "''x''" 0 Op_Gc] by (simp add: demo_lease_request_def last_date_def)

text \<open>
  A holder keeps its lease past the TTL: while its row is there, a renewal with its token succeeds
  whatever the time, moves the expiry to the TTL after now, and keeps owner, token and recorded stage.
\<close>

theorem renewal_outlives_ttl:
  assumes "one_lease s" and "l \<in> set (op_leases s)" and "0 < ttl" and "int now + ttl \<le> last_date"
  shows "\<exists>t. renew_operation_lease s (ol_repository_id l) (ol_operation l) (ol_token l) now (Some ttl) = Inr (t, True)
    \<and> l\<lparr>ol_renewed_at := now, ol_expires_at := nat (int now + ttl)\<rparr> \<in> set (op_leases t)
    \<and> (\<forall>k\<in>set (op_leases s). k \<noteq> l \<longrightarrow> k \<in> set (op_leases t))"
proof -
  let ?P = "lease_row_matches (ol_repository_id l) (ol_operation l) (ol_token l)"
  have P: "?P k \<longleftrightarrow> k = l" if "k \<in> set (op_leases s)" for k
    using assms(1,2) that by (auto simp: lease_row_matches_def one_lease_def distinct_map inj_on_def)
  have "filter ?P (op_leases s) = filter (\<lambda>k. ol_repository_id k = ol_repository_id l) (op_leases s)"
    by (rule filter_cong [OF refl]) (use P assms(1,2) in \<open>auto simp: one_lease_def distinct_map inj_on_def\<close>)
  then have "count_where ?P (op_leases s) = 1"
    using distinct_key_filter [of ol_repository_id "op_leases s" l] assms(1,2) by (simp add: one_lease_def count_where_def)
  with P assms(2-4) show ?thesis
    by (auto simp: renew_operation_lease_def lease_expiry_def Let_def set_upd_where intro!: image_eqI)
qed

lemma renewal_outlives_ttl_witness:
  "\<exists>t. renew_operation_lease (demo_leased Op_Gc ''a'' 10) ''r1'' Op_Gc ''a'' 5000 (Some 100) = Inr (t, True)"
  using renewal_outlives_ttl [of "demo_leased Op_Gc ''a'' 10" "demo_lease Op_Gc ''a'' 10" 100 5000]
  by (auto simp: demo_lease_defs one_lease_def last_date_def)

text \<open>
  C14. A destructive operation never runs beside a pending job: in every state reached from an empty store
  by operations of the queue and of the leases, in any interleaving, a repository with a \<open>remove\<close>, \<open>gc\<close> or
  \<open>repair\<close> lease has no queued and no running job.
\<close>

theorem destruction_excludes_jobs:
  assumes "(work_step m policy)\<^sup>*\<^sup>* empty_db s" and "l \<in> set (op_leases s)" and "ol_operation l \<noteq> Op_Create"
    and "j \<in> set (jobs s)" and "hj_repository_id j = ol_repository_id l"
  shows "terminal (hj_state j) \<and> \<not> hj_slot_held j"
proof -
  have "work_inv empty_db"
    by (simp add: work_inv_def job_table_ok_def one_lease_def empty_db_def)
  from work.run_inv [OF assms(1) this] have inv: "work_inv s" .
  with assms(2-5) have "\<not> pending j" by (auto simp: work_inv_def busy_repository_def list_ex_iff)
  moreover have "wf_job j" using inv assms(4) by (simp add: work_inv_def job_table_ok_def)
  ultimately show ?thesis using not_pending by (auto simp: pending_def)
qed

definition demo_done_leased :: db where
  "demo_done_leased = demo_done\<lparr>repositories := [demo_repository], op_leases := [demo_lease Op_Remove ''a'' 10]\<rparr>"

lemma demo_done_leased_run: "(work_step (Whole 1) (\<lambda>_. True))\<^sup>*\<^sup>* empty_db demo_done_leased"
proof -
  let ?w = "work_step (Whole 1) (\<lambda>_. True)" and ?d = "demo_done\<lparr>repositories := [demo_repository]\<rparr>"
  have leases: "op_leases empty_db = []" "op_leases demo_registered = []" "op_leases demo_queued = []"
    "op_leases demo_running = []" "op_leases demo_done = []"
    by (simp_all add: demo_defs)
  have a: "?w empty_db demo_registered"
    by (rule work_step.Job [OF job_step.Other]) (simp_all add: leases demo_registered_def)
  have b: "?w demo_registered demo_queued"
    by (rule work_step.Job [OF job_step.Enqueue [OF demo_enqueue]]) (simp add: leases)
  have c: "?w demo_queued demo_running"
    by (rule work_step.Job [OF job_step.Claim [OF _ demo_claim]]) (simp_all add: leases)
  have d: "?w demo_running demo_done"
    by (rule work_step.Job [OF demo_step_done]) (simp add: leases)
  have e: "?w demo_done ?d" by (rule work_step.Lease [OF lease_step.Other]) simp_all
  have "acquire_operation_lease ?d (demo_lease_request Op_Remove ''a'') 10 =
      Inr (demo_done_leased, Acquired (demo_lease Op_Remove ''a'' 10) None)"
    by (simp add: demo_done_leased_def demo_defs demo_repository_def demo_lease_request_def demo_lease_def
        acquire_operation_lease_def lease_expiry_def last_date_def assert_no_heavy_jobs_def pending_def finished_job_def started_job_def
        final_state_def repository_leases_def forget_holders_def coalesce_def max_safe_integer_def Let_def)
  then have f: "?w ?d demo_done_leased"
    by (rule work_step.Lease [OF lease_step.Acquire]) (simp_all add: demo_done_leased_def)
  show ?thesis by (rule rtranclp_trans [OF rtranclp_steps3 [of ?w, OF a b c] rtranclp_steps3 [of ?w, OF d e f]])
qed

lemma destruction_excludes_jobs_witness:
  "\<exists>j. jobs demo_done_leased = [j] \<and> terminal (hj_state j) \<and> op_leases demo_done_leased \<noteq> []"
proof -
  let ?j = "finished_job demo_finish (started_job 7 demo_job)"
  have j: "jobs demo_done_leased = [?j]" "op_leases demo_done_leased = [demo_lease Op_Remove ''a'' 10]"
    "hj_repository_id ?j = ''r1''"
    by (simp_all add: demo_done_leased_def demo_defs finished_job_def started_job_def)
  with destruction_excludes_jobs [OF demo_done_leased_run, of "demo_lease Op_Remove ''a'' 10" ?j] show ?thesis
    by (simp add: demo_lease_def)
qed

section \<open>A create lease and the queue\<close>

text \<open>
  A \<open>create\<close> lease may be taken while jobs are queued, but a claim made during it ends the queued job
  as \<open>INTERRUPTED\<close> with \<open>WORKTREE_UNAVAILABLE\<close>, although the worktree is there.
\<close>

lemma create_lease_interrupts_queued_job:
  "(let s = demo_queued\<lparr>repositories := [demo_repository]\<rparr> in
    \<exists>t u. acquire_operation_lease s (demo_lease_request Op_Create ''a'') 6 = Inr (t, Acquired (demo_lease Op_Create ''a'' 6) None)
      \<and> claim_job t ''u'' (Whole 1) 7 None = Inr (u, None)
      \<and> map (\<lambda>j. (hj_state j, hj_error j)) (jobs u) = [(J_INTERRUPTED, Some ''WORKTREE_UNAVAILABLE'')])"
  by (simp add: demo_defs demo_repository_def demo_lease_request_def demo_lease_def Let_def
      acquire_operation_lease_def lease_expiry_def last_date_def repository_leases_def forget_holders_def coalesce_def
      max_safe_integer_def claim_job_def scheduling_snapshot_def pending_def job_waiting_reasons_def slots_held_def
      waiting_reason_of_def assert_registered_def get_job_by_id_def upd_jobs_def)

end
