(* ===== verification/Operation_Lease.thy ===== *)
theory Operation_Lease
  imports Lease_Properties
begin

text \<open>
  The policy around the lease rows (\<open>packages/core/src/analysis/operation-lease.ts\<close>): who this process is,
  whether the owner of an expired row is alive, the bounded retry, the refusal a caller sees, and the
  brackets that hold one or several repositories while a body runs. The store is an interface (the
  \<open>Pick\<close> of \<open>StateStore\<close> the module takes); the lemmas are proved against its contract and then for
  the SQLite store.
\<close>

section \<open>Definitions\<close>

text \<open>The narrow store surface.\<close>

record 's lease_api =
  la_acquire :: "'s \<Rightarrow> lease_request \<Rightarrow> time \<Rightarrow> store_error + ('s \<times> lease_result)"
  la_renew :: "'s \<Rightarrow> ident \<Rightarrow> repository_operation \<Rightarrow> string \<Rightarrow> time \<Rightarrow> int option \<Rightarrow> store_error + ('s \<times> bool)"
  la_advance :: "'s \<Rightarrow> ident \<Rightarrow> repository_operation \<Rightarrow> string \<Rightarrow> string \<Rightarrow> time \<Rightarrow> store_error + ('s \<times> bool)"
  la_release :: "'s \<Rightarrow> ident \<Rightarrow> repository_operation \<Rightarrow> string \<Rightarrow> 's \<times> bool"
  la_list :: "'s \<Rightarrow> ident \<Rightarrow> lease_holder list"

text \<open>
  What a call sees of its surroundings. \<open>lw_read n pid\<close> is the answer of the caller's
  \<open>ProcessStartTimeReader\<close> during attempt \<open>n\<close> (\<open>Inl\<close> when it rejects, \<open>Inr None\<close> when there is no such
  process); \<open>lw_env n\<close> is what other processes do to the store while attempt \<open>n\<close> awaits those answers;
  \<open>lw_now n\<close> is the clock at attempt \<open>n\<close>, \<open>lw_pid\<close> is \<open>process.pid\<close>.
\<close>

record 's lease_world =
  lw_pid :: jsnum
  lw_read :: "nat \<Rightarrow> int \<Rightarrow> store_error + string option"
  lw_env :: "nat \<Rightarrow> 's \<Rightarrow> 's"
  lw_now :: "nat \<Rightarrow> time"

text \<open>\<open>li_ttl_ms\<close> is \<open>None\<close> when the caller names no \<open>ttlMs\<close>; a number that is not finite is \<open>Not_Whole\<close>.\<close>

record lease_input =
  li_host_id :: string
  li_repository_id :: ident
  li_operation :: repository_operation
  li_subject_worktree_id :: "ident option"
  li_adopt :: bool
  li_ttl_ms :: "jsnum option"

record conflict_detail =
  cd_abandoned :: bool
  cd_repository_id :: ident
  cd_operation :: repository_operation
  cd_holder_operation :: repository_operation
  cd_holder_pid :: int
  cd_acquired_at :: time
  cd_stage :: "string option"
  cd_remediation :: "string list list"

datatype lease_failure = Operation_Conflict conflict_detail | Lease_Failure store_error

definition default_operation_lease_ttl_ms :: int where
  "default_operation_lease_ttl_ms = 120000"

text \<open>\<open>input.ttlMs ?? defaultOperationLeaseTtlMs\<close>, as the store takes it.\<close>

definition lease_ttl_ms :: "lease_input \<Rightarrow> int option" where
  "lease_ttl_ms i = (case li_ttl_ms i of
     None \<Rightarrow> Some default_operation_lease_ttl_ms
   | Some Not_Whole \<Rightarrow> None
   | Some (Whole ttl) \<Rightarrow> Some ttl)"

definition max_acquisition_attempts :: nat where
  "max_acquisition_attempts = 2"

definition read_process_start_identity ::
  "(int \<Rightarrow> store_error + string option) \<Rightarrow> jsnum \<Rightarrow> store_error + (int \<times> string) option" where
  "read_process_start_identity read pid =
    (if \<not> safe_positive pid then Inl Type_Error
     else case read (whole pid) of
       Inl e \<Rightarrow> Inl e
     | Inr None \<Rightarrow> Inr None
     | Inr (Some start) \<Rightarrow> if start = [] then Inr None else Inr (Some (whole pid, start)))"

definition liveness_of ::
  "(int \<Rightarrow> store_error + string option) \<Rightarrow> lease_holder \<Rightarrow> string \<Rightarrow> store_error + owner_verdict" where
  "liveness_of read holder my_host_id =
    (if lh_host_id holder \<noteq> my_host_id then Inr Unknown
     else case read_process_start_identity read (Whole (lh_pid holder)) of
       Inl e \<Rightarrow> Inl e
     | Inr None \<Rightarrow> Inr Gone
     | Inr (Some (pid, start)) \<Rightarrow> Inr (if start = lh_process_start_time holder then Alive else Gone))"

definition is_same_holder :: "lease_holder \<Rightarrow> lease_holder \<Rightarrow> bool" where
  "is_same_holder measured observed \<longleftrightarrow>
     lh_operation measured = lh_operation observed \<and> lh_pid measured = lh_pid observed \<and>
     lh_process_start_time measured = lh_process_start_time observed \<and>
     lh_host_id measured = lh_host_id observed \<and> lh_acquired_at measured = lh_acquired_at observed"

definition resumable_operations :: "repository_operation set" where
  "resumable_operations = {Op_Remove, Op_Create}"

text \<open>\<open>None\<close> and an acquired result stand for a lease neither granted nor refused.\<close>

definition conflict_from :: "ident \<Rightarrow> repository_operation \<Rightarrow> lease_result option \<Rightarrow> lease_failure" where
  "conflict_from repository_id operation refusal =
    (let detail = (\<lambda>abandoned holder.
       Operation_Conflict \<lparr> cd_abandoned = abandoned, cd_repository_id = repository_id,
         cd_operation = operation, cd_holder_operation = lh_operation holder, cd_holder_pid = lh_pid holder,
         cd_acquired_at = lh_acquired_at holder, cd_stage = (if abandoned then lh_stage holder else None),
         cd_remediation = (if abandoned \<and> lh_operation holder = operation \<and> operation \<in> resumable_operations
           then [[''wtm'', operation_text operation, ''--resume'']] else []) \<rparr>)
     in case refusal of
          Some (Conflict holder) \<Rightarrow> detail False holder
        | Some (Abandoned holder) \<Rightarrow> detail True holder
        | _ \<Rightarrow> Lease_Failure (Plain_Error Lease_Undecided))"

text \<open>The owners of the rows that have expired, measured one after the other.\<close>

fun measure_holders ::
  "(int \<Rightarrow> store_error + string option) \<Rightarrow> string \<Rightarrow> time \<Rightarrow> lease_holder list
   \<Rightarrow> store_error + (lease_holder \<times> owner_verdict) list" where
  "measure_holders read host timestamp [] = Inr []"
| "measure_holders read host timestamp (holder # rest) =
    (if lh_expires_at holder > timestamp then measure_holders read host timestamp rest
     else case liveness_of read holder host of
       Inl e \<Rightarrow> Inl e
     | Inr verdict \<Rightarrow> (case measure_holders read host timestamp rest of
         Inl e \<Rightarrow> Inl e | Inr measured \<Rightarrow> Inr ((holder, verdict) # measured)))"

text \<open>The callback the store asks inside its transaction: a row that was not measured counts as alive.\<close>

definition owner_liveness :: "(lease_holder \<times> owner_verdict) list \<Rightarrow> lease_holder \<Rightarrow> owner_verdict" where
  "owner_liveness measured holder =
    (case find (\<lambda>(h, v). is_same_holder h holder) measured of None \<Rightarrow> Alive | Some (h, v) \<Rightarrow> v)"

text \<open>
  \<open>raced\<close>: the callback was asked about a row that was not measured. The store asks it for expired rows
  only and stops at the first one that is not gone, so it was asked exactly when the conflict names an
  expired row without a measurement.
\<close>

definition was_raced :: "(lease_holder \<times> owner_verdict) list \<Rightarrow> time \<Rightarrow> lease_result \<Rightarrow> bool" where
  "was_raced measured timestamp res = (case res of
     Conflict holder \<Rightarrow> lease_expired holder timestamp \<and> find (\<lambda>(h, v). is_same_holder h holder) measured = None
   | _ \<Rightarrow> False)"

definition attempt_request ::
  "lease_input \<Rightarrow> int \<times> string \<Rightarrow> string \<Rightarrow> (lease_holder \<times> owner_verdict) list \<Rightarrow> lease_request" where
  "attempt_request i owner token measured =
    \<lparr> lr_repository_id = li_repository_id i, lr_operation = li_operation i, lr_token = token,
      lr_pid = Whole (fst owner), lr_process_start_time = snd owner, lr_host_id = li_host_id i,
      lr_subject_worktree_id = li_subject_worktree_id i, lr_ttl_ms = lease_ttl_ms i, lr_adopt = li_adopt i,
      lr_liveness = Some (owner_liveness measured) \<rparr>"

text \<open>The loop over the attempts; \<open>fuel\<close> is how many are left, \<open>n\<close> the number of the next one.\<close>

fun acquire_lease ::
  "'s lease_api \<Rightarrow> 's lease_world \<Rightarrow> lease_input \<Rightarrow> int \<times> string \<Rightarrow> string \<Rightarrow> nat \<Rightarrow> nat \<Rightarrow> lease_result option
   \<Rightarrow> 's \<Rightarrow> 's \<times> (lease_failure + string option)" where
  "acquire_lease api w i owner token 0 n refusal s =
     (s, Inl (conflict_from (li_repository_id i) (li_operation i) refusal))"
| "acquire_lease api w i owner token (Suc fuel) n refusal s =
    (let timestamp = lw_now w n in
     case measure_holders (lw_read w n) (li_host_id i) timestamp (la_list api s (li_repository_id i)) of
       Inl e \<Rightarrow> (lw_env w n s, Inl (Lease_Failure e))
     | Inr measured \<Rightarrow>
       (let s1 = (if measured = [] then s else lw_env w n s) in
        case la_acquire api s1 (attempt_request i owner token measured) timestamp of
          Inl e \<Rightarrow> (s1, Inl (Lease_Failure e))
        | Inr (s2, Acquired row stage) \<Rightarrow> (s2, Inr stage)
        | Inr (s2, res) \<Rightarrow>
            if was_raced measured timestamp res
            then acquire_lease api w i owner token fuel (Suc n) (Some res) s2
            else (s2, Inl (conflict_from (li_repository_id i) (li_operation i) (Some res)))))"

text \<open>The session handed to the body.\<close>

definition session_advance ::
  "'s lease_api \<Rightarrow> lease_input \<Rightarrow> string \<Rightarrow> time \<Rightarrow> string \<Rightarrow> 's \<Rightarrow> 's \<times> (lease_failure + unit)" where
  "session_advance api i token now stage s =
    (case la_advance api s (li_repository_id i) (li_operation i) token stage now of
       Inl e \<Rightarrow> (s, Inl (Lease_Failure e))
     | Inr (t, held) \<Rightarrow> (t, if held then Inr () else Inl (Lease_Failure (Plain_Error Lease_Not_Held))))"

definition session_renew ::
  "'s lease_api \<Rightarrow> lease_input \<Rightarrow> string \<Rightarrow> time \<Rightarrow> 's \<Rightarrow> 's \<times> (lease_failure + unit)" where
  "session_renew api i token now s =
    (case la_renew api s (li_repository_id i) (li_operation i) token now (lease_ttl_ms i) of
       Inl e \<Rightarrow> (s, Inl (Lease_Failure e))
     | Inr (t, held) \<Rightarrow> (t, if held then Inr () else Inl (Lease_Failure (Plain_Error Lease_Not_Held))))"

text \<open>
  The body runs with the token and the adopted stage; it is an asynchronous function, so what it does
  to the store includes whatever happens while it runs. A thrown error of the body is its \<open>Inl\<close>.
\<close>

definition with_operation_lease ::
  "'s lease_api \<Rightarrow> 's lease_world \<Rightarrow> lease_input \<Rightarrow> string
   \<Rightarrow> (string \<Rightarrow> string option \<Rightarrow> 's \<Rightarrow> 's \<times> (lease_failure + 'a)) \<Rightarrow> 's \<Rightarrow> 's \<times> (lease_failure + 'a)" where
  "with_operation_lease api w i token body s =
    (case read_process_start_identity (lw_read w 0) (lw_pid w) of
       Inl e \<Rightarrow> (s, Inl (Lease_Failure e))
     | Inr None \<Rightarrow> (s, Inl (Lease_Failure (Plain_Error Start_Identity_Unreadable)))
     | Inr (Some owner) \<Rightarrow>
       (case acquire_lease api w i owner token max_acquisition_attempts 0 None s of
          (s1, Inl e) \<Rightarrow> (s1, Inl e)
        | (s1, Inr stage) \<Rightarrow>
            (case body token stage s1 of (s2, r) \<Rightarrow>
               (fst (la_release api s2 (li_repository_id i) (li_operation i) token), r))))"

text \<open>
  Several repositories: one lease nested in the other, in ascending order of id. \<open>tokens\<close> supplies the
  fresh token of each level; \<open>renew_all\<close> renews the sessions pushed so far.
\<close>

definition lease_order :: "ident list \<Rightarrow> ident list" where
  "lease_order ids = sort (remdups ids)"

fun renew_all :: "'s lease_api \<Rightarrow> (lease_input \<times> string) list \<Rightarrow> time \<Rightarrow> 's \<Rightarrow> 's \<times> (lease_failure + unit)" where
  "renew_all api [] now s = (s, Inr ())"
| "renew_all api ((i, token) # sessions) now s =
    (case session_renew api i token now s of
       (t, Inl e) \<Rightarrow> (t, Inl e)
     | (t, Inr _) \<Rightarrow> renew_all api sessions now t)"

fun acquire_all ::
  "'s lease_api \<Rightarrow> (ident \<Rightarrow> 's lease_world) \<Rightarrow> lease_input \<Rightarrow> (ident \<Rightarrow> string) \<Rightarrow> ident list
   \<Rightarrow> (lease_input \<times> string) list
   \<Rightarrow> ((lease_input \<times> string) list \<Rightarrow> 's \<Rightarrow> 's \<times> (lease_failure + 'a)) \<Rightarrow> 's \<Rightarrow> 's \<times> (lease_failure + 'a)" where
  "acquire_all api w i tokens [] sessions body s = body sessions s"
| "acquire_all api w i tokens (r # rs) sessions body s =
    (let ir = i\<lparr>li_repository_id := r, li_subject_worktree_id := None\<rparr> in
     with_operation_lease api (w r) ir (tokens r)
       (\<lambda>token _ s. acquire_all api w i tokens rs (sessions @ [(ir, token)]) body s) s)"

definition with_operation_leases ::
  "'s lease_api \<Rightarrow> (ident \<Rightarrow> 's lease_world) \<Rightarrow> lease_input \<Rightarrow> (ident \<Rightarrow> string) \<Rightarrow> ident list
   \<Rightarrow> ((lease_input \<times> string) list \<Rightarrow> 's \<Rightarrow> 's \<times> (lease_failure + 'a)) \<Rightarrow> 's \<Rightarrow> 's \<times> (lease_failure + 'a)" where
  "with_operation_leases api w i tokens repository_ids body s =
    (let ordered = lease_order repository_ids in
     if ordered = [] then (s, Inl (Lease_Failure Type_Error))
     else acquire_all api w i tokens ordered [] body s)"

text \<open>The SQLite store behind the interface.\<close>

definition sql_leases :: "db lease_api" where
  "sql_leases = \<lparr> la_acquire = acquire_operation_lease, la_renew = renew_operation_lease,
     la_advance = advance_operation_lease, la_release = release_operation_lease, la_list = repository_leases \<rparr>"

section \<open>The contract of a lease store\<close>

locale lease_store =
  fixes api :: "'s lease_api" and rows :: "'s \<Rightarrow> op_lease_row list"
  assumes acquired: "la_acquire api s q now = Inr (t, Acquired row stage) \<Longrightarrow>
      rows t = filter (\<lambda>l. ol_repository_id l \<noteq> lr_repository_id q) (rows s) @ [row] \<and>
      lease_row_matches (lr_repository_id q) (lr_operation q) (lr_token q) row"
    and evicts: "la_acquire api s q now = Inr (t, Acquired row stage) \<Longrightarrow> l \<in> set (rows s) \<Longrightarrow>
      ol_repository_id l = lr_repository_id q \<Longrightarrow>
      ol_expires_at l \<le> now \<and> lr_adopt q \<and> (\<forall>v. lr_liveness q = Some v \<longrightarrow> v (holder_of l) = Gone)"
    and refused: "la_acquire api s q now = Inr (t, res) \<Longrightarrow> (\<And>row stage. res \<noteq> Acquired row stage) \<Longrightarrow> t = s"
    and released: "rows (fst (la_release api s r operation token)) =
      filter (\<lambda>l. \<not> lease_row_matches r operation token l) (rows s)"
    and listed: "set (la_list api s r) = holder_of ` {l \<in> set (rows s). ol_repository_id l = r}"
begin

text \<open>Nobody holds the lease \<open>token\<close> of \<open>r\<close>.\<close>

definition unheld :: "ident \<Rightarrow> repository_operation \<Rightarrow> string \<Rightarrow> 's \<Rightarrow> bool" where
  "unheld r operation token s \<longleftrightarrow> (\<forall>l\<in>set (rows s). \<not> lease_row_matches r operation token l)"

lemma unheld_release: "unheld r operation token (fst (la_release api s r operation token))"
  by (simp add: unheld_def released)

lemma unheld_release_other: "unheld r operation token s \<Longrightarrow> unheld r operation token (fst (la_release api s r' op' tok'))"
  by (auto simp: unheld_def released)

text \<open>
  What an acquisition did: when it fails, only the surroundings changed the store; when it succeeds, one
  attempt \<open>k\<close> succeeded on a state \<open>s1\<close> that only the surroundings had changed since the start.
\<close>

lemma acquire_lease_result:
  assumes env: "\<And>n s. P s \<Longrightarrow> P (lw_env w n s)"
  shows "P s \<Longrightarrow> acquire_lease api w i owner token fuel n refusal s = (t, res) \<Longrightarrow>
    (case res of Inl _ \<Rightarrow> P t
     | Inr stage \<Rightarrow> \<exists>k s0 s1 measured row. n \<le> k \<and> k < n + fuel \<and>
         measure_holders (lw_read w k) (li_host_id i) (lw_now w k) (la_list api s0 (li_repository_id i)) = Inr measured \<and>
         P s1 \<and> la_acquire api s1 (attempt_request i owner token measured) (lw_now w k) = Inr (t, Acquired row stage))"
proof (induction fuel arbitrary: n refusal s)
  case 0
  then show ?case by auto
next
  case (Suc fuel)
  show ?case
  proof (cases "measure_holders (lw_read w n) (li_host_id i) (lw_now w n) (la_list api s (li_repository_id i))")
    case (Inl e)
    with Suc.prems env show ?thesis by auto
  next
    case (Inr measured)
    define s1 where "s1 = (if measured = [] then s else lw_env w n s)"
    have P1: "P s1" using Suc.prems(1) env by (simp add: s1_def)
    show ?thesis
    proof (cases "la_acquire api s1 (attempt_request i owner token measured) (lw_now w n)")
      case (Inl e)
      with Suc.prems Inr P1 show ?thesis by (auto simp: Let_def s1_def [symmetric])
    next
      case r: (Inr p)
      obtain s2 res2 where p: "p = (s2, res2)" by (cases p)
      show ?thesis
      proof (cases "\<exists>row stage. res2 = Acquired row stage")
        case True
        then obtain row stage where a: "res2 = Acquired row stage" by blast
        with Suc.prems(2) Inr r p have "t = s2 \<and> res = Inr stage" by (simp add: Let_def s1_def [symmetric])
        with r p a P1 Inr show ?thesis by (auto intro!: exI [of _ n])
      next
        case False
        then have s2: "s2 = s1" using refused [of s1 _ _ s2 res2] r p by blast
        have step: "acquire_lease api w i owner token (Suc fuel) n refusal s =
          (if was_raced measured (lw_now w n) res2 then acquire_lease api w i owner token fuel (Suc n) (Some res2) s1
           else (s1, Inl (conflict_from (li_repository_id i) (li_operation i) (Some res2))))"
          using Inr r p False s2 by (cases res2) (simp_all add: Let_def s1_def [symmetric])
        show ?thesis
        proof (cases "was_raced measured (lw_now w n) res2")
          case True
          with step Suc.prems(2) have "acquire_lease api w i owner token fuel (Suc n) (Some res2) s1 = (t, res)" by simp
          from Suc.IH [OF P1 this] show ?thesis by (auto split: sum.splits) (metis Suc_leD add_Suc_right add_Suc)
        next
          case False
          with step Suc.prems(2) P1 show ?thesis by auto
        qed
      qed
    qed
  qed
qed

lemma acquire_lease_Inl:
  assumes "\<And>n s. P s \<Longrightarrow> P (lw_env w n s)" and "P s" and "acquire_lease api w i owner token fuel n refusal s = (t, Inl e)"
  shows "P t"
  using acquire_lease_result [of P w, OF assms] by simp

lemma acquire_lease_Inr:
  assumes "\<And>n s. P s \<Longrightarrow> P (lw_env w n s)" and "P s" and "acquire_lease api w i owner token fuel n refusal s = (t, Inr stage)"
  obtains k s0 s1 measured row where "n \<le> k" "k < n + fuel"
    "measure_holders (lw_read w k) (li_host_id i) (lw_now w k) (la_list api s0 (li_repository_id i)) = Inr measured"
    "P s1" "la_acquire api s1 (attempt_request i owner token measured) (lw_now w k) = Inr (t, Acquired row stage)"
  using acquire_lease_result [of P w, OF assms] by auto

text \<open>Whoever an acquisition displaces was measured dead on this very host.\<close>

lemma measured_liveness:
  "measure_holders read host now hs = Inr measured \<Longrightarrow> (h, v) \<in> set measured \<Longrightarrow> liveness_of read h host = Inr v"
  by (induction read host now hs arbitrary: measured rule: measure_holders.induct) (auto split: if_splits sum.splits)

definition provably_dead :: "(int \<Rightarrow> store_error + string option) \<Rightarrow> string \<Rightarrow> op_lease_row \<Rightarrow> bool" where
  "provably_dead read host l \<longleftrightarrow> ol_host_id l = host \<and>
    (\<exists>a. read (ol_pid l) = Inr a \<and> (\<forall>start. a = Some start \<longrightarrow> start = [] \<or> start \<noteq> ol_process_start_time l))"

lemma gone_dead: "liveness_of read (holder_of l) host = Inr Gone \<Longrightarrow> provably_dead read host l"
  by (auto simp: liveness_of_def provably_dead_def read_process_start_identity_def
      split: if_splits sum.splits option.splits)

lemma liveness_same_holder:
  "is_same_holder h k \<Longrightarrow> liveness_of read h host = liveness_of read k host"
  unfolding is_same_holder_def liveness_of_def by (elim conjE) (simp only:)

lemma displaced_dead:
  assumes m: "measure_holders read host now hs = Inr measured" and g: "owner_liveness measured (holder_of l) = Gone"
  shows "provably_dead read host l"
proof -
  from g obtain h where "find (\<lambda>(h, v). is_same_holder h (holder_of l)) measured = Some (h, Gone)"
    by (auto simp: owner_liveness_def split: option.splits)
  then have "(h, Gone) \<in> set measured" "is_same_holder h (holder_of l)"
    by (auto simp: find_Some_iff) (metis nth_mem)
  with measured_liveness [OF m] liveness_same_holder show ?thesis by (metis gone_dead)
qed

text \<open>The states other processes can make of the store while this one waits.\<close>

definition meanwhile :: "'s lease_world \<Rightarrow> 's \<Rightarrow> 's \<Rightarrow> bool" where
  "meanwhile w = (\<lambda>x y. \<exists>n. y = lw_env w n x)\<^sup>*\<^sup>*"

lemma acquire_lease_displaces_dead:
  assumes "acquire_lease api w i owner token fuel n refusal s = (t, Inr stage)"
  shows "\<exists>k s1 q row. n \<le> k \<and> k < n + fuel \<and> meanwhile w s s1 \<and>
    la_acquire api s1 q (lw_now w k) = Inr (t, Acquired row stage) \<and>
    rows t = filter (\<lambda>l. ol_repository_id l \<noteq> li_repository_id i) (rows s1) @ [row] \<and>
    lease_row_matches (li_repository_id i) (li_operation i) token row \<and>
    (\<forall>l\<in>set (rows s1). ol_repository_id l = li_repository_id i \<longrightarrow>
       li_adopt i \<and> ol_expires_at l \<le> lw_now w k \<and> provably_dead (lw_read w k) (li_host_id i) l)"
proof -
  have env: "meanwhile w s (lw_env w n x)" if "meanwhile w s x" for n x
    using that unfolding meanwhile_def by (rule rtranclp.rtrancl_into_rtrancl) blast
  have refl: "meanwhile w s s" by (simp add: meanwhile_def)
  obtain k s0 s1 measured row where k: "n \<le> k" "k < n + fuel" "meanwhile w s s1"
    and m: "measure_holders (lw_read w k) (li_host_id i) (lw_now w k) (la_list api s0 (li_repository_id i)) = Inr measured"
    and a: "la_acquire api s1 (attempt_request i owner token measured) (lw_now w k) = Inr (t, Acquired row stage)"
    by (rule acquire_lease_Inr [of "meanwhile w s" w, OF env refl assms]) simp_all
  show ?thesis
    using k a acquired [OF a] evicts [OF a] displaced_dead [OF m]
    by (intro exI [of _ k] exI [of _ s1] exI [of _ "attempt_request i owner token measured"] exI [of _ row])
      (simp add: attempt_request_def)
qed

section \<open>Brackets over an abstract store\<close>

lemma acquire_lease_unheld:
  assumes env: "\<And>n s. unheld r operation tok s \<Longrightarrow> unheld r operation tok (lw_env w n s)"
    and s: "unheld r operation tok s"
    and a: "acquire_lease api w i owner token fuel n refusal s = (t, res)"
    and other: "(\<exists>e. res = Inl e) \<or> r \<noteq> li_repository_id i"
  shows "unheld r operation tok t"
proof (cases res)
  case (Inl e)
  from acquire_lease_Inl [of "unheld r operation tok" w, OF env s a [unfolded Inl]] show ?thesis .
next
  case (Inr stage)
  with other have r: "r \<noteq> li_repository_id i" by simp
  obtain k s0 s1 measured row where "unheld r operation tok s1"
    and a: "la_acquire api s1 (attempt_request i owner token measured) (lw_now w k) = Inr (t, Acquired row stage)"
    by (rule acquire_lease_Inr [of "unheld r operation tok" w, OF env s a [unfolded Inr]]) simp_all
  with acquired [OF a] r show ?thesis by (auto simp: unheld_def attempt_request_def lease_row_matches_def)
qed

text \<open>However the body ends, the lease is gone afterwards; so is it when it was never acquired.\<close>

lemma with_lease_unheld:
  assumes env: "\<And>n s. unheld (li_repository_id i) (li_operation i) token s \<Longrightarrow>
      unheld (li_repository_id i) (li_operation i) token (lw_env w n s)"
    and s: "unheld (li_repository_id i) (li_operation i) token s"
    and b: "with_operation_lease api w i token body s = (t, r)"
  shows "unheld (li_repository_id i) (li_operation i) token t"
proof -
  have *: "unheld (li_repository_id i) (li_operation i) token s1"
    if "acquire_lease api w i owner token fuel n refusal s = (s1, Inl e)" for owner fuel n refusal s1 e
    using acquire_lease_unheld [OF env s that] by blast
  from b s show ?thesis
    unfolding with_operation_lease_def by (auto split: sum.splits option.splits prod.splits intro: * unheld_release)
qed

text \<open>With nested leases, every level is released, whatever the body did to the store.\<close>

lemma acquire_all_unheld:
  assumes env: "\<And>r rw n s. unheld r (li_operation i) (tokens r) s \<Longrightarrow> unheld r (li_operation i) (tokens r) (lw_env (w rw) n s)"
    and "distinct rs" and "\<forall>r\<in>set rs. unheld r (li_operation i) (tokens r) s"
    and "acquire_all api w i tokens rs sessions body s = (t, res)"
  shows "\<forall>r\<in>set rs. unheld r (li_operation i) (tokens r) t"
  using assms(2-)
proof (induction rs arbitrary: sessions s t res)
  case Nil
  then show ?case by simp
next
  case (Cons r rs)
  let ?i = "i\<lparr>li_repository_id := r, li_subject_worktree_id := None\<rparr>"
  let ?op = "li_operation i"
  let ?body = "\<lambda>token _ s. acquire_all api w i tokens rs (sessions @ [(?i, token)]) body s"
  from Cons.prems(3) have b: "with_operation_lease api (w r) ?i (tokens r) ?body s = (t, res)" by (simp add: Let_def)
  have "unheld r ?op (tokens r) t"
    using with_lease_unheld [OF _ _ b] env Cons.prems(2) by simp
  moreover have "unheld q ?op (tokens q) t" if q: "q \<in> set rs" for q
  proof -
    have qs: "unheld q ?op (tokens q) s" "q \<noteq> r" using Cons.prems q by auto
    have acq: "unheld q ?op (tokens q) s1"
      if "acquire_lease api (w r) ?i owner (tokens r) fuel n refusal s = (s1, x)" for owner fuel n refusal s1 x
      by (rule acquire_lease_unheld [OF _ qs(1) that]) (use env qs in simp_all)
    have all: "\<forall>r\<in>set rs. unheld r ?op (tokens r) s1"
      if "acquire_lease api (w r) ?i owner (tokens r) fuel n refusal s = (s1, x)" for owner fuel n refusal s1 x
      by (intro ballI acquire_lease_unheld [OF _ _ that]) (use env Cons.prems in auto)
    have inner: "unheld q ?op (tokens q) s2"
      if "acquire_lease api (w r) ?i owner (tokens r) fuel n refusal s = (s1, x)"
        "acquire_all api w i tokens rs sessions' body s1 = (s2, y)" for owner fuel n refusal s1 x sessions' s2 y
      using Cons.IH [OF _ all [OF that(1)] that(2)] Cons.prems(1) q by simp
    from b qs(1) show ?thesis
      unfolding with_operation_lease_def
      by (auto split: sum.splits option.splits prod.splits intro: acq inner unheld_release_other)
  qed
  ultimately show ?case by simp
qed

end

section \<open>The SQLite store keeps the contract\<close>

lemma sql_leases_simps [simp]:
  "la_acquire sql_leases = acquire_operation_lease" "la_renew sql_leases = renew_operation_lease"
  "la_advance sql_leases = advance_operation_lease" "la_release sql_leases = release_operation_lease"
  "la_list sql_leases = repository_leases"
  by (simp_all add: sql_leases_def)

interpretation sql: lease_store sql_leases op_leases
proof (unfold_locales, unfold sql_leases_simps)
  fix s q now t row stage
  assume a: "acquire_operation_lease s q now = Inr (t, Acquired row stage)"
  then show "op_leases t = filter (\<lambda>l. ol_repository_id l \<noteq> lr_repository_id q) (op_leases s) @ [row] \<and>
      lease_row_matches (lr_repository_id q) (lr_operation q) (lr_token q) row"
    by (cases rule: acquire_cases) (auto simp: lease_row_matches_def)
  fix l assume l: "l \<in> set (op_leases s)" "ol_repository_id l = lr_repository_id q"
  then have "holder_of l \<in> set (repository_leases s (lr_repository_id q))" by (auto simp: set_repository_leases)
  with a show "ol_expires_at l \<le> now \<and> lr_adopt q \<and> (\<forall>v. lr_liveness q = Some v \<longrightarrow> v (holder_of l) = Gone)"
    by (cases rule: acquire_cases) (fastforce simp: reclaimable_holder_def lease_expired_def)+
next
  fix s q now t res assume "acquire_operation_lease s q now = Inr (t, res)" "\<And>row stage. res \<noteq> Acquired row stage"
  then show "t = s" by (cases rule: acquire_cases) auto
qed (simp_all add: release_operation_lease_def del_where_def Let_def set_repository_leases)

section \<open>Properties\<close>

text \<open>
  C19. Only the dead are displaced: when \<open>acquireLease\<close> succeeds, whatever other processes did to the
  store while it was measuring, every lease the successful attempt found in the repository had expired, the
  caller had asked to adopt, and its owner was on this host and answered as absent or as another process
  of the same PID.
\<close>

theorem adoption_needs_proof_of_death:
  assumes "acquire_lease sql_leases w i owner token max_acquisition_attempts 0 None s = (t, Inr stage)"
  shows "\<exists>k s1 q row. k < max_acquisition_attempts \<and> (\<lambda>x y. \<exists>n. y = lw_env w n x)\<^sup>*\<^sup>* s s1
    \<and> acquire_operation_lease s1 q (lw_now w k) = Inr (t, Acquired row stage)
    \<and> lease_row_matches (li_repository_id i) (li_operation i) token row
    \<and> (\<forall>l\<in>set (op_leases s1). ol_repository_id l = li_repository_id i \<longrightarrow>
        li_adopt i \<and> ol_expires_at l \<le> lw_now w k \<and> ol_host_id l = li_host_id i
        \<and> (\<exists>answer. lw_read w k (ol_pid l) = Inr answer
             \<and> (\<forall>start. answer = Some start \<longrightarrow> start = [] \<or> start \<noteq> ol_process_start_time l)))"
  using sql.acquire_lease_displaces_dead [OF assms]
  unfolding sql.provably_dead_def sql.meanwhile_def sql_leases_simps by auto

definition demo_world :: "db lease_world" where
  "demo_world = \<lparr> lw_pid = Whole 42, lw_read = (\<lambda>_ pid. Inr (if pid = 42 then Some ''t1'' else None)),
     lw_env = (\<lambda>_ s. s), lw_now = (\<lambda>_. 200) \<rparr>"

definition demo_lease_input :: lease_input where
  "demo_lease_input = \<lparr> li_host_id = ''h'', li_repository_id = ''r1'', li_operation = Op_Gc,
     li_subject_worktree_id = None, li_adopt = True, li_ttl_ms = None \<rparr>"

definition demo_renewed_lease :: op_lease_row where
  "demo_renewed_lease = (demo_lease Op_Gc ''b'' 200)\<lparr>ol_process_start_time := ''t1'', ol_expires_at := 120200\<rparr>"

text \<open>
  The old row of PID 42 started at \<open>t0\<close>; the process of that PID now started at \<open>t1\<close>. The caller names no TTL, so
  the new lease runs for the two minutes of the default.
\<close>

lemma demo_acquire_lease:
  "acquire_lease sql_leases demo_world demo_lease_input (42, ''t1'') ''b'' max_acquisition_attempts 0 None (demo_leased Op_Gc ''a'' 10) =
    (demo_repo_db\<lparr>op_leases := [demo_renewed_lease]\<rparr>, Inr None)"
  by (simp add: max_acquisition_attempts_def numeral_2_eq_2 demo_world_def demo_lease_input_def demo_lease_defs
      demo_renewed_lease_def acquire_operation_lease_def lease_expiry_def last_date_def lease_ttl_ms_def
      default_operation_lease_ttl_ms_def assert_no_heavy_jobs_def repository_leases_def
      forget_holders_def coalesce_def holder_of_def lease_expired_def max_safe_integer_def Let_def liveness_of_def
      read_process_start_identity_def attempt_request_def owner_liveness_def is_same_holder_def)

lemma adoption_needs_proof_of_death_witness:
  "\<exists>q row. acquire_operation_lease (demo_leased Op_Gc ''a'' 10) q 200 =
     Inr (demo_repo_db\<lparr>op_leases := [demo_renewed_lease]\<rparr>, Acquired row None) \<and> ol_token row = ''b''"
proof -
  have still: "s1 = demo_leased Op_Gc ''a'' 10"
    if "(\<lambda>x y. \<exists>n. y = lw_env demo_world n x)\<^sup>*\<^sup>* (demo_leased Op_Gc ''a'' 10) s1" for s1
    using that by (induction rule: rtranclp_induct) (simp_all add: demo_world_def)
  from adoption_needs_proof_of_death [OF demo_acquire_lease] still show ?thesis
    by (auto simp: lease_row_matches_def demo_world_def)
qed

text \<open>
  No lease leaks: if nobody else uses the bracket's fresh token, then after \<open>withRepositoryOperationLease\<close>
  returned or threw, at whatever point, and whatever its body did, no lease row with that token is left.
\<close>

theorem lease_never_leaks:
  assumes "\<And>n s. \<forall>l\<in>set (op_leases s). \<not> lease_row_matches (li_repository_id i) (li_operation i) token l \<Longrightarrow>
      \<forall>l\<in>set (op_leases (lw_env w n s)). \<not> lease_row_matches (li_repository_id i) (li_operation i) token l"
    and "\<forall>l\<in>set (op_leases s). \<not> lease_row_matches (li_repository_id i) (li_operation i) token l"
    and "with_operation_lease sql_leases w i token body s = (t, r)"
  shows "\<forall>l\<in>set (op_leases t). \<not> lease_row_matches (li_repository_id i) (li_operation i) token l"
  using sql.with_lease_unheld [unfolded sql.unheld_def, OF assms] .

lemma lease_never_leaks_witness:
  "{l \<in> set (op_leases (fst (with_operation_lease sql_leases demo_world demo_lease_input ''b'' (\<lambda>token stage s. (s, Inr stage)) demo_repo_db))).
     lease_row_matches ''r1'' Op_Gc ''b'' l} = {}"
proof -
  have "\<forall>l\<in>set (op_leases (fst (with_operation_lease sql_leases demo_world demo_lease_input ''b'' (\<lambda>token stage s. (s, Inr stage)) demo_repo_db))).
     \<not> lease_row_matches ''r1'' Op_Gc ''b'' l"
    by (rule lease_never_leaks [of demo_lease_input "''b''" demo_world demo_repo_db "\<lambda>token stage s. (s, Inr stage)",
        simplified demo_lease_input_def lease_input.simps, folded demo_lease_input_def])
      (simp_all add: demo_world_def demo_repo_db_def empty_db_def prod_eq_iff)
  then show ?thesis by blast
qed

text \<open>
  C27. Nested leases all go: \<open>withRepositoryOperationLeases\<close> works through the distinct ids in ascending
  order, and when it is over, whether every repository was acquired or one of them was refused half-way, and
  whatever the body did to the store, none of the leases with its tokens is left. The tokens are fresh: no row
  has one of them at the start, and no other process writes a row with one while an acquisition awaits.
\<close>

theorem nested_leases_never_leak:
  assumes "\<And>r q n s. \<forall>l\<in>set (op_leases s). \<not> lease_row_matches r (li_operation i) (tokens r) l \<Longrightarrow>
      \<forall>l\<in>set (op_leases (lw_env (w q) n s)). \<not> lease_row_matches r (li_operation i) (tokens r) l"
    and "\<forall>r\<in>set ids. \<forall>l\<in>set (op_leases s). \<not> lease_row_matches r (li_operation i) (tokens r) l"
    and "with_operation_leases sql_leases w i tokens ids body s = (t, res)"
  shows "sorted_wrt (<) (lease_order ids) \<and> set (lease_order ids) = set ids
    \<and> (\<forall>r\<in>set ids. \<forall>l\<in>set (op_leases t). \<not> lease_row_matches r (li_operation i) (tokens r) l)"
proof -
  have order: "sorted_wrt (<) (lease_order ids)" "set (lease_order ids) = set ids" "distinct (lease_order ids)"
    by (simp_all add: lease_order_def strict_sorted_iff)
  have "\<forall>r\<in>set (lease_order ids). sql.unheld r (li_operation i) (tokens r) t"
  proof (cases "lease_order ids = []")
    case False
    with assms(3) have "acquire_all sql_leases w i tokens (lease_order ids) [] body s = (t, res)"
      by (simp add: with_operation_leases_def Let_def)
    from sql.acquire_all_unheld [OF _ order(3) _ this] assms(1,2) order(2) show ?thesis
      unfolding sql.unheld_def by simp
  qed simp
  with order show ?thesis by (simp add: sql.unheld_def)
qed

lemma nested_leases_never_leak_witness:
  "{l \<in> set (op_leases (fst (with_operation_leases sql_leases (\<lambda>_. demo_world) demo_lease_input (\<lambda>_. ''b'') [''r2'', ''r1'', ''r2'']
     (\<lambda>sessions s. (s, Inr ())) demo_repo_db))). lease_row_matches ''r2'' Op_Gc ''b'' l} = {}"
proof -
  have "sorted_wrt (<) (lease_order [''r2'', ''r1'', ''r2'']) \<and> set (lease_order [''r2'', ''r1'', ''r2'']) = set [''r2'', ''r1'', ''r2''] \<and>
    (\<forall>r\<in>set [''r2'', ''r1'', ''r2'']. \<forall>l\<in>set (op_leases (fst (with_operation_leases sql_leases (\<lambda>_. demo_world) demo_lease_input (\<lambda>_. ''b'')
      [''r2'', ''r1'', ''r2''] (\<lambda>sessions s. (s, Inr ())) demo_repo_db))). \<not> lease_row_matches r (li_operation demo_lease_input) ''b'' l)"
    by (rule nested_leases_never_leak) (auto simp: demo_world_def demo_repo_db_def empty_db_def prod_eq_iff)
  then show ?thesis by (auto simp: demo_lease_input_def)
qed

text \<open>
  Refusals are honest: a conflict error quotes a stage only for an abandoned lease, and offers
  \<open>--resume\<close> only when the abandoned lease is of the caller's own operation and that operation has such
  a flag (\<open>remove\<close> and \<open>create\<close>).
\<close>

theorem conflict_report:
  "(\<forall>d. conflict_from r op refusal = Operation_Conflict d \<longrightarrow>
      cd_operation d = op \<and> cd_repository_id d = r
      \<and> (cd_stage d \<noteq> None \<longrightarrow> cd_abandoned d)
      \<and> cd_remediation d = (if cd_abandoned d \<and> cd_holder_operation d = op \<and> (op = Op_Remove \<or> op = Op_Create)
          then [[''wtm'', operation_text op, ''--resume'']] else []))
   \<and> (\<forall>h. refusal = Some (Conflict h) \<or> refusal = Some (Abandoned h) \<longrightarrow>
        (\<exists>d. conflict_from r op refusal = Operation_Conflict d \<and> cd_holder_operation d = lh_operation h
           \<and> cd_holder_pid d = lh_pid h \<and> (cd_abandoned d \<longleftrightarrow> refusal = Some (Abandoned h))))"
  by (auto simp: conflict_from_def Let_def resumable_operations_def split: option.splits lease_result.splits)

lemma conflict_report_witness:
  "\<exists>d. conflict_from ''r1'' Op_Gc (Some (Abandoned (holder_of (demo_lease Op_Gc ''a'' 10)))) = Operation_Conflict d
     \<and> cd_remediation d = [] \<and> cd_abandoned d"
  using conflict_report [of "''r1''" Op_Gc "Some (Abandoned (holder_of (demo_lease Op_Gc ''a'' 10)))"] by auto

end
