(* ===== verification/Endpoint_Store.thy ===== *)
theory Endpoint_Store
  imports Store_Types
begin

text \<open>
  Endpoint leases (\<open>packages/core/src/state/sqlite-store.ts\<close>, \<open>runtime/endpoint-batch.ts\<close>): the ports
  handed to worktrees. An allocation keeps a compatible lease, otherwise offers the preferred port and
  then the range in order, steps over ports leased to others, and asks a probe about at most 256 of them.
\<close>

section \<open>Definitions\<close>

text \<open>
  A probe answers one candidate at a time, or a whole batch by position; a batch answer that is not an
  array of booleans is \<open>None\<close>.
\<close>

datatype endpoint_probe =
    Single_Probe "endpoint_candidate \<Rightarrow> bool"
  | Batch_Probe "endpoint_candidate list \<Rightarrow> bool list option"

definition max_endpoint_batch_candidates :: nat where
  "max_endpoint_batch_candidates = 256"

definition valid_endpoint_batch_results :: "bool list option \<Rightarrow> nat \<Rightarrow> bool" where
  "valid_endpoint_batch_results results count = (case results of None \<Rightarrow> False | Some rs \<Rightarrow> length rs = count)"

fun whole_between :: "int \<Rightarrow> int \<Rightarrow> jsnum \<Rightarrow> bool" where
  "whole_between lo hi (Whole n) \<longleftrightarrow> lo \<le> n \<and> n \<le> hi"
| "whole_between lo hi Not_Whole \<longleftrightarrow> False"

definition validate_endpoint_request :: "endpoint_request \<Rightarrow> store_error + unit" where
  "validate_endpoint_request q =
    (let lo = pr_min (er_port_range q); hi = pr_max (er_port_range q) in
     if lo = Not_Whole \<or> hi = Not_Whole \<or> whole lo < 1 \<or> whole hi > 65535 \<or> whole lo > whole hi
     then Inl Range_Error
     else if (case er_preferred_port q of None \<Rightarrow> False | Some p \<Rightarrow> \<not> whole_between 1 65535 p)
     then Inl Range_Error
     else if er_name q = [] then Inl Type_Error
     else if er_host q = [] then Inl Type_Error
     else Inr ())"

definition candidate_ports :: "endpoint_request \<Rightarrow> int list" where
  "candidate_ports q =
    (let lo = whole (pr_min (er_port_range q)); hi = whole (pr_max (er_port_range q));
         preferred = map_option whole (er_preferred_port q)
     in (case preferred of Some p \<Rightarrow> if lo \<le> p \<and> p \<le> hi then [p] else [] | None \<Rightarrow> [])
        @ filter (\<lambda>port. Some port \<noteq> preferred) [lo..hi])"

definition port_taken :: "db \<Rightarrow> endpoint_protocol \<Rightarrow> ident option \<Rightarrow> int \<Rightarrow> bool" where
  "port_taken s protocol own_id port = exists_where (\<lambda>r. ep_protocol r = protocol \<and> ep_port r = port
     \<and> ep_state r = EP_ACTIVE \<and> Some (ep_id r) \<noteq> own_id) (endpoint_leases s)"

definition candidate :: "endpoint_request \<Rightarrow> int \<Rightarrow> endpoint_candidate" where
  "candidate q port = \<lparr> ec_protocol = er_protocol q, ec_host = er_host q, ec_port = port \<rparr>"

text \<open>\<open>candidates.find\<close> with its two counters; the second result is \<open>exhausted\<close>.\<close>

fun search_single :: "(int \<Rightarrow> bool) \<Rightarrow> (int \<Rightarrow> bool) option \<Rightarrow> nat \<Rightarrow> int list \<Rightarrow> int option \<times> bool" where
  "search_single taken probe probed [] = (None, False)"
| "search_single taken probe probed (c # cs) =
    (if taken c then search_single taken probe probed cs
     else case probe of
       None \<Rightarrow> (Some c, False)
     | Some free \<Rightarrow>
         if probed \<ge> max_endpoint_batch_candidates then (None, True)
         else if free c then (Some c, False)
         else search_single taken probe (Suc probed) cs)"

text \<open>The ports offered to a batch probe; the second result is \<open>exhausted\<close>.\<close>

fun offer_ports :: "(int \<Rightarrow> bool) \<Rightarrow> int list \<Rightarrow> int list \<Rightarrow> int list \<times> bool" where
  "offer_ports taken offered [] = (offered, False)"
| "offer_ports taken offered (c # cs) =
    (if c \<in> set offered then offer_ports taken offered cs
     else if taken c then offer_ports taken offered cs
     else if length offered \<ge> max_endpoint_batch_candidates then (offered, True)
     else offer_ports taken (offered @ [c]) cs)"

definition first_accepted :: "int list \<Rightarrow> bool list \<Rightarrow> int option" where
  "first_accepted offered results = map_option fst (find snd (zip offered results))"

definition search_port ::
  "endpoint_request \<Rightarrow> endpoint_probe option \<Rightarrow> (int \<Rightarrow> bool) \<Rightarrow> int option \<Rightarrow> int option \<times> bool" where
  "search_port q probe taken own_port = (case probe of
     Some (Batch_Probe batch) \<Rightarrow>
       (let (offered, exhausted) = offer_ports taken (case own_port of Some p \<Rightarrow> [p] | None \<Rightarrow> []) (candidate_ports q) in
        if offered = [] then (None, exhausted)
        else let results = batch (map (candidate q) offered) in
          if \<not> valid_endpoint_batch_results results (length offered) then (None, exhausted)
          else (first_accepted offered (the results), exhausted))
   | Some (Single_Probe free) \<Rightarrow> search_single taken (Some (\<lambda>p. free (candidate q p))) 0 (candidate_ports q)
   | None \<Rightarrow> search_single taken None 0 (candidate_ports q))"

definition compatible_lease :: "endpoint_request \<Rightarrow> endpoint_lease \<Rightarrow> bool" where
  "compatible_lease q r \<longleftrightarrow> ep_state r = EP_ACTIVE \<and> ep_protocol r = er_protocol q \<and> ep_host r = er_host q"

definition allocate_endpoint ::
  "db \<Rightarrow> endpoint_request \<Rightarrow> endpoint_probe option \<Rightarrow> ident \<Rightarrow> time \<Rightarrow> store_error + (db \<times> endpoint_lease)" where
  "allocate_endpoint s q probe new_id now =
    (case validate_endpoint_request q of Inl e \<Rightarrow> Inl e | Inr _ \<Rightarrow>
     if \<not> exists_where (\<lambda>w. wt_id w = er_worktree_id q) (worktrees s) then Inl (Plain_Error Unknown_Worktree)
     else let existing = find (\<lambda>r. ep_worktree_id r = er_worktree_id q \<and> ep_name r = er_name q) (endpoint_leases s);
              own = (case existing of Some r \<Rightarrow> if compatible_lease q r then Some r else None | None \<Rightarrow> None);
              keep = (case own of None \<Rightarrow> False | Some r \<Rightarrow> (case probe of
                 None \<Rightarrow> True | Some (Single_Probe free) \<Rightarrow> free (candidate q (ep_port r)) | Some (Batch_Probe _) \<Rightarrow> False))
          in if keep then Inr (s, the own)
          else (case search_port q probe (port_taken s (er_protocol q) (map_option ep_id existing)) (map_option ep_port own) of
             (None, exhausted) \<Rightarrow> Inl (Plain_Error (No_Endpoint exhausted))
           | (Some port, _) \<Rightarrow>
               if map_option ep_port own = Some port then Inr (s, the own)
               else (case existing of
                 Some r \<Rightarrow>
                   let r' = r\<lparr>ep_protocol := er_protocol q, ep_host := er_host q, ep_port := port,
                              ep_state := EP_ACTIVE, ep_allocated_at := now, ep_last_verified_at := now\<rparr>
                   in Inr (s\<lparr>endpoint_leases := upd_where (\<lambda>x. ep_id x = ep_id r) (\<lambda>_. r') (endpoint_leases s)\<rparr>, r')
               | None \<Rightarrow>
                   if exists_where (\<lambda>x. ep_id x = new_id) (endpoint_leases s) then Inl (Plain_Error Constraint_Violation)
                   else let r' = \<lparr> ep_id = new_id, ep_worktree_id = er_worktree_id q, ep_name = er_name q,
                          ep_protocol = er_protocol q, ep_host = er_host q, ep_port = port, ep_state = EP_ACTIVE,
                          ep_allocated_at = now, ep_last_verified_at = now \<rparr>
                   in Inr (s\<lparr>endpoint_leases := endpoint_leases s @ [r']\<rparr>, r'))))"

definition endpoint_query_matches :: "endpoint_query \<Rightarrow> endpoint_lease \<Rightarrow> bool" where
  "endpoint_query_matches q r \<longleftrightarrow>
     (case eq_worktree_ids q of None \<Rightarrow> True | Some ids \<Rightarrow> ep_worktree_id r \<in> set ids) \<and>
     (case eq_name q of None \<Rightarrow> True | Some n \<Rightarrow> ep_name r = n) \<and>
     (case eq_states q of None \<Rightarrow> True | Some states \<Rightarrow> ep_state r \<in> set states)"

definition list_endpoint_leases :: "db \<Rightarrow> endpoint_query \<Rightarrow> endpoint_lease list" where
  "list_endpoint_leases s q =
    sort_key (\<lambda>r. (ep_name r, ep_port r)) (filter (endpoint_query_matches q) (endpoint_leases s))"

definition release_endpoints_for_worktree :: "db \<Rightarrow> ident \<Rightarrow> time \<Rightarrow> db \<times> nat" where
  "release_endpoints_for_worktree s worktree_id released_at =
    (let P = (\<lambda>r. ep_worktree_id r = worktree_id \<and> ep_state r = EP_ACTIVE) in
     (s\<lparr>endpoint_leases := upd_where P (\<lambda>r. r\<lparr>ep_state := EP_RELEASED, ep_last_verified_at := released_at\<rparr>)
        (endpoint_leases s)\<rparr>, count_where P (endpoint_leases s)))"

definition release_never_started_endpoints :: "db \<Rightarrow> ident list \<Rightarrow> time \<Rightarrow> db \<times> nat option" where
  "release_never_started_endpoints s worktree_ids released_at =
    (if worktree_ids = [] then (s, Some 0)
     else if exists_where (\<lambda>p. mp_worktree_id p \<in> set worktree_ids) (processes s) then (s, None)
     else let P = (\<lambda>r. ep_worktree_id r \<in> set worktree_ids \<and> ep_state r = EP_ACTIVE) in
       (s\<lparr>endpoint_leases := upd_where P (\<lambda>r. r\<lparr>ep_state := EP_RELEASED, ep_last_verified_at := released_at\<rparr>)
          (endpoint_leases s)\<rparr>, Some (count_where P (endpoint_leases s))))"

text \<open>The loop over the active leases of the source; the counter is \<open>reassigned\<close>.\<close>

fun reassign_loop :: "ident \<Rightarrow> endpoint_lease list \<Rightarrow> endpoint_lease list \<Rightarrow> nat \<Rightarrow> endpoint_lease list \<times> nat" where
  "reassign_loop to_id [] rows n = (rows, n)"
| "reassign_loop to_id (lease # leases) rows n =
    (case find (\<lambda>r. ep_worktree_id r = to_id \<and> ep_name r = ep_name lease) rows of
       Some r \<Rightarrow>
         if ep_state r = EP_ACTIVE then reassign_loop to_id leases rows n
         else reassign_loop to_id leases
           (upd_where (\<lambda>x. ep_id x = ep_id lease) (\<lambda>x. x\<lparr>ep_worktree_id := to_id\<rparr>)
              (del_where (\<lambda>x. ep_id x = ep_id r) rows)) (Suc n)
     | None \<Rightarrow> reassign_loop to_id leases
         (upd_where (\<lambda>x. ep_id x = ep_id lease) (\<lambda>x. x\<lparr>ep_worktree_id := to_id\<rparr>) rows) (Suc n))"

definition reassign_active_leases :: "db \<Rightarrow> ident \<Rightarrow> ident \<Rightarrow> db \<times> nat" where
  "reassign_active_leases s from_id to_id =
    (let (rows, n) = reassign_loop to_id
           (filter (\<lambda>r. ep_worktree_id r = from_id \<and> ep_state r = EP_ACTIVE) (endpoint_leases s)) (endpoint_leases s) 0
     in (s\<lparr>endpoint_leases := rows\<rparr>, n))"

text \<open>\<open>SELECT \<dots> JOIN repositories \<dots> ORDER BY path, id LIMIT 1\<close>.\<close>

definition endpoint_heir :: "db \<Rightarrow> worktree_row \<Rightarrow> ident \<Rightarrow> worktree_row option" where
  "endpoint_heir s w workspace_id =
    (case sort_key (\<lambda>c. (wt_path c, wt_id c)) (filter (\<lambda>c.
       exists_where (\<lambda>r. rp_id r = wt_repository_id c \<and> rp_workspace_id r = workspace_id) (repositories s) \<and>
       wt_branch c = wt_branch w \<and> wt_id c \<noteq> wt_id w \<and>
       wt_state c \<notin> {WT_ORPHANED, WT_CLEANING, WT_REMOVED, WT_DEGRADED_CLEANUP}) (worktrees s)) of
       [] \<Rightarrow> None | c # _ \<Rightarrow> Some c)"

definition release_or_hand_over :: "db \<Rightarrow> worktree_row \<Rightarrow> ident \<Rightarrow> db" where
  "release_or_hand_over s w workspace_id =
    (let s1 = (if wt_branch w = None then s
               else case endpoint_heir s w workspace_id of
                 None \<Rightarrow> s | Some c \<Rightarrow> fst (reassign_active_leases s (wt_id w) (wt_id c)))
     in s1\<lparr>endpoint_leases := upd_where (\<lambda>r. ep_worktree_id r = wt_id w \<and> ep_state r = EP_ACTIVE)
          (\<lambda>r. r\<lparr>ep_state := EP_RELEASED\<rparr>) (endpoint_leases s1)\<rparr>)"

section \<open>The table invariant\<close>

text \<open>
  The two unique indexes and the primary key, and the port bounds: no two active leases share a
  protocol and port, and a worktree has one row per name.
\<close>

definition endpoint_rows_ok :: "endpoint_lease list \<Rightarrow> bool" where
  "endpoint_rows_ok rows \<longleftrightarrow> distinct (map ep_id rows) \<and>
    (\<forall>a\<in>set rows. \<forall>b\<in>set rows. ep_worktree_id a = ep_worktree_id b \<and> ep_name a = ep_name b \<longrightarrow> a = b) \<and>
    (\<forall>a\<in>set rows. \<forall>b\<in>set rows. ep_state a = EP_ACTIVE \<and> ep_state b = EP_ACTIVE \<and>
       ep_protocol a = ep_protocol b \<and> ep_port a = ep_port b \<longrightarrow> a = b) \<and>
    (\<forall>r\<in>set rows. 1 \<le> ep_port r \<and> ep_port r \<le> 65535)"

definition endpoints_ok :: "db \<Rightarrow> bool" where
  "endpoints_ok s \<longleftrightarrow> endpoint_rows_ok (endpoint_leases s)"

section \<open>The search for a port\<close>

lemma candidate_ports_range:
  "set (candidate_ports q) = {whole (pr_min (er_port_range q))..whole (pr_max (er_port_range q))}"
  by (cases "er_preferred_port q") (auto simp: candidate_ports_def Let_def)

lemma validate_range:
  "validate_endpoint_request q = Inr u \<Longrightarrow> 1 \<le> whole (pr_min (er_port_range q)) \<and> whole (pr_max (er_port_range q)) \<le> 65535"
  by (auto simp: validate_endpoint_request_def Let_def split: if_splits)

lemma search_single_Some:
  "search_single taken probe n cs = (Some c, e) \<Longrightarrow>
    \<exists>pre post. cs = pre @ c # post \<and> \<not> taken c \<and> (\<forall>f. probe = Some f \<longrightarrow> f c) \<and>
      (\<forall>d\<in>set pre. taken d \<or> (\<exists>f. probe = Some f \<and> \<not> f d))"
proof (induction taken probe n cs rule: search_single.induct)
  case (1 taken probe probed)
  then show ?case by simp
next
  case (2 taken probe probed d cs)
  show ?case
  proof (cases "\<not> taken d \<and> (\<forall>f. probe = Some f \<longrightarrow> f d)")
    case True
    with "2.prems" have "c = d" by (auto split: option.splits if_splits)
    with True show ?thesis by (intro exI [of _ "[]"] exI [of _ cs]) auto
  next
    case False
    with 2 obtain pre post where "cs = pre @ c # post \<and> \<not> taken c \<and> (\<forall>f. probe = Some f \<longrightarrow> f c) \<and>
        (\<forall>d\<in>set pre. taken d \<or> (\<exists>f. probe = Some f \<and> \<not> f d))"
      by (auto split: if_splits option.splits)
    with False show ?thesis by (intro exI [of _ "d # pre"] exI [of _ post]) auto
  qed
qed

text \<open>A search that fails without being exhausted has seen every candidate taken or refused.\<close>

lemma search_single_None:
  "search_single taken probe n cs = (None, False) \<Longrightarrow> d \<in> set cs \<Longrightarrow> taken d \<or> (\<exists>f. probe = Some f \<and> \<not> f d)"
  by (induction taken probe n cs rule: search_single.induct) (auto split: option.splits if_splits)

lemma search_single_cut_off:
  "search_single taken (Some f) n cs = (None, True) \<Longrightarrow> n \<le> max_endpoint_batch_candidates \<Longrightarrow>
   (let open_ports = filter (\<lambda>c. \<not> taken c) cs in
    max_endpoint_batch_candidates < n + length open_ports \<and> (\<forall>c\<in>set (take (max_endpoint_batch_candidates - n) open_ports). \<not> f c))"
proof (induction cs arbitrary: n)
  case Nil
  then show ?case by simp
next
  case (Cons c cs)
  show ?case
  proof (cases "taken c")
    case True
    with Cons show ?thesis by simp
  next
    case free: False
    show ?thesis
    proof (cases "n = max_endpoint_batch_candidates")
      case True
      with free show ?thesis by simp
    next
      case False
      with Cons.prems(2) have n: "Suc n \<le> max_endpoint_batch_candidates" by simp
      from Cons.prems(1) free n have "\<not> f c" "search_single taken (Some f) (Suc n) cs = (None, True)" by (auto split: if_splits)
      moreover have "max_endpoint_batch_candidates - n = Suc (max_endpoint_batch_candidates - Suc n)" using n by simp
      ultimately show ?thesis using Cons.IH [of "Suc n"] free n by (simp add: Let_def)
    qed
  qed
qed

lemma candidate_ports_distinct: "distinct (candidate_ports q)"
  by (cases "er_preferred_port q") (auto simp: candidate_ports_def Let_def)

lemma offer_ports_free:
  "offer_ports taken acc cs = (offered, e) \<Longrightarrow>
    (\<forall>p\<in>set offered. p \<in> set acc \<or> p \<in> set cs \<and> \<not> taken p) \<and>
    (distinct acc \<longrightarrow> distinct offered) \<and>
    (length acc \<le> max_endpoint_batch_candidates \<longrightarrow> length offered \<le> max_endpoint_batch_candidates)"
  by (induction taken acc cs rule: offer_ports.induct) (auto split: if_splits)

lemma first_accepted_Some:
  "first_accepted offered results = Some p \<Longrightarrow> \<exists>i<length offered. i < length results \<and> offered ! i = p \<and> results ! i"
  by (auto simp: first_accepted_def find_Some_iff)

text \<open>What a found port is worth, whatever the probe.\<close>

lemma search_port_Some:
  assumes "search_port q probe taken own = (Some p, e)"
  shows "Some p = own \<or> p \<in> set (candidate_ports q) \<and> \<not> taken p"
proof -
  consider (batch) f where "probe = Some (Batch_Probe f)" | (other) fo where "search_single taken fo 0 (candidate_ports q) = (Some p, e)"
    using assms by (auto simp: search_port_def split: option.splits endpoint_probe.splits)
  then show ?thesis
  proof cases
    case batch
    obtain offered ex where o: "offer_ports taken (case own of Some p \<Rightarrow> [p] | None \<Rightarrow> []) (candidate_ports q) = (offered, ex)"
      by force
    with assms batch have "first_accepted offered (the (f (map (candidate q) offered))) = Some p"
      by (auto simp: search_port_def Let_def split: if_splits)
    then have "p \<in> set offered" by (auto dest: first_accepted_Some)
    with offer_ports_free [OF o] show ?thesis by (auto split: option.splits)
  next
    case other
    from search_single_Some [OF other] show ?thesis by auto
  qed
qed


section \<open>Every outcome of an allocation\<close>

abbreviation endpoint_row :: "db \<Rightarrow> endpoint_request \<Rightarrow> endpoint_lease option" where
  "endpoint_row s q \<equiv> find (\<lambda>r. ep_worktree_id r = er_worktree_id q \<and> ep_name r = er_name q) (endpoint_leases s)"

definition moved_lease :: "endpoint_request \<Rightarrow> int \<Rightarrow> time \<Rightarrow> endpoint_lease \<Rightarrow> endpoint_lease" where
  "moved_lease q port now r = r\<lparr>ep_protocol := er_protocol q, ep_host := er_host q, ep_port := port,
     ep_state := EP_ACTIVE, ep_allocated_at := now, ep_last_verified_at := now\<rparr>"

definition new_lease :: "endpoint_request \<Rightarrow> int \<Rightarrow> ident \<Rightarrow> time \<Rightarrow> endpoint_lease" where
  "new_lease q port new_id now = \<lparr> ep_id = new_id, ep_worktree_id = er_worktree_id q, ep_name = er_name q,
     ep_protocol = er_protocol q, ep_host = er_host q, ep_port = port, ep_state = EP_ACTIVE,
     ep_allocated_at = now, ep_last_verified_at = now \<rparr>"

lemma allocate_cases:
  assumes "allocate_endpoint s q probe new_id now = Inr (t, l)"
  obtains (kept) "t = s" "endpoint_row s q = Some l" "compatible_lease q l"
  | (moved) r port where "endpoint_row s q = Some r" "l = moved_lease q port now r"
      "t = s\<lparr>endpoint_leases := upd_where (\<lambda>x. ep_id x = ep_id r) (\<lambda>_. l) (endpoint_leases s)\<rparr>"
      "port \<in> set (candidate_ports q)" "\<not> port_taken s (er_protocol q) (Some (ep_id r)) port"
  | (fresh) port where "endpoint_row s q = None" "l = new_lease q port new_id now"
      "t = s\<lparr>endpoint_leases := endpoint_leases s @ [l]\<rparr>" "new_id \<notin> ep_id ` set (endpoint_leases s)"
      "port \<in> set (candidate_ports q)" "\<not> port_taken s (er_protocol q) None port"
proof -
  let ?row = "endpoint_row s q"
  define own where "own = (case ?row of Some r \<Rightarrow> if compatible_lease q r then Some r else None | None \<Rightarrow> None)"
  have own: "own = Some r \<Longrightarrow> ?row = Some r \<and> compatible_lease q r" for r
    by (auto simp: own_def split: option.splits if_splits)
  define keep where "keep = (case own of None \<Rightarrow> False | Some r \<Rightarrow> (case probe of
     None \<Rightarrow> True | Some (Single_Probe free) \<Rightarrow> free (candidate q (ep_port r)) | Some (Batch_Probe _) \<Rightarrow> False))"
  obtain found e where f: "search_port q probe (port_taken s (er_protocol q) (map_option ep_id ?row)) (map_option ep_port own) = (found, e)"
    by force
  show thesis
  proof (cases "keep \<or> (\<exists>port. found = Some port \<and> map_option ep_port own = Some port)")
    case True
    then obtain r where r: "own = Some r" by (auto simp: keep_def split: option.splits)
    have "t = s \<and> l = r"
      using assms True r f unfolding allocate_endpoint_def own_def [symmetric] keep_def [symmetric] Let_def
      by (auto split: sum.splits if_splits option.splits)
    with own [OF r] kept show thesis by blast
  next
    case False
    with assms f obtain port where port: "found = Some port" "map_option ep_port own \<noteq> Some port"
      unfolding allocate_endpoint_def own_def [symmetric] keep_def [symmetric] Let_def
      by (auto split: sum.splits if_splits option.splits)
    with search_port_Some [of q probe _ "map_option ep_port own" port e] f
    have c: "port \<in> set (candidate_ports q)" "\<not> port_taken s (er_protocol q) (map_option ep_id ?row) port" by auto
    show thesis
    proof (cases ?row)
      case None
      have "l = new_lease q port new_id now \<and> t = s\<lparr>endpoint_leases := endpoint_leases s @ [l]\<rparr> \<and> \<not> exists_where (\<lambda>x. ep_id x = new_id) (endpoint_leases s)"
        using assms False f port None unfolding allocate_endpoint_def own_def [symmetric] keep_def [symmetric] Let_def
        by (auto simp: new_lease_def split: sum.splits if_splits)
      with None c fresh show thesis by (auto simp: list_ex_iff image_iff)
    next
      case (Some r)
      have "l = moved_lease q port now r \<and> t = s\<lparr>endpoint_leases := upd_where (\<lambda>x. ep_id x = ep_id r) (\<lambda>_. l) (endpoint_leases s)\<rparr>"
        using assms False f port Some unfolding allocate_endpoint_def own_def [symmetric] keep_def [symmetric] Let_def
        by (auto simp: moved_lease_def split: sum.splits if_splits)
      with Some c moved show thesis by auto
    qed
  qed
qed

lemma endpoint_row_SomeD:
  "endpoint_row s q = Some r \<Longrightarrow> r \<in> set (endpoint_leases s) \<and> ep_worktree_id r = er_worktree_id q \<and> ep_name r = er_name q"
  by (auto simp: find_Some_iff)

lemma endpoint_row_unique:
  "endpoints_ok s \<Longrightarrow> r \<in> set (endpoint_leases s) \<Longrightarrow> ep_worktree_id r = er_worktree_id q \<Longrightarrow> ep_name r = er_name q \<Longrightarrow>
   endpoint_row s q = Some r"
proof -
  assume ok: "endpoints_ok s" and r: "r \<in> set (endpoint_leases s)" "ep_worktree_id r = er_worktree_id q" "ep_name r = er_name q"
  then have "endpoint_row s q \<noteq> None" by (auto simp: find_None_iff)
  then obtain r' where r': "endpoint_row s q = Some r'" by auto
  have "r' = r" using ok endpoint_row_SomeD [OF r'] r unfolding endpoints_ok_def endpoint_rows_ok_def by metis
  with r' show ?thesis by simp
qed

end
