(* ===== verification/Endpoint_Properties.thy ===== *)
theory Endpoint_Properties
  imports Endpoint_Store Job_Properties
begin

text \<open>
  The endpoint leases as a state machine: no two active leases ever share a protocol and port, an
  allocation is sticky and honours the probe, and leases handed over keep their port.
\<close>

section \<open>The invariant is kept\<close>

lemma rows_ok_filter: "endpoint_rows_ok rows \<Longrightarrow> endpoint_rows_ok (del_where P rows)"
  by (auto simp: endpoint_rows_ok_def intro: distinct_del_where)

lemma rows_id_unique: "endpoint_rows_ok rows \<Longrightarrow> a \<in> set rows \<Longrightarrow> b \<in> set rows \<Longrightarrow> ep_id a = ep_id b \<Longrightarrow> a = b"
  by (auto simp: endpoint_rows_ok_def distinct_map inj_on_def)

lemma rows_key_unique:
  "endpoint_rows_ok rows \<Longrightarrow> a \<in> set rows \<Longrightarrow> b \<in> set rows \<Longrightarrow> ep_worktree_id a = ep_worktree_id b \<Longrightarrow>
   ep_name a = ep_name b \<Longrightarrow> a = b"
  by (simp add: endpoint_rows_ok_def)

text \<open>Releasing rows frees ports and changes no key.\<close>

lemma rows_ok_release:
  assumes ok: "endpoint_rows_ok rows"
    and f: "\<And>r. ep_id (f r) = ep_id r \<and> ep_worktree_id (f r) = ep_worktree_id r \<and> ep_name (f r) = ep_name r \<and>
      ep_port (f r) = ep_port r \<and> ep_state (f r) = EP_RELEASED"
  shows "endpoint_rows_ok (upd_where P f rows)"
proof -
  let ?g = "\<lambda>r. if P r then f r else r"
  have act: "ep_state (?g r) = EP_ACTIVE \<Longrightarrow> ?g r = r" for r using f [of r] by (auto split: if_splits)
  have key: "ep_worktree_id (?g r) = ep_worktree_id r \<and> ep_name (?g r) = ep_name r \<and> ep_id (?g r) = ep_id r \<and> ep_port (?g r) = ep_port r" for r
    using f [of r] by simp
  have rows: "set (upd_where P f rows) = ?g ` set rows" by (simp add: set_upd_where)
  have "distinct (map ep_id (upd_where P f rows))"
    using ok f by (simp add: endpoint_rows_ok_def distinct_upd_where)
  moreover have "?g a = ?g b" if "a \<in> set rows" "b \<in> set rows"
      "ep_worktree_id (?g a) = ep_worktree_id (?g b)" "ep_name (?g a) = ep_name (?g b)" for a b
  proof -
    from that(3,4) key have "ep_worktree_id a = ep_worktree_id b" "ep_name a = ep_name b" by simp_all
    with ok that(1,2) have "a = b" unfolding endpoint_rows_ok_def by blast
    then show ?thesis by simp
  qed
  moreover have "?g a = ?g b" if "a \<in> set rows" "b \<in> set rows" "ep_state (?g a) = EP_ACTIVE" "ep_state (?g b) = EP_ACTIVE"
      "ep_protocol (?g a) = ep_protocol (?g b)" "ep_port (?g a) = ep_port (?g b)" for a b
  proof -
    have "a = b"
      using ok that(1,2) that(3-6) unfolding act [OF that(3)] act [OF that(4)] endpoint_rows_ok_def by blast
    then show ?thesis by simp
  qed
  moreover have "1 \<le> ep_port (?g a) \<and> ep_port (?g a) \<le> 65535" if "a \<in> set rows" for a
    using ok that key [of a] by (simp add: endpoint_rows_ok_def)
  ultimately show ?thesis unfolding endpoint_rows_ok_def rows by blast
qed

text \<open>Replacing one row by a row of the same key, on a free port.\<close>

lemma rows_ok_replace:
  assumes ok: "endpoint_rows_ok rows" and r: "r \<in> set rows"
    and l: "ep_id l = ep_id r" "ep_worktree_id l = w" "ep_name l = ep_name r" "1 \<le> ep_port l" "ep_port l \<le> 65535"
    and w: "\<forall>x\<in>set rows. x \<noteq> r \<longrightarrow> \<not> (ep_worktree_id x = w \<and> ep_name x = ep_name r)"
    and free: "\<forall>x\<in>set rows. x \<noteq> r \<longrightarrow> ep_state x = EP_ACTIVE \<longrightarrow> \<not> (ep_protocol x = ep_protocol l \<and> ep_port x = ep_port l)"
  shows "endpoint_rows_ok (upd_where (\<lambda>x. ep_id x = ep_id r) (\<lambda>_. l) rows)"
proof -
  have only: "ep_id x = ep_id r \<longleftrightarrow> x = r" if "x \<in> set rows" for x
    using rows_id_unique [OF ok that r] by auto
  have rows: "set (upd_where (\<lambda>x. ep_id x = ep_id r) (\<lambda>_. l) rows) = insert l (set rows - {r})"
    using only r by (auto simp: set_upd_where)
  have "distinct (map ep_id (upd_where (\<lambda>x. ep_id x = ep_id r) (\<lambda>_. l) rows))"
    using ok l(1) by (simp add: endpoint_rows_ok_def distinct_upd_where)
  with ok l w free show ?thesis
    unfolding endpoint_rows_ok_def rows by auto
qed

lemma rows_ok_append:
  assumes ok: "endpoint_rows_ok rows" and l: "ep_id l \<notin> ep_id ` set rows" "1 \<le> ep_port l" "ep_port l \<le> 65535"
    and w: "\<forall>x\<in>set rows. \<not> (ep_worktree_id x = ep_worktree_id l \<and> ep_name x = ep_name l)"
    and free: "\<forall>x\<in>set rows. ep_state x = EP_ACTIVE \<longrightarrow> \<not> (ep_protocol x = ep_protocol l \<and> ep_port x = ep_port l)"
  shows "endpoint_rows_ok (rows @ [l])"
  using assms unfolding endpoint_rows_ok_def by auto

lemma allocate_ok:
  assumes ok: "endpoints_ok s" and a: "allocate_endpoint s q probe new_id now = Inr (t, l)"
  shows "endpoints_ok t"
proof -
  from a have "\<exists>u. validate_endpoint_request q = Inr u" by (auto simp: allocate_endpoint_def split: sum.splits)
  then obtain u where "validate_endpoint_request q = Inr u" ..
  note range = validate_range [OF this] candidate_ports_range [of q]
  from a show ?thesis
  proof (cases rule: allocate_cases)
    case kept
    with ok show ?thesis by simp
  next
    case (moved r port)
    note r = endpoint_row_SomeD [OF moved(1)]
    have l: "ep_id l = ep_id r" "ep_worktree_id l = ep_worktree_id r" "ep_name l = ep_name r" "ep_port l = port"
      "ep_protocol l = er_protocol q"
      by (simp_all add: moved(2) moved_lease_def)
    have "endpoint_rows_ok (upd_where (\<lambda>x. ep_id x = ep_id r) (\<lambda>_. l) (endpoint_leases s))"
    proof (rule rows_ok_replace [of _ _ _ "ep_worktree_id r"])
      show "\<forall>x\<in>set (endpoint_leases s). x \<noteq> r \<longrightarrow> \<not> (ep_worktree_id x = ep_worktree_id r \<and> ep_name x = ep_name r)"
        using ok r unfolding endpoints_ok_def endpoint_rows_ok_def by blast
      show "\<forall>x\<in>set (endpoint_leases s). x \<noteq> r \<longrightarrow> ep_state x = EP_ACTIVE \<longrightarrow>
          \<not> (ep_protocol x = ep_protocol l \<and> ep_port x = ep_port l)"
        using moved(5) rows_id_unique [of "endpoint_leases s" _ r] ok r l
        by (auto simp: port_taken_def list_ex_iff endpoints_ok_def)
    qed (use ok r l moved(4) range in \<open>auto simp: endpoints_ok_def\<close>)
    with moved(3) show ?thesis by (simp add: endpoints_ok_def)
  next
    case (fresh port)
    have "endpoint_rows_ok (endpoint_leases s @ [l])"
      by (rule rows_ok_append)
        (use ok fresh range in \<open>auto simp: endpoints_ok_def new_lease_def find_None_iff port_taken_def list_ex_iff\<close>)
    with fresh(3) show ?thesis by (simp add: endpoints_ok_def)
  qed
qed

text \<open>One turn of the loop: a lease moves unless the target has an active one of that name.\<close>

abbreviation held_at :: "ident \<Rightarrow> string \<Rightarrow> endpoint_lease list \<Rightarrow> bool" where
  "held_at to_id name rows \<equiv> \<exists>r\<in>set rows. ep_worktree_id r = to_id \<and> ep_name r = name \<and> ep_state r = EP_ACTIVE"

definition hand_row :: "ident \<Rightarrow> endpoint_lease \<Rightarrow> endpoint_lease list \<Rightarrow> endpoint_lease list" where
  "hand_row to_id lease rows = (if held_at to_id (ep_name lease) rows then rows
     else upd_where (\<lambda>x. ep_id x = ep_id lease) (\<lambda>x. x\<lparr>ep_worktree_id := to_id\<rparr>)
       (del_where (\<lambda>x. ep_worktree_id x = to_id \<and> ep_name x = ep_name lease) rows))"

lemma reassign_loop_hand:
  assumes ok: "endpoint_rows_ok rows"
  shows "fst (reassign_loop to_id (lease # leases) rows n) = fst (reassign_loop to_id leases (hand_row to_id lease rows) m)"
proof -
  have count: "fst (reassign_loop to_id ls rs k) = fst (reassign_loop to_id ls rs k')" for ls rs k k'
  proof (induction ls arbitrary: rs k k')
    case (Cons l ls)
    show ?case by (auto split: option.split intro: Cons.IH)
  qed simp
  show ?thesis
  proof (cases "find (\<lambda>r. ep_worktree_id r = to_id \<and> ep_name r = ep_name lease) rows")
    case None
    then have "\<forall>x\<in>set rows. \<not> (ep_worktree_id x = to_id \<and> ep_name x = ep_name lease)" by (simp add: find_None_iff)
    then have "hand_row to_id lease rows = upd_where (\<lambda>x. ep_id x = ep_id lease) (\<lambda>x. x\<lparr>ep_worktree_id := to_id\<rparr>) rows"
      by (auto simp: hand_row_def del_where_absent)
    with None count show ?thesis by simp
  next
    case (Some r)
    then have r: "r \<in> set rows" "ep_worktree_id r = to_id" "ep_name r = ep_name lease" by (auto simp: find_Some_iff)
    have one: "x = r" if "x \<in> set rows" "ep_worktree_id x = to_id" "ep_name x = ep_name lease" for x
      using rows_key_unique [OF ok that(1) r(1)] that r by simp
    have "del_where (\<lambda>x. ep_worktree_id x = to_id \<and> ep_name x = ep_name lease) rows = del_where (\<lambda>x. ep_id x = ep_id r) rows"
      unfolding del_where_def
      by (rule filter_cong [OF refl]) (use one r rows_id_unique [OF ok _ r(1)] in blast)
    moreover have "held_at to_id (ep_name lease) rows \<longleftrightarrow> ep_state r = EP_ACTIVE" using one r by blast
    ultimately show ?thesis
      unfolding hand_row_def using Some count by auto
  qed
qed

lemma hand_row_facts:
  assumes ok: "endpoint_rows_ok rows" and lease: "lease \<in> set rows" "ep_worktree_id lease \<noteq> to_id" "ep_state lease = EP_ACTIVE"
  shows "endpoint_rows_ok (hand_row to_id lease rows)"
    and "\<not> held_at to_id (ep_name lease) rows \<Longrightarrow> set (hand_row to_id lease rows) =
      insert (lease\<lparr>ep_worktree_id := to_id\<rparr>) (set rows - {lease} - {x. ep_worktree_id x = to_id \<and> ep_name x = ep_name lease})"
proof -
  let ?kept = "del_where (\<lambda>x. ep_worktree_id x = to_id \<and> ep_name x = ep_name lease) rows"
  let ?l = "lease\<lparr>ep_worktree_id := to_id\<rparr>"
  have in_kept: "lease \<in> set ?kept" using lease by simp
  have only: "ep_id x = ep_id lease \<longleftrightarrow> x = lease" if "x \<in> set rows" for x
    using rows_id_unique [OF ok that lease(1)] by auto
  have same: "upd_where (\<lambda>x. ep_id x = ep_id lease) (\<lambda>x. x\<lparr>ep_worktree_id := to_id\<rparr>) ?kept =
      upd_where (\<lambda>x. ep_id x = ep_id lease) (\<lambda>_. ?l) ?kept"
    unfolding upd_where_def by (rule map_cong [OF refl]) (use only in auto)
  have "endpoint_rows_ok (upd_where (\<lambda>x. ep_id x = ep_id lease) (\<lambda>_. ?l) ?kept)"
    by (rule rows_ok_replace [OF rows_ok_filter [OF ok] in_kept, of _ to_id])
      (use ok lease in \<open>auto simp: endpoint_rows_ok_def\<close>)
  with ok same show "endpoint_rows_ok (hand_row to_id lease rows)" by (simp add: hand_row_def)
  assume "\<not> held_at to_id (ep_name lease) rows"
  then have "hand_row to_id lease rows = upd_where (\<lambda>x. ep_id x = ep_id lease) (\<lambda>_. ?l) ?kept"
    using same by (simp only: hand_row_def if_False)
  then have "set (hand_row to_id lease rows) = (\<lambda>x. if ep_id x = ep_id lease then ?l else x) ` set ?kept"
    by (simp only: set_upd_where)
  also have "\<dots> = (\<lambda>x. if x = lease then ?l else x) ` set ?kept"
    by (rule image_cong [OF refl]) (use only in simp)
  finally show "set (hand_row to_id lease rows) =
      insert ?l (set rows - {lease} - {x. ep_worktree_id x = to_id \<and> ep_name x = ep_name lease})"
    using lease by auto
qed

lemma reassign_loop_result:
  assumes "endpoint_rows_ok rows" and "distinct (map ep_name leases)" and "from_id \<noteq> to_id"
    and "\<forall>l\<in>set leases. l \<in> set rows \<and> ep_state l = EP_ACTIVE \<and> ep_worktree_id l = from_id"
  shows "endpoint_rows_ok (fst (reassign_loop to_id leases rows n)) \<and>
    (\<forall>l\<in>set leases. (if held_at to_id (ep_name l) rows then l else l\<lparr>ep_worktree_id := to_id\<rparr>) \<in> set (fst (reassign_loop to_id leases rows n))) \<and>
    (\<forall>x\<in>set rows. x \<notin> set leases \<and> (ep_worktree_id x \<noteq> to_id \<or> ep_state x = EP_ACTIVE) \<longrightarrow> x \<in> set (fst (reassign_loop to_id leases rows n)))"
  using assms
proof (induction leases arbitrary: rows n)
  case Nil
  then show ?case by simp
next
  case (Cons lease leases)
  let ?rows = "hand_row to_id lease rows" and ?R = "fst (reassign_loop to_id leases (hand_row to_id lease rows) n)"
  have lease: "lease \<in> set rows" "ep_worktree_id lease \<noteq> to_id" "ep_state lease = EP_ACTIVE" using Cons.prems by auto
  note facts = hand_row_facts [OF Cons.prems(1) lease]
  have stays: "x \<in> set ?rows" if "x \<in> set rows" "x \<noteq> lease" "ep_worktree_id x \<noteq> to_id \<or> ep_state x = EP_ACTIVE" for x
  proof (cases "held_at to_id (ep_name lease) rows")
    case True
    with that show ?thesis by (simp add: hand_row_def)
  next
    case False
    with that facts(2) show ?thesis by auto
  qed
  have held: "held_at to_id name ?rows = held_at to_id name rows" if "name \<noteq> ep_name lease" for name
  proof (cases "held_at to_id (ep_name lease) rows")
    case True
    then show ?thesis by (simp add: hand_row_def)
  next
    case False
    from facts(2) [OF False] that lease(2) show ?thesis by auto
  qed
  have other: "l \<noteq> lease \<and> ep_name l \<noteq> ep_name lease" if "l \<in> set leases" for l
    using Cons.prems(2) that by (auto simp: image_iff)
  have IH: "endpoint_rows_ok ?R"
    "\<And>l. l \<in> set leases \<Longrightarrow> (if held_at to_id (ep_name l) rows then l else l\<lparr>ep_worktree_id := to_id\<rparr>) \<in> set ?R"
    "\<And>x. x \<in> set ?rows \<Longrightarrow> x \<notin> set leases \<Longrightarrow> ep_worktree_id x \<noteq> to_id \<or> ep_state x = EP_ACTIVE \<Longrightarrow> x \<in> set ?R"
  proof -
    have "\<forall>l\<in>set leases. l \<in> set ?rows \<and> ep_state l = EP_ACTIVE \<and> ep_worktree_id l = from_id"
      using Cons.prems(4) stays other by auto
    from Cons.IH [OF facts(1) _ Cons.prems(3) this, of n] Cons.prems(2)
    have ih: "endpoint_rows_ok ?R" "\<forall>l\<in>set leases. (if held_at to_id (ep_name l) ?rows then l else l\<lparr>ep_worktree_id := to_id\<rparr>) \<in> set ?R"
      "\<forall>x\<in>set ?rows. x \<notin> set leases \<and> (ep_worktree_id x \<noteq> to_id \<or> ep_state x = EP_ACTIVE) \<longrightarrow> x \<in> set ?R"
      by simp_all
    from ih(1) show "endpoint_rows_ok ?R" .
    show "(if held_at to_id (ep_name l) rows then l else l\<lparr>ep_worktree_id := to_id\<rparr>) \<in> set ?R" if "l \<in> set leases" for l
      using ih(2) that held [of "ep_name l"] other [OF that] by metis
    show "x \<in> set ?R" if "x \<in> set ?rows" "x \<notin> set leases" "ep_worktree_id x \<noteq> to_id \<or> ep_state x = EP_ACTIVE" for x
      using ih(3) that by blast
  qed
  have "(if held_at to_id (ep_name lease) rows then lease else lease\<lparr>ep_worktree_id := to_id\<rparr>) \<in> set ?R"
  proof (cases "held_at to_id (ep_name lease) rows")
    case True
    have "lease \<notin> set leases" using other by blast
    with True IH(3) [of lease] lease show ?thesis by (simp add: hand_row_def)
  next
    case False
    have "lease\<lparr>ep_worktree_id := to_id\<rparr> \<notin> set leases" using Cons.prems(3,4) by fastforce
    with False IH(3) facts(2) [OF False] lease show ?thesis by auto
  qed
  with IH(1,2) stays IH(3) show ?case
    unfolding reassign_loop_hand [OF Cons.prems(1), of to_id lease leases n n] by auto
qed

lemma active_names_distinct:
  assumes "endpoint_rows_ok rows"
  shows "distinct (map ep_name (filter (\<lambda>r. ep_worktree_id r = a \<and> ep_state r = EP_ACTIVE) rows))"
  using assms rows_key_unique [OF assms]
  by (auto simp: endpoint_rows_ok_def distinct_map inj_on_def intro: distinct_filter)

lemma reassign_self: "reassign_loop w leases rows n = (rows, n)"
  if "endpoint_rows_ok rows" "\<forall>l\<in>set leases. l \<in> set rows \<and> ep_state l = EP_ACTIVE \<and> ep_worktree_id l = w"
  using that
proof (induction leases)
  case Nil
  then show ?case by simp
next
  case (Cons l leases)
  have "find (\<lambda>r. ep_worktree_id r = w \<and> ep_name r = ep_name l) rows = Some l"
  proof -
    have "find (\<lambda>r. ep_worktree_id r = w \<and> ep_name r = ep_name l) rows \<noteq> None" using Cons.prems by (auto simp: find_None_iff)
    then obtain r where r: "find (\<lambda>r. ep_worktree_id r = w \<and> ep_name r = ep_name l) rows = Some r" by auto
    then have "r \<in> set rows \<and> ep_worktree_id r = w \<and> ep_name r = ep_name l" by (auto simp: find_Some_iff)
    with Cons.prems have "r = l" unfolding endpoint_rows_ok_def by auto
    with r show ?thesis by simp
  qed
  with Cons show ?case by simp
qed

lemma reassign_ok: "endpoints_ok s \<Longrightarrow> endpoints_ok (fst (reassign_active_leases s a b))"
proof -
  assume ok: "endpoints_ok s"
  let ?ls = "filter (\<lambda>r. ep_worktree_id r = a \<and> ep_state r = EP_ACTIVE) (endpoint_leases s)"
  have "endpoint_rows_ok (fst (reassign_loop b ?ls (endpoint_leases s) 0))"
  proof (cases "a = b")
    case True
    with reassign_self [of "endpoint_leases s" ?ls b 0] ok show ?thesis by (simp add: endpoints_ok_def)
  next
    case False
    with reassign_loop_result [OF _ active_names_distinct False, of "endpoint_leases s" "endpoint_leases s" a 0] ok show ?thesis
      by (simp add: endpoints_ok_def)
  qed
  then show ?thesis by (simp add: reassign_active_leases_def endpoints_ok_def split_beta)
qed

lemma release_or_hand_over_ok: "endpoints_ok s \<Longrightarrow> endpoints_ok (release_or_hand_over s w ws)"
proof -
  assume ok: "endpoints_ok s"
  have r: "endpoint_rows_ok (upd_where P (\<lambda>r. r\<lparr>ep_state := EP_RELEASED\<rparr>) (endpoint_leases t))" if "endpoints_ok t" for P t
    by (rule rows_ok_release) (use that in \<open>simp_all add: endpoints_ok_def\<close>)
  show ?thesis
    using r ok reassign_ok [OF ok] by (simp add: release_or_hand_over_def Let_def endpoints_ok_def split: option.splits)
qed

lemma release_worktree_ok: "endpoints_ok s \<Longrightarrow> endpoints_ok (fst (release_endpoints_for_worktree s w now))"
  by (auto simp: release_endpoints_for_worktree_def endpoints_ok_def Let_def intro!: rows_ok_release)

lemma release_never_started_ok: "endpoints_ok s \<Longrightarrow> endpoints_ok (fst (release_never_started_endpoints s ws now))"
  by (auto simp: release_never_started_endpoints_def endpoints_ok_def Let_def intro!: rows_ok_release)

section \<open>The machine\<close>

text \<open>\<open>Cascade\<close> is the deletion of worktrees (\<open>ON DELETE CASCADE\<close>), \<open>Other\<close> any other statement.\<close>

inductive endpoint_step :: "db \<Rightarrow> db \<Rightarrow> bool" where
  Allocate: "allocate_endpoint s q probe new_id now = Inr (t, l) \<Longrightarrow> endpoint_step s t"
| Release: "endpoint_step s (fst (release_endpoints_for_worktree s w now))"
| Release_Never_Started: "endpoint_step s (fst (release_never_started_endpoints s ws now))"
| Reassign: "endpoint_step s (fst (reassign_active_leases s a b))"
| Hand_Over: "endpoint_step s (release_or_hand_over s w ws)"
| Cascade: "endpoint_leases t = del_where P (endpoint_leases s) \<Longrightarrow> endpoint_step s t"
| Other: "endpoint_leases t = endpoint_leases s \<Longrightarrow> endpoint_step s t"

lemma endpoint_step_ok: "endpoint_step s t \<Longrightarrow> endpoints_ok s \<Longrightarrow> endpoints_ok t"
proof (induction rule: endpoint_step.induct)
  case (Cascade t P s)
  then show ?case by (simp add: endpoints_ok_def rows_ok_filter)
next
  case (Other t s)
  then show ?case by (simp add: endpoints_ok_def)
qed (rule allocate_ok release_worktree_ok release_never_started_ok reassign_ok release_or_hand_over_ok; assumption)+

interpretation endpoints: machine endpoint_step endpoints_ok
  by unfold_locales (rule endpoint_step_ok)


section \<open>Probes\<close>

text \<open>The probe said yes to the port handed out.\<close>

definition probe_accepts :: "endpoint_request \<Rightarrow> endpoint_probe option \<Rightarrow> int \<Rightarrow> bool" where
  "probe_accepts q probe port \<longleftrightarrow> (case probe of
     None \<Rightarrow> True
   | Some (Single_Probe free) \<Rightarrow> free (candidate q port)
   | Some (Batch_Probe batch) \<Rightarrow> \<exists>offered results i. length offered \<le> max_endpoint_batch_candidates \<and>
       batch (map (candidate q) offered) = Some results \<and> length results = length offered \<and>
       i < length offered \<and> offered ! i = port \<and> results ! i)"

lemma search_port_accepts:
  assumes "search_port q probe taken own = (Some p, e)"
  shows "probe_accepts q probe p"
proof (cases probe)
  case None
  then show ?thesis by (simp add: probe_accepts_def)
next
  case (Some pr)
  show ?thesis
  proof (cases pr)
    case (Single_Probe free)
    with assms Some have "search_single taken (Some (\<lambda>p. free (candidate q p))) 0 (candidate_ports q) = (Some p, e)"
      by (simp add: search_port_def)
    from search_single_Some [OF this] Some Single_Probe show ?thesis by (simp add: probe_accepts_def) blast
  next
    case (Batch_Probe batch)
    obtain offered ex where o: "offer_ports taken (case own of Some p \<Rightarrow> [p] | None \<Rightarrow> []) (candidate_ports q) = (offered, ex)"
      by force
    from assms Some Batch_Probe o have v: "valid_endpoint_batch_results (batch (map (candidate q) offered)) (length offered)"
      "first_accepted offered (the (batch (map (candidate q) offered))) = Some p"
      by (auto simp: search_port_def Let_def split: if_splits)
    from v(1) obtain rs where rs: "batch (map (candidate q) offered) = Some rs" "length rs = length offered"
      by (auto simp: valid_endpoint_batch_results_def split: option.splits)
    from first_accepted_Some [OF v(2)] rs obtain i where "i < length offered" "offered ! i = p" "rs ! i" by auto
    moreover have "length offered \<le> max_endpoint_batch_candidates"
      using offer_ports_free [OF o] by (auto simp: max_endpoint_batch_candidates_def split: option.splits)
    ultimately show ?thesis using rs Some Batch_Probe unfolding probe_accepts_def by auto
  qed
qed

lemma allocate_accepts:
  assumes "allocate_endpoint s q probe new_id now = Inr (t, l)"
  shows "probe_accepts q probe (ep_port l)"
proof -
  let ?row = "endpoint_row s q"
  define own where "own = (case ?row of Some r \<Rightarrow> if compatible_lease q r then Some r else None | None \<Rightarrow> None)"
  obtain found e where f: "search_port q probe (port_taken s (er_protocol q) (map_option ep_id ?row)) (map_option ep_port own) = (found, e)"
    by force
  show ?thesis
  proof (cases "case own of None \<Rightarrow> False | Some r \<Rightarrow> (case probe of
     None \<Rightarrow> True | Some (Single_Probe free) \<Rightarrow> free (candidate q (ep_port r)) | Some (Batch_Probe _) \<Rightarrow> False)")
    case True
    with assms show ?thesis unfolding allocate_endpoint_def own_def [symmetric] Let_def
      by (auto simp: probe_accepts_def split: sum.splits if_splits option.splits endpoint_probe.splits)
  next
    case False
    with assms f have "found = Some (ep_port l)" unfolding allocate_endpoint_def own_def [symmetric] Let_def
      by (auto split: sum.splits if_splits option.splits)
    with search_port_accepts f show ?thesis by blast
  qed
qed

section \<open>A concrete allocation\<close>

definition demo_endpoint_request :: endpoint_request where
  "demo_endpoint_request = \<lparr> er_worktree_id = ''w1'', er_name = ''web'', er_protocol = Tcp, er_host = ''127.0.0.1'',
     er_port_range = \<lparr> pr_min = Whole 3000, pr_max = Whole 3002 \<rparr>, er_preferred_port = Some (Whole 3001) \<rparr>"

definition demo_endpoint :: endpoint_lease where
  "demo_endpoint = \<lparr> ep_id = ''e1'', ep_worktree_id = ''w1'', ep_name = ''web'', ep_protocol = Tcp, ep_host = ''127.0.0.1'',
     ep_port = 3000, ep_state = EP_ACTIVE, ep_allocated_at = 5, ep_last_verified_at = 5 \<rparr>"

definition demo_probe :: endpoint_probe where
  "demo_probe = Single_Probe (\<lambda>c. ec_port c \<noteq> 3001)"

definition demo_endpoint_db :: db where
  "demo_endpoint_db = demo_registered\<lparr>endpoint_leases := [demo_endpoint]\<rparr>"

lemma demo_candidates: "candidate_ports demo_endpoint_request = [3001, 3000, 3002]"
  by (simp add: demo_endpoint_request_def candidate_ports_def)

lemma demo_allocate:
  "allocate_endpoint demo_registered demo_endpoint_request (Some demo_probe) ''e1'' 5 = Inr (demo_endpoint_db, demo_endpoint)"
proof -
  have "search_port demo_endpoint_request (Some demo_probe) taken None = (Some 3000, False)"
    if "\<And>p. \<not> taken p" for taken
    using that by (simp add: search_port_def demo_candidates demo_probe_def candidate_def max_endpoint_batch_candidates_def)
  then have "search_port demo_endpoint_request (Some demo_probe) (port_taken demo_registered Tcp None) None = (Some 3000, False)"
    by (simp add: port_taken_def demo_registered_def empty_db_def)
  then show ?thesis
    by (simp add: allocate_endpoint_def validate_endpoint_request_def Let_def demo_endpoint_request_def
        demo_endpoint_db_def demo_registered_def demo_worktree_def demo_endpoint_def empty_db_def)
qed

lemma demo_endpoint_run: "endpoint_step\<^sup>*\<^sup>* empty_db demo_endpoint_db"
proof -
  have "endpoint_step empty_db demo_registered" by (rule endpoint_step.Other) (simp add: demo_registered_def)
  from rtranclp_steps3 [of endpoint_step, OF this endpoint_step.Allocate [OF demo_allocate] endpoint_step.Other [OF refl]]
  show ?thesis .
qed

lemma endpoints_ok_empty: "endpoints_ok empty_db"
  by (simp add: endpoints_ok_def endpoint_rows_ok_def empty_db_def)

lemma demo_endpoints_ok: "endpoints_ok demo_endpoint_db"
  by (rule endpoints.run_inv [OF demo_endpoint_run endpoints_ok_empty])

section \<open>Properties\<close>

text \<open>
  C3. Ports are never shared: in every state reached from an empty store by allocating, releasing, handing
  over and deleting leases in any order, two active leases on the same protocol and port are the same
  lease, and the port of an active lease is between 1 and 65535.
\<close>

theorem no_shared_port:
  assumes "endpoint_step\<^sup>*\<^sup>* empty_db s" and "a \<in> set (endpoint_leases s)" and "b \<in> set (endpoint_leases s)"
    and "ep_state a = EP_ACTIVE" and "ep_state b = EP_ACTIVE"
    and "ep_protocol a = ep_protocol b" and "ep_port a = ep_port b"
  shows "a = b \<and> 1 \<le> ep_port a \<and> ep_port a \<le> 65535"
  using endpoints.run_inv [OF assms(1) endpoints_ok_empty] assms(2-7)
  unfolding endpoints_ok_def endpoint_rows_ok_def by blast

lemma no_shared_port_witness:
  "{b \<in> set (endpoint_leases demo_endpoint_db). ep_state b = EP_ACTIVE \<and> ep_protocol b = Tcp \<and> ep_port b = 3000} = {demo_endpoint}"
proof -
  have d: "demo_endpoint \<in> set (endpoint_leases demo_endpoint_db)" "ep_state demo_endpoint = EP_ACTIVE"
    "ep_protocol demo_endpoint = Tcp" "ep_port demo_endpoint = 3000"
    by (simp_all add: demo_endpoint_db_def demo_endpoint_def)
  then have "b = demo_endpoint" if "b \<in> set (endpoint_leases demo_endpoint_db)" "ep_state b = EP_ACTIVE" "ep_protocol b = Tcp" "ep_port b = 3000" for b
    using no_shared_port [OF demo_endpoint_run that(1), of demo_endpoint] that(2-4) by simp
  with d show ?thesis by blast
qed

text \<open>
  C24. What an allocation gives: an active lease of the requested worktree, name, protocol and host, on a
  port the probe accepted and no other active lease of the protocol holds; every row of another worktree or
  name is untouched.
\<close>

theorem allocation_contract:
  assumes "endpoints_ok s" and "allocate_endpoint s q probe new_id now = Inr (t, l)"
  shows "l \<in> set (endpoint_leases t) \<and> compatible_lease q l
    \<and> ep_worktree_id l = er_worktree_id q \<and> ep_name l = er_name q
    \<and> probe_accepts q probe (ep_port l)
    \<and> (\<forall>x\<in>set (endpoint_leases t). x \<noteq> l \<and> ep_state x = EP_ACTIVE \<and> ep_protocol x = er_protocol q \<longrightarrow> ep_port x \<noteq> ep_port l)
    \<and> (\<forall>x\<in>set (endpoint_leases s). \<not> (ep_worktree_id x = er_worktree_id q \<and> ep_name x = er_name q) \<longrightarrow> x \<in> set (endpoint_leases t))"
proof -
  have l: "l \<in> set (endpoint_leases t) \<and> compatible_lease q l \<and> ep_worktree_id l = er_worktree_id q \<and> ep_name l = er_name q
    \<and> (\<forall>x\<in>set (endpoint_leases s). \<not> (ep_worktree_id x = er_worktree_id q \<and> ep_name x = er_name q) \<longrightarrow> x \<in> set (endpoint_leases t))"
    using assms(2)
  proof (cases rule: allocate_cases)
    case kept
    with endpoint_row_SomeD [OF kept(2)] show ?thesis by simp
  next
    case (moved r port)
    note r = endpoint_row_SomeD [OF moved(1)]
    have "x = r" if "x \<in> set (endpoint_leases s)" "ep_id x = ep_id r" for x
      using rows_id_unique [of "endpoint_leases s" x r] assms(1) r that by (simp add: endpoints_ok_def)
    with r moved show ?thesis by (auto simp: set_upd_where moved_lease_def compatible_lease_def image_iff)
  next
    case (fresh port)
    then show ?thesis by (simp add: new_lease_def compatible_lease_def)
  qed
  have "endpoint_rows_ok (endpoint_leases t)" using allocate_ok [OF assms] by (simp add: endpoints_ok_def)
  with l allocate_accepts [OF assms(2)] show ?thesis
    unfolding compatible_lease_def endpoint_rows_ok_def by metis
qed

lemma allocation_contract_witness:
  "compatible_lease demo_endpoint_request demo_endpoint \<and> probe_accepts demo_endpoint_request (Some demo_probe) 3000"
proof -
  have "endpoints_ok demo_registered" by (simp add: endpoints_ok_def endpoint_rows_ok_def demo_registered_def empty_db_def)
  moreover have "ep_port demo_endpoint = 3000" by (simp add: demo_endpoint_def)
  ultimately show ?thesis using allocation_contract [OF _ demo_allocate] by metis
qed

lemma offer_ports_prefix: "\<exists>more. fst (offer_ports taken acc cs) = acc @ more"
  by (induction taken acc cs rule: offer_ports.induct) auto

text \<open>
  Endpoints are stable: a worktree that holds a compatible lease keeps exactly it, and nothing is
  written, as long as the probe still accepts its port, whether the probe is asked one port at a time, by
  batch (where the held port is offered first), or not at all.
\<close>

theorem allocation_is_sticky:
  assumes "validate_endpoint_request q = Inr ()" and "exists_where (\<lambda>w. wt_id w = er_worktree_id q) (worktrees s)"
    and "endpoints_ok s" and "r \<in> set (endpoint_leases s)" and "ep_worktree_id r = er_worktree_id q" and "ep_name r = er_name q"
    and "compatible_lease q r"
    and "case probe of None \<Rightarrow> True | Some (Single_Probe free) \<Rightarrow> free (candidate q (ep_port r))
      | Some (Batch_Probe batch) \<Rightarrow> \<forall>more. \<exists>answers. length answers = length more \<and>
          batch (candidate q (ep_port r) # map (candidate q) more) = Some (True # answers)"
  shows "allocate_endpoint s q probe new_id now = Inr (s, r)"
proof -
  have row: "endpoint_row s q = Some r" by (rule endpoint_row_unique [OF assms(3-6)])
  show ?thesis
  proof (cases "\<exists>batch. probe = Some (Batch_Probe batch)")
    case False
    with assms(1,2,7,8) row show ?thesis
      by (auto simp: allocate_endpoint_def Let_def split: option.splits endpoint_probe.splits)
  next
    case True
    then obtain batch where b: "probe = Some (Batch_Probe batch)" by blast
    let ?taken = "port_taken s (er_protocol q) (Some (ep_id r))"
    obtain more ex where o: "offer_ports ?taken [ep_port r] (candidate_ports q) = (ep_port r # more, ex)"
      using offer_ports_prefix [of ?taken "[ep_port r]" "candidate_ports q"]
      by (metis append_Cons append_Nil prod.collapse)
    obtain answers where "length answers = length more" "batch (map (candidate q) (ep_port r # more)) = Some (True # answers)"
      using assms(8) b by auto
    with o b have "search_port q probe ?taken (Some (ep_port r)) = (Some (ep_port r), ex)"
      by (simp add: search_port_def valid_endpoint_batch_results_def first_accepted_def)
    with assms(1,2,7) row b show ?thesis by (simp add: allocate_endpoint_def Let_def)
  qed
qed

lemma allocation_is_sticky_witness:
  "allocate_endpoint demo_endpoint_db demo_endpoint_request (Some demo_probe) ''e2'' 90 = Inr (demo_endpoint_db, demo_endpoint)"
  by (rule allocation_is_sticky [OF _ _ demo_endpoints_ok])
    (simp_all add: demo_endpoint_request_def validate_endpoint_request_def demo_endpoint_db_def demo_registered_def
      demo_worktree_def demo_endpoint_def compatible_lease_def demo_probe_def candidate_def)

text \<open>
  C25. A refusal is justified. Take the ports of the range that no active lease but the caller's own holds, in the
  order of the search: they are distinct, and they are all of the range's free ports. When an allocation with a
  one-at-a-time probe finds no endpoint, the probe has refused every one of them; or the search says it was cut off,
  and then there are more than 256 of them and the probe has refused the first 256.
\<close>

theorem refusal_is_justified:
  assumes "allocate_endpoint s q (Some (Single_Probe free)) new_id now = Inl (Plain_Error (No_Endpoint cut_off))"
  defines "available \<equiv> filter (\<lambda>p. \<not> port_taken s (er_protocol q) (map_option ep_id (endpoint_row s q)) p) (candidate_ports q)"
  shows "distinct available \<and>
    set available = {p \<in> {whole (pr_min (er_port_range q))..whole (pr_max (er_port_range q))}.
      \<not> (\<exists>l\<in>set (endpoint_leases s). ep_protocol l = er_protocol q \<and> ep_port l = p \<and> ep_state l = EP_ACTIVE \<and>
           \<not> (\<exists>r. endpoint_row s q = Some r \<and> ep_id r = ep_id l))} \<and>
    (if cut_off then length available > max_endpoint_batch_candidates \<and>
        (\<forall>p\<in>set (take max_endpoint_batch_candidates available). \<not> free (candidate q p))
     else \<forall>p\<in>set available. \<not> free (candidate q p))"
proof -
  let ?taken = "port_taken s (er_protocol q) (map_option ep_id (endpoint_row s q))"
  have f: "search_single ?taken (Some (\<lambda>p. free (candidate q p))) 0 (candidate_ports q) = (None, cut_off)"
    using assms unfolding allocate_endpoint_def search_port_def Let_def
    by (simp split: sum.splits if_splits option.splits prod.splits)
      (auto simp: validate_endpoint_request_def Let_def split: if_splits)
  have "if cut_off then length available > max_endpoint_batch_candidates \<and>
      (\<forall>p\<in>set (take max_endpoint_batch_candidates available). \<not> free (candidate q p))
    else \<forall>p\<in>set available. \<not> free (candidate q p)"
  proof (cases cut_off)
    case True
    with search_single_cut_off [of ?taken "\<lambda>p. free (candidate q p)" 0 "candidate_ports q"] f
    show ?thesis by (simp add: Let_def available_def)
  next
    case False
    with f have "search_single ?taken (Some (\<lambda>p. free (candidate q p))) 0 (candidate_ports q) = (None, False)" by simp
    from search_single_None [OF this] False show ?thesis by (auto simp: available_def)
  qed
  moreover have "distinct available" by (simp add: available_def candidate_ports_distinct)
  moreover have "set available = {p \<in> {whole (pr_min (er_port_range q))..whole (pr_max (er_port_range q))}.
      \<not> (\<exists>l\<in>set (endpoint_leases s). ep_protocol l = er_protocol q \<and> ep_port l = p \<and> ep_state l = EP_ACTIVE \<and>
           \<not> (\<exists>r. endpoint_row s q = Some r \<and> ep_id r = ep_id l))}"
    unfolding available_def set_filter candidate_ports_range
    by (rule Collect_cong) (cases "endpoint_row s q"; auto simp: port_taken_def list_ex_iff)
  ultimately show ?thesis by blast
qed
lemma refusal_is_justified_witness:
  "allocate_endpoint demo_registered demo_endpoint_request (Some (Single_Probe (\<lambda>c. ec_port c = 9))) ''e1'' 5
     = Inl (Plain_Error (No_Endpoint False))
   \<and> {p \<in> set (filter (\<lambda>p. \<not> port_taken demo_registered Tcp None p) (candidate_ports demo_endpoint_request)). p = 9} = {}"
proof -
  have "search_port demo_endpoint_request (Some (Single_Probe (\<lambda>c. ec_port c = 9))) (port_taken demo_registered Tcp None) None = (None, False)"
    by (simp add: search_port_def demo_candidates candidate_def max_endpoint_batch_candidates_def)
  then have a: "allocate_endpoint demo_registered demo_endpoint_request (Some (Single_Probe (\<lambda>c. ec_port c = 9))) ''e1'' 5
     = Inl (Plain_Error (No_Endpoint False))"
    by (simp add: allocate_endpoint_def validate_endpoint_request_def Let_def demo_endpoint_request_def
        demo_registered_def demo_worktree_def empty_db_def)
  have "er_protocol demo_endpoint_request = Tcp" "find (\<lambda>r. ep_worktree_id r = er_worktree_id demo_endpoint_request \<and>
      ep_name r = er_name demo_endpoint_request) (endpoint_leases demo_registered) = None"
    by (simp_all add: demo_endpoint_request_def demo_registered_def empty_db_def)
  with refusal_is_justified [OF a, THEN conjunct2, THEN conjunct2] have
    "\<forall>p\<in>set (filter (\<lambda>p. \<not> port_taken demo_registered Tcp None p) (candidate_ports demo_endpoint_request)). p \<noteq> 9"
    by (simp add: candidate_def)
  with a show ?thesis by blast
qed

lemma endpoint_heir_other: "endpoint_heir s w ws = Some heir \<Longrightarrow> wt_id heir \<noteq> wt_id w"
  unfolding endpoint_heir_def by (drule head_in_set) (simp only: set_sort, simp)

text \<open>
  A feature keeps its ports: when Git no longer reports a worktree and another live worktree of the
  workspace is on its branch, every active lease of the old one becomes a lease of the heir with the same id
  and port, unless the heir already has an active lease of that name, in which case it is released.
\<close>

theorem hand_over_keeps_ports:
  assumes "endpoints_ok s" and "wt_branch w \<noteq> None" and "endpoint_heir s w workspace_id = Some heir"
    and "l \<in> set (endpoint_leases s)" and "ep_worktree_id l = wt_id w" and "ep_state l = EP_ACTIVE"
  shows "(if held_at (wt_id heir) (ep_name l) (endpoint_leases s) then l\<lparr>ep_state := EP_RELEASED\<rparr>
      else l\<lparr>ep_worktree_id := wt_id heir\<rparr>) \<in> set (endpoint_leases (release_or_hand_over s w workspace_id))"
proof -
  note heir = endpoint_heir_other [OF assms(3)]
  let ?ls = "filter (\<lambda>r. ep_worktree_id r = wt_id w \<and> ep_state r = EP_ACTIVE) (endpoint_leases s)"
  let ?R = "endpoint_leases (fst (reassign_active_leases s (wt_id w) (wt_id heir)))"
  have rows: "?R = fst (reassign_loop (wt_id heir) ?ls (endpoint_leases s) 0)"
    by (simp add: reassign_active_leases_def split_beta)
  have ok: "endpoint_rows_ok (endpoint_leases s)" using assms(1) by (simp add: endpoints_ok_def)
  from reassign_loop_result [OF ok active_names_distinct [OF ok] heir [symmetric], where n = 0] assms(4-6)
  have in_R: "(if held_at (wt_id heir) (ep_name l) (endpoint_leases s) then l else l\<lparr>ep_worktree_id := wt_id heir\<rparr>) \<in> set ?R"
    unfolding rows by auto
  have "endpoint_leases (release_or_hand_over s w workspace_id) =
      upd_where (\<lambda>r. ep_worktree_id r = wt_id w \<and> ep_state r = EP_ACTIVE) (\<lambda>r. r\<lparr>ep_state := EP_RELEASED\<rparr>) ?R"
    using assms(2,3) by (cases "wt_branch w") (simp_all add: release_or_hand_over_def Let_def)
  with in_R heir assms(5,6) show ?thesis by (auto simp: set_upd_where image_iff split: if_splits)
qed

definition demo_sibling :: worktree_row where
  "demo_sibling = demo_worktree\<lparr>wt_id := ''w2'', wt_path := ''/q'', wt_branch := Some ''refs/heads/f''\<rparr>"

definition demo_orphan :: worktree_row where
  "demo_orphan = demo_worktree\<lparr>wt_branch := Some ''refs/heads/f'', wt_state := WT_ORPHANED\<rparr>"

definition demo_feature_db :: db where
  "demo_feature_db = demo_endpoint_db\<lparr>worktrees := [demo_orphan, demo_sibling],
     repositories := [\<lparr> rp_id = ''r1'', rp_workspace_id = ''s1'', rp_common_git_dir = ''/g'', rp_main_root = ''/p'',
       rp_remote_identity = None, rp_created_at = 0, rp_last_reconciled_at = None \<rparr>]\<rparr>"

lemma hand_over_keeps_ports_witness:
  "demo_endpoint\<lparr>ep_worktree_id := ''w2''\<rparr> \<in> set (endpoint_leases (release_or_hand_over demo_feature_db demo_orphan ''s1''))"
proof -
  have "endpoint_heir demo_feature_db demo_orphan ''s1'' = Some demo_sibling"
    by (simp add: endpoint_heir_def demo_feature_db_def demo_endpoint_db_def demo_orphan_def demo_sibling_def demo_worktree_def)
  moreover have "endpoints_ok demo_feature_db" using demo_endpoints_ok by (simp add: endpoints_ok_def demo_feature_db_def)
  moreover have "endpoint_leases demo_feature_db = [demo_endpoint]" by (simp add: demo_feature_db_def demo_endpoint_db_def)
  ultimately show ?thesis
    using hand_over_keeps_ports [of demo_feature_db demo_orphan "''s1''" demo_sibling demo_endpoint]
    by (simp add: demo_orphan_def demo_sibling_def demo_worktree_def demo_endpoint_def)
qed

end
