(* ===== verification/Process_Store.thy ===== *)
theory Process_Store
  imports Job_Store
begin

text \<open>
  Managed processes and start reservations (\<open>packages/core/src/state/sqlite-store.ts\<close>): the rows of the
  supervised tasks, their state machine, and the reservations that let one caller at a time start a task.
\<close>

section \<open>Definitions\<close>

fun is_active_process_state :: "process_state \<Rightarrow> bool" where
  "is_active_process_state PS_STARTING \<longleftrightarrow> True"
| "is_active_process_state PS_RUNNING \<longleftrightarrow> True"
| "is_active_process_state PS_STOPPING \<longleftrightarrow> True"
| "is_active_process_state _ \<longleftrightarrow> False"

fun is_terminal_process_state :: "process_state \<Rightarrow> bool" where
  "is_terminal_process_state PS_STOPPED \<longleftrightarrow> True"
| "is_terminal_process_state PS_FAILED \<longleftrightarrow> True"
| "is_terminal_process_state PS_STALE_IDENTITY \<longleftrightarrow> True"
| "is_terminal_process_state _ \<longleftrightarrow> False"

definition validate_process_timestamp :: "process_state \<Rightarrow> time option \<Rightarrow> store_error + unit" where
  "validate_process_timestamp st stopped_at =
    (if is_terminal_process_state st \<and> stopped_at = None then Inl Type_Error
     else if \<not> is_terminal_process_state st \<and> stopped_at \<noteq> None then Inl Type_Error
     else Inr ())"

fun allowed_process_transitions :: "process_state \<Rightarrow> process_state list" where
  "allowed_process_transitions PS_STARTING = [PS_RUNNING, PS_STOPPING, PS_STOPPED, PS_FAILED, PS_STALE_IDENTITY]"
| "allowed_process_transitions PS_RUNNING = [PS_STOPPING, PS_STOPPED, PS_FAILED, PS_STALE_IDENTITY]"
| "allowed_process_transitions PS_STOPPING = [PS_STOPPED, PS_FAILED, PS_STALE_IDENTITY]"
| "allowed_process_transitions PS_STOPPED = []"
| "allowed_process_transitions PS_FAILED = []"
| "allowed_process_transitions PS_STALE_IDENTITY = []"

definition process_transition_ok :: "process_state \<Rightarrow> process_state \<Rightarrow> bool" where
  "process_transition_ok from to \<longleftrightarrow> from = to \<or> to \<in> set (allowed_process_transitions from)"

definition validate_managed_process :: "process_input \<Rightarrow> store_error + unit" where
  "validate_managed_process i =
    (if \<not> safe_positive (pi_pid i) then Inl Range_Error
     else if \<not> safe_positive (pi_pgid i) then Inl Range_Error
     else if pi_task_name i = [] then Inl Type_Error
     else if pi_process_start_time i = [] \<or> pi_command_fingerprint i = [] then Inl Type_Error
     else validate_process_timestamp (pi_state i) (pi_stopped_at i))"

definition find_reservation :: "db \<Rightarrow> ident \<Rightarrow> string \<Rightarrow> reservation_row option" where
  "find_reservation s worktree_id task_name =
    find (\<lambda>r. sr_worktree_id r = worktree_id \<and> sr_task_name r = task_name) (reservations s)"

text \<open>\<open>ORDER BY started_at DESC, id DESC LIMIT 1\<close>.\<close>

definition find_active_managed_process :: "db \<Rightarrow> ident \<Rightarrow> string \<Rightarrow> process_row option" where
  "find_active_managed_process s worktree_id task_name =
    (case rev (sort_key (\<lambda>p. (mp_started_at p, mp_id p)) (filter (\<lambda>p. mp_worktree_id p = worktree_id \<and>
       mp_task_name p = task_name \<and> mp_state p \<in> {PS_STARTING, PS_RUNNING, PS_STOPPING}) (processes s))) of
       [] \<Rightarrow> None | p # _ \<Rightarrow> Some p)"

definition reservation_refused :: "db \<Rightarrow> ident \<Rightarrow> string \<Rightarrow> string option \<Rightarrow> bool" where
  "reservation_refused s worktree_id task_name token = (case token of
     None \<Rightarrow> False | Some t \<Rightarrow> map_option sr_token (find_reservation s worktree_id task_name) \<noteq> Some t)"

definition create_managed_process ::
  "db \<Rightarrow> process_input \<Rightarrow> string option \<Rightarrow> ident \<Rightarrow> store_error + (db \<times> process_row)" where
  "create_managed_process s i reservation_token new_id =
    (case validate_managed_process i of Inl e \<Rightarrow> Inl e | Inr _ \<Rightarrow>
     if reservation_refused s (pi_worktree_id i) (pi_task_name i) reservation_token
     then Inl (Plain_Error Reservation_Not_Owned)
     else if is_active_process_state (pi_state i)
       \<and> find_active_managed_process s (pi_worktree_id i) (pi_task_name i) \<noteq> None
     then Inl (Plain_Error Task_Already_Active)
     else if \<not> exists_where (\<lambda>w. wt_id w = pi_worktree_id i) (worktrees s)
       \<or> exists_where (\<lambda>p. mp_id p = new_id) (processes s)
     then Inl (Plain_Error Constraint_Violation)
     else let p = \<lparr> mp_id = new_id, mp_worktree_id = pi_worktree_id i, mp_task_name = pi_task_name i,
            mp_pid = whole (pi_pid i), mp_pgid = whole (pi_pgid i),
            mp_process_start_time = pi_process_start_time i, mp_command_fingerprint = pi_command_fingerprint i,
            mp_state = pi_state i, mp_started_at = pi_started_at i, mp_stopped_at = pi_stopped_at i,
            mp_stdout_path = pi_stdout_path i, mp_stderr_path = pi_stderr_path i,
            mp_cleanup_required = (pi_cleanup_required i = Some True),
            mp_cleanup_owner_token = pi_cleanup_owner_token i, mp_exit_code = None, mp_exit_signal = None \<rparr>
       in Inr (s\<lparr>processes := processes s @ [p]\<rparr>, p))"

definition get_managed_process :: "db \<Rightarrow> ident \<Rightarrow> process_row option" where
  "get_managed_process s process_id = row_by mp_id process_id (processes s)"

definition apply_process_update :: "process_update \<Rightarrow> process_row \<Rightarrow> process_row" where
  "apply_process_update u p = p\<lparr>mp_state := pu_state u, mp_stopped_at := pu_stopped_at u,
     mp_cleanup_required := (case pu_cleanup_required u of None \<Rightarrow> mp_cleanup_required p | Some b \<Rightarrow> b),
     mp_exit_code := (case pu_exit u of None \<Rightarrow> mp_exit_code p | Some x \<Rightarrow> px_code x),
     mp_exit_signal := (case pu_exit u of None \<Rightarrow> mp_exit_signal p | Some x \<Rightarrow> px_signal x)\<rparr>"

definition update_managed_process ::
  "db \<Rightarrow> ident \<Rightarrow> process_update \<Rightarrow> store_error + (db \<times> process_row option)" where
  "update_managed_process s process_id u =
    (if pu_expected_states u = [] then Inl Type_Error
     else if \<not> list_all (\<lambda>st. process_transition_ok st (pu_state u)) (pu_expected_states u)
     then Inl (Plain_Error Invalid_Transition)
     else case validate_process_timestamp (pu_state u) (pu_stopped_at u) of Inl e \<Rightarrow> Inl e | Inr _ \<Rightarrow>
       (case get_managed_process s process_id of
          None \<Rightarrow> Inl (Plain_Error Unknown_Process)
        | Some current \<Rightarrow>
          if reservation_refused s (mp_worktree_id current) (mp_task_name current) (pu_reservation_token u)
          then Inl (Plain_Error Reservation_Not_Owned)
          else let P = (\<lambda>p. mp_id p = process_id \<and> mp_state p \<in> set (pu_expected_states u));
                   t = s\<lparr>processes := upd_where P (apply_process_update u) (processes s)\<rparr>
            in if count_where P (processes s) \<noteq> 1 then Inr (t, None)
               else (case get_managed_process t process_id of
                 None \<Rightarrow> Inl (Plain_Error Unknown_Process) | Some p \<Rightarrow> Inr (t, Some p))))"

text \<open>A row in an active state or with cleanup left: it keeps an expired reservation alive.\<close>

definition backed_reservation :: "db \<Rightarrow> ident \<Rightarrow> string \<Rightarrow> bool" where
  "backed_reservation s worktree_id task_name \<longleftrightarrow>
     exists_where (\<lambda>p. mp_worktree_id p = worktree_id \<and> mp_task_name p = task_name \<and> live_process p) (processes s)"

definition release_expired_start :: "db \<Rightarrow> ident \<Rightarrow> string \<Rightarrow> time \<Rightarrow> db \<times> bool" where
  "release_expired_start s worktree_id task_name now =
    (let P = (\<lambda>r. sr_worktree_id r = worktree_id \<and> sr_task_name r = task_name \<and> sr_expires_at r \<le> now
          \<and> \<not> backed_reservation s worktree_id task_name)
     in (s\<lparr>reservations := del_where P (reservations s)\<rparr>, count_where P (reservations s) = 1))"

text \<open>A lease on the repository of the worktree, or scoped to exactly this worktree.\<close>

definition lease_blocks_start :: "db \<Rightarrow> ident \<Rightarrow> bool" where
  "lease_blocks_start s worktree_id = (case row_by wt_id worktree_id (worktrees s) of
     None \<Rightarrow> False
   | Some w \<Rightarrow> exists_where (\<lambda>l. ol_repository_id l = wt_repository_id w \<and>
       (ol_subject_worktree_id l = None \<or> ol_subject_worktree_id l = Some worktree_id)) (op_leases s))"

text \<open>
  The insertion violates the primary key, or the foreign key when the worktree is unknown; both make the
  operation answer \<open>false\<close>.
\<close>

definition reserve_process_start ::
  "db \<Rightarrow> ident \<Rightarrow> string \<Rightarrow> string \<Rightarrow> time \<Rightarrow> reservation_options \<Rightarrow> store_error + (db \<times> bool)" where
  "reserve_process_start s worktree_id task_name token created_at options =
    (if token = [] then Inl Type_Error
     else let s1 = fst (release_expired_start s worktree_id task_name created_at) in
       if (case find_active_managed_process s1 worktree_id task_name of
             None \<Rightarrow> False | Some p \<Rightarrow> ro_replace_process_id options \<noteq> Some (mp_id p))
       then Inr (s1, False)
       else if lease_blocks_start s1 worktree_id then Inr (s1, False)
       else if find_reservation s1 worktree_id task_name \<noteq> None
         \<or> \<not> exists_where (\<lambda>w. wt_id w = worktree_id) (worktrees s1)
       then Inr (s1, False)
       else Inr (s1\<lparr>reservations := reservations s1 @ [\<lparr> sr_worktree_id = worktree_id, sr_task_name = task_name,
              sr_token = token, sr_created_at = created_at,
              sr_expires_at = (case ro_expires_at options of None \<Rightarrow> created_at | Some t \<Rightarrow> t),
              sr_replace_process_id = ro_replace_process_id options \<rparr>]\<rparr>, True))"

definition release_process_start :: "db \<Rightarrow> ident \<Rightarrow> string \<Rightarrow> string \<Rightarrow> db \<times> bool" where
  "release_process_start s worktree_id task_name token =
    (let P = (\<lambda>r. sr_worktree_id r = worktree_id \<and> sr_task_name r = task_name \<and> sr_token r = token)
     in (s\<lparr>reservations := del_where P (reservations s)\<rparr>, count_where P (reservations s) = 1))"

definition release_orphaned_reservations :: "db \<Rightarrow> db \<times> nat" where
  "release_orphaned_reservations s =
    (let P = (\<lambda>r. \<not> backed_reservation s (sr_worktree_id r) (sr_task_name r))
     in (s\<lparr>reservations := del_where P (reservations s)\<rparr>, count_where P (reservations s)))"

definition release_expired_replacement :: "db \<Rightarrow> process_row \<Rightarrow> time \<Rightarrow> db \<times> bool" where
  "release_expired_replacement s record now =
    (let P = (\<lambda>r. sr_worktree_id r = mp_worktree_id record \<and> sr_task_name r = mp_task_name record
          \<and> sr_expires_at r \<le> now \<and> sr_replace_process_id r = Some (mp_id record)
          \<and> exists_where (\<lambda>p. mp_id p = mp_id record \<and> mp_worktree_id p = mp_worktree_id record
              \<and> mp_task_name p = mp_task_name record \<and> mp_pid p = mp_pid record \<and> mp_pgid p = mp_pgid record
              \<and> mp_process_start_time p = mp_process_start_time record
              \<and> mp_command_fingerprint p = mp_command_fingerprint record
              \<and> mp_state p = PS_RUNNING \<and> \<not> mp_cleanup_required p) (processes s))
     in (s\<lparr>reservations := del_where P (reservations s)\<rparr>, count_where P (reservations s) = 1))"

definition has_start_reservation :: "db \<Rightarrow> ident \<Rightarrow> string \<Rightarrow> bool" where
  "has_start_reservation s worktree_id task_name \<longleftrightarrow> find_reservation s worktree_id task_name \<noteq> None"

definition list_managed_processes :: "db \<Rightarrow> process_query \<Rightarrow> process_row list" where
  "list_managed_processes s q = sort_key (\<lambda>p. (mp_started_at p, mp_id p)) (filter (\<lambda>p.
     (case pq_worktree_id q of None \<Rightarrow> True | Some w \<Rightarrow> mp_worktree_id p = w) \<and>
     (case pq_task_name q of None \<Rightarrow> True | Some n \<Rightarrow> mp_task_name p = n) \<and>
     (case pq_states q of None \<Rightarrow> True | Some sts \<Rightarrow> mp_state p \<in> set sts)) (processes s))"

section \<open>Active rows\<close>

lemma active_state_iff: "is_active_process_state st \<longleftrightarrow> st \<in> {PS_STARTING, PS_RUNNING, PS_STOPPING}"
  by (cases st) auto

lemma active_or_terminal: "is_terminal_process_state st \<longleftrightarrow> \<not> is_active_process_state st"
  by (cases st) auto

abbreviation active_row :: "ident \<Rightarrow> string \<Rightarrow> process_row \<Rightarrow> bool" where
  "active_row w task p \<equiv> mp_worktree_id p = w \<and> mp_task_name p = task \<and> is_active_process_state (mp_state p)"

lemma find_active_None: "find_active_managed_process s w task = None \<longleftrightarrow> (\<forall>p\<in>set (processes s). \<not> active_row w task p)"
proof -
  let ?xs = "sort_key (\<lambda>p. (mp_started_at p, mp_id p)) (filter (\<lambda>p. mp_worktree_id p = w \<and>
       mp_task_name p = task \<and> mp_state p \<in> {PS_STARTING, PS_RUNNING, PS_STOPPING}) (processes s))"
  have "find_active_managed_process s w task = None \<longleftrightarrow> set ?xs = {}"
    unfolding find_active_managed_process_def set_empty by (auto split: list.splits)
  then show ?thesis by (auto simp: active_state_iff)
qed

lemma find_active_Some:
  assumes "find_active_managed_process s w task = Some p"
  shows "p \<in> set (processes s) \<and> active_row w task p"
  using head_in_set [OF assms [unfolded find_active_managed_process_def]] unfolding set_rev set_sort
  by (auto simp: active_state_iff)

text \<open>Transitions never leave a terminal state and never return to an active one.\<close>

lemma transition_terminal: "process_transition_ok a b \<Longrightarrow> is_terminal_process_state a \<Longrightarrow> b = a"
  by (cases a) (auto simp: process_transition_ok_def)

lemma transition_active: "process_transition_ok a b \<Longrightarrow> is_active_process_state b \<Longrightarrow> is_active_process_state a"
  by (cases a; cases b) (auto simp: process_transition_ok_def)

fun process_rank :: "process_state \<Rightarrow> nat" where
  "process_rank PS_STARTING = 0"
| "process_rank PS_RUNNING = 1"
| "process_rank PS_STOPPING = 2"
| "process_rank _ = 3"

lemma transition_rank: "process_transition_ok a b \<Longrightarrow> a = b \<or> process_rank a < process_rank b"
  by (cases a; cases b) (auto simp: process_transition_ok_def)

end
