(* ===== verification/Process_Properties.thy ===== *)
theory Process_Properties
  imports Process_Store Lease_Properties
begin

text \<open>
  Managed processes as a state machine: at most one active process per task of a worktree, a life cycle
  that only moves forward, and start reservations that exclude each other and destructive operations.
\<close>

section \<open>The machine\<close>

text \<open>
  \<open>Drop\<close> deletes rows that are not live (a finished job's record, a forgotten worktree's history), \<open>Cascade\<close>
  deletes the rows of deleted worktrees; \<open>Other\<close> is any statement of another store.
\<close>

inductive process_step :: "db \<Rightarrow> db \<Rightarrow> bool" where
  Create: "create_managed_process s i token new_id = Inr (t, p) \<Longrightarrow> process_step s t"
| Update: "update_managed_process s i u = Inr (t, r) \<Longrightarrow> process_step s t"
| Reserve: "reserve_process_start s w task token now options = Inr (t, b) \<Longrightarrow> process_step s t"
| Release: "process_step s (fst (release_process_start s w task token))"
| Release_Expired: "process_step s (fst (release_expired_start s w task now))"
| Release_Orphaned: "process_step s (fst (release_orphaned_reservations s))"
| Release_Replacement: "process_step s (fst (release_expired_replacement s record now))"
| Delete: "processes t = del_where P (processes s) \<Longrightarrow> reservations t = del_where Q (reservations s) \<Longrightarrow> process_step s t"
| Other: "processes t = processes s \<Longrightarrow> reservations t = reservations s \<Longrightarrow> process_step s t"

text \<open>One row across an update: identity fixed, state forward, terminal rows never active again.\<close>

definition process_evolves :: "process_row \<Rightarrow> process_row \<Rightarrow> bool" where
  "process_evolves p q \<longleftrightarrow> mp_id q = mp_id p \<and> mp_worktree_id q = mp_worktree_id p \<and> mp_task_name q = mp_task_name p \<and>
     mp_pid q = mp_pid p \<and> mp_pgid q = mp_pgid p \<and> mp_process_start_time q = mp_process_start_time p \<and>
     mp_command_fingerprint q = mp_command_fingerprint p \<and> mp_started_at q = mp_started_at p \<and>
     mp_cleanup_owner_token q = mp_cleanup_owner_token p \<and>
     (mp_state q = mp_state p \<or> process_rank (mp_state p) < process_rank (mp_state q))"

definition wf_process :: "process_row \<Rightarrow> bool" where
  "wf_process p \<longleftrightarrow> (is_terminal_process_state (mp_state p) \<longleftrightarrow> mp_stopped_at p \<noteq> None)"

definition processes_ok :: "db \<Rightarrow> bool" where
  "processes_ok s \<longleftrightarrow> distinct (map mp_id (processes s)) \<and> (\<forall>p\<in>set (processes s). wf_process p) \<and>
    (\<forall>p\<in>set (processes s). \<forall>q\<in>set (processes s). is_active_process_state (mp_state p) \<and> is_active_process_state (mp_state q) \<and>
       mp_worktree_id p = mp_worktree_id q \<and> mp_task_name p = mp_task_name q \<longrightarrow> p = q) \<and>
    distinct (map (\<lambda>r. (sr_worktree_id r, sr_task_name r)) (reservations s))"

lemma process_evolves_refl [simp]: "process_evolves p p"
  by (simp add: process_evolves_def)

lemma rank_active: "is_active_process_state st \<longleftrightarrow> process_rank st < 3"
  by (cases st) auto

lemma rank_le: "process_rank st \<le> 3"
  by (cases st) auto

lemma evolves_active: "process_evolves p q \<Longrightarrow> is_active_process_state (mp_state q) \<Longrightarrow> is_active_process_state (mp_state p)"
  by (auto simp: process_evolves_def rank_active)

lemma process_evolves_trans: "process_evolves p q \<Longrightarrow> process_evolves q r \<Longrightarrow> process_evolves p r"
  by (auto simp: process_evolves_def)

section \<open>Each operation\<close>

lemma update_process_cases:
  assumes u: "update_managed_process s i u = Inr (t, r)"
  shows "\<exists>P. t = s\<lparr>processes := upd_where P (apply_process_update u) (processes s)\<rparr> \<and>
    (\<forall>p. P p \<longrightarrow> process_evolves p (apply_process_update u p) \<and> wf_process (apply_process_update u p))"
proof -
  let ?P = "\<lambda>p. mp_id p = i \<and> mp_state p \<in> set (pu_expected_states u)"
  have ok: "\<forall>st\<in>set (pu_expected_states u). process_transition_ok st (pu_state u)"
    and stamp: "validate_process_timestamp (pu_state u) (pu_stopped_at u) = Inr ()"
    and t: "t = s\<lparr>processes := upd_where ?P (apply_process_update u) (processes s)\<rparr>"
    using u by (auto simp: update_managed_process_def Let_def list_all_iff split: if_splits sum.splits option.splits)
  have "process_evolves p (apply_process_update u p) \<and> wf_process (apply_process_update u p)" if "?P p" for p
  proof -
    from ok that have "process_transition_ok (mp_state p) (pu_state u)" by blast
    from transition_rank [OF this] stamp show ?thesis
      by (auto simp: process_evolves_def wf_process_def apply_process_update_def validate_process_timestamp_def split: if_splits)
  qed
  with t show ?thesis by blast
qed

lemma reserve_frame:
  assumes "reserve_process_start s w task token now options = Inr (t, b)"
  shows "processes t = processes s"
  using assms by (auto simp: reserve_process_start_def release_expired_start_def Let_def split: if_splits)

lemma create_process_cases:
  assumes "create_managed_process s i token new_id = Inr (t, p)"
  shows "t = s\<lparr>processes := processes s @ [p]\<rparr> \<and> mp_id p = new_id \<and> new_id \<notin> mp_id ` set (processes s) \<and> wf_process p \<and>
    mp_worktree_id p = pi_worktree_id i \<and> mp_task_name p = pi_task_name i \<and> mp_state p = pi_state i \<and>
    (is_active_process_state (pi_state i) \<longrightarrow> (\<forall>q\<in>set (processes s). \<not> active_row (pi_worktree_id i) (pi_task_name i) q))"
  using assms
  by (auto simp: create_managed_process_def Let_def wf_process_def validate_managed_process_def validate_process_timestamp_def
      find_active_None list_ex_iff image_iff split: if_splits sum.splits)

text \<open>A step appends a new row, or evolves and deletes rows.\<close>

lemma process_step_cases2:
  assumes "process_step s t"
  obtains (create) i token new_id p where "create_managed_process s i token new_id = Inr (t, p)"
  | (edit) P f Q where "processes t = del_where Q (upd_where P f (processes s))"
      "\<And>p. P p \<Longrightarrow> process_evolves p (f p) \<and> wf_process (f p)"
proof -
  note give = create
  have same: thesis if "processes t = processes s"
    using edit [of "\<lambda>_. False" "\<lambda>_. False" id] that by (simp add: upd_where_absent del_where_absent)
  from assms show thesis
  proof cases
    case (Create i token new_id p)
    with give show thesis by blast
  next
    case (Update i u r)
    from update_process_cases [OF this] obtain P where "t = s\<lparr>processes := upd_where P (apply_process_update u) (processes s)\<rparr>"
      "\<forall>p. P p \<longrightarrow> process_evolves p (apply_process_update u p) \<and> wf_process (apply_process_update u p)" by blast
    then show thesis using edit [of "\<lambda>_. False" P "apply_process_update u"] by (simp add: del_where_absent)
  next
    case (Delete P Q)
    then show thesis using edit [of P "\<lambda>_. False" id] by (simp add: upd_where_absent)
  qed (auto intro: same simp: reserve_frame release_process_start_def release_expired_start_def
      release_orphaned_reservations_def release_expired_replacement_def Let_def)
qed

lemma start_reservations_step:
  assumes "process_step s t" and "distinct (map (\<lambda>r. (sr_worktree_id r, sr_task_name r)) (reservations s))"
  shows "distinct (map (\<lambda>r. (sr_worktree_id r, sr_task_name r)) (reservations t))"
  using assms(1)
proof cases
  case (Create i token new_id p)
  with create_process_cases [OF this] assms(2) show ?thesis by simp
next
  case (Update i u r)
  with update_process_cases [OF this] assms(2) show ?thesis by auto
next
  case (Reserve w task token now options b)
  have d: "distinct (map (\<lambda>r. (sr_worktree_id r, sr_task_name r)) (del_where P (reservations s)))" for P
    by (rule distinct_del_where [OF assms(2)])
  from Reserve show ?thesis
    using d by (auto simp: reserve_process_start_def release_expired_start_def find_reservation_def find_None_iff Let_def split: if_splits)
qed (use assms(2) in \<open>auto simp: release_process_start_def release_expired_start_def
      release_orphaned_reservations_def release_expired_replacement_def Let_def intro: distinct_del_where\<close>)

lemma process_step_ok:
  assumes st: "process_step s t" and ok: "processes_ok s"
  shows "processes_ok t"
proof -
  have res: "distinct (map (\<lambda>r. (sr_worktree_id r, sr_task_name r)) (reservations t))"
    by (rule start_reservations_step [OF st]) (use ok in \<open>simp add: processes_ok_def\<close>)
  from st show ?thesis
  proof (cases rule: process_step_cases2)
    case (create i token new_id p)
    note c = create_process_cases [OF create]
    from c have rows: "processes t = processes s @ [p]" by auto
    from ok c res show ?thesis
      unfolding processes_ok_def rows by auto
  next
    case (edit P f Q)
    let ?g = "\<lambda>p. if P p then f p else p"
    have ev: "process_evolves p (?g p)" for p using edit(2) by simp
    have rows: "\<forall>q\<in>set (processes t). \<exists>p\<in>set (processes s). q = ?g p" using edit(1) by (auto simp: set_upd_where)
    have "distinct (map mp_id (processes t))"
      unfolding edit(1)
      by (intro distinct_del_where distinct_upd_where) (use edit(2) ok in \<open>auto simp: process_evolves_def processes_ok_def\<close>)
    moreover have "\<forall>p\<in>set (processes t). wf_process p"
      using rows ok edit(2) by (auto simp: processes_ok_def)
    moreover have "p = q" if pq: "p \<in> set (processes t)" "q \<in> set (processes t)" "is_active_process_state (mp_state p)"
        "is_active_process_state (mp_state q)" "mp_worktree_id p = mp_worktree_id q" "mp_task_name p = mp_task_name q" for p q
    proof -
      from rows pq(1,2) obtain p' q' where o: "p' \<in> set (processes s)" "q' \<in> set (processes s)" "p = ?g p'" "q = ?g q'" by blast
      note e = ev [of p', folded o(3)] ev [of q', folded o(4)]
      have "is_active_process_state (mp_state p')" "is_active_process_state (mp_state q')"
        using evolves_active e pq(3,4) by blast+
      moreover have "mp_worktree_id p' = mp_worktree_id q'" "mp_task_name p' = mp_task_name q'"
        using e pq(5,6) by (simp_all add: process_evolves_def)
      ultimately have "p' = q'" using ok o(1,2) unfolding processes_ok_def by blast
      with o show ?thesis by simp
    qed
    ultimately show ?thesis using res unfolding processes_ok_def by blast
  qed
qed

text \<open>A row that is still there after a step is the old row, evolved.\<close>

definition processes_history :: "db \<Rightarrow> db \<Rightarrow> bool" where
  "processes_history s t \<longleftrightarrow> (\<forall>p\<in>set (processes s). \<forall>q\<in>set (processes t). mp_id q = mp_id p \<longrightarrow> process_evolves p q)"

interpretation procs: machine process_step processes_ok
  by unfold_locales (rule process_step_ok)

lemma process_step_history:
  assumes st: "process_step s t" and ok: "processes_ok s"
  shows "processes_history s t"
  unfolding processes_history_def
proof (intro ballI impI)
  fix p q assume pq: "p \<in> set (processes s)" "q \<in> set (processes t)" "mp_id q = mp_id p"
  have one: "p' = p" if "p' \<in> set (processes s)" "mp_id p' = mp_id p" for p'
    using ok pq(1) that by (auto simp: processes_ok_def distinct_map inj_on_def)
  from st show "process_evolves p q"
  proof (cases rule: process_step_cases2)
    case (create i token new_id r)
    from create_process_cases [OF create] have c: "processes t = processes s @ [r]" "mp_id r \<notin> mp_id ` set (processes s)" by auto
    from c(2) pq(1) have "mp_id p \<noteq> mp_id r" by (auto simp: key_notin)
    with c(1) pq(2,3) have "q \<in> set (processes s)" by auto
    from one [OF this pq(3)] show ?thesis by simp
  next
    case (edit P f Q)
    with pq obtain p' where p': "p' \<in> set (processes s)" "q = (if P p' then f p' else p')" by (auto simp: set_upd_where)
    with edit(2) have "process_evolves p' q" by simp
    moreover from this pq(3) p'(1) one have "p' = p" by (simp add: process_evolves_def)
    ultimately show ?thesis by simp
  qed
qed

section \<open>Properties\<close>

definition demo_process_input :: process_input where
  "demo_process_input = \<lparr> pi_worktree_id = ''w1'', pi_task_name = ''web'', pi_pid = Whole 7, pi_pgid = Whole 7,
     pi_process_start_time = ''t'', pi_command_fingerprint = ''c'', pi_state = PS_STARTING, pi_started_at = 3,
     pi_stopped_at = None, pi_stdout_path = ''o'', pi_stderr_path = ''e'', pi_cleanup_required = None,
     pi_cleanup_owner_token = None \<rparr>"

definition demo_process :: process_row where
  "demo_process = \<lparr> mp_id = ''p1'', mp_worktree_id = ''w1'', mp_task_name = ''web'', mp_pid = 7, mp_pgid = 7,
     mp_process_start_time = ''t'', mp_command_fingerprint = ''c'', mp_state = PS_STARTING, mp_started_at = 3,
     mp_stopped_at = None, mp_stdout_path = ''o'', mp_stderr_path = ''e'', mp_cleanup_required = False,
     mp_cleanup_owner_token = None, mp_exit_code = None, mp_exit_signal = None \<rparr>"

definition demo_started :: db where
  "demo_started = demo_registered\<lparr>processes := [demo_process]\<rparr>"

definition demo_stop :: process_update where
  "demo_stop = \<lparr> pu_expected_states = [PS_STARTING, PS_RUNNING], pu_state = PS_STOPPED, pu_stopped_at = Some 9,
     pu_reservation_token = None, pu_cleanup_required = None, pu_exit = None \<rparr>"

definition demo_stopped :: db where
  "demo_stopped = demo_registered\<lparr>processes := [demo_process\<lparr>mp_state := PS_STOPPED, mp_stopped_at := Some 9\<rparr>]\<rparr>"

lemma demo_create: "create_managed_process demo_registered demo_process_input None ''p1'' = Inr (demo_started, demo_process)"
proof -
  have "find_active_managed_process demo_registered ''w1'' ''web'' = None"
    by (simp add: find_active_None demo_registered_def empty_db_def)
  then show ?thesis
    by (simp add: create_managed_process_def demo_process_input_def validate_managed_process_def max_safe_integer_def
        validate_process_timestamp_def reservation_refused_def Let_def demo_started_def demo_process_def demo_registered_def
        demo_worktree_def empty_db_def)
qed

lemma demo_update: "update_managed_process demo_started ''p1'' demo_stop =
   Inr (demo_stopped, Some (demo_process\<lparr>mp_state := PS_STOPPED, mp_stopped_at := Some 9\<rparr>))"
  by (simp add: update_managed_process_def demo_stop_def demo_started_def demo_process_def demo_stopped_def
      process_transition_ok_def validate_process_timestamp_def get_managed_process_def reservation_refused_def Let_def
      apply_process_update_def)

lemma processes_ok_empty: "processes_ok empty_db"
  by (simp add: processes_ok_def empty_db_def)

lemma demo_process_run: "process_step\<^sup>*\<^sup>* empty_db demo_stopped"
proof -
  have "process_step empty_db demo_registered" by (rule process_step.Other) (simp_all add: demo_registered_def)
  from rtranclp_steps3 [of process_step, OF this process_step.Create [OF demo_create] process_step.Update [OF demo_update]]
  show ?thesis .
qed

lemma demo_started_run: "process_step\<^sup>*\<^sup>* empty_db demo_started"
proof -
  have "process_step empty_db demo_registered" by (rule process_step.Other) (simp_all add: demo_registered_def)
  from rtranclp_steps3 [of process_step, OF this process_step.Create [OF demo_create] process_step.Other [OF refl refl]]
  show ?thesis .
qed

text \<open>
  C4. One process per task: in every state reached from an empty store by creating, updating, reserving,
  releasing and deleting in any order, a worktree has at most one active process (\<open>STARTING\<close>, \<open>RUNNING\<close>,
  \<open>STOPPING\<close>) per task, and every process has a stop time exactly when its state is terminal
  (\<open>STOPPED\<close>, \<open>FAILED\<close>, \<open>STALE_IDENTITY\<close>).
\<close>

theorem one_active_process:
  assumes "process_step\<^sup>*\<^sup>* empty_db s"
  shows "(\<forall>p\<in>set (processes s). \<forall>q\<in>set (processes s).
      is_active_process_state (mp_state p) \<and> is_active_process_state (mp_state q)
      \<and> mp_worktree_id p = mp_worktree_id q \<and> mp_task_name p = mp_task_name q \<longrightarrow> p = q)
    \<and> (\<forall>p\<in>set (processes s). is_terminal_process_state (mp_state p) \<longleftrightarrow> mp_stopped_at p \<noteq> None)"
proof -
  from procs.run_inv [OF assms processes_ok_empty] have ok: "processes_ok s" .
  then have "\<forall>p\<in>set (processes s). wf_process p" by (simp add: processes_ok_def)
  then have "\<forall>p\<in>set (processes s). is_terminal_process_state (mp_state p) \<longleftrightarrow> mp_stopped_at p \<noteq> None"
    by (simp add: wf_process_def)
  with ok show ?thesis unfolding processes_ok_def by blast
qed

lemma one_active_process_witness:
  "{q \<in> set (processes demo_started). is_active_process_state (mp_state q) \<and> mp_worktree_id q = ''w1'' \<and> mp_task_name q = ''web''}
     = {demo_process}"
proof -
  have p: "demo_process \<in> set (processes demo_started)" "is_active_process_state (mp_state demo_process)"
    "mp_worktree_id demo_process = ''w1''" "mp_task_name demo_process = ''web''"
    by (simp_all add: demo_started_def demo_process_def)
  have "q = demo_process" if "q \<in> set (processes demo_started)" "is_active_process_state (mp_state q)"
    "mp_worktree_id q = ''w1''" "mp_task_name q = ''web''" for q
    using conjunct1 [OF one_active_process [OF demo_started_run], rule_format, OF that(1) p(1)] that p by simp
  with p show ?thesis by blast
qed

text \<open>
  A process moves forward only: across any operation, a process that is still recorded keeps its identity
  (PID, group, start time, command, worktree, task), its state is the same or a later one, and a stopped,
  failed or stale process stays in exactly that state.
\<close>

theorem process_moves_forward:
  assumes "process_step s t" and "processes_ok s" and "p \<in> set (processes s)" and "q \<in> set (processes t)" and "mp_id q = mp_id p"
  shows "mp_pid q = mp_pid p \<and> mp_pgid q = mp_pgid p \<and> mp_process_start_time q = mp_process_start_time p
    \<and> mp_command_fingerprint q = mp_command_fingerprint p \<and> mp_worktree_id q = mp_worktree_id p \<and> mp_task_name q = mp_task_name p
    \<and> (mp_state q = mp_state p \<or> process_rank (mp_state p) < process_rank (mp_state q))
    \<and> (is_terminal_process_state (mp_state p) \<longrightarrow> mp_state q = mp_state p)"
proof -
  from process_step_history [OF assms(1,2)] assms(3-5) have ev: "process_evolves p q" by (simp add: processes_history_def)
  moreover have "mp_state q = mp_state p" if "is_terminal_process_state (mp_state p)"
  proof (rule ccontr)
    assume "mp_state q \<noteq> mp_state p"
    with ev have "process_rank (mp_state p) < 3" using rank_le [of "mp_state q"] by (simp add: process_evolves_def)
    with that show False by (simp add: active_or_terminal rank_active)
  qed
  ultimately show ?thesis by (simp add: process_evolves_def)
qed

lemma process_moves_forward_witness:
  "{q \<in> set (processes demo_stopped). mp_id q = ''p1'' \<and> process_rank (mp_state q) \<le> process_rank PS_STARTING \<and> mp_state q \<noteq> PS_STARTING} = {}"
proof -
  have p: "demo_process \<in> set (processes demo_started)" "mp_id demo_process = ''p1''" "mp_state demo_process = PS_STARTING"
    by (simp_all add: demo_started_def demo_process_def)
  have "process_rank PS_STARTING < process_rank (mp_state q) \<or> mp_state q = PS_STARTING"
    if "q \<in> set (processes demo_stopped)" "mp_id q = ''p1''" for q
    using process_moves_forward [OF process_step.Update [OF demo_update] procs.run_inv [OF demo_started_run processes_ok_empty] p(1) that(1)]
      that(2) p(2,3) by auto
  then show ?thesis by fastforce
qed

text \<open>
  Starts exclude each other and destruction: a reservation is granted only when no other process of the
  task is active and no repository operation holds the worktree; and until it expires or is released with
  its own token, every other reservation of the same task is refused and changes nothing.
\<close>

theorem reservation_excludes:
  assumes "reserve_process_start s w task token now options = Inr (t, True)"
  shows "(\<forall>p\<in>set (processes s). active_row w task p \<longrightarrow> (\<exists>i. ro_replace_process_id options = Some i \<and>
        (\<exists>q\<in>set (processes s). active_row w task q \<and> mp_id q = i)))
    \<and> \<not> lease_blocks_start s w
    \<and> map_option sr_token (find_reservation t w task) = Some token
    \<and> (\<forall>expiry later other others. ro_expires_at options = Some expiry \<and> later < expiry \<and> other \<noteq> [] \<longrightarrow>
        reserve_process_start t w task other later others = Inr (t, False))"
proof -
  define s1 where "s1 = fst (release_expired_start s w task now)"
  have frame: "processes s1 = processes s" "worktrees s1 = worktrees s" "op_leases s1 = op_leases s"
    by (simp_all add: s1_def release_expired_start_def Let_def)
  let ?row = "\<lparr> sr_worktree_id = w, sr_task_name = task, sr_token = token, sr_created_at = now,
      sr_expires_at = (case ro_expires_at options of None \<Rightarrow> now | Some t \<Rightarrow> t),
      sr_replace_process_id = ro_replace_process_id options \<rparr>"
  have t: "t = s1\<lparr>reservations := reservations s1 @ [?row]\<rparr>"
    and act: "\<not> (case find_active_managed_process s1 w task of None \<Rightarrow> False | Some p \<Rightarrow> ro_replace_process_id options \<noteq> Some (mp_id p))"
    and lease: "\<not> lease_blocks_start s1 w" and none: "find_reservation s1 w task = None"
    using assms by (auto simp: reserve_process_start_def Let_def s1_def split: if_splits)
  have find_act: "find_active_managed_process s1 w task = find_active_managed_process s w task"
    by (simp add: find_active_managed_process_def frame)
  have one: "\<exists>i. ro_replace_process_id options = Some i \<and> (\<exists>q\<in>set (processes s). active_row w task q \<and> mp_id q = i)"
    if "p \<in> set (processes s)" "active_row w task p" for p
  proof -
    from that have "find_active_managed_process s w task \<noteq> None" unfolding find_active_None by blast
    then obtain q where q: "find_active_managed_process s w task = Some q" by auto
    with act find_act find_active_Some [OF q] show ?thesis by auto
  qed
  have app: "find P (xs @ [x]) = Some x" if "find P xs = None" "P x" for P :: "reservation_row \<Rightarrow> bool" and xs x
    using that by (induction xs) (auto split: if_splits)
  have fr: "find_reservation t w task = Some ?row"
    using none app unfolding t by (simp add: find_reservation_def)
  have later: "reserve_process_start t w task other later others = Inr (t, False)"
    if e: "ro_expires_at options = Some expiry" "later < expiry" "other \<noteq> []" for expiry later other others
  proof -
    have "\<forall>r\<in>set (reservations t). sr_worktree_id r = w \<and> sr_task_name r = task \<longrightarrow> \<not> sr_expires_at r \<le> later"
      using none e unfolding t by (auto simp: find_reservation_def find_None_iff)
    then have "\<forall>r\<in>set (reservations t). \<not> (sr_worktree_id r = w \<and> sr_task_name r = task \<and> sr_expires_at r \<le> later
        \<and> \<not> backed_reservation t w task)" by blast
    from del_where_absent [OF this] count_where_0 [THEN iffD2, OF this] have "release_expired_start t w task later = (t, False)"
      by (simp only: release_expired_start_def Let_def) simp
    with fr e(3) show ?thesis by (simp add: reserve_process_start_def Let_def)
  qed
  have "lease_blocks_start s w = lease_blocks_start s1 w" by (simp add: lease_blocks_start_def frame split: option.split)
  with one lease fr later show ?thesis by auto
qed

definition demo_reservation_options :: reservation_options where
  "demo_reservation_options = \<lparr> ro_expires_at = Some 50, ro_replace_process_id = None \<rparr>"

lemma reservation_excludes_witness:
  "\<exists>t. reserve_process_start demo_registered ''w1'' ''web'' ''a'' 10 demo_reservation_options = Inr (t, True) \<and>
     reserve_process_start t ''w1'' ''web'' ''b'' 20 demo_reservation_options = Inr (t, False)"
proof -
  have n: "find_active_managed_process demo_registered w task = None" for w task
    by (simp add: find_active_None demo_registered_def empty_db_def)
  have r: "release_expired_start demo_registered ''w1'' ''web'' 10 = (demo_registered, False)"
    by (simp add: release_expired_start_def demo_registered_def empty_db_def)
  obtain t where t: "reserve_process_start demo_registered ''w1'' ''web'' ''a'' 10 demo_reservation_options = Inr (t, True)"
    by (simp add: reserve_process_start_def Let_def r n)
      (simp add: lease_blocks_start_def find_reservation_def demo_registered_def demo_worktree_def empty_db_def)
  from reservation_excludes [OF t] have "reserve_process_start t ''w1'' ''web'' ''b'' 20 demo_reservation_options = Inr (t, False)"
    by (simp add: demo_reservation_options_def)
  with t show ?thesis by blast
qed

end
