(* ===== verification/Child_Stores.thy ===== *)
theory Child_Stores
  imports Store_Types
begin

text \<open>
  The stores of rows that hang off a worktree without a foreign key: CI watches
  (\<open>packages/core/src/state/ci-store.ts\<close>), task overrides (\<open>task-overrides-store.ts\<close>), checklists
  (\<open>checklist-store.ts\<close>), and the adapter trust records of \<open>sqlite-store.ts\<close>.
\<close>

section \<open>CI watches\<close>

text \<open>The runs of a watch (table \<open>ci_runs\<close>) are JSON of a schema library and are left out.\<close>

record ci_start_input =
  ci_repository_id :: ident
  ci_worktree_id :: ident
  ci_worktree_path :: string
  ci_provider_repo :: string
  ci_branch :: "string option"
  ci_head_sha :: string
  ci_pr :: "int option"
  ci_now :: time
  ci_next_poll_at :: time
  ci_poll_interval_ms :: int
  ci_max_pending :: nat

text \<open>A field an update leaves out is \<open>None\<close>; \<open>detail\<close> and \<open>pr\<close> may be set to \<open>null\<close>.\<close>

record ci_update =
  cu_now :: time
  cu_state :: "ci_state option"
  cu_detail :: "string option option"
  cu_pr :: "int option option"
  cu_next_poll_at :: "time option"
  cu_poll_interval_ms :: "int option"
  cu_failure_streak :: "nat option"
  cu_saw_runs :: "bool option"

definition ci_pending_for :: "db \<Rightarrow> ident \<Rightarrow> ci_watch option" where
  "ci_pending_for s worktree_id = find (\<lambda>w. cw_worktree_id w = worktree_id \<and> cw_state w = CI_pending) (ci_watches s)"

definition ci_get :: "db \<Rightarrow> ident \<Rightarrow> ci_watch option" where
  "ci_get s watch_id = row_by cw_id watch_id (ci_watches s)"

definition upd_ci :: "(ci_watch \<Rightarrow> bool) \<Rightarrow> (ci_watch \<Rightarrow> ci_watch) \<Rightarrow> db \<Rightarrow> db" where
  "upd_ci P f s = s\<lparr>ci_watches := upd_where P f (ci_watches s)\<rparr>"

definition ci_next_sequence :: "db \<Rightarrow> nat" where
  "ci_next_sequence s = Suc (foldr max (map cw_sequence (ci_watches s)) 0)"

definition ci_start :: "db \<Rightarrow> ci_start_input \<Rightarrow> ident \<Rightarrow> store_error + (db \<times> ci_watch \<times> bool)" where
  "ci_start s i new_id =
    (let existing = ci_pending_for s (ci_worktree_id i) in
     case (case existing of None \<Rightarrow> None | Some w \<Rightarrow> if cw_head_sha w = ci_head_sha i then Some w else None) of
       Some w \<Rightarrow>
         if ci_pr i \<noteq> None \<and> ci_pr i \<noteq> cw_pr w
         then let t = upd_ci (\<lambda>x. cw_id x = cw_id w) (\<lambda>x. x\<lparr>cw_pr := ci_pr i, cw_updated_at := ci_now i\<rparr>) s
              in (case ci_get t (cw_id w) of None \<Rightarrow> Inl Type_Error | Some x \<Rightarrow> Inr (t, x, True))
         else Inr (s, w, True)
     | None \<Rightarrow>
       let s1 = (case existing of None \<Rightarrow> s | Some w \<Rightarrow>
             upd_ci (\<lambda>x. cw_id x = cw_id w)
               (\<lambda>x. x\<lparr>cw_state := CI_superseded, cw_finished_at := Some (ci_now i), cw_updated_at := ci_now i\<rparr>) s)
       in if count_where (\<lambda>x. cw_state x = CI_pending) (ci_watches s1) \<ge> ci_max_pending i
          then Inl (Plain_Error Ci_Unavailable)
          else if exists_where (\<lambda>x. cw_id x = new_id) (ci_watches s1) \<or> ci_poll_interval_ms i \<le> 0
          then Inl (Plain_Error Constraint_Violation)
          else let w = \<lparr> cw_id = new_id, cw_sequence = ci_next_sequence s1, cw_repository_id = ci_repository_id i,
                 cw_worktree_id = ci_worktree_id i, cw_worktree_path = ci_worktree_path i,
                 cw_provider_repo = ci_provider_repo i, cw_branch = ci_branch i, cw_head_sha = ci_head_sha i,
                 cw_pr = ci_pr i, cw_state = CI_pending, cw_detail = None, cw_started_at = ci_now i,
                 cw_updated_at = ci_now i, cw_finished_at = None, cw_next_poll_at = ci_next_poll_at i,
                 cw_poll_interval_ms = ci_poll_interval_ms i, cw_failure_streak = 0, cw_saw_runs = False \<rparr>
            in Inr (s1\<lparr>ci_watches := ci_watches s1 @ [w]\<rparr>, w, False))"

definition ci_latest_for_worktree :: "db \<Rightarrow> ident \<Rightarrow> ci_watch option" where
  "ci_latest_for_worktree s worktree_id =
    (case rev (sort_key cw_sequence (filter (\<lambda>w. cw_worktree_id w = worktree_id) (ci_watches s))) of
       [] \<Rightarrow> None | w # _ \<Rightarrow> Some w)"

definition ci_pending :: "db \<Rightarrow> ci_watch list" where
  "ci_pending s = sort_key (\<lambda>w. (cw_next_poll_at w, cw_sequence w)) (filter (\<lambda>w. cw_state w = CI_pending) (ci_watches s))"

definition given :: "'a option \<Rightarrow> 'a \<Rightarrow> 'a" where
  "given u old = (case u of None \<Rightarrow> old | Some x \<Rightarrow> x)"

definition updated_watch :: "ci_update \<Rightarrow> ci_watch \<Rightarrow> ci_watch" where
  "updated_watch u w =
    (let st = given (cu_state u) (cw_state w) in
     w\<lparr>cw_state := st, cw_detail := given (cu_detail u) (cw_detail w), cw_pr := given (cu_pr u) (cw_pr w),
       cw_updated_at := cu_now u, cw_finished_at := (if st = CI_pending then None else Some (cu_now u)),
       cw_next_poll_at := given (cu_next_poll_at u) (cw_next_poll_at w),
       cw_poll_interval_ms := given (cu_poll_interval_ms u) (cw_poll_interval_ms w),
       cw_failure_streak := given (cu_failure_streak u) (cw_failure_streak w),
       cw_saw_runs := given (cu_saw_runs u) (cw_saw_runs w)\<rparr>)"

definition ci_update_watch :: "db \<Rightarrow> ident \<Rightarrow> ci_update \<Rightarrow> store_error + (db \<times> ci_watch option)" where
  "ci_update_watch s watch_id u = (case ci_get s watch_id of
     None \<Rightarrow> Inr (s, None)
   | Some w \<Rightarrow>
     if cw_state w \<noteq> CI_pending then Inr (s, Some w)
     else if cw_poll_interval_ms (updated_watch u w) \<le> 0 then Inl (Plain_Error Constraint_Violation)
     else let t = upd_ci (\<lambda>x. cw_id x = watch_id) (\<lambda>_. updated_watch u w) s in Inr (t, ci_get t watch_id))"

definition ci_cancel_pending :: "db \<Rightarrow> ident \<Rightarrow> time \<Rightarrow> string \<Rightarrow> db \<times> ci_watch option" where
  "ci_cancel_pending s worktree_id now detail = (case ci_pending_for s worktree_id of
     None \<Rightarrow> (s, None)
   | Some w \<Rightarrow> let t = upd_ci (\<lambda>x. cw_id x = cw_id w) (\<lambda>x. x\<lparr>cw_state := CI_cancelled, cw_detail := Some detail,
         cw_finished_at := Some now, cw_updated_at := now\<rparr>) s
     in (t, ci_get t (cw_id w)))"

definition ci_delete_for_worktree :: "db \<Rightarrow> ident \<Rightarrow> db \<times> nat" where
  "ci_delete_for_worktree s worktree_id =
    (let P = (\<lambda>w. cw_worktree_id w = worktree_id)
     in (s\<lparr>ci_watches := del_where P (ci_watches s)\<rparr>, count_where P (ci_watches s)))"

definition ci_prune :: "db \<Rightarrow> time \<Rightarrow> int \<Rightarrow> db \<times> nat" where
  "ci_prune s now retention_ms =
    (let cutoff = int now - retention_ms;
         P = (\<lambda>w. case cw_finished_at w of None \<Rightarrow> False | Some t \<Rightarrow> int t < cutoff);
         rows = del_where P (ci_watches s);
         Q = (\<lambda>w. cw_state w = CI_superseded \<and> exists_where (\<lambda>newer. cw_worktree_id newer = cw_worktree_id w
               \<and> cw_sequence newer > cw_sequence w \<and> cw_finished_at newer \<noteq> None \<and> cw_state newer \<noteq> CI_superseded) rows)
     in (s\<lparr>ci_watches := del_where Q rows\<rparr>, count_where P (ci_watches s) + count_where Q rows))"

section \<open>Task overrides\<close>

text \<open>
  \<open>parse\<close> is \<open>taskSchema.safeParse (JSON.parse text)\<close> followed by nothing more than success or failure;
  the stored text is the canonical one the caller's task serializes to.
\<close>

definition override_get :: "(string \<Rightarrow> bool) \<Rightarrow> db \<Rightarrow> ident \<Rightarrow> string \<Rightarrow> task_override option" where
  "override_get parse s worktree_id task_name =
    (case find (\<lambda>r. to_worktree_id r = worktree_id \<and> to_task_name r = task_name) (overrides s) of
       None \<Rightarrow> None | Some r \<Rightarrow> if parse (to_task_json r) then Some r else None)"

definition override_set ::
  "(string \<Rightarrow> bool) \<Rightarrow> db \<Rightarrow> ident \<Rightarrow> string \<Rightarrow> string \<Rightarrow> time \<Rightarrow> db \<times> (store_error + task_override)" where
  "override_set parse s worktree_id task_name task_json now =
    (let P = (\<lambda>r. to_worktree_id r = worktree_id \<and> to_task_name r = task_name);
         existing = find P (overrides s);
         created_at = (case existing of None \<Rightarrow> now | Some r \<Rightarrow> to_created_at r);
         row = \<lparr> to_worktree_id = worktree_id, to_task_name = task_name, to_task_json = task_json,
                 to_created_at = created_at, to_updated_at = now \<rparr>;
         t = (case existing of
           None \<Rightarrow> s\<lparr>overrides := overrides s @ [row]\<rparr>
         | Some _ \<Rightarrow> s\<lparr>overrides := upd_where P (\<lambda>r. r\<lparr>to_task_json := task_json, to_updated_at := now\<rparr>) (overrides s)\<rparr>)
     in (t, if parse task_json then Inr row else Inl Type_Error))"

definition override_list :: "(string \<Rightarrow> bool) \<Rightarrow> db \<Rightarrow> ident \<Rightarrow> task_override list" where
  "override_list parse s worktree_id = filter (\<lambda>r. parse (to_task_json r))
     (sort_key to_task_name (filter (\<lambda>r. to_worktree_id r = worktree_id) (overrides s)))"

definition override_unset :: "db \<Rightarrow> ident \<Rightarrow> string \<Rightarrow> db \<times> bool" where
  "override_unset s worktree_id task_name =
    (let P = (\<lambda>r. to_worktree_id r = worktree_id \<and> to_task_name r = task_name)
     in (s\<lparr>overrides := del_where P (overrides s)\<rparr>, count_where P (overrides s) > 0))"

definition override_delete_for_worktree :: "db \<Rightarrow> ident \<Rightarrow> db \<times> nat" where
  "override_delete_for_worktree s worktree_id =
    (let P = (\<lambda>r. to_worktree_id r = worktree_id)
     in (s\<lparr>overrides := del_where P (overrides s)\<rparr>, count_where P (overrides s)))"

section \<open>Checklists\<close>

definition checklist_max_items :: nat where
  "checklist_max_items = 100"

definition checklist_max_text_length :: nat where
  "checklist_max_text_length = 500"

text \<open>\<open>String.prototype.trim\<close> on the characters of a \<open>string\<close> (the white space below U+0100).\<close>

definition js_space :: "char \<Rightarrow> bool" where
  "js_space c \<longleftrightarrow> of_char c \<in> {9, 10, 11, 12, 13, 32, 160 :: nat}"

definition js_trim :: "string \<Rightarrow> string" where
  "js_trim t = rev (dropWhile js_space (rev (dropWhile js_space t)))"

definition checklist_items :: "string list \<Rightarrow> string list" where
  "checklist_items items = map (take checklist_max_text_length)
     (take checklist_max_items (filter (\<lambda>t. length t > 0) (map js_trim items)))"

definition checklist_list :: "db \<Rightarrow> ident \<Rightarrow> checklist_item list" where
  "checklist_list s worktree_id = sort_key ck_position (filter (\<lambda>r. ck_worktree_id r = worktree_id) (checklist s))"

definition checklist_set :: "db \<Rightarrow> ident \<Rightarrow> string list \<Rightarrow> time \<Rightarrow> db \<times> checklist_item list" where
  "checklist_set s worktree_id items now =
    (let rows = map (\<lambda>(position, t). \<lparr> ck_worktree_id = worktree_id, ck_position = position, ck_text = t,
           ck_checked = False, ck_created_at = now, ck_updated_at = now \<rparr>) (enumerate 0 (checklist_items items));
         t = s\<lparr>checklist := del_where (\<lambda>r. ck_worktree_id r = worktree_id) (checklist s) @ rows\<rparr>
     in (t, checklist_list t worktree_id))"

definition checklist_set_checked :: "db \<Rightarrow> ident \<Rightarrow> nat \<Rightarrow> bool \<Rightarrow> time \<Rightarrow> db \<times> checklist_item option" where
  "checklist_set_checked s worktree_id position checked now =
    (let P = (\<lambda>r. ck_worktree_id r = worktree_id \<and> ck_position r = position);
         f = (\<lambda>r. r\<lparr>ck_checked := checked, ck_updated_at := now\<rparr>)
     in case find P (checklist s) of
          None \<Rightarrow> (s, None)
        | Some r \<Rightarrow> (s\<lparr>checklist := upd_where P f (checklist s)\<rparr>, Some (f r)))"

definition checklist_delete_for_worktree :: "db \<Rightarrow> ident \<Rightarrow> db \<times> nat" where
  "checklist_delete_for_worktree s worktree_id =
    (let P = (\<lambda>r. ck_worktree_id r = worktree_id)
     in (s\<lparr>checklist := del_where P (checklist s)\<rparr>, count_where P (checklist s)))"

section \<open>Adapter trust\<close>

definition hex_digit :: "char \<Rightarrow> bool" where
  "hex_digit c \<longleftrightarrow> c \<in> set ''0123456789abcdef''"

definition upsert_adapter_trust :: "db \<Rightarrow> ident \<Rightarrow> string \<Rightarrow> string \<Rightarrow> time \<Rightarrow> store_error + (db \<times> adapter_trust)" where
  "upsert_adapter_trust s adapter_id canonical_path sha256 now =
    (if js_trim adapter_id = [] \<or> js_trim canonical_path = [] \<or> length sha256 \<noteq> 64 \<or> \<not> list_all hex_digit sha256
     then Inl Type_Error
     else let P = (\<lambda>r. at_adapter_id r = adapter_id \<and> at_canonical_path r = canonical_path);
              row = \<lparr> at_adapter_id = adapter_id, at_canonical_path = canonical_path, at_sha256 = sha256, at_trusted_at = now \<rparr>
          in Inr (s\<lparr>trusts := (if exists_where P (trusts s) then upd_where P (\<lambda>_. row) (trusts s) else trusts s @ [row])\<rparr>, row))"

definition list_adapter_trust :: "db \<Rightarrow> adapter_trust list" where
  "list_adapter_trust s = sort_key (\<lambda>r. (at_adapter_id r, at_canonical_path r)) (trusts s)"

definition delete_adapter_trust :: "db \<Rightarrow> ident \<Rightarrow> db \<times> nat" where
  "delete_adapter_trust s adapter_id =
    (let P = (\<lambda>r. at_adapter_id r = adapter_id) in (s\<lparr>trusts := del_where P (trusts s)\<rparr>, count_where P (trusts s)))"

section \<open>One pending watch per worktree\<close>

definition ci_ok :: "db \<Rightarrow> bool" where
  "ci_ok s \<longleftrightarrow> distinct (map cw_id (ci_watches s)) \<and>
    distinct (map cw_worktree_id (filter (\<lambda>w. cw_state w = CI_pending) (ci_watches s))) \<and>
    (\<forall>w\<in>set (ci_watches s). cw_state w = CI_pending \<longleftrightarrow> cw_finished_at w = None)"

inductive ci_step :: "db \<Rightarrow> db \<Rightarrow> bool" where
  Start: "ci_start s i new_id = Inr (t, w, reused) \<Longrightarrow> ci_step s t"
| Update: "ci_update_watch s watch_id u = Inr (t, r) \<Longrightarrow> ci_step s t"
| Cancel: "ci_step s (fst (ci_cancel_pending s worktree_id now detail))"
| Delete: "ci_step s (fst (ci_delete_for_worktree s worktree_id))"
| Prune: "ci_step s (fst (ci_prune s now retention_ms))"
| Other: "ci_watches t = ci_watches s \<Longrightarrow> ci_step s t"

lemma ci_ok_delete: "ci_ok s \<Longrightarrow> ci_watches t = del_where P (ci_watches s) \<Longrightarrow> ci_ok t"
  by (simp add: ci_ok_def distinct_del_where distinct_filter_del_where)

text \<open>A row may be closed or edited, never reopened.\<close>

lemma ci_ok_edit:
  assumes ok: "ci_ok s" and t: "t = upd_ci P f s"
    and f: "\<And>w. w \<in> set (ci_watches s) \<Longrightarrow> P w \<Longrightarrow> cw_id (f w) = cw_id w \<and> cw_worktree_id (f w) = cw_worktree_id w \<and>
      (cw_state (f w) = CI_pending \<longrightarrow> cw_state w = CI_pending) \<and> (cw_state (f w) = CI_pending \<longleftrightarrow> cw_finished_at (f w) = None)"
  shows "ci_ok t"
proof -
  have all: "list_all2 (\<lambda>v w. cw_id w = cw_id v \<and> cw_worktree_id w = cw_worktree_id v \<and> (cw_state w = CI_pending \<longrightarrow> cw_state v = CI_pending) \<and>
      (cw_state w = CI_pending \<longleftrightarrow> cw_finished_at w = None)) (ci_watches s) (ci_watches t)"
    unfolding t upd_ci_def using f ok by (auto intro!: list_all2_upd_where simp: ci_ok_def)
  have "distinct (map cw_id (ci_watches t))"
    using list_all2_map_eq [OF all, of cw_id] ok by (simp add: ci_ok_def)
  moreover have "distinct (map cw_worktree_id (filter (\<lambda>w. cw_state w = CI_pending) (ci_watches t)))"
    by (rule list_all2_distinct_filter [OF all]) (use ok in \<open>auto simp: ci_ok_def\<close>)
  moreover have "\<forall>w\<in>set (ci_watches t). cw_state w = CI_pending \<longleftrightarrow> cw_finished_at w = None"
    using list_all2_setD [OF all] by blast
  ultimately show ?thesis unfolding ci_ok_def by blast
qed

lemma ci_pending_for_None:
  "ci_pending_for s w = None \<longleftrightarrow> (\<forall>x\<in>set (ci_watches s). \<not> (cw_worktree_id x = w \<and> cw_state x = CI_pending))"
  by (auto simp: ci_pending_for_def find_None_iff)

lemma ci_pending_for_Some:
  "ci_pending_for s w = Some x \<Longrightarrow> x \<in> set (ci_watches s) \<and> cw_worktree_id x = w \<and> cw_state x = CI_pending"
  by (auto simp: ci_pending_for_def find_Some_iff)

lemma ci_id_unique: "ci_ok s \<Longrightarrow> v \<in> set (ci_watches s) \<Longrightarrow> w \<in> set (ci_watches s) \<Longrightarrow> cw_id v = cw_id w \<Longrightarrow> v = w"
  by (auto simp: ci_ok_def distinct_map inj_on_def)

lemma ci_superseded_ok:
  assumes ok: "ci_ok s" and st: "st \<noteq> CI_pending"
  shows "ci_ok (upd_ci (\<lambda>x. cw_id x = i) (\<lambda>x. x\<lparr>cw_state := st, cw_finished_at := Some now, cw_updated_at := now\<rparr>) s)"
  by (rule ci_ok_edit [OF ok refl]) (use st in simp)

text \<open>Closing the pending watch of a worktree leaves it without one.\<close>

lemma ci_closed_none:
  assumes ok: "ci_ok s" and w: "ci_pending_for s worktree_id = Some w" and st: "st \<noteq> CI_pending"
    and f: "\<And>x. cw_state (f x) = st \<and> cw_worktree_id (f x) = cw_worktree_id x"
  shows "ci_pending_for (upd_ci (\<lambda>x. cw_id x = cw_id w) f s) worktree_id = None"
proof -
  note p = ci_pending_for_Some [OF w]
  have one: "x = w" if "x \<in> set (ci_watches s)" "cw_worktree_id x = worktree_id" "cw_state x = CI_pending" for x
    using ok p that by (auto simp: ci_ok_def distinct_map inj_on_def)
  show ?thesis
    unfolding ci_pending_for_None upd_ci_def using one f st by (auto simp: set_upd_where)
qed

lemma ci_start_ok:
  assumes ok: "ci_ok s" and r: "ci_start s i new_id = Inr (t, w, reused)"
  shows "ci_ok t"
proof -
  let ?e = "ci_pending_for s (ci_worktree_id i)"
  show ?thesis
  proof (cases "\<exists>v. ?e = Some v \<and> cw_head_sha v = ci_head_sha i")
    case True
    then obtain v where v: "?e = Some v" "cw_head_sha v = ci_head_sha i" by blast
    have "ci_ok (upd_ci (\<lambda>x. cw_id x = cw_id v) (\<lambda>x. x\<lparr>cw_pr := ci_pr i, cw_updated_at := ci_now i\<rparr>) s)"
      by (rule ci_ok_edit [OF ok refl]) (use ok in \<open>auto simp: ci_ok_def\<close>)
    with r v ok show ?thesis by (auto simp: ci_start_def Let_def split: if_splits option.splits)
  next
    case False
    define s1 where "s1 = (case ?e of None \<Rightarrow> s | Some w \<Rightarrow> upd_ci (\<lambda>x. cw_id x = cw_id w)
        (\<lambda>x. x\<lparr>cw_state := CI_superseded, cw_finished_at := Some (ci_now i), cw_updated_at := ci_now i\<rparr>) s)"
    have ok1: "ci_ok s1" using ok ci_superseded_ok [OF ok] by (auto simp: s1_def split: option.splits)
    have none: "ci_pending_for s1 (ci_worktree_id i) = None"
      by (cases ?e) (auto simp: s1_def intro!: ci_closed_none [OF ok, where st = CI_superseded])
    have w: "ci_watches t = ci_watches s1 @ [w]" "cw_worktree_id w = ci_worktree_id i" "cw_state w = CI_pending"
      "cw_finished_at w = None" "cw_id w = new_id" "new_id \<notin> cw_id ` set (ci_watches s1)"
      using r False by (auto simp: ci_start_def Let_def s1_def list_ex_iff split: if_splits option.splits)
    with ok1 none show ?thesis
      by (auto simp: ci_ok_def ci_pending_for_None)
  qed
qed

lemma ci_update_ok:
  assumes ok: "ci_ok s" and r: "ci_update_watch s watch_id u = Inr (t, res)"
  shows "ci_ok t"
proof -
  have "ci_ok (upd_ci (\<lambda>x. cw_id x = watch_id) (\<lambda>_. updated_watch u w) s)"
    if w: "ci_get s watch_id = Some w" "cw_state w = CI_pending" for w
  proof (rule ci_ok_edit [OF ok refl])
    fix x assume x: "x \<in> set (ci_watches s)" "cw_id x = watch_id"
    from w(1) have "w \<in> set (ci_watches s)" "cw_id w = watch_id" by (auto simp: ci_get_def dest: row_by_SomeD)
    with x ci_id_unique [OF ok x(1)] have "x = w" by simp
    with w(2) show "cw_id (updated_watch u w) = cw_id x \<and> cw_worktree_id (updated_watch u w) = cw_worktree_id x \<and>
        (cw_state (updated_watch u w) = CI_pending \<longrightarrow> cw_state x = CI_pending) \<and>
        (cw_state (updated_watch u w) = CI_pending \<longleftrightarrow> cw_finished_at (updated_watch u w) = None)"
      by (simp add: updated_watch_def Let_def)
  qed
  with r ok show ?thesis by (auto simp: ci_update_watch_def Let_def split: option.splits if_splits)
qed

lemma ci_cancel_ok: "ci_ok s \<Longrightarrow> ci_ok (fst (ci_cancel_pending s worktree_id now detail))"
proof -
  assume ok: "ci_ok s"
  have "ci_ok (upd_ci (\<lambda>x. cw_id x = i) (\<lambda>x. x\<lparr>cw_state := CI_cancelled, cw_detail := Some detail,
         cw_finished_at := Some now, cw_updated_at := now\<rparr>) s)" for i
    by (rule ci_ok_edit [OF ok refl]) simp
  with ok show ?thesis by (simp add: ci_cancel_pending_def Let_def split: option.splits)
qed

lemma ci_step_ok: "ci_step s t \<Longrightarrow> ci_ok s \<Longrightarrow> ci_ok t"
proof (induction rule: ci_step.induct)
  case (Start s i new_id t w reused)
  then show ?case by (blast intro: ci_start_ok)
next
  case (Update s watch_id u t r)
  then show ?case by (blast intro: ci_update_ok)
next
  case (Cancel s worktree_id now detail)
  then show ?case by (rule ci_cancel_ok)
next
  case (Delete s worktree_id)
  then show ?case by (rule ci_ok_delete) (simp add: ci_delete_for_worktree_def Let_def)
next
  case (Prune s now retention_ms)
  have "ci_ok (s\<lparr>ci_watches := del_where P (ci_watches s)\<rparr>)" for P by (rule ci_ok_delete [OF Prune]) simp
  from ci_ok_delete [OF this] show ?case by (simp add: ci_prune_def Let_def)
next
  case (Other t s)
  then show ?case by (simp add: ci_ok_def)
qed

interpretation ci: machine ci_step ci_ok
  by unfold_locales (rule ci_step_ok)

section \<open>Properties\<close>

text \<open>
  One CI watch at a time: in every state reached from an empty store, a worktree has at most one pending
  watch, and a watch has a finish time exactly when it is no longer pending.
\<close>

theorem one_pending_watch:
  assumes "ci_step\<^sup>*\<^sup>* empty_db s" and "v \<in> set (ci_watches s)" and "w \<in> set (ci_watches s)"
    and "cw_state v = CI_pending" and "cw_state w = CI_pending" and "cw_worktree_id v = cw_worktree_id w"
  shows "v = w \<and> cw_finished_at v = None"
proof -
  have "ci_ok empty_db" by (simp add: ci_ok_def empty_db_def)
  from ci.run_inv [OF assms(1) this] have ok: "ci_ok s" .
  then have "inj_on cw_worktree_id (set (filter (\<lambda>w. cw_state w = CI_pending) (ci_watches s)))"
    by (simp add: ci_ok_def distinct_map)
  with ok assms(2-6) show ?thesis by (auto simp: inj_on_def ci_ok_def)
qed

definition demo_ci_input :: "string \<Rightarrow> ci_start_input" where
  "demo_ci_input sha = \<lparr> ci_repository_id = ''r1'', ci_worktree_id = ''w1'', ci_worktree_path = ''/p'', ci_provider_repo = ''o/r'',
     ci_branch = None, ci_head_sha = sha, ci_pr = None, ci_now = 5, ci_next_poll_at = 6, ci_poll_interval_ms = 30, ci_max_pending = 1 \<rparr>"

text \<open>A second commit supersedes the watch of the first, even when only one watch may be pending.\<close>

lemma demo_ci_run:
  "\<exists>s w. ci_step\<^sup>*\<^sup>* empty_db s \<and> w \<in> set (ci_watches s) \<and> cw_state w = CI_pending \<and> cw_worktree_id w = ''w1'' \<and> cw_head_sha w = ''b''
     \<and> map cw_state (ci_watches s) = [CI_superseded, CI_pending]"
proof -
  obtain s1 w1 where a: "ci_start empty_db (demo_ci_input ''a'') ''c1'' = Inr (s1, w1, False)" and s1: "ci_watches s1 = [w1]"
      "cw_state w1 = CI_pending" "cw_worktree_id w1 = ''w1''" "cw_head_sha w1 = ''a''" "cw_id w1 = ''c1''"
    by (simp add: ci_start_def demo_ci_input_def ci_pending_for_def empty_db_def Let_def)
  obtain s2 w2 where b: "ci_start s1 (demo_ci_input ''b'') ''c2'' = Inr (s2, w2, False)"
      and s2: "map cw_state (ci_watches s2) = [CI_superseded, CI_pending]" "w2 \<in> set (ci_watches s2)"
      "cw_state w2 = CI_pending" "cw_worktree_id w2 = ''w1''" "cw_head_sha w2 = ''b''"
    using s1 by (simp add: ci_start_def demo_ci_input_def ci_pending_for_def upd_ci_def Let_def)
  have "ci_step\<^sup>*\<^sup>* empty_db s2"
    by (rule rtranclp_steps3 [of ci_step, OF ci_step.Start [OF a] ci_step.Start [OF b] ci_step.Other [OF refl]])
  with s2 show ?thesis by (intro exI [of _ s2] exI [of _ w2] conjI) assumption+
qed

lemma one_pending_watch_witness:
  "\<exists>s w. ci_step\<^sup>*\<^sup>* empty_db s \<and> {v \<in> set (ci_watches s). cw_state v = CI_pending \<and> cw_worktree_id v = ''w1''} = {w}"
proof -
  obtain s w where sw: "ci_step\<^sup>*\<^sup>* empty_db s" "w \<in> set (ci_watches s)" "cw_state w = CI_pending" "cw_worktree_id w = ''w1''"
    using demo_ci_run by blast
  have "v = w" if "v \<in> set (ci_watches s)" "cw_state v = CI_pending" "cw_worktree_id v = ''w1''" for v
    using one_pending_watch [OF sw(1) that(1) sw(2) that(2) sw(3)] that(3) sw(4) by simp
  with sw show ?thesis by blast
qed

end
