(* ===== verification/Registry.thy ===== *)
theory Registry
  imports Endpoint_Properties Lease_Store Process_Store Child_Stores
begin

text \<open>
  Registrations (\<open>packages/core/src/state/sqlite-store.ts\<close>): workspaces, repositories and worktrees, the
  reconciliation of the worktree table with what Git reports, forgetting a registration, and the
  once-only lifecycle events.
\<close>

section \<open>Definitions\<close>

definition upsert_workspace :: "db \<Rightarrow> workspace_input \<Rightarrow> ident \<Rightarrow> time \<Rightarrow> store_error + (db \<times> workspace_row)" where
  "upsert_workspace s i new_id now =
    (case find (\<lambda>w. ws_root w = wsi_root i) (workspaces s) of
       Some w \<Rightarrow>
         let f = (\<lambda>w. w\<lparr>ws_name := wsi_name i, ws_scope := wsi_scope i, ws_config_path := wsi_config_path i, ws_last_seen_at := now\<rparr>)
         in Inr (s\<lparr>workspaces := upd_where (\<lambda>w. ws_root w = wsi_root i) f (workspaces s)\<rparr>, f w)
     | None \<Rightarrow>
         if exists_where (\<lambda>w. ws_id w = new_id) (workspaces s) then Inl (Plain_Error Constraint_Violation)
         else let w = \<lparr> ws_id = new_id, ws_name = wsi_name i, ws_root = wsi_root i, ws_scope = wsi_scope i,
                ws_config_path = wsi_config_path i, ws_created_at = now, ws_last_seen_at = now \<rparr>
           in Inr (s\<lparr>workspaces := workspaces s @ [w]\<rparr>, w))"

definition upsert_repository :: "db \<Rightarrow> repository_input \<Rightarrow> ident \<Rightarrow> time \<Rightarrow> store_error + (db \<times> repository_row)" where
  "upsert_repository s i new_id now =
    (let P = (\<lambda>r. rp_workspace_id r = rpi_workspace_id i \<and> rp_common_git_dir r = rpi_common_git_dir i) in
     case find P (repositories s) of
       Some r \<Rightarrow>
         let f = (\<lambda>r. r\<lparr>rp_main_root := rpi_main_root i, rp_remote_identity := rpi_remote_identity i\<rparr>)
         in Inr (s\<lparr>repositories := upd_where P f (repositories s)\<rparr>, f r)
     | None \<Rightarrow>
         if exists_where (\<lambda>r. rp_id r = new_id) (repositories s)
           \<or> \<not> exists_where (\<lambda>w. ws_id w = rpi_workspace_id i) (workspaces s)
         then Inl (Plain_Error Constraint_Violation)
         else let r = \<lparr> rp_id = new_id, rp_workspace_id = rpi_workspace_id i, rp_common_git_dir = rpi_common_git_dir i,
                rp_main_root = rpi_main_root i, rp_remote_identity = rpi_remote_identity i, rp_created_at = now,
                rp_last_reconciled_at = None \<rparr>
           in Inr (s\<lparr>repositories := repositories s @ [r]\<rparr>, r))"

subsection \<open>Reconciliation\<close>

text \<open>
  The main root sorts first, then \<open>localeCompare\<close>, whose order depends on the host's locale:
  \<open>collate\<close> is its collation key.
\<close>

definition path_rank :: "(string \<Rightarrow> string) \<Rightarrow> string \<Rightarrow> string \<Rightarrow> bool \<times> string" where
  "path_rank collate main_root path = (path \<noteq> main_root, collate path)"

definition unique_snapshot :: "git_worktree_record list \<Rightarrow> git_worktree_record list" where
  "unique_snapshot snapshot = map snd (foldl (\<lambda>m g. map_set (gw_path g) g m) [] snapshot)"

definition cleanup_owned :: "worktree_state \<Rightarrow> bool" where
  "cleanup_owned st \<longleftrightarrow> st \<in> {WT_ORPHANED, WT_CLEANING, WT_REMOVED, WT_DEGRADED_CLEANUP}"

definition settled_absent :: "worktree_state \<Rightarrow> bool" where
  "settled_absent st \<longleftrightarrow> st \<in> {WT_ORPHANED, WT_REMOVED}"

definition upd_worktree :: "ident \<Rightarrow> (worktree_row \<Rightarrow> worktree_row) \<Rightarrow> db \<Rightarrow> db" where
  "upd_worktree worktree_id f s = s\<lparr>worktrees := upd_where (\<lambda>w. wt_id w = worktree_id) f (worktrees s)\<rparr>"

text \<open>
  The loop over the ordered snapshot. \<open>existing\<close> are the rows read at the start, \<open>n\<close> is
  \<open>nextNumericId\<close>, and \<open>fresh n\<close> the random id of the row that gets it.
\<close>

fun reconcile_present ::
  "repository_row \<Rightarrow> worktree_row list \<Rightarrow> time \<Rightarrow> (nat \<Rightarrow> ident) \<Rightarrow> git_worktree_record list
   \<Rightarrow> db \<times> nat \<times> reconcile_result \<Rightarrow> store_error + (db \<times> nat \<times> reconcile_result)" where
  "reconcile_present repo existing now fresh [] st = Inr st"
| "reconcile_present repo existing now fresh (g # gs) (s, n, res) =
    (case find (\<lambda>w. wt_path w = gw_path g) existing of
       None \<Rightarrow>
         if exists_where (\<lambda>w. wt_id w = fresh n) (worktrees s) then Inl (Plain_Error Constraint_Violation)
         else let w = \<lparr> wt_id = fresh n, wt_repository_id = rp_id repo, wt_numeric_id = n, wt_path = gw_path g,
                wt_branch = gw_branch g, wt_head_oid = gw_head g, wt_is_main = (gw_path g = rp_main_root repo),
                wt_is_locked = (gw_locked_reason g \<noteq> None), wt_state = WT_DISCOVERED, wt_created_at = now,
                wt_last_seen_at = now, wt_last_runtime_at = None \<rparr>
           in reconcile_present repo existing now fresh gs
                (s\<lparr>worktrees := worktrees s @ [w]\<rparr>, Suc n, res\<lparr>discovered := discovered res @ [w]\<rparr>)
     | Some e \<Rightarrow>
         if gw_prunable_reason g \<noteq> None \<and> \<not> cleanup_owned (wt_state e)
         then let t = upd_worktree (wt_id e) (\<lambda>w. w\<lparr>wt_state := WT_ORPHANED, wt_last_seen_at := now\<rparr>)
                (release_or_hand_over s e (rp_workspace_id repo))
           in (case row_by wt_id (wt_id e) (worktrees t) of None \<Rightarrow> Inl Type_Error
               | Some w \<Rightarrow> reconcile_present repo existing now fresh gs (t, n, res\<lparr>orphaned := orphaned res @ [w]\<rparr>))
         else let next_state = (if wt_state e = WT_ORPHANED \<and> gw_prunable_reason g = None then WT_DISCOVERED else wt_state e);
                t = upd_worktree (wt_id e) (\<lambda>w. w\<lparr>wt_branch := gw_branch g, wt_head_oid := gw_head g,
                  wt_is_main := (gw_path g = rp_main_root repo), wt_is_locked := (gw_locked_reason g \<noteq> None),
                  wt_state := next_state, wt_last_seen_at := now\<rparr>) s
           in (case row_by wt_id (wt_id e) (worktrees t) of None \<Rightarrow> Inl Type_Error
               | Some w \<Rightarrow> reconcile_present repo existing now fresh gs (t, n, res\<lparr>updated := updated res @ [w]\<rparr>)))"

text \<open>The loop over the existing rows the snapshot no longer has.\<close>

fun reconcile_absent ::
  "repository_row \<Rightarrow> string set \<Rightarrow> worktree_row list \<Rightarrow> db \<times> reconcile_result \<Rightarrow> store_error + (db \<times> reconcile_result)" where
  "reconcile_absent repo present [] st = Inr st"
| "reconcile_absent repo present (e # es) (s, res) =
    (if wt_path e \<in> present then reconcile_absent repo present es (s, res)
     else let s1 = (if \<not> cleanup_owned (wt_state e) \<or> settled_absent (wt_state e)
                    then release_or_hand_over s e (rp_workspace_id repo) else s)
       in if cleanup_owned (wt_state e) \<and> wt_state e \<noteq> WT_CLEANING then reconcile_absent repo present es (s1, res)
          else let t = upd_worktree (wt_id e) (\<lambda>w. w\<lparr>wt_state := WT_ORPHANED\<rparr>) s1
            in (case row_by wt_id (wt_id e) (worktrees t) of None \<Rightarrow> Inl Type_Error
                | Some w \<Rightarrow> reconcile_absent repo present es (t, res\<lparr>orphaned := orphaned res @ [w]\<rparr>)))"

definition reconcile_worktrees ::
  "(string \<Rightarrow> string) \<Rightarrow> db \<Rightarrow> ident \<Rightarrow> git_worktree_record list \<Rightarrow> (nat \<Rightarrow> ident) \<Rightarrow> time
   \<Rightarrow> store_error + (db \<times> reconcile_result)" where
  "reconcile_worktrees collate s repository_id snapshot fresh now =
    (case row_by rp_id repository_id (repositories s) of
       None \<Rightarrow> Inl (Plain_Error Unknown_Repository)
     | Some repo \<Rightarrow>
       let unique = unique_snapshot snapshot;
           ordered = sort_key (\<lambda>g. path_rank collate (rp_main_root repo) (gw_path g)) unique;
           existing = filter (\<lambda>w. wt_repository_id w = repository_id) (worktrees s);
           n = Suc (foldl (\<lambda>m w. max m (wt_numeric_id w)) 0 existing)
       in (case reconcile_present repo existing now fresh ordered
                 (s, n, \<lparr> discovered = [], updated = [], orphaned = [] \<rparr>) of
             Inl e \<Rightarrow> Inl e
           | Inr (s1, _, res) \<Rightarrow>
             (case reconcile_absent repo (gw_path ` set unique)
                     (sort_key (\<lambda>w. path_rank collate (rp_main_root repo) (wt_path w)) existing) (s1, res) of
                Inl e \<Rightarrow> Inl e
              | Inr (s2, res2) \<Rightarrow>
                  Inr (s2\<lparr>repositories := upd_where (\<lambda>r. rp_id r = repository_id)
                         (\<lambda>r. r\<lparr>rp_last_reconciled_at := Some now\<rparr>) (repositories s2)\<rparr>, res2))))"

definition mark_worktree_cleaning :: "db \<Rightarrow> ident \<Rightarrow> db" where
  "mark_worktree_cleaning s worktree_id = upd_worktree worktree_id (\<lambda>w. w\<lparr>wt_state := WT_CLEANING\<rparr>) s"

subsection \<open>Forgetting\<close>

text \<open>The rows keyed by a worktree that the explicit deletes remove.\<close>

definition delete_worktree_children :: "db \<Rightarrow> ident set \<Rightarrow> db" where
  "delete_worktree_children s ids = s\<lparr>
     reservations := del_where (\<lambda>r. sr_worktree_id r \<in> ids) (reservations s),
     ci_watches := del_where (\<lambda>r. cw_worktree_id r \<in> ids) (ci_watches s),
     overrides := del_where (\<lambda>r. to_worktree_id r \<in> ids) (overrides s),
     checklist := del_where (\<lambda>r. ck_worktree_id r \<in> ids) (checklist s)\<rparr>"

text \<open>\<open>ON DELETE CASCADE\<close> below \<open>repositories\<close>: worktrees with their ports, processes and reservations, and leases.\<close>

definition cascade_repositories :: "db \<Rightarrow> (repository_row \<Rightarrow> bool) \<Rightarrow> db" where
  "cascade_repositories s P =
    (let rs = rp_id ` set (filter P (repositories s));
         ws = wt_id ` set (filter (\<lambda>w. wt_repository_id w \<in> rs) (worktrees s))
     in s\<lparr>repositories := del_where P (repositories s),
          worktrees := del_where (\<lambda>w. wt_repository_id w \<in> rs) (worktrees s),
          endpoint_leases := del_where (\<lambda>l. ep_worktree_id l \<in> ws) (endpoint_leases s),
          processes := del_where (\<lambda>p. mp_worktree_id p \<in> ws) (processes s),
          reservations := del_where (\<lambda>r. sr_worktree_id r \<in> ws) (reservations s),
          op_leases := del_where (\<lambda>l. ol_repository_id l \<in> rs) (op_leases s)\<rparr>)"

definition delete_events :: "db \<Rightarrow> event_subject \<Rightarrow> ident set \<Rightarrow> db" where
  "delete_events s subject ids =
    s\<lparr>events := del_where (\<lambda>e. le_subject_type e = subject \<and> le_subject_id e \<in> ids) (events s)\<rparr>"

definition forget_repository :: "db \<Rightarrow> ident \<Rightarrow> time \<Rightarrow> store_error + (db \<times> bool)" where
  "forget_repository s repository_id now =
    (case assert_no_heavy_jobs s repository_id of Inl e \<Rightarrow> Inl e | Inr _ \<Rightarrow>
     (case assert_no_live_operation_lease s repository_id now of Inl e \<Rightarrow> Inl e | Inr _ \<Rightarrow>
       let ws = wt_id ` set (filter (\<lambda>w. wt_repository_id w = repository_id) (worktrees s));
           s1 = delete_worktree_children s ws;
           s2 = s1\<lparr>op_leases := del_where (\<lambda>l. ol_repository_id l = repository_id) (op_leases s1)\<rparr>;
           s3 = delete_events (delete_events s2 Subject_Repository {repository_id}) Subject_Worktree ws
       in Inr (cascade_repositories s3 (\<lambda>r. rp_id r = repository_id),
               exists_where (\<lambda>r. rp_id r = repository_id) (repositories s))))"

fun assert_all :: "('a \<Rightarrow> store_error + unit) \<Rightarrow> 'a list \<Rightarrow> store_error + unit" where
  "assert_all check [] = Inr ()"
| "assert_all check (x # xs) = (case check x of Inl e \<Rightarrow> Inl e | Inr _ \<Rightarrow> assert_all check xs)"

text \<open>\<open>ON DELETE CASCADE\<close> from \<open>workspaces\<close> to \<open>features\<close>, their creations and members.\<close>

definition cascade_features :: "db \<Rightarrow> ident \<Rightarrow> db" where
  "cascade_features s workspace_id =
    (let fs = ft_id ` set (filter (\<lambda>f. ft_workspace_id f = workspace_id) (features s));
         cs = fc_id ` set (filter (\<lambda>c. fc_feature_id c \<in> fs) (creations s))
     in s\<lparr>features := del_where (\<lambda>f. ft_workspace_id f = workspace_id) (features s),
          creations := del_where (\<lambda>c. fc_feature_id c \<in> fs) (creations s),
          members := del_where (\<lambda>m. fm_creation_id m \<in> cs) (members s)\<rparr>)"

definition forget_workspace :: "db \<Rightarrow> ident \<Rightarrow> time \<Rightarrow> store_error + (db \<times> bool)" where
  "forget_workspace s workspace_id now =
    (let rs = map rp_id (filter (\<lambda>r. rp_workspace_id r = workspace_id) (repositories s));
         ws = wt_id ` set (filter (\<lambda>w. wt_repository_id w \<in> set rs) (worktrees s));
         s1 = delete_worktree_children s ws
     in case assert_all (assert_no_heavy_jobs s1) rs of Inl e \<Rightarrow> Inl e | Inr _ \<Rightarrow>
       (case assert_all (\<lambda>r. assert_no_live_operation_lease s1 r now) rs of Inl e \<Rightarrow> Inl e | Inr _ \<Rightarrow>
         let s2 = s1\<lparr>op_leases := del_where (\<lambda>l. ol_repository_id l \<in> set rs) (op_leases s1)\<rparr>;
             s3 = delete_events (delete_events (delete_events s2 Subject_Workspace {workspace_id})
                    Subject_Repository (set rs)) Subject_Worktree ws;
             s4 = cascade_features (cascade_repositories s3 (\<lambda>r. rp_workspace_id r = workspace_id)) workspace_id
         in Inr (s4\<lparr>workspaces := del_where (\<lambda>w. ws_id w = workspace_id) (workspaces s4)\<rparr>,
                 exists_where (\<lambda>w. ws_id w = workspace_id) (workspaces s))))"

subsection \<open>Lifecycle events\<close>

definition event_matches :: "event_subject \<Rightarrow> ident \<Rightarrow> string \<Rightarrow> lifecycle_dispatch \<Rightarrow> bool" where
  "event_matches subject subject_id event e \<longleftrightarrow>
     le_subject_type e = subject \<and> le_subject_id e = subject_id \<and> le_event e = event"

definition claim_lifecycle_event :: "db \<Rightarrow> event_subject \<Rightarrow> ident \<Rightarrow> string \<Rightarrow> time \<Rightarrow> db \<times> bool" where
  "claim_lifecycle_event s subject subject_id event now =
    (if exists_where (event_matches subject subject_id event) (events s) then (s, False)
     else (s\<lparr>events := events s @ [\<lparr> le_subject_type = subject, le_subject_id = subject_id, le_event = event,
             le_dispatched_at = now \<rparr>]\<rparr>, True))"

definition release_lifecycle_event :: "db \<Rightarrow> event_subject \<Rightarrow> ident \<Rightarrow> string \<Rightarrow> db \<times> bool" where
  "release_lifecycle_event s subject subject_id event =
    (let P = event_matches subject subject_id event
     in (s\<lparr>events := del_where P (events s)\<rparr>, count_where P (events s) = 1))"

definition has_lifecycle_event_claim :: "db \<Rightarrow> event_subject \<Rightarrow> ident \<Rightarrow> string \<Rightarrow> bool" where
  "has_lifecycle_event_claim s subject subject_id event \<longleftrightarrow> exists_where (event_matches subject subject_id event) (events s)"

subsection \<open>Listings\<close>

definition list_workspaces :: "db \<Rightarrow> workspace_row list" where
  "list_workspaces s = sort_key (\<lambda>w. (ws_root w, ws_id w)) (workspaces s)"

definition list_repositories :: "db \<Rightarrow> ident option \<Rightarrow> repository_row list" where
  "list_repositories s workspace_id = sort_key (\<lambda>r. (rp_main_root r, rp_id r))
     (filter (\<lambda>r. case workspace_id of None \<Rightarrow> True | Some w \<Rightarrow> rp_workspace_id r = w) (repositories s))"

definition list_worktrees :: "db \<Rightarrow> ident option \<Rightarrow> worktree_row list" where
  "list_worktrees s repository_id = sort_key (\<lambda>w. (wt_path w, wt_id w))
     (filter (\<lambda>w. case repository_id of None \<Rightarrow> True | Some r \<Rightarrow> wt_repository_id w = r) (worktrees s))"

end
