(* ===== verification/Registry_Properties.thy ===== *)
theory Registry_Properties
  imports Registry Lease_Properties
begin

text \<open>
  What reconciliation and forgetting promise: a worktree keeps its identity and number for life, a
  worktree Git no longer reports holds no port, forgetting leaves nothing behind and never pulls state from
  under running work, and a lifecycle event is announced once.
\<close>

section \<open>Frames\<close>

lemma release_or_hand_over_frame [simp]:
  "worktrees (release_or_hand_over s w ws) = worktrees s"
  "repositories (release_or_hand_over s w ws) = repositories s"
  by (simp_all add: release_or_hand_over_def reassign_active_leases_def Let_def split_beta split: option.split)

lemma upd_worktree_frame [simp]:
  "worktrees (upd_worktree i f s) = upd_where (\<lambda>w. wt_id w = i) f (worktrees s)"
  "repositories (upd_worktree i f s) = repositories s"
  "endpoint_leases (upd_worktree i f s) = endpoint_leases s"
  by (simp_all add: upd_worktree_def)

section \<open>Identity\<close>

text \<open>The columns reconciliation never writes after discovery.\<close>

definition worktree_identity :: "worktree_row \<Rightarrow> ident \<times> ident \<times> nat \<times> string \<times> time" where
  "worktree_identity w = (wt_id w, wt_repository_id w, wt_numeric_id w, wt_path w, wt_created_at w)"

lemma identity_upd:
  "(\<And>w. worktree_identity (f w) = worktree_identity w) \<Longrightarrow>
   map worktree_identity (worktrees (upd_worktree i f s)) = map worktree_identity (worktrees s)"
  by (simp add: map_upd_where)

lemma identity_mapD:
  assumes "map worktree_identity xs = map worktree_identity ys"
  shows "map wt_id xs = map wt_id ys" and "map wt_repository_id xs = map wt_repository_id ys"
    and "map wt_numeric_id xs = map wt_numeric_id ys" and "map wt_path xs = map wt_path ys"
  using arg_cong [OF assms, of "map fst"] arg_cong [OF assms, of "map (\<lambda>p. fst (snd p))"]
    arg_cong [OF assms, of "map (\<lambda>p. fst (snd (snd p)))"] arg_cong [OF assms, of "map (\<lambda>p. fst (snd (snd (snd p))))"]
  by (simp_all add: worktree_identity_def comp_def)

text \<open>The present loop edits old rows in place and appends one row per new path, numbered in order.\<close>

lemma reconcile_present_identity:
  assumes "reconcile_present repo existing now fresh gs (s, n, res) = Inr (t, n', res')"
  shows "\<exists>new. map worktree_identity (worktrees t) = map worktree_identity (worktrees s) @ map worktree_identity new \<and>
    map wt_numeric_id new = [n..<n'] \<and> n \<le> n' \<and> (\<forall>w\<in>set new. wt_repository_id w = rp_id repo) \<and>
    map wt_path new = map gw_path (filter (\<lambda>g. gw_path g \<notin> wt_path ` set existing) gs) \<and> repositories t = repositories s"
  using assms
proof (induction gs arbitrary: s n res)
  case Nil
  then show ?case by (auto intro!: exI [of _ "[]"])
next
  case (Cons g gs)
  show ?case
  proof (cases "find (\<lambda>w. wt_path w = gw_path g) existing")
    case None
    then have out: "gw_path g \<notin> wt_path ` set existing" by (auto simp: find_None_iff)
    let ?w = "\<lparr> wt_id = fresh n, wt_repository_id = rp_id repo, wt_numeric_id = n, wt_path = gw_path g,
                wt_branch = gw_branch g, wt_head_oid = gw_head g, wt_is_main = (gw_path g = rp_main_root repo),
                wt_is_locked = (gw_locked_reason g \<noteq> None), wt_state = WT_DISCOVERED, wt_created_at = now,
                wt_last_seen_at = now, wt_last_runtime_at = None \<rparr>"
    from Cons.prems None have "reconcile_present repo existing now fresh gs
        (s\<lparr>worktrees := worktrees s @ [?w]\<rparr>, Suc n, res\<lparr>discovered := discovered res @ [?w]\<rparr>) = Inr (t, n', res')"
      by (auto simp: Let_def split: if_splits)
    from Cons.IH [OF this] obtain new where
      "map worktree_identity (worktrees t) = map worktree_identity (worktrees s @ [?w]) @ map worktree_identity new"
      "map wt_numeric_id new = [Suc n..<n']" "Suc n \<le> n'" "\<forall>w\<in>set new. wt_repository_id w = rp_id repo"
      "map wt_path new = map gw_path (filter (\<lambda>g. gw_path g \<notin> wt_path ` set existing) gs)" "repositories t = repositories s" by auto
    with out show ?thesis by (intro exI [of _ "?w # new"]) (simp add: upt_conv_Cons)
  next
    case (Some e)
    from row_by_SomeD [unfolded row_by_def, OF this] have inn: "gw_path g \<in> wt_path ` set existing" by force
    from Cons.prems Some obtain s1 res1 where "reconcile_present repo existing now fresh gs (s1, n, res1) = Inr (t, n', res')"
      and same: "map worktree_identity (worktrees s1) = map worktree_identity (worktrees s)" "repositories s1 = repositories s"
      by (auto simp: Let_def map_upd_where worktree_identity_def split: if_splits option.splits)
    from Cons.IH [OF this(1)] same inn show ?thesis by auto
  qed
qed

lemma reconcile_absent_identity:
  assumes "reconcile_absent repo present es (s, res) = Inr (t, res')"
  shows "map worktree_identity (worktrees t) = map worktree_identity (worktrees s) \<and> repositories t = repositories s"
  using assms
proof (induction es arbitrary: s res)
  case Nil
  then show ?case by simp
next
  case (Cons e es)
  from Cons.prems obtain s1 res1 where "reconcile_absent repo present es (s1, res1) = Inr (t, res')"
    and "map worktree_identity (worktrees s1) = map worktree_identity (worktrees s)" "repositories s1 = repositories s"
    by (auto simp: Let_def map_upd_where worktree_identity_def split: if_splits option.splits)
  with Cons.IH show ?case by auto
qed

lemma reconcile_parts:
  assumes "reconcile_worktrees collate s r snapshot fresh now = Inr (t, res)"
  obtains repo s1 n' res1 s2 where "row_by rp_id r (repositories s) = Some repo"
    "reconcile_present repo (filter (\<lambda>w. wt_repository_id w = r) (worktrees s)) now fresh
      (sort_key (\<lambda>g. path_rank collate (rp_main_root repo) (gw_path g)) (unique_snapshot snapshot))
      (s, Suc (foldl (\<lambda>m w. max m (wt_numeric_id w)) 0 (filter (\<lambda>w. wt_repository_id w = r) (worktrees s))),
       \<lparr> discovered = [], updated = [], orphaned = [] \<rparr>) = Inr (s1, n', res1)"
    "reconcile_absent repo (gw_path ` set (unique_snapshot snapshot))
      (sort_key (\<lambda>w. path_rank collate (rp_main_root repo) (wt_path w)) (filter (\<lambda>w. wt_repository_id w = r) (worktrees s)))
      (s1, res1) = Inr (s2, res)"
    "worktrees t = worktrees s2" "endpoint_leases t = endpoint_leases s2"
  using assms by (auto simp: reconcile_worktrees_def Let_def split: option.splits sum.splits)

lemma image_filter_key: "f ` {x \<in> A. f x \<notin> B} = f ` A - B"
  by auto

lemma foldl_max_ge: "(a :: nat) \<le> foldl (\<lambda>m w. max m (f w)) a xs \<and> (\<forall>w\<in>set xs. f w \<le> foldl (\<lambda>m w. max m (f w)) a xs)"
proof (induction xs arbitrary: a)
  case (Cons x xs)
  from Cons.IH [of "max a (f x)"] show ?case by auto
qed simp

section \<open>Ports of worktrees that are gone\<close>

definition portless :: "db \<Rightarrow> ident \<Rightarrow> bool" where
  "portless s i \<longleftrightarrow> (\<forall>l\<in>set (endpoint_leases s). ep_worktree_id l = i \<longrightarrow> ep_state l \<noteq> EP_ACTIVE)"

definition retired :: "db \<Rightarrow> ident \<Rightarrow> bool" where
  "retired s i \<longleftrightarrow> (\<forall>w\<in>set (worktrees s). wt_id w = i \<longrightarrow> settled_absent (wt_state w))"

lemma reassign_loop_old:
  "x \<in> set (fst (reassign_loop to_id leases rows n)) \<Longrightarrow> ep_worktree_id x \<noteq> to_id \<Longrightarrow> x \<in> set rows"
  by (induction to_id leases rows n rule: reassign_loop.induct) (fastforce simp: set_upd_where split: option.splits if_splits)+

lemma heir_alive:
  assumes "endpoint_heir s w ws = Some h"
  shows "h \<in> set (worktrees s) \<and> \<not> settled_absent (wt_state h)"
  using head_in_set [OF assms [unfolded endpoint_heir_def]] unfolding set_sort by (simp add: settled_absent_def)

lemma if_both: "P y \<Longrightarrow> P x \<Longrightarrow> P (if b then x else y)"
  by simp

lemma hand_over_here: "portless (release_or_hand_over s w ws) (wt_id w)"
  by (auto simp: portless_def release_or_hand_over_def Let_def set_upd_where)

lemma reassign_portless:
  assumes "portless s i" and "retired s i" and "endpoint_heir s w ws = Some h"
  shows "portless (fst (reassign_active_leases s (wt_id w) (wt_id h))) i"
proof -
  from heir_alive [OF assms(3)] assms(2) have "wt_id h \<noteq> i" by (auto simp: retired_def)
  with assms(1) reassign_loop_old show ?thesis by (fastforce simp: portless_def reassign_active_leases_def split_beta)
qed

lemma portless_release: "portless s i \<Longrightarrow>
  portless (s\<lparr>endpoint_leases := upd_where P (\<lambda>r. r\<lparr>ep_state := EP_RELEASED\<rparr>) (endpoint_leases s)\<rparr>) i"
  by (auto simp: portless_def set_upd_where)

lemma hand_over_portless: "portless s i \<Longrightarrow> retired s i \<Longrightarrow> portless (release_or_hand_over s w ws) i"
  unfolding release_or_hand_over_def Let_def
  by (rule portless_release) (simp add: reassign_portless split: option.split)

lemma retired_hand_over [simp]: "retired (release_or_hand_over s w ws) i = retired s i"
  by (simp add: retired_def)

lemma portless_upd_worktree [simp]: "portless (upd_worktree j f s) i = portless s i"
  by (simp add: portless_def)

lemma retired_upd_worktree:
  "\<forall>w. wt_id w = j \<longrightarrow> wt_id (f w) = j \<and> settled_absent (wt_state (f w)) \<Longrightarrow> i = j \<or> retired s i \<Longrightarrow> retired (upd_worktree j f s) i"
  by (auto simp: retired_def set_upd_where)

text \<open>The state after the port hand-over of one absent row, and the three ways a turn continues.\<close>

definition absent_release :: "repository_row \<Rightarrow> worktree_row \<Rightarrow> db \<Rightarrow> db" where
  "absent_release repo e s = (if \<not> cleanup_owned (wt_state e) \<or> settled_absent (wt_state e)
     then release_or_hand_over s e (rp_workspace_id repo) else s)"

abbreviation orphan_worktree :: "ident \<Rightarrow> db \<Rightarrow> db" where
  "orphan_worktree i \<equiv> upd_worktree i (\<lambda>w. w\<lparr>wt_state := WT_ORPHANED\<rparr>)"

lemma reconcile_absent_turn:
  assumes "reconcile_absent repo present (e # es) (s, res) = Inr (t, res')"
  obtains (inside) "wt_path e \<in> present" "reconcile_absent repo present es (s, res) = Inr (t, res')"
    | (owned) "cleanup_owned (wt_state e)" "reconcile_absent repo present es (absent_release repo e s, res) = Inr (t, res')"
    | (orphan) res1 where "reconcile_absent repo present es (orphan_worktree (wt_id e) (absent_release repo e s), res1) = Inr (t, res')"
  using assms [unfolded reconcile_absent.simps Let_def absent_release_def [symmetric]]
  by (auto split: if_splits option.splits)

lemma retired_absent_release [simp]: "retired (absent_release repo e s) i = retired s i"
  by (simp add: absent_release_def)

lemma portless_absent_release: "portless s i \<Longrightarrow> retired s i \<Longrightarrow> portless (absent_release repo e s) i"
  by (simp add: absent_release_def hand_over_portless)

lemma absent_release_here:
  "\<not> cleanup_owned (wt_state e) \<or> settled_absent (wt_state e) \<Longrightarrow> portless (absent_release repo e s) (wt_id e)"
  by (simp add: absent_release_def hand_over_here)

lemma retired_orphan: "i = j \<or> retired s i \<Longrightarrow> retired (orphan_worktree j s) i"
  by (rule retired_upd_worktree) (simp_all add: settled_absent_def)

text \<open>The absent loop keeps a portless retired worktree so, and makes one of every row it reaches.\<close>

lemma reconcile_absent_keeps:
  assumes "reconcile_absent repo present es (s, res) = Inr (t, res')" and "portless s i" and "retired s i"
  shows "portless t i \<and> retired t i"
  using assms
proof (induction es arbitrary: s res)
  case Nil
  then show ?case by simp
next
  case (Cons e es)
  note released = portless_absent_release [OF Cons.prems(2,3)]
  from Cons.prems(1) show ?case
  proof (cases rule: reconcile_absent_turn)
    case inside
    from Cons.IH [OF inside(2) Cons.prems(2,3)] show ?thesis .
  next
    case owned
    from Cons.IH [OF owned(2) released] Cons.prems(3) show ?thesis by simp
  next
    case (orphan res1)
    from Cons.IH [OF orphan] released retired_orphan [of i] Cons.prems(3) show ?thesis by simp
  qed
qed

lemma reconcile_absent_retires:
  assumes "reconcile_absent repo present es (s, res) = Inr (t, res')"
    and "e \<in> set es" and "wt_path e \<notin> present" and "\<not> cleanup_owned (wt_state e) \<or> settled_absent (wt_state e) \<and> retired s (wt_id e)"
  shows "portless t (wt_id e) \<and> retired t (wt_id e)"
  using assms(1,2,4)
proof (induction es arbitrary: s res)
  case Nil
  then show ?case by simp
next
  case (Cons x es)
  have here: "portless (absent_release repo x s) (wt_id e)" if "e = x"
    using that Cons.prems(3) absent_release_here by blast
  from Cons.prems(1) show ?case
  proof (cases rule: reconcile_absent_turn)
    case inside
    with Cons.IH [OF inside(2)] Cons.prems(2,3) assms(3) show ?thesis by auto
  next
    case owned
    show ?thesis
    proof (cases "e = x")
      case True
      with owned(1) Cons.prems(3) have "retired s (wt_id e)" by simp
      with reconcile_absent_keeps [OF owned(2) here [OF True]] show ?thesis by simp
    next
      case False
      with Cons.IH [OF owned(2)] Cons.prems(2,3) show ?thesis by simp
    qed
  next
    case (orphan res1)
    show ?thesis
    proof (cases "e = x")
      case True
      from reconcile_absent_keeps [OF orphan, of "wt_id e"] here [OF True] retired_orphan True show ?thesis by simp
    next
      case False
      with Cons.IH [OF orphan] Cons.prems(2,3) retired_orphan show ?thesis by auto
    qed
  qed
qed

text \<open>Where the leases go. A hand-over leaves the other leases alone, unless one is an inactive row of the heir.\<close>

lemma hand_over_others:
  assumes ok: "endpoints_ok s" and l: "l \<in> set (endpoint_leases s)" "\<not> (ep_worktree_id l = wt_id w \<and> ep_state l = EP_ACTIVE)"
    and stays: "ep_state l = EP_ACTIVE \<or> retired s (ep_worktree_id l)"
  shows "l \<in> set (endpoint_leases (release_or_hand_over s w ws))"
proof -
  have R: "l \<in> set (endpoint_leases (fst (reassign_active_leases s (wt_id w) (wt_id h))))" if "endpoint_heir s w ws = Some h" for h
  proof -
    have rows: "endpoint_rows_ok (endpoint_leases s)" using ok by (simp add: endpoints_ok_def)
    from heir_alive [OF that] have "\<not> retired s (wt_id h)" by (auto simp: retired_def)
    with stays have "ep_worktree_id l \<noteq> wt_id h \<or> ep_state l = EP_ACTIVE" by auto
    with reassign_loop_result [OF rows active_names_distinct [OF rows] endpoint_heir_other [OF that, symmetric], where n = 0] l
    show ?thesis by (simp add: reassign_active_leases_def split_beta)
  qed
  let ?t = "if wt_branch w = None then s else case endpoint_heir s w ws of None \<Rightarrow> s
    | Some c \<Rightarrow> fst (reassign_active_leases s (wt_id w) (wt_id c))"
  have "l \<in> set (endpoint_leases ?t)" using l(1) R by (auto split: option.split)
  with l(2) show ?thesis by (auto simp: release_or_hand_over_def Let_def set_upd_where intro!: image_eqI [of _ _ l])
qed

lemma hand_over_moves:
  assumes "endpoints_ok s" and "l \<in> set (endpoint_leases s)" and "ep_worktree_id l = wt_id w" and "ep_state l = EP_ACTIVE"
  obtains (released) "l\<lparr>ep_state := EP_RELEASED\<rparr> \<in> set (endpoint_leases (release_or_hand_over s w ws))"
    | (handed) h where "endpoint_heir s w ws = Some h" "wt_branch w \<noteq> None"
        "l\<lparr>ep_worktree_id := wt_id h\<rparr> \<in> set (endpoint_leases (release_or_hand_over s w ws))"
proof (cases "wt_branch w = None \<or> endpoint_heir s w ws = None")
  case True
  then have "endpoint_leases (release_or_hand_over s w ws) =
      upd_where (\<lambda>r. ep_worktree_id r = wt_id w \<and> ep_state r = EP_ACTIVE) (\<lambda>r. r\<lparr>ep_state := EP_RELEASED\<rparr>) (endpoint_leases s)"
    by (auto simp: release_or_hand_over_def Let_def)
  with assms(2-4) have "l\<lparr>ep_state := EP_RELEASED\<rparr> \<in> set (endpoint_leases (release_or_hand_over s w ws))"
    by (auto simp: set_upd_where intro!: image_eqI [of _ _ l])
  then show thesis by (rule released)
next
  case False
  then obtain h where h: "endpoint_heir s w ws = Some h" "wt_branch w \<noteq> None" by blast
  from hand_over_keeps_ports [OF assms(1) h(2,1) assms(2-4)] show thesis
    by (cases "held_at (wt_id h) (ep_name l) (endpoint_leases s)") (simp_all add: released handed [OF h])
qed

text \<open>
  A lease on its way: released under a worktree that is gone, or active under a live worktree of the branch.
\<close>

definition live_on :: "db \<Rightarrow> string option \<Rightarrow> ident \<Rightarrow> bool" where
  "live_on s branch i \<longleftrightarrow> branch \<noteq> None \<and> (\<exists>v\<in>set (worktrees s). wt_id v = i \<and> wt_branch v = branch \<and> \<not> cleanup_owned (wt_state v))"

definition settled_lease :: "db \<Rightarrow> worktree_row \<Rightarrow> endpoint_lease \<Rightarrow> bool" where
  "settled_lease s w l \<longleftrightarrow> (\<exists>h. l\<lparr>ep_worktree_id := h, ep_state := EP_RELEASED\<rparr> \<in> set (endpoint_leases s) \<and> retired s h \<or>
     l\<lparr>ep_worktree_id := h, ep_state := EP_ACTIVE\<rparr> \<in> set (endpoint_leases s) \<and> h \<noteq> wt_id w \<and> live_on s (wt_branch w) h)"

text \<open>The rows of the absent paths are those read at the start, until their turn comes.\<close>

definition unread :: "db \<Rightarrow> string set \<Rightarrow> worktree_row list \<Rightarrow> bool" where
  "unread s present es \<longleftrightarrow> (\<forall>e\<in>set es. wt_path e \<notin> present \<longrightarrow> (\<forall>v\<in>set (worktrees s). wt_id v = wt_id e \<longrightarrow> v = e))"

lemma live_on_orphan: "live_on s b i \<Longrightarrow> i \<noteq> j \<Longrightarrow> live_on (orphan_worktree j s) b i"
  unfolding live_on_def by (auto simp: set_upd_where intro!: bexI)

lemma live_on_heir:
  assumes "endpoint_heir s w ws = Some h" and "wt_branch w \<noteq> None"
  shows "live_on s (wt_branch w) (wt_id h)"
  using head_in_set [OF assms(1) [unfolded endpoint_heir_def]] assms(2) unfolding set_sort live_on_def
  by (auto simp: cleanup_owned_def)

lemma live_on_absent_release [simp]: "live_on (absent_release repo e s) b i = live_on s b i"
  by (simp add: live_on_def absent_release_def)

lemma absent_release_ok: "endpoints_ok s \<Longrightarrow> endpoints_ok (absent_release repo e s)"
  by (simp add: absent_release_def release_or_hand_over_ok)

lemma absent_release_others:
  "endpoints_ok s \<Longrightarrow> l \<in> set (endpoint_leases s) \<Longrightarrow> \<not> (ep_worktree_id l = wt_id e \<and> ep_state l = EP_ACTIVE) \<Longrightarrow>
   ep_state l = EP_ACTIVE \<or> retired s (ep_worktree_id l) \<Longrightarrow> l \<in> set (endpoint_leases (absent_release repo e s))"
  by (simp add: absent_release_def hand_over_others)

lemma unread_turn:
  assumes "unread s present (x # es)" and "distinct (map wt_id (x # es))"
  shows "unread s present es" and "unread (absent_release repo x s) present es"
    and "unread (orphan_worktree (wt_id x) (absent_release repo x s)) present es"
  using assms by (auto simp: unread_def absent_release_def set_upd_where split: if_splits)

text \<open>One turn of the absent loop moves a settled lease only to settle it again.\<close>

lemma settled_turn:
  assumes ok: "endpoints_ok s" and x: "unread s present (x # es)" "wt_path x \<notin> present"
    and w: "retired s (wt_id w)" and l: "settled_lease s w l"
  shows "settled_lease (orphan_worktree (wt_id x) (absent_release repo x s)) w l"
    and "cleanup_owned (wt_state x) \<Longrightarrow> settled_lease (absent_release repo x s) w l"
proof -
  let ?a = "absent_release repo x s"
  let ?o = "orphan_worktree (wt_id x) ?a"
  from l obtain h where
    "l\<lparr>ep_worktree_id := h, ep_state := EP_RELEASED\<rparr> \<in> set (endpoint_leases s) \<and> retired s h \<or>
     l\<lparr>ep_worktree_id := h, ep_state := EP_ACTIVE\<rparr> \<in> set (endpoint_leases s) \<and> h \<noteq> wt_id w \<and> live_on s (wt_branch w) h"
    unfolding settled_lease_def by blast
  then consider (released) "l\<lparr>ep_worktree_id := h, ep_state := EP_RELEASED\<rparr> \<in> set (endpoint_leases s)" "retired s h"
    | (other) "l\<lparr>ep_worktree_id := h, ep_state := EP_ACTIVE\<rparr> \<in> set (endpoint_leases s)" "h \<noteq> wt_id w" "live_on s (wt_branch w) h" "h \<noteq> wt_id x"
    | (here) "l\<lparr>ep_worktree_id := h, ep_state := EP_ACTIVE\<rparr> \<in> set (endpoint_leases s)" "live_on s (wt_branch w) h" "h = wt_id x"
    by blast
  then have "settled_lease ?o w l \<and> (cleanup_owned (wt_state x) \<longrightarrow> settled_lease ?a w l)"
  proof cases
    case released
    with absent_release_others [OF ok released(1), of x repo]
    have "l\<lparr>ep_worktree_id := h, ep_state := EP_RELEASED\<rparr> \<in> set (endpoint_leases ?a)" by simp
    with released(2) show ?thesis by (auto simp: settled_lease_def intro!: exI [of _ h] retired_orphan)
  next
    case other
    with absent_release_others [OF ok other(1), of x repo]
    have "l\<lparr>ep_worktree_id := h, ep_state := EP_ACTIVE\<rparr> \<in> set (endpoint_leases ?a)" by simp
    with other(2-4) show ?thesis by (auto simp: settled_lease_def intro!: exI [of _ h] live_on_orphan)
  next
    case here
    from here(2,3) x have live: "wt_branch x = wt_branch w" "\<not> cleanup_owned (wt_state x)"
      by (auto simp: live_on_def unread_def)
    then have a: "?a = release_or_hand_over s x (rp_workspace_id repo)" by (simp add: absent_release_def)
    have "ep_worktree_id (l\<lparr>ep_worktree_id := h, ep_state := EP_ACTIVE\<rparr>) = wt_id x"
      "ep_state (l\<lparr>ep_worktree_id := h, ep_state := EP_ACTIVE\<rparr>) = EP_ACTIVE" using here(3) by simp_all
    from ok here(1) this have "settled_lease ?o w l"
    proof (cases rule: hand_over_moves [where ws = "rp_workspace_id repo"])
      case released
      then have "l\<lparr>ep_worktree_id := h, ep_state := EP_RELEASED\<rparr> \<in> set (endpoint_leases ?o)" by (simp add: a)
      with here(3) show ?thesis unfolding settled_lease_def by (blast intro: retired_orphan)
    next
      case (handed heir)
      from heir_alive [OF handed(1)] w have "wt_id heir \<noteq> wt_id w" by (auto simp: retired_def)
      moreover have "live_on ?o (wt_branch w) (wt_id heir)"
        using live_on_heir [OF handed(1,2)] live(1) endpoint_heir_other [OF handed(1)] by (simp add: live_on_orphan)
      moreover have "l\<lparr>ep_worktree_id := wt_id heir, ep_state := EP_ACTIVE\<rparr> \<in> set (endpoint_leases ?o)"
      proof -
        have "l\<lparr>ep_worktree_id := h, ep_state := EP_ACTIVE\<rparr>\<lparr>ep_worktree_id := wt_id heir\<rparr> =
            l\<lparr>ep_worktree_id := wt_id heir, ep_state := EP_ACTIVE\<rparr>" by (cases l) simp
        with handed(3) show ?thesis unfolding upd_worktree_frame a by (simp only:)
      qed
      ultimately show ?thesis unfolding settled_lease_def by blast
    qed
    with live(2) show ?thesis by simp
  qed
  then show "settled_lease ?o w l" and "cleanup_owned (wt_state x) \<Longrightarrow> settled_lease ?a w l" by blast+
qed

lemma reconcile_absent_settled:
  assumes "reconcile_absent repo present es (s, res) = Inr (t, res')" and "endpoints_ok s" and "unread s present es"
    and "distinct (map wt_id es)" and "retired s (wt_id w)" and "settled_lease s w l"
  shows "settled_lease t w l"
  using assms
proof (induction es arbitrary: s res)
  case Nil
  then show ?case by simp
next
  case (Cons x es)
  note next_unread = unread_turn [OF Cons.prems(3,4)]
  show ?case
  proof (cases "wt_path x \<in> present")
    case True
    with Cons.prems next_unread(1) show ?thesis by (intro Cons.IH [of s res]) simp_all
  next
    case False
    note turn = settled_turn [OF Cons.prems(2,3) False Cons.prems(5,6), of repo]
    note ok = absent_release_ok [OF Cons.prems(2), of repo x]
    from Cons.prems(1) show ?thesis
    proof (cases rule: reconcile_absent_turn)
      case inside
      with False show ?thesis by blast
    next
      case owned
      show ?thesis
        by (rule Cons.IH [OF owned(2) ok next_unread(2)]) (use Cons.prems(4,5) turn(2) owned(1) in simp_all)
    next
      case (orphan res1)
      show ?thesis
        by (rule Cons.IH [OF orphan _ next_unread(3)])
          (use Cons.prems(4,5) turn(1) ok in \<open>simp_all add: endpoints_ok_def retired_orphan\<close>)
    qed
  qed
qed

text \<open>A lease of \<open>w\<close> is untouched until the turn of \<open>w\<close>, which settles it.\<close>

lemma absent_lease_settles:
  assumes "reconcile_absent repo present es (s, res) = Inr (t, res')" and "endpoints_ok s" and "unread s present es"
    and "distinct (map wt_id es)" and "w \<in> set es" and "wt_path w \<notin> present"
    and "\<not> cleanup_owned (wt_state w) \<or> settled_absent (wt_state w)"
    and "l \<in> set (endpoint_leases s)" and "ep_worktree_id l = wt_id w" and "ep_state l = EP_ACTIVE"
  shows "settled_lease t w l"
  using assms(1-5,8)
proof (induction es arbitrary: s res)
  case Nil
  then show ?case by simp
next
  case (Cons x es)
  note next_unread = unread_turn [OF Cons.prems(3,4)]
  note ok = absent_release_ok [OF Cons.prems(2), of repo x]
  let ?a = "absent_release repo x s"
  show ?case
  proof (cases "x = w")
    case False
    with Cons.prems(4,5) have es: "w \<in> set es" "wt_id x \<noteq> wt_id w" by auto
    have l: "l \<in> set (endpoint_leases ?a)"
      by (rule absent_release_others [OF Cons.prems(2,6)]) (use es assms(9,10) in auto)
    from Cons.prems(1) show ?thesis
    proof (cases rule: reconcile_absent_turn)
      case inside
      show ?thesis by (rule Cons.IH [OF inside(2) Cons.prems(2) next_unread(1)]) (use Cons.prems es in simp_all)
    next
      case owned
      show ?thesis by (rule Cons.IH [OF owned(2) ok next_unread(2)]) (use Cons.prems es l in simp_all)
    next
      case (orphan res1)
      show ?thesis by (rule Cons.IH [OF orphan _ next_unread(3)]) (use Cons.prems es l ok in \<open>simp_all add: endpoints_ok_def\<close>)
    qed
  next
    case True
    let ?o = "orphan_worktree (wt_id x) ?a"
    have a: "?a = release_or_hand_over s w (rp_workspace_id repo)" using assms(7) True by (simp add: absent_release_def)
    have retired_o: "retired ?o (wt_id w)" by (rule retired_orphan) (simp add: True)
    have retired_a: "retired ?a (wt_id w)" if "cleanup_owned (wt_state w)"
    proof -
      have "retired s (wt_id w)" using that assms(6,7) Cons.prems(3) True by (auto simp: retired_def unread_def)
      then show ?thesis by simp
    qed
    have settles: "settled_lease u w l"
      if u: "u = ?o \<or> u = ?a" "retired u (wt_id w)" for u
    proof -
      have leases: "endpoint_leases u = endpoint_leases ?a" using u(1) by auto
      from Cons.prems(2,6) assms(9,10) show ?thesis
      proof (cases rule: hand_over_moves [where ws = "rp_workspace_id repo"])
        case released
        moreover have "l\<lparr>ep_state := EP_RELEASED\<rparr> = l\<lparr>ep_worktree_id := wt_id w, ep_state := EP_RELEASED\<rparr>" using assms(9) by simp
        ultimately show ?thesis using u(2) unfolding settled_lease_def leases a by metis
      next
        case (handed heir)
        have "l\<lparr>ep_worktree_id := wt_id heir\<rparr> = l\<lparr>ep_worktree_id := wt_id heir, ep_state := EP_ACTIVE\<rparr>" using assms(10) by simp
        moreover have "live_on u (wt_branch w) (wt_id heir)"
          using live_on_heir [OF handed(1,2)] u(1) endpoint_heir_other [OF handed(1)] True by (auto simp: live_on_orphan)
        ultimately show ?thesis
          using handed(3) endpoint_heir_other [OF handed(1)] unfolding settled_lease_def leases a by metis
      qed
    qed
    from Cons.prems(1) show ?thesis
    proof (cases rule: reconcile_absent_turn)
      case inside
      with True assms(6) show ?thesis by simp
    next
      case owned
      note r = retired_a [OF owned(1) [unfolded True]]
      show ?thesis
        by (rule reconcile_absent_settled [OF owned(2) ok next_unread(2) _ r settles [OF _ r]]) (use Cons.prems(4) in simp_all)
    next
      case (orphan res1)
      show ?thesis
        by (rule reconcile_absent_settled [OF orphan _ next_unread(3) _ retired_o settles [OF _ retired_o]])
          (use Cons.prems(4) ok in \<open>simp_all add: endpoints_ok_def\<close>)
    qed
  qed
qed

text \<open>The present loop reads none of the absent rows and takes no lease of theirs.\<close>

lemma reconcile_present_untouched:
  assumes "reconcile_present repo existing now fresh gs (s, n, res) = Inr (t, n', res')"
    and "endpoints_ok s" and "v \<in> set (worktrees s)" and "\<forall>u\<in>set (worktrees s). wt_id u = wt_id v \<longrightarrow> u = v"
    and "\<forall>e\<in>set existing. wt_path e \<in> gw_path ` set gs \<longrightarrow> wt_id e \<noteq> wt_id v"
  shows "endpoints_ok t \<and> (\<forall>u\<in>set (worktrees t). wt_id u = wt_id v \<longrightarrow> u = v) \<and>
    (\<forall>l\<in>set (endpoint_leases s). ep_worktree_id l = wt_id v \<and> ep_state l = EP_ACTIVE \<longrightarrow> l \<in> set (endpoint_leases t))"
  using assms
proof (induction gs arbitrary: s n res)
  case Nil
  then show ?case by simp
next
  case (Cons g gs)
  have tail: "\<forall>e\<in>set existing. wt_path e \<in> gw_path ` set gs \<longrightarrow> wt_id e \<noteq> wt_id v" using Cons.prems(5) by auto
  have "\<exists>s1 n1 res1. reconcile_present repo existing now fresh gs (s1, n1, res1) = Inr (t, n', res') \<and> endpoints_ok s1 \<and>
      v \<in> set (worktrees s1) \<and> (\<forall>u\<in>set (worktrees s1). wt_id u = wt_id v \<longrightarrow> u = v) \<and>
      (\<forall>l\<in>set (endpoint_leases s). ep_worktree_id l = wt_id v \<and> ep_state l = EP_ACTIVE \<longrightarrow> l \<in> set (endpoint_leases s1))"
  proof (cases "find (\<lambda>w. wt_path w = gw_path g) existing")
    case None
    let ?w = "\<lparr> wt_id = fresh n, wt_repository_id = rp_id repo, wt_numeric_id = n, wt_path = gw_path g,
                wt_branch = gw_branch g, wt_head_oid = gw_head g, wt_is_main = (gw_path g = rp_main_root repo),
                wt_is_locked = (gw_locked_reason g \<noteq> None), wt_state = WT_DISCOVERED, wt_created_at = now,
                wt_last_seen_at = now, wt_last_runtime_at = None \<rparr>"
    from Cons.prems(1) None have "reconcile_present repo existing now fresh gs
        (s\<lparr>worktrees := worktrees s @ [?w]\<rparr>, Suc n, res\<lparr>discovered := discovered res @ [?w]\<rparr>) = Inr (t, n', res')"
      and "fresh n \<notin> wt_id ` set (worktrees s)"
      by (auto simp: Let_def list_ex_iff split: if_splits)
    moreover from this(2) Cons.prems(3) have "wt_id ?w \<noteq> wt_id v" by auto
    ultimately show ?thesis using Cons.prems(2-4)
      by (intro exI [of _ "s\<lparr>worktrees := worktrees s @ [?w]\<rparr>"] exI [of _ "Suc n"] exI [of _ "res\<lparr>discovered := discovered res @ [?w]\<rparr>"])
        (auto simp: endpoints_ok_def)
  next
    case (Some e)
    from row_by_SomeD [unfolded row_by_def, OF this] have ne: "wt_id e \<noteq> wt_id v" using Cons.prems(5) by simp
    from Cons.prems(1) Some obtain s1 res1 f p where
      s1: "reconcile_present repo existing now fresh gs (s1, n, res1) = Inr (t, n', res')" "\<And>w. wt_id (f w) = wt_id w"
        "p = s \<or> p = release_or_hand_over s e (rp_workspace_id repo)" "s1 = upd_worktree (wt_id e) f p"
      by (auto simp: Let_def split: if_splits option.splits)
    have p: "endpoints_ok p" "worktrees p = worktrees s"
      "\<forall>l\<in>set (endpoint_leases s). ep_worktree_id l = wt_id v \<and> ep_state l = EP_ACTIVE \<longrightarrow> l \<in> set (endpoint_leases p)"
      using s1(3) Cons.prems(2) ne by (auto intro: release_or_hand_over_ok hand_over_others)
    with s1 Cons.prems(3,4) ne show ?thesis
      by (intro exI [of _ s1] exI [of _ n] exI [of _ res1])
        (auto simp: endpoints_ok_def set_upd_where intro!: image_eqI [of _ _ v])
  qed
  then obtain s1 n1 res1 where s1: "reconcile_present repo existing now fresh gs (s1, n1, res1) = Inr (t, n', res')" "endpoints_ok s1"
      "v \<in> set (worktrees s1)" "\<forall>u\<in>set (worktrees s1). wt_id u = wt_id v \<longrightarrow> u = v"
      "\<forall>l\<in>set (endpoint_leases s). ep_worktree_id l = wt_id v \<and> ep_state l = EP_ACTIVE \<longrightarrow> l \<in> set (endpoint_leases s1)" by blast
  from Cons.IH [OF s1(1-4) tail] s1(5) show ?case by blast
qed

text \<open>The path-keyed map of the snapshot: its keys are the paths, each once.\<close>

abbreviation by_path :: "(string \<times> git_worktree_record) list \<Rightarrow> git_worktree_record list \<Rightarrow> (string \<times> git_worktree_record) list" where
  "by_path m gs \<equiv> foldl (\<lambda>m g. map_set (gw_path g) g m) m gs"

definition path_keyed :: "(string \<times> git_worktree_record) list \<Rightarrow> bool" where
  "path_keyed m \<longleftrightarrow> distinct (map fst m) \<and> map fst m = map (\<lambda>x. gw_path (snd x)) m"

lemma path_keyed_set: "path_keyed m \<Longrightarrow> path_keyed (map_set (gw_path g) g m)"
proof -
  have "map fst m = map (\<lambda>x. gw_path (snd x)) m \<Longrightarrow>
      map fst (map_set k g m) = map (\<lambda>x. gw_path (snd x)) (map_set k g m)" if "k = gw_path g" for k
    using that by (induction k g m rule: map_set.induct) auto
  note keys = this [OF refl]
  assume m: "path_keyed m"
  have "distinct (map fst (map_set (gw_path g) g m))" using m unfolding path_keyed_def keys_map_set by auto
  with keys m show "path_keyed (map_set (gw_path g) g m)" unfolding path_keyed_def by blast
qed

lemma path_keyed_by_path: "path_keyed m \<Longrightarrow> path_keyed (by_path m gs)"
  by (induction gs arbitrary: m) (simp_all add: path_keyed_set)

lemma keys_by_path: "fst ` set (by_path m gs) = fst ` set m \<union> gw_path ` set gs"
proof (induction gs arbitrary: m)
  case Nil
  then show ?case by simp
next
  case (Cons g gs)
  have "fst ` set (map_set (gw_path g) g m) = insert (gw_path g) (fst ` set m)"
    using arg_cong [OF keys_map_set [of "gw_path g" g m], of set] by auto
  with Cons.IH [of "map_set (gw_path g) g m"] show ?case
    by (simp only: foldl_Cons list.set image_insert Un_insert_left Un_insert_right)
qed

lemma unique_snapshot_keys: "map gw_path (unique_snapshot snapshot) = map fst (by_path [] snapshot)"
  using path_keyed_by_path [of "[]" snapshot] by (simp add: path_keyed_def unique_snapshot_def comp_def)

lemma unique_snapshot_paths: "gw_path ` set (unique_snapshot snapshot) = gw_path ` set snapshot"
  using arg_cong [OF unique_snapshot_keys [of snapshot], of set] keys_by_path [of "[]" snapshot] by simp

lemma unique_snapshot_distinct: "distinct (map gw_path (unique_snapshot snapshot))"
  unfolding unique_snapshot_keys using path_keyed_by_path [of "[]" snapshot] by (simp add: path_keyed_def)

section \<open>Properties\<close>

text \<open>
  C22. Reconciling a repository with a Git listing never changes the id, repository, number, path or
  creation time of a known worktree, removes no row and gives every path of the listing that the
  repository did not know one new row. The new rows are numbered consecutively, above every number the
  repository has used, whatever order Git lists them in and however often it repeats a path.
\<close>

theorem reconcile_identity:
  assumes "reconcile_worktrees collate s r snapshot fresh now = Inr (t, res)"
  shows "\<exists>new n. map worktree_identity (worktrees t) = map worktree_identity (worktrees s) @ map worktree_identity new \<and>
    map wt_numeric_id new = [n..<n + length new] \<and> (\<forall>w\<in>set new. wt_repository_id w = r) \<and>
    (\<forall>w\<in>set (worktrees s). wt_repository_id w = r \<longrightarrow> wt_numeric_id w < n) \<and>
    distinct (map wt_path new) \<and>
    set (map wt_path new) = gw_path ` set snapshot - wt_path ` {w \<in> set (worktrees s). wt_repository_id w = r}"
proof -
  let ?ex = "filter (\<lambda>w. wt_repository_id w = r) (worktrees s)"
  let ?n = "Suc (foldl (\<lambda>m w. max m (wt_numeric_id w)) 0 ?ex)"
  obtain repo s1 n' res1 s2 where repo: "row_by rp_id r (repositories s) = Some repo"
    and present: "reconcile_present repo ?ex now fresh
        (sort_key (\<lambda>g. path_rank collate (rp_main_root repo) (gw_path g)) (unique_snapshot snapshot))
        (s, ?n, \<lparr> discovered = [], updated = [], orphaned = [] \<rparr>) = Inr (s1, n', res1)"
    and absent: "reconcile_absent repo (gw_path ` set (unique_snapshot snapshot))
        (sort_key (\<lambda>w. path_rank collate (rp_main_root repo) (wt_path w)) ?ex) (s1, res1) = Inr (s2, res)"
    and t: "worktrees t = worktrees s2"
    using reconcile_parts [OF assms] by metis
  let ?gs = "sort_key (\<lambda>g. path_rank collate (rp_main_root repo) (gw_path g)) (unique_snapshot snapshot)"
  have id: "rp_id repo = r" using row_by_SomeD [OF repo] by simp
  from reconcile_present_identity [OF present] obtain new where
    new: "map worktree_identity (worktrees s1) = map worktree_identity (worktrees s) @ map worktree_identity new"
      "map wt_numeric_id new = [?n..<n']" "\<forall>w\<in>set new. wt_repository_id w = rp_id repo"
      "map wt_path new = map gw_path (filter (\<lambda>g. gw_path g \<notin> wt_path ` set ?ex) ?gs)" by blast
  have "length new = n' - ?n" using arg_cong [OF new(2), of length] by simp
  then have num: "map wt_numeric_id new = [?n..<?n + length new]"
    using new(2) by (metis diff_add_inverse le_add_diff_inverse nle_le upt_conv_Nil add_0_right diff_is_0_eq)
  have old: "\<forall>w\<in>set (worktrees s). wt_repository_id w = r \<longrightarrow> wt_numeric_id w < ?n"
    using foldl_max_ge [where f = wt_numeric_id and a = 0 and xs = ?ex] by (simp add: less_Suc_eq_le)
  have dist: "distinct (map wt_path new)"
    unfolding new(4) using unique_snapshot_distinct [of snapshot] by (auto simp: distinct_map intro: inj_on_subset)
  have paths: "set (map wt_path new) = gw_path ` set snapshot - wt_path ` {w \<in> set (worktrees s). wt_repository_id w = r}"
    unfolding new(4) set_map set_filter set_sort image_filter_key [where f = gw_path and A = "set (unique_snapshot snapshot)"]
      unique_snapshot_paths by auto
  from reconcile_absent_identity [OF absent] new(1,3) num old dist paths id t show ?thesis
    by (intro exI [of _ new] exI [of _ ?n]) simp
qed

text \<open>A repository with one worktree that holds a port; Git lists only a new worktree, on the same branch.\<close>

definition demo_listing :: "git_worktree_record list" where
  "demo_listing = [\<lparr> gw_path = ''/z'', gw_head = Some ''a'', gw_branch = Some ''b'', gw_detached = False, gw_bare = False,
     gw_locked_reason = None, gw_prunable_reason = None \<rparr>]"

definition demo_known :: db where
  "demo_known = demo_endpoint_db\<lparr>worktrees := [demo_worktree\<lparr>wt_branch := Some ''b''\<rparr>], repositories := [demo_repository]\<rparr>"

definition demo_found :: worktree_row where
  "demo_found = \<lparr> wt_id = ''w2'', wt_repository_id = ''r1'', wt_numeric_id = 2, wt_path = ''/z'', wt_branch = Some ''b'',
     wt_head_oid = Some ''a'', wt_is_main = False, wt_is_locked = False, wt_state = WT_DISCOVERED, wt_created_at = 20,
     wt_last_seen_at = 20, wt_last_runtime_at = None \<rparr>"

definition demo_reconciled :: db where
  "demo_reconciled = demo_known\<lparr>worktrees := [demo_worktree\<lparr>wt_branch := Some ''b'', wt_state := WT_ORPHANED\<rparr>, demo_found],
     endpoint_leases := [demo_endpoint\<lparr>ep_worktree_id := ''w2''\<rparr>],
     repositories := [demo_repository\<lparr>rp_last_reconciled_at := Some 20\<rparr>]\<rparr>"

definition demo_outcome :: reconcile_result where
  "demo_outcome = \<lparr> discovered = [demo_found], updated = [], orphaned = [demo_worktree\<lparr>wt_branch := Some ''b'', wt_state := WT_ORPHANED\<rparr>] \<rparr>"

lemma demo_reconcile:
  "reconcile_worktrees (\<lambda>p. p) demo_known ''r1'' demo_listing (\<lambda>n. ''w2'') 20 = Inr (demo_reconciled, demo_outcome)"
  by (simp add: reconcile_worktrees_def demo_known_def demo_endpoint_db_def demo_registered_def demo_repository_def
      demo_worktree_def demo_listing_def unique_snapshot_def path_rank_def release_or_hand_over_def upd_worktree_def
      cleanup_owned_def settled_absent_def endpoint_heir_def reassign_active_leases_def demo_reconciled_def demo_outcome_def demo_found_def demo_endpoint_def
      empty_db_def Let_def)

lemma reconcile_identity_witness:
  "\<exists>new n. map worktree_identity (worktrees demo_reconciled) = map worktree_identity (worktrees demo_known) @ map worktree_identity new \<and>
    map wt_numeric_id new = [n..<n + length new] \<and>
    set (map wt_path new) = gw_path ` set demo_listing - wt_path ` {w \<in> set (worktrees demo_known). wt_repository_id w = ''r1''}"
  using reconcile_identity [OF demo_reconcile] by blast

text \<open>
  C23. A worktree that Git no longer lists, and that no removal is working on, ends the reconciliation orphaned (or
  removed) and without an active port, and none of its leases is lost on the way: each lease that was active is still
  there with its id, name, protocol, host and port, either released, or active under another worktree that is alive and
  on the same branch.
\<close>

theorem absent_worktrees_release:
  assumes "reconcile_worktrees collate s r snapshot fresh now = Inr (t, res)"
    and "distinct (map wt_id (worktrees s))" and "endpoints_ok s"
    and "w \<in> set (worktrees s)" and "wt_repository_id w = r" and "wt_path w \<notin> gw_path ` set snapshot"
    and "wt_state w \<notin> {WT_CLEANING, WT_DEGRADED_CLEANUP}"
  shows "(\<forall>v\<in>set (worktrees t). wt_id v = wt_id w \<longrightarrow> wt_state v \<in> {WT_ORPHANED, WT_REMOVED}) \<and>
    (\<forall>l\<in>set (endpoint_leases t). ep_worktree_id l = wt_id w \<longrightarrow> ep_state l \<noteq> EP_ACTIVE) \<and>
    (\<forall>l\<in>set (endpoint_leases s). ep_worktree_id l = wt_id w \<and> ep_state l = EP_ACTIVE \<longrightarrow>
      (\<exists>h. l\<lparr>ep_worktree_id := h, ep_state := EP_RELEASED\<rparr> \<in> set (endpoint_leases t) \<or>
        l\<lparr>ep_worktree_id := h, ep_state := EP_ACTIVE\<rparr> \<in> set (endpoint_leases t) \<and> h \<noteq> wt_id w \<and> wt_branch w \<noteq> None \<and>
        (\<exists>v\<in>set (worktrees t). wt_id v = h \<and> wt_branch v = wt_branch w \<and>
           wt_state v \<notin> {WT_ORPHANED, WT_CLEANING, WT_REMOVED, WT_DEGRADED_CLEANUP})))"
proof -
  let ?ex = "filter (\<lambda>w. wt_repository_id w = r) (worktrees s)"
  obtain repo s1 n n' res0 res1 s2 where
    present: "reconcile_present repo ?ex now fresh
        (sort_key (\<lambda>g. path_rank collate (rp_main_root repo) (gw_path g)) (unique_snapshot snapshot)) (s, n, res0) = Inr (s1, n', res1)"
    and absent: "reconcile_absent repo (gw_path ` set (unique_snapshot snapshot))
        (sort_key (\<lambda>w. path_rank collate (rp_main_root repo) (wt_path w)) ?ex) (s1, res1) = Inr (s2, res)"
    and t: "worktrees t = worktrees s2" "endpoint_leases t = endpoint_leases s2"
    using reconcile_parts [OF assms(1)] by metis
  let ?es = "sort_key (\<lambda>w. path_rank collate (rp_main_root repo) (wt_path w)) ?ex"
  have unique: "u = v" if "v \<in> set (worktrees s)" "u \<in> set (worktrees s)" "wt_id u = wt_id v" for u v
    using that assms(2) by (metis distinct_map inj_on_def)
  have untouched: "endpoints_ok s1 \<and> (\<forall>u\<in>set (worktrees s1). wt_id u = wt_id v \<longrightarrow> u = v) \<and>
      (\<forall>l\<in>set (endpoint_leases s). ep_worktree_id l = wt_id v \<and> ep_state l = EP_ACTIVE \<longrightarrow> l \<in> set (endpoint_leases s1))"
    if v: "v \<in> set ?ex" "wt_path v \<notin> gw_path ` set snapshot" for v
    by (rule reconcile_present_untouched [OF present assms(3)]) (use unique v unique_snapshot_paths [of snapshot] in auto)
  have w: "w \<in> set ?ex" "w \<in> set ?es" "wt_path w \<notin> gw_path ` set (unique_snapshot snapshot)"
    using assms(4-6) unique_snapshot_paths [of snapshot] by simp_all
  have eligible: "\<not> cleanup_owned (wt_state w) \<or> settled_absent (wt_state w)"
    using assms(7) by (cases "wt_state w") (simp_all add: cleanup_owned_def settled_absent_def)
  then have "\<not> cleanup_owned (wt_state w) \<or> settled_absent (wt_state w) \<and> retired s1 (wt_id w)"
    using untouched [OF w(1) assms(6)] by (auto simp: retired_def)
  from reconcile_absent_retires [OF absent w(2,3) this] have gone: "portless s2 (wt_id w) \<and> retired s2 (wt_id w)" .
  have "unread s1 (gw_path ` set (unique_snapshot snapshot)) ?es"
    using untouched unique_snapshot_paths [of snapshot] by (auto simp: unread_def)
  moreover have "distinct (map wt_id ?es)"
    using assms(2) by (simp add: distinct_map inj_on_def)
  ultimately have "settled_lease s2 w l"
    if "l \<in> set (endpoint_leases s)" "ep_worktree_id l = wt_id w" "ep_state l = EP_ACTIVE" for l
    using absent_lease_settles [OF absent _ _ _ w(2,3) eligible _ that(2,3)] untouched [OF w(1) assms(6)] that by blast
  with gone t show ?thesis
    by (fastforce simp: portless_def retired_def settled_absent_def settled_lease_def live_on_def cleanup_owned_def)
qed

lemma absent_worktrees_release_witness:
  "{l \<in> set (endpoint_leases demo_reconciled). ep_worktree_id l = wt_id demo_worktree \<and> ep_state l = EP_ACTIVE} = {} \<and>
   (\<exists>l\<in>set (endpoint_leases demo_reconciled). ep_id l = ep_id demo_endpoint \<and> ep_port l = ep_port demo_endpoint)"
proof -
  have "endpoints_ok demo_known" using demo_endpoints_ok by (simp add: demo_known_def endpoints_ok_def)
  moreover have "demo_endpoint \<in> set (endpoint_leases demo_known)" "ep_worktree_id demo_endpoint = wt_id demo_worktree"
    "ep_state demo_endpoint = EP_ACTIVE"
    by (simp_all add: demo_known_def demo_endpoint_db_def demo_endpoint_def demo_worktree_def)
  moreover have "distinct (map wt_id (worktrees demo_known))" "demo_worktree\<lparr>wt_branch := Some ''b''\<rparr> \<in> set (worktrees demo_known)"
    "wt_repository_id (demo_worktree\<lparr>wt_branch := Some ''b''\<rparr>) = ''r1''"
    "wt_path (demo_worktree\<lparr>wt_branch := Some ''b''\<rparr>) \<notin> gw_path ` set demo_listing"
    "wt_state (demo_worktree\<lparr>wt_branch := Some ''b''\<rparr>) \<notin> {WT_CLEANING, WT_DEGRADED_CLEANUP}"
    by (simp_all add: demo_known_def demo_worktree_def demo_listing_def)
  ultimately show ?thesis
    using absent_worktrees_release [OF demo_reconcile, of "demo_worktree\<lparr>wt_branch := Some ''b''\<rparr>"] by fastforce
qed

lemma case_find: "(case find P xs of None \<Rightarrow> a | Some _ \<Rightarrow> b) = (if list_ex P xs then b else a)"
  by (induction xs) auto

text \<open>
  Forgetting a repository is refused while it has a queued or running job or an unexpired operation
  lease. Otherwise no row of its own is left in any table (registration, worktrees, ports, processes,
  start reservations, CI watches, overrides, checklist items, operation leases), the rows of every other
  repository are left as they were, and the answer tells whether it was registered.
\<close>

theorem forget_repository_complete:
  assumes "\<forall>w\<in>set (worktrees s). wt_repository_id w \<in> rp_id ` set (repositories s)"
  shows "if exists_where (\<lambda>j. hj_repository_id j = r \<and> pending j) (jobs s) \<or>
        exists_where (\<lambda>l. ol_repository_id l = r \<and> now < ol_expires_at l) (op_leases s)
     then forget_repository s r now = Inl (Heavy_Job_Error OPERATION_CONFLICT)
     else let gone = {wt_id w |w. w \<in> set (worktrees s) \<and> wt_repository_id w = r} in
       \<exists>t. forget_repository s r now = Inr (t, r \<in> rp_id ` set (repositories s)) \<and>
        repositories t = filter (\<lambda>x. rp_id x \<noteq> r) (repositories s) \<and>
        worktrees t = filter (\<lambda>w. wt_repository_id w \<noteq> r) (worktrees s) \<and>
        endpoint_leases t = filter (\<lambda>l. ep_worktree_id l \<notin> gone) (endpoint_leases s) \<and>
        processes t = filter (\<lambda>p. mp_worktree_id p \<notin> gone) (processes s) \<and>
        reservations t = filter (\<lambda>x. sr_worktree_id x \<notin> gone) (reservations s) \<and>
        ci_watches t = filter (\<lambda>c. cw_worktree_id c \<notin> gone) (ci_watches s) \<and>
        overrides t = filter (\<lambda>c. to_worktree_id c \<notin> gone) (overrides s) \<and>
        checklist t = filter (\<lambda>c. ck_worktree_id c \<notin> gone) (checklist s) \<and>
        op_leases t = filter (\<lambda>l. ol_repository_id l \<noteq> r) (op_leases s) \<and> jobs t = jobs s"
proof -
  let ?busy = "exists_where (\<lambda>j. hj_repository_id j = r \<and> pending j) (jobs s)"
  let ?live = "exists_where (\<lambda>l. ol_repository_id l = r \<and> now < ol_expires_at l) (op_leases s)"
  define gone where "gone = {wt_id w |w. w \<in> set (worktrees s) \<and> wt_repository_id w = r}"
  have live: "assert_no_live_operation_lease s r now =
      (if ?live then Inl (Heavy_Job_Error OPERATION_CONFLICT) else Inr ())"
    unfolding assert_no_live_operation_lease_def case_find by (auto simp: lease_expired_def set_repository_leases list_ex_iff not_le)
  have img: "wt_id ` set (filter (\<lambda>w. wt_repository_id w = r) (worktrees s)) = gone" by (auto simp: gone_def)
  show ?thesis
  proof (cases "?busy \<or> ?live")
    case True
    then show ?thesis by (auto simp: forget_repository_def assert_no_heavy_jobs_def live)
  next
    case False
    let ?s1 = "delete_worktree_children s gone"
    let ?s2 = "?s1\<lparr>op_leases := del_where (\<lambda>l. ol_repository_id l = r) (op_leases ?s1)\<rparr>"
    define s3 where "s3 = delete_events (delete_events ?s2 Subject_Repository {r}) Subject_Worktree gone"
    let ?t = "cascade_repositories s3 (\<lambda>x. rp_id x = r)"
    have answer: "exists_where (\<lambda>x. rp_id x = r) (repositories s) = (r \<in> rp_id ` set (repositories s))" by (auto simp: list_ex_iff)
    have fr: "forget_repository s r now = Inr (?t, r \<in> rp_id ` set (repositories s))"
      using False unfolding forget_repository_def assert_no_heavy_jobs_def live Let_def img answer s3_def by simp
    have rs: "rp_id ` set (filter (\<lambda>x. rp_id x = r) (repositories s)) = {r} \<inter> rp_id ` set (repositories s)" by auto
    have in_r: "wt_repository_id w \<in> {r} \<inter> rp_id ` set (repositories s) \<longleftrightarrow> wt_repository_id w = r" if "w \<in> set (worktrees s)" for w
      using assms that by auto
    have ws: "filter (\<lambda>w. wt_repository_id w \<in> {r} \<inter> rp_id ` set (repositories s)) (worktrees s) =
        filter (\<lambda>w. wt_repository_id w = r) (worktrees s)"
      "filter (\<lambda>w. wt_repository_id w \<notin> {r} \<inter> rp_id ` set (repositories s)) (worktrees s) =
        filter (\<lambda>w. wt_repository_id w \<noteq> r) (worktrees s)" using in_r by (auto intro!: filter_cong)
    have s3: "repositories s3 = repositories s" "worktrees s3 = worktrees s" "endpoint_leases s3 = endpoint_leases s"
      "processes s3 = processes s" "reservations s3 = filter (\<lambda>x. sr_worktree_id x \<notin> gone) (reservations s)"
      "ci_watches s3 = filter (\<lambda>c. cw_worktree_id c \<notin> gone) (ci_watches s)"
      "overrides s3 = filter (\<lambda>c. to_worktree_id c \<notin> gone) (overrides s)"
      "checklist s3 = filter (\<lambda>c. ck_worktree_id c \<notin> gone) (checklist s)"
      "op_leases s3 = filter (\<lambda>l. ol_repository_id l \<noteq> r) (op_leases s)" "jobs s3 = jobs s"
      by (simp_all add: s3_def delete_events_def delete_worktree_children_def del_where_def)
    have once: "filter (\<lambda>l. ol_repository_id l \<notin> {r} \<inter> rp_id ` set (repositories s))
        (filter (\<lambda>l. ol_repository_id l \<noteq> r) (op_leases s)) = filter (\<lambda>l. ol_repository_id l \<noteq> r) (op_leases s)"
      by (auto intro!: filter_cong)
    note t = cascade_repositories_def [of s3 "\<lambda>x. rp_id x = r", unfolded Let_def s3 del_where_def rs ws img once]
    show ?thesis unfolding gone_def [symmetric] Let_def if_not_P [OF False]
      by (intro exI [of _ ?t] conjI; (rule fr | simp add: t s3))
  qed
qed


lemma forget_repository_complete_witness:
  "\<exists>t. forget_repository demo_known ''r1'' 30 = Inr (t, True) \<and> repositories t = [] \<and> worktrees t = [] \<and> endpoint_leases t = []"
  using forget_repository_complete [of demo_known "''r1''" 30]
  by (auto simp: demo_known_def demo_endpoint_db_def demo_endpoint_def demo_registered_def demo_repository_def demo_worktree_def empty_db_def Let_def)

text \<open>
  Of any number of passes that try to announce a lifecycle event of a subject, exactly one wins: the
  first claim succeeds, every later one fails and changes nothing until the claim is released, and after a
  release the next claim succeeds again.
\<close>

theorem lifecycle_event_once:
  assumes "\<not> has_lifecycle_event_claim s k i e"
  shows "\<exists>t. claim_lifecycle_event s k i e now = (t, True) \<and> has_lifecycle_event_claim t k i e \<and>
    claim_lifecycle_event t k i e later = (t, False) \<and> release_lifecycle_event t k i e = (s, True)"
proof -
  have "filter (event_matches k i e) (events s) = []" "filter (\<lambda>x. \<not> event_matches k i e x) (events s) = events s"
    using assms by (auto simp: has_lifecycle_event_claim_def filter_empty_conv list_ex_iff)
  with assms show ?thesis
    by (simp add: has_lifecycle_event_claim_def claim_lifecycle_event_def release_lifecycle_event_def event_matches_def
        count_where_def del_where_def Let_def)
qed

lemma lifecycle_event_once_witness:
  "\<exists>t. claim_lifecycle_event empty_db Subject_Worktree ''w1'' ''discovered'' 1 = (t, True) \<and>
     claim_lifecycle_event t Subject_Worktree ''w1'' ''discovered'' 2 = (t, False)"
  using lifecycle_event_once [of empty_db Subject_Worktree "''w1''" "''discovered''" 1 2]
  by (auto simp: has_lifecycle_event_claim_def empty_db_def)

end
