(* ===== verification/Resource_Store.thy ===== *)
theory Resource_Store
  imports Store_Types
begin

text \<open>
  The resource tables (\<open>packages/core/src/state/sqlite-store.ts\<close>): sandboxes, storage objects, references to
  them, the cleanup leases that give one collector an object, and the journal a deletion is recorded
  in. \<open>now\<close> is SQLite's clock, \<open>julianday('now')\<close>; a TTL is \<open>None\<close> when it is not finite.
\<close>

section \<open>Sandboxes, objects and references\<close>

definition upsert_sandbox :: "db \<Rightarrow> sandbox_row \<Rightarrow> store_error + db" where
  "upsert_sandbox s i =
    (case row_by sb_id (sb_id i) (sandboxes s) of
       Some existing \<Rightarrow>
         if sb_root existing \<noteq> sb_root i \<or> sb_generation existing \<noteq> sb_generation i \<or> sb_dev existing \<noteq> sb_dev i
           \<or> sb_ino existing \<noteq> sb_ino i \<or> sb_uid existing \<noteq> sb_uid i
         then Inl (Plain_Error Sandbox_Identity_Changed) else Inr s
     | None \<Rightarrow>
         if exists_where (\<lambda>b. sb_root b = sb_root i \<and> sb_generation b = sb_generation i) (sandboxes s)
         then Inl (Plain_Error Constraint_Violation)
         else Inr (s\<lparr>sandboxes := sandboxes s @ [i]\<rparr>))"

definition register_object :: "db \<Rightarrow> storage_object \<Rightarrow> store_error + db" where
  "register_object s i =
    (if exists_where (\<lambda>o'. so_id o' = so_id i \<or> so_sandbox_id o' = so_sandbox_id i \<and> so_path o' = so_path i) (storage_objects s)
       \<or> \<not> exists_where (\<lambda>b. sb_id b = so_sandbox_id i) (sandboxes s) \<or> so_logical_bytes i < 0 \<or> so_allocated_bytes i < 0
     then Inl (Plain_Error Constraint_Violation)
     else Inr (s\<lparr>storage_objects := storage_objects s @ [i]\<rparr>))"

definition active_reference :: "ident \<Rightarrow> resource_reference \<Rightarrow> bool" where
  "active_reference object_id r \<longleftrightarrow> rr_storage_object_id r = object_id \<and> rr_released_at r = None"

definition referenced :: "db \<Rightarrow> ident \<Rightarrow> bool" where
  "referenced s object_id \<longleftrightarrow> exists_where (active_reference object_id) (references s)"

text \<open>The new row is unreleased, whatever \<open>rr_released_at\<close> of the input record is.\<close>

definition add_reference :: "db \<Rightarrow> resource_reference \<Rightarrow> store_error + db" where
  "add_reference s i =
    (if exists_where (\<lambda>o'. so_id o' = rr_storage_object_id i \<and> (so_state o' \<in> {SO_QUARANTINED, SO_REMOVED}
          \<or> exists_where (\<lambda>l. cl_storage_object_id l = so_id o') (cleanup_leases s))) (storage_objects s)
     then Inl (Plain_Error Reference_During_Cleanup)
     else if exists_where (\<lambda>r. rr_id r = rr_id i) (references s)
       \<or> \<not> exists_where (\<lambda>o'. so_id o' = rr_storage_object_id i) (storage_objects s)
       \<or> exists_where (\<lambda>r. active_reference (rr_storage_object_id i) r \<and> rr_owner_type r = rr_owner_type i
            \<and> rr_owner_id r = rr_owner_id i \<and> rr_resource_name r = rr_resource_name i) (references s)
     then Inl (Plain_Error Constraint_Violation)
     else Inr (s\<lparr>references := references s @ [i\<lparr>rr_released_at := None\<rparr>]\<rparr>))"

definition release_reference :: "db \<Rightarrow> ident \<Rightarrow> time \<Rightarrow> db \<times> bool" where
  "release_reference s reference_id released_at =
    (let P = (\<lambda>r. rr_id r = reference_id \<and> rr_released_at r = None)
     in (s\<lparr>references := upd_where P (\<lambda>r. r\<lparr>rr_released_at := Some released_at\<rparr>) (references s)\<rparr>,
         count_where P (references s) = 1))"

text \<open>
  One row per object with its sandbox, the number of its active references and the token of its
  unexpired cleanup lease.
\<close>

definition list_gc_evidence :: "db \<Rightarrow> time \<Rightarrow> (storage_object \<times> sandbox_row \<times> nat \<times> string option) list" where
  "list_gc_evidence s now =
    concat (map (\<lambda>o'. case row_by sb_id (so_sandbox_id o') (sandboxes s) of None \<Rightarrow> []
        | Some b \<Rightarrow> [(o', b, count_where (active_reference (so_id o')) (references s),
            map_option cl_token (find (\<lambda>l. cl_storage_object_id l = so_id o' \<and> now < cl_expires_at l) (cleanup_leases s)))])
      (sort_key (\<lambda>o'. (so_path o', so_id o')) (storage_objects s)))"

section \<open>Cleanup leases\<close>

definition sandbox_generation_is :: "db \<Rightarrow> ident \<Rightarrow> string \<Rightarrow> bool" where
  "sandbox_generation_is s sandbox_id generation \<longleftrightarrow>
     exists_where (\<lambda>b. sb_id b = sandbox_id \<and> sb_generation b = generation) (sandboxes s)"

definition cleanup_eligible :: "db \<Rightarrow> cleanup_request \<Rightarrow> storage_object \<Rightarrow> bool" where
  "cleanup_eligible s q o' \<longleftrightarrow>
     so_id o' = cr_storage_object_id q \<and> so_sandbox_id o' = cr_sandbox_id q \<and>
     sandbox_generation_is s (so_sandbox_id o') (cr_sandbox_generation q) \<and>
     so_path o' = cr_path q \<and> so_dev o' = cr_dev q \<and> so_ino o' = cr_ino q \<and> so_uid o' = cr_uid q \<and> so_kind o' = cr_kind q \<and>
     so_state o' = cr_state q \<and> so_retention o' = cr_retention q \<and> so_owned o' \<and> so_retention o' = Ephemeral \<and>
     so_state o' \<in> {SO_STALE, SO_ORPHANED, SO_QUARANTINED} \<and> \<not> referenced s (so_id o')"

definition set_object_state :: "(storage_object \<Rightarrow> bool) \<Rightarrow> storage_state \<Rightarrow> db \<Rightarrow> db" where
  "set_object_state P st s = s\<lparr>storage_objects := upd_where P (\<lambda>o'. o'\<lparr>so_state := st\<rparr>) (storage_objects s)\<rparr>"

text \<open>\<open>None\<close> is a time to live that is not a finite number; the default of an omitted argument is passed by the caller.\<close>

definition positive_ttl :: "int option \<Rightarrow> bool" where
  "positive_ttl ttl_ms = (case ttl_ms of None \<Rightarrow> False | Some ttl \<Rightarrow> 0 < ttl)"

definition ttl_end :: "time \<Rightarrow> int option \<Rightarrow> time" where
  "ttl_end now ttl_ms = nat (int now + (case ttl_ms of None \<Rightarrow> 0 | Some ttl \<Rightarrow> ttl))"

definition acquire_cleanup_lease :: "db \<Rightarrow> cleanup_request \<Rightarrow> string \<Rightarrow> int option \<Rightarrow> time \<Rightarrow> db \<times> bool" where
  "acquire_cleanup_lease s q token ttl_ms now =
    (if \<not> positive_ttl ttl_ms then (s, False)
     else let s1 = s\<lparr>cleanup_leases := del_where (\<lambda>l. cl_storage_object_id l = cr_storage_object_id q
              \<and> cl_expires_at l \<le> now) (cleanup_leases s)\<rparr> in
       if \<not> exists_where (cleanup_eligible s1 q) (storage_objects s1) then (s1, False)
       else if exists_where (\<lambda>l. cl_storage_object_id l = cr_storage_object_id q) (cleanup_leases s1) then (s1, False)
       else let l = \<lparr> cl_storage_object_id = cr_storage_object_id q, cl_token = token, cl_sandbox_id = cr_sandbox_id q,
              cl_sandbox_generation = cr_sandbox_generation q, cl_path = cr_path q, cl_dev = cr_dev q, cl_ino = cr_ino q,
              cl_uid = cr_uid q, cl_kind = cr_kind q, cl_previous_state = cr_state q, cl_retention = cr_retention q,
              cl_acquired_at = now, cl_expires_at = ttl_end now ttl_ms \<rparr>
         in (set_object_state (\<lambda>o'. so_id o' = cr_storage_object_id q) SO_QUARANTINED
               (s1\<lparr>cleanup_leases := cleanup_leases s1 @ [l]\<rparr>), True))"

text \<open>The identity columns of a lease are those of its object.\<close>

definition lease_of_object :: "cleanup_lease \<Rightarrow> storage_object \<Rightarrow> bool" where
  "lease_of_object l o' \<longleftrightarrow>
     so_id o' = cl_storage_object_id l \<and> so_sandbox_id o' = cl_sandbox_id l \<and> so_path o' = cl_path l \<and> so_dev o' = cl_dev l \<and>
     so_ino o' = cl_ino l \<and> so_uid o' = cl_uid l \<and> so_kind o' = cl_kind l \<and> so_retention o' = cl_retention l"

definition renewable_lease :: "db \<Rightarrow> cleanup_request \<Rightarrow> string \<Rightarrow> time \<Rightarrow> cleanup_lease \<Rightarrow> bool" where
  "renewable_lease s q token now l \<longleftrightarrow>
     cl_storage_object_id l = cr_storage_object_id q \<and> cl_token l = token \<and> cl_sandbox_id l = cr_sandbox_id q \<and>
     cl_sandbox_generation l = cr_sandbox_generation q \<and> cl_path l = cr_path q \<and> cl_dev l = cr_dev q \<and>
     cl_ino l = cr_ino q \<and> cl_uid l = cr_uid q \<and> cl_kind l = cr_kind q \<and> cl_retention l = cr_retention q \<and>
     now < cl_expires_at l \<and>
     exists_where (\<lambda>o'. lease_of_object l o' \<and> sandbox_generation_is s (so_sandbox_id o') (cl_sandbox_generation l) \<and>
       so_state o' = SO_QUARANTINED \<and> so_owned o' \<and> \<not> referenced s (so_id o')) (storage_objects s)"

definition renew_cleanup_lease :: "db \<Rightarrow> cleanup_request \<Rightarrow> string \<Rightarrow> int option \<Rightarrow> time \<Rightarrow> db \<times> bool" where
  "renew_cleanup_lease s q token ttl_ms now =
    (if \<not> positive_ttl ttl_ms then (s, False)
     else let P = renewable_lease s q token now
       in (s\<lparr>cleanup_leases := upd_where P (\<lambda>l. l\<lparr>cl_expires_at := ttl_end now ttl_ms\<rparr>) (cleanup_leases s)\<rparr>,
           count_where P (cleanup_leases s) = 1))"

definition cleanup_lease_is :: "ident \<Rightarrow> string \<Rightarrow> cleanup_lease \<Rightarrow> bool" where
  "cleanup_lease_is object_id token l \<longleftrightarrow> cl_storage_object_id l = object_id \<and> cl_token l = token"

definition release_cleanup_lease :: "db \<Rightarrow> ident \<Rightarrow> string \<Rightarrow> bool \<Rightarrow> db \<times> bool" where
  "release_cleanup_lease s object_id token preserve_reservation =
    (let s1 = (case find (cleanup_lease_is object_id token) (cleanup_leases s) of
          Some l \<Rightarrow> if preserve_reservation then s
            else set_object_state (\<lambda>o'. so_id o' = object_id \<and> so_state o' = SO_QUARANTINED) (cl_previous_state l) s
        | None \<Rightarrow> s)
     in (s1\<lparr>cleanup_leases := del_where (cleanup_lease_is object_id token) (cleanup_leases s1)\<rparr>,
         count_where (cleanup_lease_is object_id token) (cleanup_leases s) = 1))"

section \<open>Finalization and the journal\<close>

definition removable_object :: "db \<Rightarrow> string \<Rightarrow> time \<Rightarrow> storage_object \<Rightarrow> bool" where
  "removable_object s token now o' \<longleftrightarrow>
     so_owned o' \<and> so_retention o' = Ephemeral \<and> so_state o' = SO_QUARANTINED \<and>
     exists_where (\<lambda>l. cl_token l = token \<and> lease_of_object l o' \<and>
       sandbox_generation_is s (so_sandbox_id o') (cl_sandbox_generation l) \<and> now < cl_expires_at l) (cleanup_leases s) \<and>
     \<not> referenced s (so_id o')"

definition finalize_cleanup :: "db \<Rightarrow> ident \<Rightarrow> string \<Rightarrow> time \<Rightarrow> db \<times> bool" where
  "finalize_cleanup s object_id token now =
    (let P = (\<lambda>o'. so_id o' = object_id \<and> removable_object s token now o') in
     if count_where P (storage_objects s) \<noteq> 1 then (s, False)
     else (fst (release_cleanup_lease (set_object_state P SO_REMOVED s) object_id token False), True))"

definition journal_row_matches :: "gc_journal_input \<Rightarrow> gc_journal_input \<Rightarrow> bool" where
  "journal_row_matches row i \<longleftrightarrow>
     gj_operation_id row = gj_operation_id i \<and> gj_storage_object_id row = gj_storage_object_id i \<and>
     gj_original_path row = gj_original_path i \<and> gj_quarantine_path row = gj_quarantine_path i \<and>
     gj_dev row = gj_dev i \<and> gj_ino row = gj_ino i \<and> gj_uid row = gj_uid i \<and>
     gj_sandbox_id row = gj_sandbox_id i \<and> gj_sandbox_generation row = gj_sandbox_generation i \<and>
     gj_kind row = gj_kind i \<and> gj_container row = gj_container i"

definition journal_object :: "db \<Rightarrow> gc_journal_input \<Rightarrow> storage_object \<Rightarrow> bool" where
  "journal_object s i o' \<longleftrightarrow>
     so_id o' = gj_storage_object_id i \<and> so_sandbox_id o' = gj_sandbox_id i \<and> so_path o' = gj_original_path i \<and>
     so_dev o' = gj_dev i \<and> so_ino o' = gj_ino i \<and> so_uid o' = gj_uid i \<and> so_kind o' = gj_kind i \<and>
     so_owned o' \<and> so_retention o' = Ephemeral \<and>
     sandbox_generation_is s (so_sandbox_id o') (gj_sandbox_generation i) \<and> \<not> referenced s (so_id o')"

definition finalize_journal :: "db \<Rightarrow> gc_journal_input \<Rightarrow> string \<Rightarrow> time \<Rightarrow> store_error + (db \<times> bool)" where
  "finalize_journal s i token now =
    (if gj_phase i \<noteq> JP_Finalized then Inl (Plain_Error Journal_Not_Finalized)
     else case row_by (\<lambda>r. gj_operation_id (gr_input r)) (gj_operation_id i) (journal s) of
       None \<Rightarrow> Inr (s, False)
     | Some row \<Rightarrow>
       if \<not> journal_row_matches (gr_input row) i \<or> gj_phase (gr_input row) \<notin> {JP_Prepared, JP_Deleted, JP_Finalized}
       then Inr (s, False)
       else let P = (\<lambda>o'. journal_object s i o' \<and> so_state o' = SO_QUARANTINED \<and>
              exists_where (\<lambda>l. cl_token l = token \<and> lease_of_object l o' \<and>
                cl_sandbox_generation l = gj_sandbox_generation i \<and> now < cl_expires_at l) (cleanup_leases s))
         in if count_where P (storage_objects s) \<noteq> 1
              \<and> \<not> exists_where (\<lambda>o'. journal_object s i o' \<and> so_state o' = SO_REMOVED) (storage_objects s)
            then Inr (s, False)
            else let s1 = (if count_where P (storage_objects s) = 1 then set_object_state P SO_REMOVED s else s);
                J = (\<lambda>r. gj_operation_id (gr_input r) = gj_operation_id i \<and> gj_phase (gr_input r) = gj_phase (gr_input row))
              in if count_where J (journal s1) \<noteq> 1 then Inl (Plain_Error Journal_Lost_Row)
                 else Inr (s1\<lparr>journal := upd_where J
                       (\<lambda>r. r\<lparr>gr_input := (gr_input r)\<lparr>gj_phase := JP_Finalized\<rparr>, gr_updated_at := now\<rparr>) (journal s1),
                     cleanup_leases := del_where (cleanup_lease_is (gj_storage_object_id i) token) (cleanup_leases s1)\<rparr>, True))"

fun phase_order :: "journal_phase \<Rightarrow> nat" where
  "phase_order JP_Prepared = 0"
| "phase_order JP_Linked = 1"
| "phase_order JP_Unlinking = 2"
| "phase_order JP_Quarantined = 3"
| "phase_order JP_Deleting = 4"
| "phase_order JP_Deleted = 5"
| "phase_order JP_Finalized = 6"

text \<open>A conflict on the operation id updates the phase and the quarantine columns only.\<close>

definition record_journal :: "db \<Rightarrow> gc_journal_input \<Rightarrow> time \<Rightarrow> store_error + db" where
  "record_journal s i now =
    (case row_by (\<lambda>r. gj_operation_id (gr_input r)) (gj_operation_id i) (journal s) of
       Some row \<Rightarrow>
         if phase_order (gj_phase i) < phase_order (gj_phase (gr_input row)) then Inl (Plain_Error Journal_Backward)
         else Inr (s\<lparr>journal := upd_where (\<lambda>r. gj_operation_id (gr_input r) = gj_operation_id i)
             (\<lambda>r. r\<lparr>gr_input := (gr_input r)\<lparr>gj_phase := gj_phase i, gj_quarantine_path := gj_quarantine_path i,
                gj_container := gj_container i\<rparr>, gr_updated_at := now\<rparr>) (journal s)\<rparr>)
     | None \<Rightarrow>
         if \<not> exists_where (\<lambda>o'. so_id o' = gj_storage_object_id i) (storage_objects s)
         then Inl (Plain_Error Constraint_Violation)
         else Inr (s\<lparr>journal := journal s @ [\<lparr> gr_input = i, gr_updated_at = now \<rparr>]\<rparr>))"

definition list_journal :: "db \<Rightarrow> gc_journal_input list" where
  "list_journal s = map gr_input (sort_key (\<lambda>r. (gr_updated_at r, gj_operation_id (gr_input r))) (journal s))"

end
