(* ===== verification/Resource_Properties.thy ===== *)
theory Resource_Properties
  imports Resource_Store
begin

text \<open>
  What the resource tables guarantee: an object that is being cleaned up, or is gone, is used by nobody; its
  removal is final; and the journal of a deletion only moves forward.
\<close>

section \<open>The table invariant\<close>

definition resources_ok :: "db \<Rightarrow> bool" where
  "resources_ok s \<longleftrightarrow> distinct (map so_id (storage_objects s)) \<and> distinct (map cl_storage_object_id (cleanup_leases s)) \<and>
    distinct (map (\<lambda>r. gj_operation_id (gr_input r)) (journal s)) \<and>
    (\<forall>l\<in>set (cleanup_leases s). cl_previous_state l \<noteq> SO_REMOVED \<and>
      (\<exists>q\<in>set (storage_objects s). so_id q = cl_storage_object_id l \<and> so_state q = SO_QUARANTINED)) \<and>
    (\<forall>q\<in>set (storage_objects s). so_state q \<in> {SO_QUARANTINED, SO_REMOVED} \<longrightarrow> \<not> referenced s (so_id q)) \<and>
    (\<forall>r\<in>set (references s). rr_storage_object_id r \<in> so_id ` set (storage_objects s))"

lemma resources_okI:
  assumes "distinct (map so_id (storage_objects s))" and "distinct (map cl_storage_object_id (cleanup_leases s))"
    and "distinct (map (\<lambda>r. gj_operation_id (gr_input r)) (journal s))"
    and "\<And>l. l \<in> set (cleanup_leases s) \<Longrightarrow> cl_previous_state l \<noteq> SO_REMOVED"
    and "\<And>l. l \<in> set (cleanup_leases s) \<Longrightarrow> \<exists>q\<in>set (storage_objects s). so_id q = cl_storage_object_id l \<and> so_state q = SO_QUARANTINED"
    and "\<And>q. q \<in> set (storage_objects s) \<Longrightarrow> so_state q \<in> {SO_QUARANTINED, SO_REMOVED} \<Longrightarrow> \<not> referenced s (so_id q)"
    and "\<And>r. r \<in> set (references s) \<Longrightarrow> rr_storage_object_id r \<in> so_id ` set (storage_objects s)"
  shows "resources_ok s"
  unfolding resources_ok_def using assms by blast

lemma resources_okD:
  assumes "resources_ok s"
  shows "distinct (map so_id (storage_objects s))" and "distinct (map cl_storage_object_id (cleanup_leases s))"
    and "distinct (map (\<lambda>r. gj_operation_id (gr_input r)) (journal s))"
    and "l \<in> set (cleanup_leases s) \<Longrightarrow> cl_previous_state l \<noteq> SO_REMOVED"
    and "l \<in> set (cleanup_leases s) \<Longrightarrow> \<exists>q\<in>set (storage_objects s). so_id q = cl_storage_object_id l \<and> so_state q = SO_QUARANTINED"
    and "q \<in> set (storage_objects s) \<Longrightarrow> so_state q \<in> {SO_QUARANTINED, SO_REMOVED} \<Longrightarrow> \<not> referenced s (so_id q)"
    and "r \<in> set (references s) \<Longrightarrow> rr_storage_object_id r \<in> so_id ` set (storage_objects s)"
  using assms unfolding resources_ok_def by blast+

lemma referenced_cong: "references t = references s \<Longrightarrow> referenced t i = referenced s i"
  by (simp add: referenced_def)

lemma set_object_state_simps [simp]:
  "storage_objects (set_object_state P st s) = upd_where P (\<lambda>q. q\<lparr>so_state := st\<rparr>) (storage_objects s)"
  "cleanup_leases (set_object_state P st s) = cleanup_leases s" "references (set_object_state P st s) = references s"
  "journal (set_object_state P st s) = journal s"
  by (simp_all add: set_object_state_def)

lemma object_ids_upd [simp]: "map so_id (upd_where P (\<lambda>q. q\<lparr>so_state := st\<rparr>) qs) = map so_id qs"
  by (rule map_upd_where) simp

lemma object_id_set_upd [simp]: "so_id ` set (upd_where P (\<lambda>q. q\<lparr>so_state := st\<rparr>) qs) = so_id ` set qs"
  unfolding set_map [symmetric] object_ids_upd ..

lemma object_unique: "resources_ok s \<Longrightarrow> p \<in> set (storage_objects s) \<Longrightarrow> q \<in> set (storage_objects s) \<Longrightarrow> so_id p = so_id q \<Longrightarrow> p = q"
  using resources_okD(1) by (metis distinct_map inj_on_def)

lemma cleanup_lease_unique:
  "resources_ok s \<Longrightarrow> k \<in> set (cleanup_leases s) \<Longrightarrow> l \<in> set (cleanup_leases s) \<Longrightarrow>
   cl_storage_object_id k = cl_storage_object_id l \<Longrightarrow> k = l"
  using resources_okD(2) by (metis distinct_map inj_on_def)

text \<open>The invariant looks at the five tables only.\<close>

lemma resources_ok_frame:
  assumes "resources_ok s" and "storage_objects t = storage_objects s" and "set (cleanup_leases t) \<subseteq> set (cleanup_leases s)"
    and "distinct (map cl_storage_object_id (cleanup_leases t))"
    and "references t = references s" and "distinct (map (\<lambda>r. gj_operation_id (gr_input r)) (journal t))"
  shows "resources_ok t"
  using resources_okD [OF assms(1)] assms(2-6) referenced_cong [OF assms(5)]
  by (intro resources_okI) (simp_all add: subset_iff)

lemma resources_ok_delete_leases: "resources_ok s \<Longrightarrow> resources_ok (s\<lparr>cleanup_leases := del_where P (cleanup_leases s)\<rparr>)"
  by (rule resources_ok_frame) (auto simp: resources_okD distinct_del_where)

section \<open>Every operation keeps it\<close>

lemma register_object_ok:
  assumes "register_object s i = Inr t" and "resources_ok s"
  shows "resources_ok t"
proof -
  from assms(1) have t: "t = s\<lparr>storage_objects := storage_objects s @ [i]\<rparr>" and new: "so_id i \<notin> so_id ` set (storage_objects s)"
    by (auto simp: register_object_def list_ex_iff split: if_splits)
  have "\<not> referenced s (so_id i)"
  proof
    assume "referenced s (so_id i)"
    then obtain r where "r \<in> set (references s)" "rr_storage_object_id r = so_id i"
      by (auto simp: referenced_def active_reference_def list_ex_iff)
    with resources_okD(7) [OF assms(2) this(1)] new show False by simp
  qed
  moreover have "referenced t k = referenced s k" for k by (simp add: t referenced_def)
  ultimately show ?thesis
    using resources_okD [OF assms(2)] new by (intro resources_okI) (auto simp: t)
qed

lemma add_reference_ok:
  assumes "add_reference s i = Inr t" and "resources_ok s"
  shows "resources_ok t"
proof -
  from assms(1) have t: "t = s\<lparr>references := references s @ [i\<lparr>rr_released_at := None\<rparr>]\<rparr>"
    and ex: "rr_storage_object_id i \<in> so_id ` set (storage_objects s)"
    and free: "\<And>q. q \<in> set (storage_objects s) \<Longrightarrow> so_id q = rr_storage_object_id i \<Longrightarrow> so_state q \<notin> {SO_QUARANTINED, SO_REMOVED}"
    by (force simp: add_reference_def list_ex_iff split: if_splits)+
  have ref: "referenced t k = (referenced s k \<or> rr_storage_object_id i = k)" for k
    by (simp add: t referenced_def active_reference_def)
  have tables: "storage_objects t = storage_objects s" "cleanup_leases t = cleanup_leases s" "journal t = journal s"
    "set (references t) = insert (i\<lparr>rr_released_at := None\<rparr>) (set (references s))" by (simp_all add: t)
  show ?thesis
  proof (rule resources_okI)
    show "\<not> referenced t (so_id q)" if "q \<in> set (storage_objects t)" "so_state q \<in> {SO_QUARANTINED, SO_REMOVED}" for q
      using that free [of q] resources_okD(6) [OF assms(2), of q] unfolding ref tables by auto
    show "rr_storage_object_id r \<in> so_id ` set (storage_objects t)" if "r \<in> set (references t)" for r
      using that ex resources_okD(7) [OF assms(2), of r] unfolding tables by auto
  qed (simp_all add: tables resources_okD [OF assms(2)])
qed

lemma release_reference_ok:
  assumes "resources_ok s"
  shows "resources_ok (fst (release_reference s k now))"
proof -
  define t where "t = fst (release_reference s k now)"
  have tables: "storage_objects t = storage_objects s" "cleanup_leases t = cleanup_leases s" "journal t = journal s"
    by (simp_all add: t_def release_reference_def Let_def)
  have old: "\<exists>q\<in>set (references s). rr_storage_object_id r = rr_storage_object_id q" if "r \<in> set (references t)" for r
    using that by (auto simp: t_def release_reference_def Let_def set_upd_where)
  have ref: "referenced t j \<Longrightarrow> referenced s j" for j
    by (auto simp: t_def release_reference_def Let_def referenced_def active_reference_def list_ex_iff set_upd_where split: if_splits)
  have "resources_ok t"
  proof (rule resources_okI)
    show "rr_storage_object_id r \<in> so_id ` set (storage_objects t)" if "r \<in> set (references t)" for r
      using old [OF that] resources_okD(7) [OF assms] by (auto simp: tables)
    show "\<not> referenced t (so_id q)" if "q \<in> set (storage_objects t)" "so_state q \<in> {SO_QUARANTINED, SO_REMOVED}" for q
      using that ref resources_okD(6) [OF assms] unfolding tables by blast
  qed (simp_all add: tables resources_okD [OF assms])
  then show ?thesis by (simp add: t_def)
qed

lemma acquire_cleanup_lease_ok:
  assumes "resources_ok s"
  shows "resources_ok (fst (acquire_cleanup_lease s q token ttl now))"
proof -
  define s1 where "s1 = s\<lparr>cleanup_leases := del_where (\<lambda>l. cl_storage_object_id l = cr_storage_object_id q
    \<and> cl_expires_at l \<le> now) (cleanup_leases s)\<rparr>"
  have ok1: "resources_ok s1" unfolding s1_def by (rule resources_ok_delete_leases [OF assms])
  let ?go = "positive_ttl ttl \<and> exists_where (cleanup_eligible s1 q) (storage_objects s1) \<and>
    \<not> exists_where (\<lambda>l. cl_storage_object_id l = cr_storage_object_id q) (cleanup_leases s1)"
  show ?thesis
  proof (cases ?go)
    case False
    then have "fst (acquire_cleanup_lease s q token ttl now) \<in> {s, s1}"
      unfolding acquire_cleanup_lease_def Let_def s1_def [symmetric] by auto
    with assms ok1 show ?thesis by auto
  next
    case True
    then obtain l where t: "fst (acquire_cleanup_lease s q token ttl now) =
        set_object_state (\<lambda>p. so_id p = cr_storage_object_id q) SO_QUARANTINED (s1\<lparr>cleanup_leases := cleanup_leases s1 @ [l]\<rparr>)"
      and l: "cl_storage_object_id l = cr_storage_object_id q" "cl_previous_state l = cr_state q"
      unfolding acquire_cleanup_lease_def Let_def s1_def [symmetric] by simp
    from True obtain p where p: "p \<in> set (storage_objects s1)" "cleanup_eligible s1 q p" by (auto simp: list_ex_iff)
    then have e: "so_id p = cr_storage_object_id q" "cr_state q \<noteq> SO_REMOVED" "\<not> referenced s1 (cr_storage_object_id q)"
      by (auto simp: cleanup_eligible_def)
    let ?t = "set_object_state (\<lambda>p. so_id p = cr_storage_object_id q) SO_QUARANTINED (s1\<lparr>cleanup_leases := cleanup_leases s1 @ [l]\<rparr>)"
    have ref: "referenced ?t k = referenced s1 k" for k by (simp add: referenced_def)
    have "resources_ok ?t"
    proof (rule resources_okI)
      show "distinct (map cl_storage_object_id (cleanup_leases ?t))"
        using resources_okD(2) [OF ok1] True l(1) by (auto simp: list_ex_iff)
      show "\<exists>q\<in>set (storage_objects ?t). so_id q = cl_storage_object_id m \<and> so_state q = SO_QUARANTINED" if "m \<in> set (cleanup_leases ?t)" for m
      proof -
        from that l(1) e(1) p(1) resources_okD(5) [OF ok1, of m] obtain x where
          "x \<in> set (storage_objects s1)" "so_id x = cl_storage_object_id m" "so_state x = SO_QUARANTINED \<or> so_id x = cr_storage_object_id q" by auto
        then show ?thesis
          by (intro bexI [of _ "if so_id x = cr_storage_object_id q then x\<lparr>so_state := SO_QUARANTINED\<rparr> else x"]) (auto simp: set_upd_where)
      qed
      show "\<not> referenced ?t (so_id x)" if "x \<in> set (storage_objects ?t)" "so_state x \<in> {SO_QUARANTINED, SO_REMOVED}" for x
        using that resources_okD(6) [OF ok1] e(3) unfolding ref by (auto simp: set_upd_where split: if_splits)
    qed (use resources_okD [OF ok1] e(2) l(2) in auto)
    with t show ?thesis by simp
  qed
qed

lemma renew_cleanup_lease_ok:
  assumes "resources_ok s"
  shows "resources_ok (fst (renew_cleanup_lease s q token ttl now))"
proof (cases "positive_ttl ttl")
  case False
  with assms show ?thesis by (simp add: renew_cleanup_lease_def)
next
  case True
  let ?t = "fst (renew_cleanup_lease s q token ttl now)"
  have leases: "cleanup_leases ?t = upd_where (renewable_lease s q token now) (\<lambda>l. l\<lparr>cl_expires_at := ttl_end now ttl\<rparr>) (cleanup_leases s)"
    "storage_objects ?t = storage_objects s" "references ?t = references s" "journal ?t = journal s"
    using True by (simp_all add: renew_cleanup_lease_def Let_def)
  have "distinct (map cl_storage_object_id (cleanup_leases ?t))"
    unfolding leases by (rule distinct_upd_where) (simp_all add: resources_okD [OF assms])
  then show ?thesis using resources_okD [OF assms] referenced_cong [OF leases(3)]
    by (intro resources_okI) (auto simp: leases set_upd_where split: if_splits)
qed

text \<open>Without the lease of its object the quarantine can be lifted.\<close>

lemma release_cleanup_lease_ok:
  assumes "resources_ok s"
  shows "resources_ok (fst (release_cleanup_lease s k token preserve))"
proof (cases "find (cleanup_lease_is k token) (cleanup_leases s)")
  case None
  then show ?thesis using resources_ok_delete_leases [OF assms] by (simp add: release_cleanup_lease_def Let_def)
next
  case (Some l)
  show ?thesis
  proof (cases preserve)
    case True
    with Some show ?thesis using resources_ok_delete_leases [OF assms] by (simp add: release_cleanup_lease_def Let_def)
  next
    case False
    let ?t = "fst (release_cleanup_lease s k token preserve)"
    from Some have l: "l \<in> set (cleanup_leases s)" "cl_storage_object_id l = k" "cl_token l = token"
      by (auto simp: find_Some_iff cleanup_lease_is_def)
    have t: "storage_objects ?t = upd_where (\<lambda>q. so_id q = k \<and> so_state q = SO_QUARANTINED) (\<lambda>q. q\<lparr>so_state := cl_previous_state l\<rparr>) (storage_objects s)"
      "cleanup_leases ?t = del_where (cleanup_lease_is k token) (cleanup_leases s)" "references ?t = references s" "journal ?t = journal s"
      using Some False by (simp_all add: release_cleanup_lease_def Let_def)
    have gone: "cl_storage_object_id m \<noteq> k" if "m \<in> set (cleanup_leases ?t)" for m
      using that cleanup_lease_unique [OF assms _ l(1), of m] l unfolding t by (auto simp: cleanup_lease_is_def)
    have d: "distinct (map cl_storage_object_id (cleanup_leases ?t))"
      unfolding t by (rule distinct_del_where) (rule resources_okD [OF assms])
    show ?thesis
    proof (rule resources_okI)
      show "\<exists>q\<in>set (storage_objects ?t). so_id q = cl_storage_object_id m \<and> so_state q = SO_QUARANTINED" if m: "m \<in> set (cleanup_leases ?t)" for m
      proof -
        from m obtain q where "q \<in> set (storage_objects s)" "so_id q = cl_storage_object_id m" "so_state q = SO_QUARANTINED"
          using resources_okD(5) [OF assms] unfolding t by auto
        with gone [OF m] show ?thesis unfolding t set_upd_where by (intro bexI [of _ q]) auto
      qed
      show "\<not> referenced ?t (so_id q)" if "q \<in> set (storage_objects ?t)" "so_state q \<in> {SO_QUARANTINED, SO_REMOVED}" for q
        using that resources_okD(6) [OF assms] unfolding referenced_cong [OF t(3)] t set_upd_where by (auto split: if_splits)
    qed (use resources_okD [OF assms] d t in auto)
  qed
qed

text \<open>Removing an object together with its lease.\<close>

lemma remove_object_ok:
  assumes "resources_ok s" and "\<And>q. q \<in> set (storage_objects s) \<Longrightarrow> P q \<Longrightarrow> so_id q = k \<and> \<not> referenced s k \<and>
      (\<exists>l\<in>set (cleanup_leases s). cl_token l = token \<and> cl_storage_object_id l = k)"
    and "storage_objects t = upd_where P (\<lambda>q. q\<lparr>so_state := SO_REMOVED\<rparr>) (storage_objects s)"
    and "cleanup_leases t = del_where (cleanup_lease_is k token) (cleanup_leases s)"
    and "references t = references s" and "distinct (map (\<lambda>r. gj_operation_id (gr_input r)) (journal t))"
  shows "resources_ok t"
proof (rule resources_okI)
  show "\<exists>q\<in>set (storage_objects t). so_id q = cl_storage_object_id m \<and> so_state q = SO_QUARANTINED" if m: "m \<in> set (cleanup_leases t)" for m
  proof -
    from m have m': "m \<in> set (cleanup_leases s)" "\<not> cleanup_lease_is k token m" by (simp_all add: assms(4))
    then obtain q where q: "q \<in> set (storage_objects s)" "so_id q = cl_storage_object_id m" "so_state q = SO_QUARANTINED"
      using resources_okD(5) [OF assms(1)] by blast
    have "\<not> P q"
    proof
      assume "P q"
      from assms(2) [OF q(1) this] obtain l where "l \<in> set (cleanup_leases s)" "cl_token l = token" "cl_storage_object_id l = k" "so_id q = k" by blast
      moreover from this q(2) have "m = l" by (intro cleanup_lease_unique [OF assms(1) m'(1)]) simp_all
      ultimately show False using m'(2) by (simp add: cleanup_lease_is_def)
    qed
    with q show ?thesis unfolding assms(3) set_upd_where by (intro bexI [of _ q]) auto
  qed
  show "\<not> referenced t (so_id q)" if "q \<in> set (storage_objects t)" "so_state q \<in> {SO_QUARANTINED, SO_REMOVED}" for q
    using that resources_okD(6) [OF assms(1)] assms(2) unfolding referenced_cong [OF assms(5)] assms(3) set_upd_where by (auto split: if_splits)
qed (use resources_okD [OF assms(1)] assms(3-6) in \<open>auto simp: distinct_del_where\<close>)

lemma removable_lease:
  "removable_object s token now q \<Longrightarrow> so_id q = k \<Longrightarrow> \<not> referenced s k \<and>
   (\<exists>l\<in>set (cleanup_leases s). cl_token l = token \<and> cl_storage_object_id l = k \<and> now < cl_expires_at l)"
  by (auto simp: removable_object_def lease_of_object_def list_ex_iff)


lemma finalize_cleanup_cases:
  assumes "resources_ok s"
  obtains "finalize_cleanup s k token now = (s, False)"
  | P where "fst (finalize_cleanup s k token now) = s\<lparr>storage_objects := upd_where P (\<lambda>q. q\<lparr>so_state := SO_REMOVED\<rparr>) (storage_objects s),
        cleanup_leases := del_where (cleanup_lease_is k token) (cleanup_leases s)\<rparr>"
      "\<And>q. P q \<Longrightarrow> so_id q = k \<and> removable_object s token now q"
proof (cases "count_where (\<lambda>q. so_id q = k \<and> removable_object s token now q) (storage_objects s) = 1")
  case False
  then show ?thesis by (intro that(1)) (simp add: finalize_cleanup_def Let_def)
next
  case True
  let ?P = "\<lambda>q. so_id q = k \<and> removable_object s token now q"
  let ?u = "set_object_state ?P SO_REMOVED s"
  have "\<exists>q\<in>set (storage_objects s). ?P q"
    using True count_where_0 [of ?P "storage_objects s"] by auto
  then obtain q where q: "q \<in> set (storage_objects s)" "?P q" by blast
  have none: "upd_where (\<lambda>p. so_id p = k \<and> so_state p = SO_QUARANTINED) f (storage_objects ?u) = storage_objects ?u" for f
  proof (rule upd_where_absent, intro ballI notI)
    fix p assume p: "p \<in> set (storage_objects ?u)" "so_id p = k \<and> so_state p = SO_QUARANTINED"
    from p(1) obtain p0 where p0: "p0 \<in> set (storage_objects s)" "p = (if ?P p0 then p0\<lparr>so_state := SO_REMOVED\<rparr> else p0)"
      unfolding set_object_state_simps set_upd_where by blast
    have same: "so_id p0 = k" using p(2) p0(2) by (cases "?P p0") simp_all
    from object_unique [OF assms p0(1) q(1)] same q(2) have "p0 = q" by simp
    with p0(2) q(2) have "so_state p = SO_REMOVED" by simp
    with p(2) show False by simp
  qed
  have "fst (release_cleanup_lease ?u k token False) =
      s\<lparr>storage_objects := storage_objects ?u, cleanup_leases := del_where (cleanup_lease_is k token) (cleanup_leases s)\<rparr>"
    unfolding release_cleanup_lease_def Let_def
    by (simp add: set_object_state_def none [simplified] split: option.split)
  then show ?thesis using True by (intro that(2) [of ?P]) (auto simp: finalize_cleanup_def Let_def)
qed

lemma finalize_cleanup_ok:
  assumes "resources_ok s"
  shows "resources_ok (fst (finalize_cleanup s k token now))"
proof (cases rule: finalize_cleanup_cases [OF assms, of k token now])
  case 1
  with assms show ?thesis by simp
next
  case (2 P)
  have "so_id q = k \<and> \<not> referenced s k \<and> (\<exists>l\<in>set (cleanup_leases s). cl_token l = token \<and> cl_storage_object_id l = k)" if "P q" for q
    using 2(2) [OF that] removable_lease [of s token now q k] by blast
  then show ?thesis unfolding 2(1)
    by (rule remove_object_ok [OF assms, of P k token]) (simp_all add: resources_okD(3) [OF assms])
qed

lemma finalize_journal_cases:
  assumes "finalize_journal s i token now = Inr (t, b)" and "resources_ok s"
  obtains "t = s"
  | row P where "row_by (\<lambda>r. gj_operation_id (gr_input r)) (gj_operation_id i) (journal s) = Some row"
      "gj_phase (gr_input row) \<in> {JP_Prepared, JP_Deleted, JP_Finalized}"
      "t = s\<lparr>storage_objects := upd_where P (\<lambda>q. q\<lparr>so_state := SO_REMOVED\<rparr>) (storage_objects s),
          journal := upd_where (\<lambda>r. gj_operation_id (gr_input r) = gj_operation_id i \<and> gj_phase (gr_input r) = gj_phase (gr_input row))
            (\<lambda>r. r\<lparr>gr_input := (gr_input r)\<lparr>gj_phase := JP_Finalized\<rparr>, gr_updated_at := now\<rparr>) (journal s),
          cleanup_leases := del_where (cleanup_lease_is (gj_storage_object_id i) token) (cleanup_leases s)\<rparr>"
      "\<And>q. P q \<Longrightarrow> so_id q = gj_storage_object_id i \<and> \<not> referenced s (gj_storage_object_id i) \<and>
        (\<exists>l\<in>set (cleanup_leases s). cl_token l = token \<and> cl_storage_object_id l = gj_storage_object_id i)"
proof -
  from assms(1) have "t = s \<or> (\<exists>row. row_by (\<lambda>r. gj_operation_id (gr_input r)) (gj_operation_id i) (journal s) = Some row)"
    by (auto simp: finalize_journal_def split: if_splits option.splits)
  then show thesis
  proof
    assume "t = s"
    then show thesis by (rule that(1))
  next
    assume "\<exists>row. row_by (\<lambda>r. gj_operation_id (gr_input r)) (gj_operation_id i) (journal s) = Some row"
    then obtain row where row: "row_by (\<lambda>r. gj_operation_id (gr_input r)) (gj_operation_id i) (journal s) = Some row" by blast
    define P where "P = (\<lambda>q. journal_object s i q \<and> so_state q = SO_QUARANTINED \<and> exists_where (\<lambda>l. cl_token l = token \<and>
      lease_of_object l q \<and> cl_sandbox_generation l = gj_sandbox_generation i \<and> now < cl_expires_at l) (cleanup_leases s))"
    have P: "so_id q = gj_storage_object_id i \<and> \<not> referenced s (gj_storage_object_id i) \<and>
        (\<exists>l\<in>set (cleanup_leases s). cl_token l = token \<and> cl_storage_object_id l = gj_storage_object_id i)" if "P q" for q
      using that by (auto simp: P_def journal_object_def lease_of_object_def list_ex_iff)
    have none: "upd_where (\<lambda>_. False) f qs = qs" for f :: "storage_object \<Rightarrow> storage_object" and qs by (rule upd_where_absent) simp
    define Q where "Q = (if count_where P (storage_objects s) = 1 then P else (\<lambda>_. False))"
    have Q: "(if count_where P (storage_objects s) = 1 then set_object_state P SO_REMOVED s else s) =
        s\<lparr>storage_objects := upd_where Q (\<lambda>q. q\<lparr>so_state := SO_REMOVED\<rparr>) (storage_objects s)\<rparr>"
      by (simp add: Q_def set_object_state_def none)
    from assms(1) have "t = s \<or> gj_phase (gr_input row) \<in> {JP_Prepared, JP_Deleted, JP_Finalized} \<and>
        t = s\<lparr>storage_objects := upd_where Q (\<lambda>q. q\<lparr>so_state := SO_REMOVED\<rparr>) (storage_objects s),
          journal := upd_where (\<lambda>r. gj_operation_id (gr_input r) = gj_operation_id i \<and> gj_phase (gr_input r) = gj_phase (gr_input row))
            (\<lambda>r. r\<lparr>gr_input := (gr_input r)\<lparr>gj_phase := JP_Finalized\<rparr>, gr_updated_at := now\<rparr>) (journal s),
          cleanup_leases := del_where (cleanup_lease_is (gj_storage_object_id i) token) (cleanup_leases s)\<rparr>"
      unfolding finalize_journal_def row option.case Let_def P_def [symmetric] Q by (auto split: if_splits)
    moreover have "so_id q = gj_storage_object_id i \<and> \<not> referenced s (gj_storage_object_id i) \<and>
        (\<exists>l\<in>set (cleanup_leases s). cl_token l = token \<and> cl_storage_object_id l = gj_storage_object_id i)" if "Q q" for q
      using P [of q] that by (simp add: Q_def split: if_splits)
    ultimately show thesis using that(1) that(2) [OF row, of Q] by blast
  qed
qed

abbreviation journal_key :: "gc_journal_row \<Rightarrow> ident" where
  "journal_key r \<equiv> gj_operation_id (gr_input r)"

text \<open>What a journal row is about; recording and finalizing leave it alone.\<close>

definition journal_subject :: "gc_journal_row \<Rightarrow> ident \<times> ident \<times> string \<times> int \<times> int \<times> int \<times> ident \<times> string \<times> storage_kind" where
  "journal_subject r = (let i = gr_input r in (gj_operation_id i, gj_storage_object_id i, gj_original_path i, gj_dev i, gj_ino i,
     gj_uid i, gj_sandbox_id i, gj_sandbox_generation i, gj_kind i))"

lemma journal_keys_upd:
  "(\<And>r. journal_key (f r) = journal_key r) \<Longrightarrow> map journal_key (upd_where P f rows) = map journal_key rows"
  by (rule map_upd_where) simp

lemma finalize_journal_ok:
  assumes "finalize_journal s i token now = Inr (t, b)" and "resources_ok s"
  shows "resources_ok t"
proof (cases rule: finalize_journal_cases [OF assms])
  case 1
  with assms show ?thesis by simp
next
  case (2 row P)
  show ?thesis unfolding 2(3)
  proof (rule remove_object_ok [OF assms(2), of P "gj_storage_object_id i" token])
    show "so_id q = gj_storage_object_id i \<and> \<not> referenced s (gj_storage_object_id i) \<and>
        (\<exists>l\<in>set (cleanup_leases s). cl_token l = token \<and> cl_storage_object_id l = gj_storage_object_id i)" if "P q" for q
      using 2(4) [OF that] .
  qed (simp_all add: journal_keys_upd resources_okD(3) [OF assms(2)])
qed

lemma record_journal_ok:
  assumes "record_journal s i now = Inr t" and "resources_ok s"
  shows "resources_ok t"
proof -
  from assms(1) have tables: "storage_objects t = storage_objects s" "cleanup_leases t = cleanup_leases s" "references t = references s"
    by (auto simp: record_journal_def split: option.splits if_splits)
  from assms(1) have "map journal_key (journal t) = map journal_key (journal s) \<or>
      map journal_key (journal t) = map journal_key (journal s) @ [gj_operation_id i] \<and> gj_operation_id i \<notin> journal_key ` set (journal s)"
    by (auto simp: record_journal_def row_by_None journal_keys_upd split: option.splits if_splits)
  with resources_okD(3) [OF assms(2)] have "distinct (map journal_key (journal t))" by auto
  then show ?thesis by (intro resources_ok_frame [OF assms(2)]) (simp_all add: tables resources_okD(2) [OF assms(2)])
qed

section \<open>Steps\<close>

inductive resource_step :: "db \<Rightarrow> db \<Rightarrow> bool" where
  Sandbox: "upsert_sandbox s i = Inr t \<Longrightarrow> resource_step s t"
| Register: "register_object s i = Inr t \<Longrightarrow> resource_step s t"
| Reference: "add_reference s r = Inr t \<Longrightarrow> resource_step s t"
| Unreference: "release_reference s k now = (t, b) \<Longrightarrow> resource_step s t"
| Acquire: "acquire_cleanup_lease s q token ttl now = (t, b) \<Longrightarrow> resource_step s t"
| Renew: "renew_cleanup_lease s q token ttl now = (t, b) \<Longrightarrow> resource_step s t"
| Release: "release_cleanup_lease s k token preserve = (t, b) \<Longrightarrow> resource_step s t"
| Finalize: "finalize_cleanup s k token now = (t, b) \<Longrightarrow> resource_step s t"
| Finalize_Journal: "finalize_journal s j token now = Inr (t, b) \<Longrightarrow> resource_step s t"
| Record: "record_journal s j now = Inr t \<Longrightarrow> resource_step s t"
| Other: "storage_objects t = storage_objects s \<Longrightarrow> cleanup_leases t = cleanup_leases s \<Longrightarrow> references t = references s \<Longrightarrow>
    journal t = journal s \<Longrightarrow> resource_step s t"

lemma resource_step_ok: "resource_step s t \<Longrightarrow> resources_ok s \<Longrightarrow> resources_ok t"
proof (induction rule: resource_step.induct)
  case (Sandbox s i t)
  then have "storage_objects t = storage_objects s" "cleanup_leases t = cleanup_leases s" "references t = references s" "journal t = journal s"
    by (auto simp: upsert_sandbox_def split: option.splits if_splits)
  with Sandbox show ?case by (intro resources_ok_frame [OF Sandbox.prems]) (simp_all add: resources_okD)
next
  case (Other t s)
  then show ?case by (intro resources_ok_frame [OF Other.prems]) (simp_all add: resources_okD)
next
  case (Unreference s k now t b)
  then show ?case using release_reference_ok [of s k now] by simp
next
  case (Acquire s q token ttl now t b)
  then show ?case using acquire_cleanup_lease_ok [of s q token ttl now] by simp
next
  case (Renew s q token ttl now t b)
  then show ?case using renew_cleanup_lease_ok [of s q token ttl now] by simp
next
  case (Release s k token preserve t b)
  then show ?case using release_cleanup_lease_ok [of s k token preserve] by simp
next
  case (Finalize s k token now t b)
  then show ?case using finalize_cleanup_ok [of s k token now] by simp
qed (blast intro: register_object_ok add_reference_ok finalize_journal_ok record_journal_ok)+


section \<open>History\<close>

definition removed_stay :: "db \<Rightarrow> db \<Rightarrow> bool" where
  "removed_stay s t \<longleftrightarrow> (\<forall>q\<in>set (storage_objects s). so_state q = SO_REMOVED \<longrightarrow>
     (\<exists>p\<in>set (storage_objects t). so_id p = so_id q \<and> so_state p = SO_REMOVED))"

definition journal_forward :: "db \<Rightarrow> db \<Rightarrow> bool" where
  "journal_forward s t \<longleftrightarrow> (\<forall>r\<in>set (journal s). \<exists>r'\<in>set (journal t). journal_subject r' = journal_subject r \<and>
     phase_order (gj_phase (gr_input r)) \<le> phase_order (gj_phase (gr_input r')))"

lemma removed_stay_refl: "storage_objects t = storage_objects s \<Longrightarrow> removed_stay s t"
  by (auto simp: removed_stay_def)

lemma journal_forward_refl: "journal t = journal s \<Longrightarrow> journal_forward s t"
  by (auto simp: journal_forward_def)

lemma removed_stay_trans: "removed_stay s t \<Longrightarrow> removed_stay t u \<Longrightarrow> removed_stay s u"
  unfolding removed_stay_def by fastforce

lemma journal_forward_trans:
  assumes "journal_forward s t" and "journal_forward t u"
  shows "journal_forward s u"
  unfolding journal_forward_def
proof
  fix r assume "r \<in> set (journal s)"
  with assms(1) obtain r1 where 1: "r1 \<in> set (journal t)" "journal_subject r1 = journal_subject r"
    "phase_order (gj_phase (gr_input r)) \<le> phase_order (gj_phase (gr_input r1))" unfolding journal_forward_def by blast
  with assms(2) obtain r2 where 2: "r2 \<in> set (journal u)" "journal_subject r2 = journal_subject r1"
    "phase_order (gj_phase (gr_input r1)) \<le> phase_order (gj_phase (gr_input r2))" unfolding journal_forward_def by blast
  from 1 2 show "\<exists>r'\<in>set (journal u). journal_subject r' = journal_subject r \<and>
      phase_order (gj_phase (gr_input r)) \<le> phase_order (gj_phase (gr_input r'))" by (intro bexI [of _ r2]) simp_all
qed

lemma removed_stay_upd:
  assumes "storage_objects t = upd_where P (\<lambda>q. q\<lparr>so_state := st\<rparr>) (storage_objects s)"
    and "\<And>q. q \<in> set (storage_objects s) \<Longrightarrow> P q \<Longrightarrow> so_state q = SO_REMOVED \<Longrightarrow> st = SO_REMOVED"
  shows "removed_stay s t"
  unfolding removed_stay_def
proof (intro ballI impI)
  fix q assume q: "q \<in> set (storage_objects s)" "so_state q = SO_REMOVED"
  let ?p = "if P q then q\<lparr>so_state := st\<rparr> else q"
  have "?p \<in> set (storage_objects t)" unfolding assms(1) set_upd_where using q(1) by (intro image_eqI [of _ _ q]) simp_all
  moreover have "so_id ?p = so_id q \<and> so_state ?p = SO_REMOVED" using q assms(2) by simp
  ultimately show "\<exists>p\<in>set (storage_objects t). so_id p = so_id q \<and> so_state p = SO_REMOVED" by blast
qed

lemma journal_forward_upd:
  assumes "journal t = upd_where P f (journal s)"
    and "\<And>r. r \<in> set (journal s) \<Longrightarrow> P r \<Longrightarrow> journal_subject (f r) = journal_subject r \<and>
      phase_order (gj_phase (gr_input r)) \<le> phase_order (gj_phase (gr_input (f r)))"
  shows "journal_forward s t"
  unfolding journal_forward_def
proof
  fix r assume r: "r \<in> set (journal s)"
  let ?r = "if P r then f r else r"
  have "?r \<in> set (journal t)" unfolding assms(1) set_upd_where using r by (intro image_eqI [of _ _ r]) simp_all
  moreover have "journal_subject ?r = journal_subject r \<and> phase_order (gj_phase (gr_input r)) \<le> phase_order (gj_phase (gr_input ?r))"
    using r assms(2) by simp
  ultimately show "\<exists>r'\<in>set (journal t). journal_subject r' = journal_subject r \<and>
      phase_order (gj_phase (gr_input r)) \<le> phase_order (gj_phase (gr_input r'))" by blast
qed

lemma phase_order_final: "phase_order p \<le> phase_order JP_Finalized"
  by (cases p) simp_all

lemma finalize_journal_history:
  assumes "finalize_journal s i token now = Inr (t, b)" and "resources_ok s"
  shows "removed_stay s t \<and> journal_forward s t"
proof (cases rule: finalize_journal_cases [OF assms])
  case 1
  then show ?thesis by (simp add: removed_stay_refl journal_forward_refl)
next
  case (2 row P)
  have "removed_stay s t" by (rule removed_stay_upd [of _ P SO_REMOVED]) (simp_all add: 2(3))
  moreover have "journal_forward s t" unfolding 2(3)
    by (rule journal_forward_upd, simp) (simp add: journal_subject_def Let_def phase_order_final [simplified])
  ultimately show ?thesis by blast
qed

lemma record_journal_history:
  assumes "record_journal s i now = Inr t"  and "resources_ok s"
  shows "removed_stay s t \<and> journal_forward s t"
proof -
  from assms(1) have o: "storage_objects t = storage_objects s" by (auto simp: record_journal_def split: option.splits if_splits)
  have "journal_forward s t"
  proof (cases "row_by journal_key (gj_operation_id i) (journal s)")
    case None
    with assms(1) show ?thesis by (auto simp: record_journal_def journal_forward_def split: if_splits)
  next
    case (Some row)
    note row = row_by_SomeD [OF this]
    have one: "r = row" if "r \<in> set (journal s)" "journal_key r = gj_operation_id i" for r
      using that row resources_okD(3) [OF assms(2)] by (metis distinct_map inj_on_def)
    from assms(1) Some have t: "journal t = upd_where (\<lambda>r. journal_key r = gj_operation_id i)
        (\<lambda>r. r\<lparr>gr_input := (gr_input r)\<lparr>gj_phase := gj_phase i, gj_quarantine_path := gj_quarantine_path i,
                gj_container := gj_container i\<rparr>, gr_updated_at := now\<rparr>) (journal s)"
      and le: "phase_order (gj_phase (gr_input row)) \<le> phase_order (gj_phase i)"
      by (auto simp: record_journal_def split: if_splits)
    show ?thesis by (rule journal_forward_upd [OF t]) (use one le in \<open>auto simp: journal_subject_def Let_def\<close>)
  qed
  with o show ?thesis by (simp add: removed_stay_refl)
qed

lemma acquire_cleanup_history:
  assumes "acquire_cleanup_lease s q token ttl now = (t, b)" and "resources_ok s"
  shows "removed_stay s t \<and> journal_forward s t"
proof -
  from assms(1) have j: "journal t = journal s" and objects: "storage_objects t = storage_objects s \<or>
      storage_objects t = upd_where (\<lambda>p. so_id p = cr_storage_object_id q) (\<lambda>q. q\<lparr>so_state := SO_QUARANTINED\<rparr>) (storage_objects s) \<and>
      (\<exists>p\<in>set (storage_objects s). so_id p = cr_storage_object_id q \<and> so_state p \<noteq> SO_REMOVED)"
    by (auto simp: acquire_cleanup_lease_def Let_def list_ex_iff cleanup_eligible_def split: if_splits)
  from objects have "removed_stay s t"
  proof
    assume "storage_objects t = storage_objects s"
    then show ?thesis by (rule removed_stay_refl)
  next
    assume u: "storage_objects t = upd_where (\<lambda>p. so_id p = cr_storage_object_id q) (\<lambda>q. q\<lparr>so_state := SO_QUARANTINED\<rparr>) (storage_objects s) \<and>
      (\<exists>p\<in>set (storage_objects s). so_id p = cr_storage_object_id q \<and> so_state p \<noteq> SO_REMOVED)"
    show ?thesis by (rule removed_stay_upd [OF conjunct1 [OF u]]) (use u object_unique [OF assms(2)] in metis)
  qed
  with j show ?thesis by (simp add: journal_forward_refl)
qed

lemma resource_step_history: "resource_step s t \<Longrightarrow> resources_ok s \<Longrightarrow> removed_stay s t \<and> journal_forward s t"
proof (induction rule: resource_step.induct)
  case (Release s k token preserve t b)
  then have j: "journal t = journal s" by (auto simp: release_cleanup_lease_def Let_def split: option.splits if_splits)
  from Release have "storage_objects t = storage_objects s \<or> (\<exists>st. storage_objects t =
      upd_where (\<lambda>q. so_id q = k \<and> so_state q = SO_QUARANTINED) (\<lambda>q. q\<lparr>so_state := st\<rparr>) (storage_objects s))"
    by (auto simp: release_cleanup_lease_def Let_def split: option.splits if_splits)
  then have "removed_stay s t" by (auto intro: removed_stay_refl removed_stay_upd)
  with j show ?case by (simp add: journal_forward_refl)
next
  case (Finalize s k token now t b)
  from Finalize.prems show ?case
  proof (cases rule: finalize_cleanup_cases [of s k token now])
    case 1
    with Finalize show ?thesis by (simp add: removed_stay_refl journal_forward_refl)
  next
    case (2 P)
    with Finalize.hyps have t: "storage_objects t = upd_where P (\<lambda>q. q\<lparr>so_state := SO_REMOVED\<rparr>) (storage_objects s)" "journal t = journal s"
      by simp_all
    from removed_stay_upd [OF t(1)] t(2) show ?thesis by (simp add: journal_forward_refl)
  qed
next
  case (Register s i t)
  then show ?case by (auto simp: register_object_def removed_stay_def intro!: journal_forward_refl split: if_splits)
next
  case (Sandbox s i t)
  then show ?case by (auto simp: upsert_sandbox_def intro!: removed_stay_refl journal_forward_refl split: option.splits if_splits)
next
  case (Reference s r t)
  then show ?case by (auto simp: add_reference_def intro!: removed_stay_refl journal_forward_refl split: if_splits)
next
  case (Unreference s k now t b)
  then show ?case by (auto simp: release_reference_def Let_def intro!: removed_stay_refl journal_forward_refl)
next
  case (Renew s q token ttl now t b)
  then show ?case by (auto simp: renew_cleanup_lease_def Let_def intro!: removed_stay_refl journal_forward_refl split: if_splits)
next
  case (Other t s)
  then show ?case by (simp add: removed_stay_refl journal_forward_refl)
qed (simp_all add: acquire_cleanup_history finalize_journal_history record_journal_history)

interpretation resources: history_machine resource_step resources_ok "\<lambda>s t. removed_stay s t \<and> journal_forward s t"
proof unfold_locales
  show "resource_step s t \<Longrightarrow> resources_ok s \<Longrightarrow> resources_ok t" for s t by (rule resource_step_ok)
  show "resource_step s t \<Longrightarrow> resources_ok s \<Longrightarrow> removed_stay s t \<and> journal_forward s t" for s t by (rule resource_step_history)
  show "removed_stay s s \<and> journal_forward s s" for s by (simp add: removed_stay_refl journal_forward_refl)
  show "removed_stay s u \<and> journal_forward s u" if "removed_stay s t \<and> journal_forward s t" "removed_stay t u \<and> journal_forward t u" for s t u
    using that removed_stay_trans journal_forward_trans by blast
qed

lemma resources_ok_empty: "resources_ok empty_db"
  by (simp add: resources_ok_def empty_db_def)

section \<open>Properties\<close>

text \<open>
  C28. Nothing in use is ever cleaned up: in every state reached from an empty store by registering,
  referencing, leasing, releasing, finalizing and journalling in any order, a storage object that is
  quarantined, removed or under a cleanup lease (expired or not) has no unreleased reference.
\<close>

theorem resources_in_use_are_safe:
  assumes "resource_step\<^sup>*\<^sup>* empty_db s" and "q \<in> set (storage_objects s)"
    and "so_state q \<in> {SO_QUARANTINED, SO_REMOVED} \<or> so_id q \<in> cl_storage_object_id ` set (cleanup_leases s)"
    and "r \<in> set (references s)" and "rr_storage_object_id r = so_id q"
  shows "rr_released_at r \<noteq> None"
proof
  assume "rr_released_at r = None"
  with assms(4,5) have used: "referenced s (so_id q)" by (auto simp: referenced_def active_reference_def list_ex_iff)
  have ok: "resources_ok s" by (rule resources.run_inv [OF assms(1) resources_ok_empty])
  from assms(3) have "so_state q \<in> {SO_QUARANTINED, SO_REMOVED}"
  proof
    assume "so_id q \<in> cl_storage_object_id ` set (cleanup_leases s)"
    with resources_okD(5) [OF ok] object_unique [OF ok _ assms(2)] show ?thesis by fastforce
  qed
  with resources_okD(6) [OF ok assms(2)] used show False by blast
qed

text \<open>
  Cleanup only moves forward: whatever operations run, an object that was removed stays removed, and
  the journal row of an operation stays about the same object (its path, device, inode, owner, sandbox and
  kind never change) while its phase only advances.
\<close>

theorem cleanup_moves_forward:
  assumes "resource_step\<^sup>*\<^sup>* s t" and "resources_ok s"
  shows "(\<forall>q\<in>set (storage_objects s). \<forall>p\<in>set (storage_objects t). so_state q = SO_REMOVED \<and> so_id p = so_id q \<longrightarrow> so_state p = SO_REMOVED) \<and>
    (\<forall>r\<in>set (journal s). \<exists>r'\<in>set (journal t). journal_subject r' = journal_subject r \<and>
      phase_order (gj_phase (gr_input r)) \<le> phase_order (gj_phase (gr_input r')))"
proof -
  have ok: "resources_ok t" and hist: "removed_stay s t" "journal_forward s t"
    using resources.run_inv [OF assms] resources.run_history [OF assms] by blast+
  have "so_state p = SO_REMOVED" if pq: "q \<in> set (storage_objects s)" "p \<in> set (storage_objects t)" "so_state q = SO_REMOVED" "so_id p = so_id q" for p q
  proof -
    from hist(1) pq(1,3) obtain p' where "p' \<in> set (storage_objects t)" "so_id p' = so_id q" "so_state p' = SO_REMOVED"
      unfolding removed_stay_def by blast
    with object_unique [OF ok pq(2), of p'] pq(4) show ?thesis by simp
  qed
  with hist(2) show ?thesis unfolding journal_forward_def by blast
qed

definition demo_sandbox :: sandbox_row where
  "demo_sandbox = \<lparr> sb_id = ''b'', sb_root = ''/s'', sb_generation = ''g'', sb_dev = 1, sb_ino = 2, sb_uid = 3 \<rparr>"

definition demo_object :: "storage_state \<Rightarrow> storage_object" where
  "demo_object st = \<lparr> so_id = ''o'', so_sandbox_id = ''b'', so_path = ''/s/x'', so_dev = 1, so_ino = 4, so_uid = 3, so_kind = Kind_File,
     so_state = st, so_retention = Ephemeral, so_owned = True, so_created_at = 1, so_last_used_at = 1, so_last_verified_at = 1,
     so_logical_bytes = 10, so_allocated_bytes = 10 \<rparr>"

definition demo_reference :: "time option \<Rightarrow> resource_reference" where
  "demo_reference released = \<lparr> rr_id = ''f'', rr_storage_object_id = ''o'', rr_owner_type = ''worktree'', rr_owner_id = ''w1'',
     rr_resource_name = ''deps'', rr_created_at = 2, rr_released_at = released \<rparr>"

definition demo_cleanup :: cleanup_request where
  "demo_cleanup = \<lparr> cr_storage_object_id = ''o'', cr_sandbox_id = ''b'', cr_sandbox_generation = ''g'', cr_path = ''/s/x'', cr_dev = 1,
     cr_ino = 4, cr_uid = 3, cr_kind = Kind_File, cr_state = SO_STALE, cr_retention = Ephemeral \<rparr>"

definition demo_journal :: "journal_phase \<Rightarrow> gc_journal_input" where
  "demo_journal ph = \<lparr> gj_operation_id = ''j'', gj_storage_object_id = ''o'', gj_phase = ph, gj_original_path = ''/s/x'',
     gj_quarantine_path = None, gj_dev = 1, gj_ino = 4, gj_uid = 3, gj_sandbox_id = ''b'', gj_sandbox_generation = ''g'',
     gj_kind = Kind_File, gj_container = None \<rparr>"

lemmas demo_resource_defs = demo_sandbox_def demo_object_def demo_reference_def demo_cleanup_def demo_journal_def empty_db_def

definition demo_store :: "storage_state \<Rightarrow> resource_reference list \<Rightarrow> db" where
  "demo_store st refs = empty_db\<lparr>sandboxes := [demo_sandbox], storage_objects := [demo_object st], references := refs\<rparr>"

text \<open>Registered, referenced, released and taken by a collector.\<close>

lemma demo_collect:
  "\<exists>t. resource_step\<^sup>*\<^sup>* empty_db t \<and> storage_objects t = [demo_object SO_QUARANTINED] \<and> references t = [demo_reference (Some 5)]"
proof -
  let ?b = "empty_db\<lparr>sandboxes := [demo_sandbox]\<rparr>"
  have "upsert_sandbox empty_db demo_sandbox = Inr ?b" by (simp add: upsert_sandbox_def demo_resource_defs)
  then have 1: "resource_step empty_db ?b" by (rule resource_step.Sandbox)
  have "register_object ?b (demo_object SO_STALE) = Inr (demo_store SO_STALE [])"
    by (simp add: register_object_def demo_store_def demo_resource_defs)
  then have 2: "resource_step ?b (demo_store SO_STALE [])" by (rule resource_step.Register)
  have "add_reference (demo_store SO_STALE []) (demo_reference None) = Inr (demo_store SO_STALE [demo_reference None])"
    by (simp add: add_reference_def demo_store_def demo_resource_defs)
  then have 3: "resource_step (demo_store SO_STALE []) (demo_store SO_STALE [demo_reference None])" by (rule resource_step.Reference)
  have "release_reference (demo_store SO_STALE [demo_reference None]) ''f'' 5 = (demo_store SO_STALE [demo_reference (Some 5)], True)"
    by (simp add: release_reference_def Let_def demo_store_def demo_resource_defs)
  then have 4: "resource_step (demo_store SO_STALE [demo_reference None]) (demo_store SO_STALE [demo_reference (Some 5)])"
    by (rule resource_step.Unreference)
  obtain t b where t: "acquire_cleanup_lease (demo_store SO_STALE [demo_reference (Some 5)]) demo_cleanup ''k'' (Some 100) 6 = (t, b)"
    by (cases "acquire_cleanup_lease (demo_store SO_STALE [demo_reference (Some 5)]) demo_cleanup ''k'' (Some 100) 6")
  then have 5: "resource_step (demo_store SO_STALE [demo_reference (Some 5)]) t" by (rule resource_step.Acquire)
  from t have "storage_objects t = [demo_object SO_QUARANTINED] \<and> references t = [demo_reference (Some 5)]"
    by (auto simp: acquire_cleanup_lease_def Let_def positive_ttl_def cleanup_eligible_def sandbox_generation_is_def referenced_def
        active_reference_def demo_store_def demo_resource_defs)
  with rtranclp_steps3 [of resource_step, OF 1 2 3] 4 5 show ?thesis
    by (meson rtranclp.rtrancl_into_rtrancl)
qed

lemma resources_in_use_are_safe_witness: "rr_released_at (demo_reference (Some 5)) \<noteq> None"
proof -
  from demo_collect obtain t where t: "resource_step\<^sup>*\<^sup>* empty_db t" "storage_objects t = [demo_object SO_QUARANTINED]"
    "references t = [demo_reference (Some 5)]" by blast
  from t(2,3) show ?thesis
    by (intro resources_in_use_are_safe [OF t(1), of "demo_object SO_QUARANTINED"]) (simp_all add: demo_resource_defs)
qed

lemma cleanup_moves_forward_witness:
  "\<exists>t r'. record_journal (demo_store SO_REMOVED []\<lparr>journal := [\<lparr> gr_input = demo_journal JP_Prepared, gr_updated_at = 1 \<rparr>]\<rparr>)
     (demo_journal JP_Deleted) 2 = Inr t \<and> r' \<in> set (journal t) \<and>
     phase_order (gj_phase (gr_input \<lparr> gr_input = demo_journal JP_Prepared, gr_updated_at = 1 \<rparr>)) \<le> phase_order (gj_phase (gr_input r'))"
proof -
  let ?s = "demo_store SO_REMOVED []\<lparr>journal := [\<lparr> gr_input = demo_journal JP_Prepared, gr_updated_at = 1 \<rparr>]\<rparr>"
  have ok: "resources_ok ?s" by (simp add: resources_ok_def referenced_def demo_store_def demo_resource_defs)
  obtain t where t: "record_journal ?s (demo_journal JP_Deleted) 2 = Inr t"
    by (simp add: record_journal_def demo_store_def demo_resource_defs)
  from cleanup_moves_forward [OF r_into_rtranclp [of resource_step, OF resource_step.Record [OF t]] ok]
  have "\<exists>r'\<in>set (journal t). phase_order (gj_phase (gr_input \<lparr> gr_input = demo_journal JP_Prepared, gr_updated_at = 1 \<rparr>))
      \<le> phase_order (gj_phase (gr_input r'))" by auto
  with t show ?thesis by blast
qed

end
