(* ===== verification/Feature_Store.thy ===== *)
theory Feature_Store
  imports Registry
begin

text \<open>
  The journal of multi-repository feature creations (\<open>packages/core/src/state/sqlite-store.ts\<close>): a feature is a
  workspace and a branch, a creation lists the repositories it will create a worktree in, and each
  member records how far it got. The theory ends with the journal's invariant and the properties that
  rest on it.
\<close>

section \<open>Definitions\<close>

definition feature_row_by :: "db \<Rightarrow> ident \<Rightarrow> string \<Rightarrow> feature_row option" where
  "feature_row_by s workspace_id branch = find (\<lambda>f. ft_workspace_id f = workspace_id \<and> ft_branch f = branch) (features s)"

definition upsert_feature :: "db \<Rightarrow> ident \<Rightarrow> string \<Rightarrow> ident \<Rightarrow> time \<Rightarrow> store_error + (db \<times> feature_row)" where
  "upsert_feature s workspace_id branch new_id now =
    (case feature_row_by s workspace_id branch of
       Some f \<Rightarrow> Inr (s, f)
     | None \<Rightarrow>
         if exists_where (\<lambda>f. ft_id f = new_id) (features s) \<or> \<not> exists_where (\<lambda>w. ws_id w = workspace_id) (workspaces s)
         then Inl (Plain_Error Constraint_Violation)
         else let f = \<lparr> ft_id = new_id, ft_workspace_id = workspace_id, ft_branch = branch, ft_created_at = now \<rparr>
           in Inr (s\<lparr>features := features s @ [f]\<rparr>, f))"

definition members_of :: "db \<Rightarrow> ident \<Rightarrow> member_row list" where
  "members_of s creation_id = filter (\<lambda>m. fm_creation_id m = creation_id) (members s)"

definition all_members :: "(member_row \<Rightarrow> bool) \<Rightarrow> db \<Rightarrow> ident \<Rightarrow> bool" where
  "all_members P s creation_id \<longleftrightarrow> list_all P (members_of s creation_id)"

definition upd_creations :: "(creation_row \<Rightarrow> bool) \<Rightarrow> (creation_row \<Rightarrow> creation_row) \<Rightarrow> db \<Rightarrow> db" where
  "upd_creations P f s = s\<lparr>creations := upd_where P f (creations s)\<rparr>"

definition supersedable :: "db \<Rightarrow> ident \<Rightarrow> ident option \<Rightarrow> creation_row \<Rightarrow> bool" where
  "supersedable s creation_id feature_id c \<longleftrightarrow> fc_id c = creation_id \<and>
     (case feature_id of None \<Rightarrow> True | Some f \<Rightarrow> fc_feature_id c = f) \<and> fc_state c = FC_IN_PROGRESS \<and>
     all_members (\<lambda>m. fm_phase m = FP_PLANNED) s (fc_id c)"

definition supersede :: "db \<Rightarrow> ident \<Rightarrow> ident option \<Rightarrow> time \<Rightarrow> store_error + db" where
  "supersede s creation_id feature_id now =
    (let P = supersedable s creation_id feature_id in
     if count_where P (creations s) \<noteq> 1 then Inl (Plain_Error Creation_Not_Supersedable)
     else Inr (upd_creations P (\<lambda>c. c\<lparr>fc_state := FC_SUPERSEDED, fc_updated_at := now\<rparr>) s))"

definition feature_creation :: "db \<Rightarrow> ident \<Rightarrow> store_error + creation_record option" where
  "feature_creation s creation_id =
    (case row_by fc_id creation_id (creations s) of
       None \<Rightarrow> Inr None
     | Some c \<Rightarrow> (case row_by ft_id (fc_feature_id c) (features s) of
         None \<Rightarrow> Inl Type_Error
       | Some f \<Rightarrow> Inr (Some \<lparr> cf_creation = c, cf_feature = f,
           cf_members = sort_key fm_position (members_of s creation_id) \<rparr>)))"

text \<open>One \<open>INSERT\<close> per member, under the primary key and the unique position.\<close>

fun insert_members :: "ident \<Rightarrow> time \<Rightarrow> member_input list \<Rightarrow> member_row list \<Rightarrow> store_error + member_row list" where
  "insert_members creation_id now [] rows = Inr rows"
| "insert_members creation_id now (m # ms) rows =
    (if exists_where (\<lambda>r. fm_creation_id r = creation_id \<and>
          (fm_repository_id r = fi_repository_id m \<or> fm_position r = fi_position m)) rows
     then Inl (Plain_Error Constraint_Violation)
     else insert_members creation_id now ms (rows @ [\<lparr> fm_creation_id = creation_id, fm_repository_id = fi_repository_id m,
       fm_repository_main_root = fi_repository_main_root m, fm_position = fi_position m, fm_worktree_path = fi_worktree_path m,
       fm_branch_existed = fi_branch_existed m, fm_start_oid = fi_start_oid m, fm_phase = FP_PLANNED,
       fm_last_error_code = None, fm_updated_at = now \<rparr>]))"

text \<open>\<open>feature_creations_one_open\<close>, the partial unique index, refuses a second open creation of a feature.\<close>

definition begin_creation :: "db \<Rightarrow> begin_creation_input \<Rightarrow> ident \<Rightarrow> ident \<Rightarrow> time \<Rightarrow> store_error + (db \<times> creation_record)" where
  "begin_creation s i feature_id new_id now =
    (if bc_members i = [] then Inl Type_Error
     else case upsert_feature s (bc_workspace_id i) (bc_branch i) feature_id now of Inl e \<Rightarrow> Inl e
     | Inr (s1, f) \<Rightarrow>
       (case (case bc_supersede i of None \<Rightarrow> Inr s1 | Some old \<Rightarrow> supersede s1 old (Some (ft_id f)) now) of Inl e \<Rightarrow> Inl e
        | Inr s2 \<Rightarrow>
          if exists_where (\<lambda>c. fc_id c = new_id \<or> fc_feature_id c = ft_id f \<and> fc_state c = FC_IN_PROGRESS) (creations s2)
          then Inl (Plain_Error Constraint_Violation)
          else let s3 = s2\<lparr>creations := creations s2 @ [\<lparr> fc_id = new_id, fc_feature_id = ft_id f, fc_state = FC_IN_PROGRESS,
                 fc_from_ref = bc_from_ref i, fc_created_at = now, fc_updated_at = now, fc_completed_at = None \<rparr>]\<rparr>
            in (case insert_members new_id now (bc_members i) (members s3) of Inl e \<Rightarrow> Inl e
                | Inr rows \<Rightarrow> (case feature_creation (s3\<lparr>members := rows\<rparr>) new_id of Inl e \<Rightarrow> Inl e
                    | Inr None \<Rightarrow> Inl Type_Error
                    | Inr (Some c) \<Rightarrow> Inr (s3\<lparr>members := rows\<rparr>, c)))))"

definition open_creation :: "db \<Rightarrow> ident \<Rightarrow> bool" where
  "open_creation s creation_id \<longleftrightarrow> exists_where (\<lambda>c. fc_id c = creation_id \<and> fc_state c = FC_IN_PROGRESS) (creations s)"

definition advance_member ::
  "db \<Rightarrow> ident \<Rightarrow> ident \<Rightarrow> creation_phase \<Rightarrow> string option \<Rightarrow> time \<Rightarrow> store_error + db" where
  "advance_member s creation_id repository_id phase last_error_code now =
    (let P = (\<lambda>m. fm_creation_id m = creation_id \<and> fm_repository_id m = repository_id \<and> open_creation s (fm_creation_id m)) in
     if count_where P (members s) \<noteq> 1 then Inl (Plain_Error Creation_Not_Open)
     else Inr (upd_creations (\<lambda>c. fc_id c = creation_id) (\<lambda>c. c\<lparr>fc_updated_at := now\<rparr>)
       (s\<lparr>members := upd_where P (\<lambda>m. m\<lparr>fm_phase := phase, fm_last_error_code := last_error_code, fm_updated_at := now\<rparr>) (members s)\<rparr>)))"

definition complete_creation :: "db \<Rightarrow> ident \<Rightarrow> time \<Rightarrow> store_error + db" where
  "complete_creation s creation_id now =
    (let P = (\<lambda>c. fc_id c = creation_id \<and> fc_state c = FC_IN_PROGRESS \<and>
           all_members (\<lambda>m. fm_phase m = FP_REGISTERED) s (fc_id c)) in
     if count_where P (creations s) \<noteq> 1 then Inl (Plain_Error Creation_Not_Completable)
     else Inr (upd_creations P (\<lambda>c. c\<lparr>fc_state := FC_COMPLETED, fc_updated_at := now, fc_completed_at := Some now\<rparr>) s))"

definition supersede_creation :: "db \<Rightarrow> ident \<Rightarrow> time \<Rightarrow> store_error + db" where
  "supersede_creation s creation_id now = supersede s creation_id None now"

definition read_open_creation :: "db \<Rightarrow> ident \<Rightarrow> string \<Rightarrow> store_error + creation_record option" where
  "read_open_creation s workspace_id branch =
    (case find (\<lambda>c. fc_state c = FC_IN_PROGRESS \<and> exists_where (\<lambda>f. ft_id f = fc_feature_id c \<and>
           ft_workspace_id f = workspace_id \<and> ft_branch f = branch) (features s)) (creations s) of
       None \<Rightarrow> Inr None | Some c \<Rightarrow> feature_creation s (fc_id c))"

section \<open>The journal invariant\<close>

text \<open>
  At most one open creation per feature; a completed creation has every member registered, and only it
  has a completion time; a superseded one has written nothing; no creation is empty; and within a
  creation a repository and a position occur once.
\<close>

definition creation_ok :: "member_row list \<Rightarrow> creation_row \<Rightarrow> bool" where
  "creation_ok ms c \<longleftrightarrow> (\<exists>m\<in>set ms. fm_creation_id m = fc_id c) \<and>
    (fc_state c = FC_COMPLETED \<longrightarrow> (\<forall>m\<in>set ms. fm_creation_id m = fc_id c \<longrightarrow> fm_phase m = FP_REGISTERED)) \<and>
    (fc_state c = FC_SUPERSEDED \<longrightarrow> (\<forall>m\<in>set ms. fm_creation_id m = fc_id c \<longrightarrow> fm_phase m = FP_PLANNED)) \<and>
    (fc_completed_at c \<noteq> None \<longleftrightarrow> fc_state c = FC_COMPLETED)"

definition journal_ok :: "db \<Rightarrow> bool" where
  "journal_ok s \<longleftrightarrow> distinct (map fc_id (creations s)) \<and>
    distinct (map fc_feature_id (filter (\<lambda>c. fc_state c = FC_IN_PROGRESS) (creations s))) \<and>
    distinct (map (\<lambda>m. (fm_creation_id m, fm_repository_id m)) (members s)) \<and>
    distinct (map (\<lambda>m. (fm_creation_id m, fm_position m)) (members s)) \<and>
    (\<forall>c\<in>set (creations s). creation_ok (members s) c) \<and>
    (\<forall>m\<in>set (members s). fm_creation_id m \<in> fc_id ` set (creations s))"

lemma journal_okD:
  assumes "journal_ok s"
  shows "distinct (map fc_id (creations s))"
    and "distinct (map fc_feature_id (filter (\<lambda>c. fc_state c = FC_IN_PROGRESS) (creations s)))"
    and "distinct (map (\<lambda>m. (fm_creation_id m, fm_repository_id m)) (members s))"
    and "distinct (map (\<lambda>m. (fm_creation_id m, fm_position m)) (members s))"
    and "c \<in> set (creations s) \<Longrightarrow> creation_ok (members s) c"
    and "m \<in> set (members s) \<Longrightarrow> fm_creation_id m \<in> fc_id ` set (creations s)"
  using assms unfolding journal_ok_def by blast+

lemma creation_unique: "journal_ok s \<Longrightarrow> c \<in> set (creations s) \<Longrightarrow> d \<in> set (creations s) \<Longrightarrow> fc_id c = fc_id d \<Longrightarrow> c = d"
  using journal_okD(1) by (metis distinct_map inj_on_def)

lemma journal_ok_frame: "creations t = creations s \<Longrightarrow> members t = members s \<Longrightarrow> journal_ok t = journal_ok s"
  by (simp add: journal_ok_def)

text \<open>Closing or dating creations: an update that opens none.\<close>

lemma journal_ok_upd_creations:
  assumes "journal_ok s" and "\<And>c. fc_id (f c) = fc_id c \<and> fc_feature_id (f c) = fc_feature_id c"
    and "\<And>c. P c \<Longrightarrow> fc_state (f c) = FC_IN_PROGRESS \<Longrightarrow> fc_state c = FC_IN_PROGRESS"
    and "\<And>c. c \<in> set (creations s) \<Longrightarrow> P c \<Longrightarrow> creation_ok (members s) (f c)"
  shows "journal_ok (upd_creations P f s)"
proof -
  have ids: "map fc_id (upd_where P f (creations s)) = map fc_id (creations s)" using assms(2) by (intro map_upd_where) simp
  have "distinct (map fc_feature_id (filter (\<lambda>c. fc_state c = FC_IN_PROGRESS) (upd_where P f (creations s))))"
    by (rule list_all2_distinct_filter [OF list_all2_upd_where, where R = "\<lambda>c d. d = c \<or> P c \<and> d = f c"])
      (use assms(2,3) journal_okD(2) [OF assms(1)] in auto)
  moreover have "fc_id ` set (upd_where P f (creations s)) = fc_id ` set (creations s)"
    unfolding set_map [symmetric] ids ..
  moreover have "creation_ok (members s) c" if "c \<in> set (upd_where P f (creations s))" for c
    using that assms(4) journal_okD(5) [OF assms(1)] by (auto simp: set_upd_where split: if_splits)
  ultimately show ?thesis
    using journal_okD [OF assms(1)] ids by (simp add: journal_ok_def upd_creations_def)
qed

end
