(* ===== verification/Feature_Properties.thy ===== *)
theory Feature_Properties
  imports Feature_Store
begin

text \<open>
  Every operation on the feature creation journal keeps its invariant, and a closed creation is history.
\<close>

section \<open>The operations keep the invariant\<close>

lemma upsert_feature_frame:
  "upsert_feature s w b k now = Inr (t, f) \<Longrightarrow> creations t = creations s \<and> members t = members s"
  by (auto simp: upsert_feature_def Let_def split: option.splits if_splits)

lemma all_members_iff: "all_members P s k \<longleftrightarrow> (\<forall>m\<in>set (members s). fm_creation_id m = k \<longrightarrow> P m)"
  by (auto simp: all_members_def members_of_def list_all_iff)

lemma supersede_result:
  "supersede s k f now = Inr t \<Longrightarrow>
   t = upd_creations (supersedable s k f) (\<lambda>c. c\<lparr>fc_state := FC_SUPERSEDED, fc_updated_at := now\<rparr>) s"
  by (simp add: supersede_def Let_def split: if_splits)

lemma supersede_ok:
  assumes "supersede s k f now = Inr t" and "journal_ok s"
  shows "journal_ok t"
  unfolding supersede_result [OF assms(1)]
proof (rule journal_ok_upd_creations [OF assms(2)])
  show "creation_ok (members s) (c\<lparr>fc_state := FC_SUPERSEDED, fc_updated_at := now\<rparr>)"
    if "c \<in> set (creations s)" "supersedable s k f c" for c
    using that journal_okD(5) [OF assms(2) that(1)] by (auto simp: creation_ok_def supersedable_def all_members_iff)
qed simp_all

lemma complete_creation_result:
  "complete_creation s k now = Inr t \<Longrightarrow>
   t = upd_creations (\<lambda>c. fc_id c = k \<and> fc_state c = FC_IN_PROGRESS \<and> all_members (\<lambda>m. fm_phase m = FP_REGISTERED) s (fc_id c))
     (\<lambda>c. c\<lparr>fc_state := FC_COMPLETED, fc_updated_at := now, fc_completed_at := Some now\<rparr>) s"
  by (simp add: complete_creation_def Let_def split: if_splits)

lemma complete_creation_ok:
  assumes "complete_creation s k now = Inr t" and "journal_ok s"
  shows "journal_ok t"
  unfolding complete_creation_result [OF assms(1)]
proof (rule journal_ok_upd_creations [OF assms(2)])
  show "creation_ok (members s) (c\<lparr>fc_state := FC_COMPLETED, fc_updated_at := now, fc_completed_at := Some now\<rparr>)"
    if "c \<in> set (creations s)" "fc_id c = k \<and> fc_state c = FC_IN_PROGRESS \<and> all_members (\<lambda>m. fm_phase m = FP_REGISTERED) s (fc_id c)" for c
    using that journal_okD(5) [OF assms(2) that(1)] by (auto simp: creation_ok_def all_members_iff)
qed simp_all

lemma insert_members_result:
  assumes "insert_members k now ms rows = Inr rows'"
  shows "\<exists>new. rows' = rows @ new \<and> length new = length ms \<and> (\<forall>m\<in>set new. fm_creation_id m = k \<and> fm_phase m = FP_PLANNED) \<and>
    (distinct (map (\<lambda>m. (fm_creation_id m, fm_repository_id m)) rows) \<longrightarrow> distinct (map (\<lambda>m. (fm_creation_id m, fm_repository_id m)) rows')) \<and>
    (distinct (map (\<lambda>m. (fm_creation_id m, fm_position m)) rows) \<longrightarrow> distinct (map (\<lambda>m. (fm_creation_id m, fm_position m)) rows'))"
  using assms
proof (induction ms arbitrary: rows)
  case Nil
  then show ?case by simp
next
  case (Cons m ms)
  let ?r = "\<lparr> fm_creation_id = k, fm_repository_id = fi_repository_id m,
       fm_repository_main_root = fi_repository_main_root m, fm_position = fi_position m, fm_worktree_path = fi_worktree_path m,
       fm_branch_existed = fi_branch_existed m, fm_start_oid = fi_start_oid m, fm_phase = FP_PLANNED,
       fm_last_error_code = None, fm_updated_at = now \<rparr>"
  from Cons.prems have next': "insert_members k now ms (rows @ [?r]) = Inr rows'"
    and new: "\<forall>r\<in>set rows. fm_creation_id r = k \<longrightarrow> fm_repository_id r \<noteq> fi_repository_id m \<and> fm_position r \<noteq> fi_position m"
    by (auto simp: list_ex_iff split: if_splits)
  from new have d: "distinct (map (\<lambda>m. (fm_creation_id m, fm_repository_id m)) rows) \<longrightarrow>
      distinct (map (\<lambda>m. (fm_creation_id m, fm_repository_id m)) (rows @ [?r]))"
    "distinct (map (\<lambda>m. (fm_creation_id m, fm_position m)) rows) \<longrightarrow> distinct (map (\<lambda>m. (fm_creation_id m, fm_position m)) (rows @ [?r]))"
    by auto
  from Cons.IH [OF next'] obtain new where n: "rows' = (rows @ [?r]) @ new" "length new = length ms"
    "\<forall>m\<in>set new. fm_creation_id m = k \<and> fm_phase m = FP_PLANNED"
    "distinct (map (\<lambda>m. (fm_creation_id m, fm_repository_id m)) (rows @ [?r])) \<longrightarrow> distinct (map (\<lambda>m. (fm_creation_id m, fm_repository_id m)) rows')"
    "distinct (map (\<lambda>m. (fm_creation_id m, fm_position m)) (rows @ [?r])) \<longrightarrow> distinct (map (\<lambda>m. (fm_creation_id m, fm_position m)) rows')" by blast
  have "rows' = rows @ ?r # new" "length (?r # new) = length (m # ms)" "\<forall>m\<in>set (?r # new). fm_creation_id m = k \<and> fm_phase m = FP_PLANNED"
    using n(1-3) by simp_all
  moreover from d n(4,5) have
    "distinct (map (\<lambda>m. (fm_creation_id m, fm_repository_id m)) rows) \<longrightarrow> distinct (map (\<lambda>m. (fm_creation_id m, fm_repository_id m)) rows')"
    "distinct (map (\<lambda>m. (fm_creation_id m, fm_position m)) rows) \<longrightarrow> distinct (map (\<lambda>m. (fm_creation_id m, fm_position m)) rows')"
    by blast+
  ultimately show ?case by blast
qed

text \<open>A creation opens beside the old rows: a new id, no other open creation of the feature, planned members.\<close>

lemma journal_ok_open:
  assumes "journal_ok s" and "fc_id c \<notin> fc_id ` set (creations s)" and "fc_state c = FC_IN_PROGRESS" and "fc_completed_at c = None"
    and "\<not> (\<exists>d\<in>set (creations s). fc_feature_id d = fc_feature_id c \<and> fc_state d = FC_IN_PROGRESS)"
    and "insert_members (fc_id c) now ms (members s) = Inr rows" and "ms \<noteq> []"
    and "creations t = creations s @ [c]" and "members t = rows"
  shows "journal_ok t"
proof -
  from insert_members_result [OF assms(6)] obtain new where new: "rows = members s @ new" "length new = length ms"
    "\<forall>m\<in>set new. fm_creation_id m = fc_id c \<and> fm_phase m = FP_PLANNED"
    "distinct (map (\<lambda>m. (fm_creation_id m, fm_repository_id m)) rows)" "distinct (map (\<lambda>m. (fm_creation_id m, fm_position m)) rows)"
    using journal_okD(3,4) [OF assms(1)] by blast
  have "creation_ok rows d" if "d \<in> set (creations s)" for d
  proof -
    from that assms(2) have "fc_id d \<noteq> fc_id c" by (metis imageI)
    with journal_okD(5) [OF assms(1) that] new(1,3) show ?thesis by (auto simp: creation_ok_def)
  qed
  moreover have "creation_ok rows c"
  proof -
    from new(2) assms(7) obtain m where "m \<in> set new" by (cases new) auto
    with new(1,3) assms(3,4) show ?thesis by (auto simp: creation_ok_def)
  qed
  ultimately show ?thesis
    using journal_okD [OF assms(1)] assms(2,3,5,8,9) new(1,3-5) by (auto simp: journal_ok_def)
qed

lemma begin_creation_cases:
  assumes "begin_creation s i k new_id now = Inr (t, r)"
  obtains s2 c where "bc_members i \<noteq> []" "s2 = s \<or> True" "journal_ok s \<Longrightarrow> journal_ok s2" "fc_id c = new_id" "fc_state c = FC_IN_PROGRESS" "fc_completed_at c = None"
    "fc_id c \<notin> fc_id ` set (creations s2)" "members s2 = members s"
    "\<not> (\<exists>d\<in>set (creations s2). fc_feature_id d = fc_feature_id c \<and> fc_state d = FC_IN_PROGRESS)"
    "insert_members new_id now (bc_members i) (members s2) = Inr (members t)" "creations t = creations s2 @ [c]"
    "\<And>d. d \<in> set (creations s) \<Longrightarrow> fc_state d \<noteq> FC_IN_PROGRESS \<Longrightarrow> d \<in> set (creations s2)"
    "fc_id ` set (creations s2) = fc_id ` set (creations s)"
proof -
  from assms obtain s1 f s2 rows where 1: "bc_members i \<noteq> []" "upsert_feature s (bc_workspace_id i) (bc_branch i) k now = Inr (s1, f)"
    "(case bc_supersede i of None \<Rightarrow> Inr s1 | Some old \<Rightarrow> supersede s1 old (Some (ft_id f)) now) = Inr s2"
    "\<not> exists_where (\<lambda>c. fc_id c = new_id \<or> fc_feature_id c = ft_id f \<and> fc_state c = FC_IN_PROGRESS) (creations s2)"
    "insert_members new_id now (bc_members i) (members s2) = Inr rows"
    "members t = rows" "creations t = creations s2 @ [\<lparr> fc_id = new_id, fc_feature_id = ft_id f, fc_state = FC_IN_PROGRESS,
                 fc_from_ref = bc_from_ref i, fc_created_at = now, fc_updated_at = now, fc_completed_at = None \<rparr>]"
    by (auto simp: begin_creation_def Let_def split: if_splits sum.splits prod.splits option.splits)
  note fr = upsert_feature_frame [OF 1(2)]
  have s2: "s2 = s1 \<or> (\<exists>old. s2 = upd_creations (supersedable s1 old (Some (ft_id f))) (\<lambda>c. c\<lparr>fc_state := FC_SUPERSEDED, fc_updated_at := now\<rparr>) s1)"
    using 1(3) supersede_result [of s1 _ "Some (ft_id f)" now s2] by (cases "bc_supersede i") auto
  have ok: "journal_ok s2" if "journal_ok s"
  proof -
    from that fr have "journal_ok s1" using journal_ok_frame [of s1 s] by simp
    then show ?thesis using 1(3) supersede_ok [of s1 _ "Some (ft_id f)" now s2] by (cases "bc_supersede i") auto
  qed
  have m: "members s2 = members s" using s2 fr by (auto simp: upd_creations_def)
  have kept: "d \<in> set (creations s2)" if "d \<in> set (creations s)" "fc_state d \<noteq> FC_IN_PROGRESS" for d
    using s2
  proof
    assume "s2 = s1"
    with that(1) fr show ?thesis by simp
  next
    assume "\<exists>old. s2 = upd_creations (supersedable s1 old (Some (ft_id f))) (\<lambda>c. c\<lparr>fc_state := FC_SUPERSEDED, fc_updated_at := now\<rparr>) s1"
    then obtain old where u: "creations s2 = upd_where (supersedable s1 old (Some (ft_id f))) (\<lambda>c. c\<lparr>fc_state := FC_SUPERSEDED, fc_updated_at := now\<rparr>) (creations s)"
      using fr by (auto simp: upd_creations_def)
    have "\<not> supersedable s1 old (Some (ft_id f)) d" using that(2) by (simp add: supersedable_def)
    with that(1) show ?thesis unfolding u set_upd_where by (intro image_eqI [of _ _ d]) simp_all
  qed
  have "map fc_id (creations s2) = map fc_id (creations s)"
    using s2 fr by (auto simp: upd_creations_def map_upd_where)
  then have ids: "fc_id ` set (creations s2) = fc_id ` set (creations s)" unfolding set_map [symmetric] by simp
  show thesis
    by (rule that [OF 1(1) _ ok _ _ _ _ m _ _ 1(7) kept ids]) (use 1(4-6) in \<open>auto simp: list_ex_iff\<close>)
qed

lemma begin_creation_ok:
  assumes "begin_creation s i k new_id now = Inr (t, r)" and "journal_ok s"
  shows "journal_ok t"
proof (cases rule: begin_creation_cases [OF assms(1)])
  case (1 s2 c)
  show ?thesis by (rule journal_ok_open [OF 1(3) [OF assms(2)] 1(7,5,6,9) _ 1(1) 1(11) refl]) (use 1(4,10) in simp)
qed


lemma advance_member_result:
  assumes "advance_member s k r ph e now = Inr t"
  shows "open_creation s k" and "creations t = upd_where (\<lambda>c. fc_id c = k) (\<lambda>c. c\<lparr>fc_updated_at := now\<rparr>) (creations s)"
    and "\<exists>P. members t = upd_where P (\<lambda>m. m\<lparr>fm_phase := ph, fm_last_error_code := e, fm_updated_at := now\<rparr>) (members s) \<and>
      (\<forall>m. P m \<longrightarrow> fm_creation_id m = k)"
proof -
  let ?P = "\<lambda>m. fm_creation_id m = k \<and> fm_repository_id m = r \<and> open_creation s (fm_creation_id m)"
  from assms have one: "count_where ?P (members s) = 1" by (simp add: advance_member_def Let_def split: if_splits)
  then have "\<exists>m\<in>set (members s). ?P m" using count_where_0 [of ?P "members s"] by auto
  then show "open_creation s k" by auto
  from assms one show "creations t = upd_where (\<lambda>c. fc_id c = k) (\<lambda>c. c\<lparr>fc_updated_at := now\<rparr>) (creations s)"
    by (auto simp: advance_member_def Let_def upd_creations_def)
  from assms one have "members t = upd_where ?P (\<lambda>m. m\<lparr>fm_phase := ph, fm_last_error_code := e, fm_updated_at := now\<rparr>) (members s)"
    by (auto simp: advance_member_def Let_def upd_creations_def)
  then show "\<exists>P. members t = upd_where P (\<lambda>m. m\<lparr>fm_phase := ph, fm_last_error_code := e, fm_updated_at := now\<rparr>) (members s) \<and>
      (\<forall>m. P m \<longrightarrow> fm_creation_id m = k)" by (intro exI [of _ ?P]) simp
qed

lemma advance_member_ok:
  assumes "advance_member s k r ph e now = Inr t" and "journal_ok s"
  shows "journal_ok t"
proof -
  note res = advance_member_result [OF assms(1)]
  obtain P where ms: "members t = upd_where P (\<lambda>m. m\<lparr>fm_phase := ph, fm_last_error_code := e, fm_updated_at := now\<rparr>) (members s)"
    and P: "\<And>m. P m \<Longrightarrow> fm_creation_id m = k" using res(3) by blast
  let ?s1 = "upd_creations (\<lambda>c. fc_id c = k) (\<lambda>c. c\<lparr>fc_updated_at := now\<rparr>) s"
  have ok1: "journal_ok ?s1"
  proof (rule journal_ok_upd_creations [OF assms(2)])
    show "creation_ok (members s) (c\<lparr>fc_updated_at := now\<rparr>)" if "c \<in> set (creations s)" for c
      using journal_okD(5) [OF assms(2) that] by (simp add: creation_ok_def)
  qed simp_all
  have cs: "creations t = creations ?s1" using res(2) by (simp add: upd_creations_def)
  have open_k: "fc_state c = FC_IN_PROGRESS" if "c \<in> set (creations t)" "fc_id c = k" for c
  proof -
    from res(1) obtain d where "d \<in> set (creations s)" "fc_id d = k" "fc_state d = FC_IN_PROGRESS" by (auto simp: open_creation_def list_ex_iff)
    note d = this
    from that(1) obtain c0 where c0: "c0 \<in> set (creations s)" "c = (if fc_id c0 = k then c0\<lparr>fc_updated_at := now\<rparr> else c0)"
      unfolding res(2) set_upd_where by blast
    then have "fc_id c0 = k" "fc_state c = fc_state c0" using that(2) by (simp_all split: if_splits)
    with creation_unique [OF assms(2) c0(1) d(1)] d(2,3) show ?thesis by simp
  qed
  have "creation_ok (members t) c" if c: "c \<in> set (creations t)" for c
  proof -
    have old: "creation_ok (members s) c"
      using journal_okD(5) [OF ok1, of c] c cs by (simp add: upd_creations_def)
    have "map fm_creation_id (members t) = map fm_creation_id (members s)" unfolding ms by (simp add: map_upd_where)
    then have "fm_creation_id ` set (members t) = fm_creation_id ` set (members s)" unfolding set_map [symmetric] by simp
    moreover have "fc_id c \<in> fm_creation_id ` set (members s)" using old by (force simp: creation_ok_def)
    ultimately have "fc_id c \<in> fm_creation_id ` set (members t)" by blast
    then have some: "\<exists>m\<in>set (members t). fm_creation_id m = fc_id c" by (rule imageE) metis
    show ?thesis
    proof (cases "fc_id c = k")
      case True
      with old open_k [OF c] some show ?thesis by (simp add: creation_ok_def)
    next
      case False
      have "m \<in> set (members s)" if "m \<in> set (members t)" "fm_creation_id m = fc_id c" for m
      proof -
        from that(1) obtain m0 where "m0 \<in> set (members s)"
          "m = (if P m0 then m0\<lparr>fm_phase := ph, fm_last_error_code := e, fm_updated_at := now\<rparr> else m0)" unfolding ms set_upd_where by blast
        with P [of m0] that(2) False show ?thesis by (cases "P m0") simp_all
      qed
      with old some show ?thesis by (simp add: creation_ok_def)
    qed
  qed
  moreover have "map (\<lambda>m. (fm_creation_id m, fm_repository_id m)) (members t) = map (\<lambda>m. (fm_creation_id m, fm_repository_id m)) (members s)"
    "map (\<lambda>m. (fm_creation_id m, fm_position m)) (members t) = map (\<lambda>m. (fm_creation_id m, fm_position m)) (members s)"
    unfolding ms by (simp_all add: map_upd_where)
  moreover have "fm_creation_id m \<in> fc_id ` set (creations t)" if "m \<in> set (members t)" for m
  proof -
    from that obtain m0 where "m0 \<in> set (members s)" "fm_creation_id m = fm_creation_id m0" unfolding ms set_upd_where by auto
    with journal_okD(6) [OF ok1, of m0] cs show ?thesis by (simp add: upd_creations_def)
  qed
  ultimately show ?thesis
    using journal_okD(1,2) [OF ok1] journal_okD(3,4) [OF assms(2)] cs unfolding journal_ok_def by simp
qed

lemma filter_del_other: "k \<notin> K \<Longrightarrow> filter (\<lambda>m. f m = k) (del_where (\<lambda>m. f m \<in> K) ms) = filter (\<lambda>m. f m = k) ms"
  by (induction ms) auto

lemma surviving_creation:
  assumes "journal_ok s" and "c \<in> set (creations s)" and "c \<in> set (creations (cascade_features s w))"
  shows "members_of (cascade_features s w) (fc_id c) = members_of s (fc_id c)"
proof -
  let ?fs = "ft_id ` set (filter (\<lambda>f. ft_workspace_id f = w) (features s))"
  let ?cs = "fc_id ` set (filter (\<lambda>c. fc_feature_id c \<in> ?fs) (creations s))"
  have "fc_id c \<notin> ?cs"
  proof
    assume "fc_id c \<in> ?cs"
    then obtain d where d: "fc_id c = fc_id d" "d \<in> set (filter (\<lambda>c. fc_feature_id c \<in> ?fs) (creations s))" by (rule imageE)
    then have "d \<in> set (creations s)" "fc_feature_id d \<in> ?fs" unfolding set_filter by blast+
    with creation_unique [OF assms(1) this(1) assms(2)] d(1) have "fc_feature_id c \<in> ?fs" by metis
    with assms(3) show False by (simp add: cascade_features_def Let_def)
  qed
  moreover have "members (cascade_features s w) = del_where (\<lambda>m. fm_creation_id m \<in> ?cs) (members s)"
    by (simp add: cascade_features_def Let_def)
  ultimately show ?thesis unfolding members_of_def by (metis (no_types) filter_del_other)
qed

lemma cascade_features_ok:
  assumes "journal_ok s"
  shows "journal_ok (cascade_features s w)"
proof -
  let ?fs = "ft_id ` set (filter (\<lambda>f. ft_workspace_id f = w) (features s))"
  let ?cs = "fc_id ` set (filter (\<lambda>c. fc_feature_id c \<in> ?fs) (creations s))"
  let ?t = "cascade_features s w"
  have t: "creations ?t = del_where (\<lambda>c. fc_feature_id c \<in> ?fs) (creations s)" "members ?t = del_where (\<lambda>m. fm_creation_id m \<in> ?cs) (members s)"
    by (simp_all add: cascade_features_def Let_def)
  have "creation_ok (members ?t) c" if "c \<in> set (creations ?t)" for c
  proof -
    from that have c: "c \<in> set (creations s)" "fc_feature_id c \<notin> ?fs" unfolding t by simp_all
    note ok = journal_okD(5) [OF assms c(1)]
    then obtain m where "m \<in> set (members_of s (fc_id c))" by (auto simp: creation_ok_def members_of_def)
    then have "m \<in> set (members_of ?t (fc_id c))" unfolding surviving_creation [OF assms c(1) that] .
    then have "\<exists>m\<in>set (members ?t). fm_creation_id m = fc_id c" by (auto simp: members_of_def)
    with ok show ?thesis unfolding creation_ok_def t by simp
  qed
  moreover have "fm_creation_id m \<in> fc_id ` set (creations ?t)" if "m \<in> set (members ?t)" for m
  proof -
    from that have m: "m \<in> set (members s)" "fm_creation_id m \<notin> ?cs" unfolding t by simp_all
    from journal_okD(6) [OF assms m(1)] obtain c where "c \<in> set (creations s)" "fm_creation_id m = fc_id c" by blast
    with m(2) show ?thesis unfolding t by (intro image_eqI [of _ _ c]) auto
  qed
  ultimately show ?thesis
    using journal_okD(1-4) [OF assms] unfolding journal_ok_def t
    by (simp add: distinct_del_where distinct_filter_del_where)
qed

section \<open>Steps\<close>

inductive feature_step :: "db \<Rightarrow> db \<Rightarrow> bool" where
  Upsert: "upsert_feature s w b k now = Inr (t, f) \<Longrightarrow> feature_step s t"
| Begin: "begin_creation s i k new_id now = Inr (t, r) \<Longrightarrow> feature_step s t"
| Advance: "advance_member s k r ph e now = Inr t \<Longrightarrow> feature_step s t"
| Complete: "complete_creation s k now = Inr t \<Longrightarrow> feature_step s t"
| Supersede: "supersede_creation s k now = Inr t \<Longrightarrow> feature_step s t"
| Forget: "feature_step s (cascade_features s w)"
| Other: "creations t = creations s \<Longrightarrow> members t = members s \<Longrightarrow> feature_step s t"

lemma feature_step_ok: "feature_step s t \<Longrightarrow> journal_ok s \<Longrightarrow> journal_ok t"
proof (induction rule: feature_step.induct)
  case (Upsert s w b k now t f)
  then show ?case using upsert_feature_frame [OF Upsert.hyps] journal_ok_frame [of t s] by simp
next
  case (Other t s)
  then show ?case using journal_ok_frame [of t s] by simp
next
  case (Supersede s k now t)
  then show ?case by (simp add: supersede_creation_def supersede_ok)
qed (simp_all add: begin_creation_ok advance_member_ok complete_creation_ok cascade_features_ok)

interpretation features: machine feature_step journal_ok
  by unfold_locales (rule feature_step_ok)

lemma journal_ok_empty: "journal_ok empty_db"
  by (simp add: journal_ok_def empty_db_def)


section \<open>Properties\<close>

text \<open>
  C29. The creation journal is sound: in every state reached from an empty store by beginning, advancing,
  completing, superseding and forgetting in any order, a feature has at most one open creation, a completed
  creation has registered every member, a superseded one had touched none, and none is without members.
\<close>

theorem creation_journal_sound:
  assumes "feature_step\<^sup>*\<^sup>* empty_db s" and "c \<in> set (creations s)"
  shows "(\<forall>d\<in>set (creations s). fc_state c = FC_IN_PROGRESS \<and> fc_state d = FC_IN_PROGRESS \<and> fc_feature_id d = fc_feature_id c \<longrightarrow> d = c) \<and>
    members_of s (fc_id c) \<noteq> [] \<and>
    (fc_state c = FC_COMPLETED \<longrightarrow> (\<forall>m\<in>set (members_of s (fc_id c)). fm_phase m = FP_REGISTERED)) \<and>
    (fc_state c = FC_SUPERSEDED \<longrightarrow> (\<forall>m\<in>set (members_of s (fc_id c)). fm_phase m = FP_PLANNED))"
proof -
  have ok: "journal_ok s" by (rule features.run_inv [OF assms(1) journal_ok_empty])
  have "d = c" if "d \<in> set (creations s)" "fc_state c = FC_IN_PROGRESS" "fc_state d = FC_IN_PROGRESS" "fc_feature_id d = fc_feature_id c" for d
    using journal_okD(2) [OF ok] that assms(2) by (auto simp: distinct_map inj_on_def)
  moreover have "creation_ok (members s) c" by (rule journal_okD(5) [OF ok assms(2)])
  ultimately show ?thesis by (auto simp: creation_ok_def members_of_def filter_empty_conv)
qed

definition demo_members :: "member_input list" where
  "demo_members = [\<lparr> fi_repository_id = ''r1'', fi_repository_main_root = ''/p'', fi_position = 0, fi_worktree_path = ''/w'',
     fi_branch_existed = False, fi_start_oid = ''a'' \<rparr>]"

definition demo_begin :: begin_creation_input where
  "demo_begin = \<lparr> bc_workspace_id = ''s1'', bc_branch = ''f'', bc_from_ref = None, bc_members = demo_members, bc_supersede = None \<rparr>"

definition demo_workspace_db :: db where
  "demo_workspace_db = empty_db\<lparr>workspaces := [\<lparr> ws_id = ''s1'', ws_name = ''n'', ws_root = ''/'', ws_scope = Scope_Local,
     ws_config_path = None, ws_created_at = 0, ws_last_seen_at = 0 \<rparr>]\<rparr>"

definition demo_creation :: creation_row where
  "demo_creation = \<lparr> fc_id = ''c'', fc_feature_id = ''f1'', fc_state = FC_IN_PROGRESS, fc_from_ref = None, fc_created_at = 1,
     fc_updated_at = 1, fc_completed_at = None \<rparr>"

definition demo_member :: member_row where
  "demo_member = \<lparr> fm_creation_id = ''c'', fm_repository_id = ''r1'', fm_repository_main_root = ''/p'', fm_position = 0,
     fm_worktree_path = ''/w'', fm_branch_existed = False, fm_start_oid = ''a'', fm_phase = FP_PLANNED,
     fm_last_error_code = None, fm_updated_at = 1 \<rparr>"

definition demo_open :: db where
  "demo_open = demo_workspace_db\<lparr>features := [\<lparr> ft_id = ''f1'', ft_workspace_id = ''s1'', ft_branch = ''f'', ft_created_at = 1 \<rparr>],
     creations := [demo_creation], members := [demo_member]\<rparr>"

lemmas demo_feature_defs = demo_members_def demo_begin_def demo_workspace_db_def demo_creation_def demo_member_def demo_open_def empty_db_def

lemma demo_begun: "feature_step\<^sup>*\<^sup>* empty_db demo_open"
proof -
  have a: "feature_step empty_db demo_workspace_db" by (rule feature_step.Other) (simp_all add: demo_workspace_db_def)
  have "\<exists>r. begin_creation demo_workspace_db demo_begin ''f1'' ''c'' 1 = Inr (demo_open, r)"
    by (simp add: begin_creation_def upsert_feature_def feature_row_by_def feature_creation_def Let_def demo_feature_defs)
  then obtain r where "begin_creation demo_workspace_db demo_begin ''f1'' ''c'' 1 = Inr (demo_open, r)" by blast
  then have b: "feature_step demo_workspace_db demo_open" by (rule feature_step.Begin)
  from a b show ?thesis by (meson rtranclp.rtrancl_into_rtrancl rtranclp.rtrancl_refl)
qed

lemma creation_journal_sound_witness: "members_of demo_open ''c'' \<noteq> []"
  using creation_journal_sound [OF demo_begun, of demo_creation] by (auto simp: demo_feature_defs)

text \<open>
  A closed creation is history: no operation changes the row or the members of a completed or
  superseded creation, as long as its workspace is not forgotten.
\<close>

theorem closed_creation_is_history:
  assumes "feature_step s t" and "journal_ok s"
    and "c \<in> set (creations s)" and "fc_state c \<noteq> FC_IN_PROGRESS" and "d \<in> set (creations t)" and "fc_id d = fc_id c"
  shows "d = c \<and> members_of t (fc_id c) = members_of s (fc_id c)"
proof -
  have ok: "journal_ok t" using feature_step_ok [OF assms(1,2)] .
  have "c \<in> set (creations t) \<and> members_of t (fc_id c) = members_of s (fc_id c)"
    using assms(1)
  proof cases
    case (Upsert w b k now f)
    then show ?thesis using upsert_feature_frame [OF Upsert] assms(3) by (simp add: members_of_def)
  next
    case (Begin i k new_id now r)
    then show ?thesis
    proof (cases rule: begin_creation_cases)
      case (1 s2 e)
      from insert_members_result [OF 1(10)] obtain new where "members t = members s @ new" "\<forall>m\<in>set new. fm_creation_id m = new_id"
        using 1(8) by auto
      moreover have "new_id \<noteq> fc_id c" using 1(4,7,13) assms(3) by (metis imageI)
      ultimately have "members_of t (fc_id c) = members_of s (fc_id c)" by (auto simp: members_of_def filter_empty_conv)
      with 1(11) 1(12) [OF assms(3,4)] show ?thesis by simp
    qed
  next
    case (Advance k r ph e now)
    note res = advance_member_result [OF Advance]
    from res(1) obtain o' where "o' \<in> set (creations s)" "fc_id o' = k" "fc_state o' = FC_IN_PROGRESS" by (auto simp: open_creation_def list_ex_iff)
    with creation_unique [OF assms(2,3)] assms(4) have ne: "fc_id c \<noteq> k" by metis
    from res(3) obtain P where ms: "members t = upd_where P (\<lambda>m. m\<lparr>fm_phase := ph, fm_last_error_code := e, fm_updated_at := now\<rparr>) (members s)"
      "\<forall>m. P m \<longrightarrow> fm_creation_id m = k" by blast
    have "filter (\<lambda>m. fm_creation_id m = fc_id c) (upd_where P (\<lambda>m. m\<lparr>fm_phase := ph, fm_last_error_code := e, fm_updated_at := now\<rparr>) rows) =
        filter (\<lambda>m. fm_creation_id m = fc_id c) rows" for rows
      using ms(2) ne by (induction rows) auto
    moreover have "c \<in> set (creations t)" unfolding res(2) set_upd_where using assms(3) ne by (intro image_eqI [of _ _ c]) simp_all
    ultimately show ?thesis by (simp add: members_of_def ms(1))
  next
    case (Complete k now)
    then show ?thesis using complete_creation_result [OF Complete] assms(3,4)
      by (auto simp: upd_creations_def set_upd_where members_of_def intro!: image_eqI [of _ _ c])
  next
    case (Supersede k now)
    then show ?thesis using supersede_result [of s k None now t] assms(3,4)
      by (auto simp: supersede_creation_def upd_creations_def set_upd_where members_of_def supersedable_def intro!: image_eqI [of _ _ c])
  next
    case (Forget w)
    from assms(5) have ds: "d \<in> set (creations s)" unfolding Forget by (simp add: cascade_features_def Let_def)
    then have dc: "d = c" using creation_unique [OF assms(2) ds assms(3) assms(6)] by simp
    with assms(5) have ct: "c \<in> set (creations t)" by simp
    from surviving_creation [OF assms(2,3) ct [unfolded Forget]] ct show ?thesis unfolding Forget by blast
  next
    case Other
    then show ?thesis using assms(3) by (simp add: members_of_def)
  qed
  with creation_unique [OF ok _ assms(5)] assms(6) show ?thesis by metis
qed

definition demo_closed :: db where
  "demo_closed = demo_open\<lparr>creations := [demo_creation\<lparr>fc_state := FC_SUPERSEDED, fc_updated_at := 3\<rparr>]\<rparr>"

lemma closed_creation_is_history_witness:
  "\<exists>t f. upsert_feature demo_closed ''s1'' ''g'' ''f2'' 9 = Inr (t, f) \<and> members_of t ''c'' = members_of demo_closed ''c''"
proof -
  have "supersede_creation demo_open ''c'' 3 = Inr demo_closed"
    by (simp add: supersede_creation_def supersede_def supersedable_def all_members_iff upd_creations_def Let_def demo_closed_def demo_feature_defs)
  from feature_step_ok [OF feature_step.Supersede [OF this]] features.run_inv [OF demo_begun journal_ok_empty] have ok: "journal_ok demo_closed" by simp
  obtain t f where t: "upsert_feature demo_closed ''s1'' ''g'' ''f2'' 9 = Inr (t, f)"
    by (simp add: upsert_feature_def feature_row_by_def Let_def demo_closed_def demo_feature_defs)
  let ?c = "demo_creation\<lparr>fc_state := FC_SUPERSEDED, fc_updated_at := 3\<rparr>"
  have c: "?c \<in> set (creations demo_closed)" "?c \<in> set (creations t)" "fc_state ?c \<noteq> FC_IN_PROGRESS" "fc_id ?c = ''c''"
    using upsert_feature_frame [OF t] by (simp_all add: demo_closed_def demo_feature_defs)
  from closed_creation_is_history [OF feature_step.Upsert [OF t] ok c(1,3,2)] c(4) t show ?thesis by auto
qed

end
