(* ===== verification/Endpoint_Plan.thy ===== *)
theory Endpoint_Plan
  imports Endpoint_Properties Js_Text
begin

text \<open>
  The \<open>[ports]\<close> block of a workspace turned into concrete ports for one worktree
  (\<open>packages/core/src/runtime/endpoint-plan.ts\<close>, \<open>endpoints.ts\<close>): fixed ports, leases shared by the
  worktrees of one feature, preferred ports with a stride, and the observation that allocates nothing.
\<close>

section \<open>Definitions\<close>

datatype port_strategy = Stable_Dynamic | Offset | Fixed

record port_config =
  pc_strategy :: "port_strategy option"
  pc_preferred :: "int option"
  pc_stride :: "int option"
  pc_port :: "int option"
  pc_env :: "string option"
  pc_origin :: "bool option"

text \<open>
  The own entries of the \<open>[ports]\<close> object in the order of \<open>Object.entries\<close>: a text (\<open>strategy\<close> and
  \<open>range\<close>), a table of the port schema, or any other value.
\<close>

datatype port_entry = Entry_Text string | Entry_Table port_config | Entry_Other

type_synonym ports_config = "(string \<times> port_entry) list"

record plan_input =
  pl_ports :: "ports_config option"
  pl_worktree_id :: ident
  pl_group_worktree_ids :: "ident list"
  pl_index :: int
  pl_host :: "string option"

record resolved_endpoints =
  rs_ports :: "(string \<times> int) list"
  rs_env :: "(string \<times> string) list"
  rs_origins :: "string list"
  rs_leases :: "endpoint_lease list"

text \<open>
  The thrown errors: \<open>WtmConfigError\<close> in its four uses, \<open>WtmEndpointAllocationError\<close> with the request
  it carries, and an error of the store passed on as it is.
\<close>

datatype plan_error =
    Fixed_Without_Port string
  | Preferred_Outside string int port_range
  | Port_Not_Table string
  | Port_Range_Invalid string
  | Allocation_Error endpoint_request
  | Plan_Store_Error store_error

definition default_endpoint_host :: string where
  "default_endpoint_host = ''127.0.0.1''"

definition default_origin_host :: string where
  "default_origin_host = ''localhost''"

definition reserved_port_keys :: "string set" where
  "reserved_port_keys = {''strategy'', ''range''}"

definition nothing_resolved :: resolved_endpoints where
  "nothing_resolved = \<lparr> rs_ports = [], rs_env = [], rs_origins = [], rs_leases = [] \<rparr>"

text \<open>The two store operations a plan needs; an allocation is already bound to a probe.\<close>

record 's endpoint_api =
  ea_allocate :: "'s \<Rightarrow> endpoint_request \<Rightarrow> store_error + ('s \<times> endpoint_lease)"
  ea_list :: "'s \<Rightarrow> endpoint_query \<Rightarrow> endpoint_lease list"

text \<open>\<open>/^(\d{1,5})-(\d{1,5})$/\<close> on the trimmed text.\<close>

definition match_port_range :: "string \<Rightarrow> (int \<times> int) option" where
  "match_port_range text =
    (let lo = takeWhile is_digit text; rest = dropWhile is_digit text; hi = drop 1 rest in
     if lo \<noteq> [] \<and> length lo \<le> 5 \<and> take 1 rest = ''-'' \<and> hi \<noteq> [] \<and> length hi \<le> 5 \<and> list_all is_digit hi
     then Some (int (digits_value lo), int (digits_value hi)) else None)"

definition parse_port_range :: "string option \<Rightarrow> plan_error + port_range" where
  "parse_port_range bounds = (case bounds of
     None \<Rightarrow> Inr \<lparr> pr_min = Whole 20000, pr_max = Whole 50000 \<rparr>
   | Some text \<Rightarrow> (case match_port_range (trim text) of
       None \<Rightarrow> Inl (Port_Range_Invalid text)
     | Some (lo, hi) \<Rightarrow>
         if lo < 1 \<or> hi > 65535 \<or> lo > hi then Inl (Port_Range_Invalid text)
         else Inr \<lparr> pr_min = Whole lo, pr_max = Whole hi \<rparr>))"

definition ports_range :: "ports_config \<Rightarrow> string option" where
  "ports_range ports = (case map_of ports ''range'' of Some (Entry_Text text) \<Rightarrow> Some text | _ \<Rightarrow> None)"

definition port_config_of :: "string \<Rightarrow> port_entry \<Rightarrow> plan_error + port_config" where
  "port_config_of name value = (case value of Entry_Table config \<Rightarrow> Inr config | _ \<Rightarrow> Inl (Port_Not_Table name))"

definition fixed_port :: "string \<Rightarrow> port_config \<Rightarrow> plan_error + int" where
  "fixed_port name config = (case pc_port config of None \<Rightarrow> Inl (Fixed_Without_Port name) | Some p \<Rightarrow> Inr p)"

definition preferred_port :: "string \<Rightarrow> port_config \<Rightarrow> int \<Rightarrow> port_range \<Rightarrow> plan_error + int option" where
  "preferred_port name config index bounds = (case pc_preferred config of
     None \<Rightarrow> Inr None
   | Some preferred \<Rightarrow>
       if preferred < whole (pr_min bounds) \<or> preferred > whole (pr_max bounds)
       then Inl (Preferred_Outside name preferred bounds)
       else if pc_strategy config \<noteq> Some Offset then Inr (Some preferred)
       else let stride = (case pc_stride config of None \<Rightarrow> 1 | Some n \<Rightarrow> n);
                candidate = preferred + stride * max 0 (index - 1)
            in Inr (if candidate > whole (pr_max bounds) then None else Some candidate))"

definition origin_host :: "string \<Rightarrow> string" where
  "origin_host host = (if host \<in> {''127.0.0.1'', ''::1'', ''0.0.0.0''} then default_origin_host else host)"

definition origin_of :: "string \<Rightarrow> int \<Rightarrow> string" where
  "origin_of host port = ''http://'' @ origin_host host @ '':'' @ show_int port"

text \<open>An error whose message starts with \<open>No available\<close> is reported with the request.\<close>

definition allocate_stable_endpoint :: "'s endpoint_api \<Rightarrow> 's \<Rightarrow> endpoint_request \<Rightarrow> plan_error + ('s \<times> endpoint_lease)" where
  "allocate_stable_endpoint api s request = (case ea_allocate api s request of
     Inr result \<Rightarrow> Inr result
   | Inl (Plain_Error (No_Endpoint exhausted)) \<Rightarrow> Inl (Allocation_Error request)
   | Inl error \<Rightarrow> Inl (Plan_Store_Error error))"

text \<open>The active leases the worktrees of a feature hold under one name.\<close>

definition shared_leases :: "'s endpoint_api \<Rightarrow> 's \<Rightarrow> ident list \<Rightarrow> string \<Rightarrow> endpoint_lease list" where
  "shared_leases api s ids name =
    ea_list api s \<lparr> eq_worktree_ids = Some ids, eq_name = Some name, eq_states = Some [EP_ACTIVE] \<rparr>"

definition leased_port ::
  "'s endpoint_api \<Rightarrow> 's \<Rightarrow> string \<Rightarrow> port_config \<Rightarrow> plan_input \<Rightarrow> string \<Rightarrow> port_range \<Rightarrow> plan_error + ('s \<times> endpoint_lease)" where
  "leased_port api s name config input host bounds =
    (case shared_leases api s (pl_group_worktree_ids input) name of
       shared # _ \<Rightarrow> Inr (s, shared)
     | [] \<Rightarrow> (case preferred_port name config (pl_index input) bounds of
         Inl e \<Rightarrow> Inl e
       | Inr preferred \<Rightarrow> allocate_stable_endpoint api s
           \<lparr> er_worktree_id = pl_worktree_id input, er_name = name, er_protocol = Tcp, er_host = host,
             er_port_range = bounds, er_preferred_port = map_option Whole preferred \<rparr>))"

text \<open>What a resolved port is published as: its variable and its browser origin.\<close>

definition publish :: "port_config \<Rightarrow> string \<Rightarrow> int \<Rightarrow> resolved_endpoints \<Rightarrow> resolved_endpoints" where
  "publish config host port resolved =
    resolved\<lparr>rs_env := (case pc_env config of None \<Rightarrow> rs_env resolved | Some var \<Rightarrow> map_set var (show_int port) (rs_env resolved)),
      rs_origins := (if pc_origin config = Some False then rs_origins resolved else rs_origins resolved @ [origin_of host port])\<rparr>"

definition endpoint_port ::
  "'s endpoint_api \<Rightarrow> 's \<Rightarrow> string \<Rightarrow> port_config \<Rightarrow> plan_input \<Rightarrow> string \<Rightarrow> port_range \<Rightarrow> resolved_endpoints \<Rightarrow>
   plan_error + ('s \<times> int \<times> resolved_endpoints)" where
  "endpoint_port api s name config input host bounds resolved =
    (if pc_strategy config = Some Fixed
     then (case fixed_port name config of Inl e \<Rightarrow> Inl e | Inr port \<Rightarrow> Inr (s, port, publish config host port resolved))
     else (case leased_port api s name config input host bounds of
       Inl e \<Rightarrow> Inl e
     | Inr (t, lease) \<Rightarrow> Inr (t, ep_port lease,
         publish config host (ep_port lease) (resolved\<lparr>rs_leases := rs_leases resolved @ [lease]\<rparr>))))"

text \<open>
  The loop over the entries. A port that fails leaves the leases taken before it: the state is
  returned beside the error.
\<close>

fun resolve_entries ::
  "'s endpoint_api \<Rightarrow> plan_input \<Rightarrow> string \<Rightarrow> port_range \<Rightarrow> ports_config \<Rightarrow> 's \<Rightarrow> resolved_endpoints \<Rightarrow>
   's \<times> (plan_error + resolved_endpoints)" where
  "resolve_entries api input host bounds [] s resolved = (s, Inr resolved)"
| "resolve_entries api input host bounds ((name, raw) # entries) s resolved =
    (if name \<in> reserved_port_keys then resolve_entries api input host bounds entries s resolved
     else case port_config_of name raw of
       Inl e \<Rightarrow> (s, Inl e)
     | Inr config \<Rightarrow> (case endpoint_port api s name config input host bounds resolved of
         Inl e \<Rightarrow> (s, Inl e)
       | Inr (t, port, resolved') \<Rightarrow> resolve_entries api input host bounds entries t
           (resolved'\<lparr>rs_ports := map_set name port (rs_ports resolved')\<rparr>)))"

definition host_of :: "plan_input \<Rightarrow> string" where
  "host_of input = (case pl_host input of None \<Rightarrow> default_endpoint_host | Some host \<Rightarrow> host)"

definition resolve_endpoints :: "'s endpoint_api \<Rightarrow> 's \<Rightarrow> plan_input \<Rightarrow> 's \<times> (plan_error + resolved_endpoints)" where
  "resolve_endpoints api s input = (case pl_ports input of
     None \<Rightarrow> (s, Inr nothing_resolved)
   | Some ports \<Rightarrow> (case parse_port_range (ports_range ports) of
       Inl e \<Rightarrow> (s, Inl e)
     | Inr bounds \<Rightarrow> resolve_entries api input (host_of input) bounds ports s nothing_resolved))"

record observed_endpoint =
  ob_name :: string
  ob_port :: "int option"
  ob_fixed :: bool
  ob_env :: "string option"
  ob_origin :: "string option"

text \<open>The observed port is published the same way (\<open>publish\<close> adds the origin exactly when one is observed).\<close>

fun existing_entries ::
  "'s endpoint_api \<Rightarrow> 's \<Rightarrow> ident list \<Rightarrow> string \<Rightarrow> ports_config \<Rightarrow> observed_endpoint list \<Rightarrow> resolved_endpoints \<Rightarrow>
   plan_error + (observed_endpoint list \<times> resolved_endpoints)" where
  "existing_entries api s ids host [] endpoints resolved = Inr (endpoints, resolved)"
| "existing_entries api s ids host ((name, raw) # entries) endpoints resolved =
    (if name \<in> reserved_port_keys then existing_entries api s ids host entries endpoints resolved
     else case port_config_of name raw of
       Inl e \<Rightarrow> Inl e
     | Inr config \<Rightarrow>
         let fixed = (pc_strategy config = Some Fixed);
             lease = (if fixed then None
                      else case shared_leases api s ids name of [] \<Rightarrow> None | l # _ \<Rightarrow> Some l);
             port = (if fixed then pc_port config else map_option ep_port lease);
             resolved1 = (case lease of None \<Rightarrow> resolved | Some l \<Rightarrow> resolved\<lparr>rs_leases := rs_leases resolved @ [l]\<rparr>);
             origin = (case port of None \<Rightarrow> None | Some p \<Rightarrow>
               if pc_origin config = Some False then None else Some (origin_of host p));
             resolved2 = (case port of None \<Rightarrow> resolved1 | Some p \<Rightarrow>
               (publish config host p resolved1)\<lparr>rs_ports := map_set name p (rs_ports resolved1)\<rparr>)
         in existing_entries api s ids host entries
              (endpoints @ [\<lparr> ob_name = name, ob_port = port, ob_fixed = fixed, ob_env = pc_env config, ob_origin = origin \<rparr>])
              resolved2)"

definition resolve_existing_endpoints ::
  "'s endpoint_api \<Rightarrow> 's \<Rightarrow> plan_input \<Rightarrow> plan_error + (observed_endpoint list \<times> resolved_endpoints)" where
  "resolve_existing_endpoints api s input = (case pl_ports input of
     None \<Rightarrow> Inr ([], nothing_resolved)
   | Some ports \<Rightarrow> existing_entries api s (pl_group_worktree_ids input) (host_of input) ports [] nothing_resolved)"

end
