(* ===== verification/Endpoint_Plan_Properties.thy ===== *)
theory Endpoint_Plan_Properties
  imports Endpoint_Plan
begin

text \<open>
  What the worktrees of a feature agree on. The contract of the store is a locale, interpreted on the
  endpoint table; its client lemmas say that a plan that succeeded is what every later plan of the same
  feature, and the observation that allocates nothing, find again.
\<close>

lemma publish_ports [simp]: "rs_ports (publish config host port acc) = rs_ports acc"
  by (simp add: publish_def)

section \<open>The contract of the store\<close>

locale endpoint_service =
  fixes api :: "'s endpoint_api" and inv :: "'s \<Rightarrow> bool"
  assumes kept: "ea_allocate api s q = Inr (t, l) \<Longrightarrow> inv s \<Longrightarrow> inv t"
    and elsewhere: "ea_allocate api s q = Inr (t, l) \<Longrightarrow> inv s \<Longrightarrow> name \<noteq> er_name q \<Longrightarrow>
      shared_leases api t ids name = shared_leases api s ids name"
    and taken: "ea_allocate api s q = Inr (t, l) \<Longrightarrow> inv s \<Longrightarrow> er_worktree_id q \<in> set ids \<Longrightarrow>
      shared_leases api s ids (er_name q) = [] \<Longrightarrow> shared_leases api t ids (er_name q) = [l]"
    and grouped: "set ids = set ids' \<Longrightarrow> shared_leases api s ids name = shared_leases api s ids' name"
begin

lemma stable_allocation:
  "allocate_stable_endpoint api s q = Inr (t, l) \<Longrightarrow> ea_allocate api s q = Inr (t, l)"
  by (auto simp: allocate_stable_endpoint_def split: sum.splits store_error.splits plain_error.splits)

text \<open>A leased port is afterwards the first shared lease of its name, and the other names keep theirs.\<close>

lemma leased_port_shared:
  assumes "leased_port api s name config input host bounds = Inr (t, l)" and "inv s"
    and "pl_worktree_id input \<in> set (pl_group_worktree_ids input)"
  shows "inv t" and "\<exists>more. shared_leases api t (pl_group_worktree_ids input) name = l # more"
    and "other \<noteq> name \<Longrightarrow> shared_leases api t (pl_group_worktree_ids input) other = shared_leases api s (pl_group_worktree_ids input) other"
proof -
  let ?ids = "pl_group_worktree_ids input"
  have "inv t \<and> (\<exists>more. shared_leases api t ?ids name = l # more) \<and>
    (\<forall>other. other \<noteq> name \<longrightarrow> shared_leases api t ?ids other = shared_leases api s ?ids other)"
  proof (cases "shared_leases api s ?ids name")
    case (Cons shared more)
    with assms show ?thesis by (simp add: leased_port_def)
  next
    case Nil
    with assms(1) obtain preferred where "allocate_stable_endpoint api s
        \<lparr> er_worktree_id = pl_worktree_id input, er_name = name, er_protocol = Tcp, er_host = host,
          er_port_range = bounds, er_preferred_port = map_option Whole preferred \<rparr> = Inr (t, l)"
      by (auto simp: leased_port_def split: sum.splits)
    then obtain q where q: "er_worktree_id q = pl_worktree_id input" "er_name q = name"
        "allocate_stable_endpoint api s q = Inr (t, l)" by (metis endpoint_request.select_convs(1,2))
    note run = stable_allocation [OF q(3)]
    show ?thesis
      using kept [OF run assms(2)] taken [OF run assms(2), of ?ids] elsewhere [OF run assms(2), of _ ?ids] q(1,2) Nil assms(3)
      by simp
  qed
  then show "inv t" and "\<exists>more. shared_leases api t ?ids name = l # more"
    and "other \<noteq> name \<Longrightarrow> shared_leases api t ?ids other = shared_leases api s ?ids other" by blast+
qed

lemma endpoint_port_shared:
  assumes "endpoint_port api s name config input host bounds acc = Inr (t, port, acc')" and "inv s"
    and "pl_worktree_id input \<in> set (pl_group_worktree_ids input)"
  shows "inv t"
    and "other \<noteq> name \<Longrightarrow> shared_leases api t (pl_group_worktree_ids input) other = shared_leases api s (pl_group_worktree_ids input) other"
  using assms leased_port_shared [OF _ assms(2,3)]
  by (auto simp: endpoint_port_def split: if_splits sum.splits)

text \<open>
  \<open>agree t input entries acc res\<close>: planning the entries in \<open>t\<close> from any worktree of the feature, with any
  allocator behind the same listing, leads from \<open>acc\<close> to \<open>res\<close> without a change, and observing them does
  so too.
\<close>

definition agree :: "'s \<Rightarrow> plan_input \<Rightarrow> string \<Rightarrow> ports_config \<Rightarrow> resolved_endpoints \<Rightarrow> resolved_endpoints \<Rightarrow> bool" where
  "agree t input host entries acc res \<longleftrightarrow>
    (\<forall>api' input' bounds. ea_list api' = ea_list api \<longrightarrow> set (pl_group_worktree_ids input') = set (pl_group_worktree_ids input) \<longrightarrow>
       resolve_entries api' input' host bounds entries t acc = (t, Inr res) \<and>
       (\<forall>seen. \<exists>endpoints. existing_entries api' t (pl_group_worktree_ids input') host entries seen acc = Inr (endpoints, res)))"

lemma agree_Nil: "agree t input host [] acc acc"
  by (simp add: agree_def)

lemma agree_reserved:
  "name \<in> reserved_port_keys \<Longrightarrow> agree t input host entries acc res \<Longrightarrow> agree t input host ((name, raw) # entries) acc res"
  by (simp add: agree_def)

lemma agree_Cons:
  assumes port: "endpoint_port api s name config input host bounds acc = Inr (s1, port, acc1)" and inv: "inv s"
    and member: "pl_worktree_id input \<in> set (pl_group_worktree_ids input)"
    and same: "shared_leases api t (pl_group_worktree_ids input) name = shared_leases api s1 (pl_group_worktree_ids input) name"
    and rest: "agree t input host entries (acc1\<lparr>rs_ports := map_set name port (rs_ports acc1)\<rparr>) res"
    and name: "name \<notin> reserved_port_keys"
  shows "agree t input host ((name, Entry_Table config) # entries) acc res"
proof (cases "pc_strategy config = Some Fixed")
  case True
  with port obtain p where p: "pc_port config = Some p" "s1 = s" "port = p" "acc1 = publish config host p acc"
    by (auto simp: endpoint_port_def fixed_port_def split: sum.splits option.splits)
  with rest name True show ?thesis
    by (simp add: agree_def port_config_of_def endpoint_port_def fixed_port_def Let_def)
next
  case False
  with port obtain l where l: "leased_port api s name config input host bounds = Inr (s1, l)" "port = ep_port l"
      "acc1 = publish config host (ep_port l) (acc\<lparr>rs_leases := rs_leases acc @ [l]\<rparr>)"
    by (auto simp: endpoint_port_def split: sum.splits)
  from leased_port_shared(2) [OF l(1) inv member] same obtain more where
    more: "shared_leases api t (pl_group_worktree_ids input) name = l # more" by auto
  show ?thesis unfolding agree_def
  proof (intro allI impI)
    fix api' :: "'s endpoint_api" and input' :: plan_input and bounds' :: port_range
    assume listing: "ea_list api' = ea_list api" and group: "set (pl_group_worktree_ids input') = set (pl_group_worktree_ids input)"
    with rest have plan: "resolve_entries api' input' host bounds' entries t (acc1\<lparr>rs_ports := map_set name port (rs_ports acc1)\<rparr>) = (t, Inr res)"
      and observed: "\<exists>endpoints. existing_entries api' t (pl_group_worktree_ids input') host entries seen
        (acc1\<lparr>rs_ports := map_set name port (rs_ports acc1)\<rparr>) = Inr (endpoints, res)" for seen
      unfolding agree_def by blast+
    have "shared_leases api' t (pl_group_worktree_ids input') name = l # more"
      using grouped [OF group] more listing by (simp add: shared_leases_def)
    with plan observed name False l(2,3)
    show "resolve_entries api' input' host bounds' ((name, Entry_Table config) # entries) t acc = (t, Inr res) \<and>
        (\<forall>seen. \<exists>endpoints. existing_entries api' t (pl_group_worktree_ids input') host ((name, Entry_Table config) # entries) seen acc =
          Inr (endpoints, res))"
      by (simp add: port_config_of_def endpoint_port_def leased_port_def Let_def)
  qed
qed

lemma resolve_entries_agree:
  assumes "resolve_entries api input host bounds entries s acc = (t, Inr res)" and "inv s"
    and "pl_worktree_id input \<in> set (pl_group_worktree_ids input)" and "distinct (map fst entries)"
  shows "agree t input host entries acc res \<and>
    (\<forall>name. name \<notin> fst ` set entries \<longrightarrow>
       shared_leases api t (pl_group_worktree_ids input) name = shared_leases api s (pl_group_worktree_ids input) name)"
  using assms
proof (induction entries arbitrary: s acc)
  case Nil
  then show ?case by (simp add: agree_Nil)
next
  case (Cons entry entries)
  obtain name raw where entry: "entry = (name, raw)" by force
  show ?case
  proof (cases "name \<in> reserved_port_keys")
    case True
    with Cons entry show ?thesis by (simp add: agree_reserved)
  next
    case False
    from Cons.prems(1) False entry obtain config s1 port acc1 where
      config: "raw = Entry_Table config" and
      port: "endpoint_port api s name config input host bounds acc = Inr (s1, port, acc1)" and
      rest: "resolve_entries api input host bounds entries s1 (acc1\<lparr>rs_ports := map_set name port (rs_ports acc1)\<rparr>) = (t, Inr res)"
      by (auto simp: port_config_of_def split: sum.splits port_entry.splits)
    note shared = endpoint_port_shared [OF port Cons.prems(2,3)]
    from Cons.IH [OF rest shared(1) Cons.prems(3)] Cons.prems(4) entry have
      ih: "agree t input host entries (acc1\<lparr>rs_ports := map_set name port (rs_ports acc1)\<rparr>) res"
      and names: "\<And>other. other \<notin> fst ` set entries \<Longrightarrow>
        shared_leases api t (pl_group_worktree_ids input) other = shared_leases api s1 (pl_group_worktree_ids input) other"
      by auto
    have "agree t input host (entry # entries) acc res"
      unfolding entry config using Cons.prems(4) entry
      by (intro agree_Cons [OF port Cons.prems(2,3) names ih False]) simp
    moreover have "shared_leases api t (pl_group_worktree_ids input) other = shared_leases api s (pl_group_worktree_ids input) other"
      if "other \<notin> fst ` set (entry # entries)" for other
      using that entry names [of other] shared(2) [of other] by simp
    ultimately show ?thesis by blast
  qed
qed

lemma resolve_endpoints_agree:
  assumes "resolve_endpoints api s input = (t, Inr res)" and "inv s"
    and "pl_worktree_id input \<in> set (pl_group_worktree_ids input)" and "\<forall>ports. pl_ports input = Some ports \<longrightarrow> distinct (map fst ports)"
    and "set (pl_group_worktree_ids input') = set (pl_group_worktree_ids input)" and "pl_ports input' = pl_ports input"
    and "pl_host input' = pl_host input" and "ea_list api' = ea_list api"
  shows "resolve_endpoints api' t input' = (t, Inr res) \<and> (\<exists>endpoints. resolve_existing_endpoints api' t input' = Inr (endpoints, res))"
proof (cases "pl_ports input")
  case None
  with assms show ?thesis by (simp add: resolve_endpoints_def resolve_existing_endpoints_def)
next
  case (Some ports)
  with assms(1) obtain bounds where bounds: "parse_port_range (ports_range ports) = Inr bounds"
      "resolve_entries api input (host_of input) bounds ports s nothing_resolved = (t, Inr res)"
    by (auto simp: resolve_endpoints_def split: sum.splits)
  from resolve_entries_agree [OF bounds(2) assms(2,3)] assms(4) Some
  have "agree t input (host_of input) ports nothing_resolved res" by blast
  with assms(5-8) Some bounds(1) show ?thesis
    by (simp add: agree_def resolve_endpoints_def resolve_existing_endpoints_def host_of_def)
qed

end

section \<open>The endpoint table provides it\<close>

text \<open>
  The operations of the store as a plan calls them: \<open>fresh\<close> stands for the new identifier and the
  clock of an allocation.
\<close>

definition sql_endpoints :: "endpoint_probe option \<Rightarrow> (db \<Rightarrow> ident \<times> time) \<Rightarrow> db endpoint_api" where
  "sql_endpoints probe fresh = \<lparr>
     ea_allocate = (\<lambda>s q. allocate_endpoint s q probe (fst (fresh s)) (snd (fresh s))),
     ea_list = list_endpoint_leases \<rparr>"

definition shares_name :: "ident list \<Rightarrow> string \<Rightarrow> endpoint_lease \<Rightarrow> bool" where
  "shares_name ids name r \<longleftrightarrow> ep_worktree_id r \<in> set ids \<and> ep_name r = name \<and> ep_state r = EP_ACTIVE"

lemma shared_leases_sql:
  "shared_leases (sql_endpoints probe fresh) s ids name = sort_key (\<lambda>r. (ep_name r, ep_port r)) (filter (shares_name ids name) (endpoint_leases s))"
proof -
  have "endpoint_query_matches \<lparr> eq_worktree_ids = Some ids, eq_name = Some name, eq_states = Some [EP_ACTIVE] \<rparr> = shares_name ids name"
    by (rule ext) (simp add: endpoint_query_matches_def shares_name_def)
  then show ?thesis by (simp add: shared_leases_def sql_endpoints_def list_endpoint_leases_def)
qed

lemma filter_replace_other:
  "(\<And>x. x \<in> set rows \<Longrightarrow> Q x \<Longrightarrow> \<not> P x) \<Longrightarrow> \<not> P l \<Longrightarrow> filter P (upd_where Q (\<lambda>_. l) rows) = filter P rows"
  by (induction rows) auto

lemma filter_replace_one:
  "distinct (map key rows) \<Longrightarrow> r \<in> set rows \<Longrightarrow> (\<And>x. x \<in> set rows \<Longrightarrow> \<not> P x) \<Longrightarrow> P l \<Longrightarrow>
   filter P (upd_where (\<lambda>x. key x = key r) (\<lambda>_. l) rows) = [l]"
  by (induction rows) (auto simp: key_notin upd_where_absent)

lemma sql_elsewhere:
  assumes "allocate_endpoint s q probe new_id now = Inr (t, l)" and "endpoints_ok s" and "name \<noteq> er_name q"
  shows "filter (shares_name ids name) (endpoint_leases t) = filter (shares_name ids name) (endpoint_leases s)"
  using assms(1)
proof (cases rule: allocate_cases)
  case (moved r port)
  note r = endpoint_row_SomeD [OF moved(1)]
  have eq: "x = r" if "x \<in> set (endpoint_leases s)" "ep_id x = ep_id r" for x
    using rows_id_unique that r assms(2) unfolding endpoints_ok_def by blast
  have "\<not> shares_name ids name r" using r assms(3) by (simp add: shares_name_def)
  then have "\<not> shares_name ids name x" if "x \<in> set (endpoint_leases s)" "ep_id x = ep_id r" for x
    using eq [OF that] by simp
  moreover have "\<not> shares_name ids name l" using moved(2) r assms(3) by (simp add: shares_name_def moved_lease_def)
  ultimately have "filter (shares_name ids name) (upd_where (\<lambda>x. ep_id x = ep_id r) (\<lambda>_. l) (endpoint_leases s)) =
    filter (shares_name ids name) (endpoint_leases s)" by (rule filter_replace_other)
  with moved(3) show ?thesis by simp
qed (use assms(3) in \<open>auto simp: shares_name_def new_lease_def\<close>)

lemma sql_taken:
  assumes "allocate_endpoint s q probe new_id now = Inr (t, l)" and "endpoints_ok s" and "er_worktree_id q \<in> set ids"
    and "filter (shares_name ids (er_name q)) (endpoint_leases s) = []"
  shows "filter (shares_name ids (er_name q)) (endpoint_leases t) = [l]"
proof -
  from assms(4) have none: "\<not> shares_name ids (er_name q) x" if "x \<in> set (endpoint_leases s)" for x
    using that by (simp add: filter_empty_conv)
  from assms(1) show ?thesis
  proof (cases rule: allocate_cases)
    case kept
    from endpoint_row_SomeD [OF kept(2)] kept(3) assms(3) none [of l] show ?thesis
      by (simp add: shares_name_def compatible_lease_def)
  next
    case (moved r port)
    note r = endpoint_row_SomeD [OF moved(1)]
    from assms(2) have "distinct (map ep_id (endpoint_leases s))" by (simp add: endpoints_ok_def endpoint_rows_ok_def)
    from filter_replace_one [OF this, of r "shares_name ids (er_name q)" l] r none moved(2,3) assms(3)
    show ?thesis by (simp add: shares_name_def moved_lease_def)
  next
    case (fresh port)
    with assms(3,4) show ?thesis by (simp add: shares_name_def new_lease_def)
  qed
qed

interpretation planned: endpoint_service "sql_endpoints probe fresh" endpoints_ok
proof (unfold_locales, goal_cases)
  case (1 s q t l)
  then show ?case by (auto simp: sql_endpoints_def intro: allocate_ok)
next
  case (2 s q t l name ids)
  then have "allocate_endpoint s q probe (fst (fresh s)) (snd (fresh s)) = Inr (t, l)" by (simp add: sql_endpoints_def)
  from sql_elsewhere [OF this 2(2,3)] show ?case by (simp add: shared_leases_sql)
next
  case (3 s q t l ids)
  then have "filter (shares_name ids (er_name q)) (endpoint_leases s) = []"
    by (metis shared_leases_sql set_empty set_sort)
  moreover from 3 have "allocate_endpoint s q probe (fst (fresh s)) (snd (fresh s)) = Inr (t, l)" by (simp add: sql_endpoints_def)
  ultimately show ?case using 3(2,3) by (simp add: shared_leases_sql sql_taken)
next
  case (4 ids ids' s name)
  then have "shares_name ids name = shares_name ids' name" by (intro ext) (simp add: shares_name_def)
  then show ?case by (simp add: shared_leases_sql)
qed

section \<open>Properties\<close>

text \<open>
  The worktrees of one feature agree on their ports: once resolving the \<open>[ports]\<close> block for one of
  them succeeded, resolving it again for any worktree of the same feature, whatever the probe, the index and
  the order the worktrees are listed in, takes no new lease and gives the very same ports, variables, origins
  and leases; and the observation that allocates nothing reports them too.
\<close>

theorem feature_shares_ports:
  assumes "resolve_endpoints (sql_endpoints probe fresh) s input = (t, Inr res)" and "endpoints_ok s"
    and "pl_worktree_id input \<in> set (pl_group_worktree_ids input)" and "\<forall>ports. pl_ports input = Some ports \<longrightarrow> distinct (map fst ports)"
    and "set (pl_group_worktree_ids input') = set (pl_group_worktree_ids input)" and "pl_ports input' = pl_ports input"
    and "pl_host input' = pl_host input"
  shows "resolve_endpoints (sql_endpoints probe' fresh') t input' = (t, Inr res) \<and>
    (\<exists>endpoints. resolve_existing_endpoints (sql_endpoints probe' fresh') t input' = Inr (endpoints, res))"
  by (rule planned.resolve_endpoints_agree [OF assms]) (simp add: sql_endpoints_def)

definition demo_ports :: ports_config where
  "demo_ports = [(''range'', Entry_Text ''3000-3002''),
     (''web'', Entry_Table \<lparr> pc_strategy = None, pc_preferred = Some 3001, pc_stride = None, pc_port = None,
        pc_env = Some ''PORT'', pc_origin = None \<rparr>)]"

definition demo_plan :: "ident \<Rightarrow> plan_input" where
  "demo_plan w = \<lparr> pl_ports = Some demo_ports, pl_worktree_id = w, pl_group_worktree_ids = [''w1'', ''w2''],
     pl_index = 1, pl_host = None \<rparr>"

definition demo_resolved :: resolved_endpoints where
  "demo_resolved = \<lparr> rs_ports = [(''web'', 3000)], rs_env = [(''PORT'', ''3000'')],
     rs_origins = [''http://localhost:3000''], rs_leases = [demo_endpoint] \<rparr>"

lemma demo_show_port: "show_int 3000 = ''3000''"
  by code_simp

lemma demo_range: "parse_port_range (ports_range demo_ports) = Inr \<lparr> pr_min = Whole 3000, pr_max = Whole 3002 \<rparr>"
  by code_simp

lemma demo_resolve:
  "resolve_endpoints (sql_endpoints (Some demo_probe) (\<lambda>_. (''e1'', 5))) demo_registered (demo_plan ''w1'') =
    (demo_endpoint_db, Inr demo_resolved)"
proof -
  have none: "shared_leases (sql_endpoints (Some demo_probe) (\<lambda>_. (''e1'', 5))) demo_registered [''w1'', ''w2''] ''web'' = []"
    by (simp add: shared_leases_sql demo_registered_def empty_db_def)
  have "allocate_stable_endpoint (sql_endpoints (Some demo_probe) (\<lambda>_. (''e1'', 5))) demo_registered demo_endpoint_request =
      Inr (demo_endpoint_db, demo_endpoint)"
    by (simp add: allocate_stable_endpoint_def sql_endpoints_def demo_allocate)
  with none demo_range show ?thesis
    by (simp add: resolve_endpoints_def demo_plan_def demo_ports_def reserved_port_keys_def port_config_of_def endpoint_port_def
        leased_port_def preferred_port_def host_of_def default_endpoint_host_def demo_endpoint_request_def publish_def origin_of_def
        origin_host_def default_origin_host_def nothing_resolved_def demo_resolved_def demo_endpoint_def demo_show_port)
qed

lemma feature_shares_ports_witness:
  "resolve_endpoints (sql_endpoints None (\<lambda>_. (''e2'', 9))) demo_endpoint_db (demo_plan ''w2'') = (demo_endpoint_db, Inr demo_resolved)"
proof -
  have "endpoints_ok demo_registered" by (simp add: endpoints_ok_def endpoint_rows_ok_def demo_registered_def empty_db_def)
  from feature_shares_ports [OF demo_resolve this, of "demo_plan ''w2''"] show ?thesis
    by (simp add: demo_plan_def demo_ports_def)
qed

end
