(* ===== verification/Job_Queue.thy ===== *)
theory Job_Queue
  imports Job_Properties Process_Store Js_Text
begin

text \<open>
  The daemon's scheduler of heavy jobs (\<open>packages/daemon/src/heavy-job-queue.ts\<close>, \<open>job-memory.ts\<close>): admission,
  launching, the reconciliation of a running job with the evidence about its processes, and the timer
  that keeps the queue going. It drives the durable queue of \<open>Job_Store\<close>.
\<close>

section \<open>State, effects and errors\<close>

record completion =
  cn_exit_code :: "int option"
  cn_signal :: "string option"
  cn_completed_at :: time
  cn_timed_out :: bool
  cn_log_failed :: bool

record observed_exit =
  ox_exit_code :: "int option"
  ox_signal :: "string option"
  ox_group_absent :: bool
  ox_exited_at :: "time option"

datatype group_status = Group_Present | Group_Absent | Group_Failed

record resolved_job =
  rj_workspace_id :: ident
  rj_repository_id :: ident
  rj_worktree_id :: ident
  rj_worktree_path :: string
  rj_task_name :: string
  rj_timeout_ms :: jsnum
  rj_memory_estimate :: "jsnum option"
  rj_argv :: "string list"
  rj_cwd :: string
  rj_shell :: bool
  rj_env :: "(string \<times> string option) list"

text \<open>
  A thrown value, as far as the queue looks at it: its \<open>code\<close> (or its message when it has none) and the
  \<open>reason\<close>, \<open>spawnOutcome\<close> and \<open>anchorPid\<close> of its context.
\<close>

record thrown =
  th_code :: string
  th_reason :: "string option"
  th_spawn_outcome :: "string option"
  th_anchor_pid :: "jsnum option"

text \<open>
  The queue object, over the database it works on. \<open>jq_timer\<close> is whether a timeout is pending and
  \<open>jq_timer_delay\<close> the delay it was set with; \<open>jq_world\<close> is everything outside (processes, files, clock).
\<close>

record 'w queue =
  jq_db :: db
  jq_exits :: "ident \<rightharpoonup> observed_exit"
  jq_recovering :: "ident set"
  jq_stop_attempts :: "ident \<rightharpoonup> time"
  jq_timer :: bool
  jq_timer_delay :: nat
  jq_started :: bool
  jq_closed :: bool
  jq_admissions :: nat
  jq_world :: 'w

type_synonym ('w, 'a) act = "'w queue \<Rightarrow> 'w queue \<times> (thrown + 'a)"

definition give :: "'a \<Rightarrow> ('w, 'a) act" where
  "give x = (\<lambda>q. (q, Inr x))"

definition throw :: "thrown \<Rightarrow> ('w, 'a) act" where
  "throw e = (\<lambda>q. (q, Inl e))"

text \<open>\<open>await m\<close> and go on with its value; a rejection skips the rest.\<close>

definition andthen :: "('w, 'a) act \<Rightarrow> ('a \<Rightarrow> ('w, 'b) act) \<Rightarrow> ('w, 'b) act" where
  "andthen m k = (\<lambda>q. case m q of (q', Inl e) \<Rightarrow> (q', Inl e) | (q', Inr x) \<Rightarrow> k x q')"

definition catching :: "('w, 'a) act \<Rightarrow> (thrown \<Rightarrow> ('w, 'a) act) \<Rightarrow> ('w, 'a) act" where
  "catching m handler = (\<lambda>q. case m q of (q', Inl e) \<Rightarrow> handler e q' | (q', Inr x) \<Rightarrow> (q', Inr x))"

definition changing :: "('w queue \<Rightarrow> 'w queue) \<Rightarrow> ('w, unit) act" where
  "changing f = (\<lambda>q. (f q, Inr ()))"

fun each :: "('a \<Rightarrow> ('w, unit) act) \<Rightarrow> 'a list \<Rightarrow> ('w, unit) act" where
  "each f [] = give ()"
| "each f (x # xs) = andthen (f x) (\<lambda>_. each f xs)"

fun job_error_text :: "job_error_code \<Rightarrow> string" where
  "job_error_text JOB_NOT_FOUND = ''WTM_JOB_NOT_FOUND''"
| "job_error_text JOB_QUEUE_FULL = ''WTM_JOB_QUEUE_FULL''"
| "job_error_text JOB_IDEMPOTENCY_CONFLICT = ''WTM_JOB_IDEMPOTENCY_CONFLICT''"
| "job_error_text JOB_NOT_QUEUEABLE = ''WTM_JOB_NOT_QUEUEABLE''"
| "job_error_text JOB_NOT_COMPLETE = ''WTM_JOB_NOT_COMPLETE''"
| "job_error_text JOB_UNSUCCESSFUL = ''WTM_JOB_UNSUCCESSFUL''"
| "job_error_text JOB_SOURCE_CHANGED = ''WTM_JOB_SOURCE_CHANGED''"
| "job_error_text OPERATION_CONFLICT = ''WTM_OPERATION_CONFLICT''"
| "job_error_text JOB_MEMORY_ESTIMATE_REQUIRED = ''WTM_JOB_MEMORY_ESTIMATE_REQUIRED''"
| "job_error_text JOB_MEMORY_BUDGET_EXCEEDED = ''WTM_JOB_MEMORY_BUDGET_EXCEEDED''"

definition coded :: "string \<Rightarrow> thrown" where
  "coded c = \<lparr> th_code = c, th_reason = None, th_spawn_outcome = None, th_anchor_pid = None \<rparr>"

text \<open>Messages of the other store errors are prose, which is no code: it reads as the empty text does.\<close>

fun thrown_of :: "store_error \<Rightarrow> thrown" where
  "thrown_of (Heavy_Job_Error c) = coded (job_error_text c)"
| "thrown_of _ = coded ''''"

text \<open>One call of a store operation.\<close>

definition in_store :: "(db \<Rightarrow> store_error + (db \<times> 'a)) \<Rightarrow> ('w, 'a) act" where
  "in_store f = (\<lambda>q. case f (jq_db q) of
     Inl e \<Rightarrow> (q, Inl (thrown_of e)) | Inr (s, x) \<Rightarrow> (q\<lparr>jq_db := s\<rparr>, Inr x))"

text \<open>\<open>/^[A-Z][A-Z0-9_]{0,63}$/\<close>\<close>

definition is_upper :: "char \<Rightarrow> bool" where
  "is_upper c \<longleftrightarrow> 65 \<le> (of_char c :: nat) \<and> (of_char c :: nat) \<le> 90"

definition error_code :: "thrown \<Rightarrow> string" where
  "error_code e =
    (if th_code e \<noteq> [] \<and> is_upper (hd (th_code e)) \<and> length (th_code e) \<le> 64
        \<and> list_all (\<lambda>c. is_upper c \<or> is_digit c \<or> c = CHR ''_'') (tl (th_code e))
     then th_code e else ''JOB_OPERATION_FAILED'')"

section \<open>The collaborators\<close>

record start_input =
  si_worktree_id :: ident
  si_task_name :: string
  si_argv :: "string list"
  si_cwd :: string
  si_shell :: bool
  si_env :: "(string \<times> string option) list"
  si_log_rotation_bytes :: nat
  si_log_retained_files :: nat
  si_deadline_at :: "int option"

text \<open>What a command fingerprint is the SHA-256 digest of (of its JSON text).\<close>

record command_inputs =
  cm_argv :: "string list"
  cm_cwd :: string
  cm_shell :: bool
  cm_env :: "(string \<times> string) list"
  cm_timeout_ms :: jsnum
  cm_memory_estimate :: "jsnum option"

text \<open>
  Each awaited call answers from the queue as it is then and gives back the queue as it is when the
  call settles: whatever ran in between is part of the answer. \<open>qo_digest\<close> is the digest and
  \<open>qo_env_order\<close> the sort by \<open>localeCompare\<close>.
\<close>

record 'w queue_options =
  qo_scope :: string
  qo_max_concurrent :: jsnum
  qo_memory :: "(jsnum \<times> jsnum) option"
  qo_now :: "'w queue \<Rightarrow> time"
  qo_new_id :: "'w queue \<Rightarrow> ident"
  qo_read_memory :: "'w queue \<Rightarrow> (jsnum option \<times> jsnum option) option"
  qo_resolve_task :: "string \<Rightarrow> string \<Rightarrow> ('w, resolved_job) act"
  qo_snapshot :: "string \<Rightarrow> ('w, string) act"
  qo_inspect_group :: "int \<Rightarrow> ('w, group_status) act"
  qo_start :: "start_input \<Rightarrow> (ident \<Rightarrow> ('w, unit) act) \<Rightarrow> (jsnum \<Rightarrow> ('w, unit) act) \<Rightarrow> ('w, unit) act"
  qo_stop_record :: "process_row \<Rightarrow> ('w, unit) act"
  qo_confirm_stopped :: "process_row \<Rightarrow> ('w, unit) act"
  qo_read_completion :: "string \<Rightarrow> int \<Rightarrow> ('w, completion option) act"
  qo_remove_job :: "ident \<Rightarrow> ident \<Rightarrow> ('w, unit) act"
  qo_digest :: "command_inputs \<Rightarrow> string"
  qo_env_order :: "(string \<times> string) list \<Rightarrow> (string \<times> string) list"

definition valid_queue_options :: "'w queue_options \<Rightarrow> bool" where
  "valid_queue_options opts \<longleftrightarrow> safe_positive (qo_max_concurrent opts) \<and>
    (case qo_memory opts of None \<Rightarrow> True | Some (budget, reserve) \<Rightarrow>
       is_safe_integer budget \<and> 1 \<le> whole budget \<and> whole budget \<le> 1099511627776 \<and>
       is_safe_integer reserve \<and> 0 \<le> whole reserve \<and> whole reserve \<le> 1099511627776)"

section \<open>Memory\<close>

definition sanitized_bytes :: "jsnum option \<Rightarrow> jsnum option" where
  "sanitized_bytes v = (if valid_bytes v then v else None)"

text \<open>The host readers of \<open>readHostJobMemory\<close>; \<open>None\<close> where a reader throws. A total of zero is no total.\<close>

definition read_host_job_memory :: "jsnum option \<Rightarrow> jsnum option \<Rightarrow> jsnum option \<Rightarrow> jsnum option \<times> jsnum option" where
  "read_host_job_memory available physical_total constrained =
    (let physical = sanitized_bytes physical_total; bound = sanitized_bytes constrained
     in (sanitized_bytes available,
         if bytes physical > 0 then
           (if bytes bound > 0 then Some (Whole (min (bytes physical) (bytes bound))) else physical)
         else None))"

definition queue_memory :: "'w queue_options \<Rightarrow> 'w queue \<Rightarrow> memory_admission option" where
  "queue_memory opts q = (case qo_memory opts of
     None \<Rightarrow> None
   | Some (budget, reserve) \<Rightarrow>
       (let (available, host_total) = (case qo_read_memory opts q of
              None \<Rightarrow> (None, None) | Some (a, t) \<Rightarrow> (sanitized_bytes a, sanitized_bytes t))
        in Some \<lparr> ma_budget_bytes = budget, ma_reserve_bytes = reserve,
                  ma_available_bytes = available, ma_total_bytes = host_total \<rparr>))"

section \<open>Helpers\<close>

definition command_inputs_of :: "'w queue_options \<Rightarrow> resolved_job \<Rightarrow> command_inputs" where
  "command_inputs_of opts task = \<lparr> cm_argv = rj_argv task, cm_cwd = rj_cwd task, cm_shell = rj_shell task,
     cm_env = qo_env_order opts (map (\<lambda>(k, v). (k, the v)) (filter (\<lambda>(k, v). v \<noteq> None) (rj_env task))),
     cm_timeout_ms = rj_timeout_ms task, cm_memory_estimate = rj_memory_estimate task \<rparr>"

definition command_fingerprint :: "'w queue_options \<Rightarrow> resolved_job \<Rightarrow> string" where
  "command_fingerprint opts task = qo_digest opts (command_inputs_of opts task)"

definition job_task_name :: "ident \<Rightarrow> string" where
  "job_task_name job_id = ''job-'' @ job_id"

text \<open>\<open>supervisor.list(worktreeId).find(...)\<close>; the supervisor lists the store's processes.\<close>

definition process_of :: "db \<Rightarrow> heavy_job \<Rightarrow> process_row option" where
  "process_of s job = find (\<lambda>r. hj_process_id job = Some (mp_id r) \<or>
       hj_process_id job = None \<and> mp_task_name r = job_task_name (hj_id job))
     (list_managed_processes s \<lparr> pq_worktree_id = Some (hj_worktree_id job), pq_task_name = None, pq_states = None \<rparr>)"

text \<open>\<open>get\<close>: a job of this scope, or \<open>WTM_JOB_NOT_FOUND\<close>.\<close>

definition queue_get :: "'w queue_options \<Rightarrow> ident \<Rightarrow> ('w, heavy_job) act" where
  "queue_get opts job_id = (\<lambda>q. case get_job (jq_db q) job_id (qo_scope opts) of
     None \<Rightarrow> (q, Inl (coded (job_error_text JOB_NOT_FOUND))) | Some job \<Rightarrow> (q, Inr job))"

definition cancel_with :: "'w queue_options \<Rightarrow> ident \<Rightarrow> stop_reason \<Rightarrow> ('w, heavy_job) act" where
  "cancel_with opts job_id reason = (\<lambda>q. in_store (\<lambda>s. request_cancellation s job_id (qo_scope opts) reason (qo_now opts q)) q)"

definition note_error :: "ident \<Rightarrow> string \<Rightarrow> ('w, unit) act" where
  "note_error job_id code = in_store (\<lambda>s. Inr (set_job_error s job_id code, ()))"

text \<open>A pending timer gives way only to a strictly shorter delay.\<close>

definition schedule :: "nat \<Rightarrow> 'w queue \<Rightarrow> 'w queue" where
  "schedule delay q =
    (if jq_closed q \<or> \<not> jq_started q then q
     else if jq_timer q \<and> delay \<ge> jq_timer_delay q then q
     else q\<lparr>jq_timer := True, jq_timer_delay := delay\<rparr>)"

definition idle_prune_interval_ms :: nat where
  "idle_prune_interval_ms = 60 * 60 * 1000"

section \<open>Finishing\<close>

definition source_validity_of :: "'w queue_options \<Rightarrow> heavy_job \<Rightarrow> ('w, source_validity) act" where
  "source_validity_of opts job = catching
    (andthen (qo_snapshot opts (hj_worktree_path job)) (\<lambda>current.
      if current \<noteq> hj_source_fingerprint job \<or> hj_source_validity job = Source_Changed then give Source_Changed
      else andthen (qo_resolve_task opts (hj_worktree_path job) (hj_task_name job)) (\<lambda>task.
        give (if command_fingerprint opts task = hj_command_fingerprint job then Source_Unchanged else Source_Changed))))
    (\<lambda>_. give Source_Unknown)"

definition forget_job :: "ident \<Rightarrow> 'w queue \<Rightarrow> 'w queue" where
  "forget_job job_id q = q\<lparr>jq_recovering := jq_recovering q - {job_id}, jq_exits := (jq_exits q)(job_id := None),
     jq_stop_attempts := (jq_stop_attempts q)(job_id := None)\<rparr>"

definition finish ::
  "'w queue_options \<Rightarrow> heavy_job \<Rightarrow> job_state \<Rightarrow> int option \<Rightarrow> string option \<Rightarrow> string option \<Rightarrow> ('w, unit) act" where
  "finish opts job state exit_code signal err =
    andthen (source_validity_of opts job) (\<lambda>validity q.
      andthen (in_store (\<lambda>s. finish_job s (hj_id job)
          \<lparr> jf_state = state, jf_exit_code = exit_code, jf_signal = signal, jf_error = err,
            jf_source_validity = validity, jf_now = qo_now opts q \<rparr>))
        (\<lambda>_. changing (forget_job (hj_id job))) q)"

section \<open>Launching\<close>

definition start_deadline :: "heavy_job \<Rightarrow> int option" where
  "start_deadline job = map_option (\<lambda>t. int t + hj_timeout_ms job) (hj_started_at job)"

definition past_deadline :: "heavy_job \<Rightarrow> time \<Rightarrow> bool" where
  "past_deadline job at = (case start_deadline job of None \<Rightarrow> False | Some d \<Rightarrow> int at \<ge> d)"

text \<open>Everything before the spawn; \<open>None\<close> when the job was finished without one.\<close>

definition prepare_launch :: "'w queue_options \<Rightarrow> heavy_job \<Rightarrow> ('w, resolved_job option) act" where
  "prepare_launch opts job =
    andthen (qo_resolve_task opts (hj_worktree_path job) (hj_task_name job)) (\<lambda>task.
    if rj_worktree_id task \<noteq> hj_worktree_id job \<or> rj_repository_id task \<noteq> hj_repository_id job
      \<or> rj_worktree_path task \<noteq> hj_worktree_path job \<or> command_fingerprint opts task \<noteq> hj_command_fingerprint job
    then throw (coded (job_error_text JOB_SOURCE_CHANGED))
    else andthen (qo_snapshot opts (hj_worktree_path job)) (\<lambda>source.
    if source \<noteq> hj_source_fingerprint job then throw (coded (job_error_text JOB_SOURCE_CHANGED))
    else (\<lambda>q. if past_deadline job (qo_now opts q)
      then andthen (cancel_with opts (hj_id job) Stop_Timed_Out) (\<lambda>_.
           andthen (finish opts job J_TIMED_OUT None None (Some ''TIMEOUT_BEFORE_START'')) (\<lambda>_. give None)) q
      else andthen (queue_get opts (hj_id job)) (\<lambda>current.
        if jq_closed q \<or> hj_stop_reason current \<noteq> None
        then andthen (finish opts job (case hj_stop_reason current of Some r \<Rightarrow> stop_state r | None \<Rightarrow> J_INTERRUPTED)
               None None (Some ''CANCELLED_BEFORE_START'')) (\<lambda>_. give None)
        else give (Some task)) q)))"

definition on_recorded :: "ident \<Rightarrow> ident \<Rightarrow> ('w, unit) act" where
  "on_recorded job_id process_id = andthen (in_store (\<lambda>s. Inr (bind_process s job_id process_id)))
     (\<lambda>bound. if bound then give () else throw (coded ''JOB_PROCESS_BIND_FAILED''))"

definition on_spawned :: "ident \<Rightarrow> jsnum \<Rightarrow> ('w, unit) act" where
  "on_spawned job_id pid = andthen (in_store (\<lambda>s. bind_anchor s job_id pid))
     (\<lambda>bound. if bound then give () else throw (coded ''JOB_ANCHOR_BIND_FAILED''))"

definition start_job :: "'w queue_options \<Rightarrow> heavy_job \<Rightarrow> resolved_job \<Rightarrow> ('w, unit) act" where
  "start_job opts job task = qo_start opts
     \<lparr> si_worktree_id = hj_worktree_id job, si_task_name = job_task_name (hj_id job), si_argv = rj_argv task,
       si_cwd = rj_cwd task, si_shell = rj_shell task, si_env = rj_env task, si_log_rotation_bytes = 1024 * 1024,
       si_log_retained_files = 1, si_deadline_at = start_deadline job \<rparr>
     (on_recorded (hj_id job)) (on_spawned (hj_id job))"

text \<open>The handler of a failed launch: a start that may own a process keeps its slot.\<close>

definition launch_failed :: "'w queue_options \<Rightarrow> heavy_job \<Rightarrow> bool \<Rightarrow> thrown \<Rightarrow> ('w, unit) act" where
  "launch_failed opts job attempted_spawn e =
    andthen (case (th_reason e = Some ''UNCONFIRMED_ANCHOR_CLEANUP'', th_anchor_pid e) of
        (True, Some pid) \<Rightarrow> andthen (in_store (\<lambda>s. bind_anchor s (hj_id job) pid)) (\<lambda>_. give ())
      | _ \<Rightarrow> give ()) (\<lambda>_.
    andthen (queue_get opts (hj_id job)) (\<lambda>current q.
    let proved_no_process = th_spawn_outcome e \<in> {Some ''not-started'', Some ''cleaned''};
        timed_out = (th_reason e = Some ''ANCHOR_DEADLINE_EXPIRED'')
    in if process_of (jq_db q) current \<noteq> None \<or> hj_anchor_pid current \<noteq> None \<or> attempted_spawn \<and> \<not> proved_no_process
       then andthen (cancel_with opts (hj_id job) (if timed_out then Stop_Timed_Out else Stop_Interrupted)) (\<lambda>_.
         note_error (hj_id job)
           (if hj_anchor_pid current = None \<and> hj_process_id current = None \<and> attempted_spawn \<and> \<not> proved_no_process
            then ''SPAWN_OWNERSHIP_UNCONFIRMED'' else error_code e)) q
       else finish opts job (if timed_out then J_TIMED_OUT else J_INTERRUPTED) None None (Some (error_code e)) q))"

definition launch :: "'w queue_options \<Rightarrow> heavy_job \<Rightarrow> ('w, unit) act" where
  "launch opts job = (\<lambda>q. case prepare_launch opts job q of
     (q', Inl e) \<Rightarrow> launch_failed opts job False e q'
   | (q', Inr None) \<Rightarrow> (q', Inr ())
   | (q', Inr (Some task)) \<Rightarrow> catching (start_job opts job task) (launch_failed opts job True) q')"

section \<open>Reconciling a held job with its processes\<close>

text \<open>No process record: the supervisor cannot have let the task run before the record was bound.\<close>

definition reconcile_missing :: "'w queue_options \<Rightarrow> heavy_job \<Rightarrow> ('w, unit) act" where
  "reconcile_missing opts job =
    (if hj_error job = Some ''SPAWN_OWNERSHIP_UNCONFIRMED'' then give ()
     else andthen (case hj_anchor_pid job of None \<Rightarrow> give Group_Absent | Some pid \<Rightarrow> qo_inspect_group opts pid) (\<lambda>anchor.
       if anchor \<noteq> Group_Absent then note_error (hj_id job) ''UNCONFIRMED_ANCHOR_CLEANUP''
       else if hj_process_id job = None
       then finish opts job (case hj_stop_reason job of Some r \<Rightarrow> stop_state r | None \<Rightarrow> J_INTERRUPTED) None None
              (coalesce (hj_error job) (Some ''DAEMON_INTERRUPTED_BEFORE_LAUNCH''))
       else note_error (hj_id job) ''PROCESS_RECORD_MISSING''))"

text \<open>
  One reading of the completion marker: a marker replaces the evidence and clears the unreadable flag, no
  marker changes nothing, an unreadable one sets the flag and the job's error.
\<close>

definition read_evidence ::
  "'w queue_options \<Rightarrow> heavy_job \<Rightarrow> process_row \<Rightarrow> completion option \<times> bool \<Rightarrow> ('w, completion option \<times> bool) act" where
  "read_evidence opts job process known = catching
    (andthen (qo_read_completion opts (mp_stdout_path process) (mp_pid process)) (\<lambda>marker.
       give (case marker of None \<Rightarrow> known | Some c \<Rightarrow> (Some c, False))))
    (\<lambda>_. andthen (note_error (hj_id job) ''COMPLETION_UNREADABLE'') (\<lambda>_. give (fst known, True)))"

definition confirm_timed_out :: "'w queue_options \<Rightarrow> completion option \<Rightarrow> heavy_job \<Rightarrow> ('w, heavy_job) act" where
  "confirm_timed_out opts evidence job = (case evidence of
     None \<Rightarrow> give job
   | Some c \<Rightarrow> if cn_timed_out c then in_store (\<lambda>s. confirm_timeout s (hj_id job) (qo_scope opts)) else give job)"

definition completion_time :: "'w queue_options \<Rightarrow> 'w queue \<Rightarrow> completion option \<Rightarrow> observed_exit option \<Rightarrow> time" where
  "completion_time opts q evidence observed =
    (case evidence of Some c \<Rightarrow> cn_completed_at c
     | None \<Rightarrow> (case observed of Some x \<Rightarrow> (case ox_exited_at x of Some t \<Rightarrow> t | None \<Rightarrow> qo_now opts q) | None \<Rightarrow> qo_now opts q))"

text \<open>Stopping a group that is still there, at most once in five seconds, and looking again.\<close>

definition stop_group :: "'w queue_options \<Rightarrow> heavy_job \<Rightarrow> process_row \<Rightarrow> group_status \<Rightarrow> ('w, group_status) act" where
  "stop_group opts job process found = (\<lambda>q.
    if found \<noteq> Group_Absent \<and> hj_stop_reason job \<noteq> None \<and>
       (case jq_stop_attempts q (hj_id job) of None \<Rightarrow> True | Some last_attempt \<Rightarrow> int (qo_now opts q) - int last_attempt \<ge> 5000)
    then andthen (changing (\<lambda>q. q\<lparr>jq_stop_attempts := (jq_stop_attempts q)(hj_id job \<mapsto> qo_now opts q)\<rparr>)) (\<lambda>_.
         andthen (catching (qo_stop_record opts process) (\<lambda>_. note_error (hj_id job) ''PROCESS_CLEANUP_UNCONFIRMED'')) (\<lambda>_.
         qo_inspect_group opts (mp_pgid process))) q
    else give found q)"

text \<open>The verdict on a job whose group is gone: state, exit code, signal and error.\<close>

definition verdict ::
  "heavy_job \<Rightarrow> completion option \<Rightarrow> bool \<Rightarrow> observed_exit option \<Rightarrow> job_state \<times> int option \<times> string option \<times> string option" where
  "verdict job evidence unreadable observed =
    (let exit_code = (case evidence of Some c \<Rightarrow> cn_exit_code c | None \<Rightarrow> (case observed of Some x \<Rightarrow> ox_exit_code x | None \<Rightarrow> None));
         signal = (case evidence of Some c \<Rightarrow> cn_signal c | None \<Rightarrow> (case observed of Some x \<Rightarrow> ox_signal x | None \<Rightarrow> None));
         log_failed = (case evidence of Some c \<Rightarrow> cn_log_failed c | None \<Rightarrow> False);
         state = (case hj_stop_reason job of Some r \<Rightarrow> stop_state r | None \<Rightarrow>
            if unreadable then J_INTERRUPTED else if log_failed then J_FAILED
            else if exit_code = Some 0 \<and> signal = None then J_SUCCEEDED
            else if evidence \<noteq> None \<or> observed \<noteq> None then J_FAILED else J_INTERRUPTED);
         err = (case hj_stop_reason job of
            Some Stop_Cancelled \<Rightarrow> Some ''USER_CANCELLED''
          | Some Stop_Timed_Out \<Rightarrow> Some ''TIMEOUT''
          | Some Stop_Interrupted \<Rightarrow> coalesce (hj_error job) (Some ''DAEMON_INTERRUPTED'')
          | None \<Rightarrow> if unreadable then Some ''COMPLETION_UNREADABLE'' else if log_failed then Some ''LOG_WRITE_FAILED'' else None)
     in (state, exit_code, signal, err))"

text \<open>After the group was seen absent: the last evidence, then the immutable record.\<close>

definition settle :: "'w queue_options \<Rightarrow> heavy_job \<Rightarrow> process_row \<Rightarrow> completion option \<times> bool \<Rightarrow> ('w, unit) act" where
  "settle opts job process known =
    andthen (qo_confirm_stopped opts process) (\<lambda>_.
    andthen (read_evidence opts job process known) (\<lambda>(evidence, unreadable).
    andthen (confirm_timed_out opts evidence job) (\<lambda>job q.
    (case verdict job evidence unreadable (jq_exits q (hj_id job)) of (state, exit_code, signal, err) \<Rightarrow>
       finish opts job state exit_code signal err q))))"

text \<open>The stop requests the evidence calls for: a deadline that passed, a job found by a new daemon.\<close>

definition request_stops ::
  "'w queue_options \<Rightarrow> heavy_job \<Rightarrow> completion option \<Rightarrow> observed_exit option \<Rightarrow> ('w, heavy_job) act" where
  "request_stops opts job evidence observed =
    andthen (\<lambda>q. if hj_stop_reason job = None \<and> past_deadline job (completion_time opts q evidence observed)
             then cancel_with opts (hj_id job) Stop_Timed_Out q else give job q) (\<lambda>job q.
      if hj_stop_reason job = None \<and> hj_id job \<in> jq_recovering q \<and> evidence = None
      then cancel_with opts (hj_id job) Stop_Interrupted q else give job q)"

definition reconcile_process :: "'w queue_options \<Rightarrow> heavy_job \<Rightarrow> process_row \<Rightarrow> ('w, unit) act" where
  "reconcile_process opts job process =
    andthen (read_evidence opts job process (None, hj_error job = Some ''COMPLETION_UNREADABLE'')) (\<lambda>(evidence, unreadable).
    andthen (confirm_timed_out opts evidence job) (\<lambda>job q.
    let observed = jq_exits q (hj_id job) in
    andthen (request_stops opts job evidence observed) (\<lambda>job.
      if evidence = None \<and> observed = None \<and> hj_stop_reason job = None \<and> \<not> unreadable then give ()
      else andthen (qo_inspect_group opts (mp_pgid process)) (\<lambda>first_look.
        andthen (stop_group opts job process first_look) (\<lambda>status.
        if status \<noteq> Group_Absent
        then note_error (hj_id job) (if unreadable then ''COMPLETION_UNREADABLE''
               else if status = Group_Failed then ''PROCESS_INSPECTION_FAILED'' else ''PROCESS_TREE_STILL_RUNNING'')
        else settle opts job process (evidence, unreadable)))) q))"

definition reconcile :: "'w queue_options \<Rightarrow> ident \<Rightarrow> ('w, unit) act" where
  "reconcile opts job_id = andthen (queue_get opts job_id) (\<lambda>job q.
     case process_of (jq_db q) job of
       None \<Rightarrow> reconcile_missing opts job q
     | Some process \<Rightarrow>
         (if hj_process_id job = None
          then andthen (in_store (\<lambda>s. Inr (bind_process s (hj_id job) (mp_id process)))) (\<lambda>_.
               andthen (queue_get opts (hj_id job)) (\<lambda>job. reconcile_process opts job process)) q
          else reconcile_process opts job process q))"

section \<open>The operations of the queue\<close>

definition prune_one :: "'w queue_options \<Rightarrow> heavy_job \<Rightarrow> ('w, unit) act" where
  "prune_one opts job = (\<lambda>q.
    if (case process_of (jq_db q) job of None \<Rightarrow> False | Some p \<Rightarrow> live_process p) then give () q
    else catching (andthen (qo_remove_job opts (hj_worktree_id job) (hj_id job)) (\<lambda>_.
           andthen (in_store (\<lambda>s. delete_finished s (hj_id job))) (\<lambda>_. give ()))) (\<lambda>_. give ()) q)"

definition prune :: "'w queue_options \<Rightarrow> ('w, unit) act" where
  "prune opts = (\<lambda>q. each (prune_one opts) (prunable_jobs (jq_db q) (qo_scope opts) (qo_now opts q)) q)"

fun claim_and_launch :: "'w queue_options \<Rightarrow> nat \<Rightarrow> ('w, unit) act" where
  "claim_and_launch opts 0 = give ()"
| "claim_and_launch opts (Suc n) = (\<lambda>q.
    andthen (in_store (\<lambda>s. claim_job s (qo_scope opts) (qo_max_concurrent opts) (qo_now opts q) (queue_memory opts q)))
      (\<lambda>claimed. case claimed of None \<Rightarrow> give ()
        | Some job \<Rightarrow> andthen (launch opts job) (\<lambda>_. claim_and_launch opts n)) q)"

definition unless_closed :: "('w, unit) act \<Rightarrow> ('w, unit) act" where
  "unless_closed m = (\<lambda>q. if jq_closed q then give () q else m q)"

definition reschedule :: "'w queue_options \<Rightarrow> 'w queue \<Rightarrow> 'w queue" where
  "reschedule opts q =
    schedule (if active_jobs (jq_db q) (qo_scope opts) \<noteq> [] then 1000 else idle_prune_interval_ms) q"

definition flush_pass :: "'w queue_options \<Rightarrow> ('w, unit) act" where
  "flush_pass opts = unless_closed (\<lambda>q.
    andthen (each (reconcile opts) (map hj_id (filter hj_slot_held (active_jobs (jq_db q) (qo_scope opts))))) (\<lambda>_.
    andthen (unless_closed (claim_and_launch opts (nat (whole (qo_max_concurrent opts))))) (\<lambda>_.
    andthen (unless_closed (prune opts)) (\<lambda>_.
    unless_closed (changing (reschedule opts))))) q)"

text \<open>A failed pass is reported and tried again in a second; the caller sees the failure too.\<close>

definition flush :: "'w queue_options \<Rightarrow> ('w, unit) act" where
  "flush opts = (\<lambda>q. if jq_closed q \<or> \<not> jq_started q then (q, Inr ())
    else case flush_pass opts (q\<lparr>jq_timer := False\<rparr>) of
      (q', Inl e) \<Rightarrow> (schedule 1000 q', Inl e) | (q', Inr u) \<Rightarrow> (q', Inr u))"

definition start_queue :: "'w queue_options \<Rightarrow> ('w, unit) act" where
  "start_queue opts = (\<lambda>q. if jq_started q then (q, Inr ())
    else if jq_closed q then (q, Inl (coded ''''))
    else (schedule 0 (q\<lparr>jq_recovering := jq_recovering q \<union> set (map hj_id (filter hj_slot_held (active_jobs (jq_db q) (qo_scope opts)))),
            jq_started := True\<rparr>), Inr ()))"

definition close_queue :: "'w queue \<Rightarrow> 'w queue" where
  "close_queue q = q\<lparr>jq_closed := True, jq_timer := False, jq_exits := Map.empty, jq_recovering := {}, jq_stop_attempts := Map.empty\<rparr>"

definition admit :: "'w queue_options \<Rightarrow> string \<Rightarrow> string \<Rightarrow> string \<Rightarrow> ('w, heavy_job \<times> bool) act" where
  "admit opts cwd task_name key =
    andthen (qo_resolve_task opts cwd task_name) (\<lambda>task q.
    case (case queue_memory opts q of None \<Rightarrow> None | Some m \<Rightarrow> memory_estimate_error (rj_memory_estimate task) m) of
      Some e \<Rightarrow> throw (coded (job_error_text e)) q
    | None \<Rightarrow>
      andthen (qo_snapshot opts (rj_worktree_path task)) (\<lambda>source.
      andthen (prune opts) (\<lambda>_ q.
      andthen (in_store (\<lambda>s. enqueue_job s
         \<lparr> ji_scope = qo_scope opts, ji_workspace_id = rj_workspace_id task, ji_repository_id = rj_repository_id task,
           ji_worktree_id = rj_worktree_id task, ji_worktree_path = rj_worktree_path task, ji_task_name = task_name,
           ji_idempotency_key = key, ji_command_fingerprint = command_fingerprint opts task,
           ji_source_fingerprint = source, ji_timeout_ms = rj_timeout_ms task,
           ji_memory_estimate = rj_memory_estimate task, ji_now = qo_now opts q \<rparr> (qo_new_id opts q))) (\<lambda>result.
      andthen (changing (schedule 0)) (\<lambda>_. give result)) q)) q)"

definition enqueue :: "'w queue_options \<Rightarrow> string \<Rightarrow> string \<Rightarrow> string \<Rightarrow> ('w, heavy_job \<times> bool) act" where
  "enqueue opts cwd task_name key = (\<lambda>q.
    if jq_closed q then (q, Inl (coded ''''))
    else if jq_admissions q \<ge> 2 then (q, Inl (coded (job_error_text JOB_QUEUE_FULL)))
    else case admit opts cwd task_name key (q\<lparr>jq_admissions := jq_admissions q + 1\<rparr>) of
      (q', r) \<Rightarrow> (q'\<lparr>jq_admissions := jq_admissions q' - 1\<rparr>, r))"

definition cancel :: "'w queue_options \<Rightarrow> ident \<Rightarrow> ('w, heavy_job) act" where
  "cancel opts job_id = andthen (cancel_with opts job_id Stop_Cancelled) (\<lambda>_.
     andthen (flush opts) (\<lambda>_. queue_get opts job_id))"

definition record_exit :: "'w queue_options \<Rightarrow> process_row \<Rightarrow> observed_exit \<Rightarrow> 'w queue \<Rightarrow> 'w queue" where
  "record_exit opts process outcome q =
    (if \<not> starts_with ''job-'' (mp_task_name process) \<or> jq_closed q then q
     else let job_id = drop 4 (mp_task_name process) in
       case get_job (jq_db q) job_id (qo_scope opts) of
         None \<Rightarrow> q
       | Some job \<Rightarrow> if hj_process_id job \<noteq> Some (mp_id process) \<or> \<not> hj_slot_held job then q
           else schedule 0 (q\<lparr>jq_exits := (jq_exits q)(job_id \<mapsto> outcome)\<rparr>))"

section \<open>Answers\<close>

datatype job_answer = Answer_Not_Complete | Answer_Source_Changed | Answer_Unsuccessful | Answer_Successful

text \<open>The classification of \<open>jobs.result\<close>.\<close>

definition job_result :: "heavy_job \<Rightarrow> source_validity \<Rightarrow> job_answer" where
  "job_result job validity =
    (let terminal_job = (hj_state job \<noteq> J_QUEUED \<and> hj_state job \<noteq> J_RUNNING \<and> \<not> hj_slot_held job);
         successful = (terminal_job \<and> hj_state job = J_SUCCEEDED \<and> hj_stop_reason job = None
           \<and> hj_exit_code job = Some 0 \<and> hj_signal job = None \<and> validity = Source_Unchanged)
     in if \<not> terminal_job then Answer_Not_Complete
        else if validity \<noteq> Source_Unchanged then Answer_Source_Changed
        else if \<not> successful then Answer_Unsuccessful else Answer_Successful)"

definition public_waiting_reason :: "heavy_job \<Rightarrow> (ident \<times> waiting_reason) list \<Rightarrow> waiting_reason option" where
  "public_waiting_reason job waiting =
    (if hj_state job = J_QUEUED then Some (case map_of waiting (hj_id job) of Some r \<Rightarrow> r | None \<Rightarrow> Wait_Dispatch_Pending)
     else None)"

text \<open>\<open>text.split('\n').slice(-lines - \<dots>).join('\n')\<close>, for a positive number of lines.\<close>

definition tail_lines :: "string \<Rightarrow> nat \<Rightarrow> string" where
  "tail_lines text lines_wanted =
    (let parts = split_on newline text;
         keep = lines_wanted + (if ends_with [newline] text then 1 else 0)
     in join_with [newline] (drop (length parts - keep) parts))"

end
