(* ===== verification/Job_Queue_Properties.thy ===== *)
theory Job_Queue_Properties
  imports Job_Queue
begin

text \<open>
  What the scheduler promises whatever runs between its awaits: a slot is given up only on proof that the
  processes are gone, a success is recorded only with its evidence, and a started queue keeps waking.
  The effects have a small calculus, a locale over a preorder on queues, interpreted on the relation of
  each promise.
\<close>

section \<open>Effects related by a preorder\<close>

definition after ::
  "('w queue \<Rightarrow> 'w queue \<Rightarrow> bool) \<Rightarrow> ('a \<Rightarrow> 'w queue \<Rightarrow> bool) \<Rightarrow> 'w queue \<Rightarrow> 'w queue \<times> (thrown + 'a) \<Rightarrow> bool" where
  "after R Q q r \<longleftrightarrow> R q (fst r) \<and> (\<forall>x. snd r = Inr x \<longrightarrow> Q x (fst r))"

locale effects =
  fixes R :: "'w queue \<Rightarrow> 'w queue \<Rightarrow> bool"
  assumes refl [simp]: "R q q"
    and trans: "R q q' \<Longrightarrow> R q' q'' \<Longrightarrow> R q q''"
begin

lemma after_give [simp]: "after R Q q (give x q) \<longleftrightarrow> Q x q"
  by (simp add: after_def give_def)

lemma after_throw [simp]: "after R Q q (throw e q)"
  by (simp add: after_def throw_def)

lemma after_changing: "R q (f q) \<Longrightarrow> Q () (f q) \<Longrightarrow> after R Q q (changing f q)"
  by (simp add: after_def changing_def)

lemma after_andthen:
  assumes "after R P q (m q)" and "\<And>x q'. P x q' \<Longrightarrow> R q q' \<Longrightarrow> after R Q q' (k x q')"
  shows "after R Q q (andthen m k q)"
proof -
  obtain q' r where m: "m q = (q', r)" by force
  show ?thesis
  proof (cases r)
    case (Inl e)
    with m assms(1) show ?thesis by (simp add: after_def andthen_def)
  next
    case (Inr x)
    with m assms(1) have q': "R q q'" "P x q'" by (simp_all add: after_def)
    with assms(2) [OF q'(2,1)] trans m Inr show ?thesis by (auto simp: after_def andthen_def)
  qed
qed

lemma after_catching:
  assumes "after R Q q (m q)" and "\<And>e q'. R q q' \<Longrightarrow> after R Q q' (h e q')"
  shows "after R Q q (catching m h q)"
proof -
  obtain q' r where m: "m q = (q', r)" by force
  show ?thesis
  proof (cases r)
    case (Inl e)
    with m assms(1) have q': "R q q'" by (simp add: after_def)
    with assms(2) [OF q'] trans m Inl show ?thesis by (auto simp: after_def catching_def)
  next
    case (Inr x)
    with m assms(1) show ?thesis by (simp add: after_def catching_def)
  qed
qed

lemma after_weaken: "after R P q r \<Longrightarrow> (\<And>x q'. P x q' \<Longrightarrow> Q x q') \<Longrightarrow> after R Q q r"
  by (auto simp: after_def)

lemma after_any: "R q (fst r) \<Longrightarrow> after R (\<lambda>_ _. True) q r"
  by (simp add: after_def)

lemma after_run: "after R Q q r \<Longrightarrow> R q (fst r)"
  by (simp add: after_def)

lemma after_result: "after R Q q r \<Longrightarrow> r = (q', x) \<Longrightarrow> R q q'"
  by (simp add: after_def)

lemma after_each:
  "(\<And>x q. x \<in> set xs \<Longrightarrow> after R (\<lambda>_ _. True) q (f x q)) \<Longrightarrow> after R (\<lambda>_ _. True) q (each f xs q)"
proof (induction xs arbitrary: q)
  case Nil
  then show ?case by simp
next
  case (Cons x xs)
  then show ?case by (auto intro: after_andthen)
qed

end

section \<open>Successes have their evidence\<close>

definition earned_job :: "heavy_job \<Rightarrow> bool" where
  "earned_job j \<longleftrightarrow> (hj_state j = J_SUCCEEDED \<longrightarrow> hj_exit_code j = Some 0 \<and> hj_signal j = None \<and> hj_stop_reason j = None)"

definition earned :: "db \<Rightarrow> bool" where
  "earned s \<longleftrightarrow> (\<forall>j\<in>set (jobs s). earned_job j)"

lemma earned_upd: "(\<And>j. j \<in> set (jobs s) \<Longrightarrow> P j \<Longrightarrow> earned_job (f j)) \<Longrightarrow> earned s \<Longrightarrow> earned (upd_jobs P f s)"
  by (auto simp: earned_def set_upd_where)

lemma earned_cong: "jobs t = jobs s \<Longrightarrow> earned t = earned s"
  by (simp add: earned_def)

lemma held_not_succeeded: "job_table_ok s \<Longrightarrow> j \<in> set (jobs s) \<Longrightarrow> hj_slot_held j \<Longrightarrow> hj_state j = J_RUNNING"
  by (auto simp: job_table_ok_def wf_job_def)

lemma earned_bind_process: "bind_process s i p = (t, b) \<Longrightarrow> earned s \<Longrightarrow> earned t"
  unfolding bind_process_def Let_def by (auto intro!: earned_upd simp: earned_job_def)

lemma earned_bind_anchor: "bind_anchor s i pid = Inr (t, b) \<Longrightarrow> earned s \<Longrightarrow> earned t"
  unfolding bind_anchor_def Let_def by (auto intro!: earned_upd simp: earned_job_def split: if_splits)

lemma earned_set_error: "job_table_ok s \<Longrightarrow> earned s \<Longrightarrow> earned (set_job_error s i e)"
  unfolding set_job_error_def by (intro earned_upd) (auto simp: earned_job_def dest: held_not_succeeded)

lemma earned_delete: "delete_finished s i = Inr (t, b) \<Longrightarrow> job_table_ok s \<Longrightarrow> earned s \<Longrightarrow> earned t"
  using delete_finished_jobs(1) [of s i t b] by (auto simp: earned_def split: if_splits)

lemma stop_state_not_succeeded [simp]: "stop_state r \<noteq> J_SUCCEEDED"
  by (cases r) auto

lemma earned_cancellation:
  assumes "request_cancellation s i scope reason now = Inr (t, j)" and "job_table_ok s" and "earned s"
  shows "earned t"
proof -
  from assms(1) obtain job where job: "row_by hj_id i (jobs s) = Some job"
    by (auto simp: request_cancellation_def get_job_by_id_def split: option.splits)
  note in_table = row_by_SomeD [OF job]
  have only: "k = job" if "k \<in> set (jobs s)" "hj_id k = i" for k
    using that job assms(2) row_by_unique [of hj_id "jobs s" k] by (simp add: job_table_ok_def)
  have "earned (upd_jobs (\<lambda>j. hj_id j = i) (\<lambda>j. j\<lparr>hj_stop_reason := Some reason\<rparr>) s)" if "hj_slot_held job"
    using assms(3) only held_not_succeeded [OF assms(2) conjunct1 [OF in_table] that]
    by (intro earned_upd) (auto simp: earned_job_def)
  moreover have "earned (upd_jobs (\<lambda>j. hj_id j = i) (\<lambda>j. j\<lparr>hj_state := stop_state reason, hj_stop_reason := Some reason,
      hj_error := e, hj_finished_at := Some now\<rparr>) s)" for e
    using assms(3) by (intro earned_upd) (auto simp: earned_job_def)
  ultimately show ?thesis
    using assms(1,3) job unfolding request_cancellation_def get_job_by_id_def Let_def
    by (auto split: if_splits option.splits)
qed

lemma earned_timeout: "confirm_timeout s i scope = Inr (t, j) \<Longrightarrow> earned s \<Longrightarrow> earned t"
proof -
  assume t: "confirm_timeout s i scope = Inr (t, j)" and s: "earned s"
  have "earned (upd_jobs (\<lambda>j. hj_id j = i \<and> hj_scope j = scope \<and> hj_state j = J_RUNNING
      \<and> hj_slot_held j \<and> (hj_stop_reason j = None \<or> hj_stop_reason j = Some Stop_Interrupted))
      (\<lambda>j. j\<lparr>hj_stop_reason := Some Stop_Timed_Out\<rparr>) s)"
    using s by (intro earned_upd) (auto simp: earned_job_def)
  with t show ?thesis unfolding confirm_timeout_def Let_def by (auto split: sum.splits if_splits)
qed

lemma earned_fail_unfit: "earned s \<Longrightarrow> earned (snd (fail_unfit m now es s))"
proof (induction m now es s rule: fail_unfit.induct)
  case (1 m now s)
  then show ?case by simp
next
  case (2 m now e es s)
  have "earned (upd_jobs (\<lambda>j. hj_id j = se_job_id e \<and> hj_state j = J_QUEUED \<and> \<not> hj_slot_held j)
      (\<lambda>j. j\<lparr>hj_state := J_FAILED, hj_finished_at := Some now, hj_error := Some (memory_error_text err)\<rparr>) s)" for err
    using "2.prems" by (intro earned_upd) (auto simp: earned_job_def)
  with 2 show ?case by (auto split: option.splits prod.splits)
qed

lemma earned_claim:
  assumes "claim_job s scope m now memory = Inr (t, r)" and "earned s"
  shows "earned t"
proof -
  obtain es s1 where s1: "(case memory of None \<Rightarrow> (scheduling_snapshot s scope, s)
      | Some m \<Rightarrow> fail_unfit m now (scheduling_snapshot s scope) s) = (es, s1)" by force
  have e1: "earned s1"
  proof (cases memory)
    case None
    with s1 assms(2) show ?thesis by simp
  next
    case (Some m)
    with s1 earned_fail_unfit [OF assms(2), of m now "scheduling_snapshot s scope"] show ?thesis by simp
  qed
  have "earned (upd_jobs P (\<lambda>j. j\<lparr>hj_state := J_INTERRUPTED, hj_finished_at := Some now, hj_error := e\<rparr>) s1)"
    and "earned (upd_jobs P (\<lambda>j. j\<lparr>hj_state := J_RUNNING, hj_slot_held := True, hj_started_at := Some now\<rparr>) s1)" for P e
    using e1 by (intro earned_upd; simp add: earned_job_def)+
  with assms(1) e1 show ?thesis
    unfolding claim_job_def s1 Let_def by (auto split: if_splits sum.splits list.splits)
qed

lemma earned_enqueue: "enqueue_job s i new_id = Inr (t, j, reused) \<Longrightarrow> earned s \<Longrightarrow> earned t"
  by (erule enqueue_job_cases) (auto simp: earned_def earned_job_def)

lemma earned_finish:
  assumes "finish_job s i f = Inr (t, j)" and "job_table_ok s" and "earned s"
    and "jf_state f = J_SUCCEEDED \<longrightarrow> jf_exit_code f = Some 0 \<and> jf_signal f = None"
  shows "earned t"
proof -
  from assms(1) obtain job where job: "row_by hj_id i (jobs s) = Some job"
    by (auto simp: finish_job_def get_job_by_id_def split: option.splits)
  have only: "k = job" if "k \<in> set (jobs s)" "hj_id k = i" for k
    using that job assms(2) row_by_unique [of hj_id "jobs s" k] by (simp add: job_table_ok_def)
  have "earned (upd_jobs (\<lambda>j. hj_id j = i \<and> pending j)
      (\<lambda>j. j\<lparr>hj_state := case hj_stop_reason job of Some r \<Rightarrow> stop_state r | None \<Rightarrow> jf_state f, hj_slot_held := False,
        hj_finished_at := Some (jf_now f), hj_exit_code := jf_exit_code f, hj_signal := jf_signal f,
        hj_error := finish_error job f, hj_source_validity := jf_source_validity f\<rparr>) s)"
    using assms(3,4) by (intro earned_upd) (auto dest: only simp: earned_job_def split: option.splits)
  with assms(1,3) job show ?thesis
    unfolding finish_job_def get_job_by_id_def Let_def by (auto split: if_splits option.splits)
qed

lemma verdict_earned:
  "verdict job evidence unreadable observed = (J_SUCCEEDED, exit_code, signal, err) \<Longrightarrow> exit_code = Some 0 \<and> signal = None"
  by (auto simp: verdict_def Let_def split: option.splits if_splits)

lemma verdict_terminal: "terminal (fst (verdict job evidence unreadable observed))"
  by (simp add: verdict_def Let_def split: option.splits)

section \<open>A relation kept by every operation\<close>

text \<open>
  The steps of the store a queue takes: those of the durable queue, with a success only for a zero exit
  code and no signal.
\<close>

definition sound_step :: "jsnum \<Rightarrow> db \<Rightarrow> db \<Rightarrow> bool" where
  "sound_step m s t \<longleftrightarrow> job_step m (\<lambda>_. True) s t \<and> (job_table_ok s \<longrightarrow> earned s \<longrightarrow> earned t)"

lemma sound_stepI: "job_step m (\<lambda>_. True) s t \<Longrightarrow> (job_table_ok s \<Longrightarrow> earned s \<Longrightarrow> earned t) \<Longrightarrow> sound_step m s t"
  by (simp add: sound_step_def)

lemma sound_bind_process: "bind_process s i p = (t, b) \<Longrightarrow> sound_step m s t"
  by (rule sound_stepI) (blast intro: job_step.Bind_Process earned_bind_process)+

lemma sound_bind_anchor: "bind_anchor s i pid = Inr (t, b) \<Longrightarrow> sound_step m s t"
  by (rule sound_stepI) (blast intro: job_step.Bind_Anchor earned_bind_anchor)+

lemma sound_cancel: "request_cancellation s i scope reason now = Inr (t, j) \<Longrightarrow> sound_step m s t"
  by (rule sound_stepI) (blast intro: job_step.Cancel earned_cancellation)+

lemma sound_timeout: "confirm_timeout s i scope = Inr (t, j) \<Longrightarrow> sound_step m s t"
  by (rule sound_stepI) (blast intro: job_step.Timeout earned_timeout)+

lemma sound_set_error: "sound_step m s (set_job_error s i e)"
  by (rule sound_stepI) (blast intro: job_step.Set_Error earned_set_error)+

lemma sound_delete: "delete_finished s i = Inr (t, b) \<Longrightarrow> sound_step m s t"
  by (rule sound_stepI) (blast intro: job_step.Delete earned_delete)+

lemma sound_claim: "claim_job s scope m now memory = Inr (t, r) \<Longrightarrow> sound_step m s t"
  by (rule sound_stepI) (blast intro: job_step.Claim earned_claim)+

lemma sound_enqueue: "enqueue_job s i new_id = Inr (t, x) \<Longrightarrow> sound_step m s t"
  by (cases x, rule sound_stepI) (blast intro: job_step.Enqueue earned_enqueue)+

lemma sound_finish:
  "finish_job s i f = Inr (t, j) \<Longrightarrow> terminal (jf_state f) \<Longrightarrow>
   (jf_state f = J_SUCCEEDED \<Longrightarrow> jf_exit_code f = Some 0 \<and> jf_signal f = None) \<Longrightarrow> sound_step m s t"
  by (rule sound_stepI) (blast intro: job_step.Finish earned_finish)+

lemmas sound_steps = sound_bind_process sound_bind_anchor sound_cancel sound_timeout sound_delete sound_claim sound_enqueue

text \<open>What the awaited calls may do meanwhile: whatever the relation allows.\<close>

definition calls_respect :: "('w queue \<Rightarrow> 'w queue \<Rightarrow> bool) \<Rightarrow> 'w queue_options \<Rightarrow> bool" where
  "calls_respect R opts \<longleftrightarrow>
    (\<forall>cwd name q. R q (fst (qo_resolve_task opts cwd name q))) \<and>
    (\<forall>root q. R q (fst (qo_snapshot opts root q))) \<and>
    (\<forall>pgid q. R q (fst (qo_inspect_group opts pgid q))) \<and>
    (\<forall>p q. R q (fst (qo_stop_record opts p q))) \<and>
    (\<forall>p q. R q (fst (qo_confirm_stopped opts p q))) \<and>
    (\<forall>path pid q. R q (fst (qo_read_completion opts path pid q))) \<and>
    (\<forall>w i q. R q (fst (qo_remove_job opts w i q))) \<and>
    (\<forall>inp recorded spawned q. (\<forall>p q. R q (fst (recorded p q))) \<longrightarrow> (\<forall>p q. R q (fst (spawned p q))) \<longrightarrow>
       R q (fst (qo_start opts inp recorded spawned q)))"

lemma calls_respectD:
  assumes "calls_respect R opts"
  shows "R q (fst (qo_resolve_task opts cwd name q))" and "R q (fst (qo_snapshot opts root q))"
    and "R q (fst (qo_inspect_group opts pgid q))" and "R q (fst (qo_stop_record opts p q))"
    and "R q (fst (qo_confirm_stopped opts p q))" and "R q (fst (qo_read_completion opts path pid q))"
    and "R q (fst (qo_remove_job opts w i q))"
    and "(\<And>p q. R q (fst (recorded p q))) \<Longrightarrow> (\<And>p q. R q (fst (spawned p q))) \<Longrightarrow> R q (fst (qo_start opts inp recorded spawned q))"
  using assms by (simp_all add: calls_respect_def)

locale queue_relation = effects +
  fixes m :: jsnum
  assumes stored: "sound_step m (jq_db q) s \<Longrightarrow> R q (q\<lparr>jq_db := s\<rparr>)"
    and kept: "jq_db q' = jq_db q \<Longrightarrow> jq_world q' = jq_world q \<Longrightarrow> (jq_started q \<longrightarrow> jq_started q') \<Longrightarrow> R q q'"
begin

lemma call: "R q (fst r) \<Longrightarrow> after R (\<lambda>_ _. True) q r"
  by (rule after_any)

lemma in_store_fine:
  "(\<And>s x. f (jq_db q) = Inr (s, x) \<Longrightarrow> sound_step m (jq_db q) s) \<Longrightarrow> after R (\<lambda>_ _. True) q (in_store f q)"
  by (auto simp: after_def in_store_def stored split: sum.splits)

lemma changing_fine:
  "jq_db (f q) = jq_db q \<Longrightarrow> jq_world (f q) = jq_world q \<Longrightarrow> (jq_started q \<longrightarrow> jq_started (f q)) \<Longrightarrow>
   after R (\<lambda>_ _. True) q (changing f q)"
  by (auto intro: after_changing kept)

lemma schedule_kept [simp]:
  "jq_db (schedule d q) = jq_db q" "jq_world (schedule d q) = jq_world q" "jq_started (schedule d q) = jq_started q"
  by (simp_all add: schedule_def)

lemma queue_get_fine: "after R (\<lambda>_ _. True) q (queue_get opts i q)"
  by (simp add: after_def queue_get_def split: option.splits)

lemma cancel_with_fine: "after R (\<lambda>_ _. True) q (cancel_with opts i reason q)"
  unfolding cancel_with_def by (rule in_store_fine) (blast intro: sound_cancel)

lemma note_error_fine: "after R (\<lambda>_ _. True) q (note_error i code q)"
  unfolding note_error_def by (rule in_store_fine) (auto intro: sound_set_error)

lemma on_recorded_fine: "after R (\<lambda>_ _. True) q (on_recorded i p q)"
  unfolding on_recorded_def
  by (rule after_andthen [OF in_store_fine]) (auto intro: sound_bind_process)

lemma on_spawned_fine: "after R (\<lambda>_ _. True) q (on_spawned i pid q)"
  unfolding on_spawned_def
  by (rule after_andthen [OF in_store_fine]) (auto intro: sound_bind_anchor)

lemma source_validity_fine:
  assumes "calls_respect R opts"
  shows "after R (\<lambda>_ _. True) q (source_validity_of opts job q)"
  unfolding source_validity_of_def
  by (intro after_catching after_andthen [OF call [OF calls_respectD(2) [OF assms]]])
    (auto intro!: after_andthen [OF call [OF calls_respectD(1) [OF assms]]])

lemma finish_fine:
  assumes "calls_respect R opts" and "terminal state" and "state = J_SUCCEEDED \<Longrightarrow> exit_code = Some 0 \<and> signal = None"
  shows "after R (\<lambda>_ _. True) q (finish opts job state exit_code signal err q)"
  unfolding finish_def
proof (rule after_andthen [OF source_validity_fine [OF assms(1)]])
  fix v q'
  show "after R (\<lambda>_ _. True) q' (andthen (in_store (\<lambda>s. finish_job s (hj_id job) \<lparr>jf_state = state, jf_exit_code = exit_code,
      jf_signal = signal, jf_error = err, jf_source_validity = v, jf_now = qo_now opts q'\<rparr>))
      (\<lambda>_. changing (forget_job (hj_id job))) q')"
    by (rule after_andthen [OF in_store_fine]) (auto intro!: changing_fine sound_finish simp: assms forget_job_def)
qed

lemma prepare_launch_fine:
  assumes "calls_respect R opts"
  shows "after R (\<lambda>_ _. True) q (prepare_launch opts job q)"
  unfolding prepare_launch_def
  by (rule after_andthen [OF call [OF calls_respectD(1) [OF assms]]])
    (auto intro!: after_andthen [OF call [OF calls_respectD(2) [OF assms]]] after_andthen [OF cancel_with_fine]
      after_andthen [OF finish_fine [OF assms]] after_andthen [OF queue_get_fine] split: option.splits)

lemma launch_failed_fine:
  assumes "calls_respect R opts"
  shows "after R (\<lambda>_ _. True) q (launch_failed opts job attempted e q)"
proof -
  have "after R (\<lambda>_ _. True) q ((case (th_reason e = Some ''UNCONFIRMED_ANCHOR_CLEANUP'', th_anchor_pid e) of
        (True, Some pid) \<Rightarrow> andthen (in_store (\<lambda>s. bind_anchor s (hj_id job) pid)) (\<lambda>_. give ())
      | _ \<Rightarrow> give ()) q)" for q
    by (auto intro!: after_andthen [OF in_store_fine] intro: sound_bind_anchor split: option.splits bool.splits)
  then show ?thesis unfolding launch_failed_def Let_def
    by (rule after_andthen)
      (auto intro!: after_andthen [OF queue_get_fine] after_andthen [OF cancel_with_fine] note_error_fine finish_fine [OF assms])
qed

lemma launch_fine:
  assumes "calls_respect R opts"
  shows "after R (\<lambda>_ _. True) q (launch opts job q)"
proof -
  have start: "after R (\<lambda>_ _. True) q (start_job opts job task q)" for task q
    unfolding start_job_def
    by (intro call calls_respectD(8) [OF assms]) (blast intro: after_run [OF on_recorded_fine] after_run [OF on_spawned_fine])+
  obtain q' r where prep: "prepare_launch opts job q = (q', r)" by force
  from prepare_launch_fine [OF assms, of q job] prep have q': "R q q'" by (simp add: after_def)
  have "R q' (fst (launch_failed opts job False e q'))" for e by (rule after_run [OF launch_failed_fine [OF assms]])
  moreover have "R q' (fst (catching (start_job opts job task) (launch_failed opts job True) q'))" for task
    by (rule after_run [OF after_catching [OF start launch_failed_fine [OF assms]]])
  ultimately show ?thesis using q' trans prep unfolding launch_def
    by (intro after_any) (auto split: sum.splits option.splits)
qed

lemma read_evidence_fine:
  assumes "calls_respect R opts"
  shows "after R (\<lambda>_ _. True) q (read_evidence opts job process known q)"
  unfolding read_evidence_def
  by (rule after_catching [OF after_andthen [OF call [OF calls_respectD(6) [OF assms]]]])
    (auto intro: after_andthen [OF note_error_fine])

lemma confirm_timed_out_fine: "after R (\<lambda>_ _. True) q (confirm_timed_out opts evidence job q)"
  unfolding confirm_timed_out_def
  by (auto split: option.splits intro!: in_store_fine intro: sound_timeout)

lemma request_stops_fine: "after R (\<lambda>_ _. True) q (request_stops opts job evidence observed q)"
  unfolding request_stops_def
  by (rule after_andthen [where P = "\<lambda>_ _. True"]) (auto intro: cancel_with_fine)

lemma stop_group_fine:
  assumes "calls_respect R opts"
  shows "after R (\<lambda>_ _. True) q (stop_group opts job process found q)"
proof -
  have "after R (\<lambda>_ _. True) q (andthen (changing f) (\<lambda>_. andthen (catching (qo_stop_record opts process)
      (\<lambda>_. note_error (hj_id job) ''PROCESS_CLEANUP_UNCONFIRMED'')) (\<lambda>_. qo_inspect_group opts (mp_pgid process))) q)"
    if "\<And>q. jq_db (f q) = jq_db q \<and> jq_world (f q) = jq_world q \<and> jq_started (f q) = jq_started q" for f
    by (intro after_andthen [OF changing_fine] after_andthen [OF after_catching [OF call [OF calls_respectD(4) [OF assms]] note_error_fine]]
        call [OF calls_respectD(3) [OF assms]]) (simp_all add: that)
  then show ?thesis unfolding stop_group_def by simp
qed

lemma settle_fine:
  assumes "calls_respect R opts"
  shows "after R (\<lambda>_ _. True) q (settle opts job process known q)"
proof -
  have "after R (\<lambda>_ _. True) q (case verdict job evidence unreadable observed of
      (state, exit_code, signal, err) \<Rightarrow> finish opts job state exit_code signal err q)" for job evidence unreadable observed q
  proof -
    obtain state exit_code signal err where v: "verdict job evidence unreadable observed = (state, exit_code, signal, err)"
      using prod_cases4 by blast
    with verdict_terminal [of job evidence unreadable observed] have "terminal state" by simp
    moreover have "exit_code = Some 0 \<and> signal = None" if "state = J_SUCCEEDED"
      using verdict_earned [of job evidence unreadable observed exit_code signal err] v that by simp
    ultimately show ?thesis using v by (simp add: finish_fine [OF assms])
  qed
  then show ?thesis unfolding settle_def
    by (intro after_andthen [OF call [OF calls_respectD(5) [OF assms]]] after_andthen [OF read_evidence_fine [OF assms]])
      (auto intro!: after_andthen [OF confirm_timed_out_fine])
qed

lemma reconcile_process_fine:
  assumes "calls_respect R opts"
  shows "after R (\<lambda>_ _. True) q (reconcile_process opts job process q)"
  unfolding reconcile_process_def Let_def
  by (rule after_andthen [OF read_evidence_fine [OF assms]])
    (auto intro!: after_andthen [OF confirm_timed_out_fine] after_andthen [OF request_stops_fine]
      after_andthen [OF call [OF calls_respectD(3) [OF assms]]] after_andthen [OF stop_group_fine [OF assms]]
      note_error_fine settle_fine [OF assms])

lemma reconcile_missing_fine:
  assumes "calls_respect R opts"
  shows "after R (\<lambda>_ _. True) q (reconcile_missing opts job q)"
proof -
  have "after R (\<lambda>_ _. True) q ((case hj_anchor_pid job of None \<Rightarrow> give Group_Absent | Some pid \<Rightarrow> qo_inspect_group opts pid) q)" for q
    by (cases "hj_anchor_pid job") (simp_all add: call [OF calls_respectD(3) [OF assms]])
  then show ?thesis unfolding reconcile_missing_def
    by (auto intro!: after_andthen [where P = "\<lambda>_ _. True"] note_error_fine finish_fine [OF assms] split: option.splits)
qed

lemma reconcile_fine:
  assumes "calls_respect R opts"
  shows "after R (\<lambda>_ _. True) q (reconcile opts i q)"
proof -
  have bind: "after R (\<lambda>_ _. True) q (in_store (\<lambda>s. Inr (bind_process s j p)) q)" for j p q
    by (rule in_store_fine) (auto intro: sound_bind_process)
  show ?thesis unfolding reconcile_def
    by (intro after_andthen [OF queue_get_fine])
      (auto split: option.splits intro!: reconcile_missing_fine [OF assms] reconcile_process_fine [OF assms]
        after_andthen [OF queue_get_fine] after_andthen [OF bind])
qed

lemma prune_fine:
  assumes "calls_respect R opts"
  shows "after R (\<lambda>_ _. True) q (prune opts q)"
proof -
  have "after R (\<lambda>_ _. True) q (prune_one opts job q)" for job q
  proof -
    have "after R (\<lambda>_ _. True) q (andthen (qo_remove_job opts (hj_worktree_id job) (hj_id job)) (\<lambda>_.
        andthen (in_store (\<lambda>s. delete_finished s (hj_id job))) (\<lambda>_. give ())) q)"
      by (intro after_andthen [OF call [OF calls_respectD(7) [OF assms]]] after_andthen [OF in_store_fine])
        (auto intro: sound_delete)
    then show ?thesis unfolding prune_one_def by (auto intro!: after_catching)
  qed
  then show ?thesis unfolding prune_def by (intro after_each) blast
qed

lemma claim_and_launch_fine:
  assumes "calls_respect R opts" and "qo_max_concurrent opts = m"
  shows "after R (\<lambda>_ _. True) q (claim_and_launch opts n q)"
proof (induction n arbitrary: q)
  case 0
  show ?case by simp
next
  case (Suc n)
  show ?case unfolding claim_and_launch.simps
    by (rule after_andthen [OF in_store_fine])
      (auto simp: assms(2) intro: sound_claim after_andthen [OF launch_fine [OF assms(1)]] Suc split: option.splits)
qed

lemma unless_closed_fine: "after R (\<lambda>_ _. True) q (n q) \<Longrightarrow> after R (\<lambda>_ _. True) q (unless_closed n q)"
  by (simp add: unless_closed_def)

lemma reschedule_fine: "after R (\<lambda>_ _. True) q (changing (reschedule opts) q)"
  by (rule changing_fine) (simp_all add: reschedule_def)

lemma flush_pass_fine:
  assumes "calls_respect R opts" and "qo_max_concurrent opts = m"
  shows "after R (\<lambda>_ _. True) q (flush_pass opts q)"
  unfolding flush_pass_def
  by (intro unless_closed_fine after_andthen [OF after_each [OF reconcile_fine [OF assms(1)]]]
      after_andthen [OF unless_closed_fine [OF claim_and_launch_fine [OF assms]]]
      after_andthen [OF unless_closed_fine [OF prune_fine [OF assms(1)]]] reschedule_fine)

lemma flush_fine:
  assumes "calls_respect R opts" and "qo_max_concurrent opts = m"
  shows "after R (\<lambda>_ _. True) q (flush opts q)"
proof -
  obtain q' r where pass: "flush_pass opts (q\<lparr>jq_timer := False\<rparr>) = (q', r)" by force
  have "R q (q\<lparr>jq_timer := False\<rparr>)" by (rule kept) simp_all
  moreover from flush_pass_fine [OF assms, of "q\<lparr>jq_timer := False\<rparr>"] pass have "R (q\<lparr>jq_timer := False\<rparr>) q'" by (simp add: after_def)
  ultimately have "R q q'" by (rule trans)
  moreover from this have "R q (schedule 1000 q')" by (rule trans) (rule kept, simp_all)
  ultimately show ?thesis using pass unfolding flush_def
    by (intro after_any) (simp split: sum.split)
qed

lemma cancel_fine:
  assumes "calls_respect R opts" and "qo_max_concurrent opts = m"
  shows "after R (\<lambda>_ _. True) q (cancel opts i q)"
  unfolding cancel_def
  by (intro after_andthen [OF cancel_with_fine] after_andthen [OF flush_fine [OF assms]] queue_get_fine)

lemma enqueue_fine:
  assumes "calls_respect R opts"
  shows "after R (\<lambda>_ _. True) q (enqueue opts cwd task_name key q)"
proof -
  have store: "after R (\<lambda>_ _. True) q (andthen (in_store (\<lambda>s. enqueue_job s inp new_id)) (\<lambda>result. andthen (changing (schedule 0)) (\<lambda>_. give result)) q)"
    for q inp new_id
    by (rule after_andthen [OF in_store_fine]) (auto intro: sound_enqueue after_andthen [OF changing_fine])
  have admit: "after R (\<lambda>_ _. True) q (admit opts cwd task_name key q)" for q
    unfolding admit_def
    by (intro after_andthen [OF call [OF calls_respectD(1) [OF assms]]])
      (auto intro!: after_andthen [OF call [OF calls_respectD(2) [OF assms]]] after_andthen [OF prune_fine [OF assms]] store
        split: option.splits)
  obtain q' r where run: "admit opts cwd task_name key (q\<lparr>jq_admissions := jq_admissions q + 1\<rparr>) = (q', r)" by force
  have "R q (q\<lparr>jq_admissions := jq_admissions q + 1\<rparr>)" by (rule kept) simp_all
  moreover from admit [of "q\<lparr>jq_admissions := jq_admissions q + 1\<rparr>"] run have "R (q\<lparr>jq_admissions := jq_admissions q + 1\<rparr>) q'"
    by (simp add: after_def)
  ultimately have "R q q'" by (rule trans)
  then have "R q (q'\<lparr>jq_admissions := jq_admissions q' - 1\<rparr>)" by (rule trans) (rule kept, simp_all)
  with run show ?thesis unfolding enqueue_def by (intro after_any) simp
qed

lemma record_exit_fine: "R q (record_exit opts p outcome q)"
  by (rule kept) (auto simp: record_exit_def Let_def split: option.splits)

end

section \<open>The invariants of the durable queue, and the timer\<close>

definition keeps_order :: "jsnum \<Rightarrow> 'w queue \<Rightarrow> 'w queue \<Rightarrow> bool" where
  "keeps_order m q q' \<longleftrightarrow> (jobs_inv (whole m) (jq_db q) \<and> earned (jq_db q) \<longrightarrow> jobs_inv (whole m) (jq_db q') \<and> earned (jq_db q'))"

lemma sound_step_order: "sound_step m s t \<Longrightarrow> jobs_inv (whole m) s \<Longrightarrow> earned s \<Longrightarrow> jobs_inv (whole m) t \<and> earned t"
  using job_step_inv [of m "\<lambda>_. True" s t] by (auto simp: sound_step_def jobs_inv_def)

interpretation ordered: queue_relation "keeps_order m" m for m
  by unfold_locales (auto simp: keeps_order_def dest: sound_step_order)

definition stays_started :: "'w queue \<Rightarrow> 'w queue \<Rightarrow> bool" where
  "stays_started q q' \<longleftrightarrow> (jq_started q \<longrightarrow> jq_started q')"

interpretation started: queue_relation stays_started m for m
  by unfold_locales (auto simp: stays_started_def)

inductive queue_step :: "'w queue_options \<Rightarrow> 'w queue \<Rightarrow> 'w queue \<Rightarrow> bool" for opts :: "'w queue_options" where
  Flush: "flush opts q = (q', r) \<Longrightarrow> queue_step opts q q'"
| Enqueue: "enqueue opts cwd task_name key q = (q', answer) \<Longrightarrow> queue_step opts q q'"
| Cancel: "cancel opts job_id q = (q', answer) \<Longrightarrow> queue_step opts q q'"
| Exit: "queue_step opts q (record_exit opts p outcome q)"
| Start: "start_queue opts q = (q', r) \<Longrightarrow> queue_step opts q q'"
| Close: "queue_step opts q (close_queue q)"

lemma queue_step_order:
  assumes "queue_step opts q q'" and "calls_respect (keeps_order (qo_max_concurrent opts)) opts"
  shows "keeps_order (qo_max_concurrent opts) q q'"
  using assms(1)
proof cases
  case (Flush r)
  then show ?thesis using ordered.after_run [OF ordered.flush_fine [OF assms(2) refl, of q]] by simp
next
  case (Enqueue cwd task_name key answer)
  then show ?thesis using ordered.after_run [OF ordered.enqueue_fine [OF assms(2), of q cwd task_name key]] by simp
next
  case (Cancel job_id answer)
  then show ?thesis using ordered.after_run [OF ordered.cancel_fine [OF assms(2) refl, of q job_id]] by simp
next
  case (Exit p outcome)
  then show ?thesis using ordered.record_exit_fine by simp
qed (auto simp: keeps_order_def start_queue_def close_queue_def split: if_splits)

lemma andthen_Inr: "andthen m k q = (q', Inr x) \<Longrightarrow> \<exists>q1 y. m q = (q1, Inr y) \<and> k y q1 = (q', Inr x)"
  by (auto simp: andthen_def split: prod.splits sum.splits)

lemma schedule_wakes:
  "jq_started q \<Longrightarrow> \<not> jq_closed q \<Longrightarrow> jq_timer (schedule d q) \<and> jq_timer_delay (schedule d q) \<le> d"
  by (simp add: schedule_def)

lemma schedule_closed [simp]: "jq_closed (schedule d q) = jq_closed q"
  by (simp add: schedule_def)

lemma unless_closed_open: "unless_closed n q = (q', r) \<Longrightarrow> \<not> jq_closed q' \<Longrightarrow> n q = (q', r) \<and> \<not> jq_closed q"
  by (auto simp: unless_closed_def give_def split: if_splits)

lemma flush_pass_end:
  assumes "flush_pass opts q = (q', Inr u)" and "\<not> jq_closed q'" and "calls_respect stays_started opts" and "jq_started q"
  shows "\<exists>q1. q' = reschedule opts q1 \<and> jq_started q1 \<and> \<not> jq_closed q1"
proof -
  from assms(1,2) obtain q1 x q2 y q3 z where
    q1: "each (reconcile opts) (map hj_id (filter hj_slot_held (active_jobs (jq_db q) (qo_scope opts)))) q = (q1, Inr x)" and
    q2: "unless_closed (claim_and_launch opts (nat (whole (qo_max_concurrent opts)))) q1 = (q2, Inr y)" and
    q3: "unless_closed (prune opts) q2 = (q3, Inr z)" and
    last: "unless_closed (changing (reschedule opts)) q3 = (q', Inr u)"
    unfolding flush_pass_def by (blast dest: unless_closed_open andthen_Inr)
  have "stays_started q q1"
    by (rule started.after_result [OF started.after_each [OF started.reconcile_fine [OF assms(3)]] q1])
  moreover have "stays_started q1 q2"
    by (rule started.after_result [OF started.unless_closed_fine [OF started.claim_and_launch_fine [OF assms(3) HOL.refl]] q2])
  moreover have "stays_started q2 q3"
    by (rule started.after_result [OF started.unless_closed_fine [OF started.prune_fine [OF assms(3)]] q3])
  ultimately have "jq_started q3" using assms(4) by (simp add: stays_started_def)
  with last assms(2) show ?thesis by (auto simp: unless_closed_def changing_def give_def split: if_splits)
qed

section \<open>Who may give up a slot\<close>

text \<open>
  \<open>dead w g\<close>: process group \<open>g\<close> is known to be gone in the world \<open>w\<close>. \<open>guards dead permit\<close>: death is final,
  and no job gives up its slot but the one of the permit, once its groups are dead.
\<close>

definition holds_slot :: "db \<Rightarrow> ident \<Rightarrow> bool" where
  "holds_slot s i \<longleftrightarrow> (\<exists>j\<in>set (jobs s). hj_id j = i \<and> hj_slot_held j)"

definition guards :: "('w \<Rightarrow> int \<Rightarrow> bool) \<Rightarrow> (ident \<times> int set) option \<Rightarrow> 'w queue \<Rightarrow> 'w queue \<Rightarrow> bool" where
  "guards dead permit q q' \<longleftrightarrow> (\<forall>g. dead (jq_world q) g \<longrightarrow> dead (jq_world q') g) \<and>
    (\<forall>i. holds_slot (jq_db q) i \<and> \<not> holds_slot (jq_db q') i \<longrightarrow>
       (\<exists>groups. permit = Some (i, groups) \<and> (\<forall>g\<in>groups. dead (jq_world q') g)))"

text \<open>The awaited calls leave slots alone, and an inspection that reports an absent group is right.\<close>

definition calm_calls :: "('w \<Rightarrow> int \<Rightarrow> bool) \<Rightarrow> 'w queue_options \<Rightarrow> bool" where
  "calm_calls dead opts \<longleftrightarrow> calls_respect (guards dead None) opts \<and>
    (\<forall>pgid q q'. qo_inspect_group opts pgid q = (q', Inr Group_Absent) \<longrightarrow> dead (jq_world q') pgid)"

lemma guards_refl: "guards dead permit q q"
  by (simp add: guards_def)

lemma guards_trans:
  assumes "guards dead permit q q'" and "guards dead permit q' q''"
  shows "guards dead permit q q''"
proof -
  have "\<exists>groups. permit = Some (i, groups) \<and> (\<forall>g\<in>groups. dead (jq_world q'') g)"
    if "holds_slot (jq_db q) i" "\<not> holds_slot (jq_db q'') i" for i
  proof (cases "holds_slot (jq_db q') i")
    case True
    with that(2) assms(2) show ?thesis by (simp add: guards_def)
  next
    case False
    with that(1) assms(1) obtain groups where "permit = Some (i, groups)" "\<forall>g\<in>groups. dead (jq_world q') g"
      by (auto simp: guards_def)
    with assms(2) show ?thesis by (simp add: guards_def)
  qed
  with assms show ?thesis by (simp add: guards_def)
qed

interpretation guarding: effects "guards dead permit" for dead permit
  by unfold_locales (simp_all add: guards_refl guards_trans)

lemma guards_None: "guards dead None q q' \<Longrightarrow> guards dead permit q q'"
  by (auto simp: guards_def)

lemma guards_dead: "guards dead permit q q' \<Longrightarrow> dead (jq_world q) g \<Longrightarrow> dead (jq_world q') g"
  by (simp add: guards_def)

lemma guards_frame:
  "jq_world q' = jq_world q \<Longrightarrow> (\<And>i. holds_slot (jq_db q) i \<Longrightarrow> holds_slot (jq_db q') i) \<Longrightarrow> guards dead permit q q'"
  by (auto simp: guards_def)

lemma holds_slot_upd:
  "(\<And>j. P j \<Longrightarrow> hj_id (f j) = hj_id j \<and> (hj_slot_held j \<longrightarrow> hj_slot_held (f j))) \<Longrightarrow> holds_slot s i \<Longrightarrow> holds_slot (upd_jobs P f s) i"
proof -
  assume f: "\<And>j. P j \<Longrightarrow> hj_id (f j) = hj_id j \<and> (hj_slot_held j \<longrightarrow> hj_slot_held (f j))" and "holds_slot s i"
  then obtain j where j: "j \<in> set (jobs s)" "hj_id j = i" "hj_slot_held j" by (auto simp: holds_slot_def)
  with f [of j] show ?thesis
    unfolding holds_slot_def by (intro bexI [of _ "if P j then f j else j"]) (auto simp: set_upd_where)
qed

lemma holds_slot_cancel: "request_cancellation s i scope reason now = Inr (t, j) \<Longrightarrow> holds_slot s k \<Longrightarrow> holds_slot t k"
  unfolding request_cancellation_def Let_def by (auto split: sum.splits if_splits intro: holds_slot_upd)

lemma holds_slot_timeout: "confirm_timeout s i scope = Inr (t, j) \<Longrightarrow> holds_slot s k \<Longrightarrow> holds_slot t k"
  unfolding confirm_timeout_def Let_def by (auto split: sum.splits if_splits intro: holds_slot_upd)

lemma holds_slot_bind: "bind_process s i p = (t, b) \<Longrightarrow> holds_slot s k \<Longrightarrow> holds_slot t k"
  unfolding bind_process_def Let_def by (auto intro: holds_slot_upd)

lemma holds_slot_error: "holds_slot s k \<Longrightarrow> holds_slot (set_job_error s i e) k"
  unfolding set_job_error_def by (rule holds_slot_upd) auto

lemma holds_slot_finish: "finish_job s i f = Inr (t, j) \<Longrightarrow> k \<noteq> i \<Longrightarrow> holds_slot s k \<Longrightarrow> holds_slot t k"
  unfolding finish_job_def Let_def
  by (auto split: sum.splits if_splits simp: holds_slot_def set_upd_where image_iff)

lemma guards_release:
  assumes "\<And>k. holds_slot (jq_db q) k \<Longrightarrow> k \<noteq> i \<Longrightarrow> holds_slot (jq_db q') k" and "jq_world q' = jq_world q"
    and "\<forall>g\<in>groups. dead (jq_world q) g"
  shows "guards dead (Some (i, groups)) q q'"
  using assms unfolding guards_def by simp blast

lemma in_store_guards:
  "(\<And>s x i. f (jq_db q) = Inr (s, x) \<Longrightarrow> holds_slot (jq_db q) i \<Longrightarrow> holds_slot s i) \<Longrightarrow>
   (\<And>s x. f (jq_db q) = Inr (s, x) \<Longrightarrow> Q x (q\<lparr>jq_db := s\<rparr>)) \<Longrightarrow> after (guards dead permit) Q q (in_store f q)"
  by (auto simp: after_def in_store_def intro: guards_frame split: sum.splits)

lemma guards_call: "guards dead None q (fst r) \<Longrightarrow> after (guards dead permit) (\<lambda>_ _. True) q r"
  by (auto simp: after_def intro: guards_None)

lemma calmD: "calm_calls dead opts \<Longrightarrow> calls_respect (guards dead None) opts"
  by (simp add: calm_calls_def)

lemma inspect_guards:
  assumes "calm_calls dead opts"
  shows "after (guards dead permit) (\<lambda>status q'. status = Group_Absent \<longrightarrow> dead (jq_world q') pgid) q (qo_inspect_group opts pgid q)"
proof -
  obtain q' r where run: "qo_inspect_group opts pgid q = (q', r)" by force
  from calls_respectD(3) [OF calmD [OF assms], of q pgid] run have "guards dead permit q q'" by (auto intro: guards_None)
  moreover have "dead (jq_world q') pgid" if "r = Inr Group_Absent" using run that assms by (simp add: calm_calls_def)
  ultimately show ?thesis using run by (simp add: after_def)
qed

lemma note_error_guards: "after (guards dead permit) (\<lambda>_ _. True) q (note_error i code q)"
  unfolding note_error_def by (rule in_store_guards) (auto intro: holds_slot_error)

lemma cancelled_id: "request_cancellation s i scope reason now = Inr (t, j) \<Longrightarrow> hj_id j = i"
  by (auto simp: request_cancellation_def get_job_by_id_def Let_def dest: row_by_SomeD split: option.splits if_splits)

lemma timed_out_id: "confirm_timeout s i scope = Inr (t, j) \<Longrightarrow> hj_id j = i"
  by (auto simp: confirm_timeout_def get_job_by_id_def Let_def dest: row_by_SomeD split: option.splits if_splits)

lemma cancel_with_guards: "after (guards dead permit) (\<lambda>job _. hj_id job = i) q (cancel_with opts i reason q)"
  unfolding cancel_with_def
  by (rule in_store_guards) (blast intro: holds_slot_cancel cancelled_id)+

lemma confirm_timed_out_guards:
  "hj_id job = i \<Longrightarrow> after (guards dead permit) (\<lambda>job _. hj_id job = i) q (confirm_timed_out opts evidence job q)"
proof -
  assume job: "hj_id job = i"
  have "after (guards dead permit) (\<lambda>job _. hj_id job = i) q (in_store (\<lambda>s. confirm_timeout s i scope) q)" for scope
    using job by (intro in_store_guards) (auto dest: timed_out_id intro: holds_slot_timeout)
  with job show ?thesis unfolding confirm_timed_out_def by (auto split: option.splits)
qed

lemma request_stops_guards:
  "hj_id job = i \<Longrightarrow> after (guards dead permit) (\<lambda>job _. hj_id job = i) q (request_stops opts job evidence observed q)"
  unfolding request_stops_def
  by (rule guarding.after_andthen [where P = "\<lambda>job _. hj_id job = i"]) (auto intro: cancel_with_guards)

lemma read_evidence_guards:
  assumes "calm_calls dead opts"
  shows "after (guards dead permit) (\<lambda>_ _. True) q (read_evidence opts job process known q)"
  unfolding read_evidence_def
  by (rule guarding.after_catching [OF guarding.after_andthen [OF guards_call [OF calls_respectD(6) [OF calmD [OF assms]]]]])
    (auto intro: guarding.after_andthen [OF note_error_guards])

lemma stop_group_guards:
  assumes "calm_calls dead opts" and "found = Group_Absent \<longrightarrow> dead (jq_world q) (mp_pgid process)"
  shows "after (guards dead permit) (\<lambda>status q'. status = Group_Absent \<longrightarrow> dead (jq_world q') (mp_pgid process)) q
    (stop_group opts job process found q)"
proof -
  have "after (guards dead permit) (\<lambda>status q'. status = Group_Absent \<longrightarrow> dead (jq_world q') (mp_pgid process)) q
      (andthen (changing f) (\<lambda>_. andthen (catching (qo_stop_record opts process)
      (\<lambda>_. note_error (hj_id job) ''PROCESS_CLEANUP_UNCONFIRMED'')) (\<lambda>_. qo_inspect_group opts (mp_pgid process))) q)"
    if "\<And>q. jq_db (f q) = jq_db q \<and> jq_world (f q) = jq_world q" for f
    by (rule guarding.after_andthen [OF guarding.after_changing [where Q = "\<lambda>_ _. True"]],
        rule guards_frame; (simp add: that)?)
      (intro guarding.after_andthen [OF guarding.after_catching [OF guards_call [OF calls_respectD(4) [OF calmD [OF assms(1)]]] note_error_guards]]
        inspect_guards [OF assms(1)])
  with assms(2) show ?thesis unfolding stop_group_def by simp
qed

text \<open>The only release: a finish, once every group of the permit is dead.\<close>

lemma finish_guards:
  assumes "calm_calls dead opts" and "\<forall>g\<in>groups. dead (jq_world q) g"
  shows "after (guards dead (Some (hj_id job, groups))) (\<lambda>_ _. True) q (finish opts job state exit_code signal err q)"
proof -
  let ?R = "guards dead (Some (hj_id job, groups))"
  have validity: "after ?R (\<lambda>_ _. True) q (source_validity_of opts job q)"
    unfolding source_validity_of_def
    by (intro guarding.after_catching guarding.after_andthen [OF guards_call [OF calls_respectD(2) [OF calmD [OF assms(1)]]]])
      (auto intro!: guarding.after_andthen [OF guards_call [OF calls_respectD(1) [OF calmD [OF assms(1)]]]])
  have "after ?R (\<lambda>_ _. True) q' (andthen (in_store (\<lambda>s. finish_job s (hj_id job) inp)) (\<lambda>_. changing (forget_job (hj_id job))) q')"
    if run: "?R q q'" for q' inp
  proof -
    from assms(2) run have gone: "\<forall>g\<in>groups. dead (jq_world q') g" by (auto dest: guards_dead)
    have "?R q' (q'\<lparr>jq_db := s\<rparr>)" if "finish_job (jq_db q') (hj_id job) inp = Inr (s, x)" for s x
      using gone by (intro guards_release) (auto dest: holds_slot_finish [OF that])
    then have "after ?R (\<lambda>_ _. True) q' (in_store (\<lambda>s. finish_job s (hj_id job) inp) q')"
      by (auto simp: after_def in_store_def guards_refl split: sum.splits)
    then show ?thesis
      by (rule guarding.after_andthen) (auto simp: forget_job_def intro!: guarding.after_changing guards_frame)
  qed
  with validity show ?thesis unfolding finish_def
    by (intro guarding.after_andthen [where P = "\<lambda>_ _. True" and m = "source_validity_of opts job"])
qed

lemma settle_guards:
  assumes "calm_calls dead opts" and "\<forall>g\<in>groups. dead (jq_world q) g" and "hj_id job = i"
  shows "after (guards dead (Some (i, groups))) (\<lambda>_ _. True) q (settle opts job process known q)"
  unfolding settle_def
proof (rule guarding.after_andthen [OF guards_call [OF calls_respectD(5) [OF calmD [OF assms(1)]]]])
  let ?R = "guards dead (Some (i, groups))"
  fix q1 assume q1: "?R q q1"
  show "after ?R (\<lambda>_ _. True) q1 (andthen (read_evidence opts job process known) (\<lambda>(evidence, unreadable).
      andthen (confirm_timed_out opts evidence job) (\<lambda>job q. case verdict job evidence unreadable (jq_exits q (hj_id job)) of
        (state, exit_code, signal, err) \<Rightarrow> finish opts job state exit_code signal err q)) q1)"
  proof (rule guarding.after_andthen [OF read_evidence_guards [OF assms(1)]], clarify)
    fix evidence unreadable q2 assume q2: "?R q1 q2"
    show "after ?R (\<lambda>_ _. True) q2 (andthen (confirm_timed_out opts evidence job)
        (\<lambda>job q. case verdict job evidence unreadable (jq_exits q (hj_id job)) of
          (state, exit_code, signal, err) \<Rightarrow> finish opts job state exit_code signal err q) q2)"
    proof (rule guarding.after_andthen [OF confirm_timed_out_guards [OF assms(3)]])
      fix job' :: heavy_job and q3 assume "hj_id job' = i" and q3: "?R q2 q3"
      moreover from assms(2) q1 q2 q3 have "\<forall>g\<in>groups. dead (jq_world q3) g" by (auto dest: guards_dead)
      ultimately show "after ?R (\<lambda>_ _. True) q3 (case verdict job' evidence unreadable (jq_exits q3 (hj_id job')) of
          (state, exit_code, signal, err) \<Rightarrow> finish opts job' state exit_code signal err q3)"
        using finish_guards [OF assms(1), of groups q3 job'] by (auto split: prod.split)
    qed
  qed
qed

lemma reconcile_process_guards:
  assumes "calm_calls dead opts" and "hj_id job = i"
  shows "after (guards dead (Some (i, {mp_pgid process}))) (\<lambda>_ _. True) q (reconcile_process opts job process q)"
proof -
  have look: "after (guards dead (Some (k, {mp_pgid process}))) (\<lambda>_ _. True) q (andthen (qo_inspect_group opts (mp_pgid process)) (\<lambda>first_look.
      andthen (stop_group opts job process first_look) (\<lambda>status.
      if status \<noteq> Group_Absent then note_error (hj_id job) (code status) else settle opts job process known)) q)"
    if "hj_id job = k" for k job known code q
    by (intro guarding.after_andthen [OF inspect_guards [OF assms(1)]] guarding.after_andthen [OF stop_group_guards [OF assms(1)]])
      (auto intro: note_error_guards settle_guards [OF assms(1) _ that])
  show ?thesis unfolding reconcile_process_def Let_def
    by (rule guarding.after_andthen [OF read_evidence_guards [OF assms(1)]])
      (auto intro!: guarding.after_andthen [OF confirm_timed_out_guards [OF assms(2)]] guarding.after_andthen [OF request_stops_guards] look)
qed

lemma reconcile_missing_guards:
  assumes "calm_calls dead opts" and "hj_id job = i" and "hj_process_id job = None"
  shows "after (guards dead (Some (i, set_option (hj_anchor_pid job)))) (\<lambda>_ _. True) q (reconcile_missing opts job q)"
proof -
  let ?R = "guards dead (Some (i, set_option (hj_anchor_pid job)))"
  have "after ?R (\<lambda>status q'. status = Group_Absent \<longrightarrow> (\<forall>g\<in>set_option (hj_anchor_pid job). dead (jq_world q') g)) q
      ((case hj_anchor_pid job of None \<Rightarrow> give Group_Absent | Some pid \<Rightarrow> qo_inspect_group opts pid) q)"
    using inspect_guards [OF assms(1)] by (cases "hj_anchor_pid job") simp_all
  then show ?thesis unfolding reconcile_missing_def
    using finish_guards [OF assms(1), of "set_option (hj_anchor_pid job)" _ job] assms(2,3)
    by (auto intro!: guarding.after_andthen note_error_guards)
qed

lemma reconcile_missing_calm:
  assumes "calm_calls dead opts" and "hj_process_id job \<noteq> None"
  shows "after (guards dead None) (\<lambda>_ _. True) q (reconcile_missing opts job q)"
proof -
  have "after (guards dead None) (\<lambda>_ _. True) q
      ((case hj_anchor_pid job of None \<Rightarrow> give Group_Absent | Some pid \<Rightarrow> qo_inspect_group opts pid) q)"
    by (cases "hj_anchor_pid job") (simp_all add: guards_call calls_respectD(3) [OF calmD [OF assms(1)]])
  then show ?thesis unfolding reconcile_missing_def using assms(2)
    by (auto intro!: guarding.after_andthen note_error_guards)
qed

lemma andthen_get:
  "get_job (jq_db q) i (qo_scope opts) = Some job \<Longrightarrow> andthen (queue_get opts i) k q = k job q"
  by (simp add: andthen_def queue_get_def)

lemma reconcile_guards:
  assumes "calm_calls dead opts" and "get_job (jq_db q) i (qo_scope opts) = Some job" and "process_of (jq_db q) job = Some process"
  shows "after (guards dead (Some (i, {mp_pgid process}))) (\<lambda>_ _. True) q (reconcile opts i q)"
proof -
  let ?R = "guards dead (Some (i, {mp_pgid process}))"
  have job: "hj_id job = i" using assms(2) by (auto simp: get_job_def find_Some_iff)
  have get: "after ?R (\<lambda>job _. hj_id job = i) q' (queue_get opts i q')" for q'
    by (auto simp: after_def queue_get_def guards_refl get_job_def find_Some_iff split: option.splits)
  have bind: "after ?R (\<lambda>_ _. True) q' (in_store (\<lambda>s. Inr (bind_process s i p)) q')" for p q'
    by (rule in_store_guards) (auto intro: holds_slot_bind)
  have "reconcile opts i q = (if hj_process_id job = None
      then andthen (in_store (\<lambda>s. Inr (bind_process s i (mp_id process)))) (\<lambda>_.
           andthen (queue_get opts i) (\<lambda>job. reconcile_process opts job process)) q
      else reconcile_process opts job process q)"
    using assms(3) job by (simp add: reconcile_def andthen_get [OF assms(2)])
  then show ?thesis
    using reconcile_process_guards [OF assms(1) job]
    by (auto intro!: guarding.after_andthen [OF bind] guarding.after_andthen [OF get] reconcile_process_guards [OF assms(1)])
qed

section \<open>A small queue\<close>

text \<open>
  One running job \<open>j1\<close> whose process group 41 is gone, with a completion marker of exit code 0; the
  collaborators change nothing.
\<close>

definition demo_completion :: completion where
  "demo_completion = \<lparr> cn_exit_code = Some 0, cn_signal = None, cn_completed_at = 15, cn_timed_out = False, cn_log_failed = False \<rparr>"

definition demo_job_process :: process_row where
  "demo_job_process = \<lparr> mp_id = ''p1'', mp_worktree_id = ''w1'', mp_task_name = ''job-j1'', mp_pid = 41, mp_pgid = 41,
     mp_process_start_time = ''t'', mp_command_fingerprint = ''c'', mp_state = PS_STOPPED, mp_started_at = 8,
     mp_stopped_at = Some 15, mp_stdout_path = ''/l'', mp_stderr_path = ''/e'', mp_cleanup_required = False,
     mp_cleanup_owner_token = None, mp_exit_code = Some 0, mp_exit_signal = None \<rparr>"

definition demo_task :: resolved_job where
  "demo_task = \<lparr> rj_workspace_id = ''s1'', rj_repository_id = ''r1'', rj_worktree_id = ''w1'', rj_worktree_path = ''/p'',
     rj_task_name = ''build'', rj_timeout_ms = Whole 1000, rj_memory_estimate = None, rj_argv = [''make''], rj_cwd = ''/p'',
     rj_shell = False, rj_env = [] \<rparr>"

definition demo_gone :: "unit \<Rightarrow> int \<Rightarrow> bool" where
  "demo_gone w g \<longleftrightarrow> g = 41"

definition demo_queue_options :: "unit queue_options" where
  "demo_queue_options = \<lparr> qo_scope = ''u'', qo_max_concurrent = Whole 1, qo_memory = None, qo_now = (\<lambda>_. 20),
     qo_new_id = (\<lambda>_. ''j2''), qo_read_memory = (\<lambda>_. None), qo_resolve_task = (\<lambda>_ _. give demo_task),
     qo_snapshot = (\<lambda>_. give ''f''), qo_inspect_group = (\<lambda>g. give (if g = 41 then Group_Absent else Group_Present)),
     qo_start = (\<lambda>_ _ _. give ()), qo_stop_record = (\<lambda>_. give ()), qo_confirm_stopped = (\<lambda>_. give ()),
     qo_read_completion = (\<lambda>_ _. give (Some demo_completion)), qo_remove_job = (\<lambda>_ _. give ()),
     qo_digest = (\<lambda>_. ''c''), qo_env_order = (\<lambda>env. env) \<rparr>"

definition demo_queue :: "unit queue" where
  "demo_queue = \<lparr> jq_db = demo_running\<lparr>processes := [demo_job_process]\<rparr>, jq_exits = Map.empty, jq_recovering = {},
     jq_stop_attempts = Map.empty, jq_timer = False, jq_timer_delay = 0, jq_started = True, jq_closed = False,
     jq_admissions = 0, jq_world = () \<rparr>"

lemma demo_calls: "(\<And>q. R q q) \<Longrightarrow> calls_respect R demo_queue_options"
  by (simp add: calls_respect_def demo_queue_options_def give_def)

lemma demo_calm: "calm_calls demo_gone demo_queue_options"
  by (simp add: calm_calls_def demo_calls guards_refl) (auto simp: demo_queue_options_def give_def demo_gone_def split: if_splits)

lemma demo_reconciled:
  "jobs (jq_db (fst (reconcile demo_queue_options ''j1'' demo_queue))) =
     [(started_job 7 demo_job)\<lparr>hj_process_id := Some ''p1'', hj_state := J_SUCCEEDED, hj_slot_held := False,
        hj_finished_at := Some 20, hj_exit_code := Some 0, hj_signal := None, hj_error := None,
        hj_source_validity := Source_Unchanged\<rparr>]"
  by (simp add: reconcile_def queue_get_def get_job_def demo_queue_options_def demo_queue_def demo_defs started_job_def
      process_of_def list_managed_processes_def demo_job_process_def job_task_name_def andthen_def in_store_def bind_process_def
      reconcile_process_def read_evidence_def catching_def give_def confirm_timed_out_def demo_completion_def request_stops_def
      completion_time_def past_deadline_def start_deadline_def stop_group_def settle_def verdict_def finish_def source_validity_of_def
      command_fingerprint_def finish_job_def get_job_by_id_def pending_def finish_error_def changing_def forget_job_def upd_jobs_def Let_def)

section \<open>Properties\<close>

text \<open>
  C20. A slot is given up only on proof of death: when reconciling a job takes a slot away from any job,
  it is that job's, and either its process record was found and the record's process group is gone, or
  there is no record, no process was ever bound and the anchor, if one was, is gone. This holds whatever
  happens during the awaits, as long as the awaited calls leave slots alone, the dead stay dead and a
  group reported absent is gone.
\<close>

theorem slot_needs_proof_of_death:
  assumes "calm_calls dead opts" and "reconcile opts i q = (q', r)"
    and "holds_slot (jq_db q) k" and "\<not> holds_slot (jq_db q') k"
  shows "k = i \<and> (\<exists>job. get_job (jq_db q) i (qo_scope opts) = Some job \<and>
    (case process_of (jq_db q) job of
       Some process \<Rightarrow> dead (jq_world q') (mp_pgid process)
     | None \<Rightarrow> hj_process_id job = None \<and> (\<forall>pid. hj_anchor_pid job = Some pid \<longrightarrow> dead (jq_world q') pid)))"
proof (cases "get_job (jq_db q) i (qo_scope opts)")
  case None
  with assms(2-4) show ?thesis by (simp add: reconcile_def andthen_def queue_get_def)
next
  case (Some job)
  then have job: "hj_id job = i" by (auto simp: get_job_def find_Some_iff)
  show ?thesis
  proof (cases "process_of (jq_db q) job")
    case (Some process)
    with guarding.after_result [OF reconcile_guards [OF assms(1) \<open>get_job _ _ _ = Some job\<close>] assms(2)] assms(3,4) \<open>get_job _ _ _ = Some job\<close>
    show ?thesis by (auto simp: guards_def)
  next
    case None
    with assms(2) have run: "reconcile_missing opts job q = (q', r)" by (simp add: reconcile_def andthen_get [OF Some])
    show ?thesis
    proof (cases "hj_process_id job")
      case (Some p)
      then have "hj_process_id job \<noteq> None" by simp
      from guarding.after_result [OF reconcile_missing_calm [OF assms(1) this] run] assms(3,4) show ?thesis by (auto simp: guards_def)
    next
      case no_process: None
      from guarding.after_result [OF reconcile_missing_guards [OF assms(1) job no_process] run] assms(3,4) None Some no_process
      show ?thesis by (auto simp: guards_def)
    qed
  qed
qed

lemma slot_needs_proof_of_death_witness:
  "holds_slot (jq_db demo_queue) ''j1'' \<and> \<not> holds_slot (jq_db (fst (reconcile demo_queue_options ''j1'' demo_queue))) ''j1'' \<and>
   demo_gone (jq_world (fst (reconcile demo_queue_options ''j1'' demo_queue))) (mp_pgid demo_job_process)"
proof -
  obtain q' r where run: "reconcile demo_queue_options ''j1'' demo_queue = (q', r)" by force
  have held: "holds_slot (jq_db demo_queue) ''j1''"
    by (simp add: holds_slot_def demo_queue_def demo_defs started_job_def)
  have freed: "\<not> holds_slot (jq_db q') ''j1''"
    using demo_reconciled run by (simp add: holds_slot_def)
  have "get_job (jq_db demo_queue) ''j1'' (qo_scope demo_queue_options) = Some (started_job 7 demo_job)"
    and "process_of (jq_db demo_queue) (started_job 7 demo_job) = Some demo_job_process"
    by (simp_all add: get_job_def process_of_def list_managed_processes_def job_task_name_def demo_queue_def demo_queue_options_def
        demo_defs started_job_def demo_job_process_def)
  with slot_needs_proof_of_death [OF demo_calm run held freed] held freed run show ?thesis by simp
qed

text \<open>
  C21. The scheduler keeps the promises of the durable queue: whatever sequence of flushes, admissions,
  cancellations, exit reports, starts and closes runs, with anything that keeps the invariant during the
  awaits, never more than the configured number of jobs of a scope hold a slot, no worktree has two of
  them, and a job is recorded as succeeded only with exit code 0, no signal and no stop request.
\<close>

theorem queue_keeps_order:
  assumes "(queue_step opts)\<^sup>*\<^sup>* q q'" and "calls_respect (keeps_order (qo_max_concurrent opts)) opts"
    and "jobs_inv (whole (qo_max_concurrent opts)) (jq_db q)" and "earned (jq_db q)"
  shows "int (held_in scope (jobs (jq_db q'))) \<le> whole (qo_max_concurrent opts) \<and>
    distinct (map hj_worktree_id (filter hj_slot_held (jobs (jq_db q')))) \<and>
    (\<forall>j\<in>set (jobs (jq_db q')). hj_state j = J_SUCCEEDED \<longrightarrow> hj_exit_code j = Some 0 \<and> hj_signal j = None \<and> hj_stop_reason j = None)"
proof -
  from assms(1) have "keeps_order (qo_max_concurrent opts) q q'"
    by (induction rule: rtranclp_induct)
      (use ordered.refl ordered.trans queue_step_order [OF _ assms(2)] in blast)+
  with assms(3,4) have inv: "jobs_inv (whole (qo_max_concurrent opts)) (jq_db q')" and ok: "earned (jq_db q')"
    by (simp_all add: keeps_order_def)
  from inv show ?thesis using ok unfolding jobs_inv_def earned_def earned_job_def by blast
qed

lemma queue_keeps_order_witness:
  "int (held_in ''u'' (jobs (jq_db (fst (flush demo_queue_options demo_queue))))) \<le> 1"
proof -
  obtain q' r where run: "flush demo_queue_options demo_queue = (q', r)" by force
  have "(queue_step demo_queue_options)\<^sup>*\<^sup>* demo_queue q'"
    by (rule r_into_rtranclp [of "queue_step demo_queue_options", OF queue_step.Flush [OF run]])
  moreover have "calls_respect (keeps_order (qo_max_concurrent demo_queue_options)) demo_queue_options"
    by (rule demo_calls) (simp add: keeps_order_def)
  moreover have "jobs_inv (whole (qo_max_concurrent demo_queue_options)) (jq_db demo_queue)"
    using demo_running_inv by (simp add: demo_queue_def demo_queue_options_def jobs_inv_def job_table_ok_def)
  moreover have "earned (jq_db demo_queue)"
    by (simp add: earned_def earned_job_def demo_queue_def demo_defs started_job_def)
  ultimately show ?thesis
    using queue_keeps_order [of demo_queue_options demo_queue q' "''u''"] run by (simp add: demo_queue_options_def)
qed

text \<open>
  A started queue never falls asleep: after a flush, failed or not, a queue that is not closed has a
  timer pending, due within an hour, and within a second while any job is queued or holds a slot.
\<close>

theorem queue_keeps_waking:
  assumes "flush opts q = (q', r)" and "calls_respect stays_started opts" and "jq_started q" and "\<not> jq_closed q'"
  shows "jq_timer q' \<and> jq_timer_delay q' \<le> (if active_jobs (jq_db q') (qo_scope opts) = [] then 60 * 60 * 1000 else 1000)"
proof -
  from assms(1,4) have open_q: "\<not> jq_closed q" by (auto simp: flush_def)
  obtain q1 s where pass: "flush_pass opts (q\<lparr>jq_timer := False\<rparr>) = (q1, s)" by force
  have "stays_started (q\<lparr>jq_timer := False\<rparr>) q1"
    by (rule started.after_result [OF started.flush_pass_fine [OF assms(2) refl] pass])
  with assms(3) have started_q1: "jq_started q1" by (simp add: stays_started_def)
  show ?thesis
  proof (cases s)
    case (Inl e)
    with assms(1,3) open_q pass have q': "q' = schedule 1000 q1" by (simp add: flush_def)
    with assms(4) have "\<not> jq_closed q1" by simp
    from schedule_wakes [OF started_q1 this, of 1000] q' show ?thesis by simp
  next
    case (Inr u)
    with assms(1,3) open_q pass have q': "q' = q1" by (simp add: flush_def)
    from flush_pass_end [of opts "q\<lparr>jq_timer := False\<rparr>" q1 u] pass Inr assms(2-4) q'
    obtain q2 where q2: "q1 = reschedule opts q2" "jq_started q2" "\<not> jq_closed q2" by auto
    have "jq_db (reschedule opts q2) = jq_db q2" by (simp add: reschedule_def)
    with schedule_wakes [OF q2(2,3), of "if active_jobs (jq_db q2) (qo_scope opts) \<noteq> [] then 1000 else idle_prune_interval_ms"] q2(1) q'
    show ?thesis by (auto simp: reschedule_def idle_prune_interval_ms_def)
  qed
qed

lemma queue_keeps_waking_witness:
  "jq_timer (fst (flush demo_queue_options (demo_queue\<lparr>jq_db := empty_db\<rparr>)))"
proof -
  have "active_jobs empty_db scope = []" and "prunable_jobs empty_db scope now = []" for scope now
    by (simp_all add: active_jobs_def prunable_jobs_def empty_db_def)
  moreover have "claim_job empty_db ''u'' (Whole 1) 20 None = Inr (empty_db, None)"
    by (simp add: claim_job_def scheduling_snapshot_def job_waiting_reasons_def empty_db_def Let_def max_safe_integer_def)
  ultimately have run: "flush demo_queue_options (demo_queue\<lparr>jq_db := empty_db\<rparr>) =
      (demo_queue\<lparr>jq_db := empty_db, jq_timer := True, jq_timer_delay := idle_prune_interval_ms\<rparr>, Inr ())"
    by (simp add: flush_def flush_pass_def unless_closed_def andthen_def give_def demo_queue_options_def demo_queue_def
        numeral_eq_Suc in_store_def queue_memory_def prune_def changing_def reschedule_def schedule_def Let_def)
  have "calls_respect stays_started demo_queue_options" by (rule demo_calls) (simp add: stays_started_def)
  from queue_keeps_waking [OF run this] run show ?thesis by (simp add: demo_queue_def)
qed

end
