(* ===== verification/Ipc_Framing.thy ===== *)
theory Ipc_Framing
  imports Wtm_Prelude "HOL-Library.Word"
begin

text \<open>
  The frames of the daemon's socket (\<open>packages/protocol/src/ipc-framing.ts\<close>): a length in four bytes, most
  significant first, and that many bytes of payload. The decoder is fed chunks cut anywhere, keeps the
  frame it is in the middle of, and refuses a frame that declares more than its limit.
\<close>

section \<open>Definitions\<close>

type_synonym byte = "8 word"

definition default_max_ipc_frame_bytes :: nat where
  "default_max_ipc_frame_bytes = 1024 * 1024"

text \<open>\<open>RangeError\<close> of \<open>assertFrameLimit\<close>, \<open>FrameSizeError\<close> with its two numbers, the refusal after a failure.\<close>

datatype frame_error = Frame_Limit_Invalid | Frame_Size nat nat | Decoder_Failed

definition frame_limit_ok :: "nat \<Rightarrow> bool" where
  "frame_limit_ok limit \<longleftrightarrow> 1 \<le> limit \<and> limit \<le> 4294967295"

definition write_u32be :: "nat \<Rightarrow> byte list" where
  "write_u32be n = [word_of_nat (n div 16777216), word_of_nat (n div 65536), word_of_nat (n div 256), word_of_nat n]"

definition read_u32be :: "byte list \<Rightarrow> nat" where
  "read_u32be h = unat (h ! 0) * 16777216 + unat (h ! 1) * 65536 + unat (h ! 2) * 256 + unat (h ! 3)"

definition encode_frame :: "nat \<Rightarrow> byte list \<Rightarrow> frame_error + byte list" where
  "encode_frame limit payload =
    (if \<not> frame_limit_ok limit then Inl Frame_Limit_Invalid
     else if length payload > limit then Inl (Frame_Size (length payload) limit)
     else Inr (write_u32be (length payload) @ payload))"

text \<open>
  \<open>fd_header\<close> holds the \<open>#headerBytes\<close> bytes read of the header, \<open>fd_body\<close> the declared size and the
  \<open>#bodyBytes\<close> bytes read of the body.
\<close>

record decoder =
  fd_max :: nat
  fd_header :: "byte list"
  fd_body :: "(nat \<times> byte list) option"
  fd_failed :: bool

definition new_decoder :: "nat \<Rightarrow> frame_error + decoder" where
  "new_decoder limit = (if frame_limit_ok limit
     then Inr \<lparr> fd_max = limit, fd_header = [], fd_body = None, fd_failed = False \<rparr> else Inl Frame_Limit_Invalid)"

definition has_partial_frame :: "decoder \<Rightarrow> bool" where
  "has_partial_frame d \<longleftrightarrow> fd_header d \<noteq> [] \<or> fd_body d \<noteq> None"

text \<open>A turn of the loop below that copies nothing finds a header or a body complete, and leaves it.\<close>

definition stalled :: "byte list \<Rightarrow> (nat \<times> byte list) option \<Rightarrow> nat" where
  "stalled header body = (case body of None \<Rightarrow> if length header < 4 then 0 else 2
     | Some (declared, bytes_read) \<Rightarrow> if length bytes_read < declared then 0 else 1)"

text \<open>
  The loop of \<open>push\<close>: what is left of the chunk, the header and body read so far, the frames completed.
  The result keeps header and body also when a frame is refused. The test \<open>#bodyBytes === byteLength\<close> is
  written with \<open>\<ge>\<close>: a copy into the body is clipped at its end, so it never holds more.
\<close>

function decode_loop ::
  "nat \<Rightarrow> byte list \<Rightarrow> (nat \<times> byte list) option \<Rightarrow> byte list \<Rightarrow> byte list list \<Rightarrow>
   byte list \<times> (nat \<times> byte list) option \<times> (frame_error + byte list list)" where
  "decode_loop limit header body src frames =
    (if src = [] then (header, body, Inr frames)
     else case body of
       None \<Rightarrow>
         let copied = min (length src) (4 - length header);
             header' = header @ take copied src;
             src' = drop copied src
         in if length header' < 4 then decode_loop limit header' None src' frames
            else let declared = read_u32be header' in
              if declared > limit then (header', None, Inl (Frame_Size declared limit))
              else if declared = 0 then decode_loop limit [] None src' (frames @ [[]])
              else decode_loop limit header' (Some (declared, [])) src' frames
     | Some (declared, bytes_read) \<Rightarrow>
         let copied = min (length src) (declared - length bytes_read);
             read' = bytes_read @ take copied src;
             src' = drop copied src
         in if length read' \<ge> declared then decode_loop limit [] None src' (frames @ [read'])
            else decode_loop limit header (Some (declared, read')) src' frames)"
  by pat_completeness auto

termination
  by (relation "measure (\<lambda>(limit, header, body, src, frames). 3 * length src + stalled header body)")
    (auto simp: stalled_def min_def split: if_splits)

declare decode_loop.simps [simp del]

definition push :: "decoder \<Rightarrow> byte list \<Rightarrow> decoder \<times> (frame_error + byte list list)" where
  "push d chunk =
    (if fd_failed d then (d, Inl Decoder_Failed)
     else case decode_loop (fd_max d) (fd_header d) (fd_body d) chunk [] of
       (header, body, Inr frames) \<Rightarrow> (d\<lparr>fd_header := header, fd_body := body\<rparr>, Inr frames)
     | (header, body, Inl e) \<Rightarrow> (d\<lparr>fd_header := header, fd_body := body, fd_failed := True\<rparr>, Inl e))"

section \<open>The specification: a stream cut into frames\<close>

text \<open>
  All complete frames at the front of a stream and the bytes left over, or the size a frame declares above
  the limit.
\<close>

function cut_frames :: "nat \<Rightarrow> byte list \<Rightarrow> nat + (byte list list \<times> byte list)" where
  "cut_frames limit bs =
    (if length bs < 4 then Inr ([], bs)
     else let declared = read_u32be (take 4 bs) in
       if declared > limit then Inl declared
       else if length bs < 4 + declared then Inr ([], bs)
       else (case cut_frames limit (drop (4 + declared) bs) of
         Inl n \<Rightarrow> Inl n
       | Inr (frames, rest) \<Rightarrow> Inr (take declared (drop 4 bs) # frames, rest)))"
  by pat_completeness auto

termination
  by (relation "measure (\<lambda>(limit, bs). length bs)") auto

declare cut_frames.simps [simp del]

text \<open>The bytes of a frame that is not complete yet, and the decoder fields that hold them.\<close>

definition pending_bytes :: "byte list \<Rightarrow> (nat \<times> byte list) option \<Rightarrow> byte list" where
  "pending_bytes header body = (case body of None \<Rightarrow> header | Some (declared, bytes_read) \<Rightarrow> header @ bytes_read)"

definition fields_of :: "byte list \<Rightarrow> byte list \<times> (nat \<times> byte list) option" where
  "fields_of bs = (if length bs < 4 then (bs, None) else (take 4 bs, Some (read_u32be (take 4 bs), drop 4 bs)))"

definition fields_ok :: "nat \<Rightarrow> byte list \<Rightarrow> (nat \<times> byte list) option \<Rightarrow> bool" where
  "fields_ok limit header body \<longleftrightarrow> (case body of
     None \<Rightarrow> length header < 4
   | Some (declared, bytes_read) \<Rightarrow> length header = 4 \<and> read_u32be header = declared \<and> length bytes_read < declared \<and> declared \<le> limit)"

lemma fields_of_pending: "fields_ok limit header body \<Longrightarrow> fields_of (pending_bytes header body) = (header, body)"
  by (auto simp: fields_ok_def pending_bytes_def fields_of_def split: option.splits)

lemma cut_pending: "fields_ok limit header body \<Longrightarrow> cut_frames limit (pending_bytes header body) = Inr ([], pending_bytes header body)"
  by (subst cut_frames.simps) (auto simp: fields_ok_def pending_bytes_def Let_def split: option.splits)

lemma cut_rest_ok: "cut_frames limit bs = Inr (frames, rest) \<Longrightarrow> fields_of rest = (header, body) \<Longrightarrow>
    fields_ok limit header body \<and> pending_bytes header body = rest"
proof (induction limit bs arbitrary: frames rest rule: cut_frames.induct)
  case (1 limit bs)
  show ?case
  proof (cases "length bs < 4 \<or> read_u32be (take 4 bs) \<le> limit \<and> length bs < 4 + read_u32be (take 4 bs)")
    case True
    with 1(2,3) show ?thesis
      by (subst (asm) cut_frames.simps) (auto simp: fields_of_def fields_ok_def pending_bytes_def Let_def split: if_splits)
  next
    case False
    then have big: "\<not> length bs < 4" by simp
    from False 1(2) have lim: "\<not> limit < read_u32be (take 4 bs)" "\<not> length bs < 4 + read_u32be (take 4 bs)"
      by (auto simp: cut_frames.simps [of limit bs] Let_def split: if_splits)
    from 1(2) big lim obtain frames' where "cut_frames limit (drop (4 + read_u32be (take 4 bs)) bs) = Inr (frames', rest)"
      by (subst (asm) cut_frames.simps) (auto simp: Let_def split: sum.splits)
    from 1(1) [OF big refl lim this 1(3)] show ?thesis .
  qed
qed

text \<open>The loop cuts the pending bytes and the chunk.\<close>

definition loop_result :: "nat \<Rightarrow> byte list list \<Rightarrow> nat + (byte list list \<times> byte list) \<Rightarrow>
    byte list \<times> (nat \<times> byte list) option \<times> (frame_error + byte list list) \<Rightarrow> bool" where
  "loop_result limit frames parsed r \<longleftrightarrow> (case parsed of
     Inl declared \<Rightarrow> snd (snd r) = Inl (Frame_Size declared limit)
   | Inr (others, rest) \<Rightarrow> r = (fst (fields_of rest), snd (fields_of rest), Inr (frames @ others)))"

lemma loop_result_Cons:
  "loop_result limit (frames @ [f]) (cut_frames limit bs) r \<Longrightarrow>
   loop_result limit frames (case cut_frames limit bs of Inl n \<Rightarrow> Inl n | Inr (others, rest) \<Rightarrow> Inr (f # others, rest)) r"
  by (auto simp: loop_result_def split: sum.splits)

lemma cut_frame:
  assumes "length header = 4" and "length payload = read_u32be header" and "read_u32be header \<le> limit"
  shows "cut_frames limit (header @ payload @ bs) =
    (case cut_frames limit bs of Inl n \<Rightarrow> Inl n | Inr (others, rest) \<Rightarrow> Inr (payload # others, rest))"
  using assms by (subst cut_frames.simps) (simp add: Let_def split: sum.split)

lemma decode_loop_cuts:
  "fields_ok limit header body \<Longrightarrow>
   loop_result limit frames (cut_frames limit (pending_bytes header body @ src)) (decode_loop limit header body src frames)"
proof (induction "3 * length src + stalled header body" arbitrary: header body src frames rule: less_induct)
  case less
  show ?case
  proof (cases "src = []")
    case True
    with less.prems show ?thesis
      by (simp add: decode_loop.simps cut_pending fields_of_pending loop_result_def)
  next
    case more: False
    show ?thesis
    proof (cases body)
      case None
      define copied where "copied = min (length src) (4 - length header)"
      define header' where "header' = header @ take copied src"
      define src' where "src' = drop copied src"
      from None less.prems have short: "length header < 4" by (simp add: fields_ok_def)
      with more have c: "0 < copied" "copied \<le> length src" by (simp_all add: copied_def)
      then have smaller: "3 * length src' + stalled h b < 3 * length src + stalled header body" for h b
        by (auto simp: src'_def stalled_def split: option.splits)
      have all: "pending_bytes header body @ src = header' @ src'" by (simp add: None pending_bytes_def header'_def src'_def)
      have loop: "decode_loop limit header body src frames =
        (if length header' < 4 then decode_loop limit header' None src' frames
         else let declared = read_u32be header' in
           if declared > limit then (header', None, Inl (Frame_Size declared limit))
           else if declared = 0 then decode_loop limit [] None src' (frames @ [[]])
           else decode_loop limit header' (Some (declared, [])) src' frames)"
        unfolding decode_loop.simps [of limit header body src frames] Let_def copied_def [symmetric] header'_def [symmetric] src'_def [symmetric]
        using more None by (simp add: copied_def [symmetric] header'_def [symmetric] src'_def [symmetric])
      show ?thesis
      proof (cases "length header' < 4")
        case True
        with less.hyps [OF smaller, of header' None frames] loop all show ?thesis
          by (simp add: fields_ok_def pending_bytes_def)
      next
        case False
        with short have four: "length header' = 4" by (simp add: header'_def copied_def)
        consider (big) "limit < read_u32be header'" | (empty) "read_u32be header' = 0"
          | (body) "read_u32be header' \<le> limit" "0 < read_u32be header'" by linarith
        then show ?thesis
        proof cases
          case big
          then have "cut_frames limit (header' @ src') = Inl (read_u32be header')"
            using four by (subst cut_frames.simps) (simp add: Let_def)
          with big loop all four show ?thesis by (simp add: Let_def loop_result_def)
        next
          case empty
          have "fields_ok limit [] None" by (simp add: fields_ok_def)
          from loop_result_Cons [OF less.hyps [OF smaller this, of "frames @ [[]]"]] cut_frame [of header' "[]" limit src'] four empty loop all
          show ?thesis by (simp add: pending_bytes_def)
        next
          case body
          with four have "fields_ok limit header' (Some (read_u32be header', []))" by (simp add: fields_ok_def)
          from less.hyps [OF smaller this, of frames] body loop all four show ?thesis by (simp add: pending_bytes_def)
        qed
      qed
    next
      case (Some p)
      obtain declared bytes_read where p: "p = (declared, bytes_read)" by force
      from Some p less.prems have ok: "length header = 4" "read_u32be header = declared" "length bytes_read < declared" "declared \<le> limit"
        by (simp_all add: fields_ok_def)
      define copied where "copied = min (length src) (declared - length bytes_read)"
      define read' where "read' = bytes_read @ take copied src"
      define src' where "src' = drop copied src"
      from more ok have c: "0 < copied" "copied \<le> length src" by (simp_all add: copied_def)
      then have smaller: "3 * length src' + stalled h b < 3 * length src + stalled header body" for h b
        by (auto simp: src'_def stalled_def split: option.splits)
      from c have lr: "length read' = length bytes_read + copied" by (simp add: read'_def)
      have all: "pending_bytes header body @ src = header @ read' @ src'" by (simp add: Some p pending_bytes_def read'_def src'_def)
      have loop: "decode_loop limit header body src frames =
        (if length read' \<ge> declared then decode_loop limit [] None src' (frames @ [read'])
         else decode_loop limit header (Some (declared, read')) src' frames)"
        unfolding decode_loop.simps [of limit header body src frames] Let_def
        using more Some p c by (simp add: copied_def [symmetric] read'_def [symmetric] src'_def [symmetric] lr)
      have len: "length read' \<le> declared" using ok by (simp add: read'_def copied_def)
      show ?thesis
      proof (cases "length read' = declared")
        case True
        have "fields_ok limit [] None" by (simp add: fields_ok_def)
        from loop_result_Cons [OF less.hyps [OF smaller this, of "frames @ [read']"]] cut_frame [of header read' limit src'] True ok loop all
        show ?thesis by (simp add: pending_bytes_def)
      next
        case False
        with len ok have "fields_ok limit header (Some (declared, read'))" by (simp add: fields_ok_def)
        from less.hyps [OF smaller this, of frames] False len loop all show ?thesis by (simp add: pending_bytes_def)
      qed
    qed
  qed
qed

section \<open>Chunks\<close>

lemma cut_append:
  "cut_frames limit bs = Inr (frames, rest) \<Longrightarrow>
   cut_frames limit (bs @ cs) = (case cut_frames limit (rest @ cs) of Inl n \<Rightarrow> Inl n | Inr (fs, r) \<Rightarrow> Inr (frames @ fs, r))"
proof (induction limit bs arbitrary: frames rest rule: cut_frames.induct)
  case (1 limit bs)
  show ?case
  proof (cases "length bs < 4 \<or> read_u32be (take 4 bs) \<le> limit \<and> length bs < 4 + read_u32be (take 4 bs)")
    case True
    with 1(2) have "frames = [] \<and> rest = bs" by (subst (asm) cut_frames.simps) (auto simp: Let_def split: if_splits)
    then show ?thesis by (auto split: sum.splits)
  next
    case False
    then have big: "\<not> length bs < 4" by simp
    from False 1(2) have lim: "\<not> limit < read_u32be (take 4 bs)" "\<not> length bs < 4 + read_u32be (take 4 bs)"
      by (auto simp: cut_frames.simps [of limit bs] Let_def split: if_splits)
    from 1(2) big lim obtain frames' where tail: "cut_frames limit (drop (4 + read_u32be (take 4 bs)) bs) = Inr (frames', rest)"
        and frames: "frames = take (read_u32be (take 4 bs)) (drop 4 bs) # frames'"
      by (subst (asm) cut_frames.simps) (auto simp: Let_def split: sum.splits)
    have "cut_frames limit (bs @ cs) = (case cut_frames limit (drop (4 + read_u32be (take 4 bs)) bs @ cs) of
        Inl n \<Rightarrow> Inl n | Inr (fs, r) \<Rightarrow> Inr (take (read_u32be (take 4 bs)) (drop 4 bs) # fs, r))"
      using big lim by (subst cut_frames.simps) (simp add: Let_def split: sum.split)
    with 1(1) [OF big HOL.refl lim tail] frames show ?thesis by (simp split: sum.split)
  qed
qed

lemma read_write: "n < 4294967296 \<Longrightarrow> read_u32be (write_u32be n) = n"
proof -
  assume n: "n < 4294967296"
  have "read_u32be (write_u32be n) = (n div 16777216) mod 256 * 16777216 + (n div 65536) mod 256 * 65536 + (n div 256) mod 256 * 256 + n mod 256"
    by (simp add: read_u32be_def write_u32be_def unat_of_nat)
  moreover have "n div 16777216 < 256" using n by (simp add: less_mult_imp_div_less)
  moreover have "n div 16777216 = n div 65536 div 256" "n div 65536 = n div 256 div 256" by (simp_all add: div_mult2_eq [symmetric])
  ultimately have split_sum: "read_u32be (write_u32be n) =
      n div 256 div 256 div 256 * 16777216 + n div 256 div 256 mod 256 * 65536 + n div 256 mod 256 * 256 + n mod 256" by simp
  have "n div 256 div 256 = n div 256 div 256 div 256 * 256 + n div 256 div 256 mod 256"
    and "n div 256 = n div 256 div 256 * 256 + n div 256 mod 256" and "n = n div 256 * 256 + n mod 256"
    by (rule div_mult_mod_eq [symmetric])+
  with split_sum show ?thesis by linarith
qed

lemma write_length [simp]: "length (write_u32be n) = 4"
  by (simp add: write_u32be_def)

lemma cut_append_Inl: "cut_frames limit bs = Inl n \<Longrightarrow> cut_frames limit (bs @ cs) = Inl n"
proof (induction limit bs rule: cut_frames.induct)
  case (1 limit bs)
  then have big: "\<not> length bs < 4" by (auto simp: cut_frames.simps [of limit bs])
  show ?case
  proof (cases "limit < read_u32be (take 4 bs)")
    case True
    with 1(2) big show ?thesis
      by (simp add: cut_frames.simps [of limit bs] cut_frames.simps [of limit "bs @ cs"] Let_def)
  next
    case False
    with 1(2) big have long: "\<not> length bs < 4 + read_u32be (take 4 bs)"
      by (auto simp: cut_frames.simps [of limit bs] Let_def split: if_splits)
    with 1(2) big False have "cut_frames limit (drop (4 + read_u32be (take 4 bs)) bs) = Inl n"
      by (auto simp: cut_frames.simps [of limit bs] Let_def split: sum.splits)
    from 1(1) [OF big HOL.refl False long this] big long False show ?thesis
      by (simp add: cut_frames.simps [of limit "bs @ cs"] Let_def)
  qed
qed

definition decoder_ok :: "decoder \<Rightarrow> bool" where
  "decoder_ok d \<longleftrightarrow> fields_ok (fd_max d) (fd_header d) (fd_body d) \<and> \<not> fd_failed d"

abbreviation undecoded :: "decoder \<Rightarrow> byte list" where
  "undecoded d \<equiv> pending_bytes (fd_header d) (fd_body d)"

lemma push_refused:
  "decoder_ok d \<Longrightarrow> cut_frames (fd_max d) (undecoded d @ chunk) = Inl n \<Longrightarrow>
   \<exists>d'. push d chunk = (d', Inl (Frame_Size n (fd_max d))) \<and> fd_failed d'"
  using decode_loop_cuts [of "fd_max d" "fd_header d" "fd_body d" "[]" chunk]
  by (auto simp: decoder_ok_def loop_result_def push_def split: prod.splits)

lemma push_accepted:
  assumes "decoder_ok d" and "cut_frames (fd_max d) (undecoded d @ chunk) = Inr (frames, rest)"
  shows "\<exists>d'. push d chunk = (d', Inr frames) \<and> decoder_ok d' \<and> fd_max d' = fd_max d \<and> undecoded d' = rest"
proof -
  from decode_loop_cuts [of "fd_max d" "fd_header d" "fd_body d" "[]" chunk] assms
  have "push d chunk = (d\<lparr>fd_header := fst (fields_of rest), fd_body := snd (fields_of rest)\<rparr>, Inr frames)"
    by (simp add: decoder_ok_def loop_result_def push_def)
  with cut_rest_ok [OF assms(2), of "fst (fields_of rest)" "snd (fields_of rest)"] assms(1) show ?thesis
    by (simp add: decoder_ok_def)
qed

text \<open>The chunks a socket delivers, pushed one by one until a frame is refused.\<close>

fun push_all :: "decoder \<Rightarrow> byte list list \<Rightarrow> decoder \<times> (frame_error + byte list list)" where
  "push_all d [] = (d, Inr [])"
| "push_all d (chunk # chunks) = (case push d chunk of
     (d', Inl e) \<Rightarrow> (d', Inl e)
   | (d', Inr frames) \<Rightarrow> (case push_all d' chunks of
       (d'', Inl e) \<Rightarrow> (d'', Inl e) | (d'', Inr others) \<Rightarrow> (d'', Inr (frames @ others))))"

lemma push_all_cuts:
  "decoder_ok d \<Longrightarrow> (case cut_frames (fd_max d) (undecoded d @ concat chunks) of
     Inl n \<Rightarrow> \<exists>d'. push_all d chunks = (d', Inl (Frame_Size n (fd_max d))) \<and> fd_failed d'
   | Inr (frames, rest) \<Rightarrow> \<exists>d'. push_all d chunks = (d', Inr frames) \<and> decoder_ok d' \<and> undecoded d' = rest)"
proof (induction chunks arbitrary: d)
  case Nil
  then show ?case by (simp add: cut_pending decoder_ok_def)
next
  case (Cons chunk chunks)
  show ?case
  proof (cases "cut_frames (fd_max d) (undecoded d @ chunk)")
    case (Inl n)
    from push_refused [OF Cons.prems Inl] cut_append_Inl [OF Inl, of "concat chunks"] show ?thesis by auto
  next
    case (Inr p)
    obtain frames rest where p: "p = (frames, rest)" by force
    from push_accepted [OF Cons.prems Inr [unfolded p]] obtain d' where
      d': "push d chunk = (d', Inr frames)" "decoder_ok d'" "fd_max d' = fd_max d" "undecoded d' = rest" by blast
    have cut: "cut_frames (fd_max d) (undecoded d @ concat (chunk # chunks)) =
        (case cut_frames (fd_max d') (undecoded d' @ concat chunks) of Inl n \<Rightarrow> Inl n | Inr (fs, r) \<Rightarrow> Inr (frames @ fs, r))"
      using cut_append [OF Inr [unfolded p], of "concat chunks"] d'(3,4) by simp
    show ?thesis
    proof (cases "cut_frames (fd_max d') (undecoded d' @ concat chunks)")
      case (Inl n)
      with Cons.IH [OF d'(2)] obtain d'' where "push_all d' chunks = (d'', Inl (Frame_Size n (fd_max d')))" "fd_failed d''" by auto
      with cut Inl d'(1,3) show ?thesis by simp
    next
      case (Inr q)
      obtain fs r where q: "q = (fs, r)" by force
      from Cons.IH [OF d'(2)] Inr q obtain d'' where "push_all d' chunks = (d'', Inr fs)" "decoder_ok d''" "undecoded d'' = r" by auto
      with cut Inr q d'(1) show ?thesis by simp
    qed
  qed
qed

lemma partial_undecoded: "decoder_ok d \<Longrightarrow> has_partial_frame d \<longleftrightarrow> undecoded d \<noteq> []"
  by (auto simp: decoder_ok_def has_partial_frame_def fields_ok_def pending_bytes_def split: option.splits)

lemma new_decoder_ok:
  "new_decoder limit = Inr d \<Longrightarrow> decoder_ok d \<and> fd_max d = limit \<and> undecoded d = [] \<and> frame_limit_ok limit"
  by (auto simp: new_decoder_def decoder_ok_def fields_ok_def pending_bytes_def split: if_splits)

lemma encode_cut:
  "encode_frame limit payload = Inr frame \<Longrightarrow>
   cut_frames limit (frame @ bs) = (case cut_frames limit bs of Inl n \<Rightarrow> Inl n | Inr (frames, rest) \<Rightarrow> Inr (payload # frames, rest))"
  using cut_frame [of "write_u32be (length payload)" payload limit bs]
  by (auto simp: encode_frame_def frame_limit_ok_def read_write split: if_splits)

lemma encode_all_cut:
  "map (encode_frame limit) payloads = map Inr frames \<Longrightarrow> cut_frames limit (concat frames) = Inr (payloads, [])"
proof (induction payloads arbitrary: frames)
  case Nil
  then show ?case by (simp add: cut_frames.simps [of limit "[]"])
next
  case (Cons payload payloads)
  then obtain frame others where frames: "frames = frame # others" "encode_frame limit payload = Inr frame"
      "map (encode_frame limit) payloads = map Inr others" by auto
  from Cons.IH [OF frames(3)] encode_cut [OF frames(2), of "concat others"] frames(1) show ?case by simp
qed

section \<open>Properties\<close>

text \<open>
  C30. Chunk boundaries do not matter: what a fresh decoder makes of any sequence of chunks is what cutting
  the whole stream gives: the complete frames in order, a partial frame exactly when bytes are left over, or
  the refusal of the first frame that declares more than the limit, after which the decoder stays failed.
\<close>

theorem decoder_refines_stream:
  assumes "new_decoder limit = Inr d"
  shows "case cut_frames limit (concat chunks) of
     Inl n \<Rightarrow> \<exists>d'. push_all d chunks = (d', Inl (Frame_Size n limit)) \<and> push d' chunk = (d', Inl Decoder_Failed)
   | Inr (frames, rest) \<Rightarrow> \<exists>d'. push_all d chunks = (d', Inr frames) \<and> has_partial_frame d' = (rest \<noteq> [])"
proof -
  note new = new_decoder_ok [OF assms]
  from push_all_cuts [of d chunks] new show ?thesis
    by (auto simp: partial_undecoded push_def split: sum.splits prod.splits)
qed

lemma decoder_refines_stream_witness:
  "\<exists>d d'. new_decoder 2 = Inr d \<and> push_all d [[0, 0], [0, 9, 7]] = (d', Inl (Frame_Size 9 2))"
proof -
  obtain d where d: "new_decoder 2 = Inr d" by (simp add: new_decoder_def frame_limit_ok_def)
  have "cut_frames 2 (concat [[0, 0], [0, 9, 7]]) = Inl 9"
    by (subst cut_frames.simps) (simp add: read_u32be_def)
  with decoder_refines_stream [OF d, of "[[0, 0], [0, 9, 7]]" "[]"] d show ?thesis by auto
qed

text \<open>
  C31. Frames survive the wire: encode any payloads within the limit, cut the bytes into chunks anywhere,
  and a fresh decoder returns exactly the payloads, in order, and holds no partial frame.
\<close>

theorem frames_roundtrip:
  assumes "new_decoder limit = Inr d" and "map (encode_frame limit) payloads = map Inr frames"
    and "concat chunks = concat frames"
  shows "\<exists>d'. push_all d chunks = (d', Inr payloads) \<and> \<not> has_partial_frame d'"
proof -
  note new = new_decoder_ok [OF assms(1)]
  from push_all_cuts [of d chunks] new encode_all_cut [OF assms(2)] assms(3) show ?thesis
    by (auto simp: partial_undecoded)
qed

lemma frames_roundtrip_witness:
  "\<exists>d d'. new_decoder 8 = Inr d \<and> push_all d [[0, 0, 0], [2, 5], [6, 0, 0, 0, 0]] = (d', Inr [[5, 6], []])"
proof -
  obtain d where d: "new_decoder 8 = Inr d" by (simp add: new_decoder_def frame_limit_ok_def)
  have "map (encode_frame 8) [[5, 6], []] = map Inr [[0, 0, 0, 2, 5, 6], [0, 0, 0, 0]]"
    by (simp add: encode_frame_def frame_limit_ok_def write_u32be_def)
  from frames_roundtrip [OF d this, of "[[0, 0, 0], [2, 5], [6, 0, 0, 0, 0]]"] d show ?thesis by auto
qed

end
