(* ===== verification/Template.thy ===== *)
theory Template
  imports Js_Text
begin

text \<open>
  Template variables in configured commands and variables (\<open>packages/core/src/templates/resolve.ts\<close>): every
  \<open>{name}\<close> of the text is replaced by the value of its variable, in one pass over the text as written.
\<close>

section \<open>Definitions\<close>

datatype template_value = Text_Value string | Number_Value int

text \<open>\<open>String(value)\<close>\<close>

fun value_text :: "template_value \<Rightarrow> string" where
  "value_text (Text_Value s) = s"
| "value_text (Number_Value n) = show_int n"

record root_and_name =
  rn_root :: "string option"
  rn_name :: "string option"

text \<open>A table entry may be present and \<open>undefined\<close>.\<close>

record template_context =
  tc_workspace :: "root_and_name option"
  tc_repo :: "root_and_name option"
  tc_main_root :: "string option"
  tc_worktree_root :: "string option"
  tc_id :: "template_value option"
  tc_key :: "string option"
  tc_slug :: "string option"
  tc_branch :: "string option"
  tc_branch_slug :: "string option"
  tc_ports :: "(string \<times> template_value option) list option"
  tc_cors_origins :: "string option"
  tc_env :: "(string \<times> string option) list option"

definition own_template_value :: "(string \<times> 'v option) list option \<Rightarrow> string \<Rightarrow> 'v option" where
  "own_template_value values name = (if name = [] then None else case values of None \<Rightarrow> None
     | Some table \<Rightarrow> (case map_of table name of None \<Rightarrow> None | Some v \<Rightarrow> v))"

definition template_value_of :: "template_context \<Rightarrow> string \<Rightarrow> template_value option" where
  "template_value_of c variable =
    (if variable = ''workspace.root'' then map_option Text_Value (Option.bind (tc_workspace c) rn_root)
     else if variable = ''workspace.name'' then map_option Text_Value (Option.bind (tc_workspace c) rn_name)
     else if variable = ''repo.root'' then map_option Text_Value (Option.bind (tc_repo c) rn_root)
     else if variable = ''repo.name'' then map_option Text_Value (Option.bind (tc_repo c) rn_name)
     else if variable = ''main.root'' then map_option Text_Value (tc_main_root c)
     else if variable = ''worktree.root'' then map_option Text_Value (tc_worktree_root c)
     else if variable = ''id'' then tc_id c
     else if variable = ''key'' then map_option Text_Value (tc_key c)
     else if variable = ''slug'' then map_option Text_Value (tc_slug c)
     else if variable = ''branch'' then map_option Text_Value (tc_branch c)
     else if variable = ''branch.slug'' then map_option Text_Value (tc_branch_slug c)
     else if variable = ''cors.origins'' then map_option Text_Value (tc_cors_origins c)
     else if starts_with ''port.'' variable then own_template_value (tc_ports c) (drop (length ''port.'') variable)
     else if starts_with ''env.'' variable
     then map_option Text_Value (own_template_value (tc_env c) (drop (length ''env.'') variable))
     else None)"

text \<open>\<open>WtmTemplateError\<close> with its variable, or what the guard threw.\<close>

datatype 'e template_error = Unresolved string | Guard_Rejected 'e

definition brace :: "char \<Rightarrow> bool" where
  "brace c \<longleftrightarrow> c = CHR ''{'' \<or> c = CHR ''}''"

text \<open>
  \<open>value.replace(/\{([^{}]+)\}/g, \<dots>)\<close>: at an opening brace, the longest run without braces must be there
  and end in a closing one; otherwise the brace is literal text. \<open>guard\<close> answers an error or nothing.
\<close>

function resolve_template ::
  "template_context \<Rightarrow> (string \<Rightarrow> string \<Rightarrow> 'e option) \<Rightarrow> string \<Rightarrow> 'e template_error + string" where
  "resolve_template c guard [] = Inr []"
| "resolve_template c guard (x # xs) =
    (let name = takeWhile (\<lambda>y. \<not> brace y) xs; rest = dropWhile (\<lambda>y. \<not> brace y) xs in
     if x = CHR ''{'' \<and> name \<noteq> [] \<and> take 1 rest = ''}''
     then (case template_value_of c name of
         None \<Rightarrow> Inl (Unresolved name)
       | Some v \<Rightarrow> (case guard name (value_text v) of
           Some e \<Rightarrow> Inl (Guard_Rejected e)
         | None \<Rightarrow> (case resolve_template c guard (drop 1 rest) of
             Inl e \<Rightarrow> Inl e | Inr text \<Rightarrow> Inr (value_text v @ text))))
     else (case resolve_template c guard xs of Inl e \<Rightarrow> Inl e | Inr text \<Rightarrow> Inr (x # text)))"
  by pat_completeness auto

termination
  by (relation "measure (\<lambda>(c, guard, xs). length xs)")
    (auto simp: le_imp_less_Suc less_Suc_eq_le intro: order_trans [OF diff_le_self length_dropWhile_le])

declare resolve_template.simps [simp del]

section \<open>The text as written\<close>

datatype template_part = Literal char | Variable string

text \<open>The parts of a template, whatever the values: literal characters and variables.\<close>

function template_parts :: "string \<Rightarrow> template_part list" where
  "template_parts [] = []"
| "template_parts (x # xs) =
    (let name = takeWhile (\<lambda>y. \<not> brace y) xs; rest = dropWhile (\<lambda>y. \<not> brace y) xs in
     if x = CHR ''{'' \<and> name \<noteq> [] \<and> take 1 rest = ''}''
     then Variable name # template_parts (drop 1 rest)
     else Literal x # template_parts xs)"
  by pat_completeness auto

termination
  by (relation "measure length")
    (auto simp: le_imp_less_Suc less_Suc_eq_le intro: order_trans [OF diff_le_self length_dropWhile_le])

declare template_parts.simps [simp del]

fun part_text :: "template_context \<Rightarrow> template_part \<Rightarrow> string" where
  "part_text c (Literal x) = [x]"
| "part_text c (Variable v) = (case template_value_of c v of Some value \<Rightarrow> value_text value | None \<Rightarrow> [])"

fun part_ok :: "template_context \<Rightarrow> (string \<Rightarrow> string \<Rightarrow> 'e option) \<Rightarrow> template_part \<Rightarrow> bool" where
  "part_ok c guard (Literal x) = True"
| "part_ok c guard (Variable v) = (case template_value_of c v of Some value \<Rightarrow> guard v (value_text value) = None | None \<Rightarrow> False)"

text \<open>A resolved rest, with a resolved piece in front.\<close>

lemma prefixed_Inr:
  assumes "\<And>out. r = Inr out \<longleftrightarrow> ok \<and> out = t"
  shows "(case r of Inl e \<Rightarrow> Inl e | Inr rest \<Rightarrow> Inr (p @ rest)) = Inr out \<longleftrightarrow> ok \<and> out = p @ t"
  using assms by (cases r) auto

lemma resolve_parts:
  "resolve_template c guard tpl = Inr out \<longleftrightarrow>
    list_all (part_ok c guard) (template_parts tpl) \<and> out = concat (map (part_text c) (template_parts tpl))"
proof (induction c guard tpl arbitrary: out rule: resolve_template.induct)
  case (1 c guard)
  then show ?case by (auto simp: resolve_template.simps template_parts.simps)
next
  case (2 c guard x xs)
  define name where "name = takeWhile (\<lambda>y. \<not> brace y) xs"
  define rest where "rest = dropWhile (\<lambda>y. \<not> brace y) xs"
  have r: "resolve_template c guard (x # xs) = (if x = CHR ''{'' \<and> name \<noteq> [] \<and> take 1 rest = ''}''
     then (case template_value_of c name of None \<Rightarrow> Inl (Unresolved name)
       | Some v \<Rightarrow> (case guard name (value_text v) of Some e \<Rightarrow> Inl (Guard_Rejected e)
         | None \<Rightarrow> (case resolve_template c guard (drop 1 rest) of Inl e \<Rightarrow> Inl e | Inr out \<Rightarrow> Inr (value_text v @ out))))
     else (case resolve_template c guard xs of Inl e \<Rightarrow> Inl e | Inr out \<Rightarrow> Inr ([x] @ out)))"
    by (simp only: resolve_template.simps(2) name_def rest_def Let_def append_Cons append_Nil)
  have p: "template_parts (x # xs) = (if x = CHR ''{'' \<and> name \<noteq> [] \<and> take 1 rest = ''}''
     then Variable name # template_parts (drop 1 rest) else Literal x # template_parts xs)"
    by (simp only: template_parts.simps(2) name_def rest_def Let_def)
  show ?case
  proof (cases "x = CHR ''{'' \<and> name \<noteq> [] \<and> take 1 rest = ''}''")
    case False
    from prefixed_Inr [OF 2(2) [OF name_def rest_def False], of "[x]"] show ?thesis
      unfolding r p if_not_P [OF False] by simp
  next
    case True
    consider (none) "template_value_of c name = None" | (rejected) v e where "template_value_of c name = Some v" "guard name (value_text v) = Some e"
      | (passed) v where "template_value_of c name = Some v" "guard name (value_text v) = None" by (meson not_None_eq)
    then show ?thesis
    proof cases
      case passed
      from prefixed_Inr [OF 2(1) [OF name_def rest_def True passed], of "value_text v"] passed show ?thesis
        unfolding r p if_P [OF True] by simp
    qed (unfold r p if_P [OF True], simp_all)
  qed
qed

section \<open>Properties\<close>

text \<open>
  C32. One pass over the text as written: a template resolves exactly when every variable that stands in it
  has a value the guard lets through, and then it is the text with those values in place. What stands in a
  value, braces included, is never looked at again.
\<close>

theorem template_single_pass:
  "resolve_template c guard tpl = Inr out \<longleftrightarrow>
    (\<forall>v\<in>{v. Variable v \<in> set (template_parts tpl)}. \<exists>value. template_value_of c v = Some value \<and> guard v (value_text value) = None) \<and>
    out = concat (map (part_text c) (template_parts tpl))"
proof -
  have "list_all (part_ok c guard) parts \<longleftrightarrow>
    (\<forall>v\<in>{v. Variable v \<in> set parts}. \<exists>value. template_value_of c v = Some value \<and> guard v (value_text value) = None)" for parts
  proof (induction parts)
    case (Cons p parts)
    then show ?case by (cases p) (auto split: option.splits)
  qed simp
  then show ?thesis by (simp add: resolve_parts)
qed

definition demo_context :: template_context where
  "demo_context = \<lparr> tc_workspace = None, tc_repo = None, tc_main_root = None, tc_worktree_root = None,
     tc_id = Some (Number_Value 7), tc_key = None, tc_slug = None, tc_branch = Some ''{id}'', tc_branch_slug = None,
     tc_ports = None, tc_cors_origins = None, tc_env = None \<rparr>"

lemma template_single_pass_witness:
  "resolve_template demo_context (\<lambda>_ _. None :: unit option) ''a{branch}{id}{'' = Inr ''a{id}7{''"
proof -
  have parts: "template_parts ''a{branch}{id}{'' = [Literal CHR ''a'', Variable ''branch'', Variable ''id'', Literal CHR ''{'']"
    by (simp add: template_parts.simps brace_def Let_def)
  have "show_int 7 = ''7''" by code_simp
  moreover have "template_value_of demo_context ''branch'' = Some (Text_Value ''{id}'')"
    and "template_value_of demo_context ''id'' = Some (Number_Value 7)"
    by (simp_all add: template_value_of_def demo_context_def)
  ultimately show ?thesis unfolding template_single_pass parts by auto
qed

end
