(* ===== verification/Utf8.thy ===== *)
theory Utf8
  imports Js_Text
begin

text \<open>
  The decoding of bytes into text: the standard \<open>TextDecoder\<close> of UTF-8, in its replacing and its fatal form. A decoded
  text is the list of the bytes of its UTF-8 form.
\<close>

section \<open>Definitions\<close>

definition byte_in :: "nat \<Rightarrow> nat \<Rightarrow> char \<Rightarrow> bool" where
  "byte_in lo hi c \<longleftrightarrow> lo \<le> (of_char c :: nat) \<and> (of_char c :: nat) \<le> hi"

text \<open>The well-formed sequences.\<close>

fun utf8_ok :: "string \<Rightarrow> bool" where
  "utf8_ok [] \<longleftrightarrow> True"
| "utf8_ok (a # cs) \<longleftrightarrow>
    (if byte_in 0 127 a then utf8_ok cs
     else if byte_in 194 223 a then (case cs of b # r \<Rightarrow> byte_in 128 191 b \<and> utf8_ok r | _ \<Rightarrow> False)
     else if byte_in 224 239 a then (case cs of b # c # r \<Rightarrow>
         byte_in (if byte_in 224 224 a then 160 else 128) (if byte_in 237 237 a then 159 else 191) b \<and>
         byte_in 128 191 c \<and> utf8_ok r | _ \<Rightarrow> False)
     else if byte_in 240 244 a then (case cs of b # c # d # r \<Rightarrow>
         byte_in (if byte_in 240 240 a then 144 else 128) (if byte_in 244 244 a then 143 else 191) b \<and>
         byte_in 128 191 c \<and> byte_in 128 191 d \<and> utf8_ok r | _ \<Rightarrow> False)
     else False)"

definition byte_order_mark :: string where
  "byte_order_mark = [CHR 0xEF, CHR 0xBB, CHR 0xBF]"

text \<open>\<open>U+FFFD\<close>, which stands for a malformed sequence.\<close>

definition replacement :: string where
  "replacement = [CHR 0xEF, CHR 0xBF, CHR 0xBD]"

text \<open>
  Each longest beginning of a well-formed sequence that is not continued is replaced; the byte after it is read anew.
\<close>

fun replace_malformed :: "string \<Rightarrow> string" where
  "replace_malformed [] = []"
| "replace_malformed (a # cs) =
    (if byte_in 0 127 a then a # replace_malformed cs
     else if byte_in 194 223 a then (case cs of
         [] \<Rightarrow> replacement
       | b # r \<Rightarrow> if byte_in 128 191 b then a # b # replace_malformed r else replacement @ replace_malformed cs)
     else if byte_in 224 239 a then (case cs of
         [] \<Rightarrow> replacement
       | b # r \<Rightarrow>
         if \<not> byte_in (if byte_in 224 224 a then 160 else 128) (if byte_in 237 237 a then 159 else 191) b
         then replacement @ replace_malformed cs
         else (case r of
             [] \<Rightarrow> replacement
           | c # s \<Rightarrow> if byte_in 128 191 c then a # b # c # replace_malformed s else replacement @ replace_malformed r))
     else if byte_in 240 244 a then (case cs of
         [] \<Rightarrow> replacement
       | b # r \<Rightarrow>
         if \<not> byte_in (if byte_in 240 240 a then 144 else 128) (if byte_in 244 244 a then 143 else 191) b
         then replacement @ replace_malformed cs
         else (case r of
             [] \<Rightarrow> replacement
           | c # s \<Rightarrow>
             if \<not> byte_in 128 191 c then replacement @ replace_malformed r
             else (case s of
                 [] \<Rightarrow> replacement
               | d # u \<Rightarrow> if byte_in 128 191 d then a # b # c # d # replace_malformed u
                   else replacement @ replace_malformed s)))
     else replacement @ replace_malformed cs)"

definition without_mark :: "string \<Rightarrow> string" where
  "without_mark text = (if starts_with byte_order_mark text then drop 3 text else text)"

definition decode_replacing :: "string \<Rightarrow> string" where
  "decode_replacing bytes = replace_malformed (without_mark bytes)"

definition decode_fatal :: "string \<Rightarrow> string option" where
  "decode_fatal bytes = (if utf8_ok bytes then Some (without_mark bytes) else None)"

section \<open>Lemmas\<close>

lemma replace_well_formed: "utf8_ok s \<Longrightarrow> replace_malformed s = s"
proof (induction s rule: length_induct)
  case (1 s)
  show ?case
  proof (cases s)
    case (Cons a cs)
    note ok = "1.prems" [unfolded Cons]
    have IH: "replace_malformed r = r" if "utf8_ok r" "length r < length s" for r using "1.IH" that by blast
    consider (one) "byte_in 0 127 a" | (two) "\<not> byte_in 0 127 a" "byte_in 194 223 a"
      | (three) "\<not> byte_in 0 127 a" "\<not> byte_in 194 223 a" "byte_in 224 239 a"
      | (four) "\<not> byte_in 0 127 a" "\<not> byte_in 194 223 a" "\<not> byte_in 224 239 a" "byte_in 240 244 a"
      | (none) "\<not> byte_in 0 127 a" "\<not> byte_in 194 223 a" "\<not> byte_in 224 239 a" "\<not> byte_in 240 244 a" by blast
    then show ?thesis
    proof cases
      case one
      with ok IH [of cs] Cons show ?thesis by simp
    next
      case two
      with ok obtain b r where "cs = b # r" "byte_in 128 191 b" "utf8_ok r" by (cases cs) simp_all
      with two IH [of r] Cons show ?thesis by simp
    next
      case three
      with ok obtain b c r where "cs = b # c # r"
        "byte_in (if byte_in 224 224 a then 160 else 128) (if byte_in 237 237 a then 159 else 191) b"
        "byte_in 128 191 c" "utf8_ok r" by (auto simp del: if_split split: list.splits)
      with three IH [of r] Cons show ?thesis by simp
    next
      case four
      with ok obtain b c d r where "cs = b # c # d # r"
        "byte_in (if byte_in 240 240 a then 144 else 128) (if byte_in 244 244 a then 143 else 191) b"
        "byte_in 128 191 c" "byte_in 128 191 d" "utf8_ok r" by (auto simp del: if_split split: list.splits)
      with four IH [of r] Cons show ?thesis by simp
    next
      case none
      with ok show ?thesis by simp
    qed
  qed simp
qed

lemma decode_well_formed: "utf8_ok s \<Longrightarrow> \<not> starts_with byte_order_mark s \<Longrightarrow> decode_replacing s = s"
  by (simp add: decode_replacing_def without_mark_def replace_well_formed)

lemma utf8_ascii_prefix: "list_all (byte_in 0 127) s \<Longrightarrow> utf8_ok (s @ t) \<longleftrightarrow> utf8_ok t"
  by (induction s) auto

lemma utf8_ascii: "list_all (byte_in 0 127) s \<Longrightarrow> utf8_ok s"
  using utf8_ascii_prefix [of s "[]"] by simp

text \<open>A malformed byte in the middle, and a sequence cut short before an ordinary character.\<close>

lemma malformed_example:
  "decode_replacing [CHR ''a'', CHR 0xFF, CHR ''b''] = ''a'' @ replacement @ ''b''"
  "decode_replacing [CHR 0xE2, CHR 0x82, CHR ''x''] = replacement @ ''x''"
  by code_simp+

end
