(* ===== verification/Worktree_Parser.thy ===== *)
theory Worktree_Parser
  imports Store_Types Utf8
begin

text \<open>
  The output of \<open>git worktree list --porcelain -z\<close> (\<open>packages/core/src/git/worktree-parser.ts\<close>): fields that end
  in a NUL byte, records that end in an empty field. Each field is decoded as UTF-8, malformed sequences
  being replaced.
\<close>

section \<open>Definitions\<close>

definition nul :: char where
  "nul = CHR 0x00"

text \<open>\<open>sep\<close> is the separator of the host's paths; the replacement is the identity where it is a slash.\<close>

definition to_native_git_path :: "char \<Rightarrow> string \<Rightarrow> string" where
  "to_native_git_path sep path = (if sep = CHR ''/'' then path else map (\<lambda>c. if c = CHR ''/'' then sep else c) path)"

definition finish_record :: "git_worktree_record list \<times> git_worktree_record option \<Rightarrow> git_worktree_record list \<times> git_worktree_record option" where
  "finish_record st = (case snd st of None \<Rightarrow> st | Some r \<Rightarrow> (fst st @ [r], None))"

definition field_key :: "string \<Rightarrow> string" where
  "field_key line = takeWhile (\<lambda>c. c \<noteq> CHR '' '') line"

definition field_value :: "string \<Rightarrow> string" where
  "field_value line = drop 1 (dropWhile (\<lambda>c. c \<noteq> CHR '' '') line)"

definition new_record :: "string \<Rightarrow> git_worktree_record" where
  "new_record path = \<lparr> gw_path = path, gw_head = None, gw_branch = None, gw_detached = False, gw_bare = False,
     gw_locked_reason = None, gw_prunable_reason = None \<rparr>"

definition set_field :: "string \<Rightarrow> string \<Rightarrow> git_worktree_record \<Rightarrow> git_worktree_record" where
  "set_field key value r =
    (if key = ''HEAD'' then r\<lparr>gw_head := Some value\<rparr>
     else if key = ''branch'' then r\<lparr>gw_branch := Some value\<rparr>
     else if key = ''detached'' then r\<lparr>gw_detached := True\<rparr>
     else if key = ''bare'' then r\<lparr>gw_bare := True\<rparr>
     else if key = ''locked'' then r\<lparr>gw_locked_reason := Some value\<rparr>
     else if key = ''prunable'' then r\<lparr>gw_prunable_reason := Some value\<rparr>
     else r)"

definition parse_field ::
  "char \<Rightarrow> git_worktree_record list \<times> git_worktree_record option \<Rightarrow> string \<Rightarrow> git_worktree_record list \<times> git_worktree_record option" where
  "parse_field sep st field =
    (if field = [] then finish_record st
     else let line = decode_replacing field in
       if field_key line = ''worktree''
       then (fst (finish_record st), Some (new_record (to_native_git_path sep (field_value line))))
       else case snd st of None \<Rightarrow> st
         | Some r \<Rightarrow> (fst st, Some (set_field (field_key line) (field_value line) r)))"

text \<open>The fields of the loop over the bytes: an empty rest after the last NUL is no field.\<close>

definition fields_of_output :: "string \<Rightarrow> string list" where
  "fields_of_output output = (let parts = split_on nul output in if last parts = [] then butlast parts else parts)"

definition parse_git_worktree_porcelain :: "char \<Rightarrow> string \<Rightarrow> git_worktree_record list" where
  "parse_git_worktree_porcelain sep output =
    fst (finish_record (foldl (parse_field sep) ([], None) (fields_of_output output)))"

section \<open>What git prints\<close>

text \<open>
  The documented format: one attribute per field, its name alone or followed by a space and its value, an
  empty field after each worktree.
\<close>

definition print_field :: "string \<Rightarrow> string \<Rightarrow> string" where
  "print_field key value = (if value = [] then key else key @ '' '' @ value)"

definition optional_field :: "string \<Rightarrow> string option \<Rightarrow> string list" where
  "optional_field key value = (case value of None \<Rightarrow> [] | Some v \<Rightarrow> [print_field key v])"

definition record_fields :: "git_worktree_record \<Rightarrow> string list" where
  "record_fields r = print_field ''worktree'' (gw_path r) # optional_field ''HEAD'' (gw_head r)
     @ (if gw_bare r then [''bare''] else []) @ (if gw_detached r then [''detached''] else [])
     @ optional_field ''branch'' (gw_branch r) @ optional_field ''locked'' (gw_locked_reason r)
     @ optional_field ''prunable'' (gw_prunable_reason r)"

definition print_worktrees :: "git_worktree_record list \<Rightarrow> string" where
  "print_worktrees records = concat (map (\<lambda>field. field @ [nul]) (concat (map (\<lambda>r. record_fields r @ [[]]) records)))"

lemma split_on_append: "d \<notin> set part \<Longrightarrow> split_on d (part @ d # s) = part # split_on d s"
  by (induction part) auto

lemma split_fields:
  "list_all (\<lambda>field. nul \<notin> set field) fs \<Longrightarrow> split_on nul (concat (map (\<lambda>field. field @ [nul]) fs)) = fs @ [[]]"
  by (induction fs) (simp_all add: split_on_append)

lemma fields_of_printed:
  "list_all (\<lambda>field. nul \<notin> set field) fs \<Longrightarrow> fields_of_output (concat (map (\<lambda>field. field @ [nul]) fs)) = fs"
  by (simp add: fields_of_output_def split_fields)

lemma printed_key_value:
  assumes "CHR '' '' \<notin> set key"
  shows "field_key (print_field key value) = key" and "field_value (print_field key value) = value"
  using assms by (auto simp: print_field_def field_key_def field_value_def takeWhile_upto dropWhile_upto takeWhile_absent dropWhile_absent)

text \<open>What git prints of a value in UTF-8 is decoded as it is: a field begins with its name, not with a mark.\<close>

definition plain_key :: "string \<Rightarrow> bool" where
  "plain_key key \<longleftrightarrow> key \<noteq> [] \<and> list_all (\<lambda>c. byte_in 0 127 c \<and> c \<noteq> CHR '' '') key"

lemma no_mark_ascii: "plain_key key \<Longrightarrow> \<not> starts_with byte_order_mark (key @ s)"
  by (cases key) (auto simp: plain_key_def starts_with_def byte_order_mark_def byte_in_def)

lemma decode_printed: "plain_key key \<Longrightarrow> utf8_ok value \<Longrightarrow> decode_replacing (print_field key value) = print_field key value"
proof -
  assume k: "plain_key key" and v: "utf8_ok value"
  have "list_all (byte_in 0 127) key" using k by (auto simp: plain_key_def list_all_iff)
  then have "utf8_ok (print_field key value)"
    using v by (simp add: print_field_def utf8_ascii_prefix utf8_ascii byte_in_def)
  moreover have "\<not> starts_with byte_order_mark (print_field key value)"
    using no_mark_ascii [OF k, of "[]"] no_mark_ascii [OF k] by (simp add: print_field_def)
  ultimately show ?thesis by (rule decode_well_formed)
qed

lemma plain_key_space: "plain_key key \<Longrightarrow> CHR '' '' \<notin> set key \<and> key \<noteq> []"
  by (auto simp: plain_key_def list_all_iff)

lemma print_field_empty: "plain_key key \<Longrightarrow> print_field key value \<noteq> []"
  by (auto simp: print_field_def plain_key_def)

definition utf8_text :: "string option \<Rightarrow> bool" where
  "utf8_text t \<longleftrightarrow> (case t of None \<Rightarrow> True | Some v \<Rightarrow> utf8_ok v)"

lemma parse_optional:
  assumes k: "plain_key key" and "key \<noteq> ''worktree''" and "utf8_text value"
  shows "foldl (parse_field sep) (acc, Some r) (optional_field key value) =
    (acc, Some (case value of None \<Rightarrow> r | Some v \<Rightarrow> set_field key v r))"
  using assms(2,3) printed_key_value [of key] plain_key_space [OF k] print_field_empty [OF k] decode_printed [OF k]
  by (auto simp: optional_field_def parse_field_def utf8_text_def Let_def split: option.splits)

lemma parse_flag:
  assumes k: "plain_key key" and "key \<noteq> ''worktree''"
  shows "foldl (parse_field sep) (acc, Some r) (if b then [key] else []) = (acc, Some (if b then set_field key [] r else r))"
  using parse_optional [OF assms, of "Some []" sep acc r]
  by (cases b) (simp_all add: optional_field_def print_field_def utf8_text_def)

text \<open>The keys of the format.\<close>

lemma plain_keys:
  "plain_key ''worktree''" "plain_key ''HEAD''" "plain_key ''bare''" "plain_key ''detached''" "plain_key ''branch''"
  "plain_key ''locked''" "plain_key ''prunable''"
  by (simp_all add: plain_key_def byte_in_def)

abbreviation native :: "char \<Rightarrow> git_worktree_record \<Rightarrow> git_worktree_record" where
  "native sep r \<equiv> r\<lparr>gw_path := to_native_git_path sep (gw_path r)\<rparr>"

lemma parse_first:
  assumes "utf8_ok path"
  shows "parse_field sep (acc, None) (print_field ''worktree'' path) = (acc, Some (new_record (to_native_git_path sep path)))"
  using printed_key_value [of "''worktree''" path] print_field_empty [OF plain_keys(1), of path]
  by (simp add: parse_field_def finish_record_def decode_printed [OF plain_keys(1) assms])

definition utf8_record :: "git_worktree_record \<Rightarrow> bool" where
  "utf8_record r \<longleftrightarrow> utf8_ok (gw_path r) \<and> utf8_text (gw_head r) \<and> utf8_text (gw_branch r) \<and> utf8_text (gw_locked_reason r)
     \<and> utf8_text (gw_prunable_reason r)"

lemma parse_record:
  assumes "utf8_record r"
  shows "foldl (parse_field sep) (acc, None) (record_fields r @ [[]]) = (acc @ [native sep r], None)"
  using assms
  by (cases r)
    (simp add: utf8_record_def record_fields_def parse_first parse_optional parse_flag plain_keys,
     simp add: parse_field_def finish_record_def set_field_def new_record_def split: option.split)

lemma parse_records:
  "list_all utf8_record records \<Longrightarrow> foldl (parse_field sep) (acc, None) (concat (map (\<lambda>r. record_fields r @ [[]]) records))
     = (acc @ map (native sep) records, None)"
proof (induction records arbitrary: acc)
  case (Cons r records)
  then show ?case using parse_record [of r sep acc] by simp
qed simp

definition nul_free :: "git_worktree_record \<Rightarrow> bool" where
  "nul_free r \<longleftrightarrow> nul \<notin> set (gw_path r) \<and>
    (\<forall>t\<in>{gw_head r, gw_branch r, gw_locked_reason r, gw_prunable_reason r}. nul \<notin> \<Union> (set ` set_option t))"

lemma nul_free_fields: "nul_free r \<Longrightarrow> list_all (\<lambda>field. nul \<notin> set field) (record_fields r)"
proof -
  have "nul \<notin> set key \<Longrightarrow> nul \<notin> \<Union> (set ` set_option t) \<Longrightarrow> list_all (\<lambda>field. nul \<notin> set field) (optional_field key t)" for key t
    by (cases t) (auto simp: optional_field_def print_field_def nul_def)
  then show "nul_free r \<Longrightarrow> list_all (\<lambda>field. nul \<notin> set field) (record_fields r)"
    by (simp add: nul_free_def record_fields_def) (simp add: nul_def print_field_def)
qed

section \<open>Properties\<close>

text \<open>
  C33. The listing round-trips: from git's output for any worktrees, with paths, branches and reasons of any
  UTF-8 text without NUL bytes (spaces, line breaks and empty reasons included), the parser reads back exactly
  those worktrees, in order, each path with the separator of the host for a slash (which leaves it as it is on
  POSIX). A text that is not UTF-8 is not read back: see \<open>malformed_path_is_changed\<close>.
\<close>

theorem worktree_listing_roundtrip:
  assumes "\<forall>r\<in>set records. nul_free r \<and> utf8_record r"
  shows "parse_git_worktree_porcelain sep (print_worktrees records) =
    map (\<lambda>r. r\<lparr>gw_path := to_native_git_path sep (gw_path r)\<rparr>) records"
proof -
  have "list_all (\<lambda>field. nul \<notin> set field) (concat (map (\<lambda>r. record_fields r @ [[]]) records))"
    using assms nul_free_fields by (auto simp: list_all_iff)
  moreover have "list_all utf8_record records" using assms by (simp add: list_all_iff)
  ultimately show ?thesis
    by (simp add: parse_git_worktree_porcelain_def print_worktrees_def fields_of_printed parse_records finish_record_def)
qed

definition demo_listing :: "git_worktree_record list" where
  "demo_listing = [(new_record ''/a b'')\<lparr>gw_head := Some ''1f'', gw_branch := Some (''refs/heads/'' @ [CHR 0xC3, CHR 0xA9])\<rparr>,
     (new_record ''/c'')\<lparr>gw_head := Some ''2e'', gw_detached := True, gw_locked_reason := Some []\<rparr>]"

lemma worktree_listing_roundtrip_witness:
  "parse_git_worktree_porcelain (CHR ''/'') (print_worktrees demo_listing) = demo_listing"
proof -
  have "\<forall>r\<in>set demo_listing. nul_free r \<and> utf8_record r"
    by (simp add: demo_listing_def new_record_def nul_free_def nul_def utf8_record_def utf8_text_def byte_in_def)
  from worktree_listing_roundtrip [OF this, of "CHR ''/''"] show ?thesis by (simp add: to_native_git_path_def)
qed

text \<open>A path with a byte that is no UTF-8 comes back with the replacement character in its place.\<close>

lemma malformed_path_is_changed:
  "map gw_path (parse_git_worktree_porcelain (CHR ''/'') (print_worktrees [new_record [CHR ''/'', CHR 0xFF]])) = [''/'' @ replacement]"
  by code_simp

end
