(* ===== verification/Proxy_Hostname.thy ===== *)
theory Proxy_Hostname
  imports Endpoint_Properties Registry Js_Text
begin

text \<open>
  Names and routes of the local reverse proxy (\<open>packages/core/src/runtime/proxy-hostname.ts\<close>,
  \<open>packages/daemon/src/proxy-routes.ts\<close>): a DNS label for every worktree from its branch, disambiguated by a
  digest of its id, and the table from host names to the ports of active leases. \<open>digest\<close> is the
  hexadecimal SHA-256 of a text.
\<close>

section \<open>Labels\<close>

definition wtm_localhost_suffix :: string where
  "wtm_localhost_suffix = ''wtm.localhost''"

text \<open>\<open>toLowerCase\<close>: the capital letters of ASCII and of Latin-1.\<close>

definition lower_char :: "char \<Rightarrow> char" where
  "lower_char c = (let n = (of_char c :: nat) in
     if 65 \<le> n \<and> n \<le> 90 \<or> 192 \<le> n \<and> n \<le> 222 \<and> n \<noteq> 215 then char_of (n + 32) else c)"

definition lower_case :: "string \<Rightarrow> string" where
  "lower_case s = map lower_char s"

definition label_char :: "char \<Rightarrow> bool" where
  "label_char c \<longleftrightarrow> (let n = (of_char c :: nat) in 97 \<le> n \<and> n \<le> 122 \<or> 48 \<le> n \<and> n \<le> 57 \<or> c = CHR ''-'')"

text \<open>\<open>replace(/P+/g, d)\<close>: every maximal run becomes one \<open>d\<close>.\<close>

function replace_runs :: "(char \<Rightarrow> bool) \<Rightarrow> char \<Rightarrow> string \<Rightarrow> string" where
  "replace_runs P d [] = []"
| "replace_runs P d (c # cs) = (if P c then d # replace_runs P d (dropWhile P cs) else c # replace_runs P d cs)"
  by pat_completeness auto

termination
  by (relation "measure (\<lambda>(P, d, s). length s)") (auto simp: le_imp_less_Suc length_dropWhile_le)

definition trim_char :: "char \<Rightarrow> string \<Rightarrow> string" where
  "trim_char d s = rev (dropWhile (\<lambda>c. c = d) (rev (dropWhile (\<lambda>c. c = d) s)))"

definition slugify_branch_label :: "string \<Rightarrow> string" where
  "slugify_branch_label s = trim_char (CHR ''-'')
     (replace_runs (\<lambda>c. c = CHR ''-'') (CHR ''-'') (replace_runs (\<lambda>c. \<not> label_char c) (CHR ''-'') (lower_case s)))"

section \<open>Slugs\<close>

record hostname_worktree =
  hw_id :: ident
  hw_numeric_id :: nat
  hw_branch :: "string option"

definition worktree_slug_suffix :: "(string \<Rightarrow> string) \<Rightarrow> ident \<Rightarrow> string" where
  "worktree_slug_suffix digest worktree_id = take 6 (digest worktree_id)"

definition short_branch_name :: "string \<Rightarrow> string" where
  "short_branch_name ref = (if starts_with ''refs/heads/'' ref then drop (length ''refs/heads/'') ref else ref)"

definition base_slug :: "hostname_worktree \<Rightarrow> string" where
  "base_slug w =
    (let from_branch = (case hw_branch w of None \<Rightarrow> [] | Some b \<Rightarrow> slugify_branch_label (short_branch_name b)) in
     if from_branch \<noteq> [] then from_branch
     else let from_id = slugify_branch_label (hw_id w) in
       if from_id \<noteq> [] then from_id else ''worktree'')"

definition slug_groups :: "hostname_worktree list \<Rightarrow> (string \<times> hostname_worktree list) list" where
  "slug_groups ws = foldl (\<lambda>groups w.
     map_set (base_slug w) (case map_of groups (base_slug w) of None \<Rightarrow> [w] | Some g \<Rightarrow> g @ [w]) groups) [] ws"

definition group_slugs :: "(string \<Rightarrow> string) \<Rightarrow> string \<Rightarrow> hostname_worktree list \<Rightarrow> (ident \<times> string) list" where
  "group_slugs digest base ws =
    (if length ws = 1 then [(hw_id (hd ws), base)]
     else map (\<lambda>(index, w). (hw_id w, if index = 0 then base else base @ ''-'' @ worktree_slug_suffix digest (hw_id w)))
       (enumerate 0 (sort_key hw_numeric_id ws)))"

definition assign_proxy_slugs :: "(string \<Rightarrow> string) \<Rightarrow> hostname_worktree list \<Rightarrow> (ident \<times> string) list" where
  "assign_proxy_slugs digest ws =
    foldl (\<lambda>slugs (k, v). map_set k v slugs) [] (concat (map (\<lambda>(base, members). group_slugs digest base members) (slug_groups ws)))"

definition proxy_hostname :: "string \<Rightarrow> string \<Rightarrow> string" where
  "proxy_hostname service slug = lower_case service @ ''.'' @ slug @ ''.'' @ wtm_localhost_suffix"

definition canonical_proxy_hostname ::
  "(string \<Rightarrow> string) \<Rightarrow> hostname_worktree \<Rightarrow> string \<Rightarrow> hostname_worktree list \<Rightarrow> string" where
  "canonical_proxy_hostname digest w service siblings =
    (let slugs = assign_proxy_slugs digest (if list_ex (\<lambda>e. hw_id e = hw_id w) siblings then siblings else siblings @ [w])
     in proxy_hostname service (case map_of slugs (hw_id w) of Some slug \<Rightarrow> slug | None \<Rightarrow> base_slug w))"

definition is_wtm_proxy_hostname :: "string \<Rightarrow> bool" where
  "is_wtm_proxy_hostname hostname =
    (let suffix = ''.'' @ wtm_localhost_suffix in length hostname > length suffix \<and> ends_with suffix hostname)"

section \<open>Routes\<close>

record proxy_route =
  rt_hostname :: string
  rt_host :: string
  rt_port :: int
  rt_worktree_id :: ident
  rt_service :: string

definition loopback_hosts :: "string set" where
  "loopback_hosts = {''127.0.0.1'', ''::1'', ''localhost''}"

definition dead_worktree_states :: "worktree_state set" where
  "dead_worktree_states = {WT_ORPHANED, WT_CLEANING, WT_REMOVED, WT_DEGRADED_CLEANUP}"

definition as_hostname_worktree :: "worktree_row \<Rightarrow> hostname_worktree" where
  "as_hostname_worktree w = \<lparr> hw_id = wt_id w, hw_numeric_id = wt_numeric_id w, hw_branch = wt_branch w \<rparr>"

definition build_proxy_routes :: "(string \<Rightarrow> string) \<Rightarrow> db \<Rightarrow> (string \<times> proxy_route) list" where
  "build_proxy_routes digest s =
    (let leases = filter (\<lambda>l. ep_protocol l = Tcp \<and> ep_host l \<in> loopback_hosts)
           (list_endpoint_leases s \<lparr> eq_worktree_ids = None, eq_name = None, eq_states = Some [EP_ACTIVE] \<rparr>);
         live = filter (\<lambda>w. wt_state w \<notin> dead_worktree_states) (list_worktrees s None);
         slugs = assign_proxy_slugs digest (map as_hostname_worktree live)
     in foldl (\<lambda>routes l. case row_by wt_id (ep_worktree_id l) live of
          None \<Rightarrow> routes
        | Some w \<Rightarrow> (case map_of slugs (wt_id w) of
            None \<Rightarrow> routes
          | Some slug \<Rightarrow> let hostname = proxy_hostname (ep_name l) slug in
              map_set hostname \<lparr> rt_hostname = hostname, rt_host = ep_host l, rt_port = ep_port l,
                rt_worktree_id = wt_id w, rt_service = ep_name l \<rparr> routes))
        [] leases)"

definition resolve_proxy_route :: "(string \<Rightarrow> string) \<Rightarrow> db \<Rightarrow> string \<Rightarrow> proxy_route option" where
  "resolve_proxy_route digest s hostname = map_of (build_proxy_routes digest s) hostname"

section \<open>The slug of one worktree\<close>

text \<open>What the two loops come to for one worktree: its place in its group decides.\<close>

definition slug_group :: "hostname_worktree list \<Rightarrow> string \<Rightarrow> hostname_worktree list" where
  "slug_group ws base = filter (\<lambda>v. base_slug v = base) ws"

definition slug_of :: "(string \<Rightarrow> string) \<Rightarrow> hostname_worktree list \<Rightarrow> hostname_worktree \<Rightarrow> string" where
  "slug_of digest ws w =
    (if hw_id (hd (sort_key hw_numeric_id (slug_group ws (base_slug w)))) = hw_id w then base_slug w
     else base_slug w @ ''-'' @ worktree_slug_suffix digest (hw_id w))"

lemma slug_groups_snoc:
  "slug_groups (ws @ [w]) = map_set (base_slug w) (case map_of (slug_groups ws) (base_slug w) of None \<Rightarrow> [w] | Some g \<Rightarrow> g @ [w]) (slug_groups ws)"
  by (simp add: slug_groups_def)

lemma slug_group_snoc: "slug_group (ws @ [w]) b = slug_group ws b @ (if base_slug w = b then [w] else [])"
  by (simp add: slug_group_def)

lemma map_of_slug_groups: "map_of (slug_groups ws) base = (if slug_group ws base = [] then None else Some (slug_group ws base))"
proof (induction ws arbitrary: base rule: rev_induct)
  case Nil
  then show ?case by (simp add: slug_groups_def slug_group_def)
next
  case (snoc w ws)
  show ?case
  proof (cases "base_slug w = base")
    case True
    then show ?thesis by (simp add: slug_groups_snoc slug_group_snoc snoc.IH)
  next
    case False
    then show ?thesis by (simp add: slug_groups_snoc slug_group_snoc snoc.IH)
  qed
qed

lemma slug_groups_distinct: "distinct (map fst (slug_groups ws))"
proof (induction ws rule: rev_induct)
  case (snoc w ws)
  then show ?case by (auto simp: slug_groups_snoc keys_map_set)
qed (simp add: slug_groups_def)

lemma slug_group_member: "w \<in> set (slug_group ws b) \<longleftrightarrow> w \<in> set ws \<and> base_slug w = b"
  by (simp add: slug_group_def)

lemma slug_groups_pair: "(b, g) \<in> set (slug_groups ws) \<longleftrightarrow> slug_group ws b \<noteq> [] \<and> g = slug_group ws b"
proof -
  have "(b, g) \<in> set (slug_groups ws) \<longleftrightarrow> map_of (slug_groups ws) b = Some g"
    by (simp add: map_of_eq_Some_iff [OF slug_groups_distinct])
  also have "\<dots> \<longleftrightarrow> slug_group ws b \<noteq> [] \<and> g = slug_group ws b"
    by (auto simp: map_of_slug_groups)
  finally show ?thesis .
qed

lemma map_of_assigned:
  assumes "(k, v) \<in> set kvs" and "\<And>v'. (k, v') \<in> set kvs \<Longrightarrow> v' = v"
  shows "map_of (foldl (\<lambda>m (k, v). map_set k v m) [] kvs) k = Some v"
  using assms
proof (induction kvs rule: rev_induct)
  case (snoc p kvs)
  obtain k' v' where p: "p = (k', v')" by force
  show ?case
  proof (cases "k' = k")
    case True
    then have "v' = v" using snoc.prems(2) [of v'] p by simp
    with True p show ?thesis by simp
  next
    case False
    have "map_of (foldl (\<lambda>m (k, v). map_set k v m) [] kvs) k = Some v"
    proof (rule snoc.IH)
      show "(k, v) \<in> set kvs" using snoc.prems(1) p False by simp
    next
      fix u assume "(k, u) \<in> set kvs"
      then have "(k, u) \<in> set (kvs @ [p])" by simp
      then show "u = v" by (rule snoc.prems(2))
    qed
    with p False show ?thesis by simp
  qed
qed simp

lemma group_slugs_many:
  assumes "length g \<noteq> 1"
  shows "(k, v) \<in> set (group_slugs digest base g) \<longleftrightarrow> (\<exists>i < length g. let w = sort_key hw_numeric_id g ! i in
    k = hw_id w \<and> v = (if i = 0 then base else base @ ''-'' @ worktree_slug_suffix digest (hw_id w)))"
proof -
  let ?s = "sort_key hw_numeric_id g"
  let ?f = "\<lambda>(index, w). (hw_id w, if index = 0 then base else base @ ''-'' @ worktree_slug_suffix digest (hw_id w))"
  have "set (enumerate 0 ?s) = {(i, ?s ! i) | i. i < length g}"
    by (auto simp: in_set_enumerate_eq)
  then have "set (group_slugs digest base g) = ?f ` {(i, ?s ! i) | i. i < length g}"
    using assms by (simp add: group_slugs_def)
  then show ?thesis by (auto simp: Let_def image_iff)
qed

lemma group_slugs_key:
  assumes "(k, v) \<in> set (group_slugs digest base g)" and "g \<noteq> []"
  shows "\<exists>x\<in>set g. k = hw_id x"
proof (cases "length g = 1")
  case True
  with assms show ?thesis by (auto simp: group_slugs_def)
next
  case False
  from assms(1) group_slugs_many [OF False] obtain i where
    i: "i < length g" "k = hw_id (sort_key hw_numeric_id g ! i)" by (auto simp: Let_def)
  then have "sort_key hw_numeric_id g ! i \<in> set (sort_key hw_numeric_id g)" by (intro nth_mem) simp
  with i show ?thesis by auto
qed

lemma group_slugs_entry:
  assumes "distinct (map hw_id ws)" and "w \<in> set ws"
  shows "(hw_id w, v) \<in> set (group_slugs digest (base_slug w) (slug_group ws (base_slug w))) \<longleftrightarrow> v = slug_of digest ws w"
proof -
  define g where "g = slug_group ws (base_slug w)"
  define s where "s = sort_key hw_numeric_id g"
  have len: "length s = length g" and sets: "set s = set g" by (simp_all add: s_def)
  from assms(2) have w: "w \<in> set g" by (simp add: g_def slug_group_member)
  have "distinct ws" and inj: "inj_on hw_id (set ws)" using assms(1) by (simp_all add: distinct_map)
  then have "distinct s" and inj': "inj_on hw_id (set s)"
    by (auto simp: s_def g_def slug_group_def inj_on_def)
  show ?thesis
  proof (cases "length g = 1")
    case True
    then obtain x where "g = [x]" by (auto simp: length_Suc_conv)
    with w have "g = [w]" by simp
    then show ?thesis by (simp add: group_slugs_def slug_of_def flip: g_def) 
  next
    case False
    from w sets have "w \<in> set s" by simp
    then obtain i where i: "i < length s" "s ! i = w" unfolding in_set_conv_nth by blast
    have only: "j = i" if "j < length s" "hw_id (s ! j) = hw_id w" for j
    proof -
      from that i inj' have "s ! j = s ! i" by (auto dest: inj_onD)
      with \<open>distinct s\<close> that(1) i(1) show ?thesis by (simp add: nth_eq_iff_index_eq)
    qed
    have "(hw_id w, v) \<in> set (group_slugs digest (base_slug w) g) \<longleftrightarrow>
        (\<exists>j < length g. hw_id w = hw_id (s ! j) \<and>
          v = (if j = 0 then base_slug w else base_slug w @ ''-'' @ worktree_slug_suffix digest (hw_id (s ! j))))"
      unfolding group_slugs_many [OF False] by (simp add: Let_def flip: s_def)
    also have "\<dots> \<longleftrightarrow> v = (if i = 0 then base_slug w else base_slug w @ ''-'' @ worktree_slug_suffix digest (hw_id w))"
    proof
      assume "\<exists>j < length g. hw_id w = hw_id (s ! j) \<and>
          v = (if j = 0 then base_slug w else base_slug w @ ''-'' @ worktree_slug_suffix digest (hw_id (s ! j)))"
      then obtain j where j: "j < length g" "hw_id w = hw_id (s ! j)"
          "v = (if j = 0 then base_slug w else base_slug w @ ''-'' @ worktree_slug_suffix digest (hw_id (s ! j)))" by blast
      from only [of j] j(1,2) len have "j = i" by simp
      with j(3) i(2) show "v = (if i = 0 then base_slug w else base_slug w @ ''-'' @ worktree_slug_suffix digest (hw_id w))"
        by simp
    next
      assume "v = (if i = 0 then base_slug w else base_slug w @ ''-'' @ worktree_slug_suffix digest (hw_id w))"
      with i len show "\<exists>j < length g. hw_id w = hw_id (s ! j) \<and>
          v = (if j = 0 then base_slug w else base_slug w @ ''-'' @ worktree_slug_suffix digest (hw_id (s ! j)))"
        by (intro exI [of _ i]) simp
    qed
    also have "i = 0 \<longleftrightarrow> hw_id (hd s) = hw_id w"
    proof -
      from i(1) have "s \<noteq> []" by auto
      then have "hd s = s ! 0" by (rule hd_conv_nth)
      with i only [of 0] show ?thesis by force
    qed
    finally show ?thesis by (simp add: slug_of_def flip: g_def s_def)
  qed
qed

lemma assign_slug:
  assumes "distinct (map hw_id ws)" and "w \<in> set ws"
  shows "map_of (assign_proxy_slugs digest ws) (hw_id w) = Some (slug_of digest ws w)"
proof -
  define entries where "entries = concat (map (\<lambda>(base, members). group_slugs digest base members) (slug_groups ws))"
  have entry: "(k, v) \<in> set entries \<longleftrightarrow>
      (\<exists>b. slug_group ws b \<noteq> [] \<and> (k, v) \<in> set (group_slugs digest b (slug_group ws b)))" for k v
    by (force simp: entries_def slug_groups_pair)
  from assms(2) have "slug_group ws (base_slug w) \<noteq> []" by (auto simp: slug_group_def filter_empty_conv)
  with entry group_slugs_entry [OF assms] have own: "(hw_id w, slug_of digest ws w) \<in> set entries" by blast
  have "v = slug_of digest ws w" if v: "(hw_id w, v) \<in> set entries" for v
  proof -
    from v entry obtain b where b: "slug_group ws b \<noteq> []" "(hw_id w, v) \<in> set (group_slugs digest b (slug_group ws b))"
      by blast
    from group_slugs_key [OF b(2,1)] obtain x where x: "x \<in> set (slug_group ws b)" "hw_id w = hw_id x" by blast
    then have "x \<in> set ws" "base_slug x = b" by (simp_all add: slug_group_member)
    moreover from this x(2) assms have "x = w" by (auto simp: distinct_map dest: inj_onD)
    ultimately have "b = base_slug w" by simp
    with b(2) group_slugs_entry [OF assms] show ?thesis by simp
  qed
  with own show ?thesis unfolding assign_proxy_slugs_def entries_def [symmetric] by (intro map_of_assigned)
qed

section \<open>Every slug is a label\<close>

lemma replace_runs_chars: "c \<in> set (replace_runs P d s) \<Longrightarrow> c = d \<or> c \<in> set s \<and> \<not> P c"
  by (induction P d s rule: replace_runs.induct) (auto split: if_splits dest: set_dropWhileD)

lemma trim_char_chars: "c \<in> set (trim_char d s) \<Longrightarrow> c \<in> set s"
  by (auto simp: trim_char_def dest!: set_dropWhileD)

lemma trim_char_last: "trim_char d s \<noteq> [] \<Longrightarrow> last (trim_char d s) \<noteq> d"
  unfolding trim_char_def by (simp only: last_rev rev_is_Nil_conv) (rule hd_dropWhile [where P = "\<lambda>c. c = d"])

lemma trim_char_hd:
  assumes "trim_char d s \<noteq> []"
  shows "hd (trim_char d s) \<noteq> d"
proof -
  define t where "t = dropWhile (\<lambda>c. c = d) s"
  have "t = rev (takeWhile (\<lambda>c. c = d) (rev t) @ dropWhile (\<lambda>c. c = d) (rev t))" by simp
  then have t: "t = trim_char d s @ rev (takeWhile (\<lambda>c. c = d) (rev t))"
    unfolding rev_append trim_char_def t_def .
  with assms have "hd (trim_char d s) = hd t" by (metis hd_append2)
  moreover from t assms have "t \<noteq> []" by auto
  then have "hd t \<noteq> d" unfolding t_def by (rule hd_dropWhile [where P = "\<lambda>c. c = d"])
  ultimately show ?thesis by simp
qed

text \<open>A label as the comment of \<open>slugifyBranchLabel\<close> describes it.\<close>

definition slug_label :: "string \<Rightarrow> bool" where
  "slug_label s \<longleftrightarrow> s \<noteq> [] \<and> list_all label_char s \<and> hd s \<noteq> CHR ''-'' \<and> last s \<noteq> CHR ''-''"

lemma slugify_label:
  assumes "slugify_branch_label s \<noteq> []"
  shows "slug_label (slugify_branch_label s)"
proof -
  have "label_char c" if "c \<in> set (slugify_branch_label s)" for c
  proof -
    from that have "c \<in> set (replace_runs (\<lambda>c. c = CHR ''-'') (CHR ''-'')
        (replace_runs (\<lambda>c. \<not> label_char c) (CHR ''-'') (lower_case s)))"
      unfolding slugify_branch_label_def by (rule trim_char_chars)
    then have "c = CHR ''-'' \<or> label_char c" by (blast dest: replace_runs_chars)
    then show ?thesis by (auto simp: label_char_def)
  qed
  moreover from assms have "hd (slugify_branch_label s) \<noteq> CHR ''-''" "last (slugify_branch_label s) \<noteq> CHR ''-''"
    unfolding slugify_branch_label_def by (rule trim_char_hd, rule trim_char_last)
  ultimately show ?thesis using assms by (simp add: slug_label_def list_all_iff)
qed

lemma base_slug_label: "slug_label (base_slug w)"
proof -
  have "slug_label ''worktree''" by (simp add: slug_label_def label_char_def)
  then show ?thesis by (auto simp: base_slug_def Let_def intro: slugify_label split: option.splits)
qed

definition hex_char :: "char \<Rightarrow> bool" where
  "hex_char c \<longleftrightarrow> (let n = (of_char c :: nat) in 97 \<le> n \<and> n \<le> 102 \<or> 48 \<le> n \<and> n \<le> 57)"

lemma hex_label_char: "hex_char c \<Longrightarrow> label_char c \<and> c \<noteq> CHR ''-''"
  by (auto simp: hex_char_def label_char_def Let_def)

lemma suffix_label:
  assumes "slug_label base" and hex: "x \<noteq> []" "list_all hex_char x"
  shows "slug_label (base @ ''-'' @ x)"
proof -
  have x: "label_char c \<and> c \<noteq> CHR ''-''" if "c \<in> set x" for c
  proof (rule hex_label_char)
    from hex(2) that show "hex_char c" by (simp add: list_all_iff)
  qed
  have "label_char (CHR ''-'')" by (simp add: label_char_def)
  with x have chars: "list_all label_char (CHR ''-'' # x)" by (simp add: list_all_iff)
  from hex(1) have "last x \<in> set x" by simp
  then have last: "last x \<noteq> CHR ''-''" using x by blast
  have "list_all label_char base" and "base \<noteq> []" and "hd base \<noteq> CHR ''-''" using assms(1) by (simp_all add: slug_label_def)
  with chars last hex(1) show ?thesis by (simp add: slug_label_def)
qed

section \<open>Worktrees that come later\<close>

lemma insort_key_last: "f x \<le> f w \<Longrightarrow> insort_key f x (s @ [w]) = insort_key f x s @ [w]"
  by (induction s) auto

lemma insort_key_greatest: "\<forall>v\<in>set s. f v < f w \<Longrightarrow> insort_key f w s = s @ [w]"
  by (induction s) auto

lemma sort_key_greatest:
  "\<forall>v\<in>set (xs @ ys). f v < f w \<Longrightarrow> sort_key f (xs @ w # ys) = sort_key f (xs @ ys) @ [w]"
proof (induction xs)
  case Nil
  then show ?case by (simp add: insort_key_greatest)
next
  case (Cons x xs)
  then have "f x \<le> f w" by (simp add: less_imp_le)
  with Cons show ?case by (simp add: insort_key_last)
qed

lemma slug_of_later:
  assumes later: "\<And>v. v \<in> set (xs @ ys) \<Longrightarrow> hw_numeric_id v < hw_numeric_id w" and v: "v \<in> set (xs @ ys)"
  shows "slug_of digest (xs @ w # ys) v = slug_of digest (xs @ ys) v"
proof -
  define b where "b = base_slug v"
  have before: "slug_group (xs @ ys) b = slug_group xs b @ slug_group ys b" by (simp add: slug_group_def)
  have after: "slug_group (xs @ w # ys) b = slug_group xs b @ (if base_slug w = b then [w] else []) @ slug_group ys b"
    by (simp add: slug_group_def)
  have some: "sort_key hw_numeric_id (slug_group (xs @ ys) b) \<noteq> []"
  proof -
    from v have "v \<in> set (slug_group (xs @ ys) b)" by (simp add: slug_group_member b_def)
    then show ?thesis by (metis empty_iff empty_set set_sort)
  qed
  have "hd (sort_key hw_numeric_id (slug_group (xs @ w # ys) b)) = hd (sort_key hw_numeric_id (slug_group (xs @ ys) b))"
  proof (cases "base_slug w = b")
    case True
    have "u \<in> set (xs @ ys)" if "u \<in> set (slug_group xs b @ slug_group ys b)" for u
      using that by (auto simp: slug_group_def)
    then have "sort_key hw_numeric_id (slug_group xs b @ w # slug_group ys b) =
        sort_key hw_numeric_id (slug_group xs b @ slug_group ys b) @ [w]"
      by (intro sort_key_greatest ballI later)
    with True some show ?thesis by (simp add: before after)
  next
    case False
    then show ?thesis by (simp add: before after)
  qed
  then show ?thesis by (simp add: slug_of_def b_def)
qed

section \<open>Properties\<close>

text \<open>What every entry of the table says, loop step by loop step.\<close>

definition route_for :: "db \<Rightarrow> string \<Rightarrow> proxy_route \<Rightarrow> bool" where
  "route_for s h r \<longleftrightarrow> (\<exists>l\<in>set (endpoint_leases s). \<exists>w\<in>set (worktrees s).
     ep_state l = EP_ACTIVE \<and> ep_protocol l = Tcp \<and> ep_host l \<in> loopback_hosts \<and>
     wt_id w = ep_worktree_id l \<and> wt_state w \<notin> dead_worktree_states \<and>
     rt_host r = ep_host l \<and> rt_port r = ep_port l \<and> rt_worktree_id r = wt_id w \<and> rt_hostname r = h \<and>
     is_wtm_proxy_hostname h)"

lemma proxy_hostname_is_wtm: "is_wtm_proxy_hostname (proxy_hostname service slug)"
  by (simp add: is_wtm_proxy_hostname_def proxy_hostname_def ends_with_def wtm_localhost_suffix_def)

lemma build_routes_for:
  assumes "map_of (build_proxy_routes digest s) h = Some r"
  shows "route_for s h r"
proof -
  define live where "live = filter (\<lambda>w. wt_state w \<notin> dead_worktree_states) (list_worktrees s None)"
  define slugs where "slugs = assign_proxy_slugs digest (map as_hostname_worktree live)"
  define add where "add = (\<lambda>routes (l :: endpoint_lease). case row_by wt_id (ep_worktree_id l) live of
          None \<Rightarrow> routes
        | Some w \<Rightarrow> (case map_of slugs (wt_id w) of
            None \<Rightarrow> routes
          | Some slug \<Rightarrow> let hostname = proxy_hostname (ep_name l) slug in
              map_set hostname \<lparr> rt_hostname = hostname, rt_host = ep_host l, rt_port = ep_port l,
                rt_worktree_id = wt_id w, rt_service = ep_name l \<rparr> routes))"
  define leases where "leases = filter (\<lambda>l. ep_protocol l = Tcp \<and> ep_host l \<in> loopback_hosts)
           (list_endpoint_leases s \<lparr> eq_worktree_ids = None, eq_name = None, eq_states = Some [EP_ACTIVE] \<rparr>)"
  have step: "route_for s h r" if l: "l \<in> set leases" and old: "\<And>h r. map_of routes h = Some r \<Longrightarrow> route_for s h r"
    and new: "map_of (add routes l) h = Some r" for routes l h r
  proof (cases "map_of routes h = Some r")
    case True
    then show ?thesis by (rule old)
  next
    case False
    with new obtain w slug where w: "row_by wt_id (ep_worktree_id l) live = Some w"
      and h: "h = proxy_hostname (ep_name l) slug"
      and r: "r = \<lparr> rt_hostname = h, rt_host = ep_host l, rt_port = ep_port l, rt_worktree_id = wt_id w, rt_service = ep_name l \<rparr>"
      by (auto simp: add_def Let_def split: option.splits if_splits)
    from row_by_SomeD [OF w] have "w \<in> set (worktrees s)" "wt_state w \<notin> dead_worktree_states" "wt_id w = ep_worktree_id l"
      by (simp_all add: live_def list_worktrees_def)
    moreover from l have "l \<in> set (endpoint_leases s)" "ep_state l = EP_ACTIVE" "ep_protocol l = Tcp" "ep_host l \<in> loopback_hosts"
      by (simp_all add: leases_def list_endpoint_leases_def endpoint_query_matches_def)
    moreover have "is_wtm_proxy_hostname h" unfolding h by (rule proxy_hostname_is_wtm)
    ultimately show ?thesis unfolding route_for_def using r by force
  qed
  have "route_for s h r" if "set ls \<subseteq> set leases" "map_of (foldl add [] ls) h = Some r" for ls h r
    using that
  proof (induction ls arbitrary: h r rule: rev_induct)
    case (snoc l ls)
    from snoc.prems(1) have l: "l \<in> set leases" and ls: "set ls \<subseteq> set leases" by auto
    from snoc.prems(2) have "map_of (add (foldl add [] ls) l) h = Some r" by simp
    from step [OF l snoc.IH [OF ls] this] show ?case .
  qed simp
  moreover have "build_proxy_routes digest s = foldl add [] leases"
    unfolding build_proxy_routes_def add_def leases_def slugs_def live_def Let_def ..
  ultimately show ?thesis using assms by auto
qed

text \<open>
  A worktree discovered later, that is one with the largest numeric id, changes no host name that is already in
  use: wherever it stands in the list, every other worktree keeps the slug it had.
\<close>

theorem hostnames_stable:
  assumes ids: "distinct (map hw_id (xs @ w # ys))"
    and later: "\<And>v. v \<in> set (xs @ ys) \<Longrightarrow> hw_numeric_id v < hw_numeric_id w" and v: "v \<in> set (xs @ ys)"
  shows "map_of (assign_proxy_slugs digest (xs @ w # ys)) (hw_id v) = map_of (assign_proxy_slugs digest (xs @ ys)) (hw_id v)"
proof -
  from ids v have "distinct (map hw_id (xs @ ys))" "v \<in> set (xs @ w # ys)" by auto
  with ids v later show ?thesis by (simp only: assign_slug slug_of_later)
qed

text \<open>
  C35. Every slug is a label: not empty, only lower-case letters, digits and hyphens, no hyphen at either end. (The
  digest is hexadecimal.)
\<close>

theorem slugs_are_labels:
  assumes digest: "\<And>x. digest x \<noteq> [] \<and> list_all hex_char (digest x)"
    and ids: "distinct (map hw_id ws)" and w: "w \<in> set ws"
  shows "\<exists>slug. map_of (assign_proxy_slugs digest ws) (hw_id w) = Some slug \<and> slug_label slug"
proof -
  have "worktree_slug_suffix digest (hw_id w) \<noteq> []" "list_all hex_char (worktree_slug_suffix digest (hw_id w))"
    using digest [of "hw_id w"] by (auto simp: worktree_slug_suffix_def list_all_iff dest: in_set_takeD)
  then have "slug_label (slug_of digest ws w)"
    by (simp add: slug_of_def base_slug_label suffix_label del: append.simps)
  with assign_slug [OF ids w] show ?thesis by simp
qed

text \<open>
  C34. The proxy connects only to ports that a lease holds: a host name that resolves leads to the loopback address and
  port of an active TCP lease of a worktree that is not being torn down, and it is a name under \<open>wtm.localhost\<close>.
\<close>

theorem routes_lead_to_leases:
  assumes "resolve_proxy_route digest s h = Some r"
  shows "\<exists>l\<in>set (endpoint_leases s). \<exists>w\<in>set (worktrees s).
     ep_state l = EP_ACTIVE \<and> ep_protocol l = Tcp \<and> ep_host l \<in> loopback_hosts \<and>
     wt_id w = ep_worktree_id l \<and> wt_state w \<notin> dead_worktree_states \<and>
     rt_host r = ep_host l \<and> rt_port r = ep_port l \<and> rt_worktree_id r = wt_id w \<and> rt_hostname r = h \<and>
     is_wtm_proxy_hostname h"
  using build_routes_for [OF assms [unfolded resolve_proxy_route_def]] unfolding route_for_def .

definition demo_hosts :: "hostname_worktree list" where
  "demo_hosts = [\<lparr> hw_id = ''wa'', hw_numeric_id = 1, hw_branch = Some ''refs/heads/fix/auth'' \<rparr>,
     \<lparr> hw_id = ''wb'', hw_numeric_id = 2, hw_branch = Some ''refs/heads/Fix-Auth'' \<rparr>]"

lemma demo_base: "base_slug (demo_hosts ! 0) = ''fix-auth'' \<and> base_slug (demo_hosts ! 1) = ''fix-auth''"
  by code_simp

lemma demo_slugs: "assign_proxy_slugs (\<lambda>_. ''abcdef012'') demo_hosts = [(''wa'', ''fix-auth''), (''wb'', ''fix-auth-abcdef'')]"
  by code_simp

lemma hostnames_stable_witness:
  "map_of (assign_proxy_slugs (\<lambda>_. ''abcdef012'') [demo_hosts ! 0, demo_hosts ! 1]) ''wa''
     = map_of (assign_proxy_slugs (\<lambda>_. ''abcdef012'') [demo_hosts ! 0]) ''wa''"
proof -
  have id: "hw_id (demo_hosts ! 0) = ''wa''" "hw_id (demo_hosts ! 1) = ''wb''" by (simp_all add: demo_hosts_def)
  have "map_of (assign_proxy_slugs (\<lambda>_. ''abcdef012'') ([demo_hosts ! 0] @ demo_hosts ! 1 # [])) (hw_id (demo_hosts ! 0))
     = map_of (assign_proxy_slugs (\<lambda>_. ''abcdef012'') ([demo_hosts ! 0] @ [])) (hw_id (demo_hosts ! 0))"
    by (rule hostnames_stable) (simp_all add: demo_hosts_def)
  then show ?thesis by (simp add: id)
qed

lemma slugs_are_labels_witness:
  "\<exists>slug. map_of (assign_proxy_slugs (\<lambda>_. ''abcdef012'') demo_hosts) ''wb'' = Some slug \<and> slug_label slug"
proof -
  have "list_all hex_char ''abcdef012''" by code_simp
  then show ?thesis
    using slugs_are_labels [of "\<lambda>_. ''abcdef012''" demo_hosts "demo_hosts ! 1"] by (simp add: demo_hosts_def)
qed

lemma demo_route:
  "map_option rt_port (resolve_proxy_route (\<lambda>_. ''abcdef012'') demo_endpoint_db
     (proxy_hostname ''web'' (base_slug (as_hostname_worktree demo_worktree)))) = Some 3000"
  by code_simp

lemma routes_lead_to_leases_witness:
  "\<exists>l. l \<in> set (endpoint_leases demo_endpoint_db) \<and> ep_port l = 3000 \<and> ep_state l = EP_ACTIVE"
proof -
  from demo_route obtain r where r: "resolve_proxy_route (\<lambda>_. ''abcdef012'') demo_endpoint_db
     (proxy_hostname ''web'' (base_slug (as_hostname_worktree demo_worktree))) = Some r" "rt_port r = 3000" by auto
  from routes_lead_to_leases [OF r(1)] r(2) show ?thesis by metis
qed

text \<open>
  The plain slug goes to the lowest numeric id of the list. Numeric ids start again in every repository, and the routes
  range over all repositories, so a worktree that arrives later in another repository can carry a lower one and take
  the plain slug, and with it the host name, of the worktree that had it.
\<close>

lemma later_repository_takes_slug:
  "map_of (assign_proxy_slugs (\<lambda>_. ''abcdef012'') [demo_hosts ! 1]) ''wb'' = Some ''fix-auth'' \<and>
   map_of (assign_proxy_slugs (\<lambda>_. ''abcdef012'') demo_hosts) ''wb'' = Some ''fix-auth-abcdef''"
  by code_simp

text \<open>A slug is as long as its branch name: the 63 octets of a DNS label are not enforced.\<close>

lemma slug_may_exceed_a_dns_label: "length (slugify_branch_label (replicate 80 (CHR ''a''))) = 80"
  by code_simp

end
