(* ===== verification/Git_Status.thy ===== *)
theory Git_Status
  imports Worktree_Parser
begin

text \<open>
  The reader of \<open>git status --porcelain=v2 -z --untracked-files=all --ignored=matching\<close>
  (\<open>parseStatusPorcelainV2\<close> in \<open>packages/core/src/analysis/worktree-analysis.ts\<close>): what removal takes for work
  that would be lost. A text is the list of the bytes of its UTF-8 form.
\<close>

section \<open>Definitions\<close>

text \<open>The groups of paths, and of their counts.\<close>

record 'a working_tree_groups =
  wg_staged :: 'a
  wg_unstaged :: 'a
  wg_untracked :: 'a
  wg_ignored :: 'a
  wg_unmerged :: 'a
  wg_submodule_dirty :: 'a

datatype working_tree_classification = Is_Clean | Is_Staged | Is_Unstaged | Is_Untracked | Is_Ignored | Is_Unmerged

record working_tree_analysis =
  wa_available :: bool
  wa_classifications :: "working_tree_classification list"
  wa_counts :: "nat working_tree_groups"
  wa_paths :: "string list working_tree_groups"

datatype status_problem = Invalid_Utf8 | Missing_Terminal_Nul | Missing_Fields | Missing_Path | Invalid_Xy
  | Invalid_Submodule | Invalid_Mode | Invalid_Object_Id | Invalid_Rename_Score | Invalid_Xy_Semantics
  | Missing_Rename_Source | Unknown_Record_Type

record malformed_status =
  ms_reason :: status_problem
  ms_record_index :: nat
  ms_record_type :: "string option"

definition malformed :: "status_problem \<Rightarrow> nat \<Rightarrow> string option \<Rightarrow> malformed_status" where
  "malformed reason i record_type = \<lparr> ms_reason = reason, ms_record_index = i, ms_record_type = record_type \<rparr>"

definition add_path :: "string list \<Rightarrow> string \<Rightarrow> string list" where
  "add_path paths path = (if path \<noteq> [] \<and> path \<notin> set paths then paths @ [path] else paths)"

text \<open>\<open>fields[i] ?? ''\<close>\<close>

definition field_at :: "string list \<Rightarrow> nat \<Rightarrow> string" where
  "field_at parts i = (if i < length parts then parts ! i else [])"

text \<open>The first \<open>n\<close> fields end at a space each; the last one is the rest, spaces included.\<close>

fun cut_fixed :: "nat \<Rightarrow> string \<Rightarrow> string list option" where
  "cut_fixed 0 s = Some [s]"
| "cut_fixed (Suc n) s =
    (if CHR '' '' \<notin> set s then None else map_option (Cons (field_key s)) (cut_fixed n (field_value s)))"

definition parse_fixed_status_record :: "string \<Rightarrow> nat \<Rightarrow> nat \<Rightarrow> string \<Rightarrow> malformed_status + string list" where
  "parse_fixed_status_record value separators i record_type =
    (case cut_fixed separators value of
       None \<Rightarrow> Inl (malformed Missing_Fields i (Some record_type))
     | Some fs \<Rightarrow> if last fs = [] then Inl (malformed Missing_Path i (Some record_type)) else Inr fs)"

definition xy_ok :: "string \<Rightarrow> bool" where
  "xy_ok s \<longleftrightarrow> length s = 2 \<and> set s \<subseteq> set ''.MADRCUT''"

definition submodule_ok :: "string \<Rightarrow> bool" where
  "submodule_ok s \<longleftrightarrow> s = ''N...'' \<or>
     length s = 4 \<and> s ! 0 = CHR ''S'' \<and> s ! 1 \<in> set ''.C'' \<and> s ! 2 \<in> set ''.M'' \<and> s ! 3 \<in> set ''.U''"

definition mode_ok :: "string \<Rightarrow> bool" where
  "mode_ok s \<longleftrightarrow> length s = 6 \<and> list_all (byte_in 48 55) s"

definition oid_ok :: "string \<Rightarrow> bool" where
  "oid_ok s \<longleftrightarrow> 40 \<le> length s \<and> length s \<le> 64 \<and> list_all (\<lambda>c. is_digit c \<or> byte_in 97 102 c) s"

definition rename_score_ok :: "string \<Rightarrow> bool" where
  "rename_score_ok s \<longleftrightarrow> length s \<ge> 2 \<and> hd s \<in> set ''RC'' \<and> list_all is_digit (tl s)"

definition validate_status_metadata ::
  "string list \<Rightarrow> nat \<Rightarrow> string \<Rightarrow> nat list \<Rightarrow> nat list \<Rightarrow> malformed_status + unit" where
  "validate_status_metadata fs i record_type mode_indexes oid_indexes =
    (if \<not> xy_ok (field_at fs 1) then Inl (malformed Invalid_Xy i (Some record_type))
     else if \<not> submodule_ok (field_at fs 2) then Inl (malformed Invalid_Submodule i (Some record_type))
     else if list_ex (\<lambda>k. \<not> mode_ok (field_at fs k)) mode_indexes then Inl (malformed Invalid_Mode i (Some record_type))
     else if list_ex (\<lambda>k. \<not> oid_ok (field_at fs k)) oid_indexes then Inl (malformed Invalid_Object_Id i (Some record_type))
     else Inr ())"

definition is_dirty_submodule :: "string \<Rightarrow> bool" where
  "is_dirty_submodule field \<longleftrightarrow> starts_with ''S'' field \<and> list_ex (\<lambda>flag. flag \<noteq> CHR ''.'') (drop 1 field)"

text \<open>\<open>xy[0] ?? ''\<close> and \<open>xy[1] ?? ''\<close> as texts of at most one character.\<close>

definition validate_tracked_status_semantics ::
  "string \<Rightarrow> string \<Rightarrow> nat \<Rightarrow> string \<Rightarrow> malformed_status + unit" where
  "validate_tracked_status_semantics xy submodule i record_type =
    (let index_state = take 1 xy; worktree_state = take 1 (drop 1 xy);
         among = (\<lambda>s cs. length s = 1 \<and> set s \<subseteq> set cs);
         valid = (if record_type = ''1'' then among index_state ''.MTAD'' \<and> among worktree_state ''.MTAD''
                  else among index_state ''RC'' \<and> among worktree_state ''.MTD'');
         has_change = (xy \<noteq> ''..'' \<or> is_dirty_submodule submodule)
     in if \<not> valid \<or> \<not> has_change then Inl (malformed Invalid_Xy_Semantics i (Some record_type)) else Inr ())"

definition classify_working_tree :: "nat working_tree_groups \<Rightarrow> working_tree_classification list" where
  "classify_working_tree counts =
    (let cs = (if wg_staged counts > 0 then [Is_Staged] else []) @ (if wg_unstaged counts > 0 then [Is_Unstaged] else [])
       @ (if wg_untracked counts > 0 then [Is_Untracked] else []) @ (if wg_ignored counts > 0 then [Is_Ignored] else [])
       @ (if wg_unmerged counts > 0 then [Is_Unmerged] else [])
     in if cs = [] then [Is_Clean] else cs)"

text \<open>What a record of a changed tracked path adds.\<close>

definition add_tracked :: "string \<Rightarrow> string \<Rightarrow> string \<Rightarrow> string list working_tree_groups \<Rightarrow> string list working_tree_groups" where
  "add_tracked xy submodule path p =
    (let p1 = (if starts_with ''.'' xy then p else p\<lparr>wg_staged := add_path (wg_staged p) path\<rparr>);
         p2 = (if starts_with ''.'' (drop 1 xy) then p1 else p1\<lparr>wg_unstaged := add_path (wg_unstaged p1) path\<rparr>)
     in if is_dirty_submodule submodule
        then (let p3 = p2\<lparr>wg_submodule_dirty := add_path (wg_submodule_dirty p2) path\<rparr>
              in if xy = ''..'' then p3\<lparr>wg_unstaged := add_path (wg_unstaged p3) path\<rparr> else p3)
        else p2)"

text \<open>One record: the paths with it, and whether the next field is the source of its rename.\<close>

definition parse_status_record ::
  "nat \<Rightarrow> string \<Rightarrow> string list working_tree_groups \<Rightarrow> malformed_status + (string list working_tree_groups \<times> bool)" where
  "parse_status_record i field p =
    (if starts_with ''# '' field
     then if length field = 2 then Inl (malformed Missing_Fields i (Some ''#'')) else Inr (p, False)
     else if starts_with ''? '' field \<or> starts_with ''! '' field
     then if length field = 2 then Inl (malformed Missing_Path i (Some (take 1 field)))
       else if starts_with ''! '' field then Inr (p\<lparr>wg_ignored := add_path (wg_ignored p) (drop 2 field)\<rparr>, False)
       else Inr (p\<lparr>wg_untracked := add_path (wg_untracked p) (drop 2 field)\<rparr>, False)
     else if starts_with ''u '' field
     then (case parse_fixed_status_record field 10 i ''u'' of Inl e \<Rightarrow> Inl e
       | Inr parts \<Rightarrow> (case validate_status_metadata parts i ''u'' [3, 4, 5, 6] [7, 8, 9] of Inl e \<Rightarrow> Inl e
         | Inr _ \<Rightarrow> Inr (p\<lparr>wg_unmerged := add_path (wg_unmerged p) (last parts)\<rparr>, False)))
     else if starts_with ''1 '' field \<or> starts_with ''2 '' field
     then (let renamed = starts_with ''2 '' field; record_type = (if renamed then ''2'' else ''1'') in
       case parse_fixed_status_record field (if renamed then 9 else 8) i record_type of Inl e \<Rightarrow> Inl e
       | Inr parts \<Rightarrow> (case validate_status_metadata parts i record_type [3, 4, 5] [6, 7] of Inl e \<Rightarrow> Inl e
         | Inr _ \<Rightarrow>
             if renamed \<and> \<not> rename_score_ok (field_at parts 8) then Inl (malformed Invalid_Rename_Score i (Some record_type))
             else (case validate_tracked_status_semantics (field_at parts 1) (field_at parts 2) i record_type of Inl e \<Rightarrow> Inl e
               | Inr _ \<Rightarrow> Inr (add_tracked (field_at parts 1) (field_at parts 2) (last parts) p, renamed))))
     else Inl (malformed Unknown_Record_Type i (if field = [] then None else Some (take 1 field))))"

text \<open>The loop over the fields.\<close>

fun parse_status_fields ::
  "nat \<Rightarrow> string list \<Rightarrow> string list working_tree_groups \<Rightarrow> malformed_status + string list working_tree_groups" where
  "parse_status_fields i [] p = Inr p"
| "parse_status_fields i (field # rest) p =
    (if field = [] then parse_status_fields (Suc i) rest p
     else case parse_status_record i field p of
       Inl e \<Rightarrow> Inl e
     | Inr (p', False) \<Rightarrow> parse_status_fields (Suc i) rest p'
     | Inr (p', True) \<Rightarrow> (case rest of
         [] \<Rightarrow> Inl (malformed Missing_Rename_Source i (Some ''2''))
       | source # rest' \<Rightarrow> if source = [] then Inl (malformed Missing_Rename_Source i (Some ''2''))
           else parse_status_fields (Suc (Suc i)) rest' p'))"

definition no_paths :: "string list working_tree_groups" where
  "no_paths = \<lparr> wg_staged = [], wg_unstaged = [], wg_untracked = [], wg_ignored = [], wg_unmerged = [], wg_submodule_dirty = [] \<rparr>"

definition sort_groups :: "(string \<Rightarrow> 'k :: linorder) \<Rightarrow> string list working_tree_groups \<Rightarrow> string list working_tree_groups" where
  "sort_groups collate p = \<lparr> wg_staged = sort_key collate (wg_staged p), wg_unstaged = sort_key collate (wg_unstaged p),
     wg_untracked = sort_key collate (wg_untracked p), wg_ignored = sort_key collate (wg_ignored p),
     wg_unmerged = sort_key collate (wg_unmerged p), wg_submodule_dirty = sort_key collate (wg_submodule_dirty p) \<rparr>"

definition count_groups :: "string list working_tree_groups \<Rightarrow> nat working_tree_groups" where
  "count_groups p = \<lparr> wg_staged = length (wg_staged p), wg_unstaged = length (wg_unstaged p),
     wg_untracked = length (wg_untracked p), wg_ignored = length (wg_ignored p),
     wg_unmerged = length (wg_unmerged p), wg_submodule_dirty = length (wg_submodule_dirty p) \<rparr>"

text \<open>\<open>collate\<close> is the key of \<open>localeCompare\<close>.\<close>

definition parse_status_porcelain_v2 ::
  "(string \<Rightarrow> 'k :: linorder) \<Rightarrow> string \<Rightarrow> malformed_status + working_tree_analysis" where
  "parse_status_porcelain_v2 collate output =
    (case decode_fatal output of
       None \<Rightarrow> Inl (malformed Invalid_Utf8 0 None)
     | Some decoded \<Rightarrow>
         if decoded \<noteq> [] \<and> last decoded \<noteq> nul then Inl (malformed Missing_Terminal_Nul 0 None)
         else (case parse_status_fields 0 (split_on nul decoded) no_paths of
           Inl e \<Rightarrow> Inl e
         | Inr p \<Rightarrow> (let paths = sort_groups collate p; counts = count_groups paths in
             Inr \<lparr> wa_available = True, wa_classifications = classify_working_tree counts,
               wa_counts = counts, wa_paths = paths \<rparr>)))"

section \<open>What git prints\<close>

text \<open>The documented records of the format.\<close>

datatype status_entry =
    Header string
  | Changed string string "string list" "string list" string
  | Renamed string string "string list" "string list" string string string
  | Conflicted string string "string list" "string list" string
  | Untracked_Path string
  | Ignored_Path string

definition spaced :: "string list \<Rightarrow> string" where
  "spaced fs = join_with '' '' fs"

fun entry_fields :: "status_entry \<Rightarrow> string list" where
  "entry_fields (Header h) = [''# '' @ h]"
| "entry_fields (Changed xy sub modes oids path) = [spaced ([''1'', xy, sub] @ modes @ oids @ [path])]"
| "entry_fields (Renamed xy sub modes oids score path source) =
     [spaced ([''2'', xy, sub] @ modes @ oids @ [score] @ [path]), source]"
| "entry_fields (Conflicted xy sub modes oids path) = [spaced ([''u'', xy, sub] @ modes @ oids @ [path])]"
| "entry_fields (Untracked_Path path) = [''? '' @ path]"
| "entry_fields (Ignored_Path path) = [''! '' @ path]"

definition print_status :: "status_entry list \<Rightarrow> string" where
  "print_status es = concat (map (\<lambda>field. field @ [nul]) (concat (map entry_fields es)))"

definition path_ok :: "string \<Rightarrow> bool" where
  "path_ok path \<longleftrightarrow> path \<noteq> [] \<and> nul \<notin> set path"

definition metadata_ok :: "string \<Rightarrow> string \<Rightarrow> string list \<Rightarrow> string list \<Rightarrow> bool" where
  "metadata_ok xy sub modes oids \<longleftrightarrow> xy_ok xy \<and> submodule_ok sub \<and> list_all mode_ok modes \<and> list_all oid_ok oids"

fun entry_ok :: "status_entry \<Rightarrow> bool" where
  "entry_ok (Header h) \<longleftrightarrow> path_ok h"
| "entry_ok (Changed xy sub modes oids path) \<longleftrightarrow> metadata_ok xy sub modes oids \<and> length modes = 3 \<and> length oids = 2 \<and>
     validate_tracked_status_semantics xy sub 0 ''1'' = Inr () \<and> path_ok path"
| "entry_ok (Renamed xy sub modes oids score path source) \<longleftrightarrow> metadata_ok xy sub modes oids \<and> length modes = 3 \<and>
     length oids = 2 \<and> rename_score_ok score \<and> validate_tracked_status_semantics xy sub 0 ''2'' = Inr () \<and>
     path_ok path \<and> path_ok source"
| "entry_ok (Conflicted xy sub modes oids path) \<longleftrightarrow> metadata_ok xy sub modes oids \<and> length modes = 4 \<and>
     length oids = 3 \<and> path_ok path"
| "entry_ok (Untracked_Path path) \<longleftrightarrow> path_ok path"
| "entry_ok (Ignored_Path path) \<longleftrightarrow> path_ok path"

fun entry_adds :: "status_entry \<Rightarrow> string list working_tree_groups \<Rightarrow> string list working_tree_groups" where
  "entry_adds (Header h) p = p"
| "entry_adds (Changed xy sub modes oids path) p = add_tracked xy sub path p"
| "entry_adds (Renamed xy sub modes oids score path source) p = add_tracked xy sub path p"
| "entry_adds (Conflicted xy sub modes oids path) p = p\<lparr>wg_unmerged := add_path (wg_unmerged p) path\<rparr>"
| "entry_adds (Untracked_Path path) p = p\<lparr>wg_untracked := add_path (wg_untracked p) path\<rparr>"
| "entry_adds (Ignored_Path path) p = p\<lparr>wg_ignored := add_path (wg_ignored p) path\<rparr>"

definition is_renamed :: "status_entry \<Rightarrow> bool" where
  "is_renamed e \<longleftrightarrow> (case e of Renamed _ _ _ _ _ _ _ \<Rightarrow> True | _ \<Rightarrow> False)"

lemma cut_fixed_join:
  "list_all (\<lambda>f. CHR '' '' \<notin> set f) fs \<Longrightarrow> cut_fixed (length fs) (spaced (fs @ [path])) = Some (fs @ [path])"
proof (induction fs)
  case Nil
  then show ?case by (simp add: spaced_def)
next
  case (Cons f fs)
  have s: "spaced (f # fs @ [path]) = f @ CHR '' '' # spaced (fs @ [path])" by (simp add: spaced_def join_cons)
  from Cons show ?case
    by (simp add: s field_key_def field_value_def takeWhile_upto dropWhile_upto)
qed

lemma spaced_Cons: "fs \<noteq> [] \<Longrightarrow> spaced (f # fs) = f @ CHR '' '' # spaced fs"
  by (simp add: spaced_def join_cons)

lemma starts_with_Cons [simp]: "starts_with (p # ps) (c # cs) \<longleftrightarrow> p = c \<and> starts_with ps cs" "starts_with [] cs"
  by (auto simp: starts_with_def)

lemma no_space: "mode_ok s \<Longrightarrow> CHR '' '' \<notin> set s" "oid_ok s \<Longrightarrow> CHR '' '' \<notin> set s" "xy_ok s \<Longrightarrow> CHR '' '' \<notin> set s"
  by (auto simp: mode_ok_def oid_ok_def xy_ok_def byte_in_def is_digit_def list_all_iff)

lemma no_nul: "mode_ok s \<Longrightarrow> nul \<notin> set s" "oid_ok s \<Longrightarrow> nul \<notin> set s" "xy_ok s \<Longrightarrow> nul \<notin> set s"
  by (auto simp: mode_ok_def oid_ok_def xy_ok_def byte_in_def is_digit_def list_all_iff nul_def)

lemma length_4: "length s = 4 \<longleftrightarrow> (\<exists>a b c d. s = [a, b, c, d])"
  by (auto simp: length_Suc_conv numeral_eq_Suc)

lemma submodule_chars: "submodule_ok s \<Longrightarrow> CHR '' '' \<notin> set s \<and> nul \<notin> set s"
  by (auto simp: submodule_ok_def length_4 nul_def)

lemma score_chars: "rename_score_ok s \<Longrightarrow> CHR '' '' \<notin> set s \<and> nul \<notin> set s"
  by (cases s) (auto simp: rename_score_ok_def is_digit_def list_all_iff nul_def)

lemma metadata_spaces:
  "metadata_ok xy sub modes oids \<Longrightarrow> list_all (\<lambda>f. CHR '' '' \<notin> set f) ([xy, sub] @ modes @ oids)"
  by (auto simp: metadata_ok_def list_all_iff no_space dest: submodule_chars)

lemma metadata_nul: "metadata_ok xy sub modes oids \<Longrightarrow> list_all (\<lambda>f. nul \<notin> set f) ([xy, sub] @ modes @ oids)"
  by (auto simp: metadata_ok_def list_all_iff no_nul dest: submodule_chars)

lemma length_2: "length s = 2 \<longleftrightarrow> (\<exists>a b. s = [a, b])"
  and length_3: "length s = 3 \<longleftrightarrow> (\<exists>a b c. s = [a, b, c])"
  by (auto simp: length_Suc_conv numeral_eq_Suc)

lemma validate_printed_tracked:
  assumes "metadata_ok xy sub modes oids" and "length modes = 3" and "length oids = 2"
  shows "validate_status_metadata ([x, xy, sub] @ modes @ oids @ tail) i t [3, 4, 5] [6, 7] = Inr ()"
proof -
  from assms(2,3) obtain a b c d e where m: "modes = [a, b, c]" "oids = [d, e]" by (auto simp: length_2 length_3)
  from assms(1) show ?thesis unfolding m
    by (simp add: metadata_ok_def validate_status_metadata_def field_at_def)
qed

lemma validate_printed_unmerged:
  assumes "metadata_ok xy sub modes oids" and "length modes = 4" and "length oids = 3"
  shows "validate_status_metadata ([x, xy, sub] @ modes @ oids @ tail) i t [3, 4, 5, 6] [7, 8, 9] = Inr ()"
proof -
  from assms(2,3) obtain a b c d e f g where m: "modes = [a, b, c, d]" "oids = [e, f, g]" by (auto simp: length_4 length_3)
  from assms(1) show ?thesis unfolding m
    by (simp add: metadata_ok_def validate_status_metadata_def field_at_def)
qed

lemma if_Inl_Inr: "(if c then Inl a else Inr ()) = Inr () \<longleftrightarrow> \<not> c"
  by simp

lemma semantics_index: "validate_tracked_status_semantics xy sub 0 t = Inr () \<Longrightarrow> validate_tracked_status_semantics xy sub i t = Inr ()"
  unfolding validate_tracked_status_semantics_def Let_def if_Inl_Inr .

lemma parse_fixed_printed:
  assumes "list_all (\<lambda>f. CHR '' '' \<notin> set f) fs" and "path \<noteq> []" and "length fs = n"
  shows "parse_fixed_status_record (spaced (fs @ [path])) n i t = Inr (fs @ [path])"
  using cut_fixed_join [OF assms(1), of path] assms(2,3) by (simp add: parse_fixed_status_record_def)

lemma record_header:
  "path_ok h \<Longrightarrow> parse_status_record i (''# '' @ h) p = Inr (p, False)"
  by (simp add: parse_status_record_def path_ok_def)

lemma record_untracked:
  "path_ok path \<Longrightarrow> parse_status_record i (''? '' @ path) p = Inr (p\<lparr>wg_untracked := add_path (wg_untracked p) path\<rparr>, False)"
  by (simp add: parse_status_record_def path_ok_def)

lemma record_ignored:
  "path_ok path \<Longrightarrow> parse_status_record i (''! '' @ path) p = Inr (p\<lparr>wg_ignored := add_path (wg_ignored p) path\<rparr>, False)"
  by (simp add: parse_status_record_def path_ok_def)

lemma record_unmerged:
  assumes m: "metadata_ok xy sub modes oids" and l: "length modes = 4" "length oids = 3" and "path_ok path"
  shows "parse_status_record i (spaced ([''u'', xy, sub] @ modes @ oids @ [path])) p =
    Inr (p\<lparr>wg_unmerged := add_path (wg_unmerged p) path\<rparr>, False)"
proof -
  define line where "line = spaced ([''u'', xy, sub] @ modes @ oids @ [path])"
  have start: "line = CHR ''u'' # CHR '' '' # spaced ([xy, sub] @ modes @ oids @ [path])"
    by (simp add: line_def spaced_Cons)
  have fixed: "parse_fixed_status_record line 10 i ''u'' = Inr ([''u'', xy, sub] @ modes @ oids @ [path])"
    using parse_fixed_printed [of "[''u'', xy, sub] @ modes @ oids" path 10 i "''u''"] metadata_spaces [OF m] l assms(4)
    by (simp add: line_def path_ok_def)
  show ?thesis
    unfolding line_def [symmetric]
    using validate_printed_unmerged [OF m l, of "''u''" "[path]" i "''u''"]
    by (simp add: parse_status_record_def fixed) (simp add: start)
qed

lemma record_tracked_checked:
  assumes m: "metadata_ok xy sub modes oids" and l: "length modes = 3" "length oids = 2" and path: "path_ok path"
    and t: "t = ''1'' \<and> score = [] \<or> t = ''2'' \<and> (\<exists>x. score = [x] \<and> rename_score_ok x)"
  shows "parse_status_record i (spaced ([t, xy, sub] @ modes @ oids @ score @ [path])) p =
    (case validate_tracked_status_semantics xy sub i t of Inl e \<Rightarrow> Inl e | Inr _ \<Rightarrow> Inr (add_tracked xy sub path p, t = ''2''))"
proof -
  define line where "line = spaced ([t, xy, sub] @ modes @ oids @ score @ [path])"
  have start: "line = t @ CHR '' '' # spaced ([xy, sub] @ modes @ oids @ score @ [path])"
    by (simp add: line_def spaced_Cons)
  have score: "list_all (\<lambda>f. CHR '' '' \<notin> set f) score" using t by (auto dest: score_chars)
  have t_space: "CHR '' '' \<notin> set t" using t by auto
  have "list_all (\<lambda>f. CHR '' '' \<notin> set f) ([t, xy, sub] @ modes @ oids @ score)"
    using metadata_spaces [OF m] score t_space by simp
  moreover have "length ([t, xy, sub] @ modes @ oids @ score) = (if t = ''2'' then 9 else 8)" using l t by auto
  ultimately have fixed: "parse_fixed_status_record line (if t = ''2'' then 9 else 8) i t = Inr ([t, xy, sub] @ modes @ oids @ score @ [path])"
    using parse_fixed_printed [of "[t, xy, sub] @ modes @ oids @ score" path _ i t] path by (simp add: line_def path_ok_def)
  have at: "field_at ([t, xy, sub] @ modes @ oids @ score @ [path]) 1 = xy" "field_at ([t, xy, sub] @ modes @ oids @ score @ [path]) 2 = sub"
    "last ([t, xy, sub] @ modes @ oids @ score @ [path]) = path"
    by (simp_all add: field_at_def)
  have at8: "t = ''2'' \<Longrightarrow> rename_score_ok (field_at ([t, xy, sub] @ modes @ oids @ score @ [path]) 8)"
    using t l by (auto simp: field_at_def nth_append)
  have valid: "validate_status_metadata ([t, xy, sub] @ modes @ oids @ score @ [path]) i t [3, 4, 5] [6, 7] = Inr ()"
    by (rule validate_printed_tracked [OF m l])
  show ?thesis
    unfolding line_def [symmetric]
  proof (cases "t = ''2''")
    case True
    then have "starts_with ''2 '' line" "\<not> starts_with ''1 '' line" "\<not> starts_with ''# '' line" "\<not> starts_with ''? '' line"
      "\<not> starts_with ''! '' line" "\<not> starts_with ''u '' line" by (simp_all add: start)
    with fixed valid at at8 True show "parse_status_record i line p =
        (case validate_tracked_status_semantics xy sub i t of Inl e \<Rightarrow> Inl e | Inr _ \<Rightarrow> Inr (add_tracked xy sub path p, t = ''2''))"
      by (simp add: parse_status_record_def Let_def split: sum.split)
  next
    case False
    with t have "t = ''1''" by blast
    then have "starts_with ''1 '' line" "\<not> starts_with ''2 '' line" "\<not> starts_with ''# '' line" "\<not> starts_with ''? '' line"
      "\<not> starts_with ''! '' line" "\<not> starts_with ''u '' line" by (simp_all add: start)
    with fixed valid at \<open>t = ''1''\<close> show "parse_status_record i line p =
        (case validate_tracked_status_semantics xy sub i t of Inl e \<Rightarrow> Inl e | Inr _ \<Rightarrow> Inr (add_tracked xy sub path p, t = ''2''))"
      by (simp add: parse_status_record_def Let_def split: sum.split)
  qed
qed

lemma record_tracked:
  assumes "metadata_ok xy sub modes oids" and "length modes = 3" "length oids = 2" and "path_ok path"
    and v: "validate_tracked_status_semantics xy sub 0 t = Inr ()"
    and "t = ''1'' \<and> score = [] \<or> t = ''2'' \<and> (\<exists>x. score = [x] \<and> rename_score_ok x)"
  shows "parse_status_record i (spaced ([t, xy, sub] @ modes @ oids @ score @ [path])) p = Inr (add_tracked xy sub path p, t = ''2'')"
  using record_tracked_checked [OF assms(1-4,6), of i p] semantics_index [OF v, of i] by simp

lemma record_printed:
  assumes "entry_ok e"
  shows "parse_status_record i (hd (entry_fields e)) p = Inr (entry_adds e p, is_renamed e)"
proof (cases e)
  case (Header h)
  with assms show ?thesis by (simp add: record_header is_renamed_def del: append.simps)
next
  case (Changed xy sub modes oids path)
  with assms record_tracked [of xy sub modes oids path "''1''" "[]" i p] show ?thesis by (simp add: is_renamed_def)
next
  case (Renamed xy sub modes oids score path source)
  with assms record_tracked [of xy sub modes oids path "''2''" "[score]" i p] show ?thesis by (simp add: is_renamed_def)
next
  case (Conflicted xy sub modes oids path)
  with assms record_unmerged [of xy sub modes oids path i p] show ?thesis by (simp add: is_renamed_def)
next
  case (Untracked_Path path)
  with assms show ?thesis by (simp add: record_untracked is_renamed_def del: append.simps)
next
  case (Ignored_Path path)
  with assms show ?thesis by (simp add: record_ignored is_renamed_def del: append.simps)
qed

lemma entry_fields_shape:
  "entry_ok e \<Longrightarrow> hd (entry_fields e) \<noteq> [] \<and>
     (if is_renamed e then \<exists>source. source \<noteq> [] \<and> entry_fields e = [hd (entry_fields e), source]
      else entry_fields e = [hd (entry_fields e)])"
  by (cases e) (auto simp: is_renamed_def spaced_Cons path_ok_def)

lemma parse_printed:
  "list_all entry_ok es \<Longrightarrow>
   parse_status_fields i (concat (map entry_fields es) @ [[]]) p = Inr (foldl (\<lambda>p e. entry_adds e p) p es)"
proof (induction es arbitrary: i p)
  case (Cons e es)
  from Cons.prems have e: "entry_ok e" and es: "list_all entry_ok es" by simp_all
  define f where "f = hd (entry_fields e)"
  have r: "parse_status_record i f p = Inr (entry_adds e p, is_renamed e)"
    unfolding f_def by (rule record_printed [OF e])
  from entry_fields_shape [OF e] have f: "f \<noteq> []" by (simp add: f_def)
  show ?case
  proof (cases "is_renamed e")
    case True
    with entry_fields_shape [OF e] obtain source where "source \<noteq> []" "entry_fields e = [f, source]" by (auto simp: f_def)
    with r f True Cons.IH [OF es] show ?thesis by simp
  next
    case False
    with entry_fields_shape [OF e] have "entry_fields e = [f]" by (simp add: f_def)
    with r f False Cons.IH [OF es] show ?thesis by simp
  qed
qed simp

lemma spaced_nul: "list_all (\<lambda>f. nul \<notin> set f) fs \<Longrightarrow> nul \<notin> set (spaced fs)"
  unfolding spaced_def by (induction "'' ''" fs rule: join_with.induct) (auto simp: nul_def)

lemma spaced_entry_nul:
  assumes "metadata_ok xy sub modes oids" and "nul \<notin> set t" and "list_all (\<lambda>f. nul \<notin> set f) rest"
  shows "nul \<notin> set (spaced ([t, xy, sub] @ modes @ oids @ rest))"
  using metadata_nul [OF assms(1)] assms(2,3) by (intro spaced_nul) simp

lemma entry_fields_nul: "entry_ok e \<Longrightarrow> list_all (\<lambda>field. nul \<notin> set field) (entry_fields e)"
proof (cases e)
  case (Changed xy sub modes oids path)
  then show "entry_ok e \<Longrightarrow> ?thesis"
    using spaced_entry_nul [of xy sub modes oids "''1''" "[path]"] by (simp add: path_ok_def nul_def)
next
  case (Renamed xy sub modes oids score path source)
  then show "entry_ok e \<Longrightarrow> ?thesis"
    using spaced_entry_nul [of xy sub modes oids "''2''" "[score, path]"] score_chars [of score] by (simp add: path_ok_def nul_def)
next
  case (Conflicted xy sub modes oids path)
  then show "entry_ok e \<Longrightarrow> ?thesis"
    using spaced_entry_nul [of xy sub modes oids "''u''" "[path]"] by (simp add: path_ok_def nul_def)
qed (simp_all add: path_ok_def nul_def)

section \<open>Which paths a record names\<close>

fun entry_sets :: "status_entry \<Rightarrow> string set working_tree_groups" where
  "entry_sets (Header h) = \<lparr> wg_staged = {}, wg_unstaged = {}, wg_untracked = {}, wg_ignored = {}, wg_unmerged = {}, wg_submodule_dirty = {} \<rparr>"
| "entry_sets (Changed xy sub modes oids path) = \<lparr> wg_staged = (if xy ! 0 = CHR ''.'' then {} else {path}),
     wg_unstaged = (if xy ! 1 = CHR ''.'' \<and> xy \<noteq> ''..'' then {} else {path}), wg_untracked = {}, wg_ignored = {}, wg_unmerged = {},
     wg_submodule_dirty = (if is_dirty_submodule sub then {path} else {}) \<rparr>"
| "entry_sets (Renamed xy sub modes oids score path source) = \<lparr> wg_staged = {path},
     wg_unstaged = (if xy ! 1 = CHR ''.'' then {} else {path}), wg_untracked = {}, wg_ignored = {}, wg_unmerged = {},
     wg_submodule_dirty = (if is_dirty_submodule sub then {path} else {}) \<rparr>"
| "entry_sets (Conflicted xy sub modes oids path) = \<lparr> wg_staged = {}, wg_unstaged = {}, wg_untracked = {}, wg_ignored = {},
     wg_unmerged = {path}, wg_submodule_dirty = {} \<rparr>"
| "entry_sets (Untracked_Path path) = \<lparr> wg_staged = {}, wg_unstaged = {}, wg_untracked = {path}, wg_ignored = {}, wg_unmerged = {}, wg_submodule_dirty = {} \<rparr>"
| "entry_sets (Ignored_Path path) = \<lparr> wg_staged = {}, wg_unstaged = {}, wg_untracked = {}, wg_ignored = {path}, wg_unmerged = {}, wg_submodule_dirty = {} \<rparr>"

definition set_groups :: "string list working_tree_groups \<Rightarrow> string set working_tree_groups" where
  "set_groups p = \<lparr> wg_staged = set (wg_staged p), wg_unstaged = set (wg_unstaged p), wg_untracked = set (wg_untracked p),
     wg_ignored = set (wg_ignored p), wg_unmerged = set (wg_unmerged p), wg_submodule_dirty = set (wg_submodule_dirty p) \<rparr>"

definition join_groups :: "string set working_tree_groups \<Rightarrow> string set working_tree_groups \<Rightarrow> string set working_tree_groups" where
  "join_groups a b = \<lparr> wg_staged = wg_staged a \<union> wg_staged b, wg_unstaged = wg_unstaged a \<union> wg_unstaged b,
     wg_untracked = wg_untracked a \<union> wg_untracked b, wg_ignored = wg_ignored a \<union> wg_ignored b,
     wg_unmerged = wg_unmerged a \<union> wg_unmerged b, wg_submodule_dirty = wg_submodule_dirty a \<union> wg_submodule_dirty b \<rparr>"

lemma set_add_path: "path \<noteq> [] \<Longrightarrow> set (add_path paths path) = insert path (set paths)"
  by (auto simp: add_path_def)

text \<open>A tracked record that passed validation is staged, unstaged or a dirty submodule.\<close>

lemma valid_xy:
  assumes "xy_ok xy"
  shows "\<exists>x y. xy = [x, y]"
  using assms by (simp add: xy_ok_def length_2)

lemma set_add_tracked:
  assumes "xy_ok xy" and "path \<noteq> []"
  shows "set_groups (add_tracked xy sub path p) = join_groups (set_groups p) \<lparr>
    wg_staged = (if xy ! 0 = CHR ''.'' then {} else {path}),
    wg_unstaged = (if xy ! 1 = CHR ''.'' \<and> \<not> (xy = ''..'' \<and> is_dirty_submodule sub) then {} else {path}),
    wg_untracked = {}, wg_ignored = {}, wg_unmerged = {},
    wg_submodule_dirty = (if is_dirty_submodule sub then {path} else {}) \<rparr>"
proof -
  from valid_xy [OF assms(1)] obtain x y where xy: "xy = [x, y]" by blast
  have dot: "starts_with ''.'' (c # cs) \<longleftrightarrow> c = CHR ''.''" for c cs by (auto simp: starts_with_def)
  show ?thesis
    using assms(2)
    by (simp add: xy add_tracked_def Let_def dot set_groups_def join_groups_def set_add_path)
qed

lemma set_entry_adds:
  assumes "entry_ok e"
  shows "set_groups (entry_adds e p) = join_groups (set_groups p) (entry_sets e)"
proof (cases e)
  case (Changed xy sub modes oids path)
  with assms have ok: "xy_ok xy" "path \<noteq> []" "validate_tracked_status_semantics xy sub 0 ''1'' = Inr ()"
    by (simp_all add: metadata_ok_def path_ok_def)
  from ok(3) have "xy = ''..'' \<Longrightarrow> is_dirty_submodule sub"
    unfolding validate_tracked_status_semantics_def Let_def if_Inl_Inr by blast
  with Changed show ?thesis by (auto simp: set_add_tracked [OF ok(1,2)])
next
  case (Renamed xy sub modes oids score path source)
  with assms have ok: "xy_ok xy" "path \<noteq> []" "validate_tracked_status_semantics xy sub 0 ''2'' = Inr ()"
    by (simp_all add: metadata_ok_def path_ok_def)
  from valid_xy [OF ok(1)] obtain x y where xy: "xy = [x, y]" by blast
  from ok(3) have "x \<in> set ''RC''" unfolding validate_tracked_status_semantics_def Let_def if_Inl_Inr xy by simp
  then have "xy ! 0 \<noteq> CHR ''.''" "xy \<noteq> ''..''" by (auto simp: xy)
  with Renamed show ?thesis by (simp add: set_add_tracked [OF ok(1,2)])
qed (use assms in \<open>auto simp: set_groups_def join_groups_def set_add_path path_ok_def\<close>)

lemma entry_first_char:
  "entry_ok e \<Longrightarrow> \<exists>c cs rest. entry_fields e = (c # cs) # rest \<and> c \<noteq> CHR 0xEF"
  by (cases e) (auto simp: spaced_Cons)

lemma no_byte_order_mark: "list_all entry_ok es \<Longrightarrow> \<not> starts_with byte_order_mark (print_status es)"
proof (cases es)
  case (Cons e es')
  assume "list_all entry_ok es"
  with Cons entry_first_char [of e] obtain c cs rest where "entry_fields e = (c # cs) # rest" "c \<noteq> CHR 0xEF" by auto
  with Cons show ?thesis by (simp add: print_status_def byte_order_mark_def)
qed (simp add: print_status_def byte_order_mark_def starts_with_def)

lemma last_field:
  "concat (map (\<lambda>field. field @ [nul]) fs) \<noteq> [] \<Longrightarrow> last (concat (map (\<lambda>field. field @ [nul]) fs)) = nul"
  by (cases fs rule: rev_cases) simp_all

lemma print_status_fields:
  assumes "list_all entry_ok es"
  shows "split_on nul (print_status es) = concat (map entry_fields es) @ [[]]"
    and "print_status es \<noteq> [] \<Longrightarrow> last (print_status es) = nul"
proof -
  have "list_all (\<lambda>field. nul \<notin> set field) (concat (map entry_fields es))"
    using assms entry_fields_nul by (auto simp: list_all_iff)
  then show "split_on nul (print_status es) = concat (map entry_fields es) @ [[]]"
    unfolding print_status_def by (rule split_fields)
  show "print_status es \<noteq> [] \<Longrightarrow> last (print_status es) = nul"
    unfolding print_status_def by (rule last_field)
qed

lemma fold_sets:
  "list_all entry_ok es \<Longrightarrow>
   set_groups (foldl (\<lambda>p e. entry_adds e p) p es) = foldl (\<lambda>g e. join_groups g (entry_sets e)) (set_groups p) es"
  by (induction es arbitrary: p) (simp_all add: set_entry_adds)

lemma fold_join:
  "foldl (\<lambda>g e. join_groups g (entry_sets e)) g es = \<lparr>
     wg_staged = wg_staged g \<union> (\<Union>e\<in>set es. wg_staged (entry_sets e)),
     wg_unstaged = wg_unstaged g \<union> (\<Union>e\<in>set es. wg_unstaged (entry_sets e)),
     wg_untracked = wg_untracked g \<union> (\<Union>e\<in>set es. wg_untracked (entry_sets e)),
     wg_ignored = wg_ignored g \<union> (\<Union>e\<in>set es. wg_ignored (entry_sets e)),
     wg_unmerged = wg_unmerged g \<union> (\<Union>e\<in>set es. wg_unmerged (entry_sets e)),
     wg_submodule_dirty = wg_submodule_dirty g \<union> (\<Union>e\<in>set es. wg_submodule_dirty (entry_sets e)) \<rparr>"
  by (induction es arbitrary: g) (auto simp: join_groups_def)

lemma set_sort_groups [simp]: "set_groups (sort_groups collate p) = set_groups p"
  by (simp add: set_groups_def sort_groups_def)

section \<open>The documented records\<close>

text \<open>
  The states of the manual of \<open>git status\<close>, column by column, with a dot for a column that has not changed; a rename or
  copy that git sees in the work tree alone has the dot in the first column.
\<close>

definition changed_states :: "string list" where
  "changed_states = [''.A'', ''.M'', ''.T'', ''.D'', ''M.'', ''MM'', ''MT'', ''MD'', ''T.'', ''TM'', ''TT'', ''TD'',
     ''A.'', ''AM'', ''AT'', ''AD'', ''D.'']"

definition rename_states :: "string list" where
  "rename_states = [''R.'', ''RM'', ''RT'', ''RD'', ''C.'', ''CM'', ''CT'', ''CD'']"

definition worktree_rename_states :: "string list" where
  "worktree_rename_states = [''.R'', ''.C'']"

definition unmerged_states :: "string list" where
  "unmerged_states = [''DD'', ''AU'', ''UD'', ''UA'', ''DU'', ''AA'', ''UU'']"

definition submodule_states :: "string list" where
  "submodule_states = [''N...'', ''S...'', ''SC..'', ''S.M.'', ''S..U'', ''SCM.'', ''SC.U'', ''S.MU'', ''SCMU'']"

definition octal_mode :: "string \<Rightarrow> bool" where
  "octal_mode s \<longleftrightarrow> length s = 6 \<and> set s \<subseteq> set ''01234567''"

definition object_name :: "string \<Rightarrow> bool" where
  "object_name s \<longleftrightarrow> (length s = 40 \<or> length s = 64) \<and> set s \<subseteq> set ''0123456789abcdef''"

definition similarity_score :: "string \<Rightarrow> bool" where
  "similarity_score s \<longleftrightarrow> (\<exists>digits. digits \<noteq> [] \<and> set digits \<subseteq> set ''0123456789'' \<and> (s = CHR ''R'' # digits \<or> s = CHR ''C'' # digits))"

fun documented :: "status_entry \<Rightarrow> bool" where
  "documented (Header h) \<longleftrightarrow> path_ok h"
| "documented (Changed xy sub modes oids path) \<longleftrightarrow> xy \<in> set changed_states \<and> sub \<in> set submodule_states \<and>
     length modes = 3 \<and> list_all octal_mode modes \<and> length oids = 2 \<and> list_all object_name oids \<and> path_ok path"
| "documented (Renamed xy sub modes oids score path source) \<longleftrightarrow> xy \<in> set (rename_states @ worktree_rename_states) \<and>
     sub \<in> set submodule_states \<and> length modes = 3 \<and> list_all octal_mode modes \<and> length oids = 2 \<and> list_all object_name oids \<and>
     similarity_score score \<and> path_ok path \<and> path_ok source"
| "documented (Conflicted xy sub modes oids path) \<longleftrightarrow> xy \<in> set unmerged_states \<and> sub \<in> set submodule_states \<and>
     length modes = 4 \<and> list_all octal_mode modes \<and> length oids = 3 \<and> list_all object_name oids \<and> path_ok path"
| "documented (Untracked_Path path) \<longleftrightarrow> path_ok path"
| "documented (Ignored_Path path) \<longleftrightarrow> path_ok path"

fun worktree_rename :: "status_entry \<Rightarrow> bool" where
  "worktree_rename (Renamed xy sub modes oids score path source) \<longleftrightarrow> xy \<in> set worktree_rename_states"
| "worktree_rename _ \<longleftrightarrow> False"

lemma octal_mode_ok: "octal_mode s \<Longrightarrow> mode_ok s"
  by (auto simp: octal_mode_def mode_ok_def list_all_iff byte_in_def)

lemma object_name_ok: "object_name s \<Longrightarrow> oid_ok s"
  by (auto simp: object_name_def oid_ok_def list_all_iff byte_in_def is_digit_def)

lemma similarity_score_ok: "similarity_score s \<Longrightarrow> rename_score_ok s"
  by (auto simp: similarity_score_def rename_score_ok_def list_all_iff is_digit_def Suc_le_eq)

lemma submodule_states_ok: "sub \<in> set submodule_states \<Longrightarrow> submodule_ok sub"
proof -
  have "list_all submodule_ok submodule_states" by code_simp
  then show "sub \<in> set submodule_states \<Longrightarrow> submodule_ok sub" by (simp add: list_all_iff)
qed

lemma states_ok:
  "xy \<in> set (changed_states @ rename_states @ worktree_rename_states @ unmerged_states) \<Longrightarrow> xy_ok xy"
proof -
  have "list_all xy_ok (changed_states @ rename_states @ worktree_rename_states @ unmerged_states)" by code_simp
  then show "xy \<in> set (changed_states @ rename_states @ worktree_rename_states @ unmerged_states) \<Longrightarrow> xy_ok xy"
    by (simp add: list_all_iff)
qed

text \<open>What the check of the two columns says of the documented states.\<close>

definition states_checked :: "string \<Rightarrow> string list \<Rightarrow> bool \<Rightarrow> bool" where
  "states_checked t states accepted \<longleftrightarrow> list_all (\<lambda>xy. list_all (\<lambda>sub.
     isl (validate_tracked_status_semantics xy sub 0 t) = (\<not> accepted)) submodule_states) states"

lemma documented_states_checked:
  "states_checked ''1'' changed_states True" "states_checked ''2'' rename_states True"
  "states_checked ''2'' worktree_rename_states False"
  by code_simp+

lemma states_checkedD:
  assumes "states_checked t states accepted" and "xy \<in> set states" and "sub \<in> set submodule_states"
  shows "(validate_tracked_status_semantics xy sub 0 t = Inr ()) = accepted"
proof -
  have "isl (validate_tracked_status_semantics xy sub 0 t) = (\<not> accepted)"
    using assms unfolding states_checked_def list_all_iff by blast
  then show ?thesis by (cases "validate_tracked_status_semantics xy sub 0 t") simp_all
qed

lemma documented_metadata:
  "xy \<in> set (changed_states @ rename_states @ worktree_rename_states @ unmerged_states) \<Longrightarrow> sub \<in> set submodule_states \<Longrightarrow>
   list_all octal_mode modes \<Longrightarrow> list_all object_name oids \<Longrightarrow> metadata_ok xy sub modes oids"
  using states_ok submodule_states_ok octal_mode_ok object_name_ok by (auto simp: metadata_ok_def list_all_iff)

lemma documented_entry_ok: "documented e \<Longrightarrow> \<not> worktree_rename e \<Longrightarrow> entry_ok e"
  by (cases e)
    (auto simp: documented_metadata similarity_score_ok states_checkedD [OF documented_states_checked(1)]
      states_checkedD [OF documented_states_checked(2)])

lemma worktree_rename_fields:
  assumes "documented e" and "worktree_rename e"
  shows "\<exists>field source. entry_fields e = [field, source] \<and> field \<noteq> [] \<and> hd field = CHR ''2'' \<and>
    nul \<notin> set field \<and> nul \<notin> set source \<and> (\<forall>i p. isl (parse_status_record i field p))"
proof -
  from assms(2) obtain xy sub modes oids score path source where e: "e = Renamed xy sub modes oids score path source"
    by (cases e) simp_all
  note d = assms [unfolded e]
  then have m: "metadata_ok xy sub modes oids" by (simp add: documented_metadata)
  have score: "rename_score_ok score" using d by (simp add: similarity_score_ok)
  have refused: "isl (validate_tracked_status_semantics xy sub i ''2'')" for i
  proof -
    have "validate_tracked_status_semantics xy sub 0 ''2'' \<noteq> Inr ()"
      using states_checkedD [OF documented_states_checked(3)] d by simp
    then have "validate_tracked_status_semantics xy sub i ''2'' \<noteq> Inr ()"
      unfolding validate_tracked_status_semantics_def Let_def if_Inl_Inr .
    then show ?thesis by (cases "validate_tracked_status_semantics xy sub i ''2''") simp_all
  qed
  define field where "field = spaced ([''2'', xy, sub] @ modes @ oids @ [score] @ [path])"
  have "isl (parse_status_record i field p)" for i p
    using record_tracked_checked [of xy sub modes oids path "''2''" "[score]" i p] m d score refused [of i]
    by (cases "validate_tracked_status_semantics xy sub i ''2''") (simp_all add: field_def)
  moreover have "nul \<notin> set field"
    using spaced_entry_nul [OF m, of "''2''" "[score, path]"] d score_chars [OF score] by (simp add: field_def path_ok_def nul_def)
  moreover have "field \<noteq> [] \<and> hd field = CHR ''2''" by (simp add: field_def spaced_Cons)
  ultimately show ?thesis using d by (auto simp: e field_def path_ok_def)
qed

lemma documented_fields:
  assumes "documented e"
  shows "list_all (\<lambda>field. nul \<notin> set field) (entry_fields e) \<and> (\<exists>c cs rest. entry_fields e = (c # cs) # rest \<and> c \<noteq> CHR 0xEF)"
proof (cases "worktree_rename e")
  case True
  from worktree_rename_fields [OF assms True] obtain field source where "entry_fields e = [field, source]" "field \<noteq> []"
    "hd field = CHR ''2''" "nul \<notin> set field" "nul \<notin> set source" by blast
  then show ?thesis by (cases field) simp_all
next
  case False
  from documented_entry_ok [OF assms this] show ?thesis using entry_fields_nul entry_first_char by blast
qed

text \<open>Documented records up to the first rename of the work tree are read; that one ends the reading.\<close>

lemma parse_refused:
  "list_all documented es \<Longrightarrow> list_ex worktree_rename es \<Longrightarrow>
   isl (parse_status_fields i (concat (map entry_fields es) @ [[]]) p)"
proof (induction es arbitrary: i p)
  case (Cons e es)
  show ?case
  proof (cases "worktree_rename e")
    case True
    from worktree_rename_fields [of e] Cons.prems True obtain field source where
      f: "entry_fields e = [field, source]" "field \<noteq> []" "\<And>i p. isl (parse_status_record i field p)" by auto
    from f(3) [of i p] show ?thesis
      by (cases "parse_status_record i field p") (simp_all add: f(1,2))
  next
    case False
    with Cons.prems have e: "entry_ok e" and es: "list_all documented es" "list_ex worktree_rename es"
      by (simp_all add: documented_entry_ok)
    define f where "f = hd (entry_fields e)"
    have r: "parse_status_record i f p = Inr (entry_adds e p, is_renamed e)"
      unfolding f_def by (rule record_printed [OF e])
    from entry_fields_shape [OF e] have f: "f \<noteq> []" by (simp add: f_def)
    show ?thesis
    proof (cases "is_renamed e")
      case True
      with entry_fields_shape [OF e] obtain source where "source \<noteq> []" "entry_fields e = [f, source]" by (auto simp: f_def)
      with r f True Cons.IH [OF es] show ?thesis by simp
    next
      case False
      with entry_fields_shape [OF e] have "entry_fields e = [f]" by (simp add: f_def)
      with r f False Cons.IH [OF es] show ?thesis by simp
    qed
  qed
qed simp

lemma documented_output:
  assumes "list_all documented es"
  shows "split_on nul (print_status es) = concat (map entry_fields es) @ [[]]"
    and "print_status es \<noteq> [] \<Longrightarrow> last (print_status es) = nul"
    and "\<not> starts_with byte_order_mark (print_status es)"
proof -
  have "list_all (\<lambda>field. nul \<notin> set field) (concat (map entry_fields es))"
    using assms documented_fields by (auto simp: list_all_iff)
  then show "split_on nul (print_status es) = concat (map entry_fields es) @ [[]]"
    unfolding print_status_def by (rule split_fields)
  show "print_status es \<noteq> [] \<Longrightarrow> last (print_status es) = nul"
    unfolding print_status_def by (rule last_field)
  show "\<not> starts_with byte_order_mark (print_status es)"
  proof (cases es)
    case (Cons e es')
    with assms documented_fields [of e] obtain c cs rest where "entry_fields e = (c # cs) # rest" "c \<noteq> CHR 0xEF" by auto
    with Cons show ?thesis by (simp add: print_status_def byte_order_mark_def)
  qed (simp add: print_status_def byte_order_mark_def starts_with_def)
qed

section \<open>Properties\<close>

lemma entries_read_exactly:
  assumes "list_all entry_ok es" and "utf8_ok (print_status es)"
  shows "\<exists>a. parse_status_porcelain_v2 collate (print_status es) = Inr a \<and> set_groups (wa_paths a) = \<lparr>
     wg_staged = (\<Union>e\<in>set es. wg_staged (entry_sets e)), wg_unstaged = (\<Union>e\<in>set es. wg_unstaged (entry_sets e)),
     wg_untracked = (\<Union>e\<in>set es. wg_untracked (entry_sets e)), wg_ignored = (\<Union>e\<in>set es. wg_ignored (entry_sets e)),
     wg_unmerged = (\<Union>e\<in>set es. wg_unmerged (entry_sets e)),
     wg_submodule_dirty = (\<Union>e\<in>set es. wg_submodule_dirty (entry_sets e)) \<rparr>"
proof -
  have d: "decode_fatal (print_status es) = Some (print_status es)"
    using assms no_byte_order_mark by (simp add: decode_fatal_def without_mark_def)
  have "set_groups no_paths = \<lparr> wg_staged = {}, wg_unstaged = {}, wg_untracked = {}, wg_ignored = {}, wg_unmerged = {}, wg_submodule_dirty = {} \<rparr>"
    by (simp add: set_groups_def no_paths_def)
  then have sets: "set_groups (foldl (\<lambda>p e. entry_adds e p) no_paths es) = \<lparr>
     wg_staged = (\<Union>e\<in>set es. wg_staged (entry_sets e)), wg_unstaged = (\<Union>e\<in>set es. wg_unstaged (entry_sets e)),
     wg_untracked = (\<Union>e\<in>set es. wg_untracked (entry_sets e)), wg_ignored = (\<Union>e\<in>set es. wg_ignored (entry_sets e)),
     wg_unmerged = (\<Union>e\<in>set es. wg_unmerged (entry_sets e)),
     wg_submodule_dirty = (\<Union>e\<in>set es. wg_submodule_dirty (entry_sets e)) \<rparr>"
    using assms(1) by (simp add: fold_sets fold_join)
  have "parse_status_fields 0 (split_on nul (print_status es)) no_paths = Inr (foldl (\<lambda>p e. entry_adds e p) no_paths es)"
    unfolding print_status_fields(1) [OF assms(1)] by (rule parse_printed [OF assms(1)])
  moreover have "\<not> (print_status es \<noteq> [] \<and> last (print_status es) \<noteq> nul)"
    using print_status_fields(2) [OF assms(1)] by blast
  ultimately show ?thesis
    unfolding parse_status_porcelain_v2_def using d sets by (simp add: Let_def)
qed

text \<open>
  C37. The reader of \<open>git status\<close> is exact: from any output made of the records that git's manual documents it puts each
  path into the groups its record says (index and work tree states, untracked, ignored, unmerged, dirty submodules)
  and into no other, whatever spaces and line breaks the paths hold; and it refuses the output as a whole when it is
  not UTF-8, or when one of its records is a rename or copy of the work tree alone (\<open>.R\<close>, \<open>.C\<close>), the one documented
  state it does not know.
\<close>

theorem status_read_exactly:
  assumes "list_all documented es"
  shows "if utf8_ok (print_status es) \<and> \<not> list_ex worktree_rename es
    then \<exists>a. parse_status_porcelain_v2 collate (print_status es) = Inr a \<and> set_groups (wa_paths a) = \<lparr>
     wg_staged = (\<Union>e\<in>set es. wg_staged (entry_sets e)), wg_unstaged = (\<Union>e\<in>set es. wg_unstaged (entry_sets e)),
     wg_untracked = (\<Union>e\<in>set es. wg_untracked (entry_sets e)), wg_ignored = (\<Union>e\<in>set es. wg_ignored (entry_sets e)),
     wg_unmerged = (\<Union>e\<in>set es. wg_unmerged (entry_sets e)),
     wg_submodule_dirty = (\<Union>e\<in>set es. wg_submodule_dirty (entry_sets e)) \<rparr>
    else \<exists>m. parse_status_porcelain_v2 collate (print_status es) = Inl m"
proof (cases "utf8_ok (print_status es)")
  case True
  show ?thesis
  proof (cases "list_ex worktree_rename es")
    case False
    with assms have "list_all entry_ok es" by (auto simp: list_all_iff list_ex_iff documented_entry_ok)
    from entries_read_exactly [OF this True, of collate] True False show ?thesis by simp
  next
    case refused: True
    have "decode_fatal (print_status es) = Some (print_status es)"
      using True documented_output(3) [OF assms] by (simp add: decode_fatal_def without_mark_def)
    moreover have "\<not> (print_status es \<noteq> [] \<and> last (print_status es) \<noteq> nul)" using documented_output(2) [OF assms] by blast
    moreover obtain m where "parse_status_fields 0 (split_on nul (print_status es)) no_paths = Inl m"
      using parse_refused [OF assms refused, of 0 no_paths] unfolding documented_output(1) [OF assms] by (auto simp: isl_def)
    ultimately show ?thesis using refused by (simp add: parse_status_porcelain_v2_def)
  qed
next
  case False
  then show ?thesis by (simp add: parse_status_porcelain_v2_def decode_fatal_def)
qed

text \<open>A tracked record that is read leaves a path in one of three groups.\<close>

definition no_tracked :: "string list working_tree_groups \<Rightarrow> bool" where
  "no_tracked p \<longleftrightarrow> wg_staged p = [] \<and> wg_unstaged p = [] \<and> wg_unmerged p = []"

lemma add_path_nonempty: "path \<noteq> [] \<Longrightarrow> add_path paths path \<noteq> []"
  by (auto simp: add_path_def)

lemma add_tracked_new:
  assumes "xy_ok xy" and "validate_tracked_status_semantics xy sub i t = Inr u" and "path \<noteq> []"
  shows "\<not> no_tracked (add_tracked xy sub path p)"
proof -
  from valid_xy [OF assms(1)] obtain x y where xy: "xy = [x, y]" by blast
  have dot: "starts_with ''.'' (c # cs) \<longleftrightarrow> c = CHR ''.''" for c cs by (auto simp: starts_with_def)
  from assms(2) have "validate_tracked_status_semantics xy sub i t = Inr ()" by simp
  then have "xy \<noteq> ''..'' \<or> is_dirty_submodule sub"
    unfolding validate_tracked_status_semantics_def Let_def if_Inl_Inr by blast
  with assms(3) show ?thesis
    by (auto simp: xy add_tracked_def Let_def dot no_tracked_def add_path_nonempty)
qed

lemma parse_fixed_last:
  "parse_fixed_status_record value n i t = Inr fs \<Longrightarrow> last fs \<noteq> []"
  by (auto simp: parse_fixed_status_record_def split: option.splits if_splits)

lemma validated_xy:
  "validate_status_metadata fs i t ms os = Inr u \<Longrightarrow> xy_ok (field_at fs 1)"
  by (auto simp: validate_status_metadata_def split: if_splits)

lemma tracked_record_holds:
  assumes "parse_status_record i field p = Inr (p', renamed)" and "\<not> starts_with ''# '' field"
    and "\<not> starts_with ''? '' field" and "\<not> starts_with ''! '' field"
  shows "\<not> no_tracked p'"
proof (cases "starts_with ''u '' field")
  case True
  with assms obtain parts where "parse_fixed_status_record field 10 i ''u'' = Inr parts"
    "p' = p\<lparr>wg_unmerged := add_path (wg_unmerged p) (last parts)\<rparr>"
    by (auto simp: parse_status_record_def split: sum.splits)
  with parse_fixed_last show ?thesis by (auto simp: no_tracked_def add_path_nonempty)
next
  case False
  define r where "r = starts_with ''2 '' field"
  from False assms obtain parts u u' where
      f: "parse_fixed_status_record field (if r then 9 else 8) i (if r then ''2'' else ''1'') = Inr parts"
    and m: "validate_status_metadata parts i (if r then ''2'' else ''1'') [3, 4, 5] [6, 7] = Inr u"
    and v: "validate_tracked_status_semantics (field_at parts 1) (field_at parts 2) i (if r then ''2'' else ''1'') = Inr u'"
    and p': "p' = add_tracked (field_at parts 1) (field_at parts 2) (last parts) p"
    by (auto simp: parse_status_record_def r_def Let_def split: if_split_asm sum.split_asm)
  from add_tracked_new [OF validated_xy [OF m] v parse_fixed_last [OF f]] p' show ?thesis by simp
qed

lemma record_untracked_only:
  assumes "parse_status_record i field p = Inr (p', renamed)" and "no_tracked p'"
  shows "\<not> renamed \<and> (starts_with ''# '' field \<and> p' = p
    \<or> (\<exists>x. field = ''? '' @ x \<and> p' = p\<lparr>wg_untracked := add_path (wg_untracked p) x\<rparr> \<and> x \<noteq> [])
    \<or> (\<exists>x. field = ''! '' @ x \<and> p' = p\<lparr>wg_ignored := add_path (wg_ignored p) x\<rparr> \<and> x \<noteq> []))"
proof -
  from tracked_record_holds [OF assms(1)] assms(2)
  consider (h) "starts_with ''# '' field" | (u) "starts_with ''? '' field" | (i) "starts_with ''! '' field" by blast
  then show ?thesis
  proof cases
    case h
    with assms(1) show ?thesis by (auto simp: parse_status_record_def split: if_splits)
  next
    case u
    then obtain x where "field = ''? '' @ x" by (auto simp: starts_with_iff)
    with assms(1) show ?thesis by (auto simp: parse_status_record_def split: if_splits)
  next
    case i
    then obtain x where "field = ''! '' @ x" by (auto simp: starts_with_iff)
    with assms(1) show ?thesis by (auto simp: parse_status_record_def split: if_splits)
  qed
qed

definition untracked_field :: "string list working_tree_groups \<Rightarrow> string \<Rightarrow> bool" where
  "untracked_field p field \<longleftrightarrow> field = [] \<or> starts_with ''# '' field \<or>
     (\<exists>x. field = ''? '' @ x \<and> x \<in> set (wg_untracked p) \<or> field = ''! '' @ x \<and> x \<in> set (wg_ignored p))"

lemma set_add_path_sub: "set paths \<subseteq> set (add_path paths x)"
  by (auto simp: add_path_def)

lemma fields_untracked_only:
  "parse_status_fields i fs p = Inr p' \<Longrightarrow> no_tracked p' \<Longrightarrow>
   no_tracked p \<and> set (wg_untracked p) \<subseteq> set (wg_untracked p') \<and> set (wg_ignored p) \<subseteq> set (wg_ignored p') \<and>
   (\<forall>field\<in>set fs. untracked_field p' field)"
proof (induction i fs p rule: parse_status_fields.induct)
  case (2 i field rest p)
  show ?case
  proof (cases "field = []")
    case True
    with 2 show ?thesis by (simp add: untracked_field_def)
  next
    case False
    with "2.prems"(1) obtain p1 renamed where r: "parse_status_record i field p = Inr (p1, renamed)"
      by (auto split: sum.splits)
    have plain: "\<not> renamed"
    proof
      assume renamed: renamed
      with False r "2.prems"(1) obtain source rest' where rest: "rest = source # rest'" "source \<noteq> []"
        and go: "parse_status_fields (Suc (Suc i)) rest' p1 = Inr p'" by (auto split: list.splits if_splits)
      from "2.IH"(2) [OF False r HOL.refl _ rest(1) rest(2) go "2.prems"(2)] renamed have "no_tracked p1" by simp
      with record_untracked_only [OF r] renamed show False by blast
    qed
    with False r "2.prems"(1) have "parse_status_fields (Suc i) rest p1 = Inr p'" by simp
    with "2.IH"(3) [OF False r HOL.refl _ this "2.prems"(2)] plain
    have p1: "no_tracked p1" "set (wg_untracked p1) \<subseteq> set (wg_untracked p')" "set (wg_ignored p1) \<subseteq> set (wg_ignored p')"
      "\<forall>field\<in>set rest. untracked_field p' field" by auto
    from record_untracked_only [OF r p1(1)]
    consider (h) "starts_with ''# '' field" "p1 = p"
      | (u) x where "field = ''? '' @ x" "p1 = p\<lparr>wg_untracked := add_path (wg_untracked p) x\<rparr>" "x \<noteq> []"
      | (i) x where "field = ''! '' @ x" "p1 = p\<lparr>wg_ignored := add_path (wg_ignored p) x\<rparr>" "x \<noteq> []"
      by blast
    then show ?thesis
    proof cases
      case h
      with p1 show ?thesis by (auto simp: untracked_field_def)
    next
      case u
      have "untracked_field p' field" using p1(2) u by (auto simp: untracked_field_def set_add_path)
      with u p1 set_add_path_sub [of "wg_untracked p" x] show ?thesis by (auto simp: no_tracked_def)
    next
      case i
      have "untracked_field p' field" using p1(3) i by (auto simp: untracked_field_def set_add_path)
      with i p1 set_add_path_sub [of "wg_ignored p" x] show ?thesis by (auto simp: no_tracked_def)
    qed
  qed
qed simp

definition holds_nothing :: "string list working_tree_groups \<Rightarrow> bool" where
  "holds_nothing p \<longleftrightarrow> no_tracked p \<and> wg_untracked p = [] \<and> wg_ignored p = []"

lemma classified_clean: "classify_working_tree (count_groups p) = [Is_Clean] \<Longrightarrow> holds_nothing p"
  by (auto simp: classify_working_tree_def Let_def count_groups_def holds_nothing_def no_tracked_def split: if_splits)

text \<open>
  A clean verdict fails closed: whatever bytes git printed, if the reader accepts them and classifies the
  working tree as clean, then the output holds nothing but header lines; no record of any kind is dropped.
\<close>

theorem clean_means_no_records:
  assumes "parse_status_porcelain_v2 collate output = Inr a" and "wa_classifications a = [Is_Clean]"
  shows "\<exists>decoded. decode_fatal output = Some decoded \<and>
    {field \<in> set (split_on nul decoded). field \<noteq> [] \<and> \<not> starts_with ''# '' field} = {}"
proof -
  from assms(1) obtain decoded p where d: "decode_fatal output = Some decoded"
    and p: "parse_status_fields 0 (split_on nul decoded) no_paths = Inr p"
    and a: "wa_classifications a = classify_working_tree (count_groups (sort_groups collate p))"
    by (auto simp: parse_status_porcelain_v2_def Let_def split: option.splits if_splits sum.splits)
  have "count_groups (sort_groups collate p) = count_groups p" by (simp add: count_groups_def sort_groups_def)
  with a assms(2) have "holds_nothing p" by (intro classified_clean) simp
  with fields_untracked_only [OF p] have "field = [] \<or> starts_with ''# '' field" if "field \<in> set (split_on nul decoded)" for field
    using that by (auto simp: holds_nothing_def untracked_field_def)
  with d show ?thesis by blast
qed

section \<open>Concrete outputs\<close>

definition demo_entries :: "status_entry list" where
  "demo_entries = [Changed ''.M'' ''N...'' (replicate 3 ''100644'') (replicate 2 (replicate 40 (CHR ''a''))) ''a b'', Untracked_Path ''x'']"

lemma demo_entries_documented: "list_all documented demo_entries \<and> utf8_ok (print_status demo_entries) \<and> \<not> list_ex worktree_rename demo_entries"
proof -
  have "utf8_ok (print_status demo_entries) \<and> \<not> list_ex worktree_rename demo_entries" by code_simp
  moreover have "list_all documented demo_entries"
    by (simp add: demo_entries_def changed_states_def submodule_states_def octal_mode_def object_name_def path_ok_def nul_def numeral_eq_Suc)
  ultimately show ?thesis by simp
qed

lemma status_read_exactly_witness:
  "\<exists>a. parse_status_porcelain_v2 id (print_status demo_entries) = Inr a \<and> set (wg_unstaged (wa_paths a)) = {''a b''}
     \<and> set (wg_untracked (wa_paths a)) = {''x''} \<and> set (wg_staged (wa_paths a)) = {}"
proof -
  obtain a where a: "parse_status_porcelain_v2 id (print_status demo_entries) = Inr a"
      "set_groups (wa_paths a) = \<lparr>
     wg_staged = (\<Union>e\<in>set demo_entries. wg_staged (entry_sets e)), wg_unstaged = (\<Union>e\<in>set demo_entries. wg_unstaged (entry_sets e)),
     wg_untracked = (\<Union>e\<in>set demo_entries. wg_untracked (entry_sets e)), wg_ignored = (\<Union>e\<in>set demo_entries. wg_ignored (entry_sets e)),
     wg_unmerged = (\<Union>e\<in>set demo_entries. wg_unmerged (entry_sets e)),
     wg_submodule_dirty = (\<Union>e\<in>set demo_entries. wg_submodule_dirty (entry_sets e)) \<rparr>"
    using status_read_exactly [of demo_entries id] demo_entries_documented by auto
  from a(2) have "set (wg_unstaged (wa_paths a)) = {''a b''} \<and> set (wg_untracked (wa_paths a)) = {''x''} \<and> set (wg_staged (wa_paths a)) = {}"
    by (simp add: set_groups_def demo_entries_def)
  with a(1) show ?thesis by blast
qed

lemma clean_means_no_records_witness:
  "\<exists>decoded. decode_fatal (''# branch.oid x'' @ [nul]) = Some decoded \<and>
    {field \<in> set (split_on nul decoded). field \<noteq> [] \<and> \<not> starts_with ''# '' field} = {}"
proof -
  have "parse_status_porcelain_v2 id (''# branch.oid x'' @ [nul]) = Inr \<lparr> wa_available = True, wa_classifications = [Is_Clean],
      wa_counts = count_groups no_paths, wa_paths = no_paths \<rparr>"
    by code_simp
  from clean_means_no_records [OF this] show ?thesis by simp
qed

text \<open>
  Git also reports a rename of the working tree alone (\<open>.R\<close>, after \<open>git add -N\<close>); the reader takes it for malformed
  output.
\<close>

lemma worktree_rename_is_refused:
  "validate_tracked_status_semantics ''.R'' ''N...'' 0 ''2'' = Inl (malformed Invalid_Xy_Semantics 0 (Some ''2''))"
  by code_simp

end
