(* ===== verification/Git_Runner.thy ===== *)
theory Git_Runner
  imports Git_Status
begin

text \<open>
  Running git (\<open>packages/core/src/git/git-runner.ts\<close>): the argument vector, which exits are answers and which are
  errors, and the reading of the plumbing commands' output. The git program is an argument: a function from
  the argument vector to how the process ended. A text is the list of the bytes of its UTF-8 form; of the
  white space that \<open>trim\<close> removes, the ASCII characters are modelled.
\<close>

section \<open>Definitions\<close>

datatype git_exit = Exited nat string | Signalled | Not_Started | Timed_Out | Output_Exceeded "nat option"

type_synonym git = "string list \<Rightarrow> git_exit"

record git_command_error =
  ge_argv :: "string list"
  ge_exit_code :: "nat option"
  ge_timed_out :: bool

definition git_argv :: "string \<Rightarrow> string list \<Rightarrow> string list" where
  "git_argv repo_path args = [''git'', ''-C'', repo_path] @ args"

definition git_error :: "string list \<Rightarrow> nat option \<Rightarrow> bool \<Rightarrow> git_command_error" where
  "git_error argv code timed_out = \<lparr> ge_argv = argv, ge_exit_code = code, ge_timed_out = timed_out \<rparr>"

text \<open>\<open>accepted\<close> is \<open>acceptedExitCodes ?? [0]\<close>; the answer is the standard output and the exit code.\<close>

definition run_git :: "git \<Rightarrow> string \<Rightarrow> string list \<Rightarrow> nat list \<Rightarrow> git_command_error + (string \<times> nat)" where
  "run_git git repo_path args accepted =
    (let argv = git_argv repo_path args in case git argv of
       Not_Started \<Rightarrow> Inl (git_error argv None False)
     | Output_Exceeded code \<Rightarrow> Inl (git_error argv code False)
     | Timed_Out \<Rightarrow> Inl (git_error argv None True)
     | Exited code out \<Rightarrow> if code \<in> set accepted then Inr (out, code) else Inl (git_error argv (Some code) False)
     | Signalled \<Rightarrow> Inl (git_error argv None False))"

definition ascii_space :: "char \<Rightarrow> bool" where
  "ascii_space c \<longleftrightarrow> (of_char c :: nat) \<in> {9, 10, 11, 12, 13, 32}"

definition trim_end :: "string \<Rightarrow> string" where
  "trim_end s = rev (dropWhile ascii_space (rev s))"

definition trim_text :: "string \<Rightarrow> string" where
  "trim_text s = trim_end (dropWhile ascii_space s)"

definition list_git_worktrees :: "char \<Rightarrow> git \<Rightarrow> string \<Rightarrow> git_command_error + git_worktree_record list" where
  "list_git_worktrees sep git repo_path =
    (case run_git git repo_path [''worktree'', ''list'', ''--porcelain'', ''-z''] [0] of
       Inl e \<Rightarrow> Inl e | Inr (out, _) \<Rightarrow> Inr (parse_git_worktree_porcelain sep out))"

definition read_git_repository_identity :: "char \<Rightarrow> git \<Rightarrow> string \<Rightarrow> git_command_error + (string \<times> string)" where
  "read_git_repository_identity sep git repo_path =
    (let args = [''rev-parse'', ''--path-format=absolute'', ''--git-common-dir'', ''--show-toplevel''] in
     case run_git git repo_path args [0] of
       Inl e \<Rightarrow> Inl e
     | Inr (out, _) \<Rightarrow> (case split_on newline (trim_end out) of
         [common, top_level] \<Rightarrow> Inr (to_native_git_path sep common, to_native_git_path sep top_level)
       | _ \<Rightarrow> Inl (git_error (git_argv repo_path args) (Some 0) False)))"

definition read_git_common_directory :: "char \<Rightarrow> git \<Rightarrow> string \<Rightarrow> git_command_error + string" where
  "read_git_common_directory sep git repo_path =
    (let args = [''rev-parse'', ''--path-format=absolute'', ''--git-common-dir''] in
     case run_git git repo_path args [0] of
       Inl e \<Rightarrow> Inl e
     | Inr (out, _) \<Rightarrow> (let output = trim_end out in
         if output = [] \<or> newline \<in> set output \<or> nul \<in> set output
         then Inl (git_error (git_argv repo_path args) (Some 0) False)
         else Inr (to_native_git_path sep output)))"

definition read_git_remote_origin :: "git \<Rightarrow> string \<Rightarrow> git_command_error + string option" where
  "read_git_remote_origin git repo_path =
    (case run_git git repo_path [''config'', ''--get'', ''remote.origin.url''] [0] of
       Inl e \<Rightarrow> if ge_exit_code e = Some 1 then Inr None else Inl e
     | Inr (out, _) \<Rightarrow> (let v = trim_text out in Inr (if v = [] then None else Some v)))"

definition read_worktree_head :: "git \<Rightarrow> string \<Rightarrow> (string \<times> string option) option" where
  "read_worktree_head git cwd =
    (case run_git git cwd [''rev-parse'', ''--verify'', ''HEAD^{commit}''] [0] of
       Inl e \<Rightarrow> None
     | Inr (out, _) \<Rightarrow> Some (trim_text out,
         case run_git git cwd [''symbolic-ref'', ''--quiet'', ''--short'', ''HEAD''] [0] of
           Inl e \<Rightarrow> None
         | Inr (branch, _) \<Rightarrow> (let b = trim_text branch in if b = [] then None else Some b)))"

definition read_git_commit_timestamp :: "git \<Rightarrow> string \<Rightarrow> string \<Rightarrow> string option" where
  "read_git_commit_timestamp git repo_path revision =
    (case run_git git repo_path [''log'', ''-1'', ''--format=%cI'', revision, ''--''] [0] of
       Inl e \<Rightarrow> None
     | Inr (out, _) \<Rightarrow> (let v = trim_text out in if v = [] then None else Some v))"

text \<open>The environment git runs in; an environment is a map from names to values.\<close>

definition git_repository_routing_variables :: "string list" where
  "git_repository_routing_variables = [''GIT_DIR'', ''GIT_WORK_TREE'', ''GIT_COMMON_DIR'', ''GIT_INDEX_FILE'',
     ''GIT_OBJECT_DIRECTORY'', ''GIT_ALTERNATE_OBJECT_DIRECTORIES'', ''GIT_NAMESPACE'', ''GIT_SHALLOW_FILE'',
     ''GIT_GRAFT_FILE'', ''GIT_REPLACE_REF_BASE'', ''GIT_CEILING_DIRECTORIES'', ''GIT_DISCOVERY_ACROSS_FILESYSTEM'',
     ''GIT_PREFIX'', ''GIT_CONFIG_PARAMETERS'', ''GIT_CONFIG_COUNT'']"

definition numbered_config_variable :: "string \<Rightarrow> bool" where
  "numbered_config_variable key \<longleftrightarrow>
     list_ex (\<lambda>p. starts_with p key \<and> drop (length p) key \<noteq> [] \<and> list_all is_digit (drop (length p) key))
       [''GIT_CONFIG_KEY_'', ''GIT_CONFIG_VALUE_'']"

definition create_git_environment :: "(string \<times> string) list \<Rightarrow> (string \<times> string) list" where
  "create_git_environment env = filter (\<lambda>(key, v). \<not> numbered_config_variable key)
     (filter (\<lambda>(key, v). key \<notin> set git_repository_routing_variables) env)"

text \<open>\<open>worktree list in /projects/demo/api\<close>\<close>

fun index_of :: "'a \<Rightarrow> 'a list \<Rightarrow> nat option" where
  "index_of x [] = None"
| "index_of x (y # ys) = (if x = y then Some 0 else map_option Suc (index_of x ys))"

definition describe_git_command :: "string list \<Rightarrow> string" where
  "describe_git_command argv =
    (let repository_index = index_of ''-C'' argv;
         repository = (case repository_index of None \<Rightarrow> None
           | Some k \<Rightarrow> if Suc k < length argv then Some (argv ! Suc k) else None);
         kept = filter (\<lambda>(i, word). \<not> starts_with ''-'' word)
           (filter (\<lambda>(i, word). case repository_index of None \<Rightarrow> True | Some k \<Rightarrow> Suc i \<noteq> k \<and> i \<noteq> k)
             (enumerate 0 (drop 1 argv)));
         words = take 2 (map snd kept);
         command = (if words = [] then ''command'' else join_with '' '' words)
     in case repository of None \<Rightarrow> command | Some r \<Rightarrow> command @ '' in '' @ r)"

section \<open>Facts\<close>

text \<open>No variable that routes git to another repository, index or configuration reaches it.\<close>

lemma git_environment_is_clean:
  "(key, v) \<in> set (create_git_environment env) \<longleftrightarrow>
   (key, v) \<in> set env \<and> key \<notin> set git_repository_routing_variables \<and> \<not> numbered_config_variable key"
  by (auto simp: create_git_environment_def)

lemma run_git_Inr: "run_git git repo args accepted = Inr (out, code) \<Longrightarrow>
    git (git_argv repo args) = Exited code out \<and> code \<in> set accepted"
  by (auto simp: run_git_def Let_def split: git_exit.splits if_splits)

lemma run_git_success: "run_git git repo args [0] = Inr (out, code) \<longleftrightarrow> git (git_argv repo args) = Exited 0 out \<and> code = 0"
  by (auto simp: run_git_def Let_def split: git_exit.splits if_splits)

text \<open>A common directory that was read is one line.\<close>

lemma trim_end_prefix: "\<exists>w. s = trim_end s @ w \<and> list_all ascii_space w"
proof -
  have "s = rev (takeWhile ascii_space (rev s) @ dropWhile ascii_space (rev s))" by simp
  then have "s = trim_end s @ rev (takeWhile ascii_space (rev s))" unfolding rev_append trim_end_def .
  moreover have "list_all ascii_space (rev (takeWhile ascii_space (rev s)))" by (auto simp: list_all_iff dest: set_takeWhileD)
  ultimately show ?thesis by blast
qed

lemma common_directory_is_one_line:
  assumes "read_git_common_directory (CHR ''/'') git repo = Inr dir"
  shows "dir \<noteq> [] \<and> newline \<notin> set dir \<and> nul \<notin> set dir"
  using assms by (auto simp: read_git_common_directory_def Let_def to_native_git_path_def split: sum.splits if_splits)

lemma describe_worktree_list: "describe_git_command (git_argv ''/p'' [''worktree'', ''list'', ''--porcelain'', ''-z'']) = ''worktree list in /p''"
  by code_simp

end
