(* ===== verification/Remote_Persistence.thy ===== *)
theory Remote_Persistence
  imports Git_Runner
begin

text \<open>
  Whether a commit is held by a remote (\<open>packages/core/src/analysis/remote-persistence.ts\<close>): the patterns of the
  remote-tracking refs that count as evidence, the refs that match and contain the commit, and the
  refresh that fetches from the remotes these patterns name. \<open>collate\<close> is the key of \<open>localeCompare\<close>.
\<close>

section \<open>Definitions\<close>

datatype analysis_failure = Analysis_Error string | Git_Failed git_command_error | Malformed_Status malformed_status
  | Invalid_Ref_Pattern string | Invalid_Remote_Name string | Invalid_Repository_Path string | No_Ref_Pattern | File_System_Error

definition default_allowed_remote_refs :: "string list" where
  "default_allowed_remote_refs = [''refs/remotes/origin/*'']"

record remote_persistence_analysis =
  rpa_allowed_remote_refs :: "string list"
  rpa_matching_refs :: "string list"
  rpa_containing_refs :: "string list"
  rpa_persisted :: bool

text \<open>\<open>[...new Set(xs)]\<close>: the first occurrences, in order.\<close>

definition js_unique :: "'a list \<Rightarrow> 'a list" where
  "js_unique xs = rev (remdups (rev xs))"

definition strip_newlines :: "string \<Rightarrow> string" where
  "strip_newlines s = rev (dropWhile (\<lambda>c. c = newline) (rev (dropWhile (\<lambda>c. c = newline) s)))"

definition parse_nul_formatted_refs :: "(string \<Rightarrow> 'k :: linorder) \<Rightarrow> string \<Rightarrow> string list" where
  "parse_nul_formatted_refs collate output =
    sort_key collate (filter (\<lambda>field. field \<noteq> []) (map strip_newlines (split_on nul (decode_replacing output))))"

definition remote_prefix :: string where
  "remote_prefix = ''refs/remotes/''"

definition ref_pattern_ok :: "string \<Rightarrow> bool" where
  "ref_pattern_ok pattern \<longleftrightarrow> starts_with remote_prefix pattern \<and> nul \<notin> set pattern \<and> newline \<notin> set pattern \<and>
     (case index_of (CHR ''*'') pattern of None \<Rightarrow> True
      | Some k \<Rightarrow> Suc k = length pattern \<and> k > 0 \<and> pattern ! (k - 1) = CHR ''/'')"

definition normalize_allowed_remote_refs :: "(string \<Rightarrow> 'k :: linorder) \<Rightarrow> string list \<Rightarrow> analysis_failure + string list" where
  "normalize_allowed_remote_refs collate patterns =
    (let unique = js_unique patterns in
     if unique = [] then Inl No_Ref_Pattern
     else case find (\<lambda>p. \<not> ref_pattern_ok p) unique of
       Some p \<Rightarrow> Inl (Invalid_Ref_Pattern p)
     | None \<Rightarrow> Inr (sort_key collate unique))"

definition matches_ref_pattern :: "string \<Rightarrow> string \<Rightarrow> bool" where
  "matches_ref_pattern ref pattern =
    (if ends_with ''*'' pattern then starts_with (butlast pattern) ref else ref = pattern)"

fun containing_refs :: "git \<Rightarrow> string \<Rightarrow> string \<Rightarrow> string list \<Rightarrow> analysis_failure + string list" where
  "containing_refs git repo_path head_oid [] = Inr []"
| "containing_refs git repo_path head_oid (ref # refs) =
    (case run_git git repo_path [''merge-base'', ''--is-ancestor'', head_oid, ref] [0, 1] of
       Inl e \<Rightarrow> Inl (Git_Failed e)
     | Inr (_, code) \<Rightarrow> (case containing_refs git repo_path head_oid refs of
         Inl e \<Rightarrow> Inl e | Inr rs \<Rightarrow> Inr (if code = 0 then ref # rs else rs)))"

definition analyze_remote_persistence ::
  "(string \<Rightarrow> 'k :: linorder) \<Rightarrow> git \<Rightarrow> string \<Rightarrow> string \<Rightarrow> string list \<Rightarrow> analysis_failure + remote_persistence_analysis" where
  "analyze_remote_persistence collate git repo_path head_oid allowed =
    (case normalize_allowed_remote_refs collate allowed of
       Inl e \<Rightarrow> Inl e
     | Inr patterns \<Rightarrow>
       (case run_git git repo_path [''for-each-ref'', ''--format=%(refname)%00'', ''refs/remotes''] [0] of
          Inl e \<Rightarrow> Inl (Git_Failed e)
        | Inr (out, _) \<Rightarrow>
          (let matching = filter (\<lambda>ref. list_ex (matches_ref_pattern ref) patterns) (parse_nul_formatted_refs collate out) in
           case containing_refs git repo_path head_oid matching of
             Inl e \<Rightarrow> Inl e
           | Inr containing \<Rightarrow> Inr \<lparr> rpa_allowed_remote_refs = patterns, rpa_matching_refs = matching,
               rpa_containing_refs = containing, rpa_persisted = (containing \<noteq> []) \<rparr>)))"

subsection \<open>The refresh\<close>

definition remote_name_ok :: "string \<Rightarrow> bool \<Rightarrow> bool" where
  "remote_name_ok v allow_empty \<longleftrightarrow> \<not> (\<not> allow_empty \<and> v = [] \<or> starts_with ''-'' v \<or> CHR ''/'' \<in> set v \<or>
     nul \<in> set v \<or> newline \<in> set v)"

definition repository_path_ok :: "string \<Rightarrow> bool" where
  "repository_path_ok path \<longleftrightarrow> \<not> (path = [] \<or> starts_with ''-'' path \<or> nul \<in> set path \<or> newline \<in> set path)"

definition remote_segment :: "string \<Rightarrow> string" where
  "remote_segment pattern = takeWhile (\<lambda>c. c \<noteq> CHR ''/'') (drop (length remote_prefix) pattern)"

fun derive_remote_selectors :: "string list \<Rightarrow> analysis_failure + (string \<Rightarrow> bool) list" where
  "derive_remote_selectors [] = Inr []"
| "derive_remote_selectors (pattern # patterns) =
    (let segment = remote_segment pattern;
         selector = (if ends_with ''*'' segment
           then (if remote_name_ok (butlast segment) True then Some (\<lambda>remote. starts_with (butlast segment) remote) else None)
           else (if remote_name_ok segment False then Some (\<lambda>remote. remote = segment) else None))
     in case selector of
          None \<Rightarrow> Inl (Invalid_Remote_Name pattern)
        | Some f \<Rightarrow> (case derive_remote_selectors patterns of Inl e \<Rightarrow> Inl e | Inr fs \<Rightarrow> Inr (f # fs)))"

text \<open>A fetch changes the repository: git here is a program over a state.\<close>

type_synonym 's git_program = "'s \<Rightarrow> string list \<Rightarrow> 's \<times> git_exit"

definition execute_git ::
  "'s git_program \<Rightarrow> string \<Rightarrow> string list \<Rightarrow> nat list \<Rightarrow> 's \<Rightarrow> 's \<times> (analysis_failure + (string \<times> nat))" where
  "execute_git exec repo_path args accepted s =
    (let (t, exit) = exec s (git_argv repo_path args) in
     (t, case run_git (\<lambda>_. exit) repo_path args accepted of Inl e \<Rightarrow> Inl (Git_Failed e) | Inr r \<Rightarrow> Inr r))"

definition read_configured_remotes ::
  "(string \<Rightarrow> 'k :: linorder) \<Rightarrow> 's git_program \<Rightarrow> string \<Rightarrow> 's \<Rightarrow> 's \<times> (analysis_failure + string list)" where
  "read_configured_remotes collate exec repo_path s =
    (case execute_git exec repo_path [''remote''] [0] s of
       (t, Inl e) \<Rightarrow> (t, Inl e)
     | (t, Inr (out, _)) \<Rightarrow>
        (let names = filter (\<lambda>line. line \<noteq> []) (map trim_text (split_on newline out)) in
         case find (\<lambda>n. \<not> remote_name_ok n False) names of
           Some n \<Rightarrow> (t, Inl (Invalid_Remote_Name n))
         | None \<Rightarrow> (t, Inr (sort_key collate (js_unique names)))))"

fun fetch_remotes :: "'s git_program \<Rightarrow> string \<Rightarrow> string list \<Rightarrow> 's \<Rightarrow> 's \<times> (analysis_failure + unit)" where
  "fetch_remotes exec repo_path [] s = (s, Inr ())"
| "fetch_remotes exec repo_path (remote # remotes) s =
    (case execute_git exec repo_path [''fetch'', ''--prune'', ''--quiet'', ''--'', remote] [0] s of
       (t, Inl e) \<Rightarrow> (t, Inl e)
     | (t, Inr _) \<Rightarrow> fetch_remotes exec repo_path remotes t)"

text \<open>The remotes that were fetched; the time of completion is the caller's clock.\<close>

definition refresh_remote_tracking_refs ::
  "(string \<Rightarrow> 'k :: linorder) \<Rightarrow> 's git_program \<Rightarrow> string \<Rightarrow> string list \<Rightarrow> 's \<Rightarrow> 's \<times> (analysis_failure + string list)" where
  "refresh_remote_tracking_refs collate exec repo_path allowed s =
    (if \<not> repository_path_ok repo_path then (s, Inl (Invalid_Repository_Path repo_path))
     else case normalize_allowed_remote_refs collate allowed of
       Inl e \<Rightarrow> (s, Inl e)
     | Inr patterns \<Rightarrow> (case derive_remote_selectors patterns of
         Inl e \<Rightarrow> (s, Inl e)
       | Inr selectors \<Rightarrow> (case read_configured_remotes collate exec repo_path s of
           (t, Inl e) \<Rightarrow> (t, Inl e)
         | (t, Inr configured) \<Rightarrow>
            (let remotes = filter (\<lambda>remote. list_ex (\<lambda>selector. selector remote) selectors) configured in
             case fetch_remotes exec repo_path remotes t of
               (u, Inl e) \<Rightarrow> (u, Inl e)
             | (u, Inr _) \<Rightarrow> (u, Inr remotes)))))"

section \<open>Patterns\<close>

lemma set_js_unique [simp]: "set (js_unique xs) = set xs"
  by (simp add: js_unique_def)

lemma normalized:
  assumes "normalize_allowed_remote_refs collate patterns = Inr ps"
  shows "set ps = set patterns \<and> list_all ref_pattern_ok ps"
  using assms
  by (auto simp: normalize_allowed_remote_refs_def Let_def find_None_iff list_all_iff split: if_splits option.splits)

lemma index_of_None: "index_of x xs = None \<longleftrightarrow> x \<notin> set xs"
  by (induction xs) auto

lemma index_of_Some: "index_of x xs = Some k \<Longrightarrow> k < length xs \<and> xs ! k = x \<and> x \<notin> set (take k xs)"
  by (induction xs arbitrary: k) (auto split: if_splits)

text \<open>The shape of an accepted pattern: no wildcard, or one that replaces the last path segment.\<close>

lemma ref_pattern_shape:
  assumes "ref_pattern_ok p"
  shows "starts_with remote_prefix p \<and> (CHR ''*'' \<notin> set p \<or> (\<exists>q. p = q @ ''/*'' \<and> CHR ''*'' \<notin> set q))"
proof (cases "index_of (CHR ''*'') p")
  case None
  with assms show ?thesis by (simp add: ref_pattern_ok_def index_of_None)
next
  case (Some k)
  with assms have k: "Suc k = length p" "k > 0" "p ! (k - 1) = CHR ''/''" and s: "starts_with remote_prefix p"
    by (simp_all add: ref_pattern_ok_def)
  from index_of_Some [OF Some] have star: "p ! k = CHR ''*''" "CHR ''*'' \<notin> set (take k p)" by simp_all
  obtain j where j: "k = Suc j" using k(2) by (cases k) auto
  have "p = take j p @ [p ! j, p ! Suc j]"
    using k(1) j by (metis append.assoc append_Cons append_Nil id_take_nth_drop lessI less_SucI order_refl take_Suc_conv_app_nth take_all)
  with k(3) star(1) j have "p = take j p @ ''/*''" by simp
  moreover have "CHR ''*'' \<notin> set (take j p)"
    using star(2) j by (metis in_set_takeD le_SucI order_refl set_take_subset_set_take subset_iff)
  ultimately show ?thesis using s by blast
qed

lemma starts_with_trans: "starts_with p q \<Longrightarrow> starts_with q s \<Longrightarrow> starts_with p s"
  by (auto simp: starts_with_iff)

lemma takeWhile_segment: "d \<notin> set x \<Longrightarrow> takeWhile (\<lambda>c. c \<noteq> d) (x @ d # y) = x"
  by (rule takeWhile_upto)

text \<open>Two texts with a common beginning that holds the first separator have the same first segment.\<close>

lemma same_first_segment:
  assumes "x @ d # y = u @ d # v" and "d \<notin> set x" and "d \<notin> set u"
  shows "x = u"
  using assms takeWhile_segment by metis

lemma ends_with_last: "ends_with [c] (q @ [c])"
  by (simp add: ends_with_def)

lemma ends_with_mem: "ends_with [c] q \<Longrightarrow> c \<in> set q"
proof -
  assume "ends_with [c] q"
  then have "drop (length q - 1) q = [c]" by (simp add: ends_with_def)
  then show "c \<in> set q" by (metis in_set_dropD list.set_intros(1))
qed

lemma derived_selector:
  assumes "derive_remote_selectors ps = Inr fs" and "p \<in> set ps"
  shows "\<exists>f\<in>set fs. if ends_with ''*'' (remote_segment p) then f = (\<lambda>remote. starts_with (butlast (remote_segment p)) remote)
    else f = (\<lambda>remote. remote = remote_segment p)"
  using assms
proof (induction ps arbitrary: fs)
  case (Cons q ps)
  from Cons.prems(1) obtain f fs' where d: "derive_remote_selectors ps = Inr fs'" "fs = f # fs'"
    and f: "if ends_with ''*'' (remote_segment q) then f = (\<lambda>remote. starts_with (butlast (remote_segment q)) remote)
      else f = (\<lambda>remote. remote = remote_segment q)"
    by (auto simp: Let_def split: if_splits sum.splits)
  show ?case
  proof (cases "p = q")
    case True
    with f d(2) show ?thesis by auto
  next
    case False
    with Cons.prems(2) have "p \<in> set ps" by simp
    from Cons.IH [OF d(1) this] d(2) show ?thesis by (simp add: bex_Un)
  qed
qed simp

lemma prefix_segment:
  "remote_segment (remote_prefix @ rest) = takeWhile (\<lambda>c. c \<noteq> CHR ''/'') rest"
  by (simp add: remote_segment_def)

text \<open>A wildcard pattern names all remotes or has its first segment before the wildcard.\<close>

lemma wildcard_rest:
  assumes "q @ ''/*'' = remote_prefix @ rest" and "rest \<noteq> ''*''"
  shows "\<exists>r. rest = r @ ''/*'' \<and> q = remote_prefix @ r"
proof -
  have last: "rest \<noteq> [] \<Longrightarrow> last rest = CHR ''*''" using assms(1) by (metis last_ConsL last_ConsR last_appendR list.distinct(1))
  have "rest \<noteq> []"
  proof
    assume "rest = []"
    with assms(1) have "last remote_prefix = CHR ''*''" by (metis append_Nil2 last_appendR last_ConsR last_ConsL list.distinct(1))
    then show False by (simp add: remote_prefix_def)
  qed
  then obtain r c where r: "rest = r @ [c]" by (metis append_butlast_last_id)
  with last have c: "c = CHR ''*''" by simp
  with assms(2) r have "r \<noteq> []" by auto
  then obtain r' d where r': "r = r' @ [d]" by (metis append_butlast_last_id)
  from assms(1) r r' c have "(q @ ''/'') @ ''*'' = (remote_prefix @ r' @ [d]) @ ''*''" by simp
  then have "q @ ''/'' = (remote_prefix @ r') @ [d]" by simp
  then have "q = remote_prefix @ r' \<and> d = CHR ''/''" by (simp only: append1_eq_conv)
  with r r' c show ?thesis by auto
qed

lemma first_segment_append: "takeWhile (\<lambda>c. c \<noteq> d) (r @ d # x) = takeWhile (\<lambda>c. c \<noteq> d) (r @ [d])"
  by (induction r) auto

text \<open>What a matching ref of a remote says about the first segment of the pattern.\<close>

lemma matching_segment:
  assumes p: "ref_pattern_ok p" and m: "matches_ref_pattern (remote_prefix @ remote @ CHR ''/'' # name) p"
    and remote: "CHR ''/'' \<notin> set remote"
  shows "remote_segment p = ''*'' \<or> remote_segment p = remote \<and> CHR ''*'' \<notin> set remote"
proof -
  from ref_pattern_shape [OF p] obtain rest where rest: "p = remote_prefix @ rest" by (auto simp: starts_with_iff)
  have first: "takeWhile (\<lambda>c. c \<noteq> CHR ''/'') (remote @ CHR ''/'' # x) = remote" for x
    using remote by (rule takeWhile_upto)
  consider (plain) "CHR ''*'' \<notin> set p" | (wild) q where "p = q @ ''/*''" "CHR ''*'' \<notin> set q"
    using ref_pattern_shape [OF p] by blast
  then show ?thesis
  proof cases
    case plain
    then have "\<not> ends_with ''*'' p" by (auto dest: ends_with_mem)
    with m rest have "rest = remote @ CHR ''/'' # name" by (simp add: matches_ref_pattern_def)
    with rest first plain show ?thesis by (simp add: prefix_segment)
  next
    case wild
    then have e: "ends_with ''*'' p" "butlast p = q @ ''/''" using ends_with_last [of "CHR ''*''" "q @ ''/''"]
      by (simp_all add: butlast_append)
    with m have ref: "starts_with (q @ ''/'') (remote_prefix @ remote @ CHR ''/'' # name)" by (simp add: matches_ref_pattern_def)
    show ?thesis
    proof (cases "rest = ''*''")
      case True
      then show ?thesis using rest by (simp add: prefix_segment)
    next
      case False
      with wildcard_rest wild(1) rest obtain r where r: "rest = r @ ''/*''" "q = remote_prefix @ r" by metis
      with ref obtain tail where "remote_prefix @ r @ ''/'' @ tail = remote_prefix @ remote @ CHR ''/'' # name"
        by (auto simp: starts_with_iff)
      then have eq: "r @ CHR ''/'' # tail = remote @ CHR ''/'' # name" by simp
      have segment: "takeWhile (\<lambda>c. c \<noteq> CHR ''/'') (r @ [CHR ''/'']) = remote"
        using first_segment_append [of "CHR ''/''" r tail] first [of name] eq by simp
      then have "remote_segment p = remote"
        using first_segment_append [of "CHR ''/''" r "''*''"] by (simp add: rest prefix_segment r(1))
      moreover have "CHR ''*'' \<notin> set remote"
      proof
        assume "CHR ''*'' \<in> set remote"
        with segment have "CHR ''*'' \<in> set (r @ [CHR ''/''])" by (metis set_takeWhileD)
        with wild(2) r(2) show False by simp
      qed
      ultimately show ?thesis by blast
    qed
  qed
qed

section \<open>Properties\<close>

text \<open>
  The evidence and its refresh agree: if a remote-tracking ref of a remote counts as evidence under the allowed
  patterns, then the refresh over the same patterns selects that remote, so no ref that a removal relies on is
  left stale by a refresh that succeeded.
\<close>

theorem refresh_covers_evidence:
  assumes "normalize_allowed_remote_refs collate patterns = Inr ps" and "derive_remote_selectors ps = Inr selectors"
    and "p \<in> set ps" and "matches_ref_pattern (remote_prefix @ remote @ ''/'' @ name) p" and "CHR ''/'' \<notin> set remote"
  shows "\<exists>selector. selector \<in> set selectors \<and> selector remote"
proof -
  from normalized [OF assms(1)] assms(3) have ok: "ref_pattern_ok p" by (simp add: list_all_iff)
  from assms(4) have m: "matches_ref_pattern (remote_prefix @ remote @ CHR ''/'' # name) p" by simp
  from derived_selector [OF assms(2,3)] obtain f where f: "f \<in> set selectors"
    "if ends_with ''*'' (remote_segment p) then f = (\<lambda>remote. starts_with (butlast (remote_segment p)) remote)
     else f = (\<lambda>remote. remote = remote_segment p)" by blast
  from matching_segment [OF ok m assms(5)] have "f remote"
  proof
    assume "remote_segment p = ''*''"
    with f(2) ends_with_last [of "CHR ''*''" "[]"] show ?thesis by (simp add: starts_with_def)
  next
    assume r: "remote_segment p = remote \<and> CHR ''*'' \<notin> set remote"
    then have "\<not> ends_with ''*'' (remote_segment p)" by (auto dest: ends_with_mem)
    with f(2) r show ?thesis by simp
  qed
  with f(1) show ?thesis by blast
qed

lemma refresh_covers_evidence_witness:
  "\<exists>selectors selector. derive_remote_selectors [''refs/remotes/origin/*''] = Inr selectors \<and>
     selector \<in> set selectors \<and> selector ''origin''"
proof -
  have n: "normalize_allowed_remote_refs id default_allowed_remote_refs = Inr [''refs/remotes/origin/*'']" by code_simp
  have "remote_segment ''refs/remotes/origin/*'' = ''origin''" "remote_name_ok ''origin'' False" "ends_with ''*'' ''origin'' = False"
    by code_simp+
  then obtain selectors where d: "derive_remote_selectors [''refs/remotes/origin/*''] = Inr selectors" by simp
  have "matches_ref_pattern (remote_prefix @ ''origin'' @ ''/'' @ ''main'') ''refs/remotes/origin/*''" by code_simp
  from refresh_covers_evidence [OF n d _ this] d show ?thesis by auto
qed

text \<open>A remote name reaches git only if it is a plain name: no empty argument, no option, no path.\<close>

lemma fetch_arguments_are_names:
  assumes "read_configured_remotes collate exec repo_path s = (t, Inr remotes)"
  shows "list_all (\<lambda>remote. remote_name_ok remote False) remotes"
  using assms
  by (auto simp: read_configured_remotes_def Let_def find_None_iff list_all_iff split: prod.splits sum.splits option.splits)

lemma containing_refs_ancestor:
  "containing_refs git repo head refs = Inr rs \<Longrightarrow> ref \<in> set rs \<Longrightarrow>
   ref \<in> set refs \<and> (\<exists>out. git (git_argv repo [''merge-base'', ''--is-ancestor'', head, ref]) = Exited 0 out)"
proof (induction refs arbitrary: rs)
  case (Cons r refs)
  from Cons.prems(1) obtain out code rs' where r: "run_git git repo [''merge-base'', ''--is-ancestor'', head, r] [0, 1] = Inr (out, code)"
    and rs': "containing_refs git repo head refs = Inr rs'" and rs: "rs = (if code = 0 then r # rs' else rs')"
    by (auto split: sum.splits)
  from run_git_Inr [OF r] Cons.IH [OF rs'] rs Cons.prems(2) show ?case by (auto split: if_splits)
qed simp

text \<open>What it means to be persisted: an allowed remote-tracking ref of which the commit is an ancestor.\<close>

lemma persisted_evidence:
  assumes "analyze_remote_persistence collate git repo head allowed = Inr a" and "rpa_persisted a"
  shows "\<exists>ref p out. p \<in> set allowed \<and> ref_pattern_ok p \<and> matches_ref_pattern ref p \<and>
    git (git_argv repo [''merge-base'', ''--is-ancestor'', head, ref]) = Exited 0 out"
proof -
  from assms obtain ps out where ps: "normalize_allowed_remote_refs collate allowed = Inr ps"
    and c: "containing_refs git repo head (filter (\<lambda>ref. list_ex (matches_ref_pattern ref) ps) (parse_nul_formatted_refs collate out)) = Inr (rpa_containing_refs a)"
    and "rpa_containing_refs a \<noteq> []"
    by (auto simp: analyze_remote_persistence_def Let_def split: sum.splits)
  then obtain ref where ref: "ref \<in> set (rpa_containing_refs a)" by (cases "rpa_containing_refs a") auto
  from containing_refs_ancestor [OF c ref] obtain p out where "p \<in> set ps" "matches_ref_pattern ref p"
    "git (git_argv repo [''merge-base'', ''--is-ancestor'', head, ref]) = Exited 0 out"
    by (auto simp: list_ex_iff)
  with normalized [OF ps] show ?thesis by (auto simp: list_all_iff)
qed

end
