(* ===== verification/Worktree_Analysis.thy ===== *)
theory Worktree_Analysis
  imports Remote_Persistence
begin

text \<open>
  The analysis of a worktree (\<open>packages/core/src/analysis/worktree-analysis.ts\<close>): what git and the file system say
  about it, and the verdict \<open>SAFE\<close>, \<open>REVIEW\<close> or \<open>BLOCKED\<close> that gates a removal. Git, \<open>lstat\<close>, \<open>realpath\<close> and
  \<open>resolve\<close> are arguments, gathered in \<open>analysis_world\<close>; they do not change while one analysis runs.
\<close>

section \<open>Definitions\<close>

datatype lstat_answer = Entry_Gone | Entry_Symlink | Entry_Directory | Entry_Other | Entry_Error

record 'k analysis_world =
  aw_git :: git
  aw_lstat :: "string \<Rightarrow> lstat_answer"
  aw_realpath :: "string \<Rightarrow> string option"
  aw_resolve :: "string \<Rightarrow> string \<Rightarrow> string"
  aw_absolute :: "string \<Rightarrow> string"
  aw_sep :: char
  aw_collate :: "string \<Rightarrow> 'k"

record worktree_context =
  wc_repo_path :: string
  wc_worktree_path :: string
  wc_base_ref :: "string option"
  wc_allowed_remote_refs :: "string list option"
  wc_untracked_symlinks :: "string option"
  wc_remote_refresh :: "string option"
  wc_workspace_id :: "ident option"
  wc_repository_id :: "ident option"
  wc_worktree_id :: "ident option"
  wc_worktree_numeric_id :: "nat option"

record worktree_identity =
  id_workspace_id :: "ident option"
  id_repository_id :: "ident option"
  id_worktree_id :: "ident option"
  id_worktree_numeric_id :: "nat option"
  id_path :: string
  id_is_main :: bool
  id_branch_ref :: "string option"
  id_detached :: bool
  id_head_oid :: string
  id_locked_reason :: "string option"
  id_prunable_reason :: "string option"
  id_path_exists :: bool
  id_base_ref :: "string option"

record upstream_analysis =
  ua_configured_ref :: "string option"
  ua_available :: bool
  ua_ahead :: "nat option"
  ua_behind :: "nat option"

record base_analysis =
  ba_ref :: "string option"
  ba_available :: bool
  ba_ahead :: "nat option"
  ba_behind :: "nat option"
  ba_unique_commits :: "nat option"
  ba_head_is_ancestor :: "bool option"
  ba_merged :: "bool option"

text \<open>A \<open>WtmError\<close>; its context maps names to values.\<close>

datatype context_value = CV_Null | CV_Text string | CV_Bool bool | CV_Nat nat | CV_Texts "string list"

datatype issue_code = Repository_Degraded | Main_Worktree | Worktree_Locked | Unmerged | Dirty_Staged | Dirty_Unstaged
  | Untracked_Files | Ignored_Content | Untracked_Symlinks | Head_Not_Remote_Persisted | Upstream_Missing

datatype issue_severity = Severity_Error | Severity_Warning

record wtm_error =
  we_code :: issue_code
  we_message :: string
  we_severity :: issue_severity
  we_context :: "(string \<times> context_value) list"
  we_remediation :: "string list list"

datatype readiness = SAFE | REVIEW | BLOCKED

record worktree_safety =
  ws_readiness :: readiness
  ws_blockers :: "wtm_error list"
  ws_warnings :: "wtm_error list"

record remote_knowledge =
  rk_fetched :: bool
  rk_refreshed :: bool
  rk_refreshed_at :: "string option"
  rk_confident :: bool

record worktree_analysis =
  an_identity :: worktree_identity
  an_working_tree :: working_tree_analysis
  an_upstream :: upstream_analysis
  an_remote_persistence :: remote_persistence_analysis
  an_remote_knowledge :: remote_knowledge
  an_base :: base_analysis
  an_safety :: worktree_safety

subsection \<open>What git reports\<close>

definition describe_remote_knowledge :: "string option \<Rightarrow> remote_knowledge" where
  "describe_remote_knowledge refresh = (case refresh of
     None \<Rightarrow> \<lparr> rk_fetched = False, rk_refreshed = False, rk_refreshed_at = None, rk_confident = False \<rparr>
   | Some at \<Rightarrow> \<lparr> rk_fetched = True, rk_refreshed = True, rk_refreshed_at = Some at, rk_confident = True \<rparr>)"

text \<open>
  The paths of one group without those that are gone and without links, and the links. An \<open>lstat\<close> that fails
  otherwise fails the analysis.
\<close>

fun inspect_paths :: "(string \<Rightarrow> lstat_answer) \<Rightarrow> string list \<Rightarrow> analysis_failure + (string list \<times> string list)" where
  "inspect_paths stat [] = Inr ([], [])"
| "inspect_paths stat (path # paths) =
    (case inspect_paths stat paths of
       Inl e \<Rightarrow> Inl e
     | Inr (kept, links) \<Rightarrow> (case stat path of
         Entry_Error \<Rightarrow> Inl File_System_Error
       | Entry_Gone \<Rightarrow> Inr (kept, links)
       | Entry_Symlink \<Rightarrow> Inr (kept, path # links)
       | _ \<Rightarrow> Inr (path # kept, links)))"

definition without_symbolic_links ::
  "('k :: linorder) analysis_world \<Rightarrow> string \<Rightarrow> working_tree_analysis \<Rightarrow> analysis_failure + (working_tree_analysis \<times> string list)" where
  "without_symbolic_links w worktree_path a =
    (let stat = (\<lambda>path. aw_lstat w (aw_resolve w worktree_path path)) in
     case inspect_paths stat (wg_untracked (wa_paths a)) of
       Inl e \<Rightarrow> Inl e
     | Inr (untracked, links) \<Rightarrow> (case inspect_paths stat (wg_ignored (wa_paths a)) of
         Inl e \<Rightarrow> Inl e
       | Inr (ignored, _) \<Rightarrow>
          (let paths = (wa_paths a)\<lparr>wg_untracked := untracked, wg_ignored := ignored\<rparr>;
               counts = (wa_counts a)\<lparr>wg_untracked := length untracked, wg_ignored := length ignored\<rparr>
           in Inr (a\<lparr>wa_classifications := classify_working_tree counts, wa_counts := counts, wa_paths := paths\<rparr>, links))))"

definition read_working_tree ::
  "('k :: linorder) analysis_world \<Rightarrow> string \<Rightarrow> analysis_failure + (working_tree_analysis \<times> string list)" where
  "read_working_tree w worktree_path =
    (case run_git (aw_git w) worktree_path
         [''status'', ''--porcelain=v2'', ''-z'', ''--untracked-files=all'', ''--ignored=matching''] [0] of
       Inl e \<Rightarrow> Inl (Git_Failed e)
     | Inr (out, _) \<Rightarrow> (case parse_status_porcelain_v2 (aw_collate w) out of
         Inl m \<Rightarrow> Inl (Malformed_Status m)
       | Inr a \<Rightarrow> without_symbolic_links w worktree_path a))"

definition unavailable_working_tree :: working_tree_analysis where
  "unavailable_working_tree = \<lparr> wa_available = False, wa_classifications = [], wa_counts = count_groups no_paths, wa_paths = no_paths \<rparr>"

definition ref_exists :: "('k :: linorder) analysis_world \<Rightarrow> string \<Rightarrow> string \<Rightarrow> analysis_failure + bool" where
  "ref_exists w repo_path ref =
    (case run_git (aw_git w) repo_path [''for-each-ref'', ''--format=%(refname)%00'', ref] [0] of
       Inl e \<Rightarrow> Inl (Git_Failed e)
     | Inr (out, _) \<Rightarrow> Inr (ref \<in> set (parse_nul_formatted_refs (aw_collate w) out)))"

text \<open>Two numerals, white space between them and possibly after them.\<close>

definition parse_divergence :: "string \<Rightarrow> (nat \<times> nat) option" where
  "parse_divergence out =
    (let left = takeWhile is_digit out; rest = dropWhile is_digit out;
         right_text = dropWhile ascii_space rest;
         right = takeWhile is_digit right_text
     in if left \<noteq> [] \<and> rest \<noteq> [] \<and> ascii_space (hd rest) \<and> right \<noteq> [] \<and> list_all ascii_space (dropWhile is_digit right_text)
        then Some (digits_value left, digits_value right) else None)"

definition read_divergence :: "git \<Rightarrow> string \<Rightarrow> string \<Rightarrow> string \<Rightarrow> analysis_failure + (nat \<times> nat)" where
  "read_divergence git repo_path left_ref right_ref =
    (case run_git git repo_path [''rev-list'', ''--left-right'', ''--count'', left_ref @ ''...'' @ right_ref] [0] of
       Inl e \<Rightarrow> Inl (Git_Failed e)
     | Inr (out, _) \<Rightarrow> (case parse_divergence out of
         None \<Rightarrow> Inl (Analysis_Error ''Git returned invalid divergence counts.'')
       | Some counts \<Rightarrow> Inr counts))"

definition no_upstream :: "string option \<Rightarrow> upstream_analysis" where
  "no_upstream configured = \<lparr> ua_configured_ref = configured, ua_available = False, ua_ahead = None, ua_behind = None \<rparr>"

definition read_upstream ::
  "('k :: linorder) analysis_world \<Rightarrow> string \<Rightarrow> string option \<Rightarrow> string \<Rightarrow> analysis_failure + upstream_analysis" where
  "read_upstream w worktree_path branch_ref head_oid =
    (case branch_ref of
       None \<Rightarrow> Inr (no_upstream None)
     | Some branch \<Rightarrow>
       (case run_git (aw_git w) worktree_path [''for-each-ref'', ''--format=%(upstream)%00'', branch] [0] of
          Inl e \<Rightarrow> Inl (Git_Failed e)
        | Inr (out, _) \<Rightarrow> (case parse_nul_formatted_refs (aw_collate w) out of
            [] \<Rightarrow> Inr (no_upstream None)
          | configured # _ \<Rightarrow> (case ref_exists w worktree_path configured of
              Inl e \<Rightarrow> Inl e
            | Inr False \<Rightarrow> Inr (no_upstream (Some configured))
            | Inr True \<Rightarrow> (case read_divergence (aw_git w) worktree_path configured head_oid of
                Inl e \<Rightarrow> Inl e
              | Inr (left, right) \<Rightarrow> Inr \<lparr> ua_configured_ref = Some configured, ua_available = True,
                  ua_ahead = Some right, ua_behind = Some left \<rparr>)))))"

definition no_base :: "string option \<Rightarrow> base_analysis" where
  "no_base ref = \<lparr> ba_ref = ref, ba_available = False, ba_ahead = None, ba_behind = None, ba_unique_commits = None,
     ba_head_is_ancestor = None, ba_merged = None \<rparr>"

definition read_base_analysis ::
  "('k :: linorder) analysis_world \<Rightarrow> string \<Rightarrow> string option \<Rightarrow> string \<Rightarrow> analysis_failure + base_analysis" where
  "read_base_analysis w worktree_path base_ref head_oid =
    (case base_ref of
       None \<Rightarrow> Inr (no_base None)
     | Some base \<Rightarrow> (case ref_exists w worktree_path base of
         Inl e \<Rightarrow> Inl e
       | Inr False \<Rightarrow> Inr (no_base (Some base))
       | Inr True \<Rightarrow> (case read_divergence (aw_git w) worktree_path base head_oid of
           Inl e \<Rightarrow> Inl e
         | Inr (left, right) \<Rightarrow>
           (case run_git (aw_git w) worktree_path [''merge-base'', ''--is-ancestor'', head_oid, base] [0, 1] of
              Inl e \<Rightarrow> Inl (Git_Failed e)
            | Inr (_, code) \<Rightarrow> Inr \<lparr> ba_ref = Some base, ba_available = True, ba_ahead = Some right, ba_behind = Some left,
                ba_unique_commits = Some right, ba_head_is_ancestor = Some (code = 0), ba_merged = Some (code = 0) \<rparr>))))"

definition find_index :: "('a \<Rightarrow> bool) \<Rightarrow> 'a list \<Rightarrow> nat option" where
  "find_index P xs = (let k = length (takeWhile (\<lambda>x. \<not> P x) xs) in if k < length xs then Some k else None)"

definition find_selected_worktree_index ::
  "'k analysis_world \<Rightarrow> git_worktree_record list \<Rightarrow> string \<Rightarrow> nat option" where
  "find_selected_worktree_index w topology requested =
    (case find_index (\<lambda>r. gw_path r = requested \<or> gw_path r = aw_absolute w requested) topology of
       Some k \<Rightarrow> Some k
     | None \<Rightarrow> (case aw_realpath w requested of
         None \<Rightarrow> None
       | Some canonical \<Rightarrow> find_index (\<lambda>r. gw_path r = canonical) topology))"

definition directory_exists :: "'k analysis_world \<Rightarrow> string \<Rightarrow> analysis_failure + bool" where
  "directory_exists w path = (case aw_lstat w path of
     Entry_Directory \<Rightarrow> Inr True | Entry_Error \<Rightarrow> Inl File_System_Error | _ \<Rightarrow> Inr False)"

definition resolve_default_base_ref ::
  "('k :: linorder) analysis_world \<Rightarrow> string \<Rightarrow> git_worktree_record list \<Rightarrow> analysis_failure + string option" where
  "resolve_default_base_ref w repo_path topology =
    (case run_git (aw_git w) repo_path [''for-each-ref'', ''--format=%(refname) %(symref)%00'', ''refs/remotes''] [0] of
       Inl e \<Rightarrow> Inl (Git_Failed e)
     | Inr (out, _) \<Rightarrow>
       (let pairs = map (\<lambda>field. if CHR '' '' \<in> set field then (field_key field, field_value field) else (field, []))
              (parse_nul_formatted_refs (aw_collate w) out);
            targets = sort_key (aw_collate w) (map snd
              (filter (\<lambda>(ref, target). ends_with ''/HEAD'' ref \<and> starts_with ''refs/remotes/'' target) pairs))
        in case targets of
             remote_head # _ \<Rightarrow> Inr (Some remote_head)
           | [] \<Rightarrow> (case topology of
               [] \<Rightarrow> Inr None
             | first # _ \<Rightarrow>
                 if \<not> gw_bare first then Inr (gw_branch first)
                 else (case run_git (aw_git w) repo_path [''symbolic-ref'', ''-q'', ''HEAD''] [0, 1] of
                   Inl e \<Rightarrow> Inl (Git_Failed e)
                 | Inr (symbolic, code) \<Rightarrow> (let v = trim_text symbolic in
                     Inr (if code = 0 \<and> starts_with ''refs/heads/'' v then Some v else None))))))"

subsection \<open>The verdict\<close>

definition text_or_null :: "string option \<Rightarrow> context_value" where
  "text_or_null v = (case v of None \<Rightarrow> CV_Null | Some t \<Rightarrow> CV_Text t)"

definition worktree_error_context :: "worktree_identity \<Rightarrow> (string \<times> context_value) list" where
  "worktree_error_context i = [(''worktreePath'', CV_Text (id_path i))]
     @ (case id_worktree_id i of None \<Rightarrow> [] | Some v \<Rightarrow> [(''worktreeId'', CV_Text v)])
     @ (case id_worktree_numeric_id i of None \<Rightarrow> [] | Some n \<Rightarrow> [(''worktreeNumericId'', CV_Nat n)])
     @ [(''branchRef'', text_or_null (id_branch_ref i)), (''detached'', CV_Bool (id_detached i))]"

definition git_issue :: "issue_code \<Rightarrow> string \<Rightarrow> (string \<times> context_value) list \<Rightarrow> wtm_error" where
  "git_issue code message context = \<lparr> we_code = code, we_message = message, we_severity = Severity_Error,
     we_context = context, we_remediation = [] \<rparr>"

definition path_context :: "(string \<times> context_value) list \<Rightarrow> string list \<Rightarrow> (string \<times> context_value) list" where
  "path_context context paths = context @ [(''count'', CV_Nat (length paths)), (''paths'', CV_Texts paths)]"

definition issue_when :: "bool \<Rightarrow> wtm_error \<Rightarrow> wtm_error list" where
  "issue_when c e = (if c then [e] else [])"

text \<open>\<open>links\<close> are the untracked symbolic links, judged by their policy.\<close>

definition build_safety ::
  "worktree_identity \<Rightarrow> working_tree_analysis \<Rightarrow> upstream_analysis \<Rightarrow> remote_persistence_analysis \<Rightarrow> base_analysis
   \<Rightarrow> string option \<Rightarrow> string \<Rightarrow> string list \<Rightarrow> worktree_safety" where
  "build_safety i tree upstream persistence base topology_head policy links =
    (let ctx = worktree_error_context i; counts = wa_counts tree; paths = wa_paths tree;
         link_issue = git_issue Untracked_Symlinks ''The worktree contains untracked symbolic links.''
           (path_context ctx links @ [(''policy'', CV_Text policy)]);
         blockers =
           issue_when (\<not> id_path_exists i) (git_issue Repository_Degraded ''The discovered Git worktree path does not exist.''
             (ctx @ [(''pathExists'', CV_Bool False), (''prunableReason'', text_or_null (id_prunable_reason i))]))
           @ issue_when (id_is_main i) (git_issue Main_Worktree ''The main worktree cannot be removed by WTM.'' ctx)
           @ issue_when (id_locked_reason i \<noteq> None) (git_issue Worktree_Locked ''The Git worktree is locked.''
               (ctx @ [(''reason'', text_or_null (id_locked_reason i))]))
           @ issue_when (wg_unmerged counts > 0) (git_issue Unmerged ''The worktree contains unresolved paths.''
               (path_context ctx (wg_unmerged paths)))
           @ issue_when (wg_staged counts > 0) (git_issue Dirty_Staged ''The worktree contains staged changes.''
               (path_context ctx (wg_staged paths)))
           @ issue_when (wg_unstaged counts > 0) (git_issue Dirty_Unstaged ''The worktree contains unstaged tracked or submodule changes.''
               (path_context ctx (wg_unstaged paths) @ [(''submodulePaths'', CV_Texts (wg_submodule_dirty paths))]))
           @ issue_when (wg_untracked counts > 0) (git_issue Untracked_Files ''The worktree contains untracked files.''
               (path_context ctx (wg_untracked paths)))
           @ issue_when (wg_ignored counts > 0) (git_issue Ignored_Content ''The worktree contains ignored files or directories.''
               (path_context ctx (wg_ignored paths)))
           @ issue_when (links \<noteq> [] \<and> policy \<noteq> ''ignore'' \<and> policy \<noteq> ''review'') link_issue
           @ issue_when (\<not> rpa_persisted persistence) ((git_issue Head_Not_Remote_Persisted
               ''HEAD is not reachable from an allowed remote-tracking ref.''
               (ctx @ [(''headOid'', CV_Text (id_head_oid i)), (''allowedRemoteRefs'', CV_Texts (rpa_allowed_remote_refs persistence))]))
               \<lparr>we_remediation := [[''git'', ''-C'', id_path i, ''push'', ''-u'', ''origin'', ''HEAD'']]\<rparr>)
           @ issue_when (id_path_exists i \<and> topology_head \<noteq> Some (id_head_oid i))
               (git_issue Repository_Degraded ''Git worktree topology and live HEAD are inconsistent.''
                 (ctx @ [(''topologyHead'', text_or_null topology_head), (''liveHead'', CV_Text (id_head_oid i))]));
         warnings =
           issue_when (links \<noteq> [] \<and> policy = ''review'') (link_issue\<lparr>we_severity := Severity_Warning\<rparr>)
           @ issue_when (\<not> ba_available base) ((git_issue Repository_Degraded
               (if ba_ref base = None then ''The repository default/base ref could not be resolved.''
                else ''The configured base ref is unavailable locally.'')
               (ctx @ [(''baseRef'', text_or_null (ba_ref base))]))\<lparr>we_severity := Severity_Warning\<rparr>)
           @ issue_when (\<not> ua_available upstream) ((git_issue Upstream_Missing
               (if ua_configured_ref upstream = None then ''No upstream is configured for this HEAD.''
                else ''The configured upstream ref is unavailable locally.'')
               (ctx @ [(''configuredRef'', text_or_null (ua_configured_ref upstream))]))\<lparr>we_severity := Severity_Warning\<rparr>)
     in \<lparr> ws_readiness = (if blockers \<noteq> [] then BLOCKED else if warnings \<noteq> [] then REVIEW else SAFE),
          ws_blockers = blockers, ws_warnings = warnings \<rparr>)"

subsection \<open>The whole analysis\<close>

text \<open>The live commit, or what the topology says when the directory is gone.\<close>

definition read_head_oid :: "git \<Rightarrow> bool \<Rightarrow> git_worktree_record \<Rightarrow> analysis_failure + string" where
  "read_head_oid git path_exists selected =
    (case (if path_exists
           then (case run_git git (gw_path selected) [''rev-parse'', ''--verify'', ''HEAD^{commit}''] [0] of
             Inl e \<Rightarrow> Inl (Git_Failed e) | Inr (out, _) \<Rightarrow> Inr (trim_text out))
           else Inr (case gw_head selected of None \<Rightarrow> [] | Some h \<Rightarrow> h)) of
       Inl e \<Rightarrow> Inl e
     | Inr oid \<Rightarrow> if oid_ok oid then Inr oid else Inl (Analysis_Error ''Git returned an invalid HEAD object ID.''))"

definition worktree_identity_of ::
  "worktree_context \<Rightarrow> git_worktree_record \<Rightarrow> bool \<Rightarrow> string \<Rightarrow> bool \<Rightarrow> string option \<Rightarrow> worktree_identity" where
  "worktree_identity_of ctx selected is_main head_oid path_exists base_ref =
    \<lparr> id_workspace_id = wc_workspace_id ctx, id_repository_id = wc_repository_id ctx,
      id_worktree_id = wc_worktree_id ctx, id_worktree_numeric_id = wc_worktree_numeric_id ctx,
      id_path = gw_path selected, id_is_main = is_main, id_branch_ref = gw_branch selected,
      id_detached = gw_detached selected, id_head_oid = head_oid, id_locked_reason = gw_locked_reason selected,
      id_prunable_reason = gw_prunable_reason selected, id_path_exists = path_exists, id_base_ref = base_ref \<rparr>"

text \<open>The part after the worktree has been selected.\<close>

definition analyze_selected ::
  "('k :: linorder) analysis_world \<Rightarrow> worktree_context \<Rightarrow> string \<Rightarrow> git_worktree_record list \<Rightarrow> nat \<Rightarrow> git_worktree_record
   \<Rightarrow> analysis_failure + worktree_analysis" where
  "analyze_selected w ctx policy topology k selected =
    (case directory_exists w (gw_path selected) of Inl e \<Rightarrow> Inl e | Inr path_exists \<Rightarrow>
     (case (case wc_base_ref ctx of Some b \<Rightarrow> Inr (Some b)
            | None \<Rightarrow> resolve_default_base_ref w (wc_repo_path ctx) topology) of Inl e \<Rightarrow> Inl e | Inr base_ref \<Rightarrow>
     (let analysis_path = (if path_exists then gw_path selected else wc_repo_path ctx) in
     (case read_head_oid (aw_git w) path_exists selected of Inl e \<Rightarrow> Inl e | Inr head_oid \<Rightarrow>
     (case (if path_exists then read_working_tree w (gw_path selected) else Inr (unavailable_working_tree, [])) of
        Inl e \<Rightarrow> Inl e | Inr (tree, links) \<Rightarrow>
     (case read_upstream w analysis_path (gw_branch selected) head_oid of Inl e \<Rightarrow> Inl e | Inr upstream \<Rightarrow>
     (case analyze_remote_persistence (aw_collate w) (aw_git w) analysis_path head_oid
        (case wc_allowed_remote_refs ctx of None \<Rightarrow> default_allowed_remote_refs | Some rs \<Rightarrow> rs) of
        Inl e \<Rightarrow> Inl e | Inr persistence \<Rightarrow>
     (case read_base_analysis w analysis_path base_ref head_oid of Inl e \<Rightarrow> Inl e | Inr base \<Rightarrow>
       (let i = worktree_identity_of ctx selected (k = 0 \<and> \<not> gw_bare (hd topology)) head_oid path_exists base_ref
        in Inr \<lparr> an_identity = i, an_working_tree = tree, an_upstream = upstream, an_remote_persistence = persistence,
             an_remote_knowledge = describe_remote_knowledge (wc_remote_refresh ctx), an_base = base,
             an_safety = build_safety i tree upstream persistence base (gw_head selected) policy links \<rparr>)))))))))"

definition analyze_worktree ::
  "('k :: linorder) analysis_world \<Rightarrow> worktree_context \<Rightarrow> analysis_failure + worktree_analysis" where
  "analyze_worktree w ctx =
    (let policy = (case wc_untracked_symlinks ctx of None \<Rightarrow> ''ignore'' | Some p \<Rightarrow> p) in
     if policy \<notin> {''ignore'', ''review'', ''block''} then Inl (Analysis_Error ''Untracked symlink policy is invalid.'')
     else case list_git_worktrees (aw_sep w) (aw_git w) (wc_repo_path ctx) of
       Inl e \<Rightarrow> Inl (Git_Failed e)
     | Inr topology \<Rightarrow> (case find_selected_worktree_index w topology (wc_worktree_path ctx) of
         None \<Rightarrow> Inl (Analysis_Error ''Selected path is not a discovered non-bare Git worktree.'')
       | Some k \<Rightarrow> if gw_bare (topology ! k)
           then Inl (Analysis_Error ''Selected path is not a discovered non-bare Git worktree.'')
           else analyze_selected w ctx policy topology k (topology ! k)))"

section \<open>What a verdict without blockers means\<close>

lemma issue_when_Nil [simp]: "issue_when c e = [] \<longleftrightarrow> \<not> c"
  by (simp add: issue_when_def)

lemma no_blockers:
  "ws_blockers (build_safety i tree upstream persistence base topology_head policy links) = [] \<longleftrightarrow>
   id_path_exists i \<and> \<not> id_is_main i \<and> id_locked_reason i = None \<and> wg_unmerged (wa_counts tree) = 0 \<and>
   wg_staged (wa_counts tree) = 0 \<and> wg_unstaged (wa_counts tree) = 0 \<and> wg_untracked (wa_counts tree) = 0 \<and>
   wg_ignored (wa_counts tree) = 0 \<and> (links = [] \<or> policy = ''ignore'' \<or> policy = ''review'') \<and>
   rpa_persisted persistence \<and> topology_head = Some (id_head_oid i)"
  by (auto simp: build_safety_def Let_def)

lemma readiness_BLOCKED:
  "ws_readiness (build_safety i tree upstream persistence base topology_head policy links) = BLOCKED \<longleftrightarrow>
   ws_blockers (build_safety i tree upstream persistence base topology_head policy links) \<noteq> []"
  unfolding build_safety_def Let_def by simp

lemma inspected:
  "inspect_paths stat paths = Inr (kept, links) \<Longrightarrow>
   kept = filter (\<lambda>p. stat p \<noteq> Entry_Gone \<and> stat p \<noteq> Entry_Symlink) paths \<and> links = filter (\<lambda>p. stat p = Entry_Symlink) paths"
proof (induction paths arbitrary: kept links)
  case (Cons p paths)
  from Cons.prems obtain k l where r: "inspect_paths stat paths = Inr (k, l)" by (auto split: sum.splits)
  from Cons.IH [OF this] Cons.prems r show ?case by (cases "stat p") simp_all
qed simp

text \<open>
  An output of \<open>git status\<close> that names nothing to lose: besides headers only untracked or ignored entries, and the
  file system has each of these as a symbolic link or no longer.
\<close>

definition nothing_to_lose :: "'k analysis_world \<Rightarrow> string \<Rightarrow> string \<Rightarrow> bool" where
  "nothing_to_lose w path out \<longleftrightarrow> (\<exists>decoded. decode_fatal out = Some decoded \<and>
     (\<forall>field\<in>set (split_on nul decoded). field = [] \<or> starts_with ''# '' field \<or>
       (\<exists>x. (field = ''? '' @ x \<or> field = ''! '' @ x) \<and>
         aw_lstat w (aw_resolve w path x) \<in> {Entry_Gone, Entry_Symlink})))"

definition status_args :: "string list" where
  "status_args = [''status'', ''--porcelain=v2'', ''-z'', ''--untracked-files=all'', ''--ignored=matching'']"

lemma sort_groups_Nil: "wg_staged (sort_groups c p) = [] \<longleftrightarrow> wg_staged p = []"
  "wg_unstaged (sort_groups c p) = [] \<longleftrightarrow> wg_unstaged p = []" "wg_unmerged (sort_groups c p) = [] \<longleftrightarrow> wg_unmerged p = []"
  by (simp_all add: sort_groups_def flip: length_0_conv)

lemma clean_working_tree:
  assumes r: "read_working_tree w path = Inr (tree, links)"
    and c: "wg_unmerged (wa_counts tree) = 0" "wg_staged (wa_counts tree) = 0" "wg_unstaged (wa_counts tree) = 0"
      "wg_untracked (wa_counts tree) = 0" "wg_ignored (wa_counts tree) = 0"
  shows "\<exists>out. aw_git w (git_argv path status_args) = Exited 0 out \<and> nothing_to_lose w path out"
proof -
  from r obtain out a where g: "run_git (aw_git w) path status_args [0] = Inr (out, 0)"
    and a: "parse_status_porcelain_v2 (aw_collate w) out = Inr a" and l: "without_symbolic_links w path a = Inr (tree, links)"
    by (auto simp: read_working_tree_def status_args_def run_git_success split: sum.splits)
  from a obtain decoded p where d: "decode_fatal out = Some decoded"
    and p: "parse_status_fields 0 (split_on nul decoded) no_paths = Inr p"
    and ap: "wa_paths a = sort_groups (aw_collate w) p" "wa_counts a = count_groups (sort_groups (aw_collate w) p)"
    by (auto simp: parse_status_porcelain_v2_def Let_def split: option.splits if_splits sum.splits)
  define stat where "stat = (\<lambda>x. aw_lstat w (aw_resolve w path x))"
  from l c obtain lu li where u: "inspect_paths stat (wg_untracked (wa_paths a)) = Inr ([], lu)"
    and i: "inspect_paths stat (wg_ignored (wa_paths a)) = Inr ([], li)"
    and counts: "wg_unmerged (wa_counts a) = 0" "wg_staged (wa_counts a) = 0" "wg_unstaged (wa_counts a) = 0"
    by (auto simp: without_symbolic_links_def Let_def stat_def split: sum.splits)
  from counts have "no_tracked p" by (simp add: ap count_groups_def no_tracked_def sort_groups_Nil)
  from fields_untracked_only [OF p this] have fs: "\<forall>field\<in>set (split_on nul decoded). untracked_field p field" by blast
  have lost: "stat x \<in> {Entry_Gone, Entry_Symlink}" if "x \<in> set (wg_untracked p) \<union> set (wg_ignored p)" for x
    using that inspected [OF u] inspected [OF i] by (auto simp: ap sort_groups_def empty_filter_conv)
  have "nothing_to_lose w path out"
    unfolding nothing_to_lose_def
  proof (intro exI conjI ballI)
    show "decode_fatal out = Some decoded" by (rule d)
    fix field assume "field \<in> set (split_on nul decoded)"
    with fs have "untracked_field p field" by blast
    then show "field = [] \<or> starts_with ''# '' field \<or> (\<exists>x. (field = ''? '' @ x \<or> field = ''! '' @ x) \<and>
         aw_lstat w (aw_resolve w path x) \<in> {Entry_Gone, Entry_Symlink})"
      using lost unfolding untracked_field_def stat_def by blast
  qed
  with g show ?thesis by (auto simp: run_git_success)
qed

lemma persistence_evidence:
  assumes "analyze_remote_persistence collate git repo head allowed = Inr a" and "rpa_persisted a"
  obtains ref p out where "p \<in> set allowed" "matches_ref_pattern ref p"
    "git (git_argv repo [''merge-base'', ''--is-ancestor'', head, ref]) = Exited 0 out"
  using persisted_evidence [OF assms] by blast

lemma sum_case_Inr: "(case x of Inl e \<Rightarrow> Inl e | Inr v \<Rightarrow> f v) = Inr r \<longleftrightarrow> (\<exists>v. x = Inr v \<and> f v = Inr r)"
  by (cases x) simp_all

lemma pair_case_Inr: "(case x of (a, b) \<Rightarrow> f a b) = Inr r \<longleftrightarrow> (\<exists>a b. x = (a, b) \<and> f a b = Inr r)"
  by (cases x) simp

lemma analyze_selected_parts:
  assumes "analyze_selected w ctx policy topology k selected = Inr a"
  shows "\<exists>exists head tree links upstream persistence base.
    (if exists then read_working_tree w (gw_path selected) else Inr (unavailable_working_tree, [])) = Inr (tree, links) \<and>
    analyze_remote_persistence (aw_collate w) (aw_git w) (if exists then gw_path selected else wc_repo_path ctx) head
      (case wc_allowed_remote_refs ctx of None \<Rightarrow> default_allowed_remote_refs | Some rs \<Rightarrow> rs) = Inr persistence \<and>
    id_path (an_identity a) = gw_path selected \<and> id_is_main (an_identity a) = (k = 0 \<and> \<not> gw_bare (hd topology)) \<and>
    id_head_oid (an_identity a) = head \<and> id_locked_reason (an_identity a) = gw_locked_reason selected \<and>
    id_path_exists (an_identity a) = exists \<and>
    an_safety a = build_safety (an_identity a) tree upstream persistence base (gw_head selected) policy links"
proof -
  from assms obtain exists base_ref head tree links upstream persistence base where
      tree: "(if exists then read_working_tree w (gw_path selected) else Inr (unavailable_working_tree, [])) = Inr (tree, links)"
    and persistence: "analyze_remote_persistence (aw_collate w) (aw_git w) (if exists then gw_path selected else wc_repo_path ctx) head
      (case wc_allowed_remote_refs ctx of None \<Rightarrow> default_allowed_remote_refs | Some rs \<Rightarrow> rs) = Inr persistence"
    and a: "Inr \<lparr> an_identity = worktree_identity_of ctx selected (k = 0 \<and> \<not> gw_bare (hd topology)) head exists base_ref,
             an_working_tree = tree, an_upstream = upstream, an_remote_persistence = persistence,
             an_remote_knowledge = describe_remote_knowledge (wc_remote_refresh ctx), an_base = base,
             an_safety = build_safety (worktree_identity_of ctx selected (k = 0 \<and> \<not> gw_bare (hd topology)) head exists base_ref)
              tree upstream persistence base (gw_head selected) policy links \<rparr> = (Inr a :: analysis_failure + worktree_analysis)"
    unfolding analyze_selected_def Let_def sum_case_Inr pair_case_Inr by (elim exE conjE) (hypsubst, rule that, assumption+)
  from a have "id_path (an_identity a) = gw_path selected \<and> id_is_main (an_identity a) = (k = 0 \<and> \<not> gw_bare (hd topology)) \<and>
    id_head_oid (an_identity a) = head \<and> id_locked_reason (an_identity a) = gw_locked_reason selected \<and>
    id_path_exists (an_identity a) = exists \<and>
    an_safety a = build_safety (an_identity a) tree upstream persistence base (gw_head selected) policy links"
    by (auto simp: worktree_identity_of_def)
  with tree persistence show ?thesis by blast
qed

section \<open>Properties\<close>

text \<open>
  C5. An analysis without blockers means that removing the worktree loses nothing, as far as git and the file system
  say: the worktree is listed by git, is neither the main one nor locked and its recorded commit is the live one;
  \<open>git status\<close> printed no staged, unstaged or unmerged path, and every untracked or ignored entry is a symbolic
  link or gone; and the commit is an ancestor of a remote-tracking ref that the configured patterns allow.
\<close>

theorem unblocked_worktree_loses_nothing:
  assumes "analyze_worktree w ctx = Inr a" and "ws_blockers (an_safety a) = []"
  shows "\<exists>topology k out ref p out2. list_git_worktrees (aw_sep w) (aw_git w) (wc_repo_path ctx) = Inr topology \<and>
     k < length topology \<and> id_path (an_identity a) = gw_path (topology ! k) \<and> \<not> gw_bare (topology ! k) \<and>
     (k = 0 \<longrightarrow> gw_bare (hd topology)) \<and> gw_locked_reason (topology ! k) = None \<and>
     gw_head (topology ! k) = Some (id_head_oid (an_identity a)) \<and>
     aw_git w (git_argv (id_path (an_identity a)) status_args) = Exited 0 out \<and>
     nothing_to_lose w (id_path (an_identity a)) out \<and>
     p \<in> set (case wc_allowed_remote_refs ctx of None \<Rightarrow> default_allowed_remote_refs | Some rs \<Rightarrow> rs) \<and>
     matches_ref_pattern ref p \<and>
     aw_git w (git_argv (id_path (an_identity a)) [''merge-base'', ''--is-ancestor'', id_head_oid (an_identity a), ref]) = Exited 0 out2"
proof -
  define policy where "policy = (case wc_untracked_symlinks ctx of None \<Rightarrow> ''ignore'' | Some p \<Rightarrow> p)"
  define allowed where "allowed = (case wc_allowed_remote_refs ctx of None \<Rightarrow> default_allowed_remote_refs | Some rs \<Rightarrow> rs)"
  from assms(1) obtain topology k where t: "list_git_worktrees (aw_sep w) (aw_git w) (wc_repo_path ctx) = Inr topology"
    and k: "find_selected_worktree_index w topology (wc_worktree_path ctx) = Some k" and bare: "\<not> gw_bare (topology ! k)"
    and sel: "analyze_selected w ctx policy topology k (topology ! k) = Inr a"
    by (auto simp: analyze_worktree_def Let_def policy_def split: if_splits sum.splits option.splits)
  have kl: "k < length topology" using k
    by (auto simp: find_selected_worktree_index_def find_index_def Let_def split: option.splits if_splits)
  from sel obtain exists head tree links upstream persistence base base_ref where
      tree: "(if exists then read_working_tree w (gw_path (topology ! k)) else Inr (unavailable_working_tree, [])) = Inr (tree, links)"
    and persistence: "analyze_remote_persistence (aw_collate w) (aw_git w)
        (if exists then gw_path (topology ! k) else wc_repo_path ctx) head allowed = Inr persistence"
    and i: "id_path (an_identity a) = gw_path (topology ! k)" "id_is_main (an_identity a) = (k = 0 \<and> \<not> gw_bare (hd topology))"
      "id_head_oid (an_identity a) = head" "id_locked_reason (an_identity a) = gw_locked_reason (topology ! k)"
      "id_path_exists (an_identity a) = exists"
    and safety: "an_safety a = build_safety (an_identity a) tree upstream persistence base (gw_head (topology ! k)) policy links"
    using analyze_selected_parts [OF sel] unfolding allowed_def by blast
  from assms(2) have b: "id_path_exists (an_identity a)" "\<not> id_is_main (an_identity a)" "id_locked_reason (an_identity a) = None"
      "wg_unmerged (wa_counts tree) = 0" "wg_staged (wa_counts tree) = 0" "wg_unstaged (wa_counts tree) = 0"
      "wg_untracked (wa_counts tree) = 0" "wg_ignored (wa_counts tree) = 0" "rpa_persisted persistence"
      "gw_head (topology ! k) = Some (id_head_oid (an_identity a))"
    unfolding safety no_blockers by simp_all
  from b(1) i(5) have ex: "exists" by simp
  from tree ex have "read_working_tree w (gw_path (topology ! k)) = Inr (tree, links)" by simp
  from clean_working_tree [OF this b(4-8)] obtain out where out:
    "aw_git w (git_argv (id_path (an_identity a)) status_args) = Exited 0 out" "nothing_to_lose w (id_path (an_identity a)) out"
    unfolding i(1) by blast
  from persistence ex have "analyze_remote_persistence (aw_collate w) (aw_git w) (id_path (an_identity a))
      (id_head_oid (an_identity a)) allowed = Inr persistence" by (simp add: i)
  from persistence_evidence [OF this b(9)] obtain ref p out2 where ev: "p \<in> set allowed" "matches_ref_pattern ref p"
    "aw_git w (git_argv (id_path (an_identity a)) [''merge-base'', ''--is-ancestor'', id_head_oid (an_identity a), ref]) = Exited 0 out2"
    by blast
  from t kl i(1) bare b out ev i(2,4) show ?thesis unfolding allowed_def by metis
qed

section \<open>A concrete worktree\<close>

definition demo_oid :: string where
  "demo_oid = replicate 40 (CHR ''a'')"

definition demo_topology :: "git_worktree_record list" where
  "demo_topology = [(new_record ''/r'')\<lparr>gw_head := Some demo_oid, gw_branch := Some ''refs/heads/main''\<rparr>,
     (new_record ''/w'')\<lparr>gw_head := Some demo_oid, gw_branch := Some ''refs/heads/x''\<rparr>]"

text \<open>A repository with one remote branch, a worktree \<open>/w\<close> whose commit it contains, and an untracked link there.\<close>

definition demo_git :: git where
  "demo_git argv = Exited 0
    (if ''worktree'' \<in> set argv then print_worktrees demo_topology
     else if ''rev-parse'' \<in> set argv then demo_oid @ [newline]
     else if ''status'' \<in> set argv then ''? link'' @ [nul]
     else if last argv = ''refs/remotes'' then ''refs/remotes/origin/main'' @ [nul]
     else [])"

definition demo_analysis_world :: "string analysis_world" where
  "demo_analysis_world = \<lparr> aw_git = demo_git,
     aw_lstat = (\<lambda>path. if path = ''/w'' then Entry_Directory else if path = ''/w/link'' then Entry_Symlink else Entry_Gone),
     aw_realpath = Some, aw_resolve = (\<lambda>base path. base @ ''/'' @ path), aw_absolute = (\<lambda>path. path), aw_sep = CHR ''/'', aw_collate = (\<lambda>t. t) \<rparr>"

definition demo_context :: worktree_context where
  "demo_context = \<lparr> wc_repo_path = ''/r'', wc_worktree_path = ''/w'', wc_base_ref = None, wc_allowed_remote_refs = None,
     wc_untracked_symlinks = None, wc_remote_refresh = None, wc_workspace_id = None, wc_repository_id = Some ''r1'',
     wc_worktree_id = Some ''w1'', wc_worktree_numeric_id = None \<rparr>"

lemma demo_analysis:
  "map_sum id (\<lambda>a. (ws_blockers (an_safety a), id_path (an_identity a))) (analyze_worktree demo_analysis_world demo_context) = Inr ([], ''/w'')"
  by code_simp

lemma unblocked_worktree_loses_nothing_witness:
  "\<exists>out ref. demo_git (git_argv ''/w'' status_args) = Exited 0 out \<and> nothing_to_lose demo_analysis_world ''/w'' out \<and>
     matches_ref_pattern ref ''refs/remotes/origin/*''"
proof -
  from demo_analysis obtain a where a: "analyze_worktree demo_analysis_world demo_context = Inr a" "ws_blockers (an_safety a) = []"
    "id_path (an_identity a) = ''/w''"
    by (cases "analyze_worktree demo_analysis_world demo_context") auto
  from unblocked_worktree_loses_nothing [OF a(1,2)] obtain out ref p where "demo_git (git_argv ''/w'' status_args) = Exited 0 out"
    "nothing_to_lose demo_analysis_world ''/w'' out" "p \<in> set default_allowed_remote_refs" "matches_ref_pattern ref p"
    by (auto simp: a(3) demo_context_def demo_analysis_world_def)
  then show ?thesis by (auto simp: default_allowed_remote_refs_def)
qed

end
