(* ===== verification/Paths.thy ===== *)
theory Paths
  imports Js_Text
begin

text \<open>
  Containment of paths (\<open>packages/core/src/paths/contains.ts\<close>) over \<open>resolve\<close> and \<open>relative\<close> of \<open>node:path\<close> on a
  POSIX host. \<open>cwd\<close> is the working directory, which is absolute.
\<close>

section \<open>Definitions\<close>

text \<open>The segments of a path without empty ones and dots; two dots take the last segment back.\<close>

definition push_segment :: "string list \<Rightarrow> string \<Rightarrow> string list" where
  "push_segment acc seg = (if seg = [] \<or> seg = ''.'' then acc else if seg = ''..'' then butlast acc else acc @ [seg])"

definition path_segments :: "string \<Rightarrow> string \<Rightarrow> string list" where
  "path_segments cwd path = foldl push_segment []
     ((if starts_with ''/'' path then [] else split_on (CHR ''/'') cwd) @ split_on (CHR ''/'') path)"

definition resolve_path :: "string \<Rightarrow> string \<Rightarrow> string" where
  "resolve_path cwd path = CHR ''/'' # join_with ''/'' (path_segments cwd path)"

fun common_length :: "'a list \<Rightarrow> 'a list \<Rightarrow> nat" where
  "common_length (x # xs) (y # ys) = (if x = y then Suc (common_length xs ys) else 0)"
| "common_length _ _ = 0"

definition relative_path :: "string \<Rightarrow> string \<Rightarrow> string \<Rightarrow> string" where
  "relative_path cwd from to =
    (let f = path_segments cwd from; t = path_segments cwd to; k = common_length f t in
     join_with ''/'' (replicate (length f - k) ''..'' @ drop k t))"

definition contains_path :: "string \<Rightarrow> string \<Rightarrow> string \<Rightarrow> bool" where
  "contains_path cwd root candidate \<longleftrightarrow>
    (let child = relative_path cwd (resolve_path cwd root) (resolve_path cwd candidate) in
     child = [] \<or> \<not> starts_with ''../'' child \<and> child \<noteq> ''..'')"

definition same_path :: "string \<Rightarrow> string \<Rightarrow> string \<Rightarrow> bool" where
  "same_path cwd left right \<longleftrightarrow> relative_path cwd (resolve_path cwd left) (resolve_path cwd right) = []"

section \<open>Segments\<close>

definition plain_segment :: "string \<Rightarrow> bool" where
  "plain_segment seg \<longleftrightarrow> seg \<noteq> [] \<and> seg \<noteq> ''.'' \<and> seg \<noteq> ''..'' \<and> CHR ''/'' \<notin> set seg"

lemma split_on_parts: "part \<in> set (split_on d s) \<Longrightarrow> d \<notin> set part"
proof (induction s arbitrary: part)
  case (Cons c s)
  obtain p ps where split: "split_on d s = p # ps" by (cases "split_on d s") auto
  with Cons.prems Cons.IH show ?case by (auto split: if_splits)
qed simp

lemma push_segment_plain:
  "list_all plain_segment acc \<Longrightarrow> CHR ''/'' \<notin> set seg \<Longrightarrow> list_all plain_segment (push_segment acc seg)"
  by (auto simp: push_segment_def plain_segment_def list_all_iff dest: in_set_butlastD)

lemma foldl_plain:
  "list_all plain_segment acc \<Longrightarrow> \<forall>seg\<in>set segs. CHR ''/'' \<notin> set seg \<Longrightarrow> list_all plain_segment (foldl push_segment acc segs)"
  by (induction segs arbitrary: acc) (simp_all add: push_segment_plain)

lemma path_segments_plain: "list_all plain_segment (path_segments cwd path)"
  unfolding path_segments_def by (rule foldl_plain) (auto dest: split_on_parts)

lemma split_join:
  "segs \<noteq> [] \<Longrightarrow> list_all (\<lambda>seg. CHR ''/'' \<notin> set seg) segs \<Longrightarrow> split_on (CHR ''/'') (join_with ''/'' segs) = segs"
proof (induction "''/''" segs rule: join_with.induct)
  case (2 part)
  have "CHR ''/'' \<notin> set part \<Longrightarrow> split_on (CHR ''/'') part = [part]" by (induction part) auto
  with 2 show ?case by simp
next
  case (3 part next_part parts)
  have "CHR ''/'' \<notin> set part \<Longrightarrow> split_on (CHR ''/'') (part @ CHR ''/'' # s) = part # split_on (CHR ''/'') s" for s
    by (induction part) auto
  with 3 show ?case by simp
qed simp

lemma foldl_push_plain: "list_all plain_segment segs \<Longrightarrow> foldl push_segment acc segs = acc @ segs"
  by (induction segs arbitrary: acc) (simp_all add: push_segment_def plain_segment_def)

text \<open>A resolved path has the segments it was built from.\<close>

lemma segments_resolved: "path_segments cwd (resolve_path cwd path) = path_segments cwd path"
proof -
  let ?segs = "path_segments cwd path"
  have plain: "list_all plain_segment ?segs" by (rule path_segments_plain)
  have "path_segments cwd (CHR ''/'' # join_with ''/'' ?segs) = foldl push_segment [] (split_on (CHR ''/'') (join_with ''/'' ?segs))"
    by (simp add: path_segments_def starts_with_def push_segment_def)
  also have "\<dots> = ?segs"
  proof (cases "?segs = []")
    case True
    then show ?thesis by (simp add: push_segment_def)
  next
    case False
    moreover have "list_all (\<lambda>seg. CHR ''/'' \<notin> set seg) ?segs" using plain by (simp add: list_all_iff plain_segment_def)
    ultimately have "split_on (CHR ''/'') (join_with ''/'' ?segs) = ?segs" by (rule split_join)
    with plain show ?thesis by (simp add: foldl_push_plain)
  qed
  finally show ?thesis by (simp add: resolve_path_def)
qed

lemma common_length_le: "common_length xs ys \<le> length xs"
  by (induction xs ys rule: common_length.induct) auto

lemma common_length_full: "common_length xs ys = length xs \<longleftrightarrow> (\<exists>zs. ys = xs @ zs)"
  by (induction xs ys rule: common_length.induct) auto

lemma join_Nil: "list_all (\<lambda>seg. seg \<noteq> []) segs \<Longrightarrow> join_with d segs = [] \<longleftrightarrow> segs = []"
  by (induction d segs rule: join_with.induct) auto

lemma join_starts_up:
  assumes "list_all plain_segment segs"
  shows "\<not> starts_with ''../'' (join_with ''/'' segs)" and "join_with ''/'' segs \<noteq> ''..''"
proof -
  have p: "\<not> starts_with ''../'' p" if "plain_segment p" for p
    using that by (auto simp: plain_segment_def starts_with_iff)
  have q: "\<not> starts_with ''../'' (p @ CHR ''/'' # s)" if "plain_segment p" for p s
  proof
    assume "starts_with ''../'' (p @ CHR ''/'' # s)"
    then obtain r where "p @ CHR ''/'' # s = ''..'' @ CHR ''/'' # r" by (auto simp: starts_with_iff)
    then have "p = ''..''"
      using takeWhile_upto [of "CHR ''/''" p s] takeWhile_upto [of "CHR ''/''" "''..''" r] that by (simp add: plain_segment_def)
    with that show False by (simp add: plain_segment_def)
  qed
  show "\<not> starts_with ''../'' (join_with ''/'' segs)"
  proof (cases "(''/'', segs)" rule: join_with.cases)
    case (1 d)
    then show ?thesis by (simp add: starts_with_def)
  next
    case (2 d part)
    with assms p show ?thesis by simp
  next
    case (3 d part next_part parts)
    with assms have "plain_segment part" by simp
    from q [OF this, of "join_with ''/'' (next_part # parts)"] 3 show ?thesis by (clarsimp simp only: join_with.simps prod.inject append_Cons append_Nil)
  qed
  show "join_with ''/'' segs \<noteq> ''..''"
  proof (cases "(''/'', segs)" rule: join_with.cases)
    case (3 d part next_part parts)
    have "CHR ''/'' \<in> set (join_with ''/'' segs)" using 3 by clarsimp
    then show ?thesis by auto
  qed (use assms in \<open>auto simp: plain_segment_def\<close>)
qed

section \<open>Properties\<close>

text \<open>
  Containment is containment: \<open>containsPath\<close> answers yes exactly when the segments of the resolved root are a prefix
  of the segments of the resolved candidate, whatever dots, double slashes and relative parts the two spellings have.
\<close>

theorem contains_path_is_prefix:
  "contains_path cwd root candidate \<longleftrightarrow> (\<exists>rest. path_segments cwd candidate = path_segments cwd root @ rest)"
proof -
  define f where "f = path_segments cwd root"
  define t where "t = path_segments cwd candidate"
  define k where "k = common_length f t"
  have plain: "list_all plain_segment f" "list_all plain_segment t" by (simp_all add: f_def t_def path_segments_plain)
  have rel: "relative_path cwd (resolve_path cwd root) (resolve_path cwd candidate) = join_with ''/'' (replicate (length f - k) ''..'' @ drop k t)"
    by (simp add: relative_path_def segments_resolved f_def t_def k_def Let_def)
  show ?thesis
  proof (cases "k = length f")
    case True
    then obtain rest where rest: "t = f @ rest" unfolding k_def common_length_full by blast
    have "list_all plain_segment rest" using plain(2) rest by simp
    with rel True rest join_starts_up [of rest] show ?thesis unfolding contains_path_def f_def [symmetric] t_def [symmetric] by simp
  next
    case False
    then have less: "k < length f" using common_length_le [of f t] by (simp add: k_def)
    then obtain n where n: "length f - k = Suc n" by (metis Suc_diff_Suc)
    define more where "more = replicate n ''..'' @ drop k t"
    have rel': "relative_path cwd (resolve_path cwd root) (resolve_path cwd candidate) = join_with ''/'' (''..'' # more)"
      by (simp add: rel n more_def)
    have "\<not> contains_path cwd root candidate"
    proof (cases "more = []")
      case True
      then show ?thesis by (simp add: contains_path_def rel')
    next
      case False
      then have "join_with ''/'' (''..'' # more) = ''../'' @ join_with ''/'' more" by (simp add: join_cons)
      then show ?thesis by (simp add: contains_path_def rel' starts_with_def)
    qed
    moreover have "\<not> (\<exists>rest. t = f @ rest)" using False by (simp add: k_def flip: common_length_full)
    ultimately show ?thesis by (simp add: f_def t_def)
  qed
qed

lemma same_path_iff: "same_path cwd left right \<longleftrightarrow> path_segments cwd left = path_segments cwd right"
proof -
  define f where "f = path_segments cwd left"
  define t where "t = path_segments cwd right"
  have plain: "list_all plain_segment t" by (simp add: t_def path_segments_plain)
  have "list_all (\<lambda>seg. seg \<noteq> []) (replicate (length f - common_length f t) ''..'' @ drop (common_length f t) t)"
  proof -
    have "seg \<noteq> []" if "seg \<in> set (drop n t)" for seg n
      using plain in_set_dropD [OF that] by (simp add: list_all_iff plain_segment_def)
    then show ?thesis by (simp add: list_all_iff ball_Un)
  qed
  note join_Nil [OF this, of "''/''"]
  moreover have "same_path cwd left right \<longleftrightarrow>
      join_with ''/'' (replicate (length f - common_length f t) ''..'' @ drop (common_length f t) t) = []"
    by (simp add: same_path_def relative_path_def segments_resolved f_def t_def Let_def)
  ultimately have "same_path cwd left right \<longleftrightarrow>
      replicate (length f - common_length f t) ''..'' @ drop (common_length f t) t = []" by (rule HOL.trans [rotated])
  then have "same_path cwd left right \<longleftrightarrow> length f \<le> common_length f t \<and> length t \<le> common_length f t" by simp
  also have "\<dots> \<longleftrightarrow> f = t"
  proof
    assume a: "length f \<le> common_length f t \<and> length t \<le> common_length f t"
    with common_length_le [of f t] have "common_length f t = length f" by simp
    then obtain zs where "t = f @ zs" unfolding common_length_full by blast
    with a \<open>common_length f t = length f\<close> show "f = t" by simp
  next
    assume "f = t"
    moreover have "common_length f f = length f" unfolding common_length_full by simp
    ultimately show "length f \<le> common_length f t \<and> length t \<le> common_length f t" by simp
  qed
  finally show ?thesis by (simp add: f_def t_def)
qed

end
