(* ===== verification/Remove_Worktree.thy ===== *)
theory Remove_Worktree
  imports Worktree_Analysis Paths Operation_Lease
begin

text \<open>
  The removal of a worktree (\<open>packages/core/src/analysis/remove-worktree.ts\<close>, \<open>remove-policy.ts\<close>): the order in
  which a worktree is taken apart and the two safety checks around it. The surroundings are a state \<open>'s\<close>: what git
  and the file system answer is a function of it, and the runtime's operations and the session's journal are
  functions on it, whose effect includes whatever other processes do meanwhile.
\<close>

section \<open>Definitions\<close>

record removal_subject =
  rs_repository_id :: ident
  rs_worktree_id :: ident
  rs_worktree_path :: string

record identity_token =
  it_path :: string
  it_head_oid :: string
  it_branch_ref :: "string option"
  it_detached :: bool
  it_is_main :: bool

datatype 'e removal_failure = Analysis_Failed analysis_failure | Removal_Blocked "wtm_error list"
  | Process_Residue removal_subject nat nat | Identity_Changed identity_token identity_token
  | Subject_Unidentified | Coordinator_Failed 'e | Session_Failed lease_failure

datatype removal_stage = Stage_Analyze | Stage_Stop_Processes | Stage_Verify_Processes | Stage_Cleanup_Resources
  | Stage_Reanalyze | Stage_Release_Endpoints | Stage_Git_Remove | Stage_Reconcile

definition removal_stages :: "removal_stage list" where
  "removal_stages = [Stage_Analyze, Stage_Stop_Processes, Stage_Verify_Processes, Stage_Cleanup_Resources,
     Stage_Reanalyze, Stage_Release_Endpoints, Stage_Git_Remove, Stage_Reconcile]"

fun stage_text :: "removal_stage \<Rightarrow> string" where
  "stage_text Stage_Analyze = ''analyze''"
| "stage_text Stage_Stop_Processes = ''stop-processes''"
| "stage_text Stage_Verify_Processes = ''verify-processes''"
| "stage_text Stage_Cleanup_Resources = ''cleanup-resources''"
| "stage_text Stage_Reanalyze = ''reanalyze''"
| "stage_text Stage_Release_Endpoints = ''release-endpoints''"
| "stage_text Stage_Git_Remove = ''git-remove''"
| "stage_text Stage_Reconcile = ''reconcile''"

text \<open>The runtime half; an operation that rejects gives \<open>Inl\<close>.\<close>

record ('s, 'e) removal_coordinator =
  rc_reclaimable_paths :: "removal_subject \<Rightarrow> 's \<Rightarrow> 's \<times> ('e + string list)"
  rc_stop_managed_processes :: "removal_subject \<Rightarrow> 's \<Rightarrow> 's \<times> ('e + nat)"
  rc_verify_managed_processes_stopped :: "removal_subject \<Rightarrow> 's \<Rightarrow> 's \<times> ('e + (nat \<times> nat))"
  rc_cleanup_ephemeral_resources :: "removal_subject \<Rightarrow> 's \<Rightarrow> 's \<times> ('e + (nat \<times> (string \<times> string) list))"
  rc_release_endpoint_leases :: "removal_subject \<Rightarrow> 's \<Rightarrow> 's \<times> ('e + nat)"
  rc_reconcile :: "removal_subject \<Rightarrow> 's \<Rightarrow> 's \<times> ('e + unit)"

text \<open>The session of the operation lease: its journal and the stage of an adopted lease.\<close>

record 's removal_session =
  se_advance :: "string \<Rightarrow> 's \<Rightarrow> 's \<times> (lease_failure + unit)"
  se_adopted_stage :: "string option"

record ('s, 'k) removal_world =
  rw_analysis :: "'s \<Rightarrow> 'k analysis_world"
  rw_git :: "'s git_program"
  rw_cwd :: string

record guarded_removal_result =
  gr_analysis :: worktree_analysis
  gr_stopped_processes :: nat
  gr_released_endpoints :: nat
  gr_collected_resources :: nat
  gr_retained_resources :: "(string \<times> string) list"
  gr_deferred_blockers :: "wtm_error list"
  gr_resumed_from :: "removal_stage option"

text \<open>One step after another; the first that fails ends the run in the state it left.\<close>

definition attempt :: "'s \<times> ('f + 'a) \<Rightarrow> ('a \<Rightarrow> 's \<Rightarrow> 's \<times> ('f + 'b)) \<Rightarrow> 's \<times> ('f + 'b)" where
  "attempt m f = (case m of (s, Inl e) \<Rightarrow> (s, Inl e) | (s, Inr a) \<Rightarrow> f a s)"

definition failing_as :: "('e \<Rightarrow> 'f) \<Rightarrow> 's \<times> ('e + 'a) \<Rightarrow> 's \<times> ('f + 'a)" where
  "failing_as g m = (case m of (s, Inl e) \<Rightarrow> (s, Inl (g e)) | (s, Inr a) \<Rightarrow> (s, Inr a))"

definition assert_removable :: "worktree_analysis \<Rightarrow> 'e removal_failure + unit" where
  "assert_removable a = (if ws_blockers (an_safety a) \<noteq> [] then Inl (Removal_Blocked (ws_blockers (an_safety a))) else Inr ())"

definition removal_identity_token :: "worktree_analysis \<Rightarrow> identity_token" where
  "removal_identity_token a = (let i = an_identity a in
     \<lparr> it_path = id_path i, it_head_oid = id_head_oid i, it_branch_ref = id_branch_ref i,
       it_detached = id_detached i, it_is_main = id_is_main i \<rparr>)"

definition assert_identity_unchanged :: "identity_token \<Rightarrow> worktree_analysis \<Rightarrow> 'e removal_failure + unit" where
  "assert_identity_unchanged token a = (if token \<noteq> removal_identity_token a
     then Inl (Identity_Changed token (removal_identity_token a)) else Inr ())"

definition removal_subject_of :: "worktree_context \<Rightarrow> worktree_analysis \<Rightarrow> 'e removal_failure + removal_subject" where
  "removal_subject_of ctx a = (case (wc_repository_id ctx, wc_worktree_id ctx) of
     (Some r, Some w) \<Rightarrow> Inr \<lparr> rs_repository_id = r, rs_worktree_id = w, rs_worktree_path = id_path (an_identity a) \<rparr>
   | _ \<Rightarrow> Inl Subject_Unidentified)"

definition stage_of_text :: "string \<Rightarrow> removal_stage option" where
  "stage_of_text t = find (\<lambda>stage. stage_text stage = t) removal_stages"

definition adopted_stage :: "'s removal_session option \<Rightarrow> removal_stage option" where
  "adopted_stage session = (case session of None \<Rightarrow> None | Some se \<Rightarrow> Option.bind (se_adopted_stage se) stage_of_text)"

text \<open>\<open>session?.advance(stage)\<close>\<close>

definition record_stage :: "'s removal_session option \<Rightarrow> removal_stage \<Rightarrow> 's \<Rightarrow> 's \<times> ('e removal_failure + unit)" where
  "record_stage session stage s = (case session of None \<Rightarrow> (s, Inr ())
     | Some se \<Rightarrow> failing_as Session_Failed (se_advance se (stage_text stage) s))"

definition analyze_now ::
  "('s, 'k :: linorder) removal_world \<Rightarrow> worktree_context \<Rightarrow> 's \<Rightarrow> 's \<times> ('e removal_failure + worktree_analysis)" where
  "analyze_now W ctx s = (s, case analyze_worktree (rw_analysis W s) ctx of Inl e \<Rightarrow> Inl (Analysis_Failed e) | Inr a \<Rightarrow> Inr a)"

definition names_only_reclaimable_paths ::
  "('s, 'k) removal_world \<Rightarrow> 's \<Rightarrow> wtm_error \<Rightarrow> string \<Rightarrow> string list \<Rightarrow> bool" where
  "names_only_reclaimable_paths W s blocker worktree_path reclaimable \<longleftrightarrow>
    (case map_of (we_context blocker) ''paths'' of
       Some (CV_Texts paths) \<Rightarrow> paths \<noteq> [] \<and> list_all (\<lambda>path. list_ex (\<lambda>root.
         contains_path (rw_cwd W) root (aw_resolve (rw_analysis W s) worktree_path path)) reclaimable) paths
     | _ \<Rightarrow> False)"

definition deferrable_blockers ::
  "('s, 'k) removal_world \<Rightarrow> ('s, 'e) removal_coordinator option \<Rightarrow> worktree_context \<Rightarrow> worktree_analysis
   \<Rightarrow> 's \<Rightarrow> 's \<times> ('e removal_failure + wtm_error list)" where
  "deferrable_blockers W coordinator ctx a s = (case coordinator of None \<Rightarrow> (s, Inr [])
     | Some c \<Rightarrow>
       (let candidates = filter (\<lambda>b. we_code b = Untracked_Files \<or> we_code b = Ignored_Content) (ws_blockers (an_safety a)) in
        if candidates = [] then (s, Inr [])
        else attempt (s, removal_subject_of ctx a) (\<lambda>subject s.
          attempt (failing_as Coordinator_Failed (rc_reclaimable_paths c subject s)) (\<lambda>reclaimable s.
            (s, Inr (if reclaimable = [] then []
              else filter (\<lambda>b. names_only_reclaimable_paths W s b (id_path (an_identity a)) reclaimable) candidates))))))"

text \<open>The first check: the blockers that cleanup is expected to resolve wait for it.\<close>

definition first_gate :: "worktree_analysis \<Rightarrow> wtm_error list \<Rightarrow> 'e removal_failure + unit" where
  "first_gate a deferred =
    (if deferred = [] then assert_removable a
     else let refusals = filter (\<lambda>b. b \<notin> set deferred) (ws_blockers (an_safety a)) in
       if refusals \<noteq> [] then Inl (Removal_Blocked refusals) else Inr ())"

text \<open>Stop, verify, clean up: the numbers of stopped processes, of collected and the list of retained resources.\<close>

definition runtime_teardown ::
  "('s, 'e) removal_coordinator option \<Rightarrow> 's removal_session option \<Rightarrow> worktree_context \<Rightarrow> worktree_analysis
   \<Rightarrow> 's \<Rightarrow> 's \<times> ('e removal_failure + (nat \<times> nat \<times> (string \<times> string) list))" where
  "runtime_teardown coordinator session ctx a s = (case coordinator of None \<Rightarrow> (s, Inr (0, 0, []))
     | Some c \<Rightarrow>
       attempt (s, removal_subject_of ctx a) (\<lambda>subject s.
       attempt (record_stage session Stage_Stop_Processes s) (\<lambda>_ s.
       attempt (failing_as Coordinator_Failed (rc_stop_managed_processes c subject s)) (\<lambda>stopped s.
       attempt (record_stage session Stage_Verify_Processes s) (\<lambda>_ s.
       attempt (failing_as Coordinator_Failed (rc_verify_managed_processes_stopped c subject s)) (\<lambda>(active, owed) s.
       if active > 0 \<or> owed > 0 then (s, Inl (Process_Residue subject active owed))
       else attempt (record_stage session Stage_Cleanup_Resources s) (\<lambda>_ s.
       attempt (failing_as Coordinator_Failed (rc_cleanup_ephemeral_resources c subject s)) (\<lambda>(collected, retained) s.
         (s, Inr (stopped, collected, retained))))))))))"

text \<open>The second check, which covers the side effects of the teardown.\<close>

definition second_gate ::
  "('s, 'k :: linorder) removal_world \<Rightarrow> 's removal_session option \<Rightarrow> worktree_context \<Rightarrow> identity_token
   \<Rightarrow> 's \<Rightarrow> 's \<times> ('e removal_failure + worktree_analysis)" where
  "second_gate W session ctx token s =
    attempt (record_stage session Stage_Reanalyze s) (\<lambda>_ s.
    attempt (analyze_now W ctx s) (\<lambda>a s.
    attempt (s, assert_removable a) (\<lambda>_ s.
    attempt (s, assert_identity_unchanged token a) (\<lambda>_ s. (s, Inr a)))))"

definition release_endpoints ::
  "('s, 'e) removal_coordinator option \<Rightarrow> 's removal_session option \<Rightarrow> worktree_context \<Rightarrow> worktree_analysis
   \<Rightarrow> 's \<Rightarrow> 's \<times> ('e removal_failure + nat)" where
  "release_endpoints coordinator session ctx a s = (case coordinator of None \<Rightarrow> (s, Inr 0)
     | Some c \<Rightarrow>
       attempt (record_stage session Stage_Release_Endpoints s) (\<lambda>_ s.
       attempt (s, removal_subject_of ctx a) (\<lambda>subject s.
       failing_as Coordinator_Failed (rc_release_endpoint_leases c subject s))))"

definition reconcile_after ::
  "('s, 'e) removal_coordinator option \<Rightarrow> 's removal_session option \<Rightarrow> worktree_context \<Rightarrow> worktree_analysis
   \<Rightarrow> 's \<Rightarrow> 's \<times> ('e removal_failure + unit)" where
  "reconcile_after coordinator session ctx a s = (case coordinator of None \<Rightarrow> (s, Inr ())
     | Some c \<Rightarrow>
       attempt (record_stage session Stage_Reconcile s) (\<lambda>_ s.
       attempt (s, removal_subject_of ctx a) (\<lambda>subject s.
       failing_as Coordinator_Failed (rc_reconcile c subject s))))"

definition git_remove_args :: "worktree_analysis \<Rightarrow> string list" where
  "git_remove_args a = [''worktree'', ''remove'', ''--'', id_path (an_identity a)]"

definition git_remove ::
  "('s, 'k) removal_world \<Rightarrow> worktree_context \<Rightarrow> worktree_analysis \<Rightarrow> 's \<Rightarrow> 's \<times> ('e removal_failure + (string \<times> nat))" where
  "git_remove W ctx a s = failing_as Analysis_Failed (execute_git (rw_git W) (wc_repo_path ctx) (git_remove_args a) [0] s)"

text \<open>Up to the first check: the analysis and the blockers that wait for cleanup.\<close>

definition first_check ::
  "('s, 'k :: linorder) removal_world \<Rightarrow> ('s, 'e) removal_coordinator option \<Rightarrow> 's removal_session option
   \<Rightarrow> worktree_context \<Rightarrow> 's \<Rightarrow> 's \<times> ('e removal_failure + (worktree_analysis \<times> wtm_error list))" where
  "first_check W coordinator session ctx s =
    attempt (record_stage session Stage_Analyze s) (\<lambda>_ s.
    attempt (analyze_now W ctx s) (\<lambda>initial s.
    attempt (deferrable_blockers W coordinator ctx initial s) (\<lambda>deferred s.
    attempt (s, first_gate initial deferred) (\<lambda>_ s. (s, Inr (initial, deferred))))))"

text \<open>After the second check: the ports, the worktree itself, the registry.\<close>

definition take_away ::
  "('s, 'k :: linorder) removal_world \<Rightarrow> ('s, 'e) removal_coordinator option \<Rightarrow> 's removal_session option
   \<Rightarrow> worktree_context \<Rightarrow> worktree_analysis \<Rightarrow> 's \<Rightarrow> 's \<times> ('e removal_failure + nat)" where
  "take_away W coordinator session ctx final s =
    attempt (release_endpoints coordinator session ctx final s) (\<lambda>released s.
    attempt (record_stage session Stage_Git_Remove s) (\<lambda>_ s.
    attempt (git_remove W ctx final s) (\<lambda>_ s.
    attempt (reconcile_after coordinator session ctx final s) (\<lambda>_ s. (s, Inr released)))))"

definition removal_report ::
  "'s removal_session option \<Rightarrow> worktree_analysis \<Rightarrow> nat \<Rightarrow> nat \<Rightarrow> nat \<Rightarrow> (string \<times> string) list \<Rightarrow> wtm_error list
   \<Rightarrow> guarded_removal_result" where
  "removal_report session final stopped released collected retained deferred =
    \<lparr> gr_analysis = final, gr_stopped_processes = stopped, gr_released_endpoints = released,
         gr_collected_resources = collected, gr_retained_resources = retained, gr_deferred_blockers = deferred,
         gr_resumed_from = adopted_stage session \<rparr>"

definition run_removal_lifecycle ::
  "('s, 'k :: linorder) removal_world \<Rightarrow> ('s, 'e) removal_coordinator option \<Rightarrow> 's removal_session option
   \<Rightarrow> worktree_context \<Rightarrow> 's \<Rightarrow> 's \<times> ('e removal_failure + guarded_removal_result)" where
  "run_removal_lifecycle W coordinator session ctx s =
    attempt (first_check W coordinator session ctx s) (\<lambda>(initial, deferred) s.
    attempt (runtime_teardown coordinator session ctx initial s) (\<lambda>(stopped, collected, retained) s.
    attempt (second_gate W session ctx (removal_identity_token initial) s) (\<lambda>final s.
    attempt (take_away W coordinator session ctx final s) (\<lambda>released s.
      (s, Inr (removal_report session final stopped released collected retained deferred))))))"

text \<open>
  The lease around it. Inside the bracket a thrown error is a value, so that the lease is released whatever it is.
  \<open>now\<close> is the clock of the session's journal.
\<close>

definition removal_session_of ::
  "'s lease_api \<Rightarrow> lease_input \<Rightarrow> time \<Rightarrow> string \<Rightarrow> string option \<Rightarrow> 's removal_session" where
  "removal_session_of api i now token stage = \<lparr> se_advance = session_advance api i token now, se_adopted_stage = stage \<rparr>"

definition removal_lease_input :: "worktree_context \<Rightarrow> ident \<Rightarrow> string \<Rightarrow> bool \<Rightarrow> lease_input" where
  "removal_lease_input ctx repository_id host_id adopt = \<lparr> li_host_id = host_id, li_repository_id = repository_id,
     li_operation = Op_Remove, li_subject_worktree_id = wc_worktree_id ctx, li_adopt = adopt, li_ttl_ms = None \<rparr>"

definition with_optional_lease ::
  "'s lease_api \<Rightarrow> 's lease_world \<Rightarrow> lease_input option \<Rightarrow> string \<Rightarrow> time
   \<Rightarrow> ('s removal_session option \<Rightarrow> 's \<Rightarrow> 's \<times> ('e removal_failure + 'a)) \<Rightarrow> 's \<Rightarrow> 's \<times> ('e removal_failure + 'a)" where
  "with_optional_lease api lw lease token now body s = (case lease of None \<Rightarrow> body None s
     | Some i \<Rightarrow>
       (case with_operation_lease api lw i token (\<lambda>token stage s.
            case body (Some (removal_session_of api i now token stage)) s of (t, r) \<Rightarrow> (t, Inr r)) s of
          (t, Inl e) \<Rightarrow> (t, Inl (Session_Failed e))
        | (t, Inr r) \<Rightarrow> (t, r)))"

definition remove_worktree_guarded ::
  "('s, 'k :: linorder) removal_world \<Rightarrow> ('s, 'e) removal_coordinator option \<Rightarrow> 's lease_api \<Rightarrow> 's lease_world
   \<Rightarrow> lease_input option \<Rightarrow> string \<Rightarrow> time \<Rightarrow> worktree_context \<Rightarrow> 's \<Rightarrow> 's \<times> ('e removal_failure + guarded_removal_result)" where
  "remove_worktree_guarded W coordinator api lw lease token now ctx s =
    (case read_git_common_directory (aw_sep (rw_analysis W s)) (aw_git (rw_analysis W s)) (wc_repo_path ctx) of
       Inl e \<Rightarrow> (s, Inl (Analysis_Failed (Git_Failed e)))
     | Inr directory \<Rightarrow> (case aw_realpath (rw_analysis W s) directory of
         None \<Rightarrow> (s, Inl (Analysis_Failed File_System_Error))
       | Some _ \<Rightarrow> with_optional_lease api lw lease token now
           (\<lambda>session s. run_removal_lifecycle W coordinator session ctx s) s))"

text \<open>The entry point without runtime and lease.\<close>

definition remove_worktree_safely ::
  "('s, 'k :: linorder) removal_world \<Rightarrow> worktree_context \<Rightarrow> 's \<Rightarrow> 's \<times> (unit removal_failure + worktree_analysis)" where
  "remove_worktree_safely W ctx s =
    (case remove_worktree_guarded W None undefined undefined None [] 0 ctx s of
       (t, Inl e) \<Rightarrow> (t, Inl e) | (t, Inr r) \<Rightarrow> (t, Inr (gr_analysis r)))"

section \<open>What the steps keep\<close>

definition session_keeps :: "('s \<Rightarrow> bool) \<Rightarrow> 's removal_session option \<Rightarrow> bool" where
  "session_keeps P session \<longleftrightarrow> (\<forall>se stage s. session = Some se \<longrightarrow> P s \<longrightarrow> P (fst (se_advance se stage s)))"

definition runtime_keeps :: "('s \<Rightarrow> bool) \<Rightarrow> ('s, 'e) removal_coordinator option \<Rightarrow> bool" where
  "runtime_keeps P coordinator \<longleftrightarrow> (\<forall>c subject s. coordinator = Some c \<longrightarrow> P s \<longrightarrow>
     P (fst (rc_reclaimable_paths c subject s)) \<and> P (fst (rc_stop_managed_processes c subject s)) \<and>
     P (fst (rc_verify_managed_processes_stopped c subject s)) \<and> P (fst (rc_cleanup_ephemeral_resources c subject s)))"

definition release_keeps :: "('s \<Rightarrow> bool) \<Rightarrow> ('s, 'e) removal_coordinator option \<Rightarrow> bool" where
  "release_keeps P coordinator \<longleftrightarrow> (\<forall>c subject s. coordinator = Some c \<longrightarrow> P s \<longrightarrow> P (fst (rc_release_endpoint_leases c subject s)))"

definition reconcile_keeps :: "('s \<Rightarrow> bool) \<Rightarrow> ('s, 'e) removal_coordinator option \<Rightarrow> bool" where
  "reconcile_keeps P coordinator \<longleftrightarrow> (\<forall>c subject s. coordinator = Some c \<longrightarrow> P s \<longrightarrow> P (fst (rc_reconcile c subject s)))"

text \<open>The run \<open>m\<close> ends in a state with \<open>P\<close>; the rules follow the structure of a run.\<close>

definition leaves :: "('s \<Rightarrow> bool) \<Rightarrow> 's \<times> 'r \<Rightarrow> bool" where
  "leaves P m \<longleftrightarrow> P (fst m)"

named_theorems leaves_rules \<open>what a run of steps leaves\<close>

lemma leaves_pure [leaves_rules]: "P s \<Longrightarrow> leaves P (s, r)"
  by (simp add: leaves_def)

lemma leaves_failing_as [leaves_rules]: "leaves P m \<Longrightarrow> leaves P (failing_as g m)"
  by (auto simp: leaves_def failing_as_def split: prod.splits sum.splits)

lemma leaves_attempt [leaves_rules]: "leaves P m \<Longrightarrow> (\<And>a s. P s \<Longrightarrow> leaves P (f a s)) \<Longrightarrow> leaves P (attempt m f)"
  by (auto simp: leaves_def attempt_def split: prod.splits sum.splits)

lemma leaves_prod [leaves_rules]: "(\<And>a b. leaves P (f a b)) \<Longrightarrow> leaves P (case x of (a, b) \<Rightarrow> f a b)"
  by (cases x) simp

lemma leaves_prod_arg [leaves_rules]: "(\<And>a b. leaves P (f a b s)) \<Longrightarrow> leaves P ((case x of (a, b) \<Rightarrow> f a b) s)"
  by (cases x) simp

lemma leaves_if [leaves_rules]: "leaves P m \<Longrightarrow> leaves P n \<Longrightarrow> leaves P (if c then m else n)"
  by simp

lemma attempt_Inr: "attempt m f = (t, Inr b) \<longleftrightarrow> (\<exists>s a. m = (s, Inr a) \<and> f a s = (t, Inr b))"
  by (cases m) (auto simp: attempt_def split: sum.splits)

lemma failing_as_Inr: "failing_as g m = (s, Inr a) \<longleftrightarrow> m = (s, Inr a)"
  by (auto simp: failing_as_def split: prod.splits sum.splits)

lemma record_leaves: "session_keeps P session \<Longrightarrow> P s \<Longrightarrow> leaves P (record_stage session stage s)"
  unfolding record_stage_def session_keeps_def
  by (cases session) (auto simp: leaves_def [of P "(s, r)" for r] leaves_def [of P "se_advance x y z" for x y z] intro!: leaves_rules)

lemma analyze_now_leaves: "P s \<Longrightarrow> leaves P (analyze_now W ctx s)"
  by (simp add: analyze_now_def leaves_def)

lemma runtime_leaves:
  assumes "runtime_keeps P (Some c)" and "P s"
  shows "leaves P (rc_reclaimable_paths c subject s)" and "leaves P (rc_stop_managed_processes c subject s)"
    and "leaves P (rc_verify_managed_processes_stopped c subject s)" and "leaves P (rc_cleanup_ephemeral_resources c subject s)"
  using assms by (simp_all add: runtime_keeps_def leaves_def)

lemma deferrable_leaves:
  assumes "runtime_keeps P coordinator" and "P s"
  shows "leaves P (deferrable_blockers W coordinator ctx a s)"
proof (cases coordinator)
  case None
  with assms show ?thesis by (simp add: deferrable_blockers_def leaves_def)
next
  case (Some c)
  with assms show ?thesis
    unfolding deferrable_blockers_def Some option.case Let_def
    by (intro leaves_rules runtime_leaves) simp_all
qed

lemma teardown_leaves:
  assumes k: "session_keeps P session" "runtime_keeps P coordinator" and s: "P s"
  shows "leaves P (runtime_teardown coordinator session ctx a s)"
proof (cases coordinator)
  case None
  with s show ?thesis by (simp add: runtime_teardown_def leaves_def)
next
  case (Some c)
  with k s show ?thesis
    unfolding runtime_teardown_def Some option.case
    by (intro leaves_rules runtime_leaves record_leaves) simp_all
qed

lemma second_gate_leaves: "session_keeps P session \<Longrightarrow> P s \<Longrightarrow> leaves P (second_gate W session ctx token s)"
  unfolding second_gate_def by (intro leaves_rules record_leaves analyze_now_leaves) simp_all

lemma release_endpoints_leaves:
  assumes "session_keeps P session" and "release_keeps P coordinator" and "P s"
  shows "leaves P (release_endpoints coordinator session ctx a s)"
proof (cases coordinator)
  case (Some c)
  with assms(2) have c: "P s \<Longrightarrow> leaves P (rc_release_endpoint_leases c subject s)" for subject s
    by (simp add: release_keeps_def leaves_def)
  show ?thesis unfolding release_endpoints_def Some option.case
    using assms by (intro leaves_rules record_leaves c) simp_all
qed (use assms in \<open>simp add: release_endpoints_def leaves_def\<close>)

lemma reconcile_after_leaves:
  assumes "session_keeps P session" and "reconcile_keeps P coordinator" and "P s"
  shows "leaves P (reconcile_after coordinator session ctx a s)"
proof (cases coordinator)
  case (Some c)
  with assms(2) have c: "P s \<Longrightarrow> leaves P (rc_reconcile c subject s)" for subject s
    by (simp add: reconcile_keeps_def leaves_def)
  show ?thesis unfolding reconcile_after_def Some option.case
    using assms by (intro leaves_rules record_leaves c) simp_all
qed (use assms in \<open>simp add: reconcile_after_def leaves_def\<close>)

section \<open>What a passed check says\<close>

lemma second_gate_passed:
  assumes "second_gate W session ctx token s = (t, Inr a)"
  shows "analyze_worktree (rw_analysis W t) ctx = Inr a \<and> ws_blockers (an_safety a) = [] \<and> token = removal_identity_token a"
  using assms unfolding second_gate_def
  by (auto simp: attempt_Inr analyze_now_def assert_removable_def assert_identity_unchanged_def split: sum.splits if_splits)

lemma teardown_verified:
  assumes "runtime_teardown (Some c) session ctx a s = (t, Inr r)" and k: "session_keeps P session" "runtime_keeps P (Some c)" and "P s"
  shows "\<exists>subject u v. P u \<and> rc_verify_managed_processes_stopped c subject u = (v, Inr (0, 0))"
proof -
  from assms(1) obtain subject s1 u1 s2 stopped s3 u3 s4 active owed where
      subject: "removal_subject_of ctx a = (Inr subject :: 'b removal_failure + removal_subject)"
    and 1: "record_stage session Stage_Stop_Processes s = (s1, Inr u1 :: 'b removal_failure + unit)"
    and 2: "rc_stop_managed_processes c subject s1 = (s2, Inr stopped)"
    and 3: "record_stage session Stage_Verify_Processes s2 = (s3, Inr u3 :: 'b removal_failure + unit)"
    and 4: "rc_verify_managed_processes_stopped c subject s3 = (s4, Inr (active, owed))" and "active = 0" "owed = 0"
    unfolding runtime_teardown_def option.case
    by (auto simp: attempt_Inr failing_as_Inr split: prod.splits if_splits)
  have after: "leaves P m \<Longrightarrow> m = (x, y) \<Longrightarrow> P x" for m :: "'a \<times> 'x" and x y by (simp add: leaves_def)
  have "P s1" by (rule after [OF record_leaves 1]) (use k(1) \<open>P s\<close> in simp_all)
  with runtime_leaves(2) [OF k(2)] 2 have "P s2" by (metis leaves_def fst_conv)
  have "P s3" by (rule after [OF record_leaves 3]) (use k(1) \<open>P s2\<close> in simp_all)
  with 4 \<open>active = 0\<close> \<open>owed = 0\<close> show ?thesis by blast
qed

section \<open>The order of a removal\<close>

lemma attempt_reach:
  assumes "attempt m f = (t, r)" and "leaves P m" and "\<not> P t"
  obtains s a where "m = (s, Inr a)" and "P s" and "f a s = (t, r)"
proof -
  obtain s x where m: "m = (s, x)" by (cases m)
  with assms obtain a where "x = Inr a" by (cases x) (auto simp: attempt_def leaves_def)
  with m assms that show ?thesis by (simp add: attempt_def leaves_def)
qed

lemma analyze_now_Inr: "analyze_now W ctx s = (t, Inr a) \<longleftrightarrow> t = s \<and> analyze_worktree (rw_analysis W s) ctx = Inr a"
  by (cases "analyze_worktree (rw_analysis W s) ctx") (auto simp: analyze_now_def)

lemma first_check_leaves:
  "session_keeps P session \<Longrightarrow> runtime_keeps P coordinator \<Longrightarrow> P s \<Longrightarrow> leaves P (first_check W coordinator session ctx s)"
  unfolding first_check_def by (intro leaves_rules record_leaves analyze_now_leaves deferrable_leaves) simp_all

lemma first_check_analysis:
  assumes "first_check W coordinator session ctx s = (t, Inr (initial, deferred))"
  shows "\<exists>u. analyze_worktree (rw_analysis W u) ctx = Inr initial"
  using assms unfolding first_check_def by (auto simp: attempt_Inr analyze_now_Inr)

text \<open>
  A run that changes what the check and the teardown keep has passed the second check: what held there.
\<close>

definition checked_state ::
  "('s \<Rightarrow> bool) \<Rightarrow> ('s, 'k :: linorder) removal_world \<Rightarrow> ('s, 'e) removal_coordinator option \<Rightarrow> worktree_context
   \<Rightarrow> 's \<Rightarrow> worktree_analysis \<Rightarrow> bool" where
  "checked_state P W coordinator ctx u final \<longleftrightarrow> P u \<and> analyze_worktree (rw_analysis W u) ctx = Inr final \<and>
     ws_blockers (an_safety final) = [] \<and>
     (\<exists>v initial. analyze_worktree (rw_analysis W v) ctx = Inr initial \<and>
        removal_identity_token initial = removal_identity_token final) \<and>
     (\<forall>c. coordinator = Some c \<longrightarrow>
        (\<exists>subject v w. P v \<and> rc_verify_managed_processes_stopped c subject v = (w, Inr (0, 0))))"

lemma lifecycle_checked:
  assumes run: "run_removal_lifecycle W coordinator session ctx s = (t, r)"
    and k: "session_keeps P session" "runtime_keeps P coordinator" and s: "P s" and t: "\<not> P t"
  obtains u final where "checked_state P W coordinator ctx u final" and "\<not> leaves P (take_away W coordinator session ctx final u)"
proof (rule attempt_reach [where P = P, OF run [unfolded run_removal_lifecycle_def] _ t])
  show "leaves P (first_check W coordinator session ctx s)" by (rule first_check_leaves [OF k s])
next
  fix s1 x assume 1: "first_check W coordinator session ctx s = (s1, Inr x)" "P s1"
    and "(case x of (initial, deferred) \<Rightarrow> \<lambda>s. attempt (runtime_teardown coordinator session ctx initial s) (\<lambda>(stopped, collected, retained) s.
    attempt (second_gate W session ctx (removal_identity_token initial) s) (\<lambda>final s.
    attempt (take_away W coordinator session ctx final s) (\<lambda>released s.
      (s, Inr (removal_report session final stopped released collected retained deferred)))))) s1 = (t, r)"
  then obtain initial deferred where x: "x = (initial, deferred)" and run1: "attempt (runtime_teardown coordinator session ctx initial s1) (\<lambda>(stopped, collected, retained) s.
    attempt (second_gate W session ctx (removal_identity_token initial) s) (\<lambda>final s.
    attempt (take_away W coordinator session ctx final s) (\<lambda>released s.
      (s, Inr (removal_report session final stopped released collected retained deferred))))) = (t, r)" by (cases x) simp
  from first_check_analysis [OF 1(1) [unfolded x]] obtain v where v: "analyze_worktree (rw_analysis W v) ctx = Inr initial" by blast
  show thesis
  proof (rule attempt_reach [where P = P, OF run1 _ t])
    show "leaves P (runtime_teardown coordinator session ctx initial s1)" by (rule teardown_leaves [OF k 1(2)])
  next
    fix s2 y assume 2: "runtime_teardown coordinator session ctx initial s1 = (s2, Inr y)" "P s2"
      and "(case y of (stopped, collected, retained) \<Rightarrow> \<lambda>s. attempt (second_gate W session ctx (removal_identity_token initial) s) (\<lambda>final s.
    attempt (take_away W coordinator session ctx final s) (\<lambda>released s.
      (s, Inr (removal_report session final stopped released collected retained deferred))))) s2 = (t, r)"
    then obtain f where run2: "attempt (second_gate W session ctx (removal_identity_token initial) s2) (\<lambda>final s.
      attempt (take_away W coordinator session ctx final s) (\<lambda>released s. (s, Inr (f final released)))) = (t, r)"
      by (cases y) auto
    show thesis
    proof (rule attempt_reach [where P = P, OF run2 _ t])
      show "leaves P (second_gate W session ctx (removal_identity_token initial) s2)" by (rule second_gate_leaves [OF k(1) 2(2)])
    next
      fix u final assume 3: "second_gate W session ctx (removal_identity_token initial) s2 = (u, Inr final)" "P u"
        and run3: "attempt (take_away W coordinator session ctx final u) (\<lambda>released s. (s, Inr (f final released))) = (t, r)"
      have "\<not> leaves P (take_away W coordinator session ctx final u)"
      proof
        assume "leaves P (take_away W coordinator session ctx final u)"
        then have "leaves P (attempt (take_away W coordinator session ctx final u) (\<lambda>released s. (s, Inr (f final released))))"
          by (intro leaves_rules)
        with run3 t show False by (simp add: leaves_def)
      qed
      moreover have "checked_state P W coordinator ctx u final"
        unfolding checked_state_def
        using second_gate_passed [OF 3(1)] 3(2) v teardown_verified [OF _ k(1), of _ ctx initial s1 s2 y] 2(1) k(2) 1(2) by blast
      ultimately show thesis using that by blast
    qed
  qed
qed

lemma fst_git_remove: "fst (git_remove W ctx a s) = fst (rw_git W s (git_argv (wc_repo_path ctx) (git_remove_args a)))"
  by (auto simp: git_remove_def failing_as_def execute_git_def split: prod.splits sum.splits)

definition git_keeps :: "('s \<Rightarrow> bool) \<Rightarrow> ('s, 'k) removal_world \<Rightarrow> bool" where
  "git_keeps P W \<longleftrightarrow> (\<forall>s argv. P s \<longrightarrow> P (fst (rw_git W s argv)))"

lemma take_away_by_git:
  assumes "\<not> leaves P (take_away W coordinator session ctx final u)" and "P u"
    and k: "session_keeps P session" "release_keeps P coordinator" "reconcile_keeps P coordinator"
  shows "\<exists>v. P v \<and> \<not> P (fst (rw_git W v (git_argv (wc_repo_path ctx) (git_remove_args final))))"
proof (rule ccontr)
  assume "\<not> ?thesis"
  then have "leaves P (git_remove W ctx final v)" if "P v" for v using that by (simp add: leaves_def fst_git_remove)
  then have "leaves P (take_away W coordinator session ctx final u)"
    unfolding take_away_def using \<open>P u\<close> k
    by (intro leaves_rules release_endpoints_leaves record_leaves reconcile_after_leaves) simp_all
  with assms(1) show False ..
qed

lemma take_away_by_release:
  assumes "\<not> leaves P (take_away W coordinator session ctx final u)" and "P u"
    and k: "session_keeps P session" "git_keeps P W" "reconcile_keeps P coordinator"
  shows "\<exists>v subject c. coordinator = Some c \<and> P v \<and> \<not> P (fst (rc_release_endpoint_leases c subject v))"
proof (rule ccontr)
  assume "\<not> ?thesis"
  then have "release_keeps P coordinator" by (auto simp: release_keeps_def)
  moreover have "leaves P (git_remove W ctx final v)" if "P v" for v
    using that k(2) by (simp add: leaves_def fst_git_remove git_keeps_def)
  ultimately have "leaves P (take_away W coordinator session ctx final u)"
    unfolding take_away_def using \<open>P u\<close> k
    by (intro leaves_rules release_endpoints_leaves record_leaves reconcile_after_leaves) simp_all
  with assms(1) show False ..
qed

subsection \<open>The journal\<close>

text \<open>
  \<open>m\<close>, started in \<open>s\<close>, entered the stages of \<open>stages\<close> in this order, all of them when it succeeded; \<open>J\<close> reads the
  journal.
\<close>

definition enters :: "('s \<Rightarrow> string list) \<Rightarrow> 's \<Rightarrow> removal_stage list \<Rightarrow> 's \<times> ('f + 'a) \<Rightarrow> bool" where
  "enters J s stages m \<longleftrightarrow> (\<exists>n. J (fst m) = J s @ map stage_text (take n stages)) \<and>
     (\<forall>a. snd m = Inr a \<longrightarrow> J (fst m) = J s @ map stage_text stages)"

lemma enters_attempt:
  assumes m: "enters J s xs m" and f: "\<And>a t. m = (t, Inr a) \<Longrightarrow> enters J t ys (f a t)"
  shows "enters J s (xs @ ys) (attempt m f)"
proof -
  obtain t r where t: "m = (t, r)" by (cases m)
  show ?thesis
  proof (cases r)
    case (Inl e)
    from m t obtain n where n: "J t = J s @ map stage_text (take n xs)" by (auto simp: enters_def)
    have "take n xs = take (min n (length xs)) (xs @ ys)" by (cases "n \<le> length xs") (simp_all add: min_def)
    with n t Inl show ?thesis unfolding enters_def attempt_def by (auto intro: exI [of _ "min n (length xs)"])
  next
    case (Inr a)
    with m t have J: "J t = J s @ map stage_text xs" by (simp add: enters_def)
    from f [of t a] t Inr have e: "enters J t ys (f a t)" by simp
    then obtain n where n: "J (fst (f a t)) = J t @ map stage_text (take n ys)" by (auto simp: enters_def)
    have eq: "attempt m f = f a t" using t Inr by (simp add: attempt_def)
    show ?thesis
      unfolding enters_def eq
    proof (intro conjI allI impI)
      show "\<exists>n. J (fst (f a t)) = J s @ map stage_text (take n (xs @ ys))"
        using n J by (intro exI [of _ "length xs + n"]) simp
    next
      fix b assume "snd (f a t) = Inr b"
      with e J show "J (fst (f a t)) = J s @ map stage_text (xs @ ys)" by (simp add: enters_def)
    qed
  qed
qed

lemma enters_nothing: "J (fst m) = J s \<Longrightarrow> enters J s [] m"
  by (simp add: enters_def)

lemma enters_prod_arg: "(\<And>a b. enters J s ys (f a b s)) \<Longrightarrow> enters J s ys ((case x of (a, b) \<Rightarrow> f a b) s)"
  by (cases x) simp

lemma fst_failing_as: "fst (failing_as g m) = fst m"
  by (auto simp: failing_as_def split: prod.splits sum.splits)

text \<open>
  The session appends to the journal, or fails and leaves it; everything else leaves it alone.
\<close>

definition journalled :: "('s \<Rightarrow> string list) \<Rightarrow> 's removal_session \<Rightarrow> bool" where
  "journalled J se \<longleftrightarrow> (\<forall>stage s. J (fst (se_advance se stage s)) = J s @ [stage] \<or>
     J (fst (se_advance se stage s)) = J s \<and> (\<exists>e. snd (se_advance se stage s) = Inl e))"

definition leaves_journal ::
  "('s \<Rightarrow> string list) \<Rightarrow> ('s, 'k) removal_world \<Rightarrow> ('s, 'e) removal_coordinator option \<Rightarrow> bool" where
  "leaves_journal J W coordinator \<longleftrightarrow> (\<forall>x. runtime_keeps (\<lambda>s. J s = x) coordinator \<and> release_keeps (\<lambda>s. J s = x) coordinator \<and>
     reconcile_keeps (\<lambda>s. J s = x) coordinator \<and> git_keeps (\<lambda>s. J s = x) W)"

definition planned_stages :: "('s, 'e) removal_coordinator option \<Rightarrow> removal_stage list" where
  "planned_stages coordinator = (case coordinator of None \<Rightarrow> [Stage_Analyze, Stage_Reanalyze, Stage_Git_Remove] | Some _ \<Rightarrow> removal_stages)"

lemma enters_record:
  assumes "journalled J se"
  shows "enters J s [stage] (record_stage (Some se) stage s)"
proof -
  define m where "m = se_advance se (stage_text stage) s"
  from assms have j: "J (fst m) = J s @ [stage_text stage] \<or> J (fst m) = J s \<and> (\<exists>e. snd m = Inl e)"
    by (auto simp: journalled_def m_def)
  have fst: "fst (record_stage (Some se) stage s) = fst m" by (simp add: record_stage_def fst_failing_as m_def)
  have ok: "snd (record_stage (Some se) stage s) = Inr a \<Longrightarrow> \<exists>b. snd m = Inr b" for a
    by (auto simp: record_stage_def failing_as_def m_def split: prod.splits sum.splits)
  have "\<exists>n. J (fst m) = J s @ map stage_text (take n [stage])"
    using j by (auto intro: exI [of _ 1] exI [of _ 0])
  moreover have "snd (record_stage (Some se) stage s) = Inr a \<Longrightarrow> J (fst m) = J s @ map stage_text [stage]" for a
    using j ok by fastforce
  ultimately show ?thesis unfolding enters_def fst by blast
qed

lemma enters_failing_as: "enters J s xs m \<Longrightarrow> enters J s xs (failing_as g m)"
  unfolding enters_def fst_failing_as by (cases m) (simp add: failing_as_def split: sum.splits)

lemma enters_quiet: "leaves (\<lambda>u. J u = J s) m \<Longrightarrow> enters J s [] m"
  by (simp add: enters_def leaves_def)

lemma enters_skip:
  assumes "leaves (\<lambda>u. J u = J s) m" and "\<And>a t. m = (t, Inr a) \<Longrightarrow> enters J t ys (f a t)"
  shows "enters J s ys (attempt m f)"
  using enters_attempt [OF enters_quiet, of J s m ys f] assms by simp

lemma enters_Cons:
  assumes "enters J s [x] m" and "\<And>a t. m = (t, Inr a) \<Longrightarrow> enters J t ys (f a t)"
  shows "enters J s (x # ys) (attempt m f)"
  using enters_attempt [OF assms] by simp

lemma first_check_enters:
  assumes j: "journalled J se" and q: "leaves_journal J W coordinator"
  shows "enters J s [Stage_Analyze] (first_check W coordinator (Some se) ctx s)"
proof -
  from q have d: "leaves (\<lambda>u. J u = J s) (deferrable_blockers W coordinator ctx a s)" for a s
    by (intro deferrable_leaves) (simp_all add: leaves_journal_def)
  show ?thesis
    unfolding first_check_def
    by (intro enters_Cons enters_record j enters_skip analyze_now_leaves d leaves_pure enters_quiet) simp_all
qed

lemma teardown_enters:
  assumes j: "journalled J se" and q: "leaves_journal J W (Some c)"
  shows "enters J s [Stage_Stop_Processes, Stage_Verify_Processes, Stage_Cleanup_Resources] (runtime_teardown (Some c) (Some se) ctx a s)"
proof -
  from q have r: "runtime_keeps (\<lambda>u. J u = J s) (Some c)" for s by (simp add: leaves_journal_def)
  note r = runtime_leaves [OF r, OF HOL.refl]
  have gate: "enters J s [Stage_Cleanup_Resources]
      (if b then (s, Inl e) else attempt (record_stage (Some se) Stage_Cleanup_Resources s) f)"
    if "\<And>a t. enters J t [] (f a t)" for b s e and f :: "unit \<Rightarrow> 'a \<Rightarrow> 'a \<times> ('c removal_failure + nat \<times> nat \<times> (string \<times> string) list)"
  proof (cases b)
    case True
    then show ?thesis by (simp add: enters_def)
  next
    case False
    then show ?thesis using that by (auto intro!: enters_Cons enters_record j)
  qed
  show ?thesis
    unfolding runtime_teardown_def option.case
    by (intro enters_skip enters_Cons enters_record j leaves_pure leaves_failing_as r enters_prod_arg gate enters_quiet) simp_all
qed

lemma second_gate_enters:
  assumes j: "journalled J se"
  shows "enters J s [Stage_Reanalyze] (second_gate W (Some se) ctx token s)"
  unfolding second_gate_def
  by (intro enters_Cons enters_record j enters_skip analyze_now_leaves leaves_pure enters_quiet) simp_all

lemma take_away_enters:
  assumes j: "journalled J se" and q: "leaves_journal J W coordinator"
  shows "enters J s (case coordinator of None \<Rightarrow> [Stage_Git_Remove] | Some _ \<Rightarrow> [Stage_Release_Endpoints, Stage_Git_Remove, Stage_Reconcile])
    (take_away W coordinator (Some se) ctx final s)"
proof -
  from q have g: "leaves (\<lambda>u. J u = J s) (git_remove W ctx final s)" for s
    by (simp add: leaves_journal_def git_keeps_def leaves_def fst_git_remove)
  show ?thesis
  proof (cases coordinator)
    case None
    then show ?thesis
      unfolding take_away_def release_endpoints_def reconcile_after_def None option.case
      by (intro enters_skip enters_Cons enters_record j g leaves_pure enters_quiet) simp_all
  next
    case (Some c)
    from q Some have "leaves (\<lambda>u. J u = J s) (rc_release_endpoint_leases c subject s)"
      "leaves (\<lambda>u. J u = J s) (rc_reconcile c subject s)" for subject s
      by (simp_all add: leaves_journal_def release_keeps_def reconcile_keeps_def leaves_def)
    note c = this
    have "enters J s [Stage_Release_Endpoints] (release_endpoints coordinator (Some se) ctx final s)" for s
      unfolding release_endpoints_def Some option.case
      by (intro enters_skip enters_Cons enters_record j c leaves_pure leaves_failing_as enters_quiet) simp_all
    moreover have "enters J s [Stage_Reconcile] (reconcile_after coordinator (Some se) ctx final s)" for s
      unfolding reconcile_after_def Some option.case
      by (intro enters_skip enters_Cons enters_record j c leaves_pure leaves_failing_as enters_quiet) simp_all
    ultimately have "enters J s ([Stage_Release_Endpoints] @ [Stage_Git_Remove] @ [Stage_Reconcile] @ []) (take_away W coordinator (Some se) ctx final s)"
      unfolding take_away_def
      by (intro enters_attempt enters_skip [OF g] enters_record [OF j] enters_quiet leaves_pure) simp_all
    with Some show ?thesis by simp
  qed
qed

section \<open>The store's leases beside the rest of the state\<close>

text \<open>The lease operations act on the database, the first component of the state.\<close>

definition beside :: "store_error + ('a \<times> 'b) \<Rightarrow> 'r \<Rightarrow> store_error + (('a \<times> 'r) \<times> 'b)" where
  "beside m r = (case m of Inl e \<Rightarrow> Inl e | Inr (t, b) \<Rightarrow> Inr ((t, r), b))"

definition store_leases :: "(db \<times> 'r) lease_api" where
  "store_leases = \<lparr> la_acquire = (\<lambda>s q now. beside (acquire_operation_lease (fst s) q now) (snd s)),
     la_renew = (\<lambda>s r operation token now ttl. beside (renew_operation_lease (fst s) r operation token now ttl) (snd s)),
     la_advance = (\<lambda>s r operation token stage now. beside (advance_operation_lease (fst s) r operation token stage now) (snd s)),
     la_release = (\<lambda>s r operation token. let p = release_operation_lease (fst s) r operation token in ((fst p, snd s), snd p)),
     la_list = (\<lambda>s r. repository_leases (fst s) r) \<rparr>"

lemma beside_Inr: "beside m r = Inr (t, b) \<longleftrightarrow> snd t = r \<and> m = Inr (fst t, b)"
  by (cases t) (auto simp: beside_def split: sum.splits)

interpretation beside_state: lease_store store_leases "\<lambda>s. op_leases (fst s)"
proof
  fix s t :: "db \<times> 'r" and q now row stage
  assume a: "la_acquire store_leases s q now = Inr (t, Acquired row stage)"
  then have b: "la_acquire sql_leases (fst s) q now = Inr (fst t, Acquired row stage)"
    by (simp add: store_leases_def beside_Inr)
  from sql.acquired [OF b] show "op_leases (fst t) = filter (\<lambda>l. ol_repository_id l \<noteq> lr_repository_id q) (op_leases (fst s)) @ [row] \<and>
      lease_row_matches (lr_repository_id q) (lr_operation q) (lr_token q) row" .
  fix l assume "l \<in> set (op_leases (fst s))" "ol_repository_id l = lr_repository_id q"
  from sql.evicts [OF b this] show "ol_expires_at l \<le> now \<and> lr_adopt q \<and> (\<forall>v. lr_liveness q = Some v \<longrightarrow> v (holder_of l) = Gone)" .
next
  fix s t :: "db \<times> 'r" and q now res
  assume a: "la_acquire store_leases s q now = Inr (t, res)" and n: "\<And>row stage. res \<noteq> Acquired row stage"
  from a have b: "la_acquire sql_leases (fst s) q now = Inr (fst t, res)" and "snd t = snd s" by (simp_all add: store_leases_def beside_Inr)
  with sql.refused [OF b n] show "t = s" by (simp add: prod_eq_iff)
next
  fix s :: "db \<times> 'r" and r operation token
  show "op_leases (fst (fst (la_release store_leases s r operation token))) =
      filter (\<lambda>l. \<not> lease_row_matches r operation token l) (op_leases (fst s))"
    using sql.released [of "fst s" r operation token] by (simp add: store_leases_def Let_def)
  show "set (la_list store_leases s r) = holder_of ` {l \<in> set (op_leases (fst s)). ol_repository_id l = r}"
    using sql.listed [of "fst s" r] by (simp add: store_leases_def)
qed

section \<open>Properties\<close>

text \<open>
  C6. A removal destroys only what the second check saw to be safe. Let \<open>P\<close> say that the worktree is still there, something
  that stopping, cleaning up, releasing, reconciling and the journal keep. If a run, failed or not, ends
  without \<open>P\<close>, then \<open>git worktree remove\<close> did it, on the path of an analysis made while \<open>P\<close> held, after the
  teardown, that found no blocker and the same path, commit and branch as the first one; and the runtime had
  reported that no managed process was active or owed cleanup.
\<close>

theorem removal_only_after_second_check:
  assumes "session_keeps P session" "runtime_keeps P coordinator" "release_keeps P coordinator" "reconcile_keeps P coordinator"
    and "P s" and "run_removal_lifecycle W coordinator session ctx s = (t, r)" and "\<not> P t"
  shows "\<exists>u v final. checked_state P W coordinator ctx u final \<and> P v \<and>
    \<not> P (fst (rw_git W v (git_argv (wc_repo_path ctx) [''worktree'', ''remove'', ''--'', id_path (an_identity final)])))"
proof -
  from lifecycle_checked [OF assms(6) assms(1,2,5,7)] obtain u final where
    u: "checked_state P W coordinator ctx u final" "\<not> leaves P (take_away W coordinator session ctx final u)" by blast
  from u(1) have "P u" by (simp add: checked_state_def)
  from take_away_by_git [OF u(2) this assms(1,3,4)] u(1) show ?thesis unfolding git_remove_args_def by blast
qed

text \<open>
  A refused removal keeps the worktree's ports: if the leases of its endpoints (\<open>P\<close>) are gone after a run, then the
  release gave them up, and only after the second check had passed in a state in which they were held.
\<close>

theorem endpoints_released_after_check:
  assumes "session_keeps P session" "runtime_keeps P coordinator" "git_keeps P W" "reconcile_keeps P coordinator"
    and "P s" and "run_removal_lifecycle W coordinator session ctx s = (t, r)" and "\<not> P t"
  shows "\<exists>u v final subject c. checked_state P W coordinator ctx u final \<and> coordinator = Some c \<and> P v \<and>
    \<not> P (fst (rc_release_endpoint_leases c subject v))"
proof -
  from lifecycle_checked [OF assms(6) assms(1,2,5,7)] obtain u final where
    u: "checked_state P W coordinator ctx u final" "\<not> leaves P (take_away W coordinator session ctx final u)" by blast
  from u(1) have "P u" by (simp add: checked_state_def)
  from take_away_by_release [OF u(2) this assms(1,3,4)] u(1) show ?thesis by blast
qed

text \<open>
  The journal tells the truth: a run enters the stages in the fixed order, none skipped and none twice, and after a
  success the journal holds all of them.
\<close>

theorem stages_in_order:
  assumes "journalled J se" and "leaves_journal J W coordinator"
    and "run_removal_lifecycle W coordinator (Some se) ctx s = (t, r)"
  shows "\<exists>n. J t = J s @ map stage_text (take n (planned_stages coordinator)) \<and>
    (isl r \<or> n = length (planned_stages coordinator))"
proof -
  have last: "enters J s [] (s, Inr a)" for s and a :: guarded_removal_result by (simp add: enters_def)
  have teardown: "enters J s (if coordinator = None then [] else [Stage_Stop_Processes, Stage_Verify_Processes, Stage_Cleanup_Resources])
      (runtime_teardown coordinator (Some se) ctx a s)" for a s
  proof (cases coordinator)
    case None
    then show ?thesis by (simp add: runtime_teardown_def enters_def)
  next
    case (Some c)
    with teardown_enters [OF assms(1), of W c s ctx a] assms(2) show ?thesis by simp
  qed
  have "enters J s ([Stage_Analyze] @ (if coordinator = None then [] else [Stage_Stop_Processes, Stage_Verify_Processes, Stage_Cleanup_Resources])
      @ [Stage_Reanalyze] @ (case coordinator of None \<Rightarrow> [Stage_Git_Remove] | Some _ \<Rightarrow> [Stage_Release_Endpoints, Stage_Git_Remove, Stage_Reconcile]) @ [])
    (run_removal_lifecycle W coordinator (Some se) ctx s)"
    unfolding run_removal_lifecycle_def
    by (intro enters_attempt first_check_enters assms(1,2) enters_prod_arg teardown second_gate_enters take_away_enters last)
  moreover have "[Stage_Analyze] @ (if coordinator = None then [] else [Stage_Stop_Processes, Stage_Verify_Processes, Stage_Cleanup_Resources])
      @ [Stage_Reanalyze] @ (case coordinator of None \<Rightarrow> [Stage_Git_Remove] | Some _ \<Rightarrow> [Stage_Release_Endpoints, Stage_Git_Remove, Stage_Reconcile]) @ []
    = planned_stages coordinator"
    by (cases coordinator) (simp_all add: planned_stages_def removal_stages_def)
  ultimately have e: "enters J s (planned_stages coordinator) (t, r)" using assms(3) by simp
  then obtain n where n: "J t = J s @ map stage_text (take n (planned_stages coordinator))" by (auto simp: enters_def)
  show ?thesis
  proof (cases r)
    case (Inl x)
    with n show ?thesis by auto
  next
    case (Inr x)
    with e have "J t = J s @ map stage_text (take (length (planned_stages coordinator)) (planned_stages coordinator))"
      by (simp add: enters_def)
    then show ?thesis by blast
  qed
qed

text \<open>
  C36. A removal never leaves its lease behind: whatever the analysis, the runtime, git or the lease itself did, no lease row
  with the token of this removal is left when it returns or throws, if the token is fresh and nobody else uses it. (In the
  witness the lease is taken with the default TTL, is held while git removes the worktree, and is gone at the end.)
\<close>

theorem removal_releases_lease:
  assumes "\<And>n s. \<forall>l\<in>set (op_leases (fst s)). \<not> lease_row_matches (li_repository_id i) (li_operation i) token l \<Longrightarrow>
      \<forall>l\<in>set (op_leases (fst (lw_env lw n s))). \<not> lease_row_matches (li_repository_id i) (li_operation i) token l"
    and "\<forall>l\<in>set (op_leases (fst s)). \<not> lease_row_matches (li_repository_id i) (li_operation i) token l"
    and "remove_worktree_guarded W coordinator store_leases lw (Some i) token now ctx s = (t, r)"
  shows "\<forall>l\<in>set (op_leases (fst t)). \<not> lease_row_matches (li_repository_id i) (li_operation i) token l"
proof -
  define body where "body = (\<lambda>token stage s. case run_removal_lifecycle W coordinator (Some (removal_session_of store_leases i now token stage)) ctx s of
    (t, r) \<Rightarrow> (t, Inr r :: lease_failure + _))"
  have leased: "\<forall>l\<in>set (op_leases (fst u)). \<not> lease_row_matches (li_repository_id i) (li_operation i) token l"
    if "with_operation_lease store_leases lw i token body s = (u, x)" for u x
    by (rule beside_state.with_lease_unheld [unfolded beside_state.unheld_def, OF assms(1,2) that])
  from assms(2,3) leased show ?thesis
    unfolding remove_worktree_guarded_def with_optional_lease_def option.case body_def
    by (auto split: sum.splits option.splits prod.splits)
qed

section \<open>A concrete removal\<close>

text \<open>The state is the journal and a log of what was done.\<close>

definition demo_removal_world :: "(string list \<times> string list, string) removal_world" where
  "demo_removal_world = \<lparr> rw_analysis = (\<lambda>s. demo_analysis_world), rw_git = (\<lambda>s argv. ((fst s, snd s @ [''git'']), Exited 0 [])),
     rw_cwd = ''/'' \<rparr>"

definition demo_coordinator :: "(string list \<times> string list, unit) removal_coordinator" where
  "demo_coordinator = \<lparr> rc_reclaimable_paths = (\<lambda>_ s. (s, Inr [])), rc_stop_managed_processes = (\<lambda>_ s. (s, Inr 1)),
     rc_verify_managed_processes_stopped = (\<lambda>_ s. (s, Inr (0, 0))), rc_cleanup_ephemeral_resources = (\<lambda>_ s. (s, Inr (0, []))),
     rc_release_endpoint_leases = (\<lambda>_ s. ((fst s, snd s @ [''release'']), Inr 1)), rc_reconcile = (\<lambda>_ s. (s, Inr ())) \<rparr>"

definition demo_session :: "(string list \<times> string list) removal_session" where
  "demo_session = \<lparr> se_advance = (\<lambda>stage s. ((fst s @ [stage], snd s), Inr ())), se_adopted_stage = None \<rparr>"

definition demo_removal :: "(string list \<times> string list) \<times> (unit removal_failure + guarded_removal_result)" where
  "demo_removal = run_removal_lifecycle demo_removal_world (Some demo_coordinator) (Some demo_session) demo_context ([], [])"

lemma demo_removal_log: "fst demo_removal = (map stage_text removal_stages, [''release'', ''git''])"
  by code_simp

lemma demo_removal_succeeds: "isl (snd demo_removal) = False"
  by code_simp

lemma demo_keeps:
  "session_keeps (\<lambda>s. x \<notin> set (snd s)) (Some demo_session)" "runtime_keeps (\<lambda>s. x \<notin> set (snd s)) (Some demo_coordinator)"
  "reconcile_keeps (\<lambda>s. x \<notin> set (snd s)) (Some demo_coordinator)"
  "x \<noteq> ''release'' \<Longrightarrow> release_keeps (\<lambda>s. x \<notin> set (snd s)) (Some demo_coordinator)"
  "x \<noteq> ''git'' \<Longrightarrow> git_keeps (\<lambda>s. x \<notin> set (snd s)) demo_removal_world"
  by (auto simp: session_keeps_def runtime_keeps_def reconcile_keeps_def release_keeps_def git_keeps_def
      demo_session_def demo_coordinator_def demo_removal_world_def)

lemma removal_only_after_second_check_witness:
  "\<exists>u final. checked_state (\<lambda>s. ''git'' \<notin> set (snd s)) demo_removal_world (Some demo_coordinator) demo_context u final"
proof -
  obtain t r where run: "run_removal_lifecycle demo_removal_world (Some demo_coordinator) (Some demo_session) demo_context ([], []) = (t, r)"
    by (rule prod.exhaust)
  have "\<not> ''git'' \<notin> set (snd t)" using demo_removal_log run by (simp add: demo_removal_def)
  from removal_only_after_second_check [where P = "\<lambda>s. ''git'' \<notin> set (snd s)", OF demo_keeps(1,2) demo_keeps(4) demo_keeps(3) _ run this] show ?thesis by auto
qed

lemma endpoints_released_after_check_witness:
  "\<exists>u final. checked_state (\<lambda>s. ''release'' \<notin> set (snd s)) demo_removal_world (Some demo_coordinator) demo_context u final"
proof -
  obtain t r where run: "run_removal_lifecycle demo_removal_world (Some demo_coordinator) (Some demo_session) demo_context ([], []) = (t, r)"
    by (rule prod.exhaust)
  have "\<not> ''release'' \<notin> set (snd t)" using demo_removal_log run by (simp add: demo_removal_def)
  from endpoints_released_after_check [where P = "\<lambda>s. ''release'' \<notin> set (snd s)", OF demo_keeps(1,2) demo_keeps(5) demo_keeps(3) _ run this] show ?thesis by auto
qed

lemma stages_in_order_witness:
  "\<exists>n. fst (fst demo_removal) = map stage_text (take n (planned_stages (Some demo_coordinator))) \<and> n = 8"
proof -
  have j: "journalled fst demo_session" by (simp add: journalled_def demo_session_def)
  have q: "leaves_journal fst demo_removal_world (Some demo_coordinator)"
    by (simp add: leaves_journal_def runtime_keeps_def reconcile_keeps_def release_keeps_def git_keeps_def
        demo_coordinator_def demo_removal_world_def)
  obtain t r where run: "run_removal_lifecycle demo_removal_world (Some demo_coordinator) (Some demo_session) demo_context ([], []) = (t, r)"
    by (rule prod.exhaust)
  then have "isl r = False" "fst demo_removal = t" using demo_removal_succeeds by (simp_all add: demo_removal_def)
  with stages_in_order [OF j q run] show ?thesis by (simp add: planned_stages_def removal_stages_def)
qed

text \<open>A removal that nothing stops: no runtime, a session whose three stages are recorded, and a git that succeeds.\<close>

lemma unhindered_removal:
  assumes world: "\<And>s. rw_analysis W s = demo_analysis_world" "\<And>s argv. rw_git W s argv = (took s, Exited 0 [])"
    and "record_stage (Some se) Stage_Analyze s = (s1, Inr () :: 'e removal_failure + unit)"
    and "record_stage (Some se) Stage_Reanalyze s1 = (s2, Inr () :: 'e removal_failure + unit)"
    and "record_stage (Some se) Stage_Git_Remove s2 = (s3, Inr () :: 'e removal_failure + unit)"
  shows "\<exists>r. run_removal_lifecycle W (None :: (_, 'e) removal_coordinator option) (Some se) demo_context s = (took s3, Inr r)"
proof -
  from demo_analysis obtain a where a: "analyze_worktree demo_analysis_world demo_context = Inr a" "ws_blockers (an_safety a) = []"
    by (cases "analyze_worktree demo_analysis_world demo_context") auto
  have "first_check W (None :: (_, 'e) removal_coordinator option) (Some se) demo_context s = (s1, Inr (a, []))"
    using assms(3) by (simp add: first_check_def attempt_def analyze_now_def world a deferrable_blockers_def first_gate_def assert_removable_def)
  moreover have "second_gate W (Some se) demo_context (removal_identity_token a) s1 = (s2, Inr a :: 'e removal_failure + _)"
    using assms(4) by (simp add: second_gate_def attempt_def analyze_now_def world a assert_removable_def assert_identity_unchanged_def)
  moreover have "git_remove W demo_context a u = (took u, Inr ([], 0) :: 'e removal_failure + _)" for u
    by (simp add: git_remove_def execute_git_def world run_git_def failing_as_def)
  then have "take_away W (None :: (_, 'e) removal_coordinator option) (Some se) demo_context a s2 = (took s3, Inr 0)"
    using assms(5) by (simp add: take_away_def attempt_def release_endpoints_def reconcile_after_def)
  ultimately show ?thesis by (simp add: run_removal_lifecycle_def attempt_def runtime_teardown_def)
qed

text \<open>Beside the database, whether a lease with the token of the removal was there when \<open>git\<close> was called last.\<close>

definition demo_pair_world :: "(db \<times> bool) lease_world" where
  "demo_pair_world = \<lparr> lw_pid = Whole 42, lw_read = (\<lambda>_ pid. Inr (if pid = 42 then Some ''t1'' else None)),
     lw_env = (\<lambda>_ s. s), lw_now = (\<lambda>_. 200) \<rparr>"

definition demo_pair_removal_world :: "(db \<times> bool, string) removal_world" where
  "demo_pair_removal_world = \<lparr> rw_analysis = (\<lambda>s. demo_analysis_world),
     rw_git = (\<lambda>s argv. ((fst s, list_ex (lease_row_matches ''r1'' Op_Remove ''b'') (op_leases (fst s))), Exited 0 [])), rw_cwd = ''/'' \<rparr>"

definition demo_pair_removal :: "(db \<times> bool) \<times> (unit removal_failure + guarded_removal_result)" where
  "demo_pair_removal = remove_worktree_guarded demo_pair_removal_world None store_leases demo_pair_world
     (Some (removal_lease_input demo_context ''r1'' ''h'' False)) ''b'' 200 demo_context (demo_repo_db, False)"

definition demo_removal_lease :: "string option \<Rightarrow> op_lease_row" where
  "demo_removal_lease stage = \<lparr> ol_repository_id = ''r1'', ol_operation = Op_Remove, ol_token = ''b'', ol_pid = 42,
     ol_process_start_time = ''t1'', ol_host_id = ''h'', ol_subject_worktree_id = Some ''w1'', ol_stage = stage,
     ol_acquired_at = 200, ol_renewed_at = 200, ol_expires_at = 120200 \<rparr>"

lemma demo_removal_acquires:
  "acquire_lease store_leases demo_pair_world (removal_lease_input demo_context ''r1'' ''h'' False) (42, ''t1'') ''b'' max_acquisition_attempts 0 None
     (demo_repo_db, False) = ((demo_repo_db\<lparr>op_leases := [demo_removal_lease None]\<rparr>, False), Inr None)"
  by (simp add: max_acquisition_attempts_def numeral_2_eq_2 demo_pair_world_def removal_lease_input_def demo_context_def
      demo_lease_defs demo_removal_lease_def store_leases_def beside_def acquire_operation_lease_def lease_expiry_def last_date_def
      lease_ttl_ms_def default_operation_lease_ttl_ms_def assert_no_heavy_jobs_def repository_leases_def forget_holders_def
      coalesce_def max_safe_integer_def Let_def attempt_request_def)

lemma demo_removal_records:
  "record_stage (Some (removal_session_of store_leases (removal_lease_input demo_context ''r1'' ''h'' False) 200 ''b'' adopted)) stage
     (demo_repo_db\<lparr>op_leases := [demo_removal_lease old]\<rparr>, git) =
   ((demo_repo_db\<lparr>op_leases := [demo_removal_lease (Some (stage_text stage))]\<rparr>, git), Inr ())"
proof -
  have "stage_text stage \<noteq> []" by (cases stage) simp_all
  then show ?thesis
    by (simp add: record_stage_def removal_session_of_def failing_as_def session_advance_def store_leases_def beside_def
        advance_operation_lease_def removal_lease_input_def demo_removal_lease_def lease_row_matches_def Let_def)
qed

lemma demo_pair_removal_leased: "snd (fst demo_pair_removal) \<and> \<not> isl (snd demo_pair_removal)"
proof -
  let ?i = "removal_lease_input demo_context ''r1'' ''h'' False"
  have owner: "read_process_start_identity (lw_read demo_pair_world 0) (lw_pid demo_pair_world) = Inr (Some (42, ''t1''))"
    by (simp add: demo_pair_world_def read_process_start_identity_def max_safe_integer_def)
  have "\<not> isl (read_git_common_directory CHR ''/'' demo_git ''/r'')" by code_simp
  then obtain d where directory: "read_git_common_directory CHR ''/'' demo_git ''/r'' = Inr d"
    by (cases "read_git_common_directory CHR ''/'' demo_git ''/r''") simp_all
  obtain r :: guarded_removal_result where run: "run_removal_lifecycle demo_pair_removal_world (None :: (_, unit) removal_coordinator option)
      (Some (removal_session_of store_leases ?i 200 ''b'' None)) demo_context (demo_repo_db\<lparr>op_leases := [demo_removal_lease None]\<rparr>, False) =
     ((demo_repo_db\<lparr>op_leases := [demo_removal_lease (Some (stage_text Stage_Git_Remove))]\<rparr>, True), Inr r)"
  proof -
    define took where "took = (\<lambda>s :: db \<times> bool. (fst s, list_ex (lease_row_matches ''r1'' Op_Remove ''b'') (op_leases (fst s))))"
    have "\<exists>r. run_removal_lifecycle demo_pair_removal_world (None :: (_, unit) removal_coordinator option)
        (Some (removal_session_of store_leases ?i 200 ''b'' None)) demo_context (demo_repo_db\<lparr>op_leases := [demo_removal_lease None]\<rparr>, False) =
       (took (demo_repo_db\<lparr>op_leases := [demo_removal_lease (Some (stage_text Stage_Git_Remove))]\<rparr>, False), Inr r)"
      by (rule unhindered_removal [OF _ _ demo_removal_records demo_removal_records demo_removal_records])
        (simp_all add: demo_pair_removal_world_def took_def)
    then show thesis using that by (auto simp: took_def demo_removal_lease_def lease_row_matches_def)
  qed
  have "\<exists>db. demo_pair_removal = ((db, True), Inr r)"
  proof -
    have same: "rw_analysis demo_pair_removal_world u = demo_analysis_world" for u by (simp add: demo_pair_removal_world_def)
    have world: "aw_sep demo_analysis_world = CHR ''/''" "aw_git demo_analysis_world = demo_git"
      "aw_realpath demo_analysis_world d = Some d" "wc_repo_path demo_context = ''/r''"
      by (simp_all add: demo_analysis_world_def demo_context_def)
    have release: "snd (fst (la_release store_leases u a b c)) = snd u" for u :: "db \<times> bool" and a b c
      by (simp add: store_leases_def Let_def)
    show ?thesis
      unfolding demo_pair_removal_def remove_worktree_guarded_def same world directory sum.case option.case
        with_optional_lease_def with_operation_lease_def owner demo_removal_acquires prod.case run
      using release by (auto simp: prod_eq_iff)
  qed
  then obtain db where "demo_pair_removal = ((db, True), Inr r)" by blast
  then show ?thesis by (elim ssubst) simp
qed

lemma removal_releases_lease_witness:
  "snd (fst demo_pair_removal) \<and> \<not> isl (snd demo_pair_removal) \<and> {l \<in> set (op_leases (fst (fst demo_pair_removal))). lease_row_matches ''r1'' Op_Remove ''b'' l} = {}"
proof -
  obtain t r where run: "demo_pair_removal = (t, r)" by (rule prod.exhaust)
  have i: "li_repository_id (removal_lease_input demo_context ''r1'' ''h'' False) = ''r1''"
    "li_operation (removal_lease_input demo_context ''r1'' ''h'' False) = Op_Remove" by (simp_all add: removal_lease_input_def)
  have "\<forall>l\<in>set (op_leases (fst t)). \<not> lease_row_matches ''r1'' Op_Remove ''b'' l"
    using removal_releases_lease [OF _ _ run [unfolded demo_pair_removal_def], unfolded i]
    by (simp add: demo_pair_world_def demo_repo_db_def empty_db_def)
  then show ?thesis using demo_pair_removal_leased by (auto simp: run)
qed

end
