(* ===== verification/Cleanup_Ranking.thy ===== *)
theory Cleanup_Ranking
  imports Worktree_Analysis Complex_Main "HOL-Library.Multiset"
begin

text \<open>
  The ranking of cleanup candidates (\<open>packages/core/src/analysis/cleanup-ranking.ts\<close>): the tiers of a candidate,
  the comparison, the score and the reasons. \<open>Date.parse\<close> is the argument \<open>date_parse\<close> (its formats depend on the
  engine), which gives the instant in milliseconds, or \<open>None\<close> for \<open>NaN\<close>; the instant \<open>now\<close> is given as a number.
  \<open>Array.prototype.sort\<close> is stable, and for a comparison that is the order of some key its result is unique; it is
  modelled by insertion.
\<close>

section \<open>Sorting by a comparison\<close>

fun insert_before :: "('a \<Rightarrow> 'a \<Rightarrow> int) \<Rightarrow> 'a \<Rightarrow> 'a list \<Rightarrow> 'a list" where
  "insert_before compare x [] = [x]"
| "insert_before compare x (y # ys) = (if compare x y \<le> 0 then x # y # ys else y # insert_before compare x ys)"

definition js_sort :: "('a \<Rightarrow> 'a \<Rightarrow> int) \<Rightarrow> 'a list \<Rightarrow> 'a list" where
  "js_sort compare xs = foldr (insert_before compare) xs []"

text \<open>A comparison that is the order of a key sorts like the library's stable sort by that key.\<close>

lemma js_sort_key:
  assumes "\<And>x y. compare x y \<le> 0 \<longleftrightarrow> key x \<le> key y"
  shows "js_sort compare xs = sort_key (key :: _ \<Rightarrow> _ :: linorder) xs"
proof -
  have "insert_before compare x ys = insort_key key x ys" for x ys
    by (induction ys) (auto simp: assms)
  then show ?thesis by (induction xs) (simp_all add: js_sort_def)
qed

section \<open>Candidates\<close>

text \<open>Of a measurement of reclaimable bytes, the parts the ranking reads.\<close>

record reclaimable_measurement =
  rm_complete :: bool
  rm_estimated_bytes :: "jsnum option"
  rm_reason :: "string option"

record cleanup_candidate =
  cc_analysis :: worktree_analysis
  cc_last_runtime_at :: "string option"
  cc_last_commit_at :: "string option"
  cc_has_running_process :: "bool option"
  cc_reclaimable :: "reclaimable_measurement option"

record ranked_candidate =
  rc_candidate :: cleanup_candidate
  rc_rank :: nat
  rc_score :: int
  rc_reason :: "string list"

record cleanup_tiers =
  ct_readiness :: nat
  ct_running :: nat
  ct_unsettled_work :: nat
  ct_persistence :: nat
  ct_runtime_idleness :: nat
  ct_commit_idleness :: nat
  ct_present :: nat

section \<open>Idleness\<close>

definition idleness_threshold_days :: "int list" where
  "idleness_threshold_days = [30, 14, 7, 1]"

definition milliseconds_per_day :: int where
  "milliseconds_per_day = 86400000"

definition idleness_bucket_count :: nat where
  "idleness_bucket_count = length idleness_threshold_days + 1"

text \<open>\<open>elapsedMs / millisecondsPerDay >= threshold\<close>, without the division.\<close>

definition idleness_bucket :: "int \<Rightarrow> nat" where
  "idleness_bucket elapsed =
    (case find_index (\<lambda>threshold. threshold * milliseconds_per_day \<le> elapsed) idleness_threshold_days of
       None \<Rightarrow> length idleness_threshold_days | Some passed \<Rightarrow> passed)"

definition elapsed_since :: "(string \<Rightarrow> int option) \<Rightarrow> string option \<Rightarrow> int \<Rightarrow> int" where
  "elapsed_since date_parse timestamp now = (case timestamp of None \<Rightarrow> 0
     | Some t \<Rightarrow> (case date_parse t of None \<Rightarrow> 0 | Some parsed \<Rightarrow> max 0 (now - parsed)))"

definition idleness_of :: "(string \<Rightarrow> int option) \<Rightarrow> cleanup_candidate \<Rightarrow> int \<Rightarrow> int \<times> int" where
  "idleness_of date_parse c now =
    (elapsed_since date_parse (cc_last_runtime_at c) now, elapsed_since date_parse (cc_last_commit_at c) now)"

section \<open>Tiers and score\<close>

definition is_prunable :: "worktree_identity \<Rightarrow> bool" where
  "is_prunable i \<longleftrightarrow> id_prunable_reason i \<noteq> None \<or> \<not> id_path_exists i"

definition tiers_of :: "(string \<Rightarrow> int option) \<Rightarrow> cleanup_candidate \<Rightarrow> int \<Rightarrow> cleanup_tiers" where
  "tiers_of date_parse c now =
    (let a = cc_analysis c; merged = (ba_merged (an_base a) = Some True);
         persisted = rpa_persisted (an_remote_persistence a); (runtime, commit) = idleness_of date_parse c now
     in \<lparr> ct_readiness = (case ws_readiness (an_safety a) of SAFE \<Rightarrow> 0 | REVIEW \<Rightarrow> 1 | BLOCKED \<Rightarrow> 2),
          ct_running = (case cc_has_running_process c of Some False \<Rightarrow> 0 | None \<Rightarrow> 1 | Some True \<Rightarrow> 2),
          ct_unsettled_work = (if merged then 0 else 1) + (if persisted then 0 else 1),
          ct_persistence = (if \<not> persisted then 2 else if rk_fetched (an_remote_knowledge a) then 0 else 1),
          ct_runtime_idleness = idleness_bucket runtime,
          ct_commit_idleness = idleness_bucket commit,
          ct_present = (if is_prunable (an_identity a) then 0 else 1) \<rparr>)"

definition tier_radices :: "((cleanup_tiers \<Rightarrow> nat) \<times> nat) list" where
  "tier_radices = [(ct_readiness, 3), (ct_running, 3), (ct_unsettled_work, 3), (ct_persistence, 3),
     (ct_runtime_idleness, idleness_bucket_count), (ct_commit_idleness, idleness_bucket_count), (ct_present, 2)]"

text \<open>
  The score; the code computes it in floating point, and the exact value is never half-way between two integers
  nor within the rounding error of it (lemma \<open>score_no_tie\<close>). \<open>Math.round\<close> rounds halves up, as \<open>round\<close> does.
\<close>

definition score_of :: "cleanup_tiers \<Rightarrow> int" where
  "score_of tiers =
    (let (penalty, worst) = foldl (\<lambda>(penalty, worst) (tier, radix). (penalty * radix + tier tiers, worst * radix + (radix - 1)))
           (0, 0) tier_radices
     in if worst = 0 then 100 else round (100 * (1 - of_nat penalty / of_nat worst) :: rat))"

section \<open>The comparison\<close>

definition reclaimable_bytes :: "cleanup_candidate \<Rightarrow> int option" where
  "reclaimable_bytes c = (case cc_reclaimable c of None \<Rightarrow> None
     | Some m \<Rightarrow> (case rm_estimated_bytes m of None \<Rightarrow> None
         | Some n \<Rightarrow> if rm_complete m \<and> is_safe_integer n \<and> 0 \<le> whole n then Some (whole n) else None))"

fun compare_tiers :: "((cleanup_tiers \<Rightarrow> nat) \<times> nat) list \<Rightarrow> cleanup_tiers \<Rightarrow> cleanup_tiers \<Rightarrow> int" where
  "compare_tiers [] l r = 0"
| "compare_tiers ((tier, radix) # rest) l r =
    (let difference = int (tier l) - int (tier r) in if difference \<noteq> 0 then difference else compare_tiers rest l r)"

definition code_unit_compare :: "string \<Rightarrow> string \<Rightarrow> int" where
  "code_unit_compare l r = (if l < r then - 1 else if r < l then 1 else 0)"

definition compare_bytes :: "cleanup_candidate \<Rightarrow> cleanup_candidate \<Rightarrow> int" where
  "compare_bytes l r = (if reclaimable_bytes l = reclaimable_bytes r then 0
     else (case (reclaimable_bytes l, reclaimable_bytes r) of
         (None, _) \<Rightarrow> 1 | (Some _, None) \<Rightarrow> - 1 | (Some a, Some b) \<Rightarrow> b - a))"

definition compare_candidates :: "(string \<Rightarrow> int option) \<Rightarrow> int \<Rightarrow> cleanup_candidate \<Rightarrow> cleanup_candidate \<Rightarrow> int" where
  "compare_candidates date_parse now l r =
    (let tiers = compare_tiers tier_radices (tiers_of date_parse l now) (tiers_of date_parse r now);
         runtime = fst (idleness_of date_parse r now) - fst (idleness_of date_parse l now);
         commit = snd (idleness_of date_parse r now) - snd (idleness_of date_parse l now)
     in if tiers \<noteq> 0 then tiers else if runtime \<noteq> 0 then runtime else if commit \<noteq> 0 then commit
        else if compare_bytes l r \<noteq> 0 then compare_bytes l r
        else code_unit_compare (id_path (an_identity (cc_analysis l))) (id_path (an_identity (cc_analysis r))))"

section \<open>Reasons\<close>

definition elapsed_label :: "string \<Rightarrow> int \<Rightarrow> string" where
  "elapsed_label prefix elapsed = (let days = elapsed div milliseconds_per_day in
     if days = 0 then prefix @ ''-today'' else prefix @ ''-'' @ show_int days @ ''-days'')"

definition reclaimable_reason :: "cleanup_candidate \<Rightarrow> string" where
  "reclaimable_reason c = (case reclaimable_bytes c of
     Some bytes \<Rightarrow> ''reclaimable-estimate-'' @ show_int bytes @ ''-bytes''
   | None \<Rightarrow> (case Option.bind (cc_reclaimable c) rm_reason of
         Some reason \<Rightarrow> if reason \<noteq> [] then ''reclaimable-unknown-'' @ reason else ''reclaimable-unknown''
       | None \<Rightarrow> ''reclaimable-unknown''))"

definition reasons_of :: "(string \<Rightarrow> int option) \<Rightarrow> cleanup_candidate \<Rightarrow> int \<Rightarrow> string list" where
  "reasons_of date_parse c now =
    (let a = cc_analysis c; (runtime, commit) = idleness_of date_parse c now in
     [case ws_readiness (an_safety a) of SAFE \<Rightarrow> ''SAFE'' | REVIEW \<Rightarrow> ''REVIEW'' | BLOCKED \<Rightarrow> ''BLOCKED'',
      case cc_has_running_process c of Some False \<Rightarrow> ''nothing-running'' | None \<Rightarrow> ''running-unknown'' | Some True \<Rightarrow> ''running-process'',
      case ba_merged (an_base a) of None \<Rightarrow> ''merged-unknown'' | Some m \<Rightarrow> if m then ''merged'' else ''not-merged'',
      if \<not> rpa_persisted (an_remote_persistence a) then ''not-remote-persisted''
      else if rk_fetched (an_remote_knowledge a) then ''remote-persisted'' else ''remote-persisted-local-refs-only'',
      if cc_last_runtime_at c = None then ''wtm-activity-unknown'' else elapsed_label ''inactive'' runtime,
      if cc_last_commit_at c = None then ''last-commit-unknown'' else elapsed_label ''last-commit'' commit,
      if is_prunable (an_identity a) then ''prunable'' else ''not-prunable'',
      reclaimable_reason c])"

definition rank_cleanup_candidates ::
  "(string \<Rightarrow> int option) \<Rightarrow> int \<Rightarrow> cleanup_candidate list \<Rightarrow> ranked_candidate list" where
  "rank_cleanup_candidates date_parse now candidates =
    map (\<lambda>(index, c). \<lparr> rc_candidate = c, rc_rank = index + 1, rc_score = score_of (tiers_of date_parse c now),
           rc_reason = reasons_of date_parse c now \<rparr>)
      (zip [0..<length candidates] (js_sort (compare_candidates date_parse now) candidates))"

section \<open>The comparison is the order of a key\<close>

definition tier_digits :: "((cleanup_tiers \<Rightarrow> nat) \<times> nat) list \<Rightarrow> cleanup_tiers \<Rightarrow> nat list" where
  "tier_digits radices t = map (\<lambda>(tier, radix). tier t) radices"

text \<open>Measured bytes come first, the largest first; a candidate without a measurement comes last.\<close>

definition bytes_key :: "cleanup_candidate \<Rightarrow> nat \<times> int" where
  "bytes_key c = (case reclaimable_bytes c of Some b \<Rightarrow> (0, - b) | None \<Rightarrow> (1, 0))"

definition rank_key ::
  "(string \<Rightarrow> int option) \<Rightarrow> int \<Rightarrow> cleanup_candidate \<Rightarrow> nat list \<times> int \<times> int \<times> (nat \<times> int) \<times> string" where
  "rank_key date_parse now c = (tier_digits tier_radices (tiers_of date_parse c now),
     - fst (idleness_of date_parse c now), - snd (idleness_of date_parse c now), bytes_key c,
     id_path (an_identity (cc_analysis c)))"

lemma compare_tiers_digits:
  "(compare_tiers R l r < 0 \<longleftrightarrow> tier_digits R l < tier_digits R r) \<and>
   (compare_tiers R l r = 0 \<longleftrightarrow> tier_digits R l = tier_digits R r)"
  by (induction R l r rule: compare_tiers.induct) (auto simp: tier_digits_def)

lemma compare_bytes_key:
  "(compare_bytes l r < 0 \<longleftrightarrow> bytes_key l < bytes_key r) \<and> (compare_bytes l r = 0 \<longleftrightarrow> bytes_key l = bytes_key r)"
  by (auto simp: compare_bytes_def bytes_key_def split: option.splits)

lemma code_unit_compare_le: "code_unit_compare l r \<le> 0 \<longleftrightarrow> l \<le> r"
  by (auto simp: code_unit_compare_def)

lemma lex_step:
  fixes d e :: int and a :: "'a :: linorder" and b :: "'b :: linorder"
  assumes "(d < 0 \<longleftrightarrow> a < a') \<and> (d = 0 \<longleftrightarrow> a = a')" and "e \<le> 0 \<longleftrightarrow> b \<le> b'"
  shows "(if d \<noteq> 0 then d else e) \<le> 0 \<longleftrightarrow> (a, b) \<le> (a', b')"
  using assms by (auto simp: less_eq_prod_def)

lemma compare_candidates_key:
  "compare_candidates date_parse now l r \<le> 0 \<longleftrightarrow> rank_key date_parse now l \<le> rank_key date_parse now r"
  unfolding compare_candidates_def rank_key_def Let_def
  by (intro lex_step compare_tiers_digits compare_bytes_key code_unit_compare_le) auto

section \<open>The score reads the digits\<close>

definition penalty_from :: "nat \<Rightarrow> ((cleanup_tiers \<Rightarrow> nat) \<times> nat) list \<Rightarrow> cleanup_tiers \<Rightarrow> nat" where
  "penalty_from a R t = foldl (\<lambda>p (tier, radix). p * radix + tier t) a R"

definition digits_fit :: "((cleanup_tiers \<Rightarrow> nat) \<times> nat) list \<Rightarrow> cleanup_tiers \<Rightarrow> bool" where
  "digits_fit R t \<longleftrightarrow> list_all (\<lambda>(tier, radix). tier t < radix) R"

lemma penalty_from_simps [simp]:
  "penalty_from a [] t = a" "penalty_from a ((tier, radix) # R) t = penalty_from (a * radix + tier t) R t"
  by (simp_all add: penalty_from_def)

lemma penalty_bounds:
  "digits_fit R t \<Longrightarrow> a * prod_list (map snd R) \<le> penalty_from a R t \<and> penalty_from a R t < Suc a * prod_list (map snd R)"
proof (induction R arbitrary: a)
  case (Cons x R)
  obtain tier radix where x: "x = (tier, radix)" by (rule prod.exhaust)
  let ?P = "prod_list (map snd R)"
  from Cons.prems x have d: "tier t < radix" "digits_fit R t" by (simp_all add: digits_fit_def)
  have "Suc (a * radix + tier t) \<le> Suc a * radix" using d(1) by simp
  then have "Suc (a * radix + tier t) * ?P \<le> Suc a * radix * ?P" by (rule mult_le_mono1)
  moreover have "a * radix * ?P \<le> (a * radix + tier t) * ?P" by (rule mult_le_mono1) simp
  ultimately show ?case using Cons.IH [OF d(2), of "a * radix + tier t"] x by (simp add: algebra_simps)
qed simp

lemma penalty_mono:
  assumes "tier_digits R l \<le> tier_digits R r" "digits_fit R l" "digits_fit R r"
  shows "penalty_from a R l \<le> penalty_from a R r"
  using assms
proof (induction R arbitrary: a)
  case (Cons x R)
  obtain tier radix where x: "x = (tier, radix)" by (rule prod.exhaust)
  let ?P = "prod_list (map snd R)"
  from Cons.prems x have fit: "digits_fit R l" "digits_fit R r" by (simp_all add: digits_fit_def)
  from Cons.prems(1) x consider "tier l < tier r" | "tier l = tier r" "tier_digits R l \<le> tier_digits R r"
    by (auto simp: tier_digits_def)
  then show ?case
  proof cases
    case 1
    have "penalty_from (a * radix + tier l) R l < Suc (a * radix + tier l) * ?P" using penalty_bounds [OF fit(1)] by simp
    also have "\<dots> \<le> (a * radix + tier r) * ?P" by (rule mult_le_mono1) (use 1 in simp)
    also have "\<dots> \<le> penalty_from (a * radix + tier r) R r" using penalty_bounds [OF fit(2)] by simp
    finally show ?thesis using x by simp
  next
    case 2
    with Cons.IH fit x show ?thesis by simp
  qed
qed simp

lemma score_of_penalty:
  "score_of t = round (100 * (1 - of_nat (penalty_from 0 tier_radices t) / 4049) :: rat)"
  by (simp add: score_of_def tier_radices_def idleness_bucket_count_def idleness_threshold_days_def)

lemma find_index_le: "find_index P xs = Some k \<Longrightarrow> k < length xs"
  by (auto simp: find_index_def Let_def split: if_splits)

lemma idleness_bucket_less: "idleness_bucket n < idleness_bucket_count"
  using find_index_le by (auto simp: idleness_bucket_def idleness_bucket_count_def split: option.split intro: less_SucI)

lemma tiers_fit: "digits_fit tier_radices (tiers_of date_parse c now)"
  using idleness_bucket_less
  by (auto simp: digits_fit_def tier_radices_def tiers_of_def Let_def split: prod.split option.split readiness.split bool.split)

lemma penalty_le: "penalty_from 0 tier_radices (tiers_of date_parse c now) \<le> 4049"
  using penalty_bounds [OF tiers_fit, of 0 date_parse c now]
  by (simp add: tier_radices_def idleness_bucket_count_def idleness_threshold_days_def)

lemma score_mono:
  assumes "rank_key date_parse now l \<le> rank_key date_parse now r"
  shows "score_of (tiers_of date_parse r now) \<le> score_of (tiers_of date_parse l now)"
proof -
  have "tier_digits tier_radices (tiers_of date_parse l now) \<le> tier_digits tier_radices (tiers_of date_parse r now)"
    using assms by (auto simp: rank_key_def less_eq_prod_def)
  from penalty_mono [OF this tiers_fit tiers_fit, of 0] show ?thesis
    unfolding score_of_penalty by (intro round_mono mult_left_mono diff_left_mono divide_right_mono) simp_all
qed

lemma score_bounds: "0 \<le> score_of (tiers_of date_parse c now) \<and> score_of (tiers_of date_parse c now) \<le> 100"
proof -
  let ?x = "100 * (1 - of_nat (penalty_from 0 tier_radices (tiers_of date_parse c now)) / 4049) :: rat"
  have "of_nat (penalty_from 0 tier_radices (tiers_of date_parse c now)) \<le> (4049 :: rat)"
    using penalty_le [of date_parse c now] by (metis of_nat_le_iff of_nat_numeral)
  then have "0 \<le> ?x" "?x \<le> 100" by simp_all
  from round_mono [OF this(1)] round_mono [OF this(2)] show ?thesis unfolding score_of_penalty by simp
qed

text \<open>The distance of the exact value from the middle of two integers, which no rounding error bridges.\<close>

lemma score_no_tie: "1 / 8098 \<le> \<bar>100 * (1 - of_int p / 4049) - (of_int k + 1 / 2) :: rat\<bar>"
proof -
  have "odd (200 * (4049 - p) - 4049 * (2 * k + 1))" by simp
  then have "200 * (4049 - p) - 4049 * (2 * k + 1) \<noteq> 0" by (metis even_zero)
  then have "1 \<le> \<bar>200 * (4049 - p) - 4049 * (2 * k + 1)\<bar>" by linarith
  then have "(1 :: rat) \<le> of_int \<bar>200 * (4049 - p) - 4049 * (2 * k + 1)\<bar>" by (simp only: of_int_1_le_iff)
  moreover have e: "100 * (1 - of_int p / 4049) - (of_int k + 1 / 2) = (of_int (200 * (4049 - p) - 4049 * (2 * k + 1)) / 8098 :: rat)"
    by (simp add: field_simps)
  ultimately show ?thesis unfolding e by (simp only: abs_divide of_int_abs) (simp add: divide_right_mono)
qed

section \<open>What the ranking promises\<close>

lemma zip_numbered:
  assumes "length ys = n"
  shows "map (\<lambda>x. g (snd x)) (zip [0..<n] ys) = map g ys" "map (\<lambda>x. Suc (fst x)) (zip [0..<n] ys) = [1..<Suc n]"
  using assms by (simp_all add: list_eq_iff_nth_eq del: upt_Suc)

lemma ranked_candidates:
  "map rc_candidate (rank_cleanup_candidates date_parse now cs) = sort_key (rank_key date_parse now) cs"
  "map rc_rank (rank_cleanup_candidates date_parse now cs) = [1..<Suc (length cs)]"
  "map rc_score (rank_cleanup_candidates date_parse now cs) =
     map (\<lambda>c. score_of (tiers_of date_parse c now)) (sort_key (rank_key date_parse now) cs)"
proof -
  let ?s = "sort_key (rank_key date_parse now) cs"
  have s: "js_sort (compare_candidates date_parse now) cs = ?s"
    by (rule js_sort_key) (rule compare_candidates_key)
  show "map rc_candidate (rank_cleanup_candidates date_parse now cs) = ?s"
    "map rc_rank (rank_cleanup_candidates date_parse now cs) = [1..<Suc (length cs)]"
    "map rc_score (rank_cleanup_candidates date_parse now cs) = map (\<lambda>c. score_of (tiers_of date_parse c now)) ?s"
    unfolding rank_cleanup_candidates_def s map_map comp_def
    by (simp_all add: zip_numbered zip_numbered(1) [where g = "\<lambda>c. score_of (tiers_of date_parse c now)"] case_prod_beta del: upt_Suc)
qed

text \<open>
  C40. The ranking is a reordering of the candidates, none dropped and none added, numbered from one, in the order of
  the tiers; the scores never rise along it, so no candidate scores above one that outranks it, and they lie
  between 0 and 100.
\<close>

theorem ranking_agrees_with_scores:
  "mset (map rc_candidate (rank_cleanup_candidates date_parse now cs)) = mset cs \<and>
   map rc_rank (rank_cleanup_candidates date_parse now cs) = [1..<Suc (length cs)] \<and>
   sorted_wrt (\<lambda>l r. compare_candidates date_parse now l r \<le> 0)
     (map rc_candidate (rank_cleanup_candidates date_parse now cs)) \<and>
   sorted_wrt (\<lambda>a b. b \<le> a) (map rc_score (rank_cleanup_candidates date_parse now cs)) \<and>
   rc_score ` set (rank_cleanup_candidates date_parse now cs) \<subseteq> {0..100}"
proof -
  let ?s = "sort_key (rank_key date_parse now) cs"
  have sorted: "sorted_wrt (\<lambda>l r. rank_key date_parse now l \<le> rank_key date_parse now r) ?s"
    using sorted_sort_key [of "rank_key date_parse now" cs] by (simp add: sorted_wrt_map)
  have "sorted_wrt (\<lambda>l r. score_of (tiers_of date_parse r now) \<le> score_of (tiers_of date_parse l now)) ?s"
    by (rule sorted_wrt_mono_rel [OF _ sorted]) (rule score_mono)
  moreover have "rc_score ` set (rank_cleanup_candidates date_parse now cs) \<subseteq> {0..100}"
    using score_bounds unfolding set_map [symmetric] ranked_candidates(3) by auto
  ultimately show ?thesis
    using sorted unfolding ranked_candidates compare_candidates_key by (simp only: sorted_wrt_map mset_sort simp_thms)
qed

lemma idleness_bucket_antimono:
  assumes "n \<le> m" shows "idleness_bucket m \<le> idleness_bucket n"
proof -
  have "length (takeWhile (\<lambda>t. \<not> t * k \<le> m) ts) \<le> length (takeWhile (\<lambda>t. \<not> t * k \<le> n) ts)" for k :: int and ts
    using assms by (induction ts) auto
  from this [where k = milliseconds_per_day and ts = idleness_threshold_days] show ?thesis
    using length_takeWhile_le [of "\<lambda>t. \<not> t * milliseconds_per_day \<le> n" idleness_threshold_days]
    unfolding idleness_bucket_def find_index_def Let_def by (auto split: option.split if_splits)
qed

lemma pointwise_le: "list_all2 (\<le>) xs ys \<Longrightarrow> xs \<le> (ys :: nat list)"
  by (induction xs ys rule: list_all2_induct) auto

lemma elapsed_nonneg: "0 \<le> elapsed_since date_parse t now"
  by (simp add: elapsed_since_def split: option.split)

lemma pair_le: "a \<le> a' \<Longrightarrow> b \<le> b' \<Longrightarrow> (a, b) \<le> (a' :: 'a :: linorder, b' :: 'b :: linorder)"
  by (auto simp: less_eq_prod_def)

definition without_evidence :: "cleanup_candidate \<Rightarrow> cleanup_candidate" where
  "without_evidence c = c\<lparr>cc_last_runtime_at := None, cc_last_commit_at := None, cc_reclaimable := None,
     cc_has_running_process := (case cc_has_running_process c of Some False \<Rightarrow> None | running \<Rightarrow> running)\<rparr>"

text \<open>
  Missing evidence never moves a candidate forward: without the times of its last activity, without the
  measurement of its bytes and without the knowledge that nothing runs in it, a candidate never comes before
  itself with that evidence, and never scores higher.
\<close>

theorem missing_evidence_never_helps:
  "compare_candidates date_parse now c (without_evidence c) \<le> 0 \<and>
   score_of (tiers_of date_parse (without_evidence c) now) \<le> score_of (tiers_of date_parse c now)"
proof -
  have no_time: "elapsed_since date_parse None now = 0" by (simp add: elapsed_since_def)
  have "list_all2 (\<le>) (tier_digits tier_radices (tiers_of date_parse c now))
      (tier_digits tier_radices (tiers_of date_parse (without_evidence c) now))"
    using idleness_bucket_antimono [OF elapsed_nonneg]
    by (auto simp: tier_digits_def tier_radices_def tiers_of_def without_evidence_def idleness_of_def no_time Let_def
        split: option.split bool.split)
  moreover have "bytes_key c \<le> bytes_key (without_evidence c)"
    by (auto simp: bytes_key_def without_evidence_def reclaimable_bytes_def less_eq_prod_def split: option.split)
  ultimately have "rank_key date_parse now c \<le> rank_key date_parse now (without_evidence c)"
    unfolding rank_key_def
    by (intro pair_le pointwise_le) (simp_all add: idleness_of_def without_evidence_def no_time elapsed_nonneg)
  with score_mono [OF this] show ?thesis unfolding compare_candidates_key by simp
qed

text \<open>The order of the candidates given to the ranking does not matter when their paths differ.\<close>

lemma ranking_ignores_input_order:
  assumes "mset cs = mset ds" and "distinct (map (\<lambda>c. id_path (an_identity (cc_analysis c))) cs)"
  shows "map rc_candidate (rank_cleanup_candidates date_parse now cs) = map rc_candidate (rank_cleanup_candidates date_parse now ds)"
proof -
  have "inj_on (rank_key date_parse now) (set cs)"
    using assms(2) by (auto simp: distinct_map rank_key_def inj_on_def)
  then show ?thesis unfolding ranked_candidates
    by (intro sort_key_inj_key_eq) (simp_all add: assms(1))
qed

end
