(* ===== verification/Reconciler_Queue.thy ===== *)
theory Reconciler_Queue
  imports Js_Text
begin

text \<open>
  The queue that coalesces signals for reconciliation (\<open>packages/daemon/src/reconciler-queue.ts\<close>). Its asynchronous
  parts are cut at their awaits: a method runs up to its first await, and what follows an await is a step of its
  own (\<open>queue_step\<close>), so that every interleaving of calls, timers, ends of runs and resumed flushes is a run of the
  relation. What the queue does to its surroundings is recorded in order in \<open>rq_log\<close>: the calls of \<open>run\<close> and
  \<open>onError\<close>, the waiters resolved, and the outcome of a flush. The clock is an argument, in milliseconds.
\<close>

section \<open>Data\<close>

datatype reconcile_signal_kind = Config_Signal | Fingerprint_Signal | Git_Topology_Signal | Manifest_Signal | Watch_Error_Signal

record reconcile_signal =
  rs_root :: string
  rs_kind :: reconcile_signal_kind

record reconcile_batch =
  rb_roots :: "string list"
  rb_kinds :: "reconcile_signal_kind list"

fun signal_kind_text :: "reconcile_signal_kind \<Rightarrow> string" where
  "signal_kind_text Config_Signal = ''config''"
| "signal_kind_text Fingerprint_Signal = ''fingerprint''"
| "signal_kind_text Git_Topology_Signal = ''git-topology''"
| "signal_kind_text Manifest_Signal = ''manifest''"
| "signal_kind_text Watch_Error_Signal = ''watch-error''"

datatype 'e queue_effect = Run_Batch reconcile_batch | Report_Error 'e | Resolve_Waiter nat | Flush_Settled "'e option"

datatype reconciler_state = Queue_Open | Queue_Closing | Queue_Closed

text \<open>
  The flush in progress: none; in its loop; or past its loop with its outcome, its promise not yet cleared by
  \<open>finally\<close>. A set is the list of its elements in insertion order.
\<close>

datatype 'e flush_state = No_Flush | Flush_Looping | Flush_Settling "'e option"

record 'e reconciler =
  rq_debounce :: int
  rq_max_coalesce :: int
  rq_roots :: "string list"
  rq_kinds :: "reconcile_signal_kind list"
  rq_idle_waiters :: "nat list"
  rq_first_signal_at :: "int option"
  rq_timer :: "int option"
  rq_running :: "reconcile_batch option"
  rq_flush :: "'e flush_state"
  rq_pending_error :: "'e option"
  rq_state :: reconciler_state
  rq_generation :: nat
  rq_log :: "'e queue_effect list"

definition set_add :: "'a \<Rightarrow> 'a list \<Rightarrow> 'a list" where
  "set_add x xs = (if x \<in> set xs then xs else xs @ [x])"

definition emit :: "'e queue_effect list \<Rightarrow> 'e reconciler \<Rightarrow> 'e reconciler" where
  "emit effects q = q\<lparr>rq_log := rq_log q @ effects\<rparr>"

section \<open>Operations\<close>

fun is_integer :: "jsnum \<Rightarrow> bool" where
  "is_integer (Whole n) \<longleftrightarrow> True"
| "is_integer Not_Whole \<longleftrightarrow> False"

definition new_reconciler :: "jsnum option \<Rightarrow> jsnum option \<Rightarrow> string + 'e reconciler" where
  "new_reconciler debounce_ms max_coalesce_ms =
    (let debounce = case_option (Whole 200) id debounce_ms; max_coalesce = case_option (Whole 1000) id max_coalesce_ms in
     if \<not> is_integer debounce \<or> whole debounce < 0 then Inl ''Reconciliation debounce must be a non-negative integer''
     else if \<not> is_integer max_coalesce \<or> whole max_coalesce < whole debounce
       then Inl ''Maximum coalesce window must be an integer at least as large as debounce''
     else Inr \<lparr> rq_debounce = whole debounce, rq_max_coalesce = whole max_coalesce, rq_roots = [], rq_kinds = [],
       rq_idle_waiters = [], rq_first_signal_at = None, rq_timer = None, rq_running = None, rq_flush = No_Flush,
       rq_pending_error = None, rq_state = Queue_Open, rq_generation = 0, rq_log = [] \<rparr>)"

definition queue_idle :: "'e reconciler \<Rightarrow> bool" where
  "queue_idle q \<longleftrightarrow> rq_timer q = None \<and> rq_running q = None \<and> rq_roots q = []"

definition resolve_idle :: "'e reconciler \<Rightarrow> 'e reconciler" where
  "resolve_idle q = (if \<not> queue_idle q then q
     else emit (map Resolve_Waiter (rq_idle_waiters q)) (q\<lparr>rq_idle_waiters := []\<rparr>))"

definition record_error :: "'e \<Rightarrow> 'e reconciler \<Rightarrow> 'e reconciler" where
  "record_error e q = emit [Report_Error e] (if rq_pending_error q = None then q\<lparr>rq_pending_error := Some e\<rparr> else q)"

definition cancel_timer :: "'e reconciler \<Rightarrow> 'e reconciler" where
  "cancel_timer q = q\<lparr>rq_timer := None\<rparr>"

text \<open>The timer holds the instant it is due.\<close>

definition arm :: "int \<Rightarrow> int \<Rightarrow> 'e reconciler \<Rightarrow> 'e reconciler" where
  "arm delay now q = (cancel_timer q)\<lparr>rq_timer := Some (now + max 0 delay)\<rparr>"

definition batch_delay :: "'e reconciler \<Rightarrow> int \<Rightarrow> int \<Rightarrow> int" where
  "batch_delay q first now = min (now + rq_debounce q) (first + rq_max_coalesce q) - now"

definition schedule_signal :: "reconcile_signal \<Rightarrow> int \<Rightarrow> 'e reconciler \<Rightarrow> 'e reconciler" where
  "schedule_signal signal now q = (if rq_state q \<noteq> Queue_Open then q
     else let first = (case rq_first_signal_at q of None \<Rightarrow> now | Some first \<Rightarrow> first);
              q1 = q\<lparr>rq_generation := rq_generation q + 1, rq_roots := set_add (rs_root signal) (rq_roots q),
                rq_kinds := set_add (rs_kind signal) (rq_kinds q), rq_first_signal_at := Some first\<rparr>
          in if rq_running q \<noteq> None then q1 else arm (batch_delay q first now) now q1)"

text \<open>\<open>drain\<close> up to its await; what it does after the run is \<open>end_drain\<close>.\<close>

definition start_drain :: "'e reconciler \<Rightarrow> 'e reconciler" where
  "start_drain q = (if rq_running q \<noteq> None then q else if rq_roots q = [] then resolve_idle q
     else let batch = \<lparr> rb_roots = sort (rq_roots q), rb_kinds = sort_key signal_kind_text (rq_kinds q) \<rparr>
          in emit [Run_Batch batch] (q\<lparr>rq_roots := [], rq_kinds := [], rq_first_signal_at := None, rq_running := Some batch\<rparr>))"

definition end_drain :: "int \<Rightarrow> 'e reconciler \<Rightarrow> 'e reconciler" where
  "end_drain now q = (let q1 = q\<lparr>rq_running := None\<rparr> in
     case rq_first_signal_at q of
       Some first \<Rightarrow> if rq_roots q \<noteq> [] then arm (batch_delay q first now) now q1 else resolve_idle q1
     | None \<Rightarrow> resolve_idle q1)"

definition run_ended :: "'e option \<Rightarrow> int \<Rightarrow> 'e reconciler \<Rightarrow> 'e reconciler" where
  "run_ended failure now q = end_drain now (case failure of None \<Rightarrow> q | Some e \<Rightarrow> record_error e q)"

definition timer_fires :: "'e reconciler \<Rightarrow> 'e reconciler" where
  "timer_fires q = start_drain (q\<lparr>rq_timer := None\<rparr>)"

text \<open>The loop of a flush from a test of its condition to the next await, or to its end.\<close>

definition flush_loop :: "'e reconciler \<Rightarrow> 'e reconciler" where
  "flush_loop q = (if rq_running q \<noteq> None then q else if rq_roots q \<noteq> [] then start_drain q
     else (resolve_idle q)\<lparr>rq_flush := Flush_Settling (rq_pending_error q), rq_pending_error := None\<rparr>)"

definition flush_queue :: "'e reconciler \<Rightarrow> 'e reconciler" where
  "flush_queue q = (if rq_flush q \<noteq> No_Flush then q else flush_loop ((cancel_timer q)\<lparr>rq_flush := Flush_Looping\<rparr>))"

text \<open>The promise of the flush is cleared, and then the one of a \<open>close\<close> that waits for it.\<close>

definition flush_settles :: "'e reconciler \<Rightarrow> 'e reconciler" where
  "flush_settles q = (case rq_flush q of
     Flush_Settling outcome \<Rightarrow> emit [Flush_Settled outcome] (q\<lparr>rq_flush := No_Flush,
       rq_state := (if rq_state q = Queue_Closing then Queue_Closed else rq_state q)\<rparr>)
   | _ \<Rightarrow> q)"

definition when_idle :: "nat \<Rightarrow> 'e reconciler \<Rightarrow> 'e reconciler" where
  "when_idle waiter q = (if queue_idle q then emit [Resolve_Waiter waiter] q
     else q\<lparr>rq_idle_waiters := rq_idle_waiters q @ [waiter]\<rparr>)"

definition close_reconciler :: "'e reconciler \<Rightarrow> 'e reconciler" where
  "close_reconciler q = (if rq_state q \<noteq> Queue_Open then q
     else flush_queue (cancel_timer (q\<lparr>rq_state := Queue_Closing\<rparr>)))"

section \<open>Runs\<close>

text \<open>Steps the queue makes by itself, once the timer is due, the run has ended or an await is over.\<close>

inductive inner_step :: "'e reconciler \<Rightarrow> 'e reconciler \<Rightarrow> bool" where
  Fire: "rq_timer q \<noteq> None \<Longrightarrow> inner_step q (timer_fires q)"
| Run_End: "rq_running q \<noteq> None \<Longrightarrow> inner_step q (run_ended failure now q)"
| Resume: "rq_flush q = Flush_Looping \<Longrightarrow> rq_running q = None \<Longrightarrow> inner_step q (flush_loop q)"
| Settle: "rq_flush q = Flush_Settling outcome \<Longrightarrow> inner_step q (flush_settles q)"

inductive queue_step :: "'e reconciler \<Rightarrow> 'e reconciler \<Rightarrow> bool" where
  Inner: "inner_step q q' \<Longrightarrow> queue_step q q'"
| Schedule: "queue_step q (schedule_signal signal now q)"
| Flush: "queue_step q (flush_queue q)"
| When_Idle: "queue_step q (when_idle waiter q)"
| Close: "queue_step q (close_reconciler q)"

lemmas queue_parts = resolve_idle_def record_error_def cancel_timer_def arm_def emit_def start_drain_def end_drain_def
  run_ended_def timer_fires_def flush_loop_def flush_queue_def flush_settles_def when_idle_def close_reconciler_def
  schedule_signal_def queue_idle_def Let_def

section \<open>The queue comes to rest\<close>

definition flush_work :: "'e flush_state \<Rightarrow> nat" where
  "flush_work f = (case f of No_Flush \<Rightarrow> 0 | Flush_Looping \<Rightarrow> 2 | Flush_Settling outcome \<Rightarrow> 1)"

definition work :: "'e reconciler \<Rightarrow> nat" where
  "work q = (if rq_roots q = [] then 0 else 4) + (if rq_running q = None then 0 else 2)
     + (if rq_timer q = None then 0 else 1) + flush_work (rq_flush q)"

lemma inner_step_works: "inner_step q q' \<Longrightarrow> work q' < work q"
  by (induction rule: inner_step.induct) (auto simp: queue_parts work_def flush_work_def split: option.split)

lemma inner_steps_work: "(inner_step ^^ n) q q' \<Longrightarrow> work q' + n \<le> work q"
proof (induction n arbitrary: q')
  case (Suc n)
  from Suc.prems obtain u where "(inner_step ^^ n) q u" "inner_step u q'" by auto
  with Suc.IH inner_step_works [of u q'] show ?case by force
qed simp

lemma work_le: "work q \<le> 9"
  by (simp add: work_def flush_work_def split: flush_state.split)

section \<open>Pending signals are served\<close>

definition settling :: "'e reconciler \<Rightarrow> bool" where
  "settling q \<longleftrightarrow> (\<exists>outcome. rq_flush q = Flush_Settling outcome)"

text \<open>A step that does not close the queue between the end of a flush and the clearing of its promise.\<close>

definition orderly_step :: "'e reconciler \<Rightarrow> 'e reconciler \<Rightarrow> bool" where
  "orderly_step q q' \<longleftrightarrow> queue_step q q' \<and> (rq_state q = Queue_Open \<and> rq_state q' \<noteq> Queue_Open \<longrightarrow> \<not> settling q)"

text \<open>
  Something will drain what is pending, and something will resolve those who wait; the three pending sets are
  empty together, a batch never holds a name twice, and the options are those the constructor admits.
\<close>

definition queue_ok :: "'e reconciler \<Rightarrow> bool" where
  "queue_ok q \<longleftrightarrow>
     (rq_roots q \<noteq> [] \<longrightarrow> rq_timer q \<noteq> None \<or> rq_running q \<noteq> None \<or> rq_flush q = Flush_Looping) \<and>
     (rq_idle_waiters q \<noteq> [] \<longrightarrow> \<not> queue_idle q \<or> rq_flush q = Flush_Looping) \<and>
     (rq_roots q = [] \<longleftrightarrow> rq_first_signal_at q = None) \<and> (rq_roots q = [] \<longleftrightarrow> rq_kinds q = []) \<and>
     distinct (rq_roots q) \<and> distinct (rq_kinds q) \<and> 0 \<le> rq_debounce q \<and> rq_debounce q \<le> rq_max_coalesce q"

lemma set_add_simps [simp]: "set_add x xs \<noteq> []" "set (set_add x xs) = insert x (set xs)"
  "distinct (set_add x xs) \<longleftrightarrow> distinct xs"
  by (auto simp: set_add_def)

lemma inner_step_ok: "inner_step q q' \<Longrightarrow> queue_ok q \<Longrightarrow> queue_ok q'"
  by (induction rule: inner_step.induct) (auto simp: queue_parts queue_ok_def split: option.splits)

lemma inner_step_state: "inner_step q q' \<Longrightarrow> rq_state q = Queue_Open \<Longrightarrow> rq_state q' = Queue_Open"
  by (induction rule: inner_step.induct) (auto simp: queue_parts split: option.splits flush_state.splits)

lemma inner_orderly: "inner_step q q' \<Longrightarrow> orderly_step q q'"
  using inner_step_state by (auto simp: orderly_step_def intro: Inner)

lemma schedule_ok: "queue_ok q \<Longrightarrow> queue_ok (schedule_signal signal now q)"
  by (auto simp: queue_parts queue_ok_def)

lemma flush_ok: "queue_ok q \<Longrightarrow> queue_ok (flush_queue q)"
  by (auto simp: queue_parts queue_ok_def)

lemma when_idle_ok: "queue_ok q \<Longrightarrow> queue_ok (when_idle waiter q)"
  by (auto simp: queue_parts queue_ok_def)

lemma close_ok: "queue_ok q \<Longrightarrow> rq_state q = Queue_Open \<longrightarrow> \<not> settling q \<Longrightarrow> queue_ok (close_reconciler q)"
  by (cases "rq_flush q") (auto simp: queue_parts queue_ok_def settling_def)

lemma close_state: "rq_state q = Queue_Open \<Longrightarrow> rq_state (close_reconciler q) = Queue_Closing"
  by (auto simp: queue_parts)

lemma orderly_step_ok: "orderly_step q q' \<Longrightarrow> queue_ok q \<Longrightarrow> queue_ok q'"
proof -
  assume a: "orderly_step q q'" "queue_ok q"
  then have "queue_step q q'" by (simp add: orderly_step_def)
  then show ?thesis
  proof cases
    case Close
    with a close_state [of q] show ?thesis by (auto simp: orderly_step_def intro: close_ok)
  qed (use a in \<open>auto intro: inner_step_ok schedule_ok flush_ok when_idle_ok\<close>)
qed

interpretation reconciler: machine orderly_step queue_ok
  by unfold_locales (rule orderly_step_ok)

lemma new_reconciler_ok: "new_reconciler d m = Inr q \<Longrightarrow> queue_ok q \<and> rq_state q = Queue_Open"
  by (auto simp: new_reconciler_def Let_def queue_ok_def split: if_splits)

lemma at_rest:
  assumes "\<nexists>q'. inner_step q q'"
  shows "rq_timer q = None \<and> rq_running q = None \<and> rq_flush q = No_Flush"
proof -
  have "rq_running q = None" using assms by (auto intro: inner_step.intros)
  with assms show ?thesis by (cases "rq_flush q") (auto intro: inner_step.intros)
qed

lemma settled_queue:
  assumes "queue_ok q" and "\<nexists>q'. inner_step q q'"
  shows "queue_idle q \<and> rq_idle_waiters q = [] \<and> rq_flush q = No_Flush"
proof -
  have r: "rq_timer q = None" "rq_running q = None" "\<not> settling q"
    using assms(2) by (auto intro: inner_step.intros simp: settling_def)
  moreover have "rq_flush q \<noteq> Flush_Looping" using assms(2) r(2) by (auto intro: inner_step.intros)
  ultimately
  show ?thesis using assms(1) by (cases "rq_flush q") (auto simp: queue_ok_def queue_idle_def settling_def)
qed

section \<open>Signals reach a run\<close>

definition batch_has :: "reconcile_signal \<Rightarrow> reconcile_batch \<Rightarrow> bool" where
  "batch_has signal b \<longleftrightarrow> rs_root signal \<in> set (rb_roots b) \<and> rs_kind signal \<in> set (rb_kinds b)"

definition pending :: "reconcile_signal \<Rightarrow> 'e reconciler \<Rightarrow> bool" where
  "pending signal q \<longleftrightarrow> rs_root signal \<in> set (rq_roots q) \<and> rs_kind signal \<in> set (rq_kinds q)"

text \<open>The log grows, and a signal stays pending until a batch with it is run.\<close>

definition carries :: "reconcile_signal \<Rightarrow> 'e reconciler \<Rightarrow> 'e reconciler \<Rightarrow> bool" where
  "carries signal q q' \<longleftrightarrow> (\<exists>effects. rq_log q' = rq_log q @ effects \<and>
     (pending signal q \<longrightarrow> pending signal q' \<or> (\<exists>b. Run_Batch b \<in> set effects \<and> batch_has signal b)))"

lemma carries_trans:
  assumes "carries signal q q'" and "carries signal q' q''" shows "carries signal q q''"
proof -
  from assms(1) obtain e where e: "rq_log q' = rq_log q @ e"
    "pending signal q \<longrightarrow> pending signal q' \<or> (\<exists>b. Run_Batch b \<in> set e \<and> batch_has signal b)"
    unfolding carries_def by blast
  from assms(2) obtain e' where e': "rq_log q'' = rq_log q' @ e'"
    "pending signal q' \<longrightarrow> pending signal q'' \<or> (\<exists>b. Run_Batch b \<in> set e' \<and> batch_has signal b)"
    unfolding carries_def by blast
  have "rq_log q'' = rq_log q @ (e @ e')" by (simp add: e(1) e'(1))
  moreover have "pending signal q \<longrightarrow> pending signal q'' \<or> (\<exists>b. Run_Batch b \<in> set (e @ e') \<and> batch_has signal b)"
    using e(2) e'(2) by auto
  ultimately show ?thesis unfolding carries_def by blast
qed

lemma carries_start: "carries signal q (start_drain q)"
  by (auto simp: carries_def start_drain_def resolve_idle_def emit_def pending_def batch_has_def Let_def)

lemma carries_quiet:
  "rq_log q' = rq_log q @ effects \<Longrightarrow> set (rq_roots q) \<subseteq> set (rq_roots q') \<Longrightarrow> set (rq_kinds q) \<subseteq> set (rq_kinds q')
   \<Longrightarrow> carries signal q q'"
  by (auto simp: carries_def pending_def)

lemma carries_timer [simp]: "carries signal (q\<lparr>rq_timer := t\<rparr>) q' \<longleftrightarrow> carries signal q q'"
  by (simp add: carries_def pending_def)

lemma carries_flush_state [simp]: "carries signal (q\<lparr>rq_flush := f\<rparr>) q' \<longleftrightarrow> carries signal q q'"
  by (simp add: carries_def pending_def)

lemma carries_state [simp]: "carries signal (q\<lparr>rq_state := f\<rparr>) q' \<longleftrightarrow> carries signal q q'"
  by (simp add: carries_def pending_def)

lemma carries_refl: "carries signal q q"
  by (simp add: carries_def)

lemma carries_fire: "carries signal q (timer_fires q)"
  using carries_start [of signal "q\<lparr>rq_timer := None\<rparr>"] by (simp add: timer_fires_def)

lemma carries_resolve: "carries signal q (resolve_idle q)"
  by (auto simp: resolve_idle_def emit_def intro: carries_quiet)

lemma carries_loop: "carries signal q (flush_loop q)"
proof -
  have "carries signal q ((resolve_idle q)\<lparr>rq_flush := f, rq_pending_error := e\<rparr>)" for f e
    by (rule carries_quiet [where effects = "if queue_idle q then map Resolve_Waiter (rq_idle_waiters q) else []"])
      (simp_all add: resolve_idle_def emit_def)
  then show ?thesis by (simp add: flush_loop_def carries_refl carries_start)
qed

lemma carries_flush: "carries signal q (flush_queue q)"
  using carries_loop [of signal "(cancel_timer q)\<lparr>rq_flush := Flush_Looping\<rparr>"]
  by (simp add: flush_queue_def cancel_timer_def carries_refl)

lemma carries_close: "carries signal q (close_reconciler q)"
  using carries_flush [of signal "cancel_timer (q\<lparr>rq_state := Queue_Closing\<rparr>)"]
  by (simp add: close_reconciler_def cancel_timer_def carries_refl)

lemma carries_run_ended: "carries signal q (run_ended failure now q)"
  by (cases failure) (auto simp: run_ended_def end_drain_def record_error_def resolve_idle_def arm_def cancel_timer_def
      emit_def Let_def intro!: carries_quiet split: option.splits)

lemma carries_schedule: "carries signal q (schedule_signal other now q)"
  by (rule carries_quiet [where effects = "[]"]) (auto simp: schedule_signal_def arm_def cancel_timer_def Let_def)

lemma carries_when_idle: "carries signal q (when_idle waiter q)"
  by (auto simp: when_idle_def emit_def intro: carries_quiet)

lemma queue_step_carries: "queue_step q q' \<Longrightarrow> carries signal q q'"
proof (induction rule: queue_step.induct)
  case (Inner q q')
  then show ?case
    by cases (auto intro: carries_fire carries_run_ended carries_loop carries_quiet simp: flush_settles_def emit_def)
qed (rule carries_schedule carries_flush carries_when_idle carries_close)+

lemma run_carries: "orderly_step\<^sup>*\<^sup>* q q' \<Longrightarrow> carries signal q q'"
  by (induction rule: rtranclp_induct) (auto simp: orderly_step_def intro: carries_refl carries_trans queue_step_carries)

text \<open>A queue never opens again, so what leads to an open queue has not closed it.\<close>

lemma queue_step_open: "queue_step q q' \<Longrightarrow> rq_state q' = Queue_Open \<Longrightarrow> rq_state q = Queue_Open"
  by (induction rule: queue_step.induct)
    (auto simp: queue_parts elim!: inner_step.cases split: if_splits option.splits flush_state.splits)

lemma open_run_orderly: "queue_step\<^sup>*\<^sup>* q q' \<Longrightarrow> rq_state q' = Queue_Open \<Longrightarrow> orderly_step\<^sup>*\<^sup>* q q'"
proof (induction rule: rtranclp_induct)
  case (step u v)
  then have "orderly_step u v" using queue_step_open by (simp add: orderly_step_def)
  with step queue_step_open show ?case by (meson rtranclp.rtrancl_into_rtrancl)
qed simp

lemma schedule_pends:
  "rq_state q = Queue_Open \<Longrightarrow> pending signal (schedule_signal signal now q) \<and> rq_log (schedule_signal signal now q) = rq_log q"
  by (simp add: schedule_signal_def pending_def arm_def cancel_timer_def Let_def)

text \<open>Signals one after another, each with the instant it arrives at.\<close>

definition schedule_all :: "(reconcile_signal \<times> int) list \<Rightarrow> 'e reconciler \<Rightarrow> 'e reconciler" where
  "schedule_all signals q = foldl (\<lambda>q (signal, now). schedule_signal signal now q) q signals"

definition waits_since :: "int \<Rightarrow> 'e reconciler \<Rightarrow> 'e reconciler \<Rightarrow> bool" where
  "waits_since t0 q u \<longleftrightarrow> rq_state u = Queue_Open \<and> rq_running u = None \<and> rq_first_signal_at u = Some t0 \<and>
     rq_debounce u = rq_debounce q \<and> rq_max_coalesce u = rq_max_coalesce q"

lemma schedule_due:
  assumes "rq_state u = Queue_Open" "rq_running u = None" "case_option t id (rq_first_signal_at u) = t0"
    "rq_debounce u = rq_debounce q" "rq_max_coalesce u = rq_max_coalesce q" "0 \<le> rq_debounce q" "t \<le> t0 + rq_max_coalesce q"
  shows "waits_since t0 q (schedule_signal signal t u) \<and>
    rq_timer (schedule_signal signal t u) = Some (min (t + rq_debounce q) (t0 + rq_max_coalesce q))"
  using assms by (cases "rq_first_signal_at u")
    (auto simp: schedule_signal_def arm_def cancel_timer_def waits_since_def batch_delay_def Let_def)

lemma schedule_all_due:
  assumes "rq_state q = Queue_Open" "rq_running q = None" "rq_first_signal_at q = None"
    "0 \<le> rq_debounce q" "rq_debounce q \<le> rq_max_coalesce q" "list_all (\<lambda>(s, t). t \<le> t0 + rq_max_coalesce q) signals"
  shows "waits_since t0 q (schedule_all ((signal, t0) # signals) q) \<and> rq_timer (schedule_all ((signal, t0) # signals) q) =
    Some (min (snd (last ((signal, t0) # signals)) + rq_debounce q) (t0 + rq_max_coalesce q))"
  using assms(6)
proof (induction signals rule: rev_induct)
  case Nil
  show ?case using schedule_due [of q t0 t0 q signal] assms(1-5) by (simp add: schedule_all_def)
next
  case (snoc x signals)
  obtain s t where x: "x = (s, t)" by (rule prod.exhaust)
  with snoc have "waits_since t0 q (schedule_all ((signal, t0) # signals) q)" "t \<le> t0 + rq_max_coalesce q" by simp_all
  from schedule_due [of "schedule_all ((signal, t0) # signals) q" t t0 q s] this assms(4)
  show ?case by (simp add: x waits_since_def schedule_all_def)
qed

section \<open>A concrete queue\<close>

definition demo_signal :: reconcile_signal where
  "demo_signal = \<lparr> rs_root = ''/w'', rs_kind = Manifest_Signal \<rparr>"

definition demo_queue :: "string reconciler" where
  "demo_queue = \<lparr> rq_debounce = 200, rq_max_coalesce = 1000, rq_roots = [], rq_kinds = [],
       rq_idle_waiters = [], rq_first_signal_at = None, rq_timer = None, rq_running = None, rq_flush = No_Flush,
       rq_pending_error = None, rq_state = Queue_Open, rq_generation = 0, rq_log = [] \<rparr>"

definition demo_batch :: reconcile_batch where
  "demo_batch = \<lparr> rb_roots = [''/w''], rb_kinds = [Manifest_Signal] \<rparr>"

lemmas demo_queue_defs = demo_queue_def demo_signal_def demo_batch_def queue_parts batch_delay_def set_add_def

lemma demo_new: "new_reconciler None None = Inr demo_queue"
  by (simp add: new_reconciler_def demo_queue_def)

lemma demo_run:
  "timer_fires (schedule_signal demo_signal 0 demo_queue) =
     demo_queue\<lparr>rq_generation := 1, rq_running := Some demo_batch, rq_log := [Run_Batch demo_batch]\<rparr>"
  "run_ended None 200 (demo_queue\<lparr>rq_generation := 1, rq_running := Some demo_batch, rq_log := [Run_Batch demo_batch]\<rparr>) =
     demo_queue\<lparr>rq_generation := 1, rq_log := [Run_Batch demo_batch]\<rparr>"
  by (simp_all add: demo_queue_defs)

lemma demo_steps:
  "(inner_step ^^ 2) (schedule_signal demo_signal 0 demo_queue) (demo_queue\<lparr>rq_generation := 1, rq_log := [Run_Batch demo_batch]\<rparr>)"
proof -
  have "rq_timer (schedule_signal demo_signal 0 demo_queue) \<noteq> None" by (simp add: demo_queue_defs)
  from Fire [OF this] have a: "inner_step (schedule_signal demo_signal 0 demo_queue)
      (demo_queue\<lparr>rq_generation := 1, rq_running := Some demo_batch, rq_log := [Run_Batch demo_batch]\<rparr>)"
    unfolding demo_run(1) .
  have "inner_step (demo_queue\<lparr>rq_generation := 1, rq_running := Some demo_batch, rq_log := [Run_Batch demo_batch]\<rparr>)
      (demo_queue\<lparr>rq_generation := 1, rq_log := [Run_Batch demo_batch]\<rparr>)"
    unfolding demo_run(2) [symmetric] by (rule Run_End) simp
  with a show ?thesis by (simp add: numeral_2_eq_2) blast
qed

lemma demo_at_rest: "inner_step (demo_queue\<lparr>rq_generation := 1, rq_log := log\<rparr>) q \<Longrightarrow> False"
  by (erule inner_step.cases) (auto simp: demo_queue_def)

text \<open>
  A signal that arrives while a batch runs arms the timer when the batch ends, and a flush that drains it leaves
  that timer behind: the flush has ended and nothing is pending, but the queue does not count as idle.
\<close>

lemma flush_leaves_timer:
  "let q1 = flush_queue (schedule_signal demo_signal 0 demo_queue);
       q2 = run_ended None 20 (schedule_signal demo_signal 10 q1);
       q3 = flush_loop (run_ended None 30 (flush_loop q2))
   in rq_flush q3 = Flush_Settling None \<and> rq_roots q3 = [] \<and> rq_running q3 = None \<and> \<not> queue_idle q3"
  by (simp add: demo_queue_defs)

text \<open>
  A flush of an idle queue that has ended but whose promise is not cleared yet, a signal, and a \<open>close\<close> before the
  promise is cleared: the queue closes with the signal pending and no timer.
\<close>

lemma close_may_lose_signal:
  "let q = flush_settles (close_reconciler (schedule_signal demo_signal 0 (flush_queue demo_queue)))
   in rq_state q = Queue_Closed \<and> rq_roots q = [''/w''] \<and> rq_timer q = None \<and> rq_running q = None \<and> rq_flush q = No_Flush"
  by (simp add: demo_queue_defs)

section \<open>Properties\<close>

text \<open>
  C39. The queue comes to rest: from every state it can reach, it makes at most nine steps by itself before it
  needs a new call, and when it can make no more, nothing is running or armed and no flush is in progress. If the
  queue is still open, or was closed at any moment but the one between the end of a flush and the clearing of its
  promise, then nothing is pending either and nobody waits for it to be idle. (In that one case a signal may be
  left: \<open>close_may_lose_signal\<close>.)
\<close>

theorem queue_settles:
  assumes "new_reconciler d m = Inr q0" and "queue_step\<^sup>*\<^sup>* q0 q" and "(inner_step ^^ n) q q'"
  shows "n \<le> 9 \<and> ((\<exists>q''. inner_step q' q'') \<or>
    rq_timer q' = None \<and> rq_running q' = None \<and> rq_flush q' = No_Flush \<and>
    (rq_state q = Queue_Open \<or> orderly_step\<^sup>*\<^sup>* q0 q \<longrightarrow> queue_idle q' \<and> rq_idle_waiters q' = []))"
proof -
  have "inner_step\<^sup>*\<^sup>* q q'" using assms(3) by (rule relpowp_imp_rtranclp)
  then have tail: "orderly_step\<^sup>*\<^sup>* q q'" by (rule rtranclp_mono [THEN predicate2D, rotated]) (auto intro: inner_orderly)
  have ok: "queue_ok q'" if "rq_state q = Queue_Open \<or> orderly_step\<^sup>*\<^sup>* q0 q"
  proof -
    have "orderly_step\<^sup>*\<^sup>* q0 q" using that open_run_orderly [OF assms(2)] by blast
    with tail have "orderly_step\<^sup>*\<^sup>* q0 q'" by simp
    with new_reconciler_ok [OF assms(1)] show ?thesis by (blast intro: reconciler.run_inv)
  qed
  show ?thesis
    using settled_queue [OF ok] at_rest [of q'] inner_steps_work [OF assms(3)] work_le [of q] by auto
qed

theorem queue_settles_witness:
  "(2 :: nat) \<le> 9 \<and> ((\<exists>q''. inner_step (demo_queue\<lparr>rq_generation := 1, rq_log := [Run_Batch demo_batch]\<rparr>) q'') \<or>
    queue_idle (demo_queue\<lparr>rq_generation := 1, rq_log := [Run_Batch demo_batch]\<rparr>) \<and>
    rq_idle_waiters (demo_queue\<lparr>rq_generation := 1, rq_log := [Run_Batch demo_batch]\<rparr>) = [] \<and>
    rq_flush (demo_queue\<lparr>rq_generation := 1, rq_log := [Run_Batch demo_batch]\<rparr>) = No_Flush)"
proof -
  have "queue_step\<^sup>*\<^sup>* demo_queue (schedule_signal demo_signal 0 demo_queue)"
    by (rule r_into_rtranclp) (rule queue_step.Schedule)
  from queue_settles [OF demo_new this demo_steps] show ?thesis by (simp add: demo_queue_defs)
qed

text \<open>
  C12. No accepted signal is lost: once the queue has come to rest after a signal it accepted, whatever was
  scheduled, flushed and awaited and whatever failed in between, a batch with the root and the kind of the signal
  was run after it, as long as the queue is still open or was closed at any moment but the one between the end of a
  flush and the clearing of its promise. (For that moment \<open>close_may_lose_signal\<close> shows the loss.)
\<close>

theorem accepted_signals_run:
  assumes "new_reconciler d m = Inr q0" and "queue_step\<^sup>*\<^sup>* q0 q" and "rq_state q = Queue_Open"
    and "queue_step\<^sup>*\<^sup>* (schedule_signal signal now q) q'"
    and "rq_state q' = Queue_Open \<or> orderly_step\<^sup>*\<^sup>* (schedule_signal signal now q) q'"
    and "\<nexists>q''. inner_step q' q''"
  shows "\<exists>effects b. rq_log q' = rq_log q @ effects \<and> Run_Batch b \<in> set effects \<and> batch_has signal b"
proof -
  let ?q = "schedule_signal signal now q"
  from assms(4,5) have run: "orderly_step\<^sup>*\<^sup>* ?q q'" using open_run_orderly by blast
  have "queue_ok q" using new_reconciler_ok [OF assms(1)] open_run_orderly [OF assms(2,3)] by (blast intro: reconciler.run_inv)
  then have "queue_ok q'" using run by (blast intro: reconciler.run_inv schedule_ok)
  from settled_queue [OF this assms(6)] have "\<not> pending signal q'" by (simp add: pending_def queue_idle_def)
  with run_carries [OF run, of signal] schedule_pends [OF assms(3), of signal now] show ?thesis
    by (auto simp: carries_def)
qed

theorem accepted_signals_run_witness:
  "\<exists>effects b. rq_log (demo_queue\<lparr>rq_generation := 1, rq_log := [Run_Batch demo_batch]\<rparr>) = rq_log demo_queue @ effects \<and>
     Run_Batch b \<in> set effects \<and> batch_has demo_signal b"
proof (rule accepted_signals_run [OF demo_new])
  show "queue_step\<^sup>*\<^sup>* demo_queue demo_queue" by simp
  show "rq_state demo_queue = Queue_Open" by (simp add: demo_queue_def)
  show "queue_step\<^sup>*\<^sup>* (schedule_signal demo_signal 0 demo_queue) (demo_queue\<lparr>rq_generation := 1, rq_log := [Run_Batch demo_batch]\<rparr>)"
    using relpowp_imp_rtranclp [OF demo_steps] by (rule rtranclp_mono [THEN predicate2D, rotated]) (auto intro: queue_step.Inner)
  show "rq_state (demo_queue\<lparr>rq_generation := 1, rq_log := [Run_Batch demo_batch]\<rparr>) = Queue_Open \<or>
    orderly_step\<^sup>*\<^sup>* (schedule_signal demo_signal 0 demo_queue) (demo_queue\<lparr>rq_generation := 1, rq_log := [Run_Batch demo_batch]\<rparr>)"
    by (simp add: demo_queue_def)
  show "\<nexists>q''. inner_step (demo_queue\<lparr>rq_generation := 1, rq_log := [Run_Batch demo_batch]\<rparr>) q''"
    using demo_at_rest by blast
qed

text \<open>
  Coalescing is bounded: signals that arrive at an open queue at rest start one batch, a debounce after the
  last of them, but never later than the coalescing window after the first.
\<close>

lemma coalescing_is_bounded:
  assumes "new_reconciler d m = Inr q0" and "orderly_step\<^sup>*\<^sup>* q0 q"
    and "rq_state q = Queue_Open" and "rq_running q = None" and "rq_roots q = []"
    and "list_all (\<lambda>(signal, t). t \<le> t0 + rq_max_coalesce q) signals"
  shows "rq_timer (schedule_all ((signal, t0) # signals) q) =
    Some (min (snd (last ((signal, t0) # signals)) + rq_debounce q) (t0 + rq_max_coalesce q))"
proof -
  have "queue_ok q \<and> 0 \<le> rq_debounce q \<and> rq_debounce q \<le> rq_max_coalesce q" using new_reconciler_ok [OF assms(1)] assms(2)
    by (metis reconciler.run_inv queue_ok_def)
  then show ?thesis using schedule_all_due [OF assms(3,4) _ _ _ assms(6)] assms(5) by (simp add: queue_ok_def)
qed

end
