(* ===== verification/Environment.thy ===== *)
theory Environment
  imports Template
begin

text \<open>
  The variables of a task (\<open>packages/core/src/runtime/environment.ts\<close>): the layers are laid over one another, and
  every value is a template whose \<open>{env.x}\<close> refer to the other variables, resolved recursively with a memo and a
  stack that detects cycles. An object is the list of its entries in insertion order. \<open>proto\<close> is the text of what
  every object inherits under a name, which \<open>inherited[name]\<close> finds when the object has no such entry.
\<close>

section \<open>Definitions\<close>

record environment_input =
  ei_automatic :: "(string \<times> string) list option"
  ei_workspace :: "(string \<times> string) list option"
  ei_repo :: "(string \<times> string) list option"
  ei_task :: "(string \<times> string) list option"
  ei_context :: template_context

text \<open>\<open>WtmTemplateError\<close> with its variable; \<open>WtmEnvironmentError\<close> with the cycle.\<close>

datatype environment_error = Unresolved_Variable string | Circular_Reference "string list"

type_synonym entries = "(string \<times> string) list"

text \<open>Setting an entry: it keeps its place when it is there.\<close>

fun set_entry :: "'k \<Rightarrow> 'v \<Rightarrow> ('k \<times> 'v) list \<Rightarrow> ('k \<times> 'v) list" where
  "set_entry k v [] = [(k, v)]"
| "set_entry k v ((k', v') # es) = (if k = k' then (k, v) # es else (k', v') # set_entry k v es)"

definition spread :: "('k \<times> 'v) list \<Rightarrow> ('k \<times> 'v) list option \<Rightarrow> ('k \<times> 'v) list" where
  "spread target layer = (case layer of None \<Rightarrow> target | Some es \<Rightarrow> foldl (\<lambda>acc (k, v). set_entry k v acc) target es)"

definition declared_entries :: "environment_input \<Rightarrow> entries" where
  "declared_entries i = spread (spread (spread (spread [] (ei_automatic i)) (ei_workspace i)) (ei_repo i)) (ei_task i)"

definition inherited_value :: "(string \<Rightarrow> string option) \<Rightarrow> template_context \<Rightarrow> string \<Rightarrow> string option" where
  "inherited_value proto c name =
    (case map_of (case tc_env c of None \<Rightarrow> [] | Some table \<Rightarrow> table) name of
       Some value \<Rightarrow> value | None \<Rightarrow> proto name)"

text \<open>The name in \<open>env.name\<close>.\<close>

definition env_name :: "string \<Rightarrow> string option" where
  "env_name variable = (if starts_with ''env.'' variable then Some (drop (length ''env.'') variable) else None)"

definition index_from :: "'a \<Rightarrow> 'a list \<Rightarrow> 'a list" where
  "index_from x xs = dropWhile (\<lambda>y. y \<noteq> x) xs"

definition undeclared_left :: "entries \<Rightarrow> string list \<Rightarrow> nat" where
  "undeclared_left declared stack = card (set (map fst declared) - set stack)"

lemma undeclared_left_push:
  assumes "map_of declared name = Some raw" and "name \<notin> set stack"
  shows "undeclared_left declared (stack @ [name]) < undeclared_left declared stack"
proof -
  from assms(1) have "name \<in> set (map fst declared)" by (force dest: map_of_SomeD)
  with assms(2) show ?thesis unfolding undeclared_left_def by (intro psubset_card_mono) auto
qed

text \<open>
  \<open>resolveName\<close>, and the callback of \<open>replace\<close> over the parts of a raw value. \<open>memo\<close> is \<open>resolved\<close>, \<open>stack\<close> is
  \<open>resolving\<close>.
\<close>

function (sequential) resolve_name ::
  "(string \<Rightarrow> string option) \<Rightarrow> template_context \<Rightarrow> entries \<Rightarrow> string list \<Rightarrow> entries \<Rightarrow> string
   \<Rightarrow> environment_error + (entries \<times> string)"
and resolve_pieces ::
  "(string \<Rightarrow> string option) \<Rightarrow> template_context \<Rightarrow> entries \<Rightarrow> string list \<Rightarrow> entries \<Rightarrow> template_part list
   \<Rightarrow> environment_error + (entries \<times> string)" where
  "resolve_name proto c declared stack memo name =
    (case map_of memo name of Some value \<Rightarrow> Inr (memo, value)
     | None \<Rightarrow> (case map_of declared name of
         None \<Rightarrow> (case inherited_value proto c name of
             None \<Rightarrow> Inl (Unresolved_Variable (''env.'' @ name)) | Some value \<Rightarrow> Inr (memo, value))
       | Some raw \<Rightarrow>
           if name \<in> set stack then Inl (Circular_Reference (index_from name stack @ [name]))
           else (case resolve_pieces proto c declared (stack @ [name]) memo (template_parts raw) of
               Inl e \<Rightarrow> Inl e
             | Inr (memo', value) \<Rightarrow> Inr (set_entry name value memo', value))))"
| "resolve_pieces proto c declared stack memo [] = Inr (memo, [])"
| "resolve_pieces proto c declared stack memo (Literal x # parts) =
    (case resolve_pieces proto c declared stack memo parts of
       Inl e \<Rightarrow> Inl e | Inr (memo', text) \<Rightarrow> Inr (memo', x # text))"
| "resolve_pieces proto c declared stack memo (Variable variable # parts) =
    (case (case env_name variable of
         Some name \<Rightarrow> resolve_name proto c declared stack memo name
       | None \<Rightarrow> (case template_value_of c variable of
           None \<Rightarrow> Inl (Unresolved_Variable variable) | Some v \<Rightarrow> Inr (memo, value_text v))) of
       Inl e \<Rightarrow> Inl e
     | Inr (memo1, value) \<Rightarrow> (case resolve_pieces proto c declared stack memo1 parts of
           Inl e \<Rightarrow> Inl e | Inr (memo2, text) \<Rightarrow> Inr (memo2, value @ text)))"
  by pat_completeness auto

termination
  by (relation "inv_image (less_than <*lex*> less_than)
      (case_sum (\<lambda>(proto, c, declared, stack, memo, name). (undeclared_left declared stack, 0))
         (\<lambda>(proto, c, declared, stack, memo, parts). (undeclared_left declared stack, Suc (length parts))))")
    (auto simp: undeclared_left_push)

declare resolve_name.simps [simp del] resolve_pieces.simps [simp del]

fun resolve_all ::
  "(string \<Rightarrow> string option) \<Rightarrow> template_context \<Rightarrow> entries \<Rightarrow> entries \<Rightarrow> string list \<Rightarrow> environment_error + entries" where
  "resolve_all proto c declared memo [] = Inr memo"
| "resolve_all proto c declared memo (name # names) = (case resolve_name proto c declared [] memo name of
     Inl e \<Rightarrow> Inl e | Inr (memo', value) \<Rightarrow> resolve_all proto c declared memo' names)"

definition resolve_environment :: "(string \<Rightarrow> string option) \<Rightarrow> environment_input \<Rightarrow> environment_error + entries" where
  "resolve_environment proto i =
    (let declared = declared_entries i in resolve_all proto (ei_context i) declared [] (map fst declared))"

section \<open>What the values mean\<close>

text \<open>
  The value of a name and the text of a list of parts, without memo and stack: a declared name has the text of its
  raw value, any other the inherited one.
\<close>

inductive has_value :: "(string \<Rightarrow> string option) \<Rightarrow> template_context \<Rightarrow> entries \<Rightarrow> string \<Rightarrow> string \<Rightarrow> bool"
  and has_text :: "(string \<Rightarrow> string option) \<Rightarrow> template_context \<Rightarrow> entries \<Rightarrow> template_part list \<Rightarrow> string \<Rightarrow> bool"
  for proto c declared where
  Own: "map_of declared name = Some raw \<Longrightarrow> has_text proto c declared (template_parts raw) value
     \<Longrightarrow> has_value proto c declared name value"
| Inherited: "map_of declared name = None \<Longrightarrow> inherited_value proto c name = Some value
     \<Longrightarrow> has_value proto c declared name value"
| End: "has_text proto c declared [] []"
| Letter: "has_text proto c declared parts text \<Longrightarrow> has_text proto c declared (Literal x # parts) (x # text)"
| Reference: "env_name variable = Some name \<Longrightarrow> has_value proto c declared name value
     \<Longrightarrow> has_text proto c declared parts text \<Longrightarrow> has_text proto c declared (Variable variable # parts) (value @ text)"
| Other: "env_name variable = None \<Longrightarrow> template_value_of c variable = Some v
     \<Longrightarrow> has_text proto c declared parts text
     \<Longrightarrow> has_text proto c declared (Variable variable # parts) (value_text v @ text)"

inductive_cases has_valueE: "has_value proto c declared name value"
inductive_cases has_text_NilE: "has_text proto c declared [] text"
inductive_cases has_text_LiteralE: "has_text proto c declared (Literal x # parts) text"
inductive_cases has_text_VariableE: "has_text proto c declared (Variable variable # parts) text"

lemma value_unique:
  "has_value proto c declared name value \<Longrightarrow> has_value proto c declared name value' \<Longrightarrow> value' = value"
  "has_text proto c declared parts text \<Longrightarrow> has_text proto c declared parts text' \<Longrightarrow> text' = text"
proof (induction arbitrary: value' and text' rule: has_value_has_text.inducts)
  case (Own name raw v)
  from Own(1,4) have "has_text proto c declared (template_parts raw) value'" by (auto elim: has_valueE)
  then show ?case by (rule Own(3))
next
  case (Inherited name v)
  from Inherited(3,1,2) show ?case by (auto elim: has_valueE)
next
  case End
  then show ?case by (rule has_text_NilE)
next
  case (Letter parts out x)
  from Letter(3) obtain rest where "text' = x # rest" "has_text proto c declared parts rest" by (rule has_text_LiteralE)
  with Letter(2) show ?case by simp
next
  case (Reference variable name v parts out)
  from Reference(6,1) obtain w rest where "text' = w @ rest" "has_value proto c declared name w"
    "has_text proto c declared parts rest"
    by (auto elim: has_text_VariableE)
  with Reference(3,5) show ?case by simp
next
  case (Other variable v parts out)
  from Other(5,1,2) obtain rest where "text' = value_text v @ rest" "has_text proto c declared parts rest"
    by (auto elim: has_text_VariableE)
  with Other(4) show ?case by simp
qed

definition memo_sound :: "(string \<Rightarrow> string option) \<Rightarrow> template_context \<Rightarrow> entries \<Rightarrow> entries \<Rightarrow> bool" where
  "memo_sound proto c declared memo \<longleftrightarrow>
    (\<forall>name value. map_of memo name = Some value \<longrightarrow> name \<in> dom (map_of declared) \<and> has_value proto c declared name value)"

lemma map_of_set_entry: "map_of (set_entry k v es) = (map_of es)(k \<mapsto> v)"
  by (induction k v es rule: set_entry.induct) (auto simp: fun_eq_iff)

lemma memo_sound_set:
  "memo_sound proto c declared memo \<Longrightarrow> map_of declared name = Some raw \<Longrightarrow> has_value proto c declared name value
   \<Longrightarrow> memo_sound proto c declared (set_entry name value memo)"
  by (auto simp: memo_sound_def map_of_set_entry)

text \<open>What a success says: the value is right, the memo stays right and only grows.\<close>

definition resolved_right :: "(string \<Rightarrow> string option) \<Rightarrow> template_context \<Rightarrow> entries \<Rightarrow> entries \<Rightarrow> entries \<Rightarrow> bool" where
  "resolved_right proto c declared memo memo' \<longleftrightarrow> memo_sound proto c declared memo' \<and> dom (map_of memo) \<subseteq> dom (map_of memo')"

lemma resolve_sound:
  "resolve_name proto c declared stack memo name = Inr (memo', value) \<Longrightarrow> memo_sound proto c declared memo \<Longrightarrow>
     has_value proto c declared name value \<and> resolved_right proto c declared memo memo' \<and>
     (name \<in> dom (map_of declared) \<longrightarrow> name \<in> dom (map_of memo'))"
  "resolve_pieces proto c declared stack memo parts = Inr (memo', text) \<Longrightarrow> memo_sound proto c declared memo \<Longrightarrow>
     has_text proto c declared parts text \<and> resolved_right proto c declared memo memo'"
proof (induction proto c declared stack memo name and proto c declared stack memo parts
    arbitrary: memo' "value" and memo' "text" rule: resolve_name_resolve_pieces.induct)
  case (1 proto c declared stack memo name)
  show ?case
  proof (cases "map_of memo name")
    case (Some w)
    with 1 show ?thesis by (auto simp: resolve_name.simps memo_sound_def resolved_right_def)
  next
    case none: None
    show ?thesis
    proof (cases "map_of declared name")
      case None
      with none 1 show ?thesis
        by (auto simp: resolve_name.simps resolved_right_def intro: Inherited split: option.splits)
    next
      case (Some raw)
      with none 1(2) obtain memo1 where free: "name \<notin> set stack"
        and r: "resolve_pieces proto c declared (stack @ [name]) memo (template_parts raw) = Inr (memo1, value)"
          "memo' = set_entry name value memo1"
        by (auto simp: resolve_name.simps split: sum.splits if_splits)
      from 1(1) [OF none Some free r(1) 1(3)] have t: "has_text proto c declared (template_parts raw) value"
        "resolved_right proto c declared memo memo1" by simp_all
      from Own [OF Some t(1)] have "has_value proto c declared name value" .
      with t(2) Some r(2) show ?thesis
        by (auto simp: resolved_right_def map_of_set_entry intro: memo_sound_set)
    qed
  qed
next
  case (2 proto c declared stack memo)
  then show ?case by (auto simp: resolve_pieces.simps resolved_right_def intro: End)
next
  case (3 proto c declared stack memo x parts)
  then show ?case by (auto simp: resolve_pieces.simps intro: Letter split: sum.splits)
next
  case (4 proto c declared stack memo variable parts)
  show ?case
  proof (cases "env_name variable")
    case None
    with 4(3) obtain v rest where v: "template_value_of c variable = Some v"
      "resolve_pieces proto c declared stack memo parts = Inr (memo', rest)" "text = value_text v @ rest"
      by (auto simp: resolve_pieces.simps split: option.splits sum.splits)
    have "(case env_name variable of Some name \<Rightarrow> resolve_name proto c declared stack memo name
       | None \<Rightarrow> (case template_value_of c variable of
           None \<Rightarrow> Inl (Unresolved_Variable variable) | Some v \<Rightarrow> Inr (memo, value_text v))) = Inr (memo, value_text v)"
      using None v by simp
    from 4(2) [OF this refl v(2) 4(4)] show ?thesis using None v by (auto intro: Other)
  next
    case (Some name)
    with 4(3) obtain memo1 w rest where v: "resolve_name proto c declared stack memo name = Inr (memo1, w)"
      "resolve_pieces proto c declared stack memo1 parts = Inr (memo', rest)" "text = w @ rest"
      by (auto simp: resolve_pieces.simps split: option.splits sum.splits)
    from 4(1) [OF Some v(1) 4(4)] have n: "has_value proto c declared name w" "resolved_right proto c declared memo memo1"
      by simp_all
    have "(case env_name variable of Some name \<Rightarrow> resolve_name proto c declared stack memo name
       | None \<Rightarrow> (case template_value_of c variable of
           None \<Rightarrow> Inl (Unresolved_Variable variable) | Some v \<Rightarrow> Inr (memo, value_text v))) = Inr (memo1, w)"
      using Some v by simp
    from 4(2) [OF this refl v(2)] n(2) have "has_text proto c declared parts rest" "resolved_right proto c declared memo1 memo'"
      by (simp_all add: resolved_right_def)
    with n v(3) Some show ?thesis by (auto simp: resolved_right_def intro: Reference)
  qed
qed

section \<open>References and cycles\<close>

definition names_in :: "template_part list \<Rightarrow> string set" where
  "names_in parts = {name. \<exists>variable. Variable variable \<in> set parts \<and> env_name variable = Some name}"

text \<open>Which declared variable refers to which.\<close>

definition references :: "entries \<Rightarrow> (string \<times> string) set" where
  "references declared = {(name, other). \<exists>raw. map_of declared name = Some raw \<and> other \<in> names_in (template_parts raw) \<and>
     other \<in> dom (map_of declared)}"

lemma names_in_simps [simp]:
  "names_in [] = {}" "names_in (Literal x # parts) = names_in parts"
  "names_in (Variable variable # parts) = (case env_name variable of None \<Rightarrow> names_in parts | Some name \<Rightarrow> insert name (names_in parts))"
  by (auto simp: names_in_def split: option.splits)

lemma references_source: "(name, other) \<in> references declared \<Longrightarrow> name \<in> dom (map_of declared) \<and> other \<in> dom (map_of declared)"
  by (auto simp: references_def)

lemma finite_references: "finite (references declared)"
  by (rule finite_subset [of _ "dom (map_of declared) \<times> dom (map_of declared)"])
    (auto simp: finite_dom_map_of dest: references_source)

lemma value_accessible:
  "has_value proto c declared name v \<Longrightarrow> name \<in> Wellfounded.acc ((references declared)\<inverse>)"
  "has_text proto c declared parts out \<Longrightarrow> names_in parts \<subseteq> Wellfounded.acc ((references declared)\<inverse>)"
proof (induction rule: has_value_has_text.inducts)
  case (Own name raw v)
  show ?case by (rule Wellfounded.accI) (use Own in \<open>auto simp: references_def\<close>)
next
  case (Inherited name v)
  show ?case by (rule Wellfounded.accI) (use Inherited in \<open>auto simp: references_def\<close>)
qed auto

lemma accessible_acyclic: "name \<in> Wellfounded.acc (r\<inverse>) \<Longrightarrow> (name, name) \<notin> r\<^sup>+"
proof (induction rule: Wellfounded.acc_induct_rule)
  case (1 name)
  show ?case
  proof
    assume "(name, name) \<in> r\<^sup>+"
    then obtain m where "(name, m) \<in> r" "(m, name) \<in> r\<^sup>*" by (meson tranclD)
    then have "(m, m) \<in> r\<^sup>+" by (meson rtrancl_into_trancl1)
    with 1(2) [of m] \<open>(name, m) \<in> r\<close> show False by simp
  qed
qed

definition avoids :: "entries \<Rightarrow> string list \<Rightarrow> string \<Rightarrow> bool" where
  "avoids declared stack name \<longleftrightarrow> (\<forall>s\<in>set stack. (name, s) \<notin> (references declared)\<^sup>*)"

lemma resolve_complete:
  "has_value proto c declared name v \<Longrightarrow> memo_sound proto c declared memo \<Longrightarrow>
     name \<in> dom (map_of declared) \<longrightarrow> avoids declared stack name \<Longrightarrow>
     \<exists>memo'. resolve_name proto c declared stack memo name = Inr (memo', v)"
  "has_text proto c declared parts out \<Longrightarrow> memo_sound proto c declared memo \<Longrightarrow>
     \<forall>m\<in>names_in parts \<inter> dom (map_of declared). avoids declared stack m \<Longrightarrow>
     \<exists>memo'. resolve_pieces proto c declared stack memo parts = Inr (memo', out)"
proof (induction arbitrary: stack memo and stack memo rule: has_value_has_text.inducts)
  case (Own name raw v)
  have val: "has_value proto c declared name v" by (rule has_value_has_text.Own) (use Own in auto)
  show ?case
  proof (cases "map_of memo name")
    case (Some w)
    with Own(4) have "has_value proto c declared name w" by (auto simp: memo_sound_def)
    from value_unique(1) [OF val this] Some show ?thesis by (auto simp: resolve_name.simps)
  next
    case None
    have av: "avoids declared stack name" using Own(1,5) by auto
    then have free: "name \<notin> set stack" by (auto simp: avoids_def)
    have "avoids declared (stack @ [name]) m" if m: "m \<in> names_in (template_parts raw) \<inter> dom (map_of declared)" for m
    proof -
      from m Own(1) have r: "(name, m) \<in> references declared" by (auto simp: references_def)
      have "(m, name) \<notin> (references declared)\<^sup>*"
        using accessible_acyclic [OF value_accessible(1) [OF val]] r by (meson rtrancl_into_trancl2)
      moreover have "(m, s) \<notin> (references declared)\<^sup>*" if "s \<in> set stack" for s
        using av that r by (auto simp: avoids_def intro: converse_rtrancl_into_rtrancl)
      ultimately show ?thesis by (auto simp: avoids_def)
    qed
    with Own(3) [OF Own(4), of "stack @ [name]"] obtain memo' where
      "resolve_pieces proto c declared (stack @ [name]) memo (template_parts raw) = Inr (memo', v)" by blast
    with None free Own(1) show ?thesis by (auto simp: resolve_name.simps)
  qed
next
  case (Inherited name v)
  then have "map_of memo name = None" by (cases "map_of memo name") (auto simp: memo_sound_def)
  with Inherited show ?case by (simp add: resolve_name.simps)
next
  case End
  then show ?case by (simp add: resolve_pieces.simps)
next
  case (Letter parts out x)
  from Letter(2) [OF Letter(3), of stack] Letter(4) show ?case by (auto simp: resolve_pieces.simps)
next
  case (Reference variable name v parts out)
  from Reference(1,7) have av: "name \<in> dom (map_of declared) \<longrightarrow> avoids declared stack name"
    "\<forall>m\<in>names_in parts \<inter> dom (map_of declared). avoids declared stack m" by auto
  from Reference(3) [OF Reference(6) av(1)] obtain memo1 where
    r: "resolve_name proto c declared stack memo name = Inr (memo1, v)" by blast
  with resolve_sound(1) [OF r Reference(6)] have "memo_sound proto c declared memo1" by (simp add: resolved_right_def)
  from Reference(5) [OF this av(2)] r Reference(1) show ?case by (auto simp: resolve_pieces.simps)
next
  case (Other variable v parts out)
  from Other(4) [OF Other(5), of stack] Other(1,2,6) show ?case by (auto simp: resolve_pieces.simps)
qed

section \<open>The whole environment\<close>

lemma resolve_all_sound:
  "resolve_all proto c declared memo names = Inr r \<Longrightarrow> memo_sound proto c declared memo \<Longrightarrow> set names \<subseteq> dom (map_of declared)
   \<Longrightarrow> resolved_right proto c declared memo r \<and> set names \<subseteq> dom (map_of r) \<and> (\<forall>n\<in>set names. \<exists>v. has_value proto c declared n v)"
proof (induction proto c declared memo names arbitrary: r rule: resolve_all.induct)
  case (1 proto c declared memo)
  then show ?case by (simp add: resolved_right_def)
next
  case (2 proto c declared memo name names)
  from 2(2) obtain memo1 v where v: "resolve_name proto c declared [] memo name = Inr (memo1, v)"
    "resolve_all proto c declared memo1 names = Inr r" by (auto split: sum.splits)
  from resolve_sound(1) [OF v(1) 2(3)] 2(4) have s: "has_value proto c declared name v"
    "resolved_right proto c declared memo memo1" "name \<in> dom (map_of memo1)" by auto
  from 2(1) [OF v(1) HOL.refl v(2)] s(2) 2(4) have "resolved_right proto c declared memo1 r" "set names \<subseteq> dom (map_of r)"
    "\<forall>n\<in>set names. \<exists>v. has_value proto c declared n v"
    by (auto simp: resolved_right_def)
  moreover from this(1) s(2) have "resolved_right proto c declared memo r" unfolding resolved_right_def by blast
  ultimately show ?case using s by (auto simp: resolved_right_def)
qed

lemma resolve_all_complete:
  "memo_sound proto c declared memo \<Longrightarrow> \<forall>n\<in>set names. \<exists>v. has_value proto c declared n v
   \<Longrightarrow> \<exists>r. resolve_all proto c declared memo names = Inr r"
proof (induction names arbitrary: memo)
  case (Cons name names)
  then obtain v where "has_value proto c declared name v" by auto
  from resolve_complete(1) [OF this Cons.prems(1), of "[]"] obtain memo1 where
    r: "resolve_name proto c declared [] memo name = Inr (memo1, v)" by (auto simp: avoids_def)
  with resolve_sound(1) [OF r Cons.prems(1)] have "memo_sound proto c declared memo1" by (simp add: resolved_right_def)
  with Cons.IH [OF this] Cons.prems(2) r show ?case by auto
qed simp

lemma memo_sound_Nil: "memo_sound proto c declared []"
  by (simp add: memo_sound_def)

lemma set_entry_keys: "fst ` set (set_entry k v es) = insert k (fst ` set es)"
  by (induction k v es rule: set_entry.induct) auto

lemma set_entry_distinct: "distinct (map fst es) \<Longrightarrow> distinct (map fst (set_entry k v es))"
  by (induction k v es rule: set_entry.induct) (auto simp: set_entry_keys)

lemma spread_distinct: "distinct (map fst target) \<Longrightarrow> distinct (map fst (spread target layer))"
proof (cases layer)
  case (Some es)
  assume "distinct (map fst target)"
  then have "distinct (map fst (foldl (\<lambda>acc (k, v). set_entry k v acc) target es))"
    by (induction es arbitrary: target) (auto intro: set_entry_distinct)
  with Some show ?thesis by (simp add: spread_def)
qed (simp add: spread_def)

lemma declared_distinct: "distinct (map fst (declared_entries i))"
  by (simp add: declared_entries_def spread_distinct)

text \<open>Every variable that stands in a value has one: it is declared, inherited, or of the context.\<close>

definition variable_defined :: "(string \<Rightarrow> string option) \<Rightarrow> template_context \<Rightarrow> entries \<Rightarrow> string \<Rightarrow> bool" where
  "variable_defined proto c declared variable = (case env_name variable of
     Some name \<Rightarrow> name \<in> set (map fst declared) \<or> inherited_value proto c name \<noteq> None
   | None \<Rightarrow> template_value_of c variable \<noteq> None)"

fun part_defined :: "(string \<Rightarrow> string option) \<Rightarrow> template_context \<Rightarrow> entries \<Rightarrow> template_part \<Rightarrow> bool" where
  "part_defined proto c declared (Literal x) = True"
| "part_defined proto c declared (Variable variable) = variable_defined proto c declared variable"

definition all_defined :: "(string \<Rightarrow> string option) \<Rightarrow> template_context \<Rightarrow> entries \<Rightarrow> bool" where
  "all_defined proto c declared \<longleftrightarrow> list_all (\<lambda>(name, raw). list_all (part_defined proto c declared) (template_parts raw)) declared"

lemma has_value_in: "has_value proto c declared m v \<Longrightarrow> m \<in> set (map fst declared) \<or> inherited_value proto c m = Some v"
  by (force elim!: has_valueE dest: map_of_SomeD)

lemma text_defined: "has_text proto c declared parts out \<Longrightarrow> list_all (part_defined proto c declared) parts"
proof (induction parts arbitrary: out)
  case (Cons p parts)
  show ?case
  proof (cases p)
    case (Literal x)
    with Cons show ?thesis by (auto elim: has_text_LiteralE)
  next
    case (Variable variable)
    with Cons.prems have "has_text proto c declared (Variable variable # parts) out" by simp
    then show ?thesis
    proof cases
      case (Reference name v rest)
      with has_value_in [of proto c declared name v] Cons.IH Variable show ?thesis by (auto simp: variable_defined_def)
    next
      case (Other v rest)
      with Cons.IH Variable show ?thesis by (auto simp: variable_defined_def)
    qed
  qed
qed simp

lemma text_exists:
  "list_all (part_defined proto c declared) parts \<Longrightarrow>
   (\<And>m. m \<in> names_in parts \<Longrightarrow> m \<in> dom (map_of declared) \<Longrightarrow> \<exists>v. has_value proto c declared m v) \<Longrightarrow>
   \<exists>out. has_text proto c declared parts out"
proof (induction parts)
  case Nil
  show ?case by (rule exI) (rule End)
next
  case (Cons p parts)
  from Cons.prems(1) have d: "part_defined proto c declared p" "list_all (part_defined proto c declared) parts" by simp_all
  have "names_in parts \<subseteq> names_in (p # parts)" by (cases p) (auto split: option.splits)
  with Cons.prems(2) Cons.IH [OF d(2)] obtain rest where rest: "has_text proto c declared parts rest" by blast
  show ?case
  proof (cases p)
    case (Literal x)
    with rest show ?thesis by (auto intro: Letter)
  next
    case (Variable variable)
    show ?thesis
    proof (cases "env_name variable")
      case None
      with d(1) Variable rest show ?thesis by (auto simp: variable_defined_def intro: Other)
    next
      case (Some name)
      have "\<exists>v. has_value proto c declared name v"
      proof (cases "map_of declared name")
        case None
        then have "name \<notin> set (map fst declared)" by (simp add: map_of_eq_None_iff)
        with d(1) Variable Some obtain v where "inherited_value proto c name = Some v" by (auto simp: variable_defined_def)
        with None show ?thesis by (blast intro: Inherited)
      next
        case raw: (Some raw)
        then show ?thesis using Cons.prems(2) [of name] Variable Some by auto
      qed
      with Some Variable rest show ?thesis by (blast intro: Reference)
    qed
  qed
qed

lemma declared_have_values:
  assumes "acyclic (references declared)" and "all_defined proto c declared" and "name \<in> dom (map_of declared)"
  shows "\<exists>v. has_value proto c declared name v"
proof -
  have "wf ((references declared)\<inverse>)" by (rule finite_acyclic_wf_converse [OF finite_references assms(1)])
  then show ?thesis using assms(3)
  proof (induction name rule: wf_induct_rule)
    case (less name)
    from less.prems obtain raw where raw: "map_of declared name = Some raw" by auto
    then have "list_all (part_defined proto c declared) (template_parts raw)"
      using assms(2) map_of_SomeD [OF raw] by (auto simp: all_defined_def list_all_iff)
    moreover have "\<exists>v. has_value proto c declared m v" if "m \<in> names_in (template_parts raw)" "m \<in> dom (map_of declared)" for m
      using less.IH [of m] that raw by (auto simp: references_def)
    ultimately obtain out where "has_text proto c declared (template_parts raw) out" using text_exists by blast
    with raw show ?case by (blast intro: Own)
  qed
qed

text \<open>The text of a part under an assignment of the declared variables.\<close>

fun filled :: "(string \<Rightarrow> string option) \<Rightarrow> template_context \<Rightarrow> (string \<Rightarrow> string option) \<Rightarrow> template_part \<Rightarrow> string" where
  "filled proto c \<sigma> (Literal x) = [x]"
| "filled proto c \<sigma> (Variable variable) = (case env_name variable of
     Some name \<Rightarrow> (case \<sigma> name of Some v \<Rightarrow> v | None \<Rightarrow> case_option [] id (inherited_value proto c name))
   | None \<Rightarrow> case_option [] value_text (template_value_of c variable))"

definition filled_values ::
  "(string \<Rightarrow> string option) \<Rightarrow> environment_input \<Rightarrow> (string \<Rightarrow> string option) \<Rightarrow> string \<Rightarrow> string option" where
  "filled_values proto i \<sigma> name = map_option (\<lambda>raw. concat (map (filled proto (ei_context i) \<sigma>) (template_parts raw)))
     (map_of (declared_entries i) name)"

lemma text_filled:
  assumes "dom \<sigma> = dom (map_of declared)"
    and "\<And>m v. m \<in> dom (map_of declared) \<Longrightarrow> has_value proto c declared m v \<Longrightarrow> \<sigma> m = Some v"
  shows "has_text proto c declared parts out \<Longrightarrow> concat (map (filled proto c \<sigma>) parts) = out"
proof (induction parts arbitrary: out)
  case Nil
  then show ?case by (auto elim: has_text_NilE)
next
  case (Cons p parts)
  show ?case
  proof (cases p)
    case (Literal x)
    with Cons show ?thesis by (auto elim: has_text_LiteralE)
  next
    case (Variable variable)
    with Cons.prems have "has_text proto c declared (Variable variable # parts) out" by simp
    then show ?thesis
    proof cases
      case (Reference name v rest)
      have "(case \<sigma> name of Some v \<Rightarrow> v | None \<Rightarrow> case_option [] id (inherited_value proto c name)) = v"
      proof (cases "name \<in> dom (map_of declared)")
        case True
        with assms(2) Reference show ?thesis by simp
      next
        case False
        with assms(1) have "\<sigma> name = None" by auto
        with False Reference(3) show ?thesis by (auto elim: has_valueE)
      qed
      with Reference Cons.IH Variable show ?thesis by simp
    next
      case (Other v rest)
      with Cons.IH Variable show ?thesis by simp
    qed
  qed
qed

lemma resolved_values:
  assumes "resolve_environment proto i = Inr r"
  shows "dom (map_of r) = dom (map_of (declared_entries i))" "memo_sound proto (ei_context i) (declared_entries i) r"
    "\<And>n. n \<in> dom (map_of (declared_entries i)) \<Longrightarrow> \<exists>v. has_value proto (ei_context i) (declared_entries i) n v"
proof -
  from assms have "resolve_all proto (ei_context i) (declared_entries i) [] (map fst (declared_entries i)) = Inr r"
    by (simp add: resolve_environment_def Let_def)
  from resolve_all_sound [OF this memo_sound_Nil] have r: "memo_sound proto (ei_context i) (declared_entries i) r"
    "dom (map_of (declared_entries i)) \<subseteq> dom (map_of r)"
    "\<forall>n\<in>set (map fst (declared_entries i)). \<exists>v. has_value proto (ei_context i) (declared_entries i) n v"
    by (simp_all add: resolved_right_def dom_map_of_conv_image_fst)
  then show "dom (map_of r) = dom (map_of (declared_entries i))" by (fastforce simp: memo_sound_def)
  show "memo_sound proto (ei_context i) (declared_entries i) r" by (rule r(1))
  show "\<exists>v. has_value proto (ei_context i) (declared_entries i) n v" if "n \<in> dom (map_of (declared_entries i))" for n
    using r(3) that by (auto simp: dom_map_of_conv_image_fst)
qed

lemma resolved_entry:
  assumes "resolve_environment proto i = Inr r" and "has_value proto (ei_context i) (declared_entries i) n v"
    and "n \<in> dom (map_of (declared_entries i))"
  shows "map_of r n = Some v"
proof -
  from resolved_values(1) [OF assms(1)] assms(3) obtain w where w: "map_of r n = Some w" by auto
  with resolved_values(2) [OF assms(1)] have "has_value proto (ei_context i) (declared_entries i) n w" by (simp add: memo_sound_def)
  from value_unique(1) [OF this assms(2)] w show ?thesis by simp
qed

lemma filled_unique:
  assumes eqn: "\<sigma> = filled_values proto i \<sigma>"
  shows "has_value proto (ei_context i) (declared_entries i) name v \<Longrightarrow> name \<in> dom (map_of (declared_entries i)) \<Longrightarrow> \<sigma> name = Some v"
    and "has_text proto (ei_context i) (declared_entries i) parts out \<Longrightarrow> concat (map (filled proto (ei_context i) \<sigma>) parts) = out"
proof (induction rule: has_value_has_text.inducts)
  case (Own name raw v)
  then have "filled_values proto i \<sigma> name = Some v" by (simp add: filled_values_def)
  then show ?case by (subst eqn)
next
  case (Reference variable name v parts out)
  show ?case
  proof (cases "name \<in> dom (map_of (declared_entries i))")
    case True
    with Reference show ?thesis by simp
  next
    case False
    have "\<sigma> name = None" by (subst eqn) (use False in \<open>auto simp: filled_values_def\<close>)
    moreover have "inherited_value proto (ei_context i) name = Some v" using Reference(2) False by (auto elim: has_valueE)
    ultimately show ?thesis using Reference by simp
  qed
qed auto

section \<open>Properties\<close>

text \<open>
  C9. A task's variables are the unique solution of its definitions: when the environment resolves, its values
  are the only assignment under which every variable is its template with the values of what it refers to put in,
  whatever the order the variables are resolved in; a value put in is never looked at again.
\<close>

theorem environment_is_unique_solution:
  assumes "resolve_environment proto i = Inr r"
  shows "{\<sigma>. \<sigma> = filled_values proto i \<sigma>} = {map_of r}"
proof -
  note dom = resolved_values(1) [OF assms] and vals = resolved_values(3) [OF assms]
  have "filled_values proto i (map_of r) name = map_of r name" for name
  proof (cases "map_of (declared_entries i) name")
    case None
    with dom have "map_of r name = None" by blast
    with None show ?thesis by (simp add: filled_values_def)
  next
    case (Some raw)
    with vals [of name] obtain v where v: "has_value proto (ei_context i) (declared_entries i) name v" by auto
    with Some have "has_text proto (ei_context i) (declared_entries i) (template_parts raw) v" by (auto elim: has_valueE)
    then have "concat (map (filled proto (ei_context i) (map_of r)) (template_parts raw)) = v"
      using resolved_entry [OF assms] by (intro text_filled [OF dom]) auto
    with Some resolved_entry [OF assms v] show ?thesis by (simp add: filled_values_def domIff)
  qed
  then have solves: "map_of r = filled_values proto i (map_of r)" by (simp add: fun_eq_iff)
  have unique: "\<sigma> = map_of r" if s: "\<sigma> = filled_values proto i \<sigma>" for \<sigma>
  proof
    fix name
    show "\<sigma> name = map_of r name"
    proof (cases "name \<in> dom (map_of (declared_entries i))")
      case True
      with vals obtain v where v: "has_value proto (ei_context i) (declared_entries i) name v" by blast
      from filled_unique(1) [OF s v True] resolved_entry [OF assms v True] show ?thesis by simp
    next
      case False
      have "\<sigma> name = None" by (subst s) (use False in \<open>auto simp: filled_values_def\<close>)
      moreover have "map_of r name = None" using False dom by blast
      ultimately show ?thesis by simp
    qed
  qed
  from solves unique show ?thesis by blast
qed

definition demo_environment :: environment_input where
  "demo_environment = \<lparr> ei_automatic = Some [(''P'', ''4'')], ei_workspace = Some [(''U'', ''h:{env.P}'')], ei_repo = None,
     ei_task = None, ei_context = demo_context \<rparr>"

lemma demo_pieces: "template_parts ''h:{env.P}'' = [Literal CHR ''h'', Literal CHR '':'', Variable ''env.P'']"
  "template_parts ''4'' = [Literal CHR ''4'']"
  by (simp_all add: template_parts.simps brace_def Let_def)

lemma demo_resolves: "resolve_environment (\<lambda>_. None) demo_environment = Inr [(''P'', ''4''), (''U'', ''h:4'')]"
  by (simp add: resolve_environment_def demo_environment_def declared_entries_def spread_def Let_def
      resolve_name.simps resolve_pieces.simps demo_pieces env_name_def starts_with_def)

theorem environment_is_unique_solution_witness:
  "{\<sigma>. \<sigma> = filled_values (\<lambda>_. None) demo_environment \<sigma>} = {map_of [(''P'', ''4''), (''U'', ''h:4'')]}"
  by (rule environment_is_unique_solution [OF demo_resolves])

text \<open>
  C38. The environment resolves exactly when every variable that stands in a value is declared, inherited or known
  to the context, and no variable refers to itself through others; the resolution always ends.
\<close>

theorem environment_resolves_iff:
  "(\<exists>r. resolve_environment proto i = Inr r) \<longleftrightarrow>
    acyclic (references (declared_entries i)) \<and> all_defined proto (ei_context i) (declared_entries i)"
proof
  assume "\<exists>r. resolve_environment proto i = Inr r"
  then obtain r where r: "resolve_environment proto i = Inr r" by blast
  note vals = resolved_values(3) [OF r]
  have "(name, name) \<notin> (references (declared_entries i))\<^sup>+" for name
  proof
    assume cycle: "(name, name) \<in> (references (declared_entries i))\<^sup>+"
    then have "name \<in> dom (map_of (declared_entries i))" by (meson tranclD references_source)
    with vals obtain v where "has_value proto (ei_context i) (declared_entries i) name v" by blast
    from accessible_acyclic [OF value_accessible(1) [OF this]] cycle show False by simp
  qed
  moreover have "list_all (part_defined proto (ei_context i) (declared_entries i)) (template_parts raw)"
    if "(name, raw) \<in> set (declared_entries i)" for name raw
  proof -
    from that have m: "map_of (declared_entries i) name = Some raw" using declared_distinct by (simp add: map_of_is_SomeI)
    with vals [of name] obtain v where "has_value proto (ei_context i) (declared_entries i) name v" by auto
    with m have "has_text proto (ei_context i) (declared_entries i) (template_parts raw) v" by (auto elim: has_valueE)
    then show ?thesis by (rule text_defined)
  qed
  ultimately show "acyclic (references (declared_entries i)) \<and> all_defined proto (ei_context i) (declared_entries i)"
    by (auto simp: acyclic_def all_defined_def list_all_iff)
next
  assume "acyclic (references (declared_entries i)) \<and> all_defined proto (ei_context i) (declared_entries i)"
  then have "\<forall>n\<in>set (map fst (declared_entries i)). \<exists>v. has_value proto (ei_context i) (declared_entries i) n v"
    using declared_have_values by (simp add: dom_map_of_conv_image_fst)
  from resolve_all_complete [OF memo_sound_Nil this] show "\<exists>r. resolve_environment proto i = Inr r"
    by (simp add: resolve_environment_def Let_def)
qed

text \<open>
  \<open>inherited[name]\<close> also finds what every object inherits: a template may refer to \<open>{env.constructor}\<close>, and the text
  of that function is put in instead of a refusal.
\<close>

lemma inherited_members_resolve:
  "tc_env c = None \<Longrightarrow> proto ''constructor'' = Some out \<Longrightarrow> inherited_value proto c ''constructor'' = Some out"
  by (simp add: inherited_value_def)

end
