(* ===== verification/Task_Resolver.thy ===== *)
theory Task_Resolver
  imports Environment Proxy_Hostname
begin

text \<open>
  From a configured task to what is started (\<open>packages/core/src/runtime/task-resolver.ts\<close>): the choice of the
  command, its variables, the guard of shell commands, the variables handed to a worker, and the message for an
  unknown task with its nearest names. What the validation of the configuration (\<open>parseWtmConfig\<close>, a zod schema)
  answers is an argument, and so is the resolution of a healthcheck, which parses a URL. A task table is the list
  of its entries; a name that every object inherits, such as \<open>constructor\<close>, is not considered as a task's name.
\<close>

section \<open>Data\<close>

datatype task_command = Shell_Text string | Argv "string list"

record 'h task_config =
  tk_run :: "task_command option"
  tk_main :: "task_command option"
  tk_worktree :: "task_command option"
  tk_shell :: "bool option"
  tk_cwd :: "string option"
  tk_background :: "bool option"
  tk_healthcheck :: "'h option"
  tk_queue_env :: "entries option"
  tk_singleton :: "bool option"
  tk_env :: "entries option"
  tk_worker_vars :: "string list option"

record 'h wtm_config =
  wc_tasks :: "(string \<times> 'h task_config) list option"
  wc_environment :: "entries option"

record ('h, 'k) resolution_input =
  ri_config :: "string + 'h wtm_config"
  ri_task_name :: string
  ri_is_main :: bool
  ri_context :: template_context
  ri_queued :: bool
  ri_automatic :: "entries option"
  ri_repo :: "entries option"
  ri_proto :: "string \<Rightarrow> string option"
  ri_healthcheck :: "'h \<Rightarrow> (string \<Rightarrow> string template_error + string) \<Rightarrow> 'k option"

record 'k resolved_task_view =
  rt_argv :: "string list"
  rt_shell :: bool
  rt_cwd :: string
  rt_env_delta :: entries
  rt_background :: bool
  rt_singleton :: bool
  rt_healthcheck :: "'k option"

text \<open>The throws of \<open>resolveTask\<close>: \<open>WtmTaskResolutionError\<close> with its message, and what the resolutions throw.\<close>

datatype task_error = Resolution_Error string | Environment_Error environment_error | Template_Failed string

section \<open>The nearest names\<close>

text \<open>\<open>row[index] ?? 0\<close>\<close>

definition or_zero :: "nat list \<Rightarrow> nat \<Rightarrow> nat" where
  "or_zero xs i = (if i < length xs then xs ! i else 0)"

definition next_cell :: "string \<Rightarrow> string \<Rightarrow> nat list \<Rightarrow> nat \<Rightarrow> nat list \<Rightarrow> nat \<Rightarrow> nat" where
  "next_cell left right previous row current column =
    (let substituted = or_zero previous (column - 1) + (if left ! (row - 1) = right ! (column - 1) then 0 else 1)
     in min (min substituted (or_zero previous column + 1)) (or_zero current (column - 1) + 1))"

definition next_row :: "string \<Rightarrow> string \<Rightarrow> nat list \<Rightarrow> nat \<Rightarrow> nat list" where
  "next_row left right previous row =
    foldl (\<lambda>current column. current @ [next_cell left right previous row current column]) [row] [1..<Suc (length right)]"

definition edit_distance :: "string \<Rightarrow> string \<Rightarrow> nat" where
  "edit_distance left right =
    or_zero (foldl (next_row left right) [0..<length right + 1] [1..<Suc (length left)]) (length right)"

definition contains_text :: "string \<Rightarrow> string \<Rightarrow> bool" where
  "contains_text s part \<longleftrightarrow> list_ex (\<lambda>k. starts_with part (drop k s)) [0..<Suc (length s)]"

definition match_tier :: "string \<Rightarrow> string \<Rightarrow> nat" where
  "match_tier name target = (if name = target then 0
     else if starts_with target name \<or> starts_with name target then 1
     else if contains_text name target \<or> contains_text target name then 2 else 3)"

text \<open>Sorting by tier, then distance, then name in code-unit order.\<close>

definition rank_by_closeness :: "string list \<Rightarrow> string \<Rightarrow> string list" where
  "rank_by_closeness names task_name = (let target = lower_case task_name in
     sort_key (\<lambda>name. (match_tier (lower_case name) target, edit_distance (lower_case name) target, name)) names)"

text \<open>\<open>JSON.stringify\<close> of a text.\<close>

definition hex_digit :: "nat \<Rightarrow> char" where
  "hex_digit n = (if n < 10 then char_of (48 + n) else char_of (87 + n))"

definition json_char :: "char \<Rightarrow> string" where
  "json_char c = (let n = (of_char c :: nat) in
     if n = 34 \<or> n = 92 then [CHR 0x5C, c]
     else if n = 8 then [CHR 0x5C, CHR ''b''] else if n = 12 then [CHR 0x5C, CHR ''f'']
     else if n = 10 then [CHR 0x5C, CHR ''n''] else if n = 13 then [CHR 0x5C, CHR ''r'']
     else if n = 9 then [CHR 0x5C, CHR ''t'']
     else if n < 32 then [CHR 0x5C, CHR ''u'', CHR ''0'', CHR ''0'', hex_digit (n div 16), hex_digit (n mod 16)]
     else [c])"

definition json_text :: "string \<Rightarrow> string" where
  "json_text s = [CHR 0x22] @ concat (map json_char s) @ [CHR 0x22]"

definition word_char :: "char \<Rightarrow> bool" where
  "word_char c \<longleftrightarrow> (let n = (of_char c :: nat) in 48 \<le> n \<and> n \<le> 57 \<or> 65 \<le> n \<and> n \<le> 90 \<or> 97 \<le> n \<and> n \<le> 122)"

definition bare_toml_key :: "string \<Rightarrow> bool" where
  "bare_toml_key s \<longleftrightarrow> s \<noteq> [] \<and> list_all (\<lambda>c. word_char c \<or> c = CHR ''_'' \<or> c = CHR ''-'') s"

definition toml_key :: "string \<Rightarrow> string" where
  "toml_key s = (if bare_toml_key s then s else json_text s)"

definition max_listed_tasks :: nat where
  "max_listed_tasks = 10"

definition unknown_task_message :: "string \<Rightarrow> string list \<Rightarrow> string" where
  "unknown_task_message task_name known =
    (if known = [] then ''Unknown task: '' @ task_name @ ''. This workspace defines no tasks. Add a [tasks.'' @ toml_key task_name
       @ ''] block with a run command to wtm.toml.''
     else let listed = take max_listed_tasks (rank_by_closeness known task_name);
              remaining = length known - length listed;
              more_text = (if remaining = 0 then [] else '' and '' @ show_int (int remaining) @ '' more'')
          in ''Unknown task: '' @ task_name @ ''. Known tasks: '' @ join_with '', '' listed @ more_text @ ''.'')"

section \<open>Commands\<close>

definition shell_safe :: "string \<Rightarrow> bool" where
  "shell_safe s \<longleftrightarrow> list_all (\<lambda>c. word_char c \<or> c \<in> set ''._/-'') s"

text \<open>The guard: a refusal is the message.\<close>

definition assert_shell_safe_branch :: "string \<Rightarrow> string \<Rightarrow> string \<Rightarrow> string option" where
  "assert_shell_safe_branch task_name variable v =
    (if variable \<noteq> ''branch'' \<or> shell_safe v then None
     else Some (''Task '' @ task_name @ '' runs through a shell and its command uses {branch}, but the current branch ''
       @ ''name contains characters that are unsafe to place unescaped in a shell command. Use ''
       @ ''{branch.slug} instead, which is shell-safe by construction.''))"

fun worker_pairs :: "string \<Rightarrow> entries \<Rightarrow> string list \<Rightarrow> string + string list" where
  "worker_pairs task_name environment [] = Inr []"
| "worker_pairs task_name environment (name # names) = (case map_of environment name of
     None \<Rightarrow> Inl (''Task '' @ task_name @ '' lists '' @ name @ '' in worker_vars, but no WTM environment layer sets it. ''
       @ ''Set it in [environment], [repos.<name>.environment] or [tasks.'' @ toml_key task_name @ ''.env].'')
   | Some v \<Rightarrow> (case worker_pairs task_name environment names of
       Inl e \<Rightarrow> Inl e | Inr pairs \<Rightarrow> Inr ([''--var'', name @ '':'' @ v] @ pairs)))"

definition with_worker_vars :: "string list \<Rightarrow> string \<Rightarrow> string list \<Rightarrow> entries \<Rightarrow> string + string list" where
  "with_worker_vars argv task_name names environment =
    (if names = [] then Inr argv else case worker_pairs task_name environment names of
       Inl e \<Rightarrow> Inl e
     | Inr pairs \<Rightarrow> Inr (takeWhile (\<lambda>a. a \<noteq> ''--'') argv @ pairs @ dropWhile (\<lambda>a. a \<noteq> ''--'') argv))"

definition template_failure :: "string template_error \<Rightarrow> task_error" where
  "template_failure e = (case e of Unresolved variable \<Rightarrow> Template_Failed variable | Guard_Rejected message \<Rightarrow> Resolution_Error message)"

fun resolve_arguments :: "template_context \<Rightarrow> (string \<Rightarrow> string \<Rightarrow> string option) \<Rightarrow> string list \<Rightarrow> task_error + string list" where
  "resolve_arguments c guard [] = Inr []"
| "resolve_arguments c guard (a # as) = (case resolve_template c guard a of
     Inl e \<Rightarrow> Inl (template_failure e)
   | Inr out \<Rightarrow> (case resolve_arguments c guard as of Inl e \<Rightarrow> Inl e | Inr outs \<Rightarrow> Inr (out # outs)))"

definition command_arguments :: "task_command \<Rightarrow> string list" where
  "command_arguments command = (case command of Shell_Text s \<Rightarrow> [s] | Argv as \<Rightarrow> as)"

section \<open>The task\<close>

definition task_environment :: "('h, 'k) resolution_input \<Rightarrow> 'h wtm_config \<Rightarrow> 'h task_config \<Rightarrow> environment_input" where
  "task_environment i config task = \<lparr> ei_automatic = ri_automatic i, ei_workspace = wc_environment config, ei_repo = ri_repo i,
     ei_task = (if tk_env task = None \<and> (\<not> ri_queued i \<or> tk_queue_env task = None) then None
       else Some (spread (spread [] (tk_env task)) (if ri_queued i then tk_queue_env task else None))),
     ei_context = ri_context i \<rparr>"

definition with_environment :: "template_context \<Rightarrow> entries \<Rightarrow> template_context" where
  "with_environment c delta = c\<lparr>tc_env := Some (spread (spread [] (tc_env c)) (Some (map (\<lambda>(k, v). (k, Some v)) delta)))\<rparr>"

definition no_guard :: "string \<Rightarrow> string \<Rightarrow> string option" where
  "no_guard variable v = None"

definition selected_command :: "bool \<Rightarrow> 'h task_config \<Rightarrow> task_command option" where
  "selected_command is_main task = (case tk_run task of Some command \<Rightarrow> Some command
     | None \<Rightarrow> if is_main then tk_main task else tk_worktree task)"

definition resolved_argv ::
  "('h, 'k) resolution_input \<Rightarrow> 'h task_config \<Rightarrow> task_command \<Rightarrow> entries \<Rightarrow> task_error + string list" where
  "resolved_argv i task command delta =
    (case resolve_arguments (with_environment (ri_context i) delta)
         (if tk_shell task = Some True then assert_shell_safe_branch (ri_task_name i) else no_guard) (command_arguments command) of
       Inl e \<Rightarrow> Inl e
     | Inr resolved \<Rightarrow> (case with_worker_vars resolved (ri_task_name i) (case_option [] id (tk_worker_vars task)) delta of
         Inl message \<Rightarrow> Inl (Resolution_Error message) | Inr argv \<Rightarrow> Inr argv))"

definition resolved_healthcheck ::
  "('h, 'k) resolution_input \<Rightarrow> 'h task_config \<Rightarrow> template_context \<Rightarrow> task_error + 'k option" where
  "resolved_healthcheck i task c = (case tk_healthcheck task of None \<Rightarrow> Inr None
     | Some h \<Rightarrow> (case ri_healthcheck i h (resolve_template c no_guard) of
         None \<Rightarrow> Inl (Resolution_Error ''Task healthcheck URL cannot be resolved to a valid HTTP(S) URL without credentials or a fragment.'')
       | Some check \<Rightarrow> Inr (Some check)))"

definition resolve_selected ::
  "('h, 'k) resolution_input \<Rightarrow> 'h task_config \<Rightarrow> task_command \<Rightarrow> entries \<Rightarrow> task_error + 'k resolved_task_view" where
  "resolve_selected i task command delta =
    (let c = with_environment (ri_context i) delta in
     case resolved_argv i task command delta of
       Inl e \<Rightarrow> Inl e
     | Inr argv \<Rightarrow> (case (case tk_cwd task of Some cwd \<Rightarrow> Some cwd | None \<Rightarrow> tc_worktree_root (ri_context i)) of
         None \<Rightarrow> Inl (Resolution_Error (''Task '' @ ri_task_name i @ '' has no resolvable working directory.''))
       | Some raw_cwd \<Rightarrow> (case resolved_healthcheck i task c of
           Inl e \<Rightarrow> Inl e
         | Inr healthcheck \<Rightarrow> (case resolve_template c no_guard raw_cwd of
             Inl e \<Rightarrow> Inl (template_failure e)
           | Inr cwd \<Rightarrow> Inr \<lparr> rt_argv = argv, rt_shell = (tk_shell task = Some True), rt_cwd = cwd, rt_env_delta = delta,
               rt_background = case_option False id (tk_background task), rt_singleton = case_option True id (tk_singleton task),
               rt_healthcheck = healthcheck \<rparr>))))"

definition resolve_task :: "('h, 'k) resolution_input \<Rightarrow> task_error + 'k resolved_task_view" where
  "resolve_task i = (case ri_config i of
     Inl message \<Rightarrow> Inl (Resolution_Error message)
   | Inr config \<Rightarrow> (let tasks = case_option [] id (wc_tasks config) in case map_of tasks (ri_task_name i) of
       None \<Rightarrow> Inl (Resolution_Error (unknown_task_message (ri_task_name i) (sort (map fst tasks))))
     | Some task \<Rightarrow> (case selected_command (ri_is_main i) task of
         None \<Rightarrow> Inl (Resolution_Error (''Task '' @ ri_task_name i @ '' does not define a ''
           @ (if ri_is_main i then ''main-worktree'' else ''linked-worktree'') @ '' command.''))
       | Some command \<Rightarrow> (case resolve_environment (ri_proto i) (task_environment i config task) of
           Inl e \<Rightarrow> Inl (Environment_Error e)
         | Inr delta \<Rightarrow> resolve_selected i task command delta))))"

text \<open>The context of a worktree (\<open>packages/daemon/src/task-resolution.ts\<close>): the branch and its slug.\<close>

definition branch_name :: "string option \<Rightarrow> string" where
  "branch_name ref = (case ref of None \<Rightarrow> [] | Some r \<Rightarrow> short_branch_name r)"

definition branch_slug :: "string \<Rightarrow> string" where
  "branch_slug branch = replace_runs (\<lambda>c. \<not> (word_char c \<or> c \<in> set ''._-'')) (CHR ''-'') branch"

section \<open>The distance is the least number of edits\<close>

datatype edit_op = Keep char | Substitute char char | Insert char | Delete char

fun before_edit :: "edit_op list \<Rightarrow> string" where
  "before_edit [] = []"
| "before_edit (Keep x # es) = x # before_edit es"
| "before_edit (Substitute x y # es) = x # before_edit es"
| "before_edit (Insert y # es) = before_edit es"
| "before_edit (Delete x # es) = x # before_edit es"

fun after_edit :: "edit_op list \<Rightarrow> string" where
  "after_edit [] = []"
| "after_edit (Keep x # es) = x # after_edit es"
| "after_edit (Substitute x y # es) = y # after_edit es"
| "after_edit (Insert y # es) = y # after_edit es"
| "after_edit (Delete x # es) = after_edit es"

fun edit_cost :: "edit_op list \<Rightarrow> nat" where
  "edit_cost [] = 0"
| "edit_cost (Keep x # es) = edit_cost es"
| "edit_cost (Substitute x y # es) = Suc (edit_cost es)"
| "edit_cost (Insert y # es) = Suc (edit_cost es)"
| "edit_cost (Delete x # es) = Suc (edit_cost es)"

fun levenshtein :: "string \<Rightarrow> string \<Rightarrow> nat" where
  "levenshtein [] ys = length ys"
| "levenshtein (x # xs) [] = Suc (length xs)"
| "levenshtein (x # xs) (y # ys) = min (min (levenshtein xs ys + (if x = y then 0 else 1)) (levenshtein xs (y # ys) + 1))
     (levenshtein (x # xs) ys + 1)"

lemma levenshtein_insert: "levenshtein xs (y # ys) \<le> Suc (levenshtein xs ys)"
  by (cases xs) auto

lemma levenshtein_delete: "levenshtein (x # xs) ys \<le> Suc (levenshtein xs ys)"
proof (cases ys)
  case Nil
  then show ?thesis by (cases xs) simp_all
next
  case (Cons y ys')
  then show ?thesis by simp
qed

lemma levenshtein_le: "levenshtein (before_edit es) (after_edit es) \<le> edit_cost es"
proof (induction es rule: edit_cost.induct)
  case (2 x es)
  have "levenshtein (x # before_edit es) (x # after_edit es) \<le> levenshtein (before_edit es) (after_edit es)" by simp
  with 2 show ?case by simp
next
  case (3 x y es)
  have "levenshtein (x # before_edit es) (y # after_edit es) \<le> levenshtein (before_edit es) (after_edit es) + 1"
    unfolding levenshtein.simps(3) by (intro min.coboundedI1) simp
  with 3 show ?case by simp
next
  case (4 y es)
  with levenshtein_insert [of "before_edit es" y "after_edit es"] show ?case by simp
next
  case (5 x es)
  with levenshtein_delete [of x "before_edit es" "after_edit es"] show ?case by simp
qed simp

lemma min_cases: "min (min a b) c = a \<or> min (min a b) c = b \<or> min (min a b) c = (c :: nat)"
  by (simp add: min_def)

lemma edit_inserts: "before_edit (map Insert ys) = [] \<and> after_edit (map Insert ys) = ys \<and> edit_cost (map Insert ys) = length ys"
  by (induction ys) auto

lemma edit_deletes: "before_edit (map Delete xs) = xs \<and> after_edit (map Delete xs) = [] \<and> edit_cost (map Delete xs) = length xs"
  by (induction xs) auto

lemma levenshtein_reached: "\<exists>es. before_edit es = xs \<and> after_edit es = ys \<and> edit_cost es = levenshtein xs ys"
proof (induction xs ys rule: levenshtein.induct)
  case (1 ys)
  show ?case by (rule exI [of _ "map Insert ys"]) (simp add: edit_inserts)
next
  case (2 x xs)
  show ?case by (rule exI [of _ "map Delete (x # xs)"]) (simp add: edit_deletes)
next
  case (3 x xs y ys)
  then obtain e1 e2 e3 where e: "before_edit e1 = xs" "after_edit e1 = ys" "edit_cost e1 = levenshtein xs ys"
    "before_edit e2 = xs" "after_edit e2 = y # ys" "edit_cost e2 = levenshtein xs (y # ys)"
    "before_edit e3 = x # xs" "after_edit e3 = ys" "edit_cost e3 = levenshtein (x # xs) ys" by blast
  let ?n = "levenshtein (x # xs) (y # ys)"
  consider "?n = levenshtein xs ys + (if x = y then 0 else 1)" | "?n = levenshtein xs (y # ys) + 1"
    | "?n = levenshtein (x # xs) ys + 1" unfolding levenshtein.simps(3) using min_cases by blast
  then show ?case
  proof cases
    case 1
    show ?thesis by (rule exI [of _ "(if x = y then Keep x else Substitute x y) # e1"]) (use 1 e(1-3) in auto)
  next
    case 2
    show ?thesis by (rule exI [of _ "Delete x # e2"]) (use 2 e(4-6) in auto)
  next
    case 3
    show ?thesis by (rule exI [of _ "Insert y # e3"]) (use 3 e(7-9) in auto)
  qed
qed

lemma edits_append:
  "before_edit (es @ fs) = before_edit es @ before_edit fs" "after_edit (es @ fs) = after_edit es @ after_edit fs"
  "edit_cost (es @ fs) = edit_cost es + edit_cost fs"
  by (induction es rule: edit_cost.induct) auto

lemma edits_rev:
  "before_edit (rev es) = rev (before_edit es)" "after_edit (rev es) = rev (after_edit es)" "edit_cost (rev es) = edit_cost es"
  by (induction es rule: edit_cost.induct) (auto simp: edits_append)

lemma levenshtein_rev_le: "levenshtein (rev xs) (rev ys) \<le> levenshtein xs ys"
proof -
  obtain es where "before_edit es = xs" "after_edit es = ys" "edit_cost es = levenshtein xs ys"
    using levenshtein_reached by blast
  with levenshtein_le [of "rev es"] show ?thesis by (simp add: edits_rev)
qed

lemma levenshtein_rev: "levenshtein (rev xs) (rev ys) = levenshtein xs ys"
  using levenshtein_rev_le [of xs ys] levenshtein_rev_le [of "rev xs" "rev ys"] by simp

text \<open>The cells of the table hold the distances of the prefixes.\<close>

definition prefix_distance :: "string \<Rightarrow> string \<Rightarrow> nat \<Rightarrow> nat \<Rightarrow> nat" where
  "prefix_distance left right i j = levenshtein (rev (take i left)) (rev (take j right))"

lemma prefix_distance_Suc:
  assumes "i < length left" and "j < length right"
  shows "prefix_distance left right (Suc i) (Suc j) =
    min (min (prefix_distance left right i j + (if left ! i = right ! j then 0 else 1)) (prefix_distance left right i (Suc j) + 1))
      (prefix_distance left right (Suc i) j + 1)"
  using assms by (simp add: prefix_distance_def take_Suc_conv_app_nth)

lemma prefix_distance_0: "i \<le> length left \<Longrightarrow> prefix_distance left right i 0 = i"
  by (cases "rev (take i left)") (auto simp: prefix_distance_def dest: arg_cong [where f = length])

lemma row_cells:
  assumes "i < length left" and "k \<le> length right"
  shows "foldl (\<lambda>current column. current @ [next_cell left right (map (prefix_distance left right i) [0..<Suc (length right)]) (Suc i) current column])
      [Suc i] [1..<Suc k] = map (prefix_distance left right (Suc i)) [0..<Suc k]"
  using assms(2)
proof (induction k)
  case 0
  with assms(1) show ?case by (simp add: prefix_distance_0)
next
  case (Suc k)
  then have k: "k < length right" by simp
  have "next_cell left right (map (prefix_distance left right i) [0..<Suc (length right)]) (Suc i)
      (map (prefix_distance left right (Suc i)) [0..<Suc k]) (Suc k) = prefix_distance left right (Suc i) (Suc k)"
    unfolding prefix_distance_Suc [OF assms(1) k] using k
    by (simp add: next_cell_def or_zero_def Let_def nth_append del: upt_Suc)
  moreover have "[1..<Suc (Suc k)] = [1..<Suc k] @ [Suc k]" "[0..<Suc (Suc k)] = [0..<Suc k] @ [Suc k]" by simp_all
  ultimately show ?case using Suc.IH k by (simp del: upt_Suc)
qed

lemma rows:
  assumes "i \<le> length left"
  shows "foldl (next_row left right) [0..<length right + 1] [1..<Suc i] = map (prefix_distance left right i) [0..<Suc (length right)]"
  using assms
proof (induction i)
  case 0
  have "prefix_distance left right 0 j = j" if "j < Suc (length right)" for j
    using that by (simp add: prefix_distance_def)
  then show ?case by (simp add: list_eq_iff_nth_eq del: upt_Suc)
next
  case (Suc i)
  moreover have "[1..<Suc (Suc i)] = [1..<Suc i] @ [Suc i]" by simp
  ultimately show ?case using row_cells [of i left "length right" right] by (simp add: next_row_def del: upt_Suc)
qed

lemma edit_distance_levenshtein: "edit_distance left right = levenshtein left right"
proof -
  have "edit_distance left right = prefix_distance left right (length left) (length right)"
    unfolding edit_distance_def rows [OF order_refl] by (simp add: or_zero_def del: upt_Suc)
  then show ?thesis by (simp add: prefix_distance_def levenshtein_rev)
qed

text \<open>
  The distance between two names, computed one row at a time, is the least number of insertions, deletions and
  substitutions that turn one into the other.
\<close>

theorem edit_distance_is_least:
  "edit_distance left right = (LEAST n. \<exists>es. before_edit es = left \<and> after_edit es = right \<and> edit_cost es = n)"
proof (rule Least_equality [symmetric])
  show "\<exists>es. before_edit es = left \<and> after_edit es = right \<and> edit_cost es = edit_distance left right"
    unfolding edit_distance_levenshtein by (rule levenshtein_reached)
  show "edit_distance left right \<le> n" if "\<exists>es. before_edit es = left \<and> after_edit es = right \<and> edit_cost es = n" for n
    using that levenshtein_le unfolding edit_distance_levenshtein by blast
qed

section \<open>What reaches the shell\<close>

lemma resolve_arguments_parts:
  "resolve_arguments c guard as = Inr outs \<Longrightarrow>
    list_all (\<lambda>a. list_all (part_ok c guard) (template_parts a)) as \<and> outs = map (\<lambda>a. concat (map (part_text c) (template_parts a))) as"
proof (induction c guard as arbitrary: outs rule: resolve_arguments.induct)
  case (2 c guard a as)
  then show ?case by (auto simp: resolve_parts split: sum.splits)
qed simp

text \<open>A resolved task went through every stage.\<close>

lemma selected_stages:
  assumes "resolve_selected i task command delta = Inr t"
  shows "resolved_argv i task command delta = Inr (rt_argv t) \<and> rt_env_delta t = delta \<and> (rt_shell t \<longleftrightarrow> tk_shell task = Some True)"
proof (cases "resolved_argv i task command delta")
  case (Inr argv)
  with assms show ?thesis
    by (auto simp: resolve_selected_def Let_def split: sum.splits option.splits)
qed (use assms in \<open>simp add: resolve_selected_def Let_def\<close>)

lemma argv_stages:
  assumes "resolved_argv i task command delta = Inr argv"
  obtains resolved where
    "resolve_arguments (with_environment (ri_context i) delta)
       (if tk_shell task = Some True then assert_shell_safe_branch (ri_task_name i) else no_guard) (command_arguments command) = Inr resolved"
    "with_worker_vars resolved (ri_task_name i) (case_option [] id (tk_worker_vars task)) delta = Inr argv"
  using assms unfolding resolved_argv_def by (auto split: sum.splits)

lemma resolved_task_stages:
  assumes "resolve_task i = Inr t"
  obtains config task command where
    "ri_config i = Inr config" "map_of (case_option [] id (wc_tasks config)) (ri_task_name i) = Some task"
    "selected_command (ri_is_main i) task = Some command"
    "resolve_environment (ri_proto i) (task_environment i config task) = Inr (rt_env_delta t)"
    "resolved_argv i task command (rt_env_delta t) = Inr (rt_argv t)" "rt_shell t \<longleftrightarrow> tk_shell task = Some True"
proof -
  from assms obtain config task command delta where s: "ri_config i = Inr config"
    "map_of (case_option [] id (wc_tasks config)) (ri_task_name i) = Some task"
    "selected_command (ri_is_main i) task = Some command"
    "resolve_environment (ri_proto i) (task_environment i config task) = Inr delta"
    "resolve_selected i task command delta = Inr t"
    by (auto simp: resolve_task_def Let_def split: sum.splits option.splits)
  from selected_stages [OF s(5)] show thesis using that [OF s(1-3)] s(4) by blast
qed

lemma template_value_branch: "template_value_of (with_environment c delta) ''branch'' = map_option Text_Value (tc_branch c)"
  by (simp add: template_value_of_def with_environment_def)

lemma worker_pairs_text:
  "worker_pairs task_name environment names = Inr pairs \<Longrightarrow>
    pairs = concat (map (\<lambda>name. [''--var'', name @ '':'' @ the (map_of environment name)]) names) \<and>
    set names \<subseteq> dom (map_of environment)"
proof (induction task_name environment names arbitrary: pairs rule: worker_pairs.induct)
  case (2 task_name environment name names)
  then show ?case by (auto split: option.splits sum.splits)
qed simp

lemma with_worker_vars_text:
  "with_worker_vars argv task_name names environment = Inr out \<Longrightarrow>
    out = takeWhile (\<lambda>a. a \<noteq> ''--'') argv @ concat (map (\<lambda>name. [''--var'', name @ '':'' @ the (map_of environment name)]) names)
      @ dropWhile (\<lambda>a. a \<noteq> ''--'') argv"
  using worker_pairs_text [of task_name environment names] by (auto simp: with_worker_vars_def split: if_splits sum.splits)

section \<open>Concrete tasks\<close>

definition demo_task :: "string \<Rightarrow> unit task_config" where
  "demo_task command = \<lparr> tk_run = Some (Shell_Text command), tk_main = None, tk_worktree = None, tk_shell = Some True,
     tk_cwd = Some ''/w'', tk_background = None, tk_healthcheck = None, tk_queue_env = None, tk_singleton = None,
     tk_env = Some [(''B'', ''{branch}'')], tk_worker_vars = None \<rparr>"

definition demo_config :: "string \<Rightarrow> unit wtm_config" where
  "demo_config command = \<lparr> wc_tasks = Some [(''t'', demo_task command)], wc_environment = None \<rparr>"

definition demo_resolution :: "string \<Rightarrow> string \<Rightarrow> (unit, unit) resolution_input" where
  "demo_resolution command branch = \<lparr> ri_config = Inr (demo_config command), ri_task_name = ''t'', ri_is_main = True,
     ri_context = demo_context\<lparr>tc_branch := Some branch\<rparr>, ri_queued = False, ri_automatic = None, ri_repo = None,
     ri_proto = (\<lambda>_. None), ri_healthcheck = (\<lambda>_ _. None) \<rparr>"

definition demo_outcome :: "string list \<Rightarrow> string \<Rightarrow> unit resolved_task_view" where
  "demo_outcome argv branch = \<lparr> rt_argv = argv, rt_shell = True, rt_cwd = ''/w'', rt_env_delta = [(''B'', branch)], rt_background = False,
     rt_singleton = True, rt_healthcheck = None \<rparr>"

lemma demo_task_parts:
  "template_parts ''x {branch}'' = [Literal CHR ''x'', Literal CHR '' '', Variable ''branch'']"
  "template_parts ''x {env.B}'' = [Literal CHR ''x'', Literal CHR '' '', Variable ''env.B'']"
  "template_parts ''{branch}'' = [Variable ''branch'']"
  by (simp_all add: template_parts.simps brace_def Let_def)

lemma resolve_by_parts:
  "list_all (part_ok c guard) (template_parts tpl) \<Longrightarrow>
    resolve_template c guard tpl = Inr (concat (map (part_text c) (template_parts tpl)))"
  by (simp add: resolve_parts)

lemma demo_environment_delta:
  "resolve_environment (\<lambda>_. None) (task_environment (demo_resolution command branch) (demo_config command) (demo_task command))
     = Inr [(''B'', branch)]"
  by (simp add: resolve_environment_def task_environment_def demo_resolution_def demo_config_def demo_task_def declared_entries_def
      spread_def Let_def resolve_name.simps resolve_pieces.simps demo_task_parts env_name_def starts_with_def
      template_value_of_def)

lemma demo_cwd: "resolve_template c no_guard ''/w'' = Inr ''/w''"
proof -
  have "template_parts ''/w'' = [Literal CHR ''/'', Literal CHR ''w'']" by (simp add: template_parts.simps brace_def Let_def)
  then show ?thesis using resolve_by_parts [of c no_guard "''/w''"] by simp
qed

lemma demo_task_resolves:
  assumes "resolve_template (with_environment (demo_context\<lparr>tc_branch := Some branch\<rparr>) [(''B'', branch)])
      (assert_shell_safe_branch ''t'') command = Inr out"
  shows "resolve_task (demo_resolution command branch) = Inr (demo_outcome [out] branch)"
proof -
  have "resolved_argv (demo_resolution command branch) (demo_task command) (Shell_Text command) [(''B'', branch)] = Inr [out]"
    using assms by (simp add: resolved_argv_def demo_resolution_def demo_task_def command_arguments_def with_worker_vars_def)
  then have "resolve_selected (demo_resolution command branch) (demo_task command) (Shell_Text command) [(''B'', branch)]
      = Inr (demo_outcome [out] branch)"
    by (simp add: resolve_selected_def resolved_healthcheck_def demo_cwd Let_def demo_task_def demo_outcome_def)
  with demo_environment_delta [of command branch] show ?thesis
    by (simp add: resolve_task_def demo_resolution_def demo_config_def selected_command_def Let_def)
      (simp add: demo_task_def)
qed

text \<open>
  The guard looks at the variable \<open>branch\<close> only. A variable of the task that is defined as \<open>{branch}\<close> carries the
  same text into the command unchecked, here a command substitution.
\<close>

lemma guard_misses_indirect_branch:
  "resolve_task (demo_resolution ''x {env.B}'' ''$(y)'') = Inr (demo_outcome [''x $(y)''] ''$(y)'') \<and> \<not> shell_safe ''$(y)''"
proof
  show "\<not> shell_safe ''$(y)''" by (simp add: shell_safe_def word_char_def Let_def)
  have v: "template_value_of (with_environment (demo_context\<lparr>tc_branch := Some ''$(y)''\<rparr>) [(''B'', ''$(y)'')]) ''env.B'' = Some (Text_Value ''$(y)'')"
    by (simp add: template_value_of_def with_environment_def spread_def own_template_value_def starts_with_def demo_context_def)
  then have "resolve_template (with_environment (demo_context\<lparr>tc_branch := Some ''$(y)''\<rparr>) [(''B'', ''$(y)'')])
      (assert_shell_safe_branch ''t'') ''x {env.B}'' = Inr ''x $(y)''"
    using resolve_by_parts [of _ "assert_shell_safe_branch ''t''" "''x {env.B}''"]
    by (simp add: demo_task_parts assert_shell_safe_branch_def)
  then show "resolve_task (demo_resolution ''x {env.B}'' ''$(y)'') = Inr (demo_outcome [''x $(y)''] ''$(y)'')"
    by (rule demo_task_resolves)
qed

lemma demo_branch_resolves: "resolve_task (demo_resolution ''x {branch}'' ''a'') = Inr (demo_outcome [''x a''] ''a'')"
proof (rule demo_task_resolves)
  have v: "template_value_of (with_environment (demo_context\<lparr>tc_branch := Some ''a''\<rparr>) [(''B'', ''a'')]) ''branch'' = Some (Text_Value ''a'')"
    by (simp add: template_value_branch)
  moreover have "shell_safe ''a''" by (simp add: shell_safe_def word_char_def Let_def)
  ultimately show "resolve_template (with_environment (demo_context\<lparr>tc_branch := Some ''a''\<rparr>) [(''B'', ''a'')])
      (assert_shell_safe_branch ''t'') ''x {branch}'' = Inr ''x a''"
    using resolve_by_parts [of _ "assert_shell_safe_branch ''t''" "''x {branch}''"]
    by (simp add: demo_task_parts assert_shell_safe_branch_def)
qed

section \<open>Properties\<close>

text \<open>
  C13. A shell command names the branch only when the branch is harmless: when a task that runs through a shell
  resolves and its command contains \<open>{branch}\<close>, the name of the branch consists of letters, digits and \<open>._/-\<close>.
\<close>

theorem shell_branch_is_safe:
  assumes "resolve_task i = Inr t" and "rt_shell t" and "ri_config i = Inr config"
    and "map_of (case_option [] id (wc_tasks config)) (ri_task_name i) = Some task"
    and "selected_command (ri_is_main i) task = Some command"
    and "a \<in> set (command_arguments command)" and "Variable ''branch'' \<in> set (template_parts a)"
  shows "\<exists>b. tc_branch (ri_context i) = Some b \<and> shell_safe b"
proof -
  from assms(1) obtain config' task' command' where s: "ri_config i = Inr config'"
    "map_of (case_option [] id (wc_tasks config')) (ri_task_name i) = Some task'"
    "selected_command (ri_is_main i) task' = Some command'"
    "resolved_argv i task' command' (rt_env_delta t) = Inr (rt_argv t)" "rt_shell t \<longleftrightarrow> tk_shell task' = Some True"
    by (rule resolved_task_stages)
  with assms(3-5) have same: "task' = task" "command' = command" by simp_all
  with s(4,5) assms(2) obtain resolved where
    "resolve_arguments (with_environment (ri_context i) (rt_env_delta t)) (assert_shell_safe_branch (ri_task_name i))
       (command_arguments command) = Inr resolved"
    by (auto elim: argv_stages)
  from conjunct1 [OF resolve_arguments_parts [OF this]]
  have "part_ok (with_environment (ri_context i) (rt_env_delta t)) (assert_shell_safe_branch (ri_task_name i)) (Variable ''branch'')"
    unfolding list_all_iff using assms(6,7) by blast
  then show ?thesis by (auto simp: template_value_branch assert_shell_safe_branch_def split: option.splits if_splits)
qed

theorem shell_branch_is_safe_witness:
  "\<exists>b. tc_branch (ri_context (demo_resolution ''x {branch}'' ''a'')) = Some b \<and> shell_safe b"
proof (rule shell_branch_is_safe [OF demo_branch_resolves])
  show "rt_shell (demo_outcome [''x a''] ''a'')" by (simp add: demo_outcome_def)
  show "ri_config (demo_resolution ''x {branch}'' ''a'') = Inr (demo_config ''x {branch}'')" by (simp add: demo_resolution_def)
  show "map_of (case_option [] id (wc_tasks (demo_config ''x {branch}''))) (ri_task_name (demo_resolution ''x {branch}'' ''a''))
      = Some (demo_task ''x {branch}'')" by (simp add: demo_config_def demo_resolution_def)
  show "selected_command (ri_is_main (demo_resolution ''x {branch}'' ''a'')) (demo_task ''x {branch}'') = Some (Shell_Text ''x {branch}'')"
    by (simp add: selected_command_def demo_task_def)
  show "''x {branch}'' \<in> set (command_arguments (Shell_Text ''x {branch}''))" by (simp add: command_arguments_def)
  show "Variable ''branch'' \<in> set (template_parts ''x {branch}'')" by (simp add: demo_task_parts)
qed

text \<open>
  The arguments of a resolved task are those of its command with every variable replaced once, and the
  worker's variables as pairs in front of a \<open>--\<close>, each with the value the task itself gets.
\<close>

lemma task_arguments:
  assumes "resolve_task i = Inr t" and "ri_config i = Inr config"
    and "map_of (case_option [] id (wc_tasks config)) (ri_task_name i) = Some task"
    and "selected_command (ri_is_main i) task = Some command"
  shows "\<exists>resolved. resolved = map (\<lambda>a. concat (map (part_text (with_environment (ri_context i) (rt_env_delta t))) (template_parts a)))
       (command_arguments command) \<and>
     rt_argv t = takeWhile (\<lambda>a. a \<noteq> ''--'') resolved
       @ concat (map (\<lambda>name. [''--var'', name @ '':'' @ the (map_of (rt_env_delta t) name)]) (case_option [] id (tk_worker_vars task)))
       @ dropWhile (\<lambda>a. a \<noteq> ''--'') resolved"
proof -
  from assms(1) obtain config' task' command' where s: "ri_config i = Inr config'"
    "map_of (case_option [] id (wc_tasks config')) (ri_task_name i) = Some task'"
    "selected_command (ri_is_main i) task' = Some command'"
    "resolved_argv i task' command' (rt_env_delta t) = Inr (rt_argv t)"
    by (rule resolved_task_stages)
  with assms(2-4) have same: "task' = task" "command' = command" by simp_all
  from s(4) obtain resolved where r: "resolve_arguments (with_environment (ri_context i) (rt_env_delta t))
       (if tk_shell task' = Some True then assert_shell_safe_branch (ri_task_name i) else no_guard) (command_arguments command') = Inr resolved"
    "with_worker_vars resolved (ri_task_name i) (case_option [] id (tk_worker_vars task')) (rt_env_delta t) = Inr (rt_argv t)"
    by (rule argv_stages)
  from resolve_arguments_parts [OF r(1)] with_worker_vars_text [OF r(2)] show ?thesis by (auto simp: same)
qed

text \<open>The slug of a branch is harmless whatever the branch is called.\<close>

lemma replace_runs_only: "c \<in> set (replace_runs P d s) \<Longrightarrow> c = d \<or> \<not> P c"
proof (induction P d s rule: replace_runs.induct)
  case (2 P d x xs)
  then show ?case by (cases "P x") auto
qed simp

lemma branch_slug_safe: "shell_safe (branch_slug branch)"
  unfolding shell_safe_def branch_slug_def list_all_iff using replace_runs_only by fastforce

end
