(* ===== verification/Lifecycle_Events.thy ===== *)
theory Lifecycle_Events
  imports Task_Resolver Process_Store
begin

text \<open>
  Lifecycle events of the daemon (\<open>packages/daemon/src/events.ts\<close>, \<open>process-budgets.ts\<close>): an event runs the tasks
  the configuration attaches to it, a once-only event is claimed in the store before the work and the claim is
  withdrawn when the event turns out to be impossible. What the dispatcher awaits (the configuration of a worktree,
  the preparation of its resources, the start of a task) and the operating system are arguments that act on the
  store and on the rest of the world \<open>'w\<close>; \<open>ew_error\<close> is \<open>onError\<close>.
\<close>

section \<open>Events\<close>

datatype lifecycle_event_name = Workspace_Discovered | Repo_Discovered | Worktree_Discovered | Worktree_Created | Worktree_Ready
  | Worktree_Removed | Runtime_Started | Runtime_Stopped

fun event_text :: "lifecycle_event_name \<Rightarrow> string" where
  "event_text Workspace_Discovered = ''workspace.discovered''"
| "event_text Repo_Discovered = ''repo.discovered''"
| "event_text Worktree_Discovered = ''worktree.discovered''"
| "event_text Worktree_Created = ''worktree.created''"
| "event_text Worktree_Ready = ''worktree.ready''"
| "event_text Worktree_Removed = ''worktree.removed''"
| "event_text Runtime_Started = ''runtime.started''"
| "event_text Runtime_Stopped = ''runtime.stopped''"

definition once_only_events :: "lifecycle_event_name set" where
  "once_only_events = {Workspace_Discovered, Repo_Discovered, Worktree_Discovered, Worktree_Created, Worktree_Ready}"

record event_dispatch =
  ed_event :: lifecycle_event_name
  ed_worktree :: worktree_row
  ed_subject :: "(event_subject \<times> ident) option"

record task_outcome =
  to_task :: string
  to_started :: bool
  to_error :: "string option"

record dispatch_result =
  dr_event :: lifecycle_event_name
  dr_worktree_id :: ident
  dr_announced :: bool
  dr_tasks :: "task_outcome list"

section \<open>Budgets\<close>

record process_budgets =
  pb_max_processes :: "nat option"
  pb_min_available_memory :: "int option"

datatype budget_error = Process_Budget_Exceeded nat nat | Memory_Budget_Exceeded int int

definition mib :: int where
  "mib = 1024 * 1024"

definition check_process_budgets ::
  "process_row list \<Rightarrow> process_budgets \<Rightarrow> int option \<Rightarrow> nat \<Rightarrow> budget_error option" where
  "check_process_budgets running budgets available pending_starts =
    (let current = length (filter (\<lambda>r. mp_state r \<in> {PS_STARTING, PS_RUNNING, PS_STOPPING}) running) + pending_starts;
         memory = (case (pb_min_available_memory budgets, available) of
             (Some required, Some free) \<Rightarrow>
               if free < required then Some (Memory_Budget_Exceeded (required div mib) (free div mib)) else None
           | _ \<Rightarrow> None)
     in case pb_max_processes budgets of
          Some limit \<Rightarrow> if limit \<le> current then Some (Process_Budget_Exceeded limit current) else memory
        | None \<Rightarrow> memory)"

definition budget_message :: "budget_error \<Rightarrow> string" where
  "budget_message e = (case e of
     Process_Budget_Exceeded limit current \<Rightarrow> ''Starting this task would exceed the configured process budget.''
   | Memory_Budget_Exceeded floor_mib available_mib \<Rightarrow> ''Starting this task would drop host available memory below the configured floor.'')"

section \<open>The dispatcher\<close>

text \<open>A prepared resource: its name, whether it is degraded, and the detail.\<close>

record prepared_resource =
  pr_name :: string
  pr_degraded :: bool
  pr_detail :: "string option"

record event_start =
  es_worktree_id :: ident
  es_task_name :: string
  es_argv :: "string list"
  es_cwd :: string
  es_env :: entries
  es_shell :: bool

datatype 'e event_failure = Thrown 'e | Resource_Failed string string | Not_Started lifecycle_event_name string string

type_synonym ('w, 'a) event_action = "db \<times> 'w \<Rightarrow> (db \<times> 'w) \<times> 'a"

record ('w, 'r, 'e, 'h, 'k) event_world =
  ew_runtime_for :: "string \<Rightarrow> bool \<Rightarrow> ('w, 'e + 'r) event_action"
  ew_tasks :: "'r \<Rightarrow> lifecycle_event_name \<Rightarrow> string list"
  ew_eager :: "'r \<Rightarrow> bool"
  ew_prepare :: "'r \<Rightarrow> ('w, 'e + prepared_resource list) event_action"
  ew_resolution :: "'r \<Rightarrow> string \<Rightarrow> ('h, 'k) resolution_input"
  ew_task_message :: "task_error \<Rightarrow> string"
  ew_start :: "event_start \<Rightarrow> ('w, string + unit) event_action"
  ew_error :: "'e event_failure \<Rightarrow> db \<times> 'w \<Rightarrow> db \<times> 'w"
  ew_processes :: "db \<times> 'w \<Rightarrow> process_row list"
  ew_memory :: "db \<times> 'w \<Rightarrow> int option"
  ew_now :: "db \<times> 'w \<Rightarrow> time"
  ew_budgets :: process_budgets
  ew_process_env :: entries

text \<open>The claim of a once-only event: its subject is the worktree when none is given.\<close>

definition claimed_subject :: "event_dispatch \<Rightarrow> (event_subject \<times> ident) option" where
  "claimed_subject d = (if ed_event d \<in> once_only_events
     then Some (case ed_subject d of Some subject \<Rightarrow> subject | None \<Rightarrow> (Subject_Worktree, wt_id (ed_worktree d))) else None)"

definition claim_subject ::
  "('w, 'r, 'e, 'h, 'k) event_world \<Rightarrow> event_dispatch \<Rightarrow> db \<times> 'w \<Rightarrow> (db \<times> 'w) \<times> bool" where
  "claim_subject W d s = (case claimed_subject d of None \<Rightarrow> (s, True)
     | Some (type, subject_id) \<Rightarrow>
         (let (t, claimed) = claim_lifecycle_event (fst s) type subject_id (event_text (ed_event d)) (ew_now W s) in ((t, snd s), claimed)))"

definition withdraw :: "event_dispatch \<Rightarrow> db \<times> 'w \<Rightarrow> db \<times> 'w" where
  "withdraw d s = (case claimed_subject d of None \<Rightarrow> s
     | Some (type, subject_id) \<Rightarrow> (fst (release_lifecycle_event (fst s) type subject_id (event_text (ed_event d))), snd s))"

definition first_degraded :: "prepared_resource list \<Rightarrow> prepared_resource option" where
  "first_degraded prepared = find pr_degraded prepared"

text \<open>Endpoints and resources for a runtime that has something to run.\<close>

definition prepare_runtime ::
  "('w, 'r, 'e, 'h, 'k) event_world \<Rightarrow> string \<Rightarrow> ('w, 'e event_failure + 'r) event_action" where
  "prepare_runtime W path s = (case ew_runtime_for W path True s of
     (t, Inl e) \<Rightarrow> (t, Inl (Thrown e))
   | (t, Inr runtime) \<Rightarrow> (case ew_prepare W runtime t of
       (u, Inl e) \<Rightarrow> (u, Inl (Thrown e))
     | (u, Inr prepared) \<Rightarrow> (case first_degraded prepared of
         Some failed \<Rightarrow> (u, Inl (Resource_Failed (pr_name failed) (case_option ''unknown reason'' id (pr_detail failed))))
       | None \<Rightarrow> (u, Inr runtime))))"

definition run_event_task ::
  "('w, 'r, 'e, 'h, 'k) event_world \<Rightarrow> event_dispatch \<Rightarrow> 'r \<Rightarrow> string \<Rightarrow> ('w, task_outcome) event_action" where
  "run_event_task W d runtime task s =
    (let refused = (\<lambda>message t. (ew_error W (Not_Started (ed_event d) task message) t,
         \<lparr> to_task = task, to_started = False, to_error = Some message \<rparr>))
     in case check_process_budgets (ew_processes W s) (ew_budgets W) (ew_memory W s) 0 of
          Some e \<Rightarrow> refused (budget_message e) s
        | None \<Rightarrow> (case resolve_task (ew_resolution W runtime task) of
            Inl e \<Rightarrow> refused (ew_task_message W e) s
          | Inr resolved \<Rightarrow> (case ew_start W \<lparr> es_worktree_id = wt_id (ed_worktree d), es_task_name = task, es_argv = rt_argv resolved,
                es_cwd = rt_cwd resolved, es_env = spread (ew_process_env W) (Some (rt_env_delta resolved)), es_shell = rt_shell resolved \<rparr> s of
              (t, Inl message) \<Rightarrow> refused message t
            | (t, Inr _) \<Rightarrow> (t, \<lparr> to_task = task, to_started = True, to_error = None \<rparr>))))"

fun run_event_tasks ::
  "('w, 'r, 'e, 'h, 'k) event_world \<Rightarrow> event_dispatch \<Rightarrow> 'r \<Rightarrow> string list \<Rightarrow> ('w, task_outcome list) event_action" where
  "run_event_tasks W d runtime [] s = (s, [])"
| "run_event_tasks W d runtime (task # tasks) s =
    (let (t, outcome) = run_event_task W d runtime task s; (u, outcomes) = run_event_tasks W d runtime tasks t
     in (u, outcome # outcomes))"

definition dispatch_outcome :: "event_dispatch \<Rightarrow> bool \<Rightarrow> task_outcome list \<Rightarrow> dispatch_result" where
  "dispatch_outcome d announced outcomes = \<lparr> dr_event = ed_event d, dr_worktree_id = wt_id (ed_worktree d), dr_announced = announced, dr_tasks = outcomes \<rparr>"

text \<open>The work of a dispatch once the claim is taken; \<open>Inl\<close> is what the claim is withdrawn for.\<close>

definition dispatch_claimed ::
  "('w, 'r, 'e, 'h, 'k) event_world \<Rightarrow> event_dispatch \<Rightarrow> ('w, 'e event_failure + task_outcome list) event_action" where
  "dispatch_claimed W d s = (case ew_runtime_for W (wt_path (ed_worktree d)) False s of
     (t, Inl e) \<Rightarrow> (t, Inl (Thrown e))
   | (t, Inr runtime) \<Rightarrow> (let tasks = ew_tasks W runtime (ed_event d) in
       if tasks = [] then (t, Inr [])
       else (case prepare_runtime W (wt_path (ed_worktree d)) t of
         (u, Inl e) \<Rightarrow> (u, Inl e)
       | (u, Inr prepared) \<Rightarrow> (let (v, outcomes) = run_event_tasks W d prepared tasks u in (v, Inr outcomes)))))"

definition dispatch_event ::
  "('w, 'r, 'e, 'h, 'k) event_world \<Rightarrow> event_dispatch \<Rightarrow> ('w, dispatch_result) event_action" where
  "dispatch_event W d s = (case claim_subject W d s of
     (t, False) \<Rightarrow> (t, dispatch_outcome d False [])
   | (t, True) \<Rightarrow> (case dispatch_claimed W d t of
       (u, Inl e) \<Rightarrow> (ew_error W e (withdraw d u), dispatch_outcome d False [])
     | (u, Inr outcomes) \<Rightarrow> (u, dispatch_outcome d True outcomes)))"

definition plain_dispatch :: "lifecycle_event_name \<Rightarrow> worktree_row \<Rightarrow> event_dispatch" where
  "plain_dispatch event worktree = \<lparr> ed_event = event, ed_worktree = worktree, ed_subject = None \<rparr>"

definition dispatch_for_worktree ::
  "('w, 'r, 'e, 'h, 'k) event_world \<Rightarrow> lifecycle_event_name \<Rightarrow> ident \<Rightarrow> db \<times> 'w \<Rightarrow> db \<times> 'w" where
  "dispatch_for_worktree W event worktree_id s = (case find (\<lambda>w. wt_id w = worktree_id) (list_worktrees (fst s) None) of
     None \<Rightarrow> s | Some worktree \<Rightarrow> fst (dispatch_event W (plain_dispatch event worktree) s))"

section \<open>A reconciled repository\<close>

definition main_worktree :: "db \<Rightarrow> ident \<Rightarrow> worktree_row option" where
  "main_worktree s repository_id =
    (let rows = filter (\<lambda>w. wt_state w \<noteq> WT_ORPHANED \<and> wt_state w \<noteq> WT_REMOVED) (list_worktrees s (Some repository_id))
     in case find wt_is_main rows of Some w \<Rightarrow> Some w | None \<Rightarrow> (case rows of [] \<Rightarrow> None | w # _ \<Rightarrow> Some w))"

definition prepare_discovered ::
  "('w, 'r, 'e, 'h, 'k) event_world \<Rightarrow> worktree_row \<Rightarrow> db \<times> 'w \<Rightarrow> db \<times> 'w" where
  "prepare_discovered W worktree s = (case ew_runtime_for W (wt_path worktree) False s of
     (t, Inl e) \<Rightarrow> ew_error W (Thrown e) t
   | (t, Inr runtime) \<Rightarrow> if \<not> ew_eager W runtime then t
       else (case prepare_runtime W (wt_path worktree) t of
         (u, Inl e) \<Rightarrow> ew_error W e u
       | (u, Inr _) \<Rightarrow> fst (dispatch_event W (plain_dispatch Worktree_Ready worktree) u)))"

definition announce_registration ::
  "('w, 'r, 'e, 'h, 'k) event_world \<Rightarrow> repository_row \<Rightarrow> reconcile_result \<Rightarrow> db \<times> 'w \<Rightarrow> db \<times> 'w" where
  "announce_registration W repository result s =
    (let host = (case main_worktree (fst s) (rp_id repository) of Some w \<Rightarrow> Some w
         | None \<Rightarrow> (case discovered result @ updated result of [] \<Rightarrow> None | w # _ \<Rightarrow> Some w))
     in case host of None \<Rightarrow> s
        | Some w \<Rightarrow>
            (let t = fst (dispatch_event W \<lparr> ed_event = Workspace_Discovered, ed_worktree = w,
                   ed_subject = Some (Subject_Workspace, rp_workspace_id repository) \<rparr> s)
             in fst (dispatch_event W \<lparr> ed_event = Repo_Discovered, ed_worktree = w,
                   ed_subject = Some (Subject_Repository, rp_id repository) \<rparr> t)))"

definition announce_worktree ::
  "('w, 'r, 'e, 'h, 'k) event_world \<Rightarrow> lifecycle_event_name \<Rightarrow> worktree_row \<Rightarrow> db \<times> 'w \<Rightarrow> db \<times> 'w" where
  "announce_worktree W created_event w s = prepare_discovered W w (fst (dispatch_event W (plain_dispatch created_event w) s))"

definition announce_updated ::
  "('w, 'r, 'e, 'h, 'k) event_world \<Rightarrow> lifecycle_event_name \<Rightarrow> worktree_row \<Rightarrow> db \<times> 'w \<Rightarrow> db \<times> 'w" where
  "announce_updated W created_event w s =
    (if has_lifecycle_event_claim (fst s) Subject_Worktree (wt_id w) (event_text created_event) then s
     else announce_worktree W created_event w s)"

definition announce_removed ::
  "('w, 'r, 'e, 'h, 'k) event_world \<Rightarrow> repository_row \<Rightarrow> db \<times> 'w \<Rightarrow> db \<times> 'w" where
  "announce_removed W repository s = (case main_worktree (fst s) (rp_id repository) of None \<Rightarrow> s
     | Some host \<Rightarrow> fst (dispatch_event W (plain_dispatch Worktree_Removed host) s))"

definition on_reconciled ::
  "('w, 'r, 'e, 'h, 'k) event_world \<Rightarrow> repository_row \<Rightarrow> reconcile_result \<Rightarrow> db \<times> 'w \<Rightarrow> db \<times> 'w" where
  "on_reconciled W repository result s =
    (let created_event = (if rp_last_reconciled_at repository = None then Worktree_Discovered else Worktree_Created);
         s1 = announce_registration W repository result s;
         s2 = foldl (\<lambda>s w. announce_worktree W created_event w s) s1 (discovered result);
         s3 = foldl (\<lambda>s w. announce_updated W created_event w s) s2 (updated result)
     in foldl (\<lambda>s _. announce_removed W repository s) s3 (orphaned result))"

section \<open>Claims\<close>

definition has_claim :: "event_subject \<Rightarrow> ident \<Rightarrow> lifecycle_event_name \<Rightarrow> db \<times> 'w \<Rightarrow> bool" where
  "has_claim type subject_id event s \<longleftrightarrow> has_lifecycle_event_claim (fst s) type subject_id (event_text event)"

text \<open>What the dispatcher awaits leaves this claim as it is.\<close>

definition leaves_claim ::
  "event_subject \<Rightarrow> ident \<Rightarrow> lifecycle_event_name \<Rightarrow> ('w, 'r, 'e, 'h, 'k) event_world \<Rightarrow> bool" where
  "leaves_claim type subject_id event W \<longleftrightarrow>
     (\<forall>path allocate s. has_claim type subject_id event (fst (ew_runtime_for W path allocate s)) = has_claim type subject_id event s) \<and>
     (\<forall>runtime s. has_claim type subject_id event (fst (ew_prepare W runtime s)) = has_claim type subject_id event s) \<and>
     (\<forall>start s. has_claim type subject_id event (fst (ew_start W start s)) = has_claim type subject_id event s) \<and>
     (\<forall>e s. has_claim type subject_id event (ew_error W e s) = has_claim type subject_id event s)"

lemma leaves_claim_calls:
  assumes "leaves_claim type subject_id event W"
  shows "has_claim type subject_id event (fst (ew_runtime_for W path allocate s)) = has_claim type subject_id event s"
    "has_claim type subject_id event (fst (ew_prepare W runtime s)) = has_claim type subject_id event s"
    "has_claim type subject_id event (fst (ew_start W start s)) = has_claim type subject_id event s"
    "has_claim type subject_id event (ew_error W e s) = has_claim type subject_id event s"
  using assms unfolding leaves_claim_def by blast+

lemma prepare_runtime_claim:
  assumes "leaves_claim type subject_id event W"
  shows "has_claim type subject_id event (fst (prepare_runtime W path s)) = has_claim type subject_id event s"
  by (simp add: prepare_runtime_def case_prod_beta leaves_claim_calls [OF assms] split: sum.split option.split)

lemma run_event_task_claim:
  assumes "leaves_claim type subject_id event W"
  shows "has_claim type subject_id event (fst (run_event_task W d runtime task s)) = has_claim type subject_id event s"
  by (simp add: run_event_task_def case_prod_beta Let_def leaves_claim_calls [OF assms] split: sum.split option.split)

lemma run_event_tasks_claim:
  assumes "leaves_claim type subject_id event W"
  shows "has_claim type subject_id event (fst (run_event_tasks W d runtime tasks s)) = has_claim type subject_id event s"
  by (induction tasks arbitrary: s) (simp_all add: case_prod_beta Let_def run_event_task_claim [OF assms])

lemma dispatch_claimed_claim:
  assumes "leaves_claim type subject_id event W"
  shows "has_claim type subject_id event (fst (dispatch_claimed W d s)) = has_claim type subject_id event s"
  by (simp add: dispatch_claimed_def case_prod_beta Let_def leaves_claim_calls [OF assms] prepare_runtime_claim [OF assms]
      run_event_tasks_claim [OF assms] split: sum.split)

lemma withdraw_claim: "claimed_subject d = Some (type, subject_id) \<Longrightarrow> \<not> has_claim type subject_id (ed_event d) (withdraw d s)"
  by (auto simp: withdraw_def has_claim_def has_lifecycle_event_claim_def release_lifecycle_event_def Let_def list_ex_iff)

lemma claim_subject_claim:
  assumes "claimed_subject d = Some (type, subject_id)"
  shows "snd (claim_subject W d s) \<longleftrightarrow> \<not> has_claim type subject_id (ed_event d) s"
    and "has_claim type subject_id (ed_event d) (fst (claim_subject W d s))"
    and "\<not> snd (claim_subject W d s) \<Longrightarrow> fst (claim_subject W d s) = s"
  using assms by (auto simp: claim_subject_def claim_lifecycle_event_def has_claim_def has_lifecycle_event_claim_def
      event_matches_def Let_def case_prod_beta list_ex_iff split: if_splits)

text \<open>A claimed once-only event is over: a dispatch changes nothing and runs nothing.\<close>

lemma claimed_event_is_over:
  assumes "claimed_subject d = Some (type, subject_id)" and "has_claim type subject_id (ed_event d) s"
  shows "dispatch_event W d s = (s, dispatch_outcome d False [])"
  using claim_subject_claim [OF assms(1), of W s] assms(2) by (simp add: dispatch_event_def case_prod_beta)

text \<open>A started task fits the budgets at that moment.\<close>

lemma started_within_budgets:
  assumes "to_started (snd (run_event_task W d runtime task s))"
  shows "check_process_budgets (ew_processes W s) (ew_budgets W) (ew_memory W s) 0 = None"
  using assms by (auto simp: run_event_task_def Let_def case_prod_beta split: option.splits sum.splits)

lemma within_budgets:
  assumes "check_process_budgets running budgets available pending_starts = None"
  shows "(\<forall>limit. pb_max_processes budgets = Some limit \<longrightarrow>
      length (filter (\<lambda>r. mp_state r \<in> {PS_STARTING, PS_RUNNING, PS_STOPPING}) running) + pending_starts < limit) \<and>
    (\<forall>required free. pb_min_available_memory budgets = Some required \<longrightarrow> available = Some free \<longrightarrow> required \<le> free)"
  using assms by (auto simp: check_process_budgets_def Let_def split: option.splits if_splits)

section \<open>A concrete world\<close>

definition quiet_world :: "(unit, unit, unit, unit, unit) event_world" where
  "quiet_world = \<lparr> ew_runtime_for = (\<lambda>path allocate s. (s, Inr ())), ew_tasks = (\<lambda>runtime event. []), ew_eager = (\<lambda>_. False),
     ew_prepare = (\<lambda>runtime s. (s, Inr [])), ew_resolution = (\<lambda>runtime task. demo_resolution task ''a''),
     ew_task_message = (\<lambda>_. []), ew_start = (\<lambda>start s. (s, Inr ())), ew_error = (\<lambda>e s. s), ew_processes = (\<lambda>s. []),
     ew_memory = (\<lambda>s. None), ew_now = (\<lambda>s. 0), ew_budgets = \<lparr> pb_max_processes = None, pb_min_available_memory = None \<rparr>,
     ew_process_env = [] \<rparr>"

definition demo_event_worktree :: worktree_row where
  "demo_event_worktree = \<lparr> wt_id = ''w'', wt_repository_id = ''r'', wt_numeric_id = 1, wt_path = ''/w'', wt_branch = None,
     wt_head_oid = None, wt_is_main = True, wt_is_locked = False, wt_state = WT_DISCOVERED, wt_created_at = 0,
     wt_last_seen_at = 0, wt_last_runtime_at = None \<rparr>"

definition demo_event_repository :: "time option \<Rightarrow> repository_row" where
  "demo_event_repository reconciled = \<lparr> rp_id = ''r'', rp_workspace_id = ''s'', rp_common_git_dir = ''/w/.git'', rp_main_root = ''/w'',
     rp_remote_identity = None, rp_created_at = 0, rp_last_reconciled_at = reconciled \<rparr>"

lemma quiet_leaves_claim: "leaves_claim type subject_id event quiet_world"
  by (simp add: leaves_claim_def quiet_world_def)

lemma quiet_dispatch: "snd (claim_subject quiet_world d s) \<Longrightarrow>
    dispatch_event quiet_world d s = (fst (claim_subject quiet_world d s), dispatch_outcome d True [])"
  by (simp add: dispatch_event_def dispatch_claimed_def case_prod_beta) (simp add: quiet_world_def)

text \<open>
  A worktree that the first reconciliation announced as discovered is announced as created by the next one: the
  retry for updated worktrees looks for a claim of the event of the present pass only.
\<close>

lemma worktree_announced_twice:
  "let first = on_reconciled quiet_world (demo_event_repository None) \<lparr> discovered = [demo_event_worktree], updated = [], orphaned = [] \<rparr> (empty_db, ());
       second = on_reconciled quiet_world (demo_event_repository (Some 1)) \<lparr> discovered = [], updated = [demo_event_worktree], orphaned = [] \<rparr> first
   in has_claim Subject_Worktree ''w'' Worktree_Discovered second \<and> has_claim Subject_Worktree ''w'' Worktree_Created second"
  by code_simp

section \<open>Properties\<close>

text \<open>
  C10. A once-only event is claimed exactly when it was announced, if the hooks and the log that a dispatch calls leave
  the claims alone: after a dispatch the claim is in the store if it
  was there before or the dispatch announced the event; a dispatch that could not find out what to run, or could not
  prepare it, leaves no claim behind, so that the event fires once that is repaired. And once it is claimed, every
  further dispatch leaves the store and the world as they are and runs nothing.
\<close>

theorem claim_iff_announced:
  assumes "claimed_subject d = Some (type, subject_id)" and "leaves_claim type subject_id (ed_event d) W"
    and "dispatch_event W d s = (t, r)"
  shows "(has_claim type subject_id (ed_event d) t \<longleftrightarrow> has_claim type subject_id (ed_event d) s \<or> dr_announced r) \<and>
    (has_claim type subject_id (ed_event d) t \<longrightarrow> dispatch_event W d t = (t, dispatch_outcome d False []))"
proof (cases "has_claim type subject_id (ed_event d) s")
  case True
  with claimed_event_is_over [OF assms(1), of s W] assms(3) have "t = s" by simp
  with claimed_event_is_over [OF assms(1), of s W] True show ?thesis by simp
next
  case False
  let ?u = "fst (claim_subject W d s)"
  from False claim_subject_claim [OF assms(1), of W s] have c: "snd (claim_subject W d s)" "has_claim type subject_id (ed_event d) ?u"
    by simp_all
  have "has_claim type subject_id (ed_event d) t \<longleftrightarrow> dr_announced r"
  proof (cases "snd (dispatch_claimed W d ?u)")
    case (Inl e)
    with c(1) assms(3) have "t = ew_error W e (withdraw d (fst (dispatch_claimed W d ?u)))" "r = dispatch_outcome d False []"
      by (simp_all add: dispatch_event_def case_prod_beta)
    with withdraw_claim [OF assms(1)] leaves_claim_calls(4) [OF assms(2)] show ?thesis by (simp add: dispatch_outcome_def)
  next
    case (Inr outcomes)
    with c(1) assms(3) have "t = fst (dispatch_claimed W d ?u)" "r = dispatch_outcome d True outcomes"
      by (simp_all add: dispatch_event_def case_prod_beta)
    with dispatch_claimed_claim [OF assms(2)] c(2) show ?thesis by (simp add: dispatch_outcome_def)
  qed
  with False claimed_event_is_over [OF assms(1), of t W] show ?thesis by blast
qed

theorem claim_iff_announced_witness:
  "\<exists>t r. dispatch_event quiet_world (plain_dispatch Worktree_Created demo_event_worktree) (empty_db, ()) = (t, r) \<and>
    has_claim Subject_Worktree ''w'' Worktree_Created t"
proof -
  let ?d = "plain_dispatch Worktree_Created demo_event_worktree"
  have subject: "claimed_subject ?d = Some (Subject_Worktree, ''w'')"
    by (simp add: claimed_subject_def plain_dispatch_def once_only_events_def demo_event_worktree_def)
  have ev: "ed_event ?d = Worktree_Created" by (simp add: plain_dispatch_def)
  obtain t r where d: "dispatch_event quiet_world ?d (empty_db, ()) = (t, r)" by (rule prod.exhaust)
  have "snd (claim_subject quiet_world ?d (empty_db, ()))" by code_simp
  from quiet_dispatch [OF this] d have "dr_announced r" by (auto simp: dispatch_outcome_def)
  with claim_iff_announced [OF subject quiet_leaves_claim d] ev d show ?thesis by auto
qed

end
