(* ===== verification/Idle_Runtime.thy ===== *)
theory Idle_Runtime
  imports Process_Store Js_Text
begin

text \<open>
  Suspension of idle tasks (\<open>packages/daemon/src/idle-runtime.ts\<close>) and the windows it reads
  (\<open>packages/core/src/config/idle.ts\<close>, \<open>task-timeout.ts\<close>). What a sweep awaits (the policies, the note, the stop) acts
  on the suspender and on the rest of the world \<open>'w\<close>, because requests arrive meanwhile; the clock is read from the
  world. The floating-point product of a fraction and a unit is an argument. A start time is an
  instant, as everywhere here, so it always parses.
\<close>

section \<open>Durations\<close>

text \<open>\<open>/^(\d+(?:\.\d+)?)(ms|s|m|h)$/\<close>: the whole digits, the digits after a point, and the unit in milliseconds.\<close>

definition duration_units :: "(string \<times> int) list" where
  "duration_units = [(''ms'', 1), (''s'', 1000), (''m'', 60000), (''h'', 3600000)]"

definition match_duration :: "string \<Rightarrow> (string \<times> string option \<times> int) option" where
  "match_duration s =
    (let digits = takeWhile is_digit s; rest = dropWhile is_digit s;
         decimals = takeWhile is_digit (drop 1 rest); pointed = starts_with ''.'' rest \<and> decimals \<noteq> [];
         unit = (if pointed then dropWhile is_digit (drop 1 rest) else rest)
     in if digits = [] then None
        else map_option (\<lambda>factor. (digits, if pointed then Some decimals else None, factor)) (map_of duration_units unit))"

definition bounded_task_duration_ms :: "(string \<Rightarrow> string \<Rightarrow> int \<Rightarrow> jsnum) \<Rightarrow> string option \<Rightarrow> int \<Rightarrow> int \<Rightarrow> int option" where
  "bounded_task_duration_ms fraction_product v minimum maximum =
    (case match_duration (case_option [] id v) of None \<Rightarrow> None
     | Some (digits, decimals, factor) \<Rightarrow>
         (let duration = (case decimals of None \<Rightarrow> Whole (int (digits_value digits) * factor)
              | Some ds \<Rightarrow> fraction_product digits ds factor)
          in if is_safe_integer duration \<and> minimum \<le> whole duration \<and> whole duration \<le> maximum then Some (whole duration) else None))"

definition maximum_task_duration_ms :: int where
  "maximum_task_duration_ms = 86400000"

definition queue_task_timeout_ms :: "(string \<Rightarrow> string \<Rightarrow> int \<Rightarrow> jsnum) \<Rightarrow> string option \<Rightarrow> int option" where
  "queue_task_timeout_ms fraction_product v = bounded_task_duration_ms fraction_product v 1 maximum_task_duration_ms"

definition minimum_idle_timeout_ms :: int where
  "minimum_idle_timeout_ms = 1000"

definition idle_timeout_ms :: "(string \<Rightarrow> string \<Rightarrow> int \<Rightarrow> jsnum) \<Rightarrow> string option \<Rightarrow> int option" where
  "idle_timeout_ms fraction_product v = bounded_task_duration_ms fraction_product v minimum_idle_timeout_ms maximum_task_duration_ms"

section \<open>Policies\<close>

record idle_config =
  ic_enabled :: "bool option"
  ic_timeout :: "string option"

record idle_task_view =
  iv_idle :: "idle_config option"
  iv_queue :: "bool option"

record idle_policy =
  ip_timeout_ms :: int
  ip_timeout :: string

definition task_idle_policy :: "(string \<Rightarrow> string \<Rightarrow> int \<Rightarrow> jsnum) \<Rightarrow> idle_task_view option \<Rightarrow> idle_policy option" where
  "task_idle_policy fraction_product task = (case task of None \<Rightarrow> None
     | Some view \<Rightarrow> (case iv_idle view of None \<Rightarrow> None
         | Some idle \<Rightarrow> if ic_enabled idle \<noteq> Some True \<or> iv_queue view = Some True then None
             else (case (idle_timeout_ms fraction_product (ic_timeout idle), ic_timeout idle) of
                 (Some ms, Some timeout) \<Rightarrow> Some \<lparr> ip_timeout_ms = ms, ip_timeout = timeout \<rparr>
               | _ \<Rightarrow> None)))"

definition idle_policies ::
  "(string \<Rightarrow> string \<Rightarrow> int \<Rightarrow> jsnum) \<Rightarrow> (string \<times> idle_task_view) list option \<Rightarrow> (string \<times> idle_policy) list" where
  "idle_policies fraction_product tasks =
    concat (map (\<lambda>(name, view). case task_idle_policy fraction_product (Some view) of None \<Rightarrow> [] | Some policy \<Rightarrow> [(name, policy)])
      (case_option [] id tasks))"

section \<open>The suspender\<close>

record idle_suspender =
  sus_activity :: "string \<Rightarrow> int option"
  sus_timer :: bool
  sus_sweeping :: bool
  sus_closed :: bool
  sus_interval :: int

type_synonym ('w, 'a) suspender_action = "idle_suspender \<times> 'w \<Rightarrow> (idle_suspender \<times> 'w) \<times> 'a"

record ('w, 'e) idle_world =
  iw_list :: "ident option \<Rightarrow> 'w \<Rightarrow> 'e + process_row list"
  iw_policies :: "ident \<Rightarrow> ('w, 'e + (string \<times> idle_policy) list) suspender_action"
  iw_note :: "process_row \<Rightarrow> string \<Rightarrow> ('w, 'e + unit) suspender_action"
  iw_stop :: "process_row \<Rightarrow> ('w, 'e + process_row) suspender_action"
  iw_on_suspended :: "process_row \<Rightarrow> 'w \<Rightarrow> 'w \<times> ('e + unit)"
  iw_error :: "'e \<Rightarrow> 'w \<Rightarrow> 'w"
  iw_now :: "'w \<Rightarrow> int"

definition default_idle_sweep_interval_ms :: int where
  "default_idle_sweep_interval_ms = 5000"

definition new_idle_suspender :: "jsnum option \<Rightarrow> string + idle_suspender" where
  "new_idle_suspender interval_ms =
    (let interval = case_option (Whole default_idle_sweep_interval_ms) id interval_ms in
     if \<not> safe_positive interval then Inl ''Idle sweep interval must be a positive integer''
     else Inr \<lparr> sus_activity = Map.empty, sus_timer = False, sus_sweeping = False, sus_closed = False, sus_interval = whole interval \<rparr>)"

definition activity_key :: "ident \<Rightarrow> string \<Rightarrow> string" where
  "activity_key worktree_id task_name = worktree_id @ [CHR 0x00] @ task_name"

definition record_key :: "process_row \<Rightarrow> string" where
  "record_key r = activity_key (mp_worktree_id r) (mp_task_name r)"

definition set_activity :: "string \<Rightarrow> int \<Rightarrow> idle_suspender \<Rightarrow> idle_suspender" where
  "set_activity key at st = st\<lparr>sus_activity := (sus_activity st)(key \<mapsto> at)\<rparr>"

definition touch :: "('w, 'e) idle_world \<Rightarrow> ident \<Rightarrow> string option \<Rightarrow> ('w, 'e + unit) suspender_action" where
  "touch W worktree_id task_name s =
    (let (st, w) = s; at = iw_now W w in
     if sus_closed st then (s, Inr ())
     else case task_name of
         Some name \<Rightarrow> ((set_activity (activity_key worktree_id name) at st, w), Inr ())
       | None \<Rightarrow> (case iw_list W (Some worktree_id) w of
           Inl e \<Rightarrow> (s, Inl e)
         | Inr records \<Rightarrow> ((foldl (\<lambda>st r. if mp_state r = PS_RUNNING then set_activity (activity_key worktree_id (mp_task_name r)) at st else st)
               st records, w), Inr ())))"

definition start_sweeps :: "idle_suspender \<Rightarrow> idle_suspender" where
  "start_sweeps st = (if sus_closed st \<or> sus_timer st then st else st\<lparr>sus_timer := True\<rparr>)"

definition close_suspender :: "idle_suspender \<Rightarrow> idle_suspender" where
  "close_suspender st = st\<lparr>sus_closed := True, sus_timer := False, sus_activity := Map.empty\<rparr>"

text \<open>Clocks of tasks that do not run are dropped.\<close>

definition prune_activity :: "process_row list \<Rightarrow> idle_suspender \<Rightarrow> idle_suspender" where
  "prune_activity running st = st\<lparr>sus_activity := (\<lambda>key. if key \<in> set (map record_key running) then sus_activity st key else None)\<rparr>"

definition note_line :: "process_row \<Rightarrow> idle_policy \<Rightarrow> string" where
  "note_line r policy = ''[wtm] stopping '' @ mp_task_name r @ '' after '' @ ip_timeout policy
     @ '' without WTM interaction (idle.timeout = '' @ [CHR 0x22] @ ip_timeout policy @ [CHR 0x22]
     @ ''); start it again with: wtm start '' @ mp_task_name r"

definition on_world :: "('w \<Rightarrow> 'w) \<Rightarrow> idle_suspender \<times> 'w \<Rightarrow> idle_suspender \<times> 'w" where
  "on_world f s = (fst s, f (snd s))"

text \<open>The stop itself, once the decision holds after the note.\<close>

definition stop_idle :: "('w, 'e) idle_world \<Rightarrow> process_row \<Rightarrow> ('w, process_row option) suspender_action" where
  "stop_idle W r s = (case iw_stop W r s of
     (u, Inl e) \<Rightarrow> (on_world (iw_error W e) (set_activity (record_key r) (iw_now W (snd u)) (fst u), snd u), None)
   | (u, Inr result) \<Rightarrow>
       (let st = (fst u)\<lparr>sus_activity := (sus_activity (fst u))(record_key r := None)\<rparr> in
        if mp_state result \<noteq> PS_STOPPED then ((st, snd u), None)
        else (case iw_on_suspended W result (snd u) of
            (w, Inl e) \<Rightarrow> ((st, iw_error W e w), Some result)
          | (w, Inr _) \<Rightarrow> ((st, w), Some result))))"

definition suspend_if_idle ::
  "('w, 'e) idle_world \<Rightarrow> process_row \<Rightarrow> idle_policy \<Rightarrow> ('w, process_row option) suspender_action" where
  "suspend_if_idle W r policy s =
    (let (st, w) = s; now = iw_now W w;
         since = (case sus_activity st (record_key r) of None \<Rightarrow> now | Some touched \<Rightarrow> max touched (int (mp_started_at r)));
         t = (set_activity (record_key r) since st, w)
     in if now - since < ip_timeout_ms policy then (t, None)
        else let (u, noted) = iw_note W r (note_line r policy) t;
                 v = (case noted of Inl e \<Rightarrow> on_world (iw_error W e) u | Inr _ \<Rightarrow> u)
             in if sus_closed (fst v) \<or> sus_activity (fst v) (record_key r) \<noteq> Some since then (v, None)
                else stop_idle W r v)"

fun suspend_records ::
  "('w, 'e) idle_world \<Rightarrow> (string \<times> idle_policy) list \<Rightarrow> process_row list \<Rightarrow> ('w, process_row list) suspender_action" where
  "suspend_records W policies [] s = (s, [])"
| "suspend_records W policies (r # records) s = (case map_of policies (mp_task_name r) of
     None \<Rightarrow> suspend_records W policies records s
   | Some policy \<Rightarrow> (let (t, stopped) = suspend_if_idle W r policy s; (u, others) = suspend_records W policies records t
       in (u, case_option [] (\<lambda>p. [p]) stopped @ others)))"

text \<open>The running processes by worktree, in the order of first appearance.\<close>

fun add_to_group :: "process_row \<Rightarrow> (ident \<times> process_row list) list \<Rightarrow> (ident \<times> process_row list) list" where
  "add_to_group r [] = [(mp_worktree_id r, [r])]"
| "add_to_group r ((key, records) # groups) =
    (if key = mp_worktree_id r then (key, records @ [r]) # groups else (key, records) # add_to_group r groups)"

definition group_by_worktree :: "process_row list \<Rightarrow> (ident \<times> process_row list) list" where
  "group_by_worktree records = foldl (\<lambda>groups r. add_to_group r groups) [] records"

fun sweep_groups ::
  "('w, 'e) idle_world \<Rightarrow> (ident \<times> process_row list) list \<Rightarrow> ('w, process_row list) suspender_action" where
  "sweep_groups W [] s = (s, [])"
| "sweep_groups W ((worktree_id, records) # groups) s = (case iw_policies W worktree_id s of
     (t, Inl e) \<Rightarrow> sweep_groups W groups (on_world (iw_error W e) t)
   | (t, Inr policies) \<Rightarrow> (let (u, stopped) = suspend_records W policies records t; (v, others) = sweep_groups W groups u
       in (v, stopped @ others)))"

definition sweep_locked :: "('w, 'e) idle_world \<Rightarrow> ('w, 'e + process_row list) suspender_action" where
  "sweep_locked W s = (case iw_list W None (snd s) of
     Inl e \<Rightarrow> (s, Inl e)
   | Inr records \<Rightarrow> (let running = filter (\<lambda>r. mp_state r = PS_RUNNING \<and> \<not> mp_cleanup_required r) records;
         (t, stopped) = sweep_groups W (group_by_worktree running) (prune_activity running (fst s), snd s)
       in (t, Inr stopped)))"

definition sweep :: "('w, 'e) idle_world \<Rightarrow> ('w, process_row list) suspender_action" where
  "sweep W s = (if sus_closed (fst s) \<or> sus_sweeping (fst s) then (s, [])
     else case sweep_locked W ((fst s)\<lparr>sus_sweeping := True\<rparr>, snd s) of
         (t, Inl e) \<Rightarrow> (((fst t)\<lparr>sus_sweeping := False\<rparr>, iw_error W e (snd t)), [])
       | (t, Inr stopped) \<Rightarrow> (((fst t)\<lparr>sus_sweeping := False\<rparr>, snd t), stopped))"

section \<open>Bounds of the windows\<close>

lemma bounded_duration: "bounded_task_duration_ms fp v lo hi = Some ms \<Longrightarrow> lo \<le> ms \<and> ms \<le> hi"
  by (auto simp: bounded_task_duration_ms_def Let_def split: option.splits if_splits)

lemma task_idle_policy_bounds:
  assumes "task_idle_policy fp task = Some p"
  shows "1000 \<le> ip_timeout_ms p \<and> ip_timeout_ms p \<le> 86400000"
proof -
  from assms obtain v ms where "idle_timeout_ms fp v = Some ms" "ip_timeout_ms p = ms"
    by (auto simp: task_idle_policy_def split: option.splits if_splits)
  then show ?thesis
    by (auto simp: idle_timeout_ms_def minimum_idle_timeout_ms_def maximum_task_duration_ms_def dest: bounded_duration)
qed

lemma idle_policy_bounds:
  assumes "(name, p) \<in> set (idle_policies fp tasks)"
  shows "1000 \<le> ip_timeout_ms p \<and> ip_timeout_ms p \<le> 86400000"
proof -
  from assms obtain view where "task_idle_policy fp (Some view) = Some p"
    by (auto simp: idle_policies_def split: option.splits)
  then show ?thesis by (rule task_idle_policy_bounds)
qed

section \<open>What a sweep may stop\<close>

text \<open>Everything but the stop keeps \<open>P\<close>, and time does not run backwards while a note is written.\<close>

definition idle_world_keeps :: "('w \<Rightarrow> bool) \<Rightarrow> ('w, 'e) idle_world \<Rightarrow> bool" where
  "idle_world_keeps P W \<longleftrightarrow>
     (\<forall>i s. P (snd s) \<longrightarrow> P (snd (fst (iw_policies W i s)))) \<and>
     (\<forall>r line s. P (snd s) \<longrightarrow> P (snd (fst (iw_note W r line s)))) \<and>
     (\<forall>r w. P w \<longrightarrow> P (fst (iw_on_suspended W r w))) \<and> (\<forall>e w. P w \<longrightarrow> P (iw_error W e w)) \<and>
     (\<forall>r line s. iw_now W (snd s) \<le> iw_now W (snd (fst (iw_note W r line s)))) \<and> (\<forall>e w. iw_now W w \<le> iw_now W (iw_error W e w))"

text \<open>
  A stop that is justified: the process runs and may be suspended, its worktree's policies name its task, the
  suspender is open, and the last interaction is at least the window ago.
\<close>

definition listed_running :: "('w, 'e) idle_world \<Rightarrow> process_row \<Rightarrow> bool" where
  "listed_running W r \<longleftrightarrow> (\<exists>w records. iw_list W None w = Inr records \<and> r \<in> set records \<and> mp_state r = PS_RUNNING \<and> \<not> mp_cleanup_required r)"

definition justified_stop :: "('w, 'e) idle_world \<Rightarrow> process_row \<Rightarrow> idle_suspender \<times> 'w \<Rightarrow> bool" where
  "justified_stop W r u \<longleftrightarrow> \<not> sus_closed (fst u) \<and> listed_running W r \<and>
     (\<exists>s t policies policy since. iw_policies W (mp_worktree_id r) s = (t, Inr policies) \<and>
        map_of policies (mp_task_name r) = Some policy \<and> sus_activity (fst u) (record_key r) = Some since \<and>
        ip_timeout_ms policy \<le> iw_now W (snd u) - since \<and>
        (int (mp_started_at r) \<le> since \<or> ip_timeout_ms policy \<le> 0))"

text \<open>From \<open>s\<close> to \<open>t\<close>, \<open>P\<close> is kept unless a justified stop broke it.\<close>

definition kept_or_stopped ::
  "('w \<Rightarrow> bool) \<Rightarrow> ('w, 'e) idle_world \<Rightarrow> idle_suspender \<times> 'w \<Rightarrow> idle_suspender \<times> 'w \<Rightarrow> bool" where
  "kept_or_stopped P W s t \<longleftrightarrow> (P (snd s) \<and> \<not> P (snd t) \<longrightarrow>
     (\<exists>r u. justified_stop W r u \<and> P (snd u) \<and> \<not> P (snd (fst (iw_stop W r u)))))"

lemma kept_trans: "kept_or_stopped P W s t \<Longrightarrow> kept_or_stopped P W t u \<Longrightarrow> kept_or_stopped P W s u"
  by (auto simp: kept_or_stopped_def)

lemma kept_keeps: "(P (snd s) \<Longrightarrow> P (snd t)) \<Longrightarrow> kept_or_stopped P W s t"
  by (auto simp: kept_or_stopped_def)

lemma keepsD:
  assumes "idle_world_keeps P W"
  shows "P (snd s) \<Longrightarrow> P (snd (fst (iw_policies W i s)))" "P (snd s) \<Longrightarrow> P (snd (fst (iw_note W r line s)))"
    "P w \<Longrightarrow> P (fst (iw_on_suspended W r w))" "P w \<Longrightarrow> P (iw_error W e w)"
    "iw_now W (snd s) \<le> iw_now W (snd (fst (iw_note W r line s)))" "iw_now W w \<le> iw_now W (iw_error W e w)"
  using assms unfolding idle_world_keeps_def by blast+

lemma stop_idle_kept:
  assumes "idle_world_keeps P W" and "justified_stop W r u"
  shows "kept_or_stopped P W u (fst (stop_idle W r u))"
proof -
  have "kept_or_stopped P W u (fst (iw_stop W r u))" unfolding kept_or_stopped_def using assms(2) by blast
  moreover have "kept_or_stopped P W (fst (iw_stop W r u)) (fst (stop_idle W r u))"
    by (rule kept_keeps) (auto simp: stop_idle_def case_prod_beta on_world_def Let_def keepsD [OF assms(1)] split: sum.split)
  ultimately show ?thesis by (rule kept_trans)
qed

lemma suspend_if_idle_kept:
  assumes "idle_world_keeps P W" and "listed_running W r" and "iw_policies W (mp_worktree_id r) s0 = (t0, Inr policies)"
    and "map_of policies (mp_task_name r) = Some policy"
  shows "kept_or_stopped P W s (fst (suspend_if_idle W r policy s))"
proof -
  define now where "now = iw_now W (snd s)"
  define since where "since = (case sus_activity (fst s) (record_key r) of None \<Rightarrow> now | Some touched \<Rightarrow> max touched (int (mp_started_at r)))"
  define t where "t = (set_activity (record_key r) since (fst s), snd s)"
  define n where "n = iw_note W r (note_line r policy) t"
  define v where "v = (case snd n of Inl e \<Rightarrow> on_world (iw_error W e) (fst n) | Inr _ \<Rightarrow> fst n)"
  have e: "suspend_if_idle W r policy s = (if now - since < ip_timeout_ms policy then (t, None)
     else if sus_closed (fst v) \<or> sus_activity (fst v) (record_key r) \<noteq> Some since then (v, None) else stop_idle W r v)"
    by (simp only: suspend_if_idle_def v_def n_def t_def since_def now_def Let_def case_prod_beta)
  have v: "P (snd s) \<Longrightarrow> P (snd v)" "now \<le> iw_now W (snd v)"
  proof -
    have n: "P (snd s) \<Longrightarrow> P (snd (fst n))" "now \<le> iw_now W (snd (fst n))"
      using keepsD(2) [OF assms(1), of t r "note_line r policy"] keepsD(5) [OF assms(1), of t r "note_line r policy"]
      by (simp_all add: n_def t_def now_def)
    then show "P (snd s) \<Longrightarrow> P (snd v)" "now \<le> iw_now W (snd v)"
      using keepsD(4,6) [OF assms(1)] by (auto simp: v_def on_world_def intro: order_trans split: sum.split)
  qed
  show ?thesis
  proof (cases "\<not> now - since < ip_timeout_ms policy \<and> \<not> sus_closed (fst v) \<and> sus_activity (fst v) (record_key r) = Some since")
    case True
    have "int (mp_started_at r) \<le> since \<or> ip_timeout_ms policy \<le> 0" using True by (auto simp: since_def split: option.splits)
    moreover have "ip_timeout_ms policy \<le> iw_now W (snd v) - since" using True v(2) by linarith
    ultimately have "justified_stop W r v" unfolding justified_stop_def using True assms(2-4) by blast
    from kept_trans [OF kept_keeps stop_idle_kept [OF assms(1) this]] v(1) e True show ?thesis by simp
  next
    case False
    then have "fst (suspend_if_idle W r policy s) = t \<or> fst (suspend_if_idle W r policy s) = v" by (auto simp: e)
    then show ?thesis using v(1) by (auto simp: t_def intro: kept_keeps)
  qed
qed

lemma suspend_records_kept:
  assumes "idle_world_keeps P W" and "iw_policies W i s0 = (t0, Inr policies)"
    and "\<forall>r\<in>set records. listed_running W r \<and> mp_worktree_id r = i"
  shows "kept_or_stopped P W s (fst (suspend_records W policies records s))"
  using assms(3)
proof (induction records arbitrary: s)
  case Nil
  show ?case by (rule kept_keeps) simp
next
  case (Cons r records)
  show ?case
  proof (cases "map_of policies (mp_task_name r)")
    case None
    with Cons show ?thesis by simp
  next
    case (Some policy)
    from Cons.prems have r: "listed_running W r" "mp_worktree_id r = i" by simp_all
    from suspend_if_idle_kept [OF assms(1) r(1) _ Some, of s0 t0 s] r(2) assms(2)
    have "kept_or_stopped P W s (fst (suspend_if_idle W r policy s))" by simp
    moreover have "kept_or_stopped P W u (fst (suspend_records W policies records u))" for u using Cons by simp
    ultimately have "kept_or_stopped P W s (fst (suspend_records W policies records (fst (suspend_if_idle W r policy s))))"
      by (rule kept_trans)
    then show ?thesis by (simp add: Some case_prod_beta Let_def)
  qed
qed

lemma add_to_group_members:
  "(i, records) \<in> set (add_to_group r groups) \<Longrightarrow> x \<in> set records \<Longrightarrow>
   x = r \<and> mp_worktree_id x = i \<or> (\<exists>old. (i, old) \<in> set groups \<and> x \<in> set old)"
  by (induction r groups rule: add_to_group.induct) (auto split: if_splits)

lemma group_members:
  "(i, records) \<in> set (group_by_worktree rs) \<Longrightarrow> x \<in> set records \<Longrightarrow> x \<in> set rs \<and> mp_worktree_id x = i"
proof (induction rs arbitrary: i records rule: rev_induct)
  case (snoc r rs)
  then have "(i, records) \<in> set (add_to_group r (group_by_worktree rs))" by (simp add: group_by_worktree_def)
  from add_to_group_members [OF this snoc.prems(2)] snoc.IH show ?case by auto
qed (simp add: group_by_worktree_def)

lemma sweep_groups_kept:
  assumes "idle_world_keeps P W" and "\<forall>(i, records)\<in>set groups. \<forall>r\<in>set records. listed_running W r \<and> mp_worktree_id r = i"
  shows "kept_or_stopped P W s (fst (sweep_groups W groups s))"
  using assms(2)
proof (induction groups arbitrary: s)
  case Nil
  show ?case by (rule kept_keeps) simp
next
  case (Cons g groups)
  obtain i records where g: "g = (i, records)" by (rule prod.exhaust)
  obtain t x where p: "iw_policies W i s = (t, x)" by (rule prod.exhaust)
  have t: "kept_or_stopped P W s t" using keepsD(1) [OF assms(1), of s i] p by (intro kept_keeps) simp
  show ?case
  proof (cases x)
    case (Inl e)
    have "kept_or_stopped P W t (on_world (iw_error W e) t)" using keepsD(4) [OF assms(1)] by (intro kept_keeps) (simp add: on_world_def)
    from kept_trans [OF kept_trans [OF t this] Cons.IH] Cons.prems g p Inl show ?thesis by simp
  next
    case (Inr policies)
    have "kept_or_stopped P W t (fst (suspend_records W policies records t))"
      using suspend_records_kept [OF assms(1)] p Inr Cons.prems g by auto
    from kept_trans [OF kept_trans [OF t this] Cons.IH] Cons.prems g p Inr show ?thesis by (simp add: case_prod_beta Let_def)
  qed
qed

lemma sweep_kept:
  assumes "idle_world_keeps P W"
  shows "kept_or_stopped P W s (fst (sweep W s))"
proof (cases "sus_closed (fst s) \<or> sus_sweeping (fst s)")
  case True
  then show ?thesis by (auto simp: sweep_def intro: kept_keeps)
next
  case False
  define u where "u = ((fst s)\<lparr>sus_sweeping := True\<rparr>, snd s)"
  show ?thesis
  proof (cases "iw_list W None (snd s)")
    case (Inl e)
    with False keepsD(4) [OF assms] show ?thesis by (auto simp: sweep_def sweep_locked_def intro: kept_keeps)
  next
    case (Inr records)
    define running where "running = filter (\<lambda>r. mp_state r = PS_RUNNING \<and> \<not> mp_cleanup_required r) records"
    let ?g = "sweep_groups W (group_by_worktree running) (prune_activity running (fst u), snd u)"
    have "\<forall>(i, rs)\<in>set (group_by_worktree running). \<forall>r\<in>set rs. listed_running W r \<and> mp_worktree_id r = i"
    proof (clarify, intro conjI)
      fix i rs r
      assume r: "(i, rs) \<in> set (group_by_worktree running)" "r \<in> set rs"
      from group_members [OF this] have m: "r \<in> set running" "mp_worktree_id r = i" by simp_all
      show "listed_running W r" unfolding listed_running_def using Inr m(1) by (auto simp: running_def)
      show "mp_worktree_id r = i" by (rule m(2))
    qed
    from sweep_groups_kept [OF assms this] have "kept_or_stopped P W (prune_activity running (fst u), snd u) (fst ?g)" .
    then have "kept_or_stopped P W s (fst ?g)" by (simp add: kept_or_stopped_def u_def)
    then show ?thesis using False Inr
      by (simp add: sweep_def sweep_locked_def Let_def case_prod_beta running_def u_def kept_or_stopped_def)
  qed
qed

section \<open>A concrete sweep\<close>

definition demo_process :: process_row where
  "demo_process = \<lparr> mp_id = ''p'', mp_worktree_id = ''w'', mp_task_name = ''t'', mp_pid = 2, mp_pgid = 2, mp_process_start_time = [],
     mp_command_fingerprint = [], mp_state = PS_RUNNING, mp_started_at = 0, mp_stopped_at = None, mp_stdout_path = [],
     mp_stderr_path = [], mp_cleanup_required = False, mp_cleanup_owner_token = None, mp_exit_code = None, mp_exit_signal = None \<rparr>"

text \<open>The world is the clock and whether the process runs.\<close>

definition demo_idle_world :: "(int \<times> bool, unit) idle_world" where
  "demo_idle_world = \<lparr> iw_list = (\<lambda>i w. Inr (if snd w then [demo_process] else [])),
     iw_policies = (\<lambda>i s. (s, Inr [(''t'', \<lparr> ip_timeout_ms = 1000, ip_timeout = ''1s'' \<rparr>)])),
     iw_note = (\<lambda>r line s. (s, Inr ())), iw_stop = (\<lambda>r s. ((fst s, (fst (snd s), False)), Inr (r\<lparr>mp_state := PS_STOPPED\<rparr>))),
     iw_on_suspended = (\<lambda>r w. (w, Inr ())), iw_error = (\<lambda>e w. w), iw_now = fst \<rparr>"

definition demo_suspender :: idle_suspender where
  "demo_suspender = \<lparr> sus_activity = [record_key demo_process \<mapsto> 500], sus_timer = True, sus_sweeping = False, sus_closed = False,
     sus_interval = 5000 \<rparr>"

lemma demo_sweep: "snd (fst (sweep demo_idle_world (demo_suspender, (2000, True)))) = (2000, False)"
  by (simp add: sweep_def sweep_locked_def demo_idle_world_def demo_suspender_def demo_process_def group_by_worktree_def
      prune_activity_def suspend_if_idle_def stop_idle_def record_key_def set_activity_def Let_def)

section \<open>Properties\<close>

text \<open>
  C11. A sweep stops idle tasks only. Whatever a sweep breaks that its other calls keep (that a process runs, say; they do not turn the clock back either) it
  breaks by stopping a process it may stop: one that was listed as running and not in repair, whose task opted in,
  in an open suspender, and whose last interaction is still at least its window ago when the stop is made, however
  long the note before it took and whatever requests came in; an interaction before the start of the process does
  not count.
\<close>

theorem only_idle_tasks_are_stopped:
  assumes "idle_world_keeps P W" and "sweep W s = (t, stopped)" and "P (snd s)" and "\<not> P (snd t)"
  shows "\<exists>r u. justified_stop W r u \<and> P (snd u) \<and> \<not> P (snd (fst (iw_stop W r u)))"
  using sweep_kept [OF assms(1), of s] assms(2-4) by (simp add: kept_or_stopped_def)

theorem only_idle_tasks_are_stopped_witness:
  "\<exists>r u. justified_stop demo_idle_world r u \<and> snd (snd u) \<and> \<not> snd (snd (fst (iw_stop demo_idle_world r u)))"
proof -
  have keeps: "idle_world_keeps snd demo_idle_world" by (simp add: idle_world_keeps_def demo_idle_world_def)
  obtain t stopped where s: "sweep demo_idle_world (demo_suspender, (2000, True)) = (t, stopped)" by (rule prod.exhaust)
  with demo_sweep have "\<not> snd (snd t)" by simp
  from only_idle_tasks_are_stopped [OF keeps s _ this] show ?thesis by simp
qed

end
