(* ===== verification/Gc_Plan.thy ===== *)
theory Gc_Plan
  imports Resource_Store Paths "HOL-Library.Multiset"
begin

text \<open>
  The plan of a garbage collection (\<open>buildGcPlan\<close> in \<open>packages/core/src/resources/gc.ts\<close>): which recorded objects of
  a sandbox may be deleted, and why each other one may not. \<open>Date.parse\<close> and \<open>toISOString\<close> are arguments, times are whole
  milliseconds, and \<open>cwd\<close> is the working directory against which paths are resolved.
\<close>

section \<open>Definitions\<close>

record sandbox_identity =
  sx_id :: ident
  sx_root :: string
  sx_generation :: string
  sx_dev :: int
  sx_ino :: int
  sx_uid :: int

text \<open>What identifies an object is what a lease on it asks for; the evidence adds to it.\<close>

record gc_evidence = cleanup_request +
  gv_sandbox_root :: string
  gv_reference_count :: int
  gv_owned :: bool
  gv_last_used_at :: string
  gv_logical_bytes :: int
  gv_allocated_bytes :: int
  gv_cleanup_lease_token :: "string option"

datatype exclusion_reason = Live_Reference | Unknown_Ownership | Is_Persistent | Minimum_Age | Active_Cleanup_Lease
  | Not_Stale | Sandbox_Mismatch | Unsafe_Path

record gc_exclusion =
  gx_storage_object_id :: ident
  gx_path :: string
  gx_reason :: exclusion_reason

record gc_plan =
  gp_sandbox :: sandbox_identity
  gp_planned_at :: string
  gp_minimum_age_ms :: int
  gp_candidates :: "gc_evidence list"
  gp_excluded :: "gc_exclusion list"

text \<open>A minimum age that is not finite is refused.\<close>

datatype age_bound = Age int | Age_Not_Finite

record gc_plan_input =
  gi_sandbox :: sandbox_identity
  gi_records :: "gc_evidence list"
  gi_now :: string
  gi_minimum_age_ms :: "age_bound option"

datatype gc_plan_error = Bad_Minimum_Age | Bad_Now

definition glob_char :: "char \<Rightarrow> bool" where
  "glob_char c \<longleftrightarrow> c \<in> set ''$*?{}''"

definition is_safe_candidate_path :: "string \<Rightarrow> string \<Rightarrow> string \<Rightarrow> bool" where
  "is_safe_candidate_path cwd path sandbox_root =
    (if \<not> starts_with ''/'' path \<or> resolve_path cwd path \<noteq> path \<or> list_ex glob_char path then False
     else let nested = relative_path cwd (resolve_path cwd sandbox_root) path in
       if nested = [] \<or> nested = ''..'' \<or> starts_with ''../'' nested \<or> starts_with ''/'' nested then False
       else ''.git'' \<notin> set (split_on (CHR ''/'') nested))"

definition exclusion_reason_of ::
  "string \<Rightarrow> (string \<Rightarrow> int option) \<Rightarrow> gc_evidence \<Rightarrow> sandbox_identity \<Rightarrow> int \<Rightarrow> int \<Rightarrow> exclusion_reason option" where
  "exclusion_reason_of cwd date_parse r sandbox now minimum_age =
    (if \<not> gv_owned r then Some Unknown_Ownership
     else if cr_retention r = Persistent then Some Is_Persistent
     else if gv_reference_count r \<noteq> 0 then Some Live_Reference
     else if gv_cleanup_lease_token r \<noteq> None \<and> gv_cleanup_lease_token r \<noteq> Some [] then Some Active_Cleanup_Lease
     else if cr_state r \<noteq> SO_STALE \<and> cr_state r \<noteq> SO_ORPHANED \<and> cr_state r \<noteq> SO_QUARANTINED then Some Not_Stale
     else if cr_sandbox_id r \<noteq> sx_id sandbox
       \<or> resolve_path cwd (gv_sandbox_root r) \<noteq> resolve_path cwd (sx_root sandbox)
       \<or> cr_sandbox_generation r \<noteq> sx_generation sandbox then Some Sandbox_Mismatch
     else if \<not> is_safe_candidate_path cwd (cr_path r) (sx_root sandbox) then Some Unsafe_Path
     else (case date_parse (gv_last_used_at r) of
         None \<Rightarrow> Some Minimum_Age
       | Some last_used \<Rightarrow> if now - last_used < minimum_age then Some Minimum_Age else None))"

definition candidate_of :: "string \<Rightarrow> gc_evidence \<Rightarrow> gc_evidence" where
  "candidate_of cwd r = r\<lparr>cr_path := resolve_path cwd (cr_path r)\<rparr>"

definition exclusion_of :: "gc_evidence \<Rightarrow> exclusion_reason \<Rightarrow> gc_exclusion" where
  "exclusion_of r reason = \<lparr> gx_storage_object_id = cr_storage_object_id r, gx_path = cr_path r, gx_reason = reason \<rparr>"

text \<open>The loop over the records with its two lists.\<close>

fun sort_records ::
  "(gc_evidence \<Rightarrow> exclusion_reason option) \<Rightarrow> string \<Rightarrow> gc_evidence list \<Rightarrow> gc_evidence list \<Rightarrow> gc_exclusion list
   \<Rightarrow> gc_evidence list \<times> gc_exclusion list" where
  "sort_records reason_of cwd [] candidates excluded = (candidates, excluded)"
| "sort_records reason_of cwd (r # rs) candidates excluded =
    (case reason_of r of
       None \<Rightarrow> sort_records reason_of cwd rs (candidates @ [candidate_of cwd r]) excluded
     | Some reason \<Rightarrow> sort_records reason_of cwd rs candidates (excluded @ [exclusion_of r reason]))"

definition build_gc_plan ::
  "string \<Rightarrow> (string \<Rightarrow> int option) \<Rightarrow> (int \<Rightarrow> string) \<Rightarrow> gc_plan_input \<Rightarrow> gc_plan_error + gc_plan" where
  "build_gc_plan cwd date_parse iso_text i =
    (case (case gi_minimum_age_ms i of None \<Rightarrow> Age 0 | Some bound \<Rightarrow> bound) of
       Age_Not_Finite \<Rightarrow> Inl Bad_Minimum_Age
     | Age minimum_age \<Rightarrow>
       if minimum_age < 0 then Inl Bad_Minimum_Age
       else (case date_parse (gi_now i) of
           None \<Rightarrow> Inl Bad_Now
         | Some now \<Rightarrow>
           (case sort_records (\<lambda>r. exclusion_reason_of cwd date_parse r (gi_sandbox i) now minimum_age) cwd (gi_records i) [] [] of
              (candidates, excluded) \<Rightarrow>
                Inr \<lparr> gp_sandbox = (gi_sandbox i)\<lparr>sx_root := resolve_path cwd (sx_root (gi_sandbox i))\<rparr>,
                  gp_planned_at = iso_text now, gp_minimum_age_ms = minimum_age,
                  gp_candidates = sort_key (\<lambda>c. (cr_path c, cr_storage_object_id c)) candidates,
                  gp_excluded = sort_key (\<lambda>x. (gx_path x, gx_storage_object_id x)) excluded \<rparr>)))"

section \<open>The loop\<close>

lemma sort_records_result:
  "sort_records reason_of cwd rs candidates excluded =
   (candidates @ map (candidate_of cwd) (filter (\<lambda>r. reason_of r = None) rs),
    excluded @ concat (map (\<lambda>r. case reason_of r of None \<Rightarrow> [] | Some reason \<Rightarrow> [exclusion_of r reason]) rs))"
  by (induction rs arbitrary: candidates excluded) (auto split: option.split)

lemma build_gc_plan_result:
  assumes "build_gc_plan cwd date_parse iso_text i = Inr plan"
  obtains now minimum_age where "date_parse (gi_now i) = Some now" and "0 \<le> minimum_age" and "gp_minimum_age_ms plan = minimum_age"
    and "gi_minimum_age_ms i = None \<and> minimum_age = 0 \<or> gi_minimum_age_ms i = Some (Age minimum_age)"
    and "mset (gp_candidates plan) = mset (map (candidate_of cwd)
      (filter (\<lambda>r. exclusion_reason_of cwd date_parse r (gi_sandbox i) now minimum_age = None) (gi_records i)))"
    and "mset (gp_excluded plan) = mset (concat (map (\<lambda>r. case exclusion_reason_of cwd date_parse r (gi_sandbox i) now minimum_age
        of None \<Rightarrow> [] | Some reason \<Rightarrow> [exclusion_of r reason]) (gi_records i)))"
  using assms by (auto simp: build_gc_plan_def sort_records_result split: option.splits age_bound.splits if_splits)

text \<open>Of a path that is its own resolution, what lies below a root is the rest of its segments.\<close>

lemma relative_inside:
  assumes "nested = relative_path cwd root path" and "nested \<noteq> []" and "nested \<noteq> ''..''" and "\<not> starts_with ''../'' nested"
  shows "\<exists>segs. segs \<noteq> [] \<and> path_segments cwd path = path_segments cwd root @ segs \<and> split_on (CHR ''/'') nested = segs"
proof -
  define f t k where "f = path_segments cwd root" and "t = path_segments cwd path" and "k = common_length f t"
  have nested: "nested = join_with ''/'' (replicate (length f - k) ''..'' @ drop k t)"
    using assms(1) by (simp add: relative_path_def f_def t_def k_def Let_def)
  have "length f - k = 0"
  proof (cases "length f - k")
    case (Suc n)
    show ?thesis
    proof (cases "replicate n ''..'' @ drop k t")
      case Nil
      with Suc nested assms(3) show ?thesis by simp
    next
      case (Cons seg rest)
      with Suc have "nested = ''..'' @ ''/'' @ join_with ''/'' (replicate n ''..'' @ drop k t)"
        by (simp add: nested join_cons)
      with assms(4) show ?thesis by (simp add: starts_with_iff)
    qed
  qed simp
  have common: "take (common_length xs ys) xs = take (common_length xs ys) ys \<and> common_length xs ys \<le> length xs" for xs ys :: "string list"
    by (induction xs ys rule: common_length.induct) auto
  have k: "k = length f" using \<open>length f - k = 0\<close> common [of f t] unfolding k_def by linarith
  moreover have "take k f = take k t" using common [of f t] unfolding k_def by blast
  ultimately have t: "t = f @ drop k t" by (metis append_take_drop_id order_refl take_all)
  have nested': "nested = join_with ''/'' (drop k t)" using nested \<open>length f - k = 0\<close> by simp
  with assms(2) have ne: "drop k t \<noteq> []" by auto
  have "list_all (\<lambda>seg. CHR ''/'' \<notin> set seg) (drop k t)"
    using path_segments_plain [of cwd path] unfolding t_def [symmetric] plain_segment_def list_all_iff by (meson in_set_dropD)
  with ne have "split_on (CHR ''/'') nested = drop k t" unfolding nested' by (rule split_join)
  with ne t show ?thesis unfolding f_def t_def by blast
qed

section \<open>Properties\<close>

text \<open>
  The segments of a path that lie below a sandbox: the path is absolute and its own resolution, and none of them
  names git's administrative directory.
\<close>

definition inside_sandbox :: "string \<Rightarrow> string \<Rightarrow> string \<Rightarrow> bool" where
  "inside_sandbox cwd root path \<longleftrightarrow>
    (\<exists>segs. segs \<noteq> [] \<and> ''.git'' \<notin> set segs \<and> ''..'' \<notin> set segs \<and> path_segments cwd path = path_segments cwd root @ segs)"

lemma safe_candidate_inside:
  assumes "is_safe_candidate_path cwd path root"
  shows "resolve_path cwd path = path \<and> inside_sandbox cwd root path"
proof -
  let ?nested = "relative_path cwd (resolve_path cwd root) path"
  from assms have p: "resolve_path cwd path = path" "?nested \<noteq> []" "?nested \<noteq> ''..''" "\<not> starts_with ''../'' ?nested"
    "''.git'' \<notin> set (split_on (CHR ''/'') ?nested)" by (auto simp: is_safe_candidate_path_def Let_def split: if_splits)
  from relative_inside [OF HOL.refl p(2-4)] obtain segs where segs: "segs \<noteq> []"
    "path_segments cwd path = path_segments cwd root @ segs" "split_on (CHR ''/'') ?nested = segs" unfolding segments_resolved by blast
  have "list_all plain_segment segs" using path_segments_plain [of cwd path] unfolding segs(2) by simp
  then have "''..'' \<notin> set segs" by (auto simp: list_all_iff plain_segment_def)
  with segs p(1,5) show ?thesis by (auto simp: inside_sandbox_def)
qed

definition collectable :: "string \<Rightarrow> (string \<Rightarrow> int option) \<Rightarrow> sandbox_identity \<Rightarrow> int \<Rightarrow> int \<Rightarrow> gc_evidence \<Rightarrow> bool" where
  "collectable cwd date_parse sandbox now minimum_age c \<longleftrightarrow>
     gv_owned c \<and> cr_retention c = Ephemeral \<and> gv_reference_count c = 0 \<and>
     (gv_cleanup_lease_token c = None \<or> gv_cleanup_lease_token c = Some []) \<and> cr_state c \<in> {SO_STALE, SO_ORPHANED, SO_QUARANTINED} \<and>
     cr_sandbox_id c = sx_id sandbox \<and> cr_sandbox_generation c = sx_generation sandbox \<and>
     inside_sandbox cwd (sx_root sandbox) (cr_path c) \<and> resolve_path cwd (cr_path c) = cr_path c \<and>
     (\<exists>last_used. date_parse (gv_last_used_at c) = Some last_used \<and> minimum_age \<le> now - last_used)"

lemma no_reason_collectable:
  assumes "exclusion_reason_of cwd date_parse r sandbox now minimum_age = None"
  shows "collectable cwd date_parse sandbox now minimum_age r"
proof -
  have safe: "is_safe_candidate_path cwd (cr_path r) (sx_root sandbox)"
    using assms by (simp add: exclusion_reason_of_def split: if_splits)
  have "cr_retention r = Ephemeral" using assms by (cases "cr_retention r") (simp_all add: exclusion_reason_of_def split: if_splits)
  moreover obtain last_used where "date_parse (gv_last_used_at r) = Some last_used" "\<not> now - last_used < minimum_age"
    using assms by (cases "date_parse (gv_last_used_at r)") (simp_all add: exclusion_reason_of_def split: if_splits)
  ultimately show ?thesis
    using assms safe_candidate_inside [OF safe] unfolding collectable_def
    by (auto simp: exclusion_reason_of_def split: if_splits)
qed

text \<open>
  C8. A plan collects garbage only, and accounts for everything: each candidate is a recorded object that the program
  owns, that is ephemeral, unreferenced and unleased, stale, orphaned or left in quarantine, of this generation of this
  sandbox, strictly inside its root and not below a \<open>.git\<close> directory, and unused for at least the minimum age; the
  candidates and the exclusions together are the records, each once; candidates come in the order of their paths.
\<close>

theorem plan_collects_garbage_only:
  assumes "build_gc_plan cwd date_parse iso_text i = Inr plan"
  shows "\<exists>now. date_parse (gi_now i) = Some now \<and>
    (\<forall>c\<in>set (gp_candidates plan). c \<in> set (gi_records i) \<and> collectable cwd date_parse (gi_sandbox i) now (gp_minimum_age_ms plan) c) \<and>
    mset (map cr_storage_object_id (gi_records i)) =
      mset (map cr_storage_object_id (gp_candidates plan)) + mset (map gx_storage_object_id (gp_excluded plan)) \<and>
    sorted (map (\<lambda>c. (cr_path c, cr_storage_object_id c)) (gp_candidates plan))"
proof -
  obtain now minimum_age where now: "date_parse (gi_now i) = Some now" "gp_minimum_age_ms plan = minimum_age"
    and cands: "mset (gp_candidates plan) = mset (map (candidate_of cwd)
      (filter (\<lambda>r. exclusion_reason_of cwd date_parse r (gi_sandbox i) now minimum_age = None) (gi_records i)))"
    and excl: "mset (gp_excluded plan) = mset (concat (map (\<lambda>r. case exclusion_reason_of cwd date_parse r (gi_sandbox i) now minimum_age
        of None \<Rightarrow> [] | Some reason \<Rightarrow> [exclusion_of r reason]) (gi_records i)))"
    by (rule build_gc_plan_result [OF assms]) (rule that; assumption)
  let ?reason = "\<lambda>r. exclusion_reason_of cwd date_parse r (gi_sandbox i) now minimum_age"
  have "c \<in> set (gi_records i) \<and> collectable cwd date_parse (gi_sandbox i) now minimum_age c" if "c \<in> set (gp_candidates plan)" for c
  proof -
    from that mset_eq_setD [OF cands] obtain r where r: "r \<in> set (gi_records i)" "?reason r = None" "c = candidate_of cwd r"
      by auto
    from no_reason_collectable [OF r(2)] have "collectable cwd date_parse (gi_sandbox i) now minimum_age r" .
    moreover from this have "c = r" by (simp add: r(3) candidate_of_def collectable_def)
    ultimately show ?thesis using r(1) by simp
  qed
  moreover have "mset (map cr_storage_object_id rs) = mset (map cr_storage_object_id (map (candidate_of cwd) (filter (\<lambda>r. ?reason r = None) rs))) +
      mset (map gx_storage_object_id (concat (map (\<lambda>r. case ?reason r of None \<Rightarrow> [] | Some reason \<Rightarrow> [exclusion_of r reason]) rs)))" for rs
    by (induction rs) (auto simp: candidate_of_def exclusion_of_def split: option.split)
  then have "mset (map cr_storage_object_id (gi_records i)) =
      mset (map cr_storage_object_id (gp_candidates plan)) + mset (map gx_storage_object_id (gp_excluded plan))"
    by (simp only: mset_map cands excl)
  moreover have "sorted (map (\<lambda>c. (cr_path c, cr_storage_object_id c)) (gp_candidates plan))"
    using assms by (auto simp: build_gc_plan_def split: option.splits age_bound.splits if_splits prod.splits)
  ultimately show ?thesis using now by blast
qed

definition demo_evidence :: gc_evidence where
  "demo_evidence = \<lparr> cr_storage_object_id = ''o'', cr_sandbox_id = ''s'', cr_sandbox_generation = ''g'', cr_path = ''/r/cache'',
     cr_dev = 1, cr_ino = 7, cr_uid = 5, cr_kind = Kind_File, cr_state = SO_STALE, cr_retention = Ephemeral, gv_sandbox_root = ''/r'',
     gv_reference_count = 0, gv_owned = True, gv_last_used_at = ''old'', gv_logical_bytes = 1, gv_allocated_bytes = 1,
     gv_cleanup_lease_token = None \<rparr>"

definition demo_plan_input :: gc_plan_input where
  "demo_plan_input = \<lparr> gi_sandbox = \<lparr> sx_id = ''s'', sx_root = ''/r'', sx_generation = ''g'', sx_dev = 1, sx_ino = 2, sx_uid = 5 \<rparr>,
     gi_records = [demo_evidence\<lparr>cr_storage_object_id := ''q'', cr_path := ''/r/.git/config''\<rparr>, demo_evidence],
     gi_now = ''now'', gi_minimum_age_ms = Some (Age 10) \<rparr>"

definition demo_date :: "string \<Rightarrow> int option" where
  "demo_date t = (if t = ''now'' then Some 100 else if t = ''old'' then Some 50 else None)"

lemma plan_collects_garbage_only_witness:
  "\<exists>plan. build_gc_plan ''/'' demo_date (\<lambda>_. ''now'') demo_plan_input = Inr plan \<and>
    map cr_storage_object_id (gp_candidates plan) = [''o''] \<and> map gx_reason (gp_excluded plan) = [Unsafe_Path] \<and>
    {c \<in> set (gp_candidates plan). cr_retention c = Persistent} = {}"
proof -
  have "is_ok (build_gc_plan ''/'' demo_date (\<lambda>_. ''now'') demo_plan_input)" by code_simp
  then obtain plan where plan: "build_gc_plan ''/'' demo_date (\<lambda>_. ''now'') demo_plan_input = Inr plan"
    by (cases "build_gc_plan ''/'' demo_date (\<lambda>_. ''now'') demo_plan_input") auto
  have "(case build_gc_plan ''/'' demo_date (\<lambda>_. ''now'') demo_plan_input of Inl _ \<Rightarrow> False | Inr plan \<Rightarrow>
      map cr_storage_object_id (gp_candidates plan) = [''o''] \<and> map gx_reason (gp_excluded plan) = [Unsafe_Path])" by code_simp
  moreover have "{c \<in> set (gp_candidates plan). cr_retention c = Persistent} = {}"
    using plan_collects_garbage_only [OF plan] by (auto simp: collectable_def)
  ultimately show ?thesis using plan by simp
qed

end
