(* ===== verification/Gc_Engine.thy ===== *)
theory Gc_Engine
  imports Gc_Plan Operation_Lease
begin

text \<open>
  The engine that applies a plan (\<open>applyGcPlan\<close> in \<open>packages/core/src/resources/gc.ts\<close>): how a candidate is reserved,
  moved into a quarantine container and deleted there, with a journal entry before each step. The surroundings are a
  state \<open>'w\<close>; the file system, the resource guard, the trust policy, the leases, the journal and the hooks are
  operations on it, whose effect includes whatever other processes do meanwhile. Two \<open>lstat\<close>s that the code awaits
  together are made one after the other. The context of an error, which the results drop, is left out.
\<close>

section \<open>The surroundings\<close>

datatype gc_error = Gc_Error (error_code: "string option") (error_message: string)

type_synonym ('w, 'a) action = "'w \<Rightarrow> 'w \<times> (gc_error + 'a)"

definition succeed :: "'a \<Rightarrow> ('w, 'a) action" where
  "succeed a w = (w, Inr a)"

definition fail_with :: "gc_error \<Rightarrow> ('w, 'a) action" where
  "fail_with e w = (w, Inl e)"

definition followed_by :: "('w, 'a) action \<Rightarrow> ('a \<Rightarrow> ('w, 'b) action) \<Rightarrow> ('w, 'b) action" where
  "followed_by m k w = (case m w of (t, Inl e) \<Rightarrow> (t, Inl e) | (t, Inr a) \<Rightarrow> k a t)"

definition require :: "bool \<Rightarrow> gc_error \<Rightarrow> ('w, unit) action" where
  "require b e = (if b then succeed () else fail_with e)"

text \<open>An action on the surroundings beside the local variables of a function, and an assignment to those.\<close>

definition outside :: "('w, 'a) action \<Rightarrow> ('x \<times> 'w, 'a) action" where
  "outside m s = (case m (snd s) of (w, r) \<Rightarrow> ((fst s, w), r))"

definition assign :: "('x \<Rightarrow> 'x) \<Rightarrow> ('x \<times> 'w, unit) action" where
  "assign f s = ((f (fst s), snd s), Inr ())"

text \<open>What \<open>lstat\<close> tells of a node.\<close>

record node_stat =
  nt_directory :: bool
  nt_file :: bool
  nt_symlink :: bool
  nt_dev :: int
  nt_ino :: int
  nt_uid :: int
  nt_nlink :: int
  nt_mode :: int

datatype gc_intent = Intent_Write | Intent_Delete

datatype gc_hook = After_Container_Created cleanup_request string | Before_Quarantine cleanup_request
  | After_File_Link cleanup_request string | Before_File_Unlink cleanup_request string
  | After_File_Unlink cleanup_request string | After_Quarantine cleanup_request string
  | Before_Absent_Finalize cleanup_request | Before_Container_Cleanup string

text \<open>
  The file system, \<open>randomUUID\<close>, the resource guard with its authorizations \<open>'g\<close>, the pins \<open>'p\<close> of inodes, the
  trust policy and the hooks.
\<close>

record ('w, 'g, 'p) gc_world =
  gd_lstat :: "string \<Rightarrow> ('w, node_stat) action"
  gd_link :: "string \<Rightarrow> string \<Rightarrow> ('w, unit) action"
  gd_unlink :: "string \<Rightarrow> ('w, unit) action"
  gd_rename :: "string \<Rightarrow> string \<Rightarrow> ('w, unit) action"
  gd_mkdir :: "string \<Rightarrow> int \<Rightarrow> ('w, unit) action"
  gd_rmdir :: "string \<Rightarrow> ('w, unit) action"
  gd_readdir :: "string \<Rightarrow> ('w, string list) action"
  gd_chmod :: "string \<Rightarrow> int \<Rightarrow> ('w, unit) action"
  gd_uuid :: "('w, string) action"
  gd_authorize :: "string \<Rightarrow> gc_intent \<Rightarrow> ('w, 'g) action"
  gd_authorize_parent :: "string \<Rightarrow> gc_intent \<Rightarrow> ('w, 'g) action"
  gd_revalidate :: "'g \<Rightarrow> ('w, unit) action"
  gd_revalidate_parent :: "'g \<Rightarrow> ('w, unit) action"
  gd_pin :: "string \<Rightarrow> ('w, 'p option) action"
  gd_holds :: "'p \<Rightarrow> node_stat \<Rightarrow> ('w, bool) action"
  gd_close :: "'p \<Rightarrow> 'w \<Rightarrow> 'w"
  gd_owned_by_user :: "node_stat \<Rightarrow> string \<Rightarrow> ('w, bool) action"
  gd_owner_only :: "node_stat \<Rightarrow> string \<Rightarrow> int \<Rightarrow> ('w, bool) action"
  gd_not_shared :: "node_stat \<Rightarrow> bool"
  gd_hook :: "gc_hook \<Rightarrow> ('w, unit) action"

text \<open>The lease coordinator and the journal.\<close>

record 'w gc_lease =
  gl_acquire :: "cleanup_request \<Rightarrow> string \<Rightarrow> ('w, bool) action"
  gl_renew :: "cleanup_request \<Rightarrow> string \<Rightarrow> ('w, bool) action"
  gl_release :: "ident \<Rightarrow> string \<Rightarrow> bool \<Rightarrow> ('w, unit) action"
  gl_finalize :: "gc_journal_input \<Rightarrow> string \<Rightarrow> ('w, bool) action"

type_synonym 'w gc_journal = "gc_journal_input \<Rightarrow> ('w, unit) action"

definition cleanup_failed :: string where
  "cleanup_failed = ''RESOURCE_CLEANUP_FAILED''"

definition path_denied :: string where
  "path_denied = ''RESOURCE_PATH_DENIED''"

definition cleanup_failure :: "string \<Rightarrow> gc_error" where
  "cleanup_failure message = Gc_Error (Some cleanup_failed) message"

text \<open>
  Of \<open>node:path\<close> on a POSIX host: the parent and the last segment of a normalized absolute path, and the child of a
  normalized directory.
\<close>

definition dirname :: "string \<Rightarrow> string" where
  "dirname path = (let parent = rev (tl (dropWhile (\<lambda>c. c \<noteq> CHR ''/'') (rev path))) in if parent = [] then ''/'' else parent)"

definition basename :: "string \<Rightarrow> string" where
  "basename path = rev (takeWhile (\<lambda>c. c \<noteq> CHR ''/'') (rev path))"

definition join_path :: "string \<Rightarrow> string \<Rightarrow> string" where
  "join_path directory name = (if directory = ''/'' then ''/'' @ name else directory @ ''/'' @ name)"

definition lstat_if_exists :: "('w, 'g, 'p) gc_world \<Rightarrow> string \<Rightarrow> ('w, node_stat option) action" where
  "lstat_if_exists W path w =
    (case gd_lstat W path w of
       (t, Inr st) \<Rightarrow> (t, Inr (Some st))
     | (t, Inl e) \<Rightarrow> if error_code e = Some ''ENOENT'' then (t, Inr None) else (t, Inl e))"

section \<open>Identity\<close>

definition kind_matches :: "cleanup_request \<Rightarrow> node_stat \<Rightarrow> bool" where
  "kind_matches c st = (case cr_kind c of Kind_Directory \<Rightarrow> nt_directory st | Kind_File \<Rightarrow> nt_file st)"

definition shared_file :: "('w, 'g, 'p) gc_world \<Rightarrow> node_stat \<Rightarrow> bool" where
  "shared_file W st \<longleftrightarrow> nt_file st \<and> \<not> gd_not_shared W st"

definition assert_candidate_identity :: "('w, 'g, 'p) gc_world \<Rightarrow> cleanup_request \<Rightarrow> node_stat \<Rightarrow> ('w, unit) action" where
  "assert_candidate_identity W c st =
    require (kind_matches c st \<and> \<not> nt_symlink st \<and> nt_dev st = cr_dev c \<and> nt_ino st = cr_ino c \<and> nt_uid st = cr_uid c
        \<and> \<not> shared_file W st)
      (cleanup_failure ''GC candidate identity changed or is unsafe.'')"

definition assert_candidate_shape :: "('w, 'g, 'p) gc_world \<Rightarrow> cleanup_request \<Rightarrow> node_stat \<Rightarrow> ('w, unit) action" where
  "assert_candidate_shape W c st =
    require (kind_matches c st \<and> \<not> nt_symlink st \<and> nt_uid st = cr_uid c \<and> \<not> shared_file W st)
      (cleanup_failure ''The GC candidate is no longer a safe removal target.'')"

definition matches_candidate_identity :: "cleanup_request \<Rightarrow> node_stat \<Rightarrow> bool" where
  "matches_candidate_identity c st \<longleftrightarrow>
     \<not> nt_symlink st \<and> kind_matches c st \<and> nt_dev st = cr_dev c \<and> nt_ino st = cr_ino c \<and> nt_uid st = cr_uid c"

definition assert_identity_with_links :: "cleanup_request \<Rightarrow> node_stat \<Rightarrow> int \<Rightarrow> ('w, unit) action" where
  "assert_identity_with_links c st expected_links =
    require (cr_kind c = Kind_File \<and> nt_file st \<and> \<not> nt_symlink st \<and> nt_dev st = cr_dev c \<and> nt_ino st = cr_ino c
        \<and> nt_uid st = cr_uid c \<and> nt_nlink st = expected_links)
      (cleanup_failure ''GC file identity changed during no-replace quarantine.'')"

definition assert_exact_two_link_topology ::
  "('w, 'g, 'p) gc_world \<Rightarrow> cleanup_request \<Rightarrow> string \<Rightarrow> string \<Rightarrow> ('w, unit) action" where
  "assert_exact_two_link_topology W c original_path quarantine_path =
    followed_by (gd_lstat W original_path) (\<lambda>original.
    followed_by (gd_lstat W quarantine_path) (\<lambda>quarantine.
    followed_by (assert_identity_with_links c original 2) (\<lambda>_.
    followed_by (assert_identity_with_links c quarantine 2) (\<lambda>_.
    require (nt_dev original = nt_dev quarantine \<and> nt_ino original = nt_ino quarantine)
      (cleanup_failure ''GC file quarantine links do not identify the same inode.'')))))"

definition quarantine_container_identity ::
  "('w, 'g, 'p) gc_world \<Rightarrow> string \<Rightarrow> node_stat \<Rightarrow> ('w, quarantine_container) action" where
  "quarantine_container_identity W path st =
    (let outside_boundary = cleanup_failure ''GC quarantine container is outside its owner-only trust boundary.'' in
     followed_by (require (nt_directory st \<and> \<not> nt_symlink st) outside_boundary) (\<lambda>_.
     followed_by (gd_owned_by_user W st path) (\<lambda>owned.
     followed_by (require owned outside_boundary) (\<lambda>_.
     followed_by (gd_owner_only W st path 63) (\<lambda>owner_only.
     followed_by (require owner_only outside_boundary) (\<lambda>_.
     succeed \<lparr> qc_path = path, qc_dev = nt_dev st, qc_ino = nt_ino st, qc_uid = nt_uid st, qc_mode = nt_mode st \<rparr>))))))"

definition assert_container_identity :: "quarantine_container \<Rightarrow> node_stat \<Rightarrow> ('w, unit) action" where
  "assert_container_identity expected actual =
    require (nt_directory actual \<and> \<not> nt_symlink actual \<and> nt_dev actual = qc_dev expected \<and> nt_ino actual = qc_ino expected
        \<and> nt_uid actual = qc_uid expected \<and> nt_mode actual = qc_mode expected)
      (cleanup_failure ''GC quarantine container identity changed.'')"

definition remove_exact_quarantine_container :: "('w, 'g, 'p) gc_world \<Rightarrow> quarantine_container \<Rightarrow> ('w, unit) action" where
  "remove_exact_quarantine_container W container =
    followed_by (lstat_if_exists W (qc_path container)) (\<lambda>current. case current of
      None \<Rightarrow> succeed ()
    | Some st \<Rightarrow>
      followed_by (assert_container_identity container st) (\<lambda>_.
      followed_by (gd_readdir W (qc_path container)) (\<lambda>names.
      followed_by (require (names = []) (cleanup_failure ''GC quarantine container is not empty at cleanup.'')) (\<lambda>_.
      followed_by (gd_lstat W (qc_path container)) (\<lambda>final.
      followed_by (assert_container_identity container final) (\<lambda>_.
      gd_rmdir W (qc_path container)))))))"

definition assert_sandbox_identity :: "('w, 'g, 'p) gc_world \<Rightarrow> sandbox_identity \<Rightarrow> ('w, unit) action" where
  "assert_sandbox_identity W sandbox =
    (let changed = cleanup_failure ''The GC sandbox identity or trust boundary changed.'' in
     followed_by (gd_lstat W (sx_root sandbox)) (\<lambda>st.
     followed_by (require (nt_directory st \<and> \<not> nt_symlink st \<and> nt_dev st = sx_dev sandbox \<and> nt_ino st = sx_ino sandbox
         \<and> nt_uid st = sx_uid sandbox) changed) (\<lambda>_.
     followed_by (gd_owner_only W st (sx_root sandbox) 18) (\<lambda>trusted.
     require trusted changed))))"

section \<open>Deletion of a quarantine\<close>

text \<open>One action per element, in the order of the list.\<close>

primrec each :: "('a \<Rightarrow> ('w, unit) action) \<Rightarrow> 'a list \<Rightarrow> ('w, unit) action" where
  "each f [] = succeed ()"
| "each f (x # xs) = followed_by (f x) (\<lambda>_. each f xs)"

text \<open>
  One entry of the quarantine and what is below it. \<open>room\<close> is the number of levels left, \<open>maxDepth + 1 - depth\<close>; the local
  variable is the count of the entries seen.
\<close>

primrec remove_entry ::
  "nat \<Rightarrow> ('w, 'g, 'p) gc_world \<Rightarrow> cleanup_request \<Rightarrow> nat \<Rightarrow> ('w, unit) action \<Rightarrow> bool \<Rightarrow> string \<Rightarrow> (nat \<times> 'w, unit) action" where
  "remove_entry 0 W c max_entries before root path = fail_with (cleanup_failure ''GC traversal exceeded its configured bound.'')"
| "remove_entry (Suc room) W c max_entries before root path =
    followed_by (assign Suc) (\<lambda>_.
    followed_by (\<lambda>s. require (fst s \<le> max_entries) (cleanup_failure ''GC traversal exceeded its configured bound.'') s) (\<lambda>_.
    followed_by (outside (gd_lstat W path)) (\<lambda>st.
    followed_by (require (nt_uid st = cr_uid c \<and> \<not> nt_symlink st)
      (cleanup_failure ''GC quarantine contains an unowned or symbolic-link entry.'')) (\<lambda>_.
    followed_by (if root then outside (assert_candidate_identity W c st) else succeed ()) (\<lambda>_.
    if nt_file st
    then followed_by (require (gd_not_shared W st) (cleanup_failure ''GC refuses hardlinked files.'')) (\<lambda>_.
      followed_by (outside before) (\<lambda>_.
      outside (gd_unlink W path)))
    else followed_by (require (nt_directory st) (cleanup_failure ''GC refuses special files.'')) (\<lambda>_.
      followed_by (outside (gd_readdir W path)) (\<lambda>names.
      followed_by (each (\<lambda>name. remove_entry room W c max_entries before False (join_path path name)) (sort names)) (\<lambda>_.
      followed_by (outside (gd_lstat W path)) (\<lambda>final.
      followed_by (require (nt_dev final = nt_dev st \<and> nt_ino final = nt_ino st \<and> nt_uid final = nt_uid st)
        (cleanup_failure ''GC quarantine changed during traversal.'')) (\<lambda>_.
      followed_by (outside before) (\<lambda>_.
      outside (gd_rmdir W path)))))))))))) "

definition delete_exact_quarantine ::
  "('w, 'g, 'p) gc_world \<Rightarrow> string \<Rightarrow> cleanup_request \<Rightarrow> nat \<Rightarrow> nat \<Rightarrow> ('w, unit) action \<Rightarrow> ('w, unit) action" where
  "delete_exact_quarantine W quarantine_path c max_entries max_depth before w =
    (case remove_entry (Suc max_depth) W c max_entries before True quarantine_path (0, w) of ((_, t), r) \<Rightarrow> (t, r))"

section \<open>Applying a plan\<close>

datatype gc_outcome = Would_Delete | Deleted | Already_Absent
  | Failed "journal_phase option" "string option" gc_error
  | Lease_Contended "journal_phase option" "string option" gc_error

record gc_item =
  gm_storage_object_id :: ident
  gm_path :: string
  gm_outcome :: gc_outcome

record 'w gc_options =
  go_apply :: bool
  go_lease :: "'w gc_lease option"
  go_journal :: "'w gc_journal option"
  go_max_entries :: "nat option"
  go_max_depth :: "nat option"

text \<open>The local variables of one iteration; the phase \<open>None\<close> is the code's \<open>validation\<close>.\<close>

record 'p gc_run =
  gu_phase :: "journal_phase option"
  gu_quarantine_path :: "string option"
  gu_lease_token :: "string option"
  gu_pin :: "'p option"
  gu_items :: "gc_item list"

definition new_run :: "gc_item list \<Rightarrow> 'p gc_run" where
  "new_run items = \<lparr> gu_phase = None, gu_quarantine_path = None, gu_lease_token = None, gu_pin = None, gu_items = items \<rparr>"

type_synonym ('w, 'p, 'a) run_action = "('p gc_run \<times> 'w, 'a) action"

definition set_phase :: "journal_phase \<Rightarrow> ('w, 'p, unit) run_action" where
  "set_phase phase = assign (\<lambda>x. x\<lparr>gu_phase := Some phase\<rparr>)"

definition set_token :: "string option \<Rightarrow> ('w, 'p, unit) run_action" where
  "set_token token = assign (\<lambda>x. x\<lparr>gu_lease_token := token\<rparr>)"

definition item_of :: "cleanup_request \<Rightarrow> gc_outcome \<Rightarrow> gc_item" where
  "item_of c outcome = \<lparr> gm_storage_object_id = cr_storage_object_id c, gm_path = cr_path c, gm_outcome = outcome \<rparr>"

definition push_item :: "cleanup_request \<Rightarrow> gc_outcome \<Rightarrow> ('w, 'p, unit) run_action" where
  "push_item c outcome = assign (\<lambda>x. x\<lparr>gu_items := gu_items x @ [item_of c outcome]\<rparr>)"

definition journal_entry ::
  "string \<Rightarrow> cleanup_request \<Rightarrow> journal_phase \<Rightarrow> string option \<Rightarrow> quarantine_container option \<Rightarrow> gc_journal_input" where
  "journal_entry operation_id c phase quarantine_path container =
    \<lparr> gj_operation_id = operation_id, gj_storage_object_id = cr_storage_object_id c, gj_phase = phase, gj_original_path = cr_path c,
      gj_quarantine_path = quarantine_path, gj_dev = cr_dev c, gj_ino = cr_ino c, gj_uid = cr_uid c, gj_sandbox_id = cr_sandbox_id c,
      gj_sandbox_generation = cr_sandbox_generation c, gj_kind = cr_kind c, gj_container = container \<rparr>"

definition contended :: gc_error where
  "contended = cleanup_failure ''Another GC owns the cleanup lease.''"

text \<open>A renewal that is refused ends the work.\<close>

definition renew_or_fail :: "'w gc_lease \<Rightarrow> cleanup_request \<Rightarrow> string \<Rightarrow> string \<Rightarrow> ('w, unit) action" where
  "renew_or_fail L c token message =
    followed_by (gl_renew L c token) (\<lambda>renewed. require renewed (cleanup_failure message))"

definition finalize_or_fail :: "'w gc_lease \<Rightarrow> gc_journal_input \<Rightarrow> string \<Rightarrow> string \<Rightarrow> ('w, unit) action" where
  "finalize_or_fail L entry token message =
    followed_by (gl_finalize L entry token) (\<lambda>finalized. require finalized (cleanup_failure message))"

text \<open>The object is gone already: its record is finalized without a quarantine.\<close>

definition finalize_absent ::
  "('w, 'g, 'p) gc_world \<Rightarrow> 'w gc_lease \<Rightarrow> 'w gc_journal \<Rightarrow> cleanup_request \<Rightarrow> 'g \<Rightarrow> string \<Rightarrow> ('w, 'p, unit) run_action" where
  "finalize_absent W L J c authorization token =
    followed_by (outside (gd_uuid W)) (\<lambda>operation.
    followed_by (set_phase JP_Prepared) (\<lambda>_.
    followed_by (outside (J (journal_entry operation c JP_Prepared None None))) (\<lambda>_.
    followed_by (outside (gd_hook W (Before_Absent_Finalize c))) (\<lambda>_.
    followed_by (outside (gd_revalidate W authorization)) (\<lambda>_.
    followed_by (outside (lstat_if_exists W (cr_path c))) (\<lambda>current.
    followed_by (require (current = None)
      (cleanup_failure ''A GC target appeared immediately before absent finalization.'')) (\<lambda>_.
    followed_by (outside (finalize_or_fail L (journal_entry operation c JP_Finalized None None) token
      ''Atomic absent resource finalization lost its exact lease or journal.'')) (\<lambda>_.
    followed_by (set_phase JP_Finalized) (\<lambda>_.
    followed_by (push_item c Already_Absent) (\<lambda>_.
    set_token None))))))))))"

text \<open>What an apply needs; both must be there.\<close>

definition lease_and_journal :: "'w gc_options \<Rightarrow> ('w gc_lease \<times> 'w gc_journal) option" where
  "lease_and_journal opts = (case (go_lease opts, go_journal opts) of (Some L, Some J) \<Rightarrow> Some (L, J) | _ \<Rightarrow> None)"

definition no_coordinator :: gc_error where
  "no_coordinator = cleanup_failure ''GC apply requires a SQLite-backed cleanup lease and journal.''"

text \<open>A fresh token and the lease, or the report that someone else has it.\<close>

definition reserve ::
  "('w, 'g, 'p) gc_world \<Rightarrow> 'w gc_lease \<Rightarrow> cleanup_request \<Rightarrow> (string \<Rightarrow> ('w, 'p, unit) run_action) \<Rightarrow> ('w, 'p, unit) run_action" where
  "reserve W L c work =
    followed_by (outside (gd_uuid W)) (\<lambda>token.
    followed_by (set_token (Some token)) (\<lambda>_.
    followed_by (outside (gl_acquire L c token)) (\<lambda>acquired.
    if acquired then work token
    else followed_by (push_item c (Lease_Contended None None contended)) (\<lambda>_. set_token None))))"

definition collect_absent ::
  "('w, 'g, 'p) gc_world \<Rightarrow> 'w gc_options \<Rightarrow> cleanup_request \<Rightarrow> 'g \<Rightarrow> ('w, 'p, unit) run_action" where
  "collect_absent W opts c authorization =
    (if \<not> go_apply opts then push_item c Already_Absent
     else case lease_and_journal opts of
       None \<Rightarrow> fail_with no_coordinator
     | Some (L, J) \<Rightarrow> reserve W L c (finalize_absent W L J c authorization))"

text \<open>The quarantine container: recorded before it exists, created, and recorded again with its identity.\<close>

definition prepare_container ::
  "('w, 'g, 'p) gc_world \<Rightarrow> 'w gc_journal \<Rightarrow> cleanup_request \<Rightarrow> string \<Rightarrow> ('w, 'p, string \<times> quarantine_container) run_action" where
  "prepare_container W J c operation =
    followed_by (outside (gd_uuid W)) (\<lambda>fresh.
    let container = join_path (dirname (cr_path c)) (''.wtm-gc-'' @ filter (\<lambda>x. x \<noteq> CHR ''-'') fresh);
        quarantine_path = join_path container ''object'' in
    followed_by (outside (gd_authorize W container Intent_Write)) (\<lambda>authorization.
    followed_by (outside (gd_revalidate W authorization)) (\<lambda>_.
    followed_by (assign (\<lambda>x. x\<lparr>gu_quarantine_path := Some quarantine_path\<rparr>)) (\<lambda>_.
    followed_by (set_phase JP_Prepared) (\<lambda>_.
    followed_by (outside (J (journal_entry operation c JP_Prepared (Some quarantine_path) None))) (\<lambda>_.
    followed_by (outside (gd_mkdir W container 448)) (\<lambda>_.
    followed_by (outside (gd_lstat W container)) (\<lambda>st.
    followed_by (outside (quarantine_container_identity W container st)) (\<lambda>identity.
    followed_by (outside (J (journal_entry operation c JP_Prepared (Some quarantine_path) (Some identity)))) (\<lambda>_.
    followed_by (outside (gd_hook W (After_Container_Created c container))) (\<lambda>_.
    followed_by (outside (gd_hook W (Before_Quarantine c))) (\<lambda>_.
    succeed (quarantine_path, identity)))))))))))))"

text \<open>The last look at the original before it moves: the lease, the authorization, the shape, and the pin.\<close>

definition check_original ::
  "('w, 'g, 'p) gc_world \<Rightarrow> 'w gc_lease \<Rightarrow> cleanup_request \<Rightarrow> 'g \<Rightarrow> string \<Rightarrow> 'p \<Rightarrow> ('w, unit) action" where
  "check_original W L c authorization token pin =
    followed_by (renew_or_fail L c token ''GC cleanup reservation expired before quarantine.'') (\<lambda>_.
    followed_by (gd_revalidate W authorization) (\<lambda>_.
    followed_by (lstat_if_exists W (cr_path c)) (\<lambda>before. case before of
      None \<Rightarrow> fail_with (cleanup_failure ''GC target disappeared before quarantine.'')
    | Some st \<Rightarrow>
      followed_by (assert_candidate_shape W c st) (\<lambda>_.
      followed_by (gd_holds W pin st) (\<lambda>same.
      require same (cleanup_failure ''The GC candidate was replaced after it was validated.''))))))"

definition check_quarantine_free :: "('w, 'g, 'p) gc_world \<Rightarrow> string \<Rightarrow> ('w, unit) action" where
  "check_quarantine_free W quarantine_path =
    followed_by (gd_authorize W quarantine_path Intent_Write) (\<lambda>authorization.
    followed_by (gd_revalidate W authorization) (\<lambda>_.
    followed_by (lstat_if_exists W quarantine_path) (\<lambda>existing.
    require (existing = None) (cleanup_failure ''A concurrent quarantine winner already exists.''))))"

text \<open>A link that must not replace anything.\<close>

definition link_exclusively :: "('w, 'g, 'p) gc_world \<Rightarrow> string \<Rightarrow> string \<Rightarrow> ('w, unit) action" where
  "link_exclusively W path quarantine_path w =
    (case gd_link W path quarantine_path w of
       (t, Inl e) \<Rightarrow> (t, Inl (if error_code e = Some ''EEXIST''
           then cleanup_failure ''A concurrent quarantine winner already exists.'' else e))
     | ok \<Rightarrow> ok)"

text \<open>A file moves by a second link and the removal of the first, each announced in the journal.\<close>

definition move_file ::
  "('w, 'g, 'p) gc_world \<Rightarrow> 'w gc_lease \<Rightarrow> 'w gc_journal \<Rightarrow> cleanup_request \<Rightarrow> 'g \<Rightarrow> string
   \<Rightarrow> (journal_phase \<Rightarrow> gc_journal_input) \<Rightarrow> string \<Rightarrow> ('w, 'p, unit) run_action" where
  "move_file W L J c authorization token entry quarantine_path =
    followed_by (outside (link_exclusively W (cr_path c) quarantine_path)) (\<lambda>_.
    followed_by (outside (gd_lstat W quarantine_path)) (\<lambda>linked.
    followed_by (outside (gd_lstat W (cr_path c))) (\<lambda>original_after_link.
    followed_by (assert_identity_with_links c linked 2) (\<lambda>_.
    followed_by (assert_identity_with_links c original_after_link 2) (\<lambda>_.
    followed_by (set_phase JP_Linked) (\<lambda>_.
    followed_by (outside (J (entry JP_Linked))) (\<lambda>_.
    followed_by (outside (gd_hook W (After_File_Link c quarantine_path))) (\<lambda>_.
    followed_by (set_phase JP_Unlinking) (\<lambda>_.
    followed_by (outside (J (entry JP_Unlinking))) (\<lambda>_.
    followed_by (outside (gd_hook W (Before_File_Unlink c quarantine_path))) (\<lambda>_.
    followed_by (outside (renew_or_fail L c token ''GC cleanup reservation expired before original unlink.'')) (\<lambda>_.
    followed_by (outside (gd_revalidate_parent W authorization)) (\<lambda>_.
    followed_by (outside (assert_exact_two_link_topology W c (cr_path c) quarantine_path)) (\<lambda>_.
    followed_by (outside (gd_unlink W (cr_path c))) (\<lambda>_.
    followed_by (outside (gd_lstat W quarantine_path)) (\<lambda>quarantined.
    followed_by (outside (assert_candidate_identity W c quarantined)) (\<lambda>_.
    outside (gd_hook W (After_File_Unlink c quarantine_path)))))))))))))))))))"

definition settle_quarantine ::
  "('w, 'g, 'p) gc_world \<Rightarrow> 'w gc_journal \<Rightarrow> cleanup_request \<Rightarrow> (journal_phase \<Rightarrow> gc_journal_input) \<Rightarrow> string
   \<Rightarrow> ('w, 'p, unit) run_action" where
  "settle_quarantine W J c entry quarantine_path =
    followed_by (outside (gd_lstat W quarantine_path)) (\<lambda>moved.
    followed_by (outside (assert_candidate_identity W c moved)) (\<lambda>_.
    followed_by (outside (gd_chmod W quarantine_path (if nt_directory moved then 448 else 384))) (\<lambda>_.
    followed_by (set_phase JP_Quarantined) (\<lambda>_.
    followed_by (outside (J (entry JP_Quarantined))) (\<lambda>_.
    outside (gd_hook W (After_Quarantine c quarantine_path)))))))"

definition delete_and_finalize ::
  "('w, 'g, 'p) gc_world \<Rightarrow> 'w gc_lease \<Rightarrow> 'w gc_journal \<Rightarrow> nat \<Rightarrow> nat \<Rightarrow> cleanup_request \<Rightarrow> string
   \<Rightarrow> (journal_phase \<Rightarrow> gc_journal_input) \<Rightarrow> string \<Rightarrow> quarantine_container \<Rightarrow> ('w, 'p, unit) run_action" where
  "delete_and_finalize W L J max_entries max_depth c token entry quarantine_path container =
    followed_by (outside (renew_or_fail L c token ''GC cleanup reservation expired before deletion.'')) (\<lambda>_.
    followed_by (set_phase JP_Deleting) (\<lambda>_.
    followed_by (outside (J (entry JP_Deleting))) (\<lambda>_.
    followed_by (outside (delete_exact_quarantine W quarantine_path c max_entries max_depth
      (renew_or_fail L c token ''GC cleanup reservation expired during deletion.''))) (\<lambda>_.
    followed_by (set_phase JP_Deleted) (\<lambda>_.
    followed_by (outside (J (entry JP_Deleted))) (\<lambda>_.
    followed_by (outside (renew_or_fail L c token ''GC cleanup reservation expired before finalization.'')) (\<lambda>_.
    followed_by (outside (finalize_or_fail L (entry JP_Finalized) token
      ''Atomic resource finalization lost its exact lease or journal.'')) (\<lambda>_.
    followed_by (set_phase JP_Finalized) (\<lambda>_.
    followed_by (outside (gd_hook W (Before_Container_Cleanup (qc_path container)))) (\<lambda>_.
    followed_by (outside (remove_exact_quarantine_container W container)) (\<lambda>_.
    followed_by (push_item c Deleted) (\<lambda>_.
    followed_by (outside (gl_release L (cr_storage_object_id c) token False)) (\<lambda>_.
    set_token None)))))))))))))"

definition quarantine_and_delete ::
  "('w, 'g, 'p) gc_world \<Rightarrow> 'w gc_lease \<Rightarrow> 'w gc_journal \<Rightarrow> nat \<Rightarrow> nat \<Rightarrow> cleanup_request \<Rightarrow> 'g \<Rightarrow> 'p \<Rightarrow> string
   \<Rightarrow> ('w, 'p, unit) run_action" where
  "quarantine_and_delete W L J max_entries max_depth c authorization pin token =
    followed_by (outside (gd_uuid W)) (\<lambda>operation.
    followed_by (prepare_container W J c operation) (\<lambda>(quarantine_path, container).
    let entry = (\<lambda>phase. journal_entry operation c phase (Some quarantine_path) (Some container)) in
    followed_by (outside (check_original W L c authorization token pin)) (\<lambda>_.
    followed_by (outside (check_quarantine_free W quarantine_path)) (\<lambda>_.
    followed_by (case cr_kind c of
        Kind_File \<Rightarrow> move_file W L J c authorization token entry quarantine_path
      | Kind_Directory \<Rightarrow> outside (gd_rename W (cr_path c) quarantine_path)) (\<lambda>_.
    followed_by (settle_quarantine W J c entry quarantine_path) (\<lambda>_.
    delete_and_finalize W L J max_entries max_depth c token entry quarantine_path container))))))"

definition pin_candidate :: "('w, 'g, 'p) gc_world \<Rightarrow> cleanup_request \<Rightarrow> node_stat \<Rightarrow> ('w, 'p, 'p) run_action" where
  "pin_candidate W c current =
    (let unheld = cleanup_failure ''A GC candidate could not be held for the duration of its removal.'' in
     followed_by (outside (gd_pin W (cr_path c))) (\<lambda>pin.
     followed_by (assign (\<lambda>x. x\<lparr>gu_pin := pin\<rparr>)) (\<lambda>_.
     case pin of None \<Rightarrow> fail_with unheld
     | Some p \<Rightarrow> followed_by (outside (gd_holds W p current)) (\<lambda>held. followed_by (require held unheld) (\<lambda>_. succeed p)))))"

definition collect_present ::
  "('w, 'g, 'p) gc_world \<Rightarrow> 'w gc_options \<Rightarrow> nat \<Rightarrow> nat \<Rightarrow> cleanup_request \<Rightarrow> 'g \<Rightarrow> node_stat \<Rightarrow> ('w, 'p, unit) run_action" where
  "collect_present W opts max_entries max_depth c authorization current =
    followed_by (outside (assert_candidate_identity W c current)) (\<lambda>_.
    followed_by (pin_candidate W c current) (\<lambda>pin.
    followed_by (outside (gd_revalidate W authorization)) (\<lambda>_.
    if \<not> go_apply opts then push_item c Would_Delete
    else case lease_and_journal opts of
      None \<Rightarrow> fail_with no_coordinator
    | Some (L, J) \<Rightarrow> reserve W L c (quarantine_and_delete W L J max_entries max_depth c authorization pin))))"

text \<open>The \<open>try\<close> of one iteration.\<close>

definition collect ::
  "('w, 'g, 'p) gc_world \<Rightarrow> 'w gc_options \<Rightarrow> nat \<Rightarrow> nat \<Rightarrow> cleanup_request \<Rightarrow> ('w, 'p, unit) run_action" where
  "collect W opts max_entries max_depth c =
    followed_by (outside (gd_authorize W (cr_path c) Intent_Delete)) (\<lambda>authorization.
    followed_by (outside (lstat_if_exists W (cr_path c))) (\<lambda>current. case current of
      None \<Rightarrow> collect_absent W opts c authorization
    | Some st \<Rightarrow> collect_present W opts max_entries max_depth c authorization st))"

text \<open>The code of a reported error is one of two, whatever was thrown.\<close>

definition reported_error :: "gc_error \<Rightarrow> gc_error" where
  "reported_error e = Gc_Error (Some (if error_code e = Some path_denied then path_denied else cleanup_failed)) (error_message e)"

definition past_quarantine :: "journal_phase option \<Rightarrow> bool" where
  "past_quarantine phase \<longleftrightarrow> phase \<in> Some ` {JP_Linked, JP_Unlinking, JP_Quarantined, JP_Deleting, JP_Deleted}"

text \<open>Whether the quarantine may hold the object: it is there, or nobody can tell.\<close>

definition quarantine_occupied :: "('w, 'g, 'p) gc_world \<Rightarrow> string option \<Rightarrow> 'w \<Rightarrow> 'w \<times> bool" where
  "quarantine_occupied W quarantine_path w =
    (case quarantine_path of None \<Rightarrow> (w, False)
     | Some path \<Rightarrow> (case lstat_if_exists W path w of (t, Inr st) \<Rightarrow> (t, st \<noteq> None) | (t, Inl e) \<Rightarrow> (t, True)))"

text \<open>The \<open>catch\<close>: the failure is reported and the lease is given back, the reservation only when nothing has moved.\<close>

definition give_up ::
  "('w, 'g, 'p) gc_world \<Rightarrow> 'w gc_options \<Rightarrow> cleanup_request \<Rightarrow> gc_error \<Rightarrow> 'p gc_run \<times> 'w \<Rightarrow> 'p gc_run \<times> 'w" where
  "give_up W opts c e s =
    (case s of (x, w) \<Rightarrow>
     let x1 = x\<lparr>gu_items := gu_items x @ [item_of c (Failed (gu_phase x) (gu_quarantine_path x) (reported_error e))]\<rparr> in
     case (gu_lease_token x, go_lease opts) of
       (Some token, Some L) \<Rightarrow>
         (case (if past_quarantine (gu_phase x) then (w, True) else quarantine_occupied W (gu_quarantine_path x) w) of
            (w1, quarantined) \<Rightarrow> (x1, fst (gl_release L (cr_storage_object_id c) token quarantined w1)))
     | _ \<Rightarrow> (x1, w))"

definition apply_candidate ::
  "('w, 'g, 'p) gc_world \<Rightarrow> 'w gc_options \<Rightarrow> nat \<Rightarrow> nat \<Rightarrow> cleanup_request \<Rightarrow> gc_item list \<times> 'w \<Rightarrow> gc_item list \<times> 'w" where
  "apply_candidate W opts max_entries max_depth c = (\<lambda>(items, w).
    case (case collect W opts max_entries max_depth c (new_run items, w) of
        (s, Inr _) \<Rightarrow> s | (s, Inl e) \<Rightarrow> give_up W opts c e s) of
      (x, t) \<Rightarrow> (gu_items x, case gu_pin x of None \<Rightarrow> t | Some pin \<Rightarrow> gd_close W pin t))"

definition apply_gc_candidates ::
  "('w, 'g, 'p) gc_world \<Rightarrow> 'w gc_options \<Rightarrow> nat \<Rightarrow> nat \<Rightarrow> cleanup_request list \<Rightarrow> 'w \<Rightarrow> 'w \<times> gc_item list" where
  "apply_gc_candidates W opts max_entries max_depth candidates w =
    (case fold (apply_candidate W opts max_entries max_depth) candidates ([], w) of (items, t) \<Rightarrow> (t, items))"

text \<open>Every repository of the workspace is held, one lease nested in the other, while the candidates are worked on.\<close>

fun acquire_gc_leases ::
  "'w lease_api \<Rightarrow> (ident \<Rightarrow> 'w lease_world) \<Rightarrow> lease_input \<Rightarrow> (ident \<Rightarrow> string) \<Rightarrow> ident list \<Rightarrow> ('w \<Rightarrow> 'w \<times> 'a)
   \<Rightarrow> 'w \<Rightarrow> 'w \<times> (lease_failure + 'a)" where
  "acquire_gc_leases api lw i tokens [] body w = (case body w of (t, a) \<Rightarrow> (t, Inr a))"
| "acquire_gc_leases api lw i tokens (repository_id # rest) body w =
    with_operation_lease api (lw repository_id) (i\<lparr>li_repository_id := repository_id, li_operation := Op_Gc\<rparr>) (tokens repository_id)
      (\<lambda>_ _. acquire_gc_leases api lw i tokens rest body) w"

record 'w gc_repository_lease =
  gy_api :: "'w lease_api"
  gy_world :: "ident \<Rightarrow> 'w lease_world"
  gy_input :: lease_input
  gy_tokens :: "ident \<Rightarrow> string"
  gy_repository_ids :: "ident list"

datatype gc_refusal = Gc_Refused gc_error | Gc_Lease_Refused lease_failure

definition apply_gc_plan ::
  "('w, 'g, 'p) gc_world \<Rightarrow> 'w gc_options \<Rightarrow> 'w gc_repository_lease option \<Rightarrow> gc_plan \<Rightarrow> 'w \<Rightarrow> 'w \<times> (gc_refusal + (bool \<times> gc_item list))" where
  "apply_gc_plan W opts repository_lease plan w =
    (let max_entries = (case go_max_entries opts of None \<Rightarrow> 10000 | Some n \<Rightarrow> n);
         max_depth = (case go_max_depth opts of None \<Rightarrow> 64 | Some n \<Rightarrow> n);
         run = apply_gc_candidates W opts max_entries max_depth (map cleanup_request.truncate (gp_candidates plan)) in
     case assert_sandbox_identity W (gp_sandbox plan) w of
       (t, Inl e) \<Rightarrow> (t, Inl (Gc_Refused e))
     | (t, Inr _) \<Rightarrow>
       (case repository_lease of
          Some y \<Rightarrow> if go_apply opts \<and> gy_repository_ids y \<noteq> []
            then (case acquire_gc_leases (gy_api y) (gy_world y) (gy_input y) (gy_tokens y) (gy_repository_ids y) run t of
                (u, Inl e) \<Rightarrow> (u, Inl (Gc_Lease_Refused e))
              | (u, Inr items) \<Rightarrow> (u, Inr (\<not> go_apply opts, items)))
            else (case run t of (u, items) \<Rightarrow> (u, Inr (\<not> go_apply opts, items)))
        | None \<Rightarrow> (case run t of (u, items) \<Rightarrow> (u, Inr (\<not> go_apply opts, items)))))"

end
