(* ===== verification/Gc_Recovery.thy ===== *)
theory Gc_Recovery
  imports Gc_Engine
begin

text \<open>
  The recovery of an interrupted collection from its journal entry (\<open>recoverGcJournalEntry\<close> in
  \<open>packages/core/src/resources/gc.ts\<close>), over the surroundings of \<open>Gc_Engine\<close>.
\<close>

section \<open>The container\<close>

text \<open>The children of an unrecorded container; an entry that records one must find the same again.\<close>

definition confirm_container ::
  "('w, 'g, 'p) gc_world \<Rightarrow> gc_journal_input \<Rightarrow> string \<Rightarrow> node_stat \<Rightarrow> ('w, quarantine_container) action" where
  "confirm_container W entry container_path st =
    followed_by (quarantine_container_identity W container_path st) (\<lambda>actual.
    followed_by (case gj_container entry of
        Some recorded \<Rightarrow> assert_container_identity recorded st
      | None \<Rightarrow> followed_by (gd_readdir W container_path) (\<lambda>children.
          require (list_all (\<lambda>name. name = ''object'') children)
            (cleanup_failure ''Unrecorded quarantine container contains foreign entries.''))) (\<lambda>_.
    succeed actual))"

text \<open>A recorded container that is rightly gone: the deletion had ended, and nothing is left at either path.\<close>

definition vanished_container ::
  "('w, 'g, 'p) gc_world \<Rightarrow> cleanup_request \<Rightarrow> gc_journal_input \<Rightarrow> string \<Rightarrow> ('w, quarantine_container option) action" where
  "vanished_container W c entry quarantine_path =
    (case gj_container entry of
       None \<Rightarrow> succeed None
     | Some recorded \<Rightarrow>
       if gj_phase entry \<noteq> JP_Deleted \<and> gj_phase entry \<noteq> JP_Finalized then succeed None
       else followed_by (lstat_if_exists W quarantine_path) (\<lambda>quarantine.
         if quarantine \<noteq> None then succeed None
         else followed_by (lstat_if_exists W (gj_original_path entry)) (\<lambda>original.
           succeed (case original of
               None \<Rightarrow> Some recorded
             | Some st \<Rightarrow> if gj_phase entry = JP_Finalized \<and> \<not> matches_candidate_identity c st then Some recorded else None))))"

definition recreate_container ::
  "('w, 'g, 'p) gc_world \<Rightarrow> cleanup_request \<Rightarrow> gc_journal_input \<Rightarrow> 'g \<Rightarrow> string \<Rightarrow> ('w, quarantine_container) action" where
  "recreate_container W c entry authorization container_path =
    followed_by (require (gj_phase entry = JP_Prepared)
      (cleanup_failure ''GC quarantine container is missing outside the prepared phase.'')) (\<lambda>_.
    followed_by (lstat_if_exists W (gj_original_path entry)) (\<lambda>original. case original of
      None \<Rightarrow> fail_with (cleanup_failure ''Prepared GC recovery is missing both original and container.'')
    | Some st \<Rightarrow>
      followed_by (assert_candidate_identity W c st) (\<lambda>_.
      followed_by (gd_revalidate W authorization) (\<lambda>_.
      followed_by (gd_mkdir W container_path 448) (\<lambda>_.
      followed_by (gd_lstat W container_path) (\<lambda>created.
      confirm_container W entry container_path created))))))"

definition ensure_recovery_container ::
  "('w, 'g, 'p) gc_world \<Rightarrow> cleanup_request \<Rightarrow> gc_journal_input \<Rightarrow> string \<Rightarrow> ('w, quarantine_container) action" where
  "ensure_recovery_container W c entry quarantine_path =
    (let container_path = dirname quarantine_path in
     followed_by (require (basename quarantine_path = ''object'')
       (cleanup_failure ''GC quarantine does not use its fixed child path.'')) (\<lambda>_.
     followed_by (gd_authorize W container_path Intent_Delete) (\<lambda>authorization.
     followed_by (lstat_if_exists W container_path) (\<lambda>found. case found of
       Some st \<Rightarrow> confirm_container W entry container_path st
     | None \<Rightarrow>
       followed_by (vanished_container W c entry quarantine_path) (\<lambda>vanished. case vanished of
         Some container \<Rightarrow> succeed container
       | None \<Rightarrow> recreate_container W c entry authorization container_path)))))"

definition cleanup_finalized_container ::
  "('w, 'g, 'p) gc_world \<Rightarrow> cleanup_request \<Rightarrow> gc_journal_input \<Rightarrow> ('w, unit) action" where
  "cleanup_finalized_container W c entry =
    (case gj_quarantine_path entry of
       None \<Rightarrow> succeed ()
     | Some quarantine_path \<Rightarrow>
       followed_by (lstat_if_exists W (gj_original_path entry)) (\<lambda>original.
       followed_by (lstat_if_exists W quarantine_path) (\<lambda>quarantine.
       followed_by (require (\<not> (case original of None \<Rightarrow> False | Some st \<Rightarrow> matches_candidate_identity c st) \<and> quarantine = None)
         (cleanup_failure ''Finalized GC evidence still has an original or quarantine object.'')) (\<lambda>_.
       if gj_container entry = None
       then followed_by (lstat_if_exists W (dirname quarantine_path)) (\<lambda>found.
         require (found = None) (cleanup_failure ''Legacy finalized GC evidence cannot identify an existing container.''))
       else followed_by (ensure_recovery_container W c entry quarantine_path) (\<lambda>container.
         followed_by (gd_hook W (Before_Container_Cleanup (qc_path container))) (\<lambda>_.
         remove_exact_quarantine_container W container))))))"

section \<open>The way into the quarantine\<close>

text \<open>The entry as it stands, recorded.\<close>

definition record_phase :: "'w gc_journal \<Rightarrow> gc_journal_input \<Rightarrow> ('w, gc_journal_input) action" where
  "record_phase J entry = followed_by (J entry) (\<lambda>_. succeed entry)"

definition at_phase :: "gc_journal_input \<Rightarrow> journal_phase \<Rightarrow> quarantine_container \<Rightarrow> gc_journal_input" where
  "at_phase entry phase container = entry\<lparr>gj_phase := phase, gj_container := Some container\<rparr>"

text \<open>The object is still at its path only: it is moved, a file by a link.\<close>

definition start_move ::
  "('w, 'g, 'p) gc_world \<Rightarrow> 'w gc_lease \<Rightarrow> 'w gc_journal \<Rightarrow> cleanup_request \<Rightarrow> string \<Rightarrow> gc_journal_input \<Rightarrow> string
   \<Rightarrow> quarantine_container \<Rightarrow> node_stat \<Rightarrow> ('w, gc_journal_input) action" where
  "start_move W L J c token entry quarantine_path container original =
    followed_by (assert_candidate_identity W c original) (\<lambda>_.
    followed_by (gd_authorize W (gj_original_path entry) Intent_Delete) (\<lambda>original_authorization.
    followed_by (gd_authorize W quarantine_path Intent_Write) (\<lambda>quarantine_authorization.
    followed_by (gd_revalidate W original_authorization) (\<lambda>_.
    followed_by (gd_revalidate W quarantine_authorization) (\<lambda>_.
    followed_by (renew_or_fail L c token ''GC recovery reservation expired before quarantine.'') (\<lambda>_.
    case cr_kind c of
      Kind_File \<Rightarrow>
        followed_by (gd_link W (gj_original_path entry) quarantine_path) (\<lambda>_.
        followed_by (assert_exact_two_link_topology W c (gj_original_path entry) quarantine_path) (\<lambda>_.
        record_phase J (at_phase entry JP_Linked container)))
    | Kind_Directory \<Rightarrow> followed_by (gd_rename W (gj_original_path entry) quarantine_path) (\<lambda>_. succeed entry)))))))"

text \<open>What is found at the two paths must fit the phase.\<close>

definition resume_topology ::
  "('w, 'g, 'p) gc_world \<Rightarrow> 'w gc_lease \<Rightarrow> 'w gc_journal \<Rightarrow> cleanup_request \<Rightarrow> string \<Rightarrow> gc_journal_input \<Rightarrow> string
   \<Rightarrow> quarantine_container \<Rightarrow> node_stat option \<Rightarrow> node_stat option \<Rightarrow> ('w, gc_journal_input) action" where
  "resume_topology W L J c token entry quarantine_path container original quarantine =
    (if gj_phase entry = JP_Linked then
       followed_by (require (original \<noteq> None \<and> quarantine \<noteq> None \<and> cr_kind c = Kind_File)
         (cleanup_failure ''Linked GC recovery topology is incomplete.'')) (\<lambda>_.
       followed_by (assert_exact_two_link_topology W c (gj_original_path entry) quarantine_path) (\<lambda>_. succeed entry))
     else if gj_phase entry = JP_Unlinking then
       (case quarantine of
          Some q \<Rightarrow>
            followed_by (require (cr_kind c = Kind_File) (cleanup_failure ''Unlinking GC recovery topology is incomplete.'')) (\<lambda>_.
            followed_by (if original = None then assert_candidate_identity W c q
                else assert_exact_two_link_topology W c (gj_original_path entry) quarantine_path) (\<lambda>_. succeed entry))
        | None \<Rightarrow> fail_with (cleanup_failure ''Unlinking GC recovery topology is incomplete.''))
     else (case (original, quarantine) of
         (Some o', None) \<Rightarrow> start_move W L J c token entry quarantine_path container o'
       | (Some o', Some q) \<Rightarrow>
           followed_by (require (cr_kind c = Kind_File) (cleanup_failure ''Prepared GC recovery topology is ambiguous.'')) (\<lambda>_.
           followed_by (assert_exact_two_link_topology W c (gj_original_path entry) quarantine_path) (\<lambda>_.
           record_phase J (at_phase entry JP_Linked container)))
       | (None, Some q) \<Rightarrow> followed_by (assert_candidate_identity W c q) (\<lambda>_. succeed entry)
       | (None, None) \<Rightarrow> fail_with (cleanup_failure ''Prepared GC recovery topology is ambiguous.'')))"

definition announce_unlink ::
  "('w, 'g, 'p) gc_world \<Rightarrow> 'w gc_journal \<Rightarrow> cleanup_request \<Rightarrow> gc_journal_input \<Rightarrow> string \<Rightarrow> quarantine_container
   \<Rightarrow> ('w, gc_journal_input) action" where
  "announce_unlink W J c entry quarantine_path container =
    (if gj_phase entry = JP_Linked
     then followed_by (record_phase J (at_phase entry JP_Unlinking container)) (\<lambda>announced.
       followed_by (gd_hook W (Before_File_Unlink c quarantine_path)) (\<lambda>_. succeed announced))
     else succeed entry)"

definition unlink_original ::
  "('w, 'g, 'p) gc_world \<Rightarrow> 'w gc_lease \<Rightarrow> cleanup_request \<Rightarrow> string \<Rightarrow> gc_journal_input \<Rightarrow> string \<Rightarrow> ('w, unit) action" where
  "unlink_original W L c token entry quarantine_path =
    followed_by (lstat_if_exists W (gj_original_path entry)) (\<lambda>original.
    if original \<noteq> None then
      followed_by (renew_or_fail L c token ''GC recovery reservation expired before original unlink.'') (\<lambda>_.
      followed_by (gd_authorize_parent W (gj_original_path entry) Intent_Delete) (\<lambda>authorization.
      followed_by (gd_revalidate_parent W authorization) (\<lambda>_.
      followed_by (assert_exact_two_link_topology W c (gj_original_path entry) quarantine_path) (\<lambda>_.
      followed_by (gd_unlink W (gj_original_path entry)) (\<lambda>_.
      followed_by (gd_lstat W quarantine_path) (\<lambda>st.
      followed_by (assert_candidate_identity W c st) (\<lambda>_.
      gd_hook W (After_File_Unlink c quarantine_path))))))))
    else require (gj_phase entry = JP_Unlinking)
      (cleanup_failure ''GC file original disappeared before durable unlinking intent.''))"

definition resume_quarantine_prefix ::
  "('w, 'g, 'p) gc_world \<Rightarrow> 'w gc_lease \<Rightarrow> 'w gc_journal \<Rightarrow> cleanup_request \<Rightarrow> string \<Rightarrow> gc_journal_input \<Rightarrow> string
   \<Rightarrow> quarantine_container \<Rightarrow> ('w, gc_journal_input) action" where
  "resume_quarantine_prefix W L J c token entry quarantine_path container =
    followed_by (lstat_if_exists W (gj_original_path entry)) (\<lambda>original.
    followed_by (lstat_if_exists W quarantine_path) (\<lambda>quarantine.
    followed_by (resume_topology W L J c token entry quarantine_path container original quarantine) (\<lambda>entry1.
    followed_by (case cr_kind c of
        Kind_File \<Rightarrow> followed_by (announce_unlink W J c entry1 quarantine_path container) (\<lambda>entry2.
          followed_by (unlink_original W L c token entry2 quarantine_path) (\<lambda>_. succeed entry2))
      | Kind_Directory \<Rightarrow> succeed entry1) (\<lambda>entry2.
    followed_by (gd_lstat W quarantine_path) (\<lambda>quarantined.
    followed_by (assert_candidate_identity W c quarantined) (\<lambda>_.
    followed_by (gd_chmod W quarantine_path (case cr_kind c of Kind_Directory \<Rightarrow> 448 | Kind_File \<Rightarrow> 384)) (\<lambda>_.
    record_phase J (at_phase entry2 JP_Quarantined container))))))))"

section \<open>The recovery of an entry\<close>

text \<open>The local variable is \<open>currentEntry\<close>.\<close>

type_synonym ('w, 'a) entry_action = "(gc_journal_input \<times> 'w, 'a) action"

definition with_entry :: "(gc_journal_input \<Rightarrow> ('w, 'a) entry_action) \<Rightarrow> ('w, 'a) entry_action" where
  "with_entry k s = k (fst s) s"

definition recovery_candidate :: "gc_journal_input \<Rightarrow> cleanup_request" where
  "recovery_candidate entry =
    \<lparr> cr_storage_object_id = gj_storage_object_id entry, cr_sandbox_id = gj_sandbox_id entry,
      cr_sandbox_generation = gj_sandbox_generation entry, cr_path = gj_original_path entry, cr_dev = gj_dev entry,
      cr_ino = gj_ino entry, cr_uid = gj_uid entry, cr_kind = gj_kind entry, cr_state = SO_QUARANTINED, cr_retention = Ephemeral \<rparr>"

definition finalized_entry :: "gc_journal_input \<Rightarrow> gc_journal_input" where
  "finalized_entry entry = entry\<lparr>gj_phase := JP_Finalized\<rparr>"

text \<open>An entry without a quarantine: its object was absent.\<close>

definition recover_absent ::
  "('w, 'g, 'p) gc_world \<Rightarrow> 'w gc_lease \<Rightarrow> string \<Rightarrow> gc_journal_input \<Rightarrow> ('w, gc_outcome) entry_action" where
  "recover_absent W L token entry =
    followed_by (require (gj_phase entry = JP_Prepared)
      (cleanup_failure ''GC journal has no quarantine identity to recover.'')) (\<lambda>_.
    followed_by (outside (gd_authorize W (gj_original_path entry) Intent_Delete)) (\<lambda>authorization.
    followed_by (outside (gd_revalidate W authorization)) (\<lambda>_.
    followed_by (outside (lstat_if_exists W (gj_original_path entry))) (\<lambda>original.
    followed_by (require (original = None)
      (cleanup_failure ''Prepared absent finalization found an original object.'')) (\<lambda>_.
    followed_by (outside (finalize_or_fail L (finalized_entry entry) token
      ''Atomic prepared-absent recovery finalization lost its exact lease or journal.'')) (\<lambda>_.
    succeed Already_Absent))))))"

text \<open>An entry from before containers were recorded, of which nothing is left.\<close>

definition recover_bare ::
  "('w, 'g, 'p) gc_world \<Rightarrow> 'w gc_lease \<Rightarrow> 'w gc_journal \<Rightarrow> cleanup_request \<Rightarrow> string \<Rightarrow> gc_journal_input \<Rightarrow> string
   \<Rightarrow> ('w, bool) entry_action" where
  "recover_bare W L J c token entry quarantine_path =
    (if gj_phase entry = JP_Deleting \<and> gj_container entry = None \<and> basename quarantine_path = ''object'' then
       followed_by (outside (gd_authorize W (dirname quarantine_path) Intent_Delete)) (\<lambda>_.
       followed_by (outside (lstat_if_exists W (gj_original_path entry))) (\<lambda>original.
       followed_by (outside (lstat_if_exists W quarantine_path)) (\<lambda>quarantine.
       followed_by (outside (lstat_if_exists W (dirname quarantine_path))) (\<lambda>container.
       if original = None \<and> quarantine = None \<and> container = None then
         followed_by (assign (\<lambda>e. e\<lparr>gj_phase := JP_Deleted\<rparr>)) (\<lambda>_.
         followed_by (with_entry (\<lambda>e. outside (J e))) (\<lambda>_.
         followed_by (outside (renew_or_fail L c token ''GC recovery reservation expired before finalization.'')) (\<lambda>_.
         followed_by (with_entry (\<lambda>e. outside (finalize_or_fail L (finalized_entry e) token
           ''Atomic GC recovery finalization lost its exact lease or journal.''))) (\<lambda>_.
         followed_by (outside (gl_release L (gj_storage_object_id entry) token False)) (\<lambda>_.
         succeed True)))))
       else succeed False))))
     else succeed False)"

definition record_container :: "'w gc_journal \<Rightarrow> quarantine_container \<Rightarrow> ('w, unit) entry_action" where
  "record_container J container =
    with_entry (\<lambda>e. if gj_container e = None
      then followed_by (assign (\<lambda>e. e\<lparr>gj_container := Some container\<rparr>)) (\<lambda>_. with_entry (\<lambda>e. outside (J e)))
      else succeed ())"

definition recover_prefix ::
  "('w, 'g, 'p) gc_world \<Rightarrow> 'w gc_lease \<Rightarrow> 'w gc_journal \<Rightarrow> cleanup_request \<Rightarrow> string \<Rightarrow> string \<Rightarrow> quarantine_container
   \<Rightarrow> ('w, unit) entry_action" where
  "recover_prefix W L J c token quarantine_path container =
    with_entry (\<lambda>e. if gj_phase e \<in> {JP_Prepared, JP_Linked, JP_Unlinking}
      then followed_by (outside (resume_quarantine_prefix W L J c token e quarantine_path container)) (\<lambda>resumed. assign (\<lambda>_. resumed))
      else succeed ())"

definition delete_found ::
  "('w, 'g, 'p) gc_world \<Rightarrow> 'w gc_lease \<Rightarrow> 'w gc_journal \<Rightarrow> nat \<Rightarrow> nat \<Rightarrow> cleanup_request \<Rightarrow> string \<Rightarrow> string \<Rightarrow> node_stat
   \<Rightarrow> ('w, unit) entry_action" where
  "delete_found W L J max_entries max_depth c token quarantine_path st =
    followed_by (outside (assert_candidate_identity W c st)) (\<lambda>_.
    followed_by (assign (\<lambda>e. e\<lparr>gj_phase := JP_Deleting\<rparr>)) (\<lambda>_.
    followed_by (with_entry (\<lambda>e. outside (J e))) (\<lambda>_.
    outside (delete_exact_quarantine W quarantine_path c max_entries max_depth
      (renew_or_fail L c token ''GC recovery reservation expired during deletion.'')))))"

definition recover_deletion ::
  "('w, 'g, 'p) gc_world \<Rightarrow> 'w gc_lease \<Rightarrow> 'w gc_journal \<Rightarrow> nat \<Rightarrow> nat \<Rightarrow> cleanup_request \<Rightarrow> string \<Rightarrow> string \<Rightarrow> ('w, unit) entry_action" where
  "recover_deletion W L J max_entries max_depth c token quarantine_path =
    with_entry (\<lambda>entry. if gj_phase entry \<in> {JP_Quarantined, JP_Deleting} then
      followed_by (outside (lstat_if_exists W quarantine_path)) (\<lambda>quarantine.
      followed_by (case quarantine of
          None \<Rightarrow> followed_by (outside (lstat_if_exists W (gj_original_path entry))) (\<lambda>original.
            require (original = None) (cleanup_failure ''GC journal quarantine is absent while the original path still exists.''))
        | Some st \<Rightarrow> delete_found W L J max_entries max_depth c token quarantine_path st) (\<lambda>_.
      followed_by (assign (\<lambda>e. e\<lparr>gj_phase := JP_Deleted\<rparr>)) (\<lambda>_.
      with_entry (\<lambda>e. outside (J e)))))
    else succeed ())"

definition recover_finalization ::
  "('w, 'g, 'p) gc_world \<Rightarrow> 'w gc_lease \<Rightarrow> cleanup_request \<Rightarrow> string \<Rightarrow> string \<Rightarrow> ('w, unit) entry_action" where
  "recover_finalization W L c token quarantine_path =
    with_entry (\<lambda>entry. if gj_phase entry = JP_Deleted then
      followed_by (outside (lstat_if_exists W quarantine_path)) (\<lambda>quarantine.
      followed_by (require (quarantine = None) (cleanup_failure ''Deleted GC journal still has a quarantine object.'')) (\<lambda>_.
      followed_by (outside (renew_or_fail L c token ''GC recovery reservation expired before finalization.'')) (\<lambda>_.
      followed_by (outside (finalize_or_fail L (finalized_entry entry) token
        ''Atomic GC recovery finalization lost its exact lease or journal.'')) (\<lambda>_.
      assign finalized_entry))))
    else succeed ())"

definition recover_quarantined ::
  "('w, 'g, 'p) gc_world \<Rightarrow> 'w gc_lease \<Rightarrow> 'w gc_journal \<Rightarrow> nat \<Rightarrow> nat \<Rightarrow> cleanup_request \<Rightarrow> string \<Rightarrow> string \<Rightarrow> ('w, gc_outcome) entry_action" where
  "recover_quarantined W L J max_entries max_depth c token quarantine_path =
    followed_by (with_entry (\<lambda>e. outside (ensure_recovery_container W c e quarantine_path))) (\<lambda>container.
    followed_by (record_container J container) (\<lambda>_.
    followed_by (recover_prefix W L J c token quarantine_path container) (\<lambda>_.
    followed_by (recover_deletion W L J max_entries max_depth c token quarantine_path) (\<lambda>_.
    followed_by (recover_finalization W L c token quarantine_path) (\<lambda>_.
    followed_by (outside (gd_hook W (Before_Container_Cleanup (qc_path container)))) (\<lambda>_.
    followed_by (outside (remove_exact_quarantine_container W container)) (\<lambda>_.
    followed_by (outside (gl_release L (cr_storage_object_id c) token False)) (\<lambda>_.
    succeed Deleted))))))))"

definition recover_leased ::
  "('w, 'g, 'p) gc_world \<Rightarrow> 'w gc_lease \<Rightarrow> 'w gc_journal \<Rightarrow> nat \<Rightarrow> nat \<Rightarrow> cleanup_request \<Rightarrow> string \<Rightarrow> gc_journal_input
   \<Rightarrow> ('w, gc_outcome) entry_action" where
  "recover_leased W L J max_entries max_depth c token entry =
    (case gj_quarantine_path entry of
       None \<Rightarrow> recover_absent W L token entry
     | Some quarantine_path \<Rightarrow>
       followed_by (recover_bare W L J c token entry quarantine_path) (\<lambda>bare.
       if bare then succeed Deleted else recover_quarantined W L J max_entries max_depth c token quarantine_path))"

definition failed_recovery :: "gc_journal_input \<Rightarrow> journal_phase \<Rightarrow> gc_error \<Rightarrow> gc_outcome" where
  "failed_recovery entry phase e = Failed (Some phase) (gj_quarantine_path entry) (reported_error e)"

text \<open>The recovery under its lease with its \<open>catch\<close>.\<close>

definition recover_or_give_up ::
  "('w, 'g, 'p) gc_world \<Rightarrow> 'w gc_lease \<Rightarrow> 'w gc_journal \<Rightarrow> nat \<Rightarrow> nat \<Rightarrow> cleanup_request \<Rightarrow> string \<Rightarrow> gc_journal_input
   \<Rightarrow> 'w \<Rightarrow> 'w \<times> gc_outcome" where
  "recover_or_give_up W L J max_entries max_depth c token entry w =
    (case recover_leased W L J max_entries max_depth c token entry (entry, w) of
       ((_, t), Inr outcome) \<Rightarrow> (t, outcome)
     | ((current, t), Inl e) \<Rightarrow>
       (case (if past_quarantine (Some (gj_phase current)) then (t, True) else quarantine_occupied W (gj_quarantine_path entry) t) of
          (t1, preserve) \<Rightarrow>
            (fst (gl_release L (gj_storage_object_id entry) token preserve t1), failed_recovery entry (gj_phase current) e)))"

text \<open>A finalized entry has at most its container left.\<close>

definition sweep_finalized ::
  "('w, 'g, 'p) gc_world \<Rightarrow> cleanup_request \<Rightarrow> gc_journal_input \<Rightarrow> gc_outcome \<Rightarrow> 'w \<Rightarrow> 'w \<times> gc_outcome" where
  "sweep_finalized W c entry outcome w =
    (case cleanup_finalized_container W c entry w of
       (t, Inr _) \<Rightarrow> (t, outcome)
     | (t, Inl e) \<Rightarrow> (t, failed_recovery entry JP_Finalized e))"

text \<open>Without a lease: what was deleted, or was absent, and is found so still, may have been removed from the store.\<close>

definition finalize_without_lease ::
  "('w, 'g, 'p) gc_world \<Rightarrow> 'w gc_lease \<Rightarrow> cleanup_request \<Rightarrow> string \<Rightarrow> gc_journal_input \<Rightarrow> ('w, gc_outcome option) action" where
  "finalize_without_lease W L c token entry =
    (if \<not> (gj_phase entry = JP_Deleted \<or> gj_phase entry = JP_Prepared \<and> gj_quarantine_path entry = None) then succeed None
     else followed_by (case gj_quarantine_path entry of None \<Rightarrow> succeed None | Some path \<Rightarrow> lstat_if_exists W path) (\<lambda>quarantine.
       if quarantine \<noteq> None then succeed None
       else followed_by (lstat_if_exists W (gj_original_path entry)) (\<lambda>original.
         if original \<noteq> None then succeed None
         else followed_by (gl_finalize L (finalized_entry entry) token) (\<lambda>finalized.
           if \<not> finalized then succeed None
           else (\<lambda>w. case sweep_finalized W c (finalized_entry entry)
                 (if gj_phase entry = JP_Prepared then Already_Absent else Deleted) w of
               (t, outcome) \<Rightarrow> (t, Inr (Some outcome)))))))"

definition recover_gc_journal_entry ::
  "('w, 'g, 'p) gc_world \<Rightarrow> 'w gc_lease \<Rightarrow> 'w gc_journal \<Rightarrow> nat option \<Rightarrow> nat option \<Rightarrow> gc_journal_input \<Rightarrow> ('w, gc_outcome) action" where
  "recover_gc_journal_entry W L J max_entries max_depth entry =
    (let c = recovery_candidate entry;
         entries = (case max_entries of None \<Rightarrow> 10000 | Some n \<Rightarrow> n);
         depth = (case max_depth of None \<Rightarrow> 64 | Some n \<Rightarrow> n) in
     followed_by (gd_uuid W) (\<lambda>token.
     if gj_phase entry = JP_Finalized
     then (\<lambda>w. case sweep_finalized W c entry Already_Absent w of (t, outcome) \<Rightarrow> (t, Inr outcome))
     else followed_by (finalize_without_lease W L c token entry) (\<lambda>finished. case finished of
         Some outcome \<Rightarrow> succeed outcome
       | None \<Rightarrow>
         followed_by (gl_acquire L c token) (\<lambda>acquired.
         if \<not> acquired then succeed (Lease_Contended (Some (gj_phase entry)) (gj_quarantine_path entry)
           (cleanup_failure ''Another GC owns the recovery lease.''))
         else (\<lambda>w. case recover_or_give_up W L J entries depth c token entry w of (t, outcome) \<Rightarrow> (t, Inr outcome))))))"

end
