(* ===== verification/Gc_Disk.thy ===== *)
theory Gc_Disk
  imports Gc_Recovery
begin

text \<open>
  Surroundings for the collector: a POSIX file system seen by one process, with the calls of \<open>node:fs\<close> the engine
  makes, and the store behind the lease coordinator and the journal (\<open>sqliteLeaseCoordinator\<close>, \<open>sqliteJournal\<close> in
  \<open>packages/cli/src/commands/resource-production.ts\<close>). Nobody else writes, the guard authorizes everything and the
  hooks do nothing. Beside the disk stands a trail of every disk that was durable in between, which is what a crash
  may leave behind.
\<close>

section \<open>The file system\<close>

record disk_inode =
  di_directory :: bool
  di_uid :: int
  di_mode :: int
  di_nlink :: int

text \<open>Entries by their absolute path. \<open>dk_uuid n\<close> is the \<open>n\<close>-th answer of \<open>randomUUID\<close>.\<close>

record disk =
  dk_paths :: "(string \<times> nat) list"
  dk_inodes :: "nat \<Rightarrow> disk_inode"
  dk_next :: nat
  dk_device :: int
  dk_user :: int
  dk_db :: db
  dk_now :: time
  dk_uuid :: "nat \<Rightarrow> string"
  dk_drawn :: nat

definition file_error :: "string \<Rightarrow> gc_error" where
  "file_error code = Gc_Error (Some code) code"

definition stat_of :: "disk \<Rightarrow> nat \<Rightarrow> node_stat" where
  "stat_of d i = (let n = dk_inodes d i in
    \<lparr> nt_directory = di_directory n, nt_file = \<not> di_directory n, nt_symlink = False, nt_dev = dk_device d, nt_ino = int i,
      nt_uid = di_uid n, nt_nlink = di_nlink n, nt_mode = di_mode n \<rparr>)"

definition is_directory :: "disk \<Rightarrow> string \<Rightarrow> bool" where
  "is_directory d path = (case map_of (dk_paths d) path of None \<Rightarrow> False | Some i \<Rightarrow> di_directory (dk_inodes d i))"

definition disk_lstat :: "string \<Rightarrow> (disk, node_stat) action" where
  "disk_lstat path d = (case map_of (dk_paths d) path of None \<Rightarrow> (d, Inl (file_error ''ENOENT'')) | Some i \<Rightarrow> (d, Inr (stat_of d i)))"

definition set_inode :: "nat \<Rightarrow> disk_inode \<Rightarrow> disk \<Rightarrow> disk" where
  "set_inode i n d = d\<lparr>dk_inodes := (dk_inodes d)(i := n)\<rparr>"

definition drop_path :: "string \<Rightarrow> disk \<Rightarrow> disk" where
  "drop_path path d = d\<lparr>dk_paths := filter (\<lambda>e. fst e \<noteq> path) (dk_paths d)\<rparr>"

definition add_path :: "string \<Rightarrow> nat \<Rightarrow> disk \<Rightarrow> disk" where
  "add_path path i d = d\<lparr>dk_paths := (path, i) # dk_paths d\<rparr>"

definition disk_link :: "string \<Rightarrow> string \<Rightarrow> (disk, unit) action" where
  "disk_link path new_path d =
    (case map_of (dk_paths d) path of
       None \<Rightarrow> (d, Inl (file_error ''ENOENT''))
     | Some i \<Rightarrow>
       let n = dk_inodes d i in
       if map_of (dk_paths d) new_path \<noteq> None then (d, Inl (file_error ''EEXIST''))
       else if \<not> is_directory d (dirname new_path) then (d, Inl (file_error ''ENOENT''))
       else if di_directory n then (d, Inl (file_error ''EPERM''))
       else (add_path new_path i (set_inode i (n\<lparr>di_nlink := di_nlink n + 1\<rparr>) d), Inr ()))"

definition disk_unlink :: "string \<Rightarrow> (disk, unit) action" where
  "disk_unlink path d =
    (case map_of (dk_paths d) path of
       None \<Rightarrow> (d, Inl (file_error ''ENOENT''))
     | Some i \<Rightarrow>
       let n = dk_inodes d i in
       if di_directory n then (d, Inl (file_error ''EPERM''))
       else (drop_path path (set_inode i (n\<lparr>di_nlink := di_nlink n - 1\<rparr>) d), Inr ()))"

text \<open>A rename takes what is below along; a target that exists is refused here.\<close>

definition moved_path :: "string \<Rightarrow> string \<Rightarrow> string \<Rightarrow> string" where
  "moved_path path new_path p =
    (if p = path \<or> starts_with (path @ ''/'') p then new_path @ drop (length path) p else p)"

definition disk_rename :: "string \<Rightarrow> string \<Rightarrow> (disk, unit) action" where
  "disk_rename path new_path d =
    (if map_of (dk_paths d) path = None \<or> \<not> is_directory d (dirname new_path) then (d, Inl (file_error ''ENOENT''))
     else if map_of (dk_paths d) new_path \<noteq> None then (d, Inl (file_error ''EEXIST''))
     else (d\<lparr>dk_paths := map (\<lambda>e. (moved_path path new_path (fst e), snd e)) (dk_paths d)\<rparr>, Inr ()))"

definition directory_type :: int where
  "directory_type = 16384"

definition file_type :: int where
  "file_type = 32768"

definition disk_mkdir :: "string \<Rightarrow> int \<Rightarrow> (disk, unit) action" where
  "disk_mkdir path mode d =
    (if map_of (dk_paths d) path \<noteq> None then (d, Inl (file_error ''EEXIST''))
     else if \<not> is_directory d (dirname path) then (d, Inl (file_error ''ENOENT''))
     else (add_path path (dk_next d) (set_inode (dk_next d)
         \<lparr> di_directory = True, di_uid = dk_user d, di_mode = directory_type + mode, di_nlink = 2 \<rparr> (d\<lparr>dk_next := Suc (dk_next d)\<rparr>)), Inr ()))"

definition children :: "disk \<Rightarrow> string \<Rightarrow> string list" where
  "children d path = map (basename \<circ> fst) (filter (\<lambda>e. fst e \<noteq> path \<and> dirname (fst e) = path) (dk_paths d))"

definition disk_readdir :: "string \<Rightarrow> (disk, string list) action" where
  "disk_readdir path d =
    (if map_of (dk_paths d) path = None then (d, Inl (file_error ''ENOENT''))
     else if \<not> is_directory d path then (d, Inl (file_error ''ENOTDIR''))
     else (d, Inr (children d path)))"

definition disk_rmdir :: "string \<Rightarrow> (disk, unit) action" where
  "disk_rmdir path d =
    (if map_of (dk_paths d) path = None then (d, Inl (file_error ''ENOENT''))
     else if \<not> is_directory d path then (d, Inl (file_error ''ENOTDIR''))
     else if children d path \<noteq> [] then (d, Inl (file_error ''ENOTEMPTY''))
     else (drop_path path d, Inr ()))"

definition disk_chmod :: "string \<Rightarrow> int \<Rightarrow> (disk, unit) action" where
  "disk_chmod path mode d =
    (case map_of (dk_paths d) path of
       None \<Rightarrow> (d, Inl (file_error ''ENOENT''))
     | Some i \<Rightarrow>
       let n = dk_inodes d i in
       (set_inode i (n\<lparr>di_mode := (if di_directory n then directory_type else file_type) + mode\<rparr>) d, Inr ()))"

definition disk_uuid :: "(disk, string) action" where
  "disk_uuid d = (d\<lparr>dk_drawn := Suc (dk_drawn d)\<rparr>, Inr (dk_uuid d (dk_drawn d)))"

section \<open>The surroundings of the engine\<close>

type_synonym logged_disk = "disk \<times> disk list"

text \<open>A call that reads, and a call that leaves a new durable state.\<close>

definition reads :: "(disk, 'a) action \<Rightarrow> (logged_disk, 'a) action" where
  "reads m w = (case m (fst w) of (d, r) \<Rightarrow> ((d, snd w), r))"

definition writes :: "(disk, 'a) action \<Rightarrow> (logged_disk, 'a) action" where
  "writes m w = (case m (fst w) of (d, r) \<Rightarrow> ((d, snd w @ [d]), r))"

definition disk_world :: "(logged_disk, unit, nat) gc_world" where
  "disk_world = \<lparr> gd_lstat = (\<lambda>path. reads (disk_lstat path)), gd_link = (\<lambda>path new_path. writes (disk_link path new_path)),
     gd_unlink = (\<lambda>path. writes (disk_unlink path)), gd_rename = (\<lambda>path new_path. writes (disk_rename path new_path)),
     gd_mkdir = (\<lambda>path mode. writes (disk_mkdir path mode)), gd_rmdir = (\<lambda>path. writes (disk_rmdir path)),
     gd_readdir = (\<lambda>path. reads (disk_readdir path)), gd_chmod = (\<lambda>path mode. writes (disk_chmod path mode)),
     gd_uuid = reads disk_uuid, gd_authorize = (\<lambda>_ _. succeed ()), gd_authorize_parent = (\<lambda>_ _. succeed ()),
     gd_revalidate = (\<lambda>_. succeed ()), gd_revalidate_parent = (\<lambda>_. succeed ()),
     gd_pin = (\<lambda>path. reads (\<lambda>d. (d, Inr (map_of (dk_paths d) path)))),
     gd_holds = (\<lambda>pin st. reads (\<lambda>d. (d, Inr (nt_ino st = int pin \<and> di_nlink (dk_inodes d pin) \<noteq> 0)))),
     gd_close = (\<lambda>_ w. w),
     gd_owned_by_user = (\<lambda>st _. reads (\<lambda>d. (d, Inr (nt_uid st = dk_user d)))),
     gd_owner_only = (\<lambda>st _ mask. succeed (Bit_Operations.and (nt_mode st) mask = 0)),
     gd_not_shared = (\<lambda>st. nt_nlink st = 1), gd_hook = (\<lambda>_. succeed ()) \<rparr>"

text \<open>The store as coordinator and journal, with the default lease time of its operations.\<close>

definition cleanup_ttl_ms :: int where
  "cleanup_ttl_ms = 5 * 60000"

definition store_call :: "(db \<Rightarrow> time \<Rightarrow> db \<times> 'a) \<Rightarrow> (logged_disk, 'a) action" where
  "store_call f = writes (\<lambda>d. case f (dk_db d) (dk_now d) of (s, a) \<Rightarrow> (d\<lparr>dk_db := s\<rparr>, Inr a))"

definition store_attempt :: "(db \<Rightarrow> time \<Rightarrow> store_error + (db \<times> 'a)) \<Rightarrow> (logged_disk, 'a) action" where
  "store_attempt f = writes (\<lambda>d. case f (dk_db d) (dk_now d) of
     Inl _ \<Rightarrow> (d, Inl (Gc_Error None ''store'')) | Inr (s, a) \<Rightarrow> (d\<lparr>dk_db := s\<rparr>, Inr a))"

definition sqlite_lease_coordinator :: "logged_disk gc_lease" where
  "sqlite_lease_coordinator =
    \<lparr> gl_acquire = (\<lambda>c token. store_call (\<lambda>s now. acquire_cleanup_lease s c token (Some cleanup_ttl_ms) now)),
      gl_renew = (\<lambda>c token. store_call (\<lambda>s now. renew_cleanup_lease s c token (Some cleanup_ttl_ms) now)),
      gl_release = (\<lambda>object_id token preserve. store_call (\<lambda>s now. (fst (release_cleanup_lease s object_id token preserve), ()))),
      gl_finalize = (\<lambda>entry token. store_attempt (\<lambda>s now. finalize_journal s entry token now)) \<rparr>"

definition sqlite_journal :: "logged_disk gc_journal" where
  "sqlite_journal entry = store_attempt (\<lambda>s now. map_sum id (\<lambda>t. (t, ())) (record_journal s entry now))"

end
