(* ===== verification/Gc_View.thy ===== *)
theory Gc_View
  imports Gc_Disk Resource_Properties
begin

text \<open>
  What the collection of one object sees of the store: the state of its record, the lease on it and the row of its
  operation in the journal; and how each operation of the coordinator changes that view.
\<close>

section \<open>The view\<close>

definition same_object :: "cleanup_request \<Rightarrow> storage_object \<Rightarrow> bool" where
  "same_object c q \<longleftrightarrow>
     so_id q = cr_storage_object_id c \<and> so_sandbox_id q = cr_sandbox_id c \<and> so_path q = cr_path c \<and> so_dev q = cr_dev c \<and>
     so_ino q = cr_ino c \<and> so_uid q = cr_uid c \<and> so_kind q = cr_kind c \<and> so_retention q = Ephemeral \<and> so_owned q"

definition lease_for :: "cleanup_request \<Rightarrow> string \<times> time \<Rightarrow> cleanup_lease \<Rightarrow> bool" where
  "lease_for c held l \<longleftrightarrow>
     cl_storage_object_id l = cr_storage_object_id c \<and> cl_sandbox_id l = cr_sandbox_id c \<and>
     cl_sandbox_generation l = cr_sandbox_generation c \<and> cl_path l = cr_path c \<and> cl_dev l = cr_dev c \<and> cl_ino l = cr_ino c \<and>
     cl_uid l = cr_uid c \<and> cl_kind l = cr_kind c \<and> cl_retention l = Ephemeral \<and> (cl_token l, cl_expires_at l) = held"

definition lease_is :: "cleanup_request \<Rightarrow> (string \<times> time) option \<Rightarrow> db \<Rightarrow> bool" where
  "lease_is c lease s = (case lease of
     None \<Rightarrow> \<forall>l\<in>set (cleanup_leases s). cl_storage_object_id l \<noteq> cr_storage_object_id c
   | Some held \<Rightarrow> \<exists>l\<in>set (cleanup_leases s). lease_for c held l)"

definition journal_row_of :: "string \<Rightarrow> db \<Rightarrow> gc_journal_input option" where
  "journal_row_of op s = map_option gr_input (row_by (\<lambda>r. gj_operation_id (gr_input r)) op (journal s))"

definition gc_sees ::
  "cleanup_request \<Rightarrow> string \<Rightarrow> db \<Rightarrow> storage_state \<Rightarrow> (string \<times> time) option \<Rightarrow> gc_journal_input option \<Rightarrow> bool" where
  "gc_sees c op s st lease row \<longleftrightarrow>
     resources_ok s \<and> cr_retention c = Ephemeral \<and> sandbox_generation_is s (cr_sandbox_id c) (cr_sandbox_generation c) \<and>
     \<not> referenced s (cr_storage_object_id c) \<and> (\<exists>q\<in>set (storage_objects s). same_object c q \<and> so_state q = st) \<and>
     lease_is c lease s \<and> journal_row_of op s = row"

lemma gc_seesI:
  assumes "resources_ok s" and "cr_retention c = Ephemeral" and "sandbox_generation_is s (cr_sandbox_id c) (cr_sandbox_generation c)"
    and "\<not> referenced s (cr_storage_object_id c)" and "q \<in> set (storage_objects s)" and "same_object c q" and "so_state q = st"
    and "lease_is c lease s" and "journal_row_of op s = row"
  shows "gc_sees c op s st lease row"
  using assms by (auto simp: gc_sees_def)

lemma gc_seesE:
  assumes "gc_sees c op s st lease row"
  obtains q where "resources_ok s" and "cr_retention c = Ephemeral" and "sandbox_generation_is s (cr_sandbox_id c) (cr_sandbox_generation c)"
    and "\<not> referenced s (cr_storage_object_id c)" and "q \<in> set (storage_objects s)" and "same_object c q" and "so_state q = st"
    and "lease_is c lease s" and "journal_row_of op s = row"
  using assms by (auto simp: gc_sees_def)

lemma lease_is_cong: "cleanup_leases t = cleanup_leases s \<Longrightarrow> lease_is c lease t = lease_is c lease s"
  by (simp add: lease_is_def split: option.split)

section \<open>The operations\<close>

lemma sees_acquire:
  assumes "gc_sees c op s st lease row" and "st \<in> {SO_STALE, SO_ORPHANED, SO_QUARANTINED}"
    and "case lease of None \<Rightarrow> True | Some (_, expiry) \<Rightarrow> expiry \<le> now" and "0 < ttl"
  shows "\<exists>t. acquire_cleanup_lease s (c\<lparr>cr_state := st\<rparr>) token (Some ttl) now = (t, True) \<and>
    gc_sees c op t SO_QUARANTINED (Some (token, now + nat ttl)) row"
proof -
  from assms(1) obtain q where s: "resources_ok s" "cr_retention c = Ephemeral"
    "sandbox_generation_is s (cr_sandbox_id c) (cr_sandbox_generation c)" "\<not> referenced s (cr_storage_object_id c)"
    "q \<in> set (storage_objects s)" "same_object c q" "so_state q = st" "lease_is c lease s" "journal_row_of op s = row"
    by (rule gc_seesE)
  let ?c = "c\<lparr>cr_state := st\<rparr>"
  define s1 where "s1 = s\<lparr>cleanup_leases := del_where (\<lambda>l. cl_storage_object_id l = cr_storage_object_id ?c
              \<and> cl_expires_at l \<le> now) (cleanup_leases s)\<rparr>"
  have none: "\<not> exists_where (\<lambda>l. cl_storage_object_id l = cr_storage_object_id ?c) (cleanup_leases s1)"
  proof
    assume "exists_where (\<lambda>l. cl_storage_object_id l = cr_storage_object_id ?c) (cleanup_leases s1)"
    then obtain l where l: "l \<in> set (cleanup_leases s)" "cl_storage_object_id l = cr_storage_object_id c" "now < cl_expires_at l"
      by (auto simp: s1_def list_ex_iff)
    with s(8) obtain held m where "lease = Some held" "m \<in> set (cleanup_leases s)" "lease_for c held m"
      by (auto simp: lease_is_def split: option.splits)
    moreover from this l have "m = l" by (intro cleanup_lease_unique [OF s(1)]) (auto simp: lease_for_def)
    ultimately show False using assms(3) l(3) by (auto simp: lease_for_def)
  qed
  have "cleanup_eligible s1 ?c q"
    using s assms(2) by (auto simp: cleanup_eligible_def same_object_def s1_def sandbox_generation_is_def referenced_def)
  then have eligible: "exists_where (cleanup_eligible s1 ?c) (storage_objects s1)"
    using s(5) by (auto simp: list_ex_iff s1_def)
  let ?t = "fst (acquire_cleanup_lease s ?c token (Some ttl) now)"
  have res: "acquire_cleanup_lease s ?c token (Some ttl) now = (?t, True)"
    using eligible none assms(4) unfolding acquire_cleanup_lease_def Let_def s1_def [symmetric] by (simp add: positive_ttl_def)
  define l where "l = \<lparr> cl_storage_object_id = cr_storage_object_id ?c, cl_token = token, cl_sandbox_id = cr_sandbox_id ?c,
              cl_sandbox_generation = cr_sandbox_generation ?c, cl_path = cr_path ?c, cl_dev = cr_dev ?c, cl_ino = cr_ino ?c,
              cl_uid = cr_uid ?c, cl_kind = cr_kind ?c, cl_previous_state = cr_state ?c, cl_retention = cr_retention ?c,
              cl_acquired_at = now, cl_expires_at = ttl_end now (Some ttl) \<rparr>"
  have t: "?t = set_object_state (\<lambda>o'. so_id o' = cr_storage_object_id ?c) SO_QUARANTINED (s1\<lparr>cleanup_leases := cleanup_leases s1 @ [l]\<rparr>)"
    using eligible none assms(4) unfolding acquire_cleanup_lease_def Let_def s1_def [symmetric] l_def [symmetric]
    by (simp add: positive_ttl_def)
  have "ttl_end now (Some ttl) = now + nat ttl" using assms(4) by (simp add: ttl_end_def nat_add_distrib)
  then have l: "lease_for c (token, now + nat ttl) l" by (simp add: lease_for_def l_def s(2))
  have "gc_sees c op ?t SO_QUARANTINED (Some (token, now + nat ttl)) row"
  proof (rule gc_seesI)
    show "resources_ok ?t" by (rule acquire_cleanup_lease_ok [OF s(1)])
    show "q\<lparr>so_state := SO_QUARANTINED\<rparr> \<in> set (storage_objects ?t)"
      using s(5,6) by (auto simp: t s1_def set_upd_where same_object_def image_iff intro!: bexI [of _ q])
    show "lease_is c (Some (token, now + nat ttl)) ?t" using l by (auto simp: lease_is_def t)
  qed (use s in \<open>auto simp: t s1_def sandbox_generation_is_def referenced_def same_object_def journal_row_of_def set_object_state_def\<close>)
  with res show ?thesis by blast
qed

lemma sees_renew:
  assumes "gc_sees c op s SO_QUARANTINED (Some (token, expiry)) row" and "now < expiry" and "0 < ttl"
  shows "\<exists>t. renew_cleanup_lease s (c\<lparr>cr_state := st\<rparr>) token (Some ttl) now = (t, True) \<and>
    gc_sees c op t SO_QUARANTINED (Some (token, now + nat ttl)) row"
proof -
  from assms(1) obtain q where s: "resources_ok s" "cr_retention c = Ephemeral"
    "sandbox_generation_is s (cr_sandbox_id c) (cr_sandbox_generation c)" "\<not> referenced s (cr_storage_object_id c)"
    "q \<in> set (storage_objects s)" "same_object c q" "so_state q = SO_QUARANTINED" "lease_is c (Some (token, expiry)) s" "journal_row_of op s = row"
    by (rule gc_seesE)
  let ?c = "c\<lparr>cr_state := st\<rparr>" and ?P = "renewable_lease s (c\<lparr>cr_state := st\<rparr>) token now"
  from s(8) obtain l where l: "l \<in> set (cleanup_leases s)" "lease_for c (token, expiry) l" by (auto simp: lease_is_def)
  have "lease_of_object l q \<and> sandbox_generation_is s (so_sandbox_id q) (cl_sandbox_generation l)"
    using l(2) s(3,6) by (simp add: lease_for_def lease_of_object_def same_object_def)
  then have P: "?P l" using l(2) s(2,4,5,6,7) assms(2) unfolding renewable_lease_def list_ex_iff
    by (auto simp: lease_for_def same_object_def intro!: bexI [of _ q])
  have "?P m \<longleftrightarrow> cl_storage_object_id m = cl_storage_object_id l" if "m \<in> set (cleanup_leases s)" for m
  proof
    assume "?P m"
    with l(2) show "cl_storage_object_id m = cl_storage_object_id l" by (simp add: renewable_lease_def lease_for_def)
  next
    assume "cl_storage_object_id m = cl_storage_object_id l"
    then have "m = l" by (rule cleanup_lease_unique [OF s(1) that l(1)])
    with P show "?P m" by (simp only:)
  qed
  then have "filter ?P (cleanup_leases s) = filter (\<lambda>m. cl_storage_object_id m = cl_storage_object_id l) (cleanup_leases s)"
    by (intro filter_cong) simp_all
  also have "\<dots> = [l]" by (rule distinct_key_filter) (rule resources_okD [OF s(1)], rule l(1))
  finally have one: "count_where ?P (cleanup_leases s) = 1" by (simp add: count_where_def)
  let ?t = "fst (renew_cleanup_lease s ?c token (Some ttl) now)"
  have res: "renew_cleanup_lease s ?c token (Some ttl) now = (?t, True)"
    and t: "?t = s\<lparr>cleanup_leases := upd_where ?P (\<lambda>l. l\<lparr>cl_expires_at := ttl_end now (Some ttl)\<rparr>) (cleanup_leases s)\<rparr>"
    using one assms(3) by (simp_all add: renew_cleanup_lease_def positive_ttl_def Let_def)
  have "ttl_end now (Some ttl) = now + nat ttl" using assms(3) by (simp add: ttl_end_def nat_add_distrib)
  then have renewed: "lease_for c (token, now + nat ttl) (l\<lparr>cl_expires_at := ttl_end now (Some ttl)\<rparr>)"
    using l(2) by (simp add: lease_for_def)
  have mem: "l\<lparr>cl_expires_at := ttl_end now (Some ttl)\<rparr> \<in>
      set (upd_where ?P (\<lambda>l. l\<lparr>cl_expires_at := ttl_end now (Some ttl)\<rparr>) (cleanup_leases s))"
    unfolding set_upd_where by (rule image_eqI [OF _ l(1)]) (simp only: P if_True)
  have "gc_sees c op ?t SO_QUARANTINED (Some (token, now + nat ttl)) row"
  proof (rule gc_seesI)
    show "resources_ok ?t" by (rule renew_cleanup_lease_ok [OF s(1)])
    show "lease_is c (Some (token, now + nat ttl)) ?t"
      unfolding lease_is_def t option.case using renewed mem by auto
  qed (use s in \<open>auto simp: t sandbox_generation_is_def referenced_def journal_row_of_def\<close>)
  with res show ?thesis by blast
qed

text \<open>A row of the operation keeps its identity.\<close>

definition same_operation :: "gc_journal_input \<Rightarrow> gc_journal_input \<Rightarrow> bool" where
  "same_operation i j \<longleftrightarrow> j\<lparr>gj_phase := gj_phase i, gj_quarantine_path := gj_quarantine_path i, gj_container := gj_container i\<rparr> = i"

lemma sees_record:
  assumes "gc_sees c op s st lease row" and "gj_operation_id i = op" and "gj_storage_object_id i = cr_storage_object_id c"
    and "case row of None \<Rightarrow> True | Some j \<Rightarrow> same_operation i j \<and> phase_order (gj_phase j) \<le> phase_order (gj_phase i)"
  shows "\<exists>t. record_journal s i now = Inr t \<and> gc_sees c op t st lease (Some i)"
proof -
  from assms(1) obtain q where s: "resources_ok s" "cr_retention c = Ephemeral"
    "sandbox_generation_is s (cr_sandbox_id c) (cr_sandbox_generation c)" "\<not> referenced s (cr_storage_object_id c)"
    "q \<in> set (storage_objects s)" "same_object c q" "so_state q = st" "lease_is c lease s" "journal_row_of op s = row"
    by (rule gc_seesE)
  let ?f = "\<lambda>r. r\<lparr>gr_input := (gr_input r)\<lparr>gj_phase := gj_phase i, gj_quarantine_path := gj_quarantine_path i,
                gj_container := gj_container i\<rparr>, gr_updated_at := now\<rparr>"
  let ?key = "\<lambda>r. gj_operation_id (gr_input r)"
  have "\<exists>t. record_journal s i now = Inr t \<and> storage_objects t = storage_objects s \<and> cleanup_leases t = cleanup_leases s \<and>
      sandboxes t = sandboxes s \<and> references t = references s \<and> journal_row_of op t = Some i"
  proof (cases "row_by ?key op (journal s)")
    case None
    have "exists_where (\<lambda>o'. so_id o' = gj_storage_object_id i) (storage_objects s)"
      using s(5,6) assms(3) by (auto simp: list_ex_iff same_object_def)
    with None assms(2) show ?thesis by (simp add: record_journal_def journal_row_of_def row_by_append)
  next
    case (Some r)
    with s(9) have row: "row = Some (gr_input r)" by (simp add: journal_row_of_def)
    have "row_by ?key op rows = Some r \<Longrightarrow> row_by ?key op (upd_where (\<lambda>r. ?key r = op) ?f rows) = Some (?f r)" for rows
      by (induction rows) auto
    from this [OF Some] Some row assms(2,4) show ?thesis
      by (simp add: record_journal_def journal_row_of_def same_operation_def)
  qed
  then obtain t where t: "record_journal s i now = Inr t" "storage_objects t = storage_objects s" "cleanup_leases t = cleanup_leases s"
      "sandboxes t = sandboxes s" "references t = references s" "journal_row_of op t = Some i" by blast
  have "gc_sees c op t st lease (Some i)"
    by (rule gc_seesI [where q = q]) (use s t record_journal_ok [OF t(1) s(1)] lease_is_cong [OF t(3)] in
      \<open>simp_all add: sandbox_generation_is_def referenced_def\<close>)
  with t(1) show ?thesis by blast
qed

text \<open>What the finalization looks for among the objects.\<close>

definition finalizable :: "db \<Rightarrow> gc_journal_input \<Rightarrow> string \<Rightarrow> time \<Rightarrow> storage_object \<Rightarrow> bool" where
  "finalizable s i token now q \<longleftrightarrow> journal_object s i q \<and> so_state q = SO_QUARANTINED \<and>
     exists_where (\<lambda>l. cl_token l = token \<and> lease_of_object l q \<and>
       cl_sandbox_generation l = gj_sandbox_generation i \<and> now < cl_expires_at l) (cleanup_leases s)"

text \<open>The entry speaks of the object.\<close>

definition entry_for :: "cleanup_request \<Rightarrow> string \<Rightarrow> gc_journal_input \<Rightarrow> bool" where
  "entry_for c op i \<longleftrightarrow> gj_operation_id i = op \<and> gj_storage_object_id i = cr_storage_object_id c \<and> gj_original_path i = cr_path c \<and>
     gj_dev i = cr_dev c \<and> gj_ino i = cr_ino c \<and> gj_uid i = cr_uid c \<and> gj_sandbox_id i = cr_sandbox_id c \<and>
     gj_sandbox_generation i = cr_sandbox_generation c \<and> gj_kind i = cr_kind c"

lemma sees_finalize:
  assumes "gc_sees c op s SO_QUARANTINED (Some (token, expiry)) (Some j)" and "now < expiry" and "entry_for c op j"
    and "gj_phase j \<in> {JP_Prepared, JP_Deleted}"
  shows "\<exists>t. finalize_journal s (finalized_entry j) token now = Inr (t, True) \<and>
    gc_sees c op t SO_REMOVED None (Some (finalized_entry j))"
proof -
  from assms(1) obtain q where s: "resources_ok s" "cr_retention c = Ephemeral"
    "sandbox_generation_is s (cr_sandbox_id c) (cr_sandbox_generation c)" "\<not> referenced s (cr_storage_object_id c)"
    "q \<in> set (storage_objects s)" "same_object c q" "so_state q = SO_QUARANTINED" "lease_is c (Some (token, expiry)) s"
    "journal_row_of op s = Some j" by (rule gc_seesE)
  let ?i = "finalized_entry j"
  let ?P = "\<lambda>o'. journal_object s ?i o' \<and> so_state o' = SO_QUARANTINED \<and>
              exists_where (\<lambda>l. cl_token l = token \<and> lease_of_object l o' \<and>
                cl_sandbox_generation l = gj_sandbox_generation ?i \<and> now < cl_expires_at l) (cleanup_leases s)"
  from s(8) obtain l where l: "l \<in> set (cleanup_leases s)" "lease_for c (token, expiry) l" by (auto simp: lease_is_def)
  have "lease_of_object l q \<and> cl_token l = token \<and> cl_sandbox_generation l = gj_sandbox_generation j \<and> now < cl_expires_at l"
    using l(2) s(6) assms(2,3) by (simp add: lease_for_def lease_of_object_def same_object_def entry_for_def)
  then have P: "?P q" using l(1) s(3,4,6,7) assms(3)
    by (auto simp: journal_object_def same_object_def entry_for_def finalized_entry_def list_ex_iff)
  have "?P p \<longleftrightarrow> so_id p = so_id q" if "p \<in> set (storage_objects s)" for p
  proof
    assume "?P p"
    then show "so_id p = so_id q" using s(6) assms(3) by (simp add: journal_object_def same_object_def entry_for_def finalized_entry_def)
  next
    assume "so_id p = so_id q"
    then have "p = q" by (rule object_unique [OF s(1) that s(5)])
    with P show "?P p" by (simp only:)
  qed
  then have "filter ?P (storage_objects s) = filter (\<lambda>p. so_id p = so_id q) (storage_objects s)" by (intro filter_cong) simp_all
  also have "\<dots> = [q]" by (rule distinct_key_filter) (rule resources_okD [OF s(1)], rule s(5))
  finally have one: "count_where ?P (storage_objects s) = 1" by (simp add: count_where_def)
  from s(9) obtain r where r: "row_by journal_key op (journal s) = Some r" "gr_input r = j" by (auto simp: journal_row_of_def)
  let ?J = "\<lambda>r'. journal_key r' = op \<and> gj_phase (gr_input r') = gj_phase j"
  from row_by_SomeD [OF r(1)] have rs: "r \<in> set (journal s)" "journal_key r = op" by simp_all
  have J: "?J r' \<longleftrightarrow> journal_key r' = journal_key r" if "r' \<in> set (journal s)" for r'
  proof
    assume "journal_key r' = journal_key r"
    with that rs resources_okD(3) [OF s(1)] have "r' = r" by (auto simp: distinct_map inj_on_def)
    with r rs show "?J r'" by simp
  qed (use rs in simp)
  then have "filter ?J (journal s) = filter (\<lambda>r'. journal_key r' = journal_key r) (journal s)" by (intro filter_cong) simp_all
  also have "\<dots> = [r]" by (rule distinct_key_filter) (rule resources_okD [OF s(1)], rule rs)
  finally have oneJ: "count_where ?J (journal s) = 1" by (simp add: count_where_def)
  let ?f = "\<lambda>r. r\<lparr>gr_input := (gr_input r)\<lparr>gj_phase := JP_Finalized\<rparr>, gr_updated_at := now\<rparr>"
  have op: "gj_operation_id ?i = op" "gj_storage_object_id ?i = cr_storage_object_id c" "gj_phase ?i = JP_Finalized"
    using assms(3) by (simp_all add: entry_for_def finalized_entry_def)
  have matches: "journal_row_matches j ?i" by (simp add: journal_row_matches_def finalized_entry_def)
  define t where "t = (set_object_state ?P SO_REMOVED s)\<lparr>journal := upd_where ?J ?f (journal s),
      cleanup_leases := del_where (cleanup_lease_is (cr_storage_object_id c) token) (cleanup_leases s)\<rparr>"
  have res: "finalize_journal s ?i token now = Inr (t, True)"
    using matches assms(4) unfolding finalize_journal_def op r(1) option.case r(2) Let_def one t_def
    by (auto simp: oneJ)
  have rowf: "row_by journal_key op rows = Some x \<Longrightarrow> gj_phase (gr_input x) = gj_phase j \<Longrightarrow>
      row_by journal_key op (upd_where ?J ?f rows) = Some (?f x)" for rows x
    by (induction rows) (auto split: if_splits)
  have "gc_sees c op t SO_REMOVED None (Some ?i)"
  proof (rule gc_seesI)
    show "resources_ok t" by (rule finalize_journal_ok [OF res s(1)])
    show "q\<lparr>so_state := SO_REMOVED\<rparr> \<in> set (storage_objects t)" using s(5) P by (auto simp: t_def set_upd_where image_iff intro!: bexI [of _ q])
    show "lease_is c None t"
      using cleanup_lease_unique [OF s(1) _ l(1)] l(2) by (auto simp: lease_is_def t_def cleanup_lease_is_def lease_for_def)
    show "journal_row_of op t = Some ?i" using rowf [OF r(1)] r(2) by (simp add: journal_row_of_def t_def finalized_entry_def)
  qed (use s in \<open>auto simp: t_def set_object_state_def sandbox_generation_is_def referenced_def same_object_def\<close>)
  with res show ?thesis by blast
qed

text \<open>Without the lease an object in quarantine is not finalized.\<close>

lemma sees_finalize_refused:
  assumes "gc_sees c op s SO_QUARANTINED lease (Some j)" and "case lease of None \<Rightarrow> True | Some (_, expiry) \<Rightarrow> expiry \<le> now" and "entry_for c op j"
  shows "finalize_journal s (finalized_entry j) token now = Inr (s, False)"
proof -
  from assms(1) obtain q where s: "resources_ok s" "q \<in> set (storage_objects s)" "same_object c q" "so_state q = SO_QUARANTINED"
    "lease_is c lease s" "journal_row_of op s = Some j" by (rule gc_seesE)
  let ?i = "finalized_entry j"
  have same: "p = q" if "p \<in> set (storage_objects s)" "journal_object s ?i p" for p
    using that s(3) assms(3) by (intro object_unique [OF s(1) _ s(2)]) (simp_all add: journal_object_def same_object_def entry_for_def finalized_entry_def)
  have unleased: "\<not> (cl_token l = token \<and> lease_of_object l q \<and> cl_sandbox_generation l = gj_sandbox_generation ?i \<and> now < cl_expires_at l)"
    if "l \<in> set (cleanup_leases s)" for l
  proof
    assume l: "cl_token l = token \<and> lease_of_object l q \<and> cl_sandbox_generation l = gj_sandbox_generation ?i \<and> now < cl_expires_at l"
    then have "cl_storage_object_id l = cr_storage_object_id c" using s(3) by (simp add: lease_of_object_def same_object_def)
    with s(5) that obtain held m where m: "lease = Some held" "m \<in> set (cleanup_leases s)" "lease_for c held m"
      "cl_storage_object_id m = cl_storage_object_id l"
      by (auto simp: lease_is_def lease_for_def split: option.splits)
    from cleanup_lease_unique [OF s(1) m(2) that m(4)] m(1,3) assms(2) l show False by (auto simp: lease_for_def)
  qed
  have "count_where (\<lambda>o'. journal_object s ?i o' \<and> so_state o' = SO_QUARANTINED \<and>
              exists_where (\<lambda>l. cl_token l = token \<and> lease_of_object l o' \<and>
                cl_sandbox_generation l = gj_sandbox_generation ?i \<and> now < cl_expires_at l) (cleanup_leases s)) (storage_objects s) = 0"
    using same unleased unfolding count_where_0 by (auto simp: list_ex_iff)
  moreover have "\<not> exists_where (\<lambda>o'. journal_object s ?i o' \<and> so_state o' = SO_REMOVED) (storage_objects s)"
    using same s(4) by (auto simp: list_ex_iff)
  moreover obtain r where "row_by journal_key (gj_operation_id ?i) (journal s) = Some r"
    using s(6) assms(3) by (auto simp: journal_row_of_def entry_for_def finalized_entry_def)
  ultimately show ?thesis by (simp add: finalize_journal_def finalized_entry_def Let_def)
qed

lemma sees_release:
  assumes "gc_sees c op s st None row"
  shows "gc_sees c op (fst (release_cleanup_lease s (cr_storage_object_id c) token preserve)) st None row"
proof -
  from assms have none: "\<forall>l\<in>set (cleanup_leases s). cl_storage_object_id l \<noteq> cr_storage_object_id c"
    by (simp add: gc_sees_def lease_is_def)
  then have "find (cleanup_lease_is (cr_storage_object_id c) token) (cleanup_leases s) = None"
    by (auto simp: find_None_iff cleanup_lease_is_def)
  moreover have "del_where (cleanup_lease_is (cr_storage_object_id c) token) (cleanup_leases s) = cleanup_leases s"
    using none by (intro del_where_absent) (auto simp: cleanup_lease_is_def)
  ultimately have "fst (release_cleanup_lease s (cr_storage_object_id c) token preserve) = s"
    by (simp add: release_cleanup_lease_def Let_def)
  with assms show ?thesis by simp
qed

end
