(* ===== verification/Gc_Site.thy ===== *)
theory Gc_Site
  imports Gc_View
begin

text \<open>
  The places a collection of one file works on: the path of the object, the quarantine container beside it and the
  object's place inside; and how each call of the file system changes what is there.
\<close>

section \<open>Paths\<close>

lemma dropWhile_no_slash: "CHR ''/'' \<notin> set n \<Longrightarrow> dropWhile (\<lambda>c. c \<noteq> CHR ''/'') (n @ CHR ''/'' # d) = CHR ''/'' # d"
  by (induction n) auto

lemma takeWhile_no_slash: "CHR ''/'' \<notin> set n \<Longrightarrow> takeWhile (\<lambda>c. c \<noteq> CHR ''/'') (n @ CHR ''/'' # d) = n"
  by (induction n) auto

lemma dirname_join: "CHR ''/'' \<notin> set n \<Longrightarrow> d \<noteq> [] \<Longrightarrow> dirname (join_path d n) = d"
  by (auto simp: dirname_def join_path_def dropWhile_no_slash dropWhile_no_slash [of _ "[]"] Let_def)

lemma basename_join: "CHR ''/'' \<notin> set n \<Longrightarrow> basename (join_path d n) = n"
  by (auto simp: basename_def join_path_def takeWhile_no_slash takeWhile_no_slash [of _ "[]"])

lemma dirname_nonempty: "dirname path \<noteq> []"
  by (simp add: dirname_def Let_def)

section \<open>The site\<close>

record gc_case =
  gs_request :: cleanup_request
  gs_operation :: string
  gs_container :: string
  gs_user :: int
  gs_uuid :: "nat \<Rightarrow> string"

definition original_path :: "gc_case \<Rightarrow> string" where
  "original_path G = cr_path (gs_request G)"

definition object_path :: "gc_case \<Rightarrow> string" where
  "object_path G = join_path (gs_container G) ''object''"

definition inode_of :: "gc_case \<Rightarrow> nat" where
  "inode_of G = nat (cr_ino (gs_request G))"

definition site_ok :: "gc_case \<Rightarrow> bool" where
  "site_ok G \<longleftrightarrow> cr_kind (gs_request G) = Kind_File \<and> 0 \<le> cr_ino (gs_request G) \<and> cr_retention (gs_request G) = Ephemeral \<and>
     dirname (gs_container G) = dirname (original_path G) \<and> gs_container G \<noteq> [] \<and>
     gs_container G \<noteq> original_path G \<and> object_path G \<noteq> original_path G \<and> object_path G \<noteq> gs_container G \<and>
     gs_container G \<noteq> dirname (original_path G) \<and> object_path G \<noteq> dirname (original_path G) \<and>
     original_path G \<noteq> dirname (original_path G)"

lemma site_paths [simp]:
  "site_ok G \<Longrightarrow> dirname (object_path G) = gs_container G" "basename (object_path G) = ''object''"
  by (simp_all add: site_ok_def object_path_def dirname_join basename_join)

text \<open>A container made by the user for the user alone.\<close>

definition container_inode :: "gc_case \<Rightarrow> disk_inode \<Rightarrow> bool" where
  "container_inode G n \<longleftrightarrow> di_directory n \<and> di_uid n = gs_user G \<and> di_mode n = 16832"

definition links :: "bool \<Rightarrow> bool \<Rightarrow> int" where
  "links original quarantined = (if original then 1 else 0) + (if quarantined then 1 else 0)"

definition fs_at :: "gc_case \<Rightarrow> bool \<Rightarrow> bool \<Rightarrow> nat option \<Rightarrow> disk \<Rightarrow> bool" where
  "fs_at G original quarantined container d \<longleftrightarrow>
     map_of (dk_paths d) (original_path G) = (if original then Some (inode_of G) else None) \<and>
     map_of (dk_paths d) (object_path G) = (if quarantined then Some (inode_of G) else None) \<and>
     map_of (dk_paths d) (gs_container G) = container \<and>
     (\<forall>e\<in>set (dk_paths d). dirname (fst e) = gs_container G \<longrightarrow> fst e = object_path G) \<and>
     (\<forall>e\<in>set (dk_paths d). snd e < dk_next d) \<and> inode_of G < dk_next d \<and>
     is_directory d (dirname (original_path G)) \<and>
     \<not> di_directory (dk_inodes d (inode_of G)) \<and> di_uid (dk_inodes d (inode_of G)) = cr_uid (gs_request G) \<and>
     di_nlink (dk_inodes d (inode_of G)) = links original quarantined \<and>
     dk_device d = cr_dev (gs_request G) \<and> dk_user d = gs_user G \<and> dk_uuid d = gs_uuid G \<and>
     (case container of None \<Rightarrow> True | Some k \<Rightarrow> container_inode G (dk_inodes d k))"

text \<open>Calls of the file system leave the store, the clock and the source of identifiers alone.\<close>

definition same_store :: "disk \<Rightarrow> disk \<Rightarrow> bool" where
  "same_store t d \<longleftrightarrow> dk_db t = dk_db d \<and> dk_now t = dk_now d \<and> dk_drawn t = dk_drawn d"

lemma map_of_drop: "map_of (filter (\<lambda>e. fst e \<noteq> p) xs) q = (if q = p then None else map_of xs q)"
  by (induction xs) auto

lemma directory_keep:
  "is_directory d path \<Longrightarrow> map_of (dk_paths t) path = map_of (dk_paths d) path \<Longrightarrow>
   (\<And>i. map_of (dk_paths d) path = Some i \<Longrightarrow> di_directory (dk_inodes d i) \<Longrightarrow> di_directory (dk_inodes t i)) \<Longrightarrow> is_directory t path"
  by (auto simp: is_directory_def split: option.splits)

lemma container_not_object: "container_inode G (dk_inodes d k) \<Longrightarrow> \<not> di_directory (dk_inodes d i) \<Longrightarrow> k \<noteq> i"
  by (auto simp: container_inode_def)

lemmas disk_simps = add_path_def drop_path_def set_inode_def same_store_def links_def map_of_drop

section \<open>Calls that write\<close>

lemma fs_link:
  assumes "site_ok G" and at: "fs_at G True False (Some k) d"
  shows "\<exists>t. disk_link (original_path G) (object_path G) d = (t, Inr ()) \<and> fs_at G True True (Some k) t \<and> same_store t d"
proof -
  let ?n = "dk_inodes d (inode_of G)"
  let ?t = "add_path (object_path G) (inode_of G) (set_inode (inode_of G) (?n\<lparr>di_nlink := di_nlink ?n + 1\<rparr>) d)"
  have dir: "is_directory d (gs_container G)" using at by (simp add: fs_at_def is_directory_def container_inode_def)
  have ne: "k \<noteq> inode_of G" using at by (intro container_not_object [of G d]) (simp_all add: fs_at_def)
  have "disk_link (original_path G) (object_path G) d = (?t, Inr ())"
    using at dir site_paths(1) [OF assms(1)] by (simp add: disk_link_def fs_at_def)
  moreover have parent: "is_directory ?t (dirname (original_path G))"
    by (rule directory_keep [of d]) (use at assms(1) in \<open>auto simp: fs_at_def site_ok_def disk_simps\<close>)
  have "fs_at G True True (Some k) ?t"
    unfolding fs_at_def
    by (intro conjI parent) (use at assms(1) ne in \<open>auto simp: fs_at_def site_ok_def disk_simps\<close>)
  ultimately show ?thesis by (auto simp: disk_simps)
qed

lemma fs_unlink_original:
  assumes "site_ok G" and at: "fs_at G True True (Some k) d"
  shows "\<exists>t. disk_unlink (original_path G) d = (t, Inr ()) \<and> fs_at G False True (Some k) t \<and> same_store t d"
proof -
  let ?n = "dk_inodes d (inode_of G)"
  let ?t = "drop_path (original_path G) (set_inode (inode_of G) (?n\<lparr>di_nlink := di_nlink ?n - 1\<rparr>) d)"
  have ne: "k \<noteq> inode_of G" using at by (intro container_not_object [of G d]) (simp_all add: fs_at_def)
  have "disk_unlink (original_path G) d = (?t, Inr ())" using at by (simp add: disk_unlink_def fs_at_def)
  moreover have parent: "is_directory ?t (dirname (original_path G))"
    by (rule directory_keep [of d]) (use at assms(1) in \<open>auto simp: fs_at_def site_ok_def disk_simps\<close>)
  have "fs_at G False True (Some k) ?t"
    unfolding fs_at_def
    by (intro conjI parent) (use at assms(1) ne in \<open>auto simp: fs_at_def site_ok_def disk_simps\<close>)
  ultimately show ?thesis by (auto simp: disk_simps)
qed

lemma fs_unlink_object:
  assumes "site_ok G" and at: "fs_at G False True (Some k) d"
  shows "\<exists>t. disk_unlink (object_path G) d = (t, Inr ()) \<and> fs_at G False False (Some k) t \<and> same_store t d"
proof -
  let ?n = "dk_inodes d (inode_of G)"
  let ?t = "drop_path (object_path G) (set_inode (inode_of G) (?n\<lparr>di_nlink := di_nlink ?n - 1\<rparr>) d)"
  have ne: "k \<noteq> inode_of G" using at by (intro container_not_object [of G d]) (simp_all add: fs_at_def)
  have "disk_unlink (object_path G) d = (?t, Inr ())" using at by (simp add: disk_unlink_def fs_at_def)
  moreover have parent: "is_directory ?t (dirname (original_path G))"
    by (rule directory_keep [of d]) (use at assms(1) in \<open>auto simp: fs_at_def site_ok_def disk_simps\<close>)
  have "fs_at G False False (Some k) ?t"
    unfolding fs_at_def
    by (intro conjI parent) (use at assms(1) ne in \<open>auto simp: fs_at_def site_ok_def disk_simps\<close>)
  ultimately show ?thesis by (auto simp: disk_simps)
qed

lemma fs_mkdir:
  assumes "site_ok G" and at: "fs_at G original False None d"
  shows "\<exists>t k. disk_mkdir (gs_container G) 448 d = (t, Inr ()) \<and> fs_at G original False (Some k) t \<and> same_store t d"
proof -
  let ?k = "dk_next d"
  let ?t = "add_path (gs_container G) ?k (set_inode ?k
         \<lparr> di_directory = True, di_uid = dk_user d, di_mode = directory_type + 448, di_nlink = 2 \<rparr> (d\<lparr>dk_next := Suc ?k\<rparr>))"
  have dir: "dirname (gs_container G) = dirname (original_path G)" using assms(1) by (simp add: site_ok_def)
  have made: "disk_mkdir (gs_container G) 448 d = (?t, Inr ())" using at by (simp add: disk_mkdir_def fs_at_def dir)
  have parent: "is_directory ?t (dirname (original_path G))"
    by (rule directory_keep [of d]) (use at assms(1) in \<open>auto simp: fs_at_def site_ok_def disk_simps\<close>)
  have "fs_at G original False (Some ?k) ?t"
    unfolding fs_at_def
    by (intro conjI parent)
      (use at assms(1) in \<open>auto simp: fs_at_def site_ok_def disk_simps container_inode_def directory_type_def less_Suc_eq\<close>)
  with made show ?thesis by (auto simp: disk_simps)
qed

lemma children_at: "fs_at G original quarantined container d \<Longrightarrow> list_all (\<lambda>name. name = ''object'') (children d (gs_container G))"
  by (auto simp: children_def list_all_iff fs_at_def)

lemma no_children_at:
  assumes "fs_at G original False container d"
  shows "children d (gs_container G) = []"
proof -
  have "object_path G \<notin> fst ` set (dk_paths d)" using assms by (simp add: fs_at_def map_of_eq_None_iff)
  with assms show ?thesis by (force simp: children_def filter_empty_conv fs_at_def)
qed

lemma fs_rmdir:
  assumes "site_ok G" and at: "fs_at G original False (Some k) d"
  shows "\<exists>t. disk_rmdir (gs_container G) d = (t, Inr ()) \<and> fs_at G original False None t \<and> same_store t d"
proof -
  let ?t = "drop_path (gs_container G) d"
  have dir: "is_directory d (gs_container G)" using at by (simp add: fs_at_def is_directory_def container_inode_def)
  have "disk_rmdir (gs_container G) d = (?t, Inr ())"
    using at no_children_at [OF at] dir by (simp add: disk_rmdir_def fs_at_def)
  moreover have parent: "is_directory ?t (dirname (original_path G))"
    by (rule directory_keep [of d]) (use at assms(1) in \<open>auto simp: fs_at_def site_ok_def disk_simps\<close>)
  have "fs_at G original False None ?t"
    unfolding fs_at_def
    by (intro conjI parent) (use at assms(1) in \<open>auto simp: fs_at_def site_ok_def disk_simps\<close>)
  ultimately show ?thesis by (auto simp: disk_simps)
qed

lemma fs_chmod:
  assumes "site_ok G" and at: "fs_at G original True (Some k) d"
  shows "\<exists>t. disk_chmod (object_path G) mode d = (t, Inr ()) \<and> fs_at G original True (Some k) t \<and> same_store t d"
proof -
  let ?n = "dk_inodes d (inode_of G)"
  let ?t = "set_inode (inode_of G) (?n\<lparr>di_mode := (if di_directory ?n then directory_type else file_type) + mode\<rparr>) d"
  have ne: "k \<noteq> inode_of G" using at by (intro container_not_object [of G d]) (simp_all add: fs_at_def)
  have "disk_chmod (object_path G) mode d = (?t, Inr ())" using at by (simp add: disk_chmod_def fs_at_def)
  moreover have parent: "is_directory ?t (dirname (original_path G))"
    by (rule directory_keep [of d]) (use at assms(1) in \<open>auto simp: fs_at_def site_ok_def disk_simps\<close>)
  have "fs_at G original True (Some k) ?t"
    unfolding fs_at_def
    by (intro conjI parent) (use at assms(1) ne in \<open>auto simp: fs_at_def site_ok_def disk_simps\<close>)
  ultimately show ?thesis by (auto simp: disk_simps)
qed

section \<open>Calls that read\<close>

definition object_stat :: "gc_case \<Rightarrow> int \<Rightarrow> node_stat \<Rightarrow> bool" where
  "object_stat G n st \<longleftrightarrow> nt_file st \<and> \<not> nt_directory st \<and> \<not> nt_symlink st \<and> nt_dev st = cr_dev (gs_request G) \<and>
     nt_ino st = cr_ino (gs_request G) \<and> nt_uid st = cr_uid (gs_request G) \<and> nt_nlink st = n"

definition container_stat :: "gc_case \<Rightarrow> nat \<Rightarrow> node_stat \<Rightarrow> bool" where
  "container_stat G k st \<longleftrightarrow> nt_directory st \<and> \<not> nt_file st \<and> \<not> nt_symlink st \<and> nt_dev st = cr_dev (gs_request G) \<and>
     nt_ino st = int k \<and> nt_uid st = gs_user G \<and> nt_mode st = 16832"

lemma fs_lstat_original:
  assumes "site_ok G" and "fs_at G original quarantined container d"
  shows "original \<Longrightarrow> \<exists>st. disk_lstat (original_path G) d = (d, Inr st) \<and> object_stat G (links original quarantined) st"
    and "\<not> original \<Longrightarrow> disk_lstat (original_path G) d = (d, Inl (file_error ''ENOENT''))"
  using assms by (auto simp: fs_at_def disk_lstat_def stat_of_def object_stat_def inode_of_def site_ok_def Let_def)

lemma fs_lstat_object:
  assumes "site_ok G" and "fs_at G original quarantined container d"
  shows "quarantined \<Longrightarrow> \<exists>st. disk_lstat (object_path G) d = (d, Inr st) \<and> object_stat G (links original quarantined) st"
    and "\<not> quarantined \<Longrightarrow> disk_lstat (object_path G) d = (d, Inl (file_error ''ENOENT''))"
  using assms by (auto simp: fs_at_def disk_lstat_def stat_of_def object_stat_def inode_of_def site_ok_def Let_def)

lemma fs_lstat_container:
  assumes "site_ok G" and "fs_at G original quarantined container d"
  shows "container = Some k \<Longrightarrow> \<exists>st. disk_lstat (gs_container G) d = (d, Inr st) \<and> container_stat G k st"
    and "container = None \<Longrightarrow> disk_lstat (gs_container G) d = (d, Inl (file_error ''ENOENT''))"
  using assms by (auto simp: fs_at_def disk_lstat_def stat_of_def container_stat_def container_inode_def Let_def)

lemma fs_readdir:
  assumes "fs_at G original quarantined (Some k) d"
  shows "disk_readdir (gs_container G) d = (d, Inr (children d (gs_container G)))"
  using assms by (simp add: disk_readdir_def fs_at_def is_directory_def container_inode_def)

end
