(* ===== verification/Gc_Runs.thy ===== *)
theory Gc_Runs
  imports Gc_Site
begin

text \<open>
  A small calculus of runs that succeed, and each call of the surroundings as one rule of it, over the stages a
  collection goes through.
\<close>

section \<open>Runs\<close>

definition runs :: "('w \<Rightarrow> bool) \<Rightarrow> ('w, 'a) action \<Rightarrow> ('a \<Rightarrow> 'w \<Rightarrow> bool) \<Rightarrow> bool" where
  "runs P m Q \<longleftrightarrow> (\<forall>w. P w \<longrightarrow> (\<exists>t a. m w = (t, Inr a) \<and> Q a t))"

lemma runsI: "(\<And>w. P w \<Longrightarrow> \<exists>t a. m w = (t, Inr a) \<and> Q a t) \<Longrightarrow> runs P m Q"
  by (simp add: runs_def)

lemma runsD: "runs P m Q \<Longrightarrow> P w \<Longrightarrow> \<exists>t a. m w = (t, Inr a) \<and> Q a t"
  by (simp add: runs_def)

lemma runs_post: "runs P m Q \<Longrightarrow> (\<And>a w. Q a w \<Longrightarrow> R a w) \<Longrightarrow> runs P m R"
  unfolding runs_def by blast

lemma runs_pre: "runs P m Q \<Longrightarrow> (\<And>w. R w \<Longrightarrow> P w) \<Longrightarrow> runs R m Q"
  unfolding runs_def by blast

lemma runs_ex: "(\<And>k. runs (P k) m Q) \<Longrightarrow> runs (\<lambda>w. \<exists>k. P k w) m Q"
  unfolding runs_def by blast

lemma runs_bind:
  assumes "runs P m (\<lambda>a w. R a \<and> S w)" and "\<And>a. R a \<Longrightarrow> runs S (k a) Q"
  shows "runs P (followed_by m k) Q"
proof (rule runsI)
  fix w assume "P w"
  with assms(1) obtain t a where m: "m w = (t, Inr a)" "R a" "S t" unfolding runs_def by blast
  with assms(2) obtain t' b where "k a t = (t', Inr b)" "Q b t'" unfolding runs_def by blast
  with m(1) show "\<exists>t a. followed_by m k w = (t, Inr a) \<and> Q a t" by (simp add: followed_by_def)
qed

lemma followed_by_succeed [simp]: "followed_by (succeed a) k = k a"
  by (rule ext) (simp add: followed_by_def succeed_def)

lemma followed_by_assoc: "followed_by (followed_by m k) l = followed_by m (\<lambda>a. followed_by (k a) l)"
  by (rule ext) (simp add: followed_by_def split: prod.split sum.split)

lemma outside_succeed [simp]: "outside (succeed a) = succeed a"
  by (rule ext) (simp add: outside_def succeed_def)

lemma outside_followed_by: "outside (followed_by m k) = followed_by (outside m) (\<lambda>a. outside (k a))"
  by (rule ext) (simp add: outside_def followed_by_def split: prod.split sum.split)

lemma require_True [simp]: "require True e = succeed ()"
  by (simp add: require_def)

lemma runs_succeed: "runs P (succeed a) (\<lambda>b w. b = a \<and> P w)"
  by (simp add: runs_def succeed_def)

lemma runs_done [simp]: "runs P (succeed a) (\<lambda>_. P)"
  by (simp add: runs_def succeed_def)

text \<open>The local variables beside the surroundings.\<close>

definition beside :: "'x \<Rightarrow> ('w \<Rightarrow> bool) \<Rightarrow> 'x \<times> 'w \<Rightarrow> bool" where
  "beside x P s \<longleftrightarrow> fst s = x \<and> P (snd s)"

lemma runs_outside: "runs P m (\<lambda>a w. R a \<and> S w) \<Longrightarrow> runs (beside x P) (outside m) (\<lambda>a s. R a \<and> beside x S s)"
  by (fastforce simp: runs_def beside_def outside_def)

lemma beside_ex: "beside x (\<lambda>w. \<exists>k. P k w) s \<longleftrightarrow> (\<exists>k. beside x (P k) s)"
  by (simp add: beside_def)

lemma runs_assign: "runs (beside x P) (assign f) (\<lambda>a s. True \<and> beside (f x) P s)"
  by (simp add: runs_def beside_def assign_def)

lemma runs_with_entry: "runs (beside x P) (k x) Q \<Longrightarrow> runs (beside x P) (with_entry k) Q"
  by (auto simp: runs_def beside_def with_entry_def)

section \<open>Stages\<close>

text \<open>
  What is on the disk, the state of the object's record, and the row of the operation: its phase and the inode of the
  container it names.
\<close>

record stage =
  sg_original :: bool
  sg_quarantined :: bool
  sg_container :: "nat option"
  sg_state :: storage_state
  sg_row :: "(journal_phase \<times> nat option) option"

definition container_of :: "gc_case \<Rightarrow> nat \<Rightarrow> quarantine_container" where
  "container_of G k = \<lparr> qc_path = gs_container G, qc_dev = cr_dev (gs_request G), qc_ino = int k, qc_uid = gs_user G, qc_mode = 16832 \<rparr>"

definition entry_of_stage :: "gc_case \<Rightarrow> journal_phase \<times> nat option \<Rightarrow> gc_journal_input" where
  "entry_of_stage G row = journal_entry (gs_operation G) (gs_request G) (fst row) (Some (object_path G)) (map_option (container_of G) (snd row))"

text \<open>The stages at which a collection may be interrupted.\<close>

definition moving :: "journal_phase \<Rightarrow> bool \<Rightarrow> bool \<Rightarrow> bool" where
  "moving phase original quarantined \<longleftrightarrow>
    (case phase of JP_Prepared \<Rightarrow> original | JP_Linked \<Rightarrow> original \<and> quarantined | JP_Unlinking \<Rightarrow> quarantined
     | JP_Quarantined \<Rightarrow> \<not> original \<and> quarantined | JP_Deleting \<Rightarrow> \<not> original | JP_Deleted \<Rightarrow> \<not> original \<and> \<not> quarantined
     | JP_Finalized \<Rightarrow> False)"

definition resumable :: "stage \<Rightarrow> bool" where
  "resumable x \<longleftrightarrow>
    (case sg_row x of
       None \<Rightarrow> sg_original x \<and> \<not> sg_quarantined x \<and> sg_container x = None
     | Some (phase, recorded) \<Rightarrow>
       if phase = JP_Finalized
       then sg_state x = SO_REMOVED \<and> \<not> sg_original x \<and> \<not> sg_quarantined x \<and> recorded \<noteq> None
         \<and> (sg_container x = None \<or> sg_container x = recorded)
       else sg_state x = SO_QUARANTINED \<and> moving phase (sg_original x) (sg_quarantined x)
         \<and> (recorded \<noteq> None \<and> sg_container x = recorded \<or> recorded = None \<and> phase = JP_Prepared \<and> \<not> sg_quarantined x))"

definition disk_at :: "gc_case \<Rightarrow> stage \<Rightarrow> (string \<times> time) option \<Rightarrow> disk \<Rightarrow> bool" where
  "disk_at G x lease d \<longleftrightarrow> fs_at G (sg_original x) (sg_quarantined x) (sg_container x) d \<and>
     gc_sees (gs_request G) (gs_operation G) (dk_db d) (sg_state x) lease (map_option (entry_of_stage G) (sg_row x))"

text \<open>What a crash may leave: a stage that can be resumed.\<close>

definition crash_ok :: "gc_case \<Rightarrow> disk \<Rightarrow> bool" where
  "crash_ok G d \<longleftrightarrow> (\<exists>x lease. resumable x \<and> disk_at G x lease d)"

text \<open>
  A run in progress, from the store \<open>s0\<close> on: the lease is held by its token, is gone, or is a stale one; so many
  identifiers have been drawn; whatever was durable can be resumed; and the store is as it was durable last.
\<close>

datatype tenure = Held string | Gone_Lease | Stale_Lease

fun tenure_ok :: "time \<Rightarrow> tenure \<Rightarrow> (string \<times> time) option \<Rightarrow> bool" where
  "tenure_ok now (Held token) lease = (case lease of None \<Rightarrow> False | Some (t, expiry) \<Rightarrow> t = token \<and> now < expiry)"
| "tenure_ok now Gone_Lease lease = (lease = None)"
| "tenure_ok now Stale_Lease lease = (case lease of None \<Rightarrow> True | Some (t, expiry) \<Rightarrow> expiry \<le> now)"

definition collecting :: "gc_case \<Rightarrow> db \<Rightarrow> time \<Rightarrow> tenure \<Rightarrow> nat \<Rightarrow> stage \<Rightarrow> logged_disk \<Rightarrow> bool" where
  "collecting G s0 now h n x w \<longleftrightarrow> dk_now (fst w) = now \<and> dk_drawn (fst w) = n \<and>
     (\<exists>lease. tenure_ok now h lease \<and> disk_at G x lease (fst w)) \<and> (\<forall>d\<in>set (snd w). crash_ok G d) \<and>
     dk_db (fst w) = last (s0 # map dk_db (snd w))"

abbreviation stage_of :: "bool \<Rightarrow> bool \<Rightarrow> nat option \<Rightarrow> storage_state \<Rightarrow> (journal_phase \<times> nat option) option \<Rightarrow> stage" where
  "stage_of original quarantined container st row \<equiv> \<lparr> sg_original = original, sg_quarantined = quarantined,
     sg_container = container, sg_state = st, sg_row = row \<rparr>"

lemma collecting_crash_ok: "collecting G s0 now h n x w \<Longrightarrow> d \<in> set (snd w) \<Longrightarrow> crash_ok G d"
  by (simp add: collecting_def)

section \<open>Rules for the file system\<close>

lemma runs_read:
  assumes "\<And>d lease. disk_at G x lease d \<Longrightarrow> \<exists>a. m d = (d, Inr a) \<and> R a"
  shows "runs (collecting G s0 now h n x) (reads m) (\<lambda>a w. R a \<and> collecting G s0 now h n x w)"
proof (rule runsI)
  fix w assume w: "collecting G s0 now h n x w"
  then obtain lease where "disk_at G x lease (fst w)" by (auto simp: collecting_def)
  with assms obtain a where "m (fst w) = (fst w, Inr a)" "R a" by blast
  with w show "\<exists>t a. reads m w = (t, Inr a) \<and> R a \<and> collecting G s0 now h n x t" by (simp add: reads_def)
qed

text \<open>A write that leads from one disk of the case to another.\<close>

lemma runs_write:
  assumes "\<And>d lease. disk_at G x lease d \<Longrightarrow> tenure_ok now h lease \<Longrightarrow> dk_now d = now \<Longrightarrow>
      \<exists>t a lease'. m d = (t, Inr a) \<and> R a \<and> disk_at G y lease' t \<and> tenure_ok now h' lease' \<and> dk_now t = now \<and> dk_drawn t = dk_drawn d"
    and "resumable y"
  shows "runs (collecting G s0 now h n x) (writes m) (\<lambda>a w. R a \<and> collecting G s0 now h' n y w)"
proof (rule runsI)
  fix w assume w: "collecting G s0 now h n x w"
  then obtain lease where "disk_at G x lease (fst w)" "tenure_ok now h lease" "dk_now (fst w) = now" by (auto simp: collecting_def)
  with assms(1) obtain t a lease' where t: "m (fst w) = (t, Inr a)" "R a" "disk_at G y lease' t" "tenure_ok now h' lease'"
    "dk_now t = now" "dk_drawn t = dk_drawn (fst w)" by blast
  with assms(2) have "crash_ok G t" unfolding crash_ok_def by blast
  with t w have "collecting G s0 now h' n y (t, snd w @ [t])" by (auto simp: collecting_def)
  with t(1,2) show "\<exists>t a. writes m w = (t, Inr a) \<and> R a \<and> collecting G s0 now h' n y t" by (simp add: writes_def)
qed

lemma runs_fs_write:
  assumes "\<And>d. fs_at G (sg_original x) (sg_quarantined x) (sg_container x) d \<Longrightarrow>
      \<exists>t. m d = (t, Inr ()) \<and> fs_at G (sg_original y) (sg_quarantined y) (sg_container y) t \<and> same_store t d"
    and "sg_state y = sg_state x" and "sg_row y = sg_row x" and "resumable y"
  shows "runs (collecting G s0 now h n x) (writes m) (\<lambda>_ w. True \<and> collecting G s0 now h n y w)"
proof (rule runs_write [OF _ assms(4)])
  fix d lease assume d: "disk_at G x lease d" "tenure_ok now h lease" "dk_now d = now"
  then obtain t where "m d = (t, Inr ())" "fs_at G (sg_original y) (sg_quarantined y) (sg_container y) t" "same_store t d"
    using assms(1) [of d] by (auto simp: disk_at_def)
  with d assms(2,3) show "\<exists>t a lease'. m d = (t, Inr a) \<and> True \<and> disk_at G y lease' t \<and> tenure_ok now h lease' \<and>
      dk_now t = now \<and> dk_drawn t = dk_drawn d" by (auto simp: disk_at_def same_store_def)
qed

lemma disk_world_simps [simp]:
  "gd_lstat disk_world path = reads (disk_lstat path)" "gd_link disk_world path new_path = writes (disk_link path new_path)"
  "gd_unlink disk_world path = writes (disk_unlink path)" "gd_mkdir disk_world path mode = writes (disk_mkdir path mode)"
  "gd_rmdir disk_world path = writes (disk_rmdir path)" "gd_readdir disk_world path = reads (disk_readdir path)"
  "gd_chmod disk_world path mode = writes (disk_chmod path mode)" "gd_uuid disk_world = reads disk_uuid"
  "gd_authorize disk_world path intent = succeed ()" "gd_authorize_parent disk_world path intent = succeed ()"
  "gd_revalidate disk_world a = succeed ()" "gd_revalidate_parent disk_world a = succeed ()"
  "gd_hook disk_world hook = succeed ()" "gd_close disk_world pin w = w"
  "gd_pin disk_world path = reads (\<lambda>d. (d, Inr (map_of (dk_paths d) path)))"
  "gd_holds disk_world pin st = reads (\<lambda>d. (d, Inr (nt_ino st = int pin \<and> di_nlink (dk_inodes d pin) \<noteq> 0)))"
  "gd_owned_by_user disk_world st path = reads (\<lambda>d. (d, Inr (nt_uid st = dk_user d)))"
  "gd_owner_only disk_world st path bits = succeed (Bit_Operations.and (nt_mode st) bits = 0)"
  "gd_not_shared disk_world st = (nt_nlink st = 1)"
  by (simp_all add: disk_world_def)

lemma runs_uuid: "runs (collecting G s0 now h n x) (reads disk_uuid) (\<lambda>a w. a = gs_uuid G n \<and> collecting G s0 now h (Suc n) x w)"
proof (rule runsI)
  fix w assume w: "collecting G s0 now h n x w"
  let ?d = "(fst w)\<lparr>dk_drawn := Suc n\<rparr>"
  have "is_directory ?d path = is_directory (fst w) path" for path by (simp add: is_directory_def split: option.split)
  then have "fs_at G o' q k ?d \<longleftrightarrow> fs_at G o' q k (fst w)" for o' q k by (cases k) (simp_all add: fs_at_def)
  moreover from w obtain lease where "tenure_ok now h lease" "disk_at G x lease (fst w)" by (auto simp: collecting_def)
  ultimately have "tenure_ok now h lease \<and> disk_at G x lease ?d" by (simp add: disk_at_def)
  with w have "collecting G s0 now h (Suc n) x (?d, snd w)" unfolding collecting_def by auto
  moreover have "reads disk_uuid w = ((?d, snd w), Inr (gs_uuid G n))"
    using w by (auto simp: reads_def disk_uuid_def collecting_def disk_at_def fs_at_def)
  ultimately show "\<exists>t a. reads disk_uuid w = (t, Inr a) \<and> a = gs_uuid G n \<and> collecting G s0 now h (Suc n) x t" by blast
qed

lemma runs_lstat_original:
  assumes "site_ok G"
  shows "runs (collecting G s0 now h n (stage_of True q k st row)) (reads (disk_lstat (original_path G)))
    (\<lambda>a w. object_stat G (links True q) a \<and> collecting G s0 now h n (stage_of True q k st row) w)"
  by (rule runs_read) (use fs_lstat_original(1) [OF assms] in \<open>fastforce simp: disk_at_def\<close>)

lemma runs_lstat_object:
  assumes "site_ok G"
  shows "runs (collecting G s0 now h n (stage_of o' True k st row)) (reads (disk_lstat (object_path G)))
    (\<lambda>a w. object_stat G (links o' True) a \<and> collecting G s0 now h n (stage_of o' True k st row) w)"
  by (rule runs_read) (use fs_lstat_object(1) [OF assms] in \<open>fastforce simp: disk_at_def\<close>)

lemma runs_lstat_container:
  assumes "site_ok G"
  shows "runs (collecting G s0 now h n (stage_of o' q (Some k) st row)) (reads (disk_lstat (gs_container G)))
    (\<lambda>a w. container_stat G k a \<and> collecting G s0 now h n (stage_of o' q (Some k) st row) w)"
  by (rule runs_read) (use fs_lstat_container(1) [OF assms] in \<open>fastforce simp: disk_at_def\<close>)

text \<open>What may be absent.\<close>

lemma lstat_if_exists_world: "lstat_if_exists disk_world path = reads (\<lambda>d. case disk_lstat path d of
    (t, Inr st) \<Rightarrow> (t, Inr (Some st)) | (t, Inl e) \<Rightarrow> if error_code e = Some ''ENOENT'' then (t, Inr None) else (t, Inl e))"
  by (rule ext) (simp add: lstat_if_exists_def reads_def split: prod.split sum.split)

lemma error_code_file [simp]: "error_code (file_error code) = Some code"
  by (simp add: file_error_def)

lemma runs_find_original:
  assumes "site_ok G"
  shows "runs (collecting G s0 now h n (stage_of o' q k st row)) (lstat_if_exists disk_world (original_path G))
    (\<lambda>a w. (if o' then \<exists>s. a = Some s \<and> object_stat G (links True q) s else a = None) \<and> collecting G s0 now h n (stage_of o' q k st row) w)"
  unfolding lstat_if_exists_world
  by (rule runs_read) (use fs_lstat_original [OF assms] in \<open>fastforce simp: disk_at_def\<close>)

lemma runs_find_object:
  assumes "site_ok G"
  shows "runs (collecting G s0 now h n (stage_of o' q k st row)) (lstat_if_exists disk_world (object_path G))
    (\<lambda>a w. (if q then \<exists>s. a = Some s \<and> object_stat G (links o' True) s else a = None) \<and> collecting G s0 now h n (stage_of o' q k st row) w)"
  unfolding lstat_if_exists_world
  by (rule runs_read) (use fs_lstat_object [OF assms] in \<open>fastforce simp: disk_at_def\<close>)

lemma runs_find_container:
  assumes "site_ok G"
  shows "runs (collecting G s0 now h n (stage_of o' q k st row)) (lstat_if_exists disk_world (gs_container G))
    (\<lambda>a w. (case k of None \<Rightarrow> a = None | Some i \<Rightarrow> \<exists>s. a = Some s \<and> container_stat G i s) \<and>
      collecting G s0 now h n (stage_of o' q k st row) w)"
proof (cases k)
  case None
  show ?thesis unfolding lstat_if_exists_world None option.case
    by (intro runs_read) (use fs_lstat_container(2) [OF assms] in \<open>fastforce simp: disk_at_def\<close>)
next
  case (Some i)
  show ?thesis unfolding lstat_if_exists_world Some option.case
    by (intro runs_read) (use fs_lstat_container(1) [OF assms] in \<open>fastforce simp: disk_at_def\<close>)
qed

lemma runs_readdir:
  shows "runs (collecting G s0 now h n (stage_of o' q (Some k) st row)) (reads (disk_readdir (gs_container G)))
    (\<lambda>a w. (list_all (\<lambda>name. name = ''object'') a \<and> (\<not> q \<longrightarrow> a = [])) \<and> collecting G s0 now h n (stage_of o' q (Some k) st row) w)"
proof (rule runs_read)
  fix d lease assume "disk_at G (stage_of o' q (Some k) st row) lease d"
  then have at: "fs_at G o' q (Some k) d" by (simp add: disk_at_def)
  have "\<not> q \<Longrightarrow> children d (gs_container G) = []" using at no_children_at by (cases q) auto
  with fs_readdir [OF at] children_at [OF at]
  show "\<exists>a. disk_readdir (gs_container G) d = (d, Inr a) \<and> list_all (\<lambda>name. name = ''object'') a \<and> (\<not> q \<longrightarrow> a = [])" by blast
qed

lemma runs_link:
  assumes "site_ok G" and "resumable (stage_of True True (Some k) st row)"
  shows "runs (collecting G s0 now h n (stage_of True False (Some k) st row)) (writes (disk_link (original_path G) (object_path G)))
    (\<lambda>_ w. True \<and> collecting G s0 now h n (stage_of True True (Some k) st row) w)"
  by (rule runs_fs_write) (use assms fs_link [OF assms(1)] in simp_all)

lemma runs_unlink_original:
  assumes "site_ok G" and "resumable (stage_of False True (Some k) st row)"
  shows "runs (collecting G s0 now h n (stage_of True True (Some k) st row)) (writes (disk_unlink (original_path G)))
    (\<lambda>_ w. True \<and> collecting G s0 now h n (stage_of False True (Some k) st row) w)"
  by (rule runs_fs_write) (use assms fs_unlink_original [OF assms(1)] in simp_all)

lemma runs_unlink_object:
  assumes "site_ok G" and "resumable (stage_of False False (Some k) st row)"
  shows "runs (collecting G s0 now h n (stage_of False True (Some k) st row)) (writes (disk_unlink (object_path G)))
    (\<lambda>_ w. True \<and> collecting G s0 now h n (stage_of False False (Some k) st row) w)"
  by (rule runs_fs_write) (use assms fs_unlink_object [OF assms(1)] in simp_all)

lemma runs_rmdir:
  assumes "site_ok G" and "resumable (stage_of o' False None st row)"
  shows "runs (collecting G s0 now h n (stage_of o' False (Some k) st row)) (writes (disk_rmdir (gs_container G)))
    (\<lambda>_ w. True \<and> collecting G s0 now h n (stage_of o' False None st row) w)"
  by (rule runs_fs_write) (use assms fs_rmdir [OF assms(1)] in simp_all)

lemma runs_chmod:
  assumes "site_ok G" and "resumable (stage_of o' True (Some k) st row)"
  shows "runs (collecting G s0 now h n (stage_of o' True (Some k) st row)) (writes (disk_chmod (object_path G) mode))
    (\<lambda>_ w. True \<and> collecting G s0 now h n (stage_of o' True (Some k) st row) w)"
  by (rule runs_fs_write) (use assms fs_chmod [OF assms(1)] in simp_all)

lemma runs_mkdir:
  assumes "site_ok G" and "\<And>k. resumable (stage_of o' False (Some k) st row)"
  shows "runs (collecting G s0 now h n (stage_of o' False None st row)) (writes (disk_mkdir (gs_container G) 448))
    (\<lambda>_ w. True \<and> (\<exists>k. collecting G s0 now h n (stage_of o' False (Some k) st row) w))"
proof (rule runsI)
  fix w assume w: "collecting G s0 now h n (stage_of o' False None st row) w"
  then have "fs_at G o' False None (fst w)" by (auto simp: collecting_def disk_at_def)
  from fs_mkdir [OF assms(1) this] obtain t k where t: "disk_mkdir (gs_container G) 448 (fst w) = (t, Inr ())"
    "fs_at G o' False (Some k) t" "same_store t (fst w)" by blast
  from w obtain lease where lease: "tenure_ok now h lease" "disk_at G (stage_of o' False None st row) lease (fst w)" by (auto simp: collecting_def)
  with t have at: "disk_at G (stage_of o' False (Some k) st row) lease t" by (simp add: disk_at_def same_store_def)
  with assms(2) have "crash_ok G t" unfolding crash_ok_def by blast
  with w t(3) at lease(1) have "collecting G s0 now h n (stage_of o' False (Some k) st row) (t, snd w @ [t])"
    by (auto simp: collecting_def same_store_def)
  with t(1) show "\<exists>t a. writes (disk_mkdir (gs_container G) 448) w = (t, Inr a) \<and> True \<and>
      (\<exists>k. collecting G s0 now h n (stage_of o' False (Some k) st row) t)" by (auto simp: writes_def)
qed

end
