(* ===== verification/Gc_Steps.thy ===== *)
theory Gc_Steps
  imports Gc_Runs
begin

text \<open>
  The calls of the store as rules of the calculus, and the checks and short sequences that applying a plan and
  recovering from a crash share.
\<close>

section \<open>The object\<close>

definition req :: "gc_case \<Rightarrow> storage_state \<Rightarrow> cleanup_request" where
  "req G st = (gs_request G)\<lparr>cr_state := st\<rparr>"

lemma req_simps [simp]:
  "cr_path (req G st) = original_path G" "cr_storage_object_id (req G st) = cr_storage_object_id (gs_request G)"
  "cr_dev (req G st) = cr_dev (gs_request G)" "cr_ino (req G st) = cr_ino (gs_request G)" "cr_uid (req G st) = cr_uid (gs_request G)"
  "cr_kind (req G st) = cr_kind (gs_request G)"
  by (simp_all add: req_def original_path_def)

lemma journal_entry_req [simp]:
  "journal_entry (gs_operation G) (req G st) phase (Some (object_path G)) (Some (container_of G k)) = entry_of_stage G (phase, Some k)"
  "journal_entry (gs_operation G) (req G st) phase (Some (object_path G)) None = entry_of_stage G (phase, None)"
  by (simp_all add: entry_of_stage_def journal_entry_def req_def)

lemma entry_of_stage_simps [simp]:
  "gj_phase (entry_of_stage G row) = fst row" "gj_quarantine_path (entry_of_stage G row) = Some (object_path G)"
  "gj_original_path (entry_of_stage G row) = original_path G" "gj_container (entry_of_stage G row) = map_option (container_of G) (snd row)"
  "gj_storage_object_id (entry_of_stage G row) = cr_storage_object_id (gs_request G)"
  "finalized_entry (entry_of_stage G row) = entry_of_stage G (JP_Finalized, snd row)"
  "at_phase (entry_of_stage G row) phase (container_of G k) = entry_of_stage G (phase, Some k)"
  "(entry_of_stage G row)\<lparr>gj_phase := phase\<rparr> = entry_of_stage G (phase, snd row)"
  "(entry_of_stage G row)\<lparr>gj_container := Some (container_of G k)\<rparr> = entry_of_stage G (fst row, Some k)"
  by (simp_all add: entry_of_stage_def journal_entry_def original_path_def finalized_entry_def at_phase_def)

lemma recovery_candidate_entry [simp]: "site_ok G \<Longrightarrow> recovery_candidate (entry_of_stage G row) = req G SO_QUARANTINED"
  by (simp add: recovery_candidate_def entry_of_stage_def journal_entry_def req_def site_ok_def)

lemma entry_of_stage_for: "entry_for (gs_request G) (gs_operation G) (entry_of_stage G row)"
  by (simp add: entry_for_def entry_of_stage_def journal_entry_def)

lemma links_simps [simp]: "links True True = 2" "links True False = 1" "links False True = 1"
  by (simp_all add: links_def)

lemma site_kind: "site_ok G \<Longrightarrow> cr_kind (gs_request G) = Kind_File"
  by (simp add: site_ok_def)

lemma identity_ok [simp]:
  "site_ok G \<Longrightarrow> object_stat G 1 s \<Longrightarrow> assert_candidate_identity disk_world (req G st) s = succeed ()"
  "site_ok G \<Longrightarrow> object_stat G 1 s \<Longrightarrow> assert_candidate_shape disk_world (req G st) s = succeed ()"
  by (simp_all add: assert_candidate_identity_def assert_candidate_shape_def object_stat_def kind_matches_def site_kind shared_file_def)

lemma two_links_ok [simp]: "site_ok G \<Longrightarrow> object_stat G 2 s \<Longrightarrow> assert_identity_with_links (req G st) s 2 = succeed ()"
  by (simp add: assert_identity_with_links_def object_stat_def site_kind)

lemma runs_two_links:
  assumes "site_ok G"
  shows "runs (collecting G s0 now h n (stage_of True True k st row))
    (assert_exact_two_link_topology disk_world (req G st') (original_path G) (object_path G))
    (\<lambda>_ w. True \<and> collecting G s0 now h n (stage_of True True k st row) w)"
  unfolding assert_exact_two_link_topology_def disk_world_simps
proof (rule runs_bind [OF runs_lstat_original [OF assms]], rule runs_bind [OF runs_lstat_object [OF assms]])
  fix a b assume "object_stat G (links True True) a" "object_stat G (links True True) b"
  with assms show "runs (collecting G s0 now h n (stage_of True True k st row))
      (followed_by (assert_identity_with_links (req G st') a 2) (\<lambda>_. followed_by (assert_identity_with_links (req G st') b 2)
        (\<lambda>_. require (nt_dev a = nt_dev b \<and> nt_ino a = nt_ino b)
          (cleanup_failure ''GC file quarantine links do not identify the same inode.''))))
      (\<lambda>_ w. True \<and> collecting G s0 now h n (stage_of True True k st row) w)"
    using runs_succeed [of "collecting G s0 now h n (stage_of True True k st row)" "()"] by (simp add: object_stat_def)
qed

section \<open>The container\<close>

lemma runs_owned:
  "runs (collecting G s0 now h n x) (reads (\<lambda>d. (d, Inr (nt_uid s = dk_user d)))) (\<lambda>a w. a = (nt_uid s = gs_user G) \<and> collecting G s0 now h n x w)"
  by (rule runs_read) (simp add: disk_at_def fs_at_def)

lemma runs_container_identity:
  assumes "container_stat G k s"
  shows "runs (collecting G s0 now h n x) (quarantine_container_identity disk_world (gs_container G) s)
    (\<lambda>a w. a = container_of G k \<and> collecting G s0 now h n x w)"
proof -
  have "runs (collecting G s0 now h n x) (followed_by (reads (\<lambda>d. (d, Inr (nt_uid s = dk_user d))))
      (\<lambda>owned. followed_by (require owned e) (\<lambda>_. succeed (container_of G k)))) (\<lambda>a w. a = container_of G k \<and> collecting G s0 now h n x w)" for e
    by (rule runs_bind [OF runs_owned]) (use assms runs_succeed in \<open>simp add: container_stat_def\<close>)
  then show ?thesis using assms
    by (simp add: quarantine_container_identity_def container_stat_def container_of_def Let_def)
qed

lemma container_same [simp]: "container_stat G k s \<Longrightarrow> assert_container_identity (container_of G k) s = succeed ()"
  by (simp add: assert_container_identity_def container_stat_def container_of_def)

lemma container_path [simp]: "qc_path (container_of G k) = gs_container G"
  by (simp add: container_of_def)

lemma runs_remove_container:
  assumes "site_ok G" and "resumable (stage_of o' False None st row)" and "c = None \<or> c = Some k"
  shows "runs (collecting G s0 now h n (stage_of o' False c st row)) (remove_exact_quarantine_container disk_world (container_of G k))
    (\<lambda>_ w. True \<and> collecting G s0 now h n (stage_of o' False None st row) w)"
proof (cases c)
  case None
  show ?thesis unfolding remove_exact_quarantine_container_def container_path None
    by (rule runs_bind [OF runs_find_container [OF assms(1)]]) (use runs_succeed in \<open>simp add: runs_def succeed_def\<close>)
next
  case (Some i)
  with assms(3) have c: "c = Some k" by simp
  show ?thesis unfolding remove_exact_quarantine_container_def container_path c
  proof (rule runs_bind [OF runs_find_container [OF assms(1)]])
    fix a assume "case Some k of None \<Rightarrow> a = None | Some i \<Rightarrow> \<exists>s. a = Some s \<and> container_stat G i s"
    then obtain s where s: "a = Some s" "container_stat G k s" by auto
    have "runs (collecting G s0 now h n (stage_of o' False (Some k) st row))
      (followed_by (reads (disk_readdir (gs_container G))) (\<lambda>names.
        followed_by (require (names = []) e) (\<lambda>_.
        followed_by (reads (disk_lstat (gs_container G))) (\<lambda>final.
        followed_by (assert_container_identity (container_of G k) final) (\<lambda>_. writes (disk_rmdir (gs_container G)))))))
      (\<lambda>_ w. True \<and> collecting G s0 now h n (stage_of o' False None st row) w)" for e
      by (rule runs_bind [OF runs_readdir], simp, rule runs_bind [OF runs_lstat_container [OF assms(1)]])
        (use runs_rmdir [OF assms(1,2)] in simp)
    with s show "runs (collecting G s0 now h n (stage_of o' False (Some k) st row)) (case a of None \<Rightarrow> succeed ()
      | Some st \<Rightarrow> followed_by (assert_container_identity (container_of G k) st) (\<lambda>_. followed_by (gd_readdir disk_world (gs_container G))
        (\<lambda>names. followed_by (require (names = []) (cleanup_failure ''GC quarantine container is not empty at cleanup.'')) (\<lambda>_.
          followed_by (gd_lstat disk_world (gs_container G)) (\<lambda>final. followed_by (assert_container_identity (container_of G k) final)
            (\<lambda>_. gd_rmdir disk_world (gs_container G))))))) (\<lambda>_ w. True \<and> collecting G s0 now h n (stage_of o' False None st row) w)"
      by simp
  qed
qed

section \<open>The store\<close>

lemma coordinator_simps [simp]:
  "gl_acquire sqlite_lease_coordinator c token = store_call (\<lambda>s now. acquire_cleanup_lease s c token (Some cleanup_ttl_ms) now)"
  "gl_renew sqlite_lease_coordinator c token = store_call (\<lambda>s now. renew_cleanup_lease s c token (Some cleanup_ttl_ms) now)"
  "gl_release sqlite_lease_coordinator i token preserve = store_call (\<lambda>s now. (fst (release_cleanup_lease s i token preserve), ()))"
  "gl_finalize sqlite_lease_coordinator entry token = store_attempt (\<lambda>s now. finalize_journal s entry token now)"
  by (simp_all add: sqlite_lease_coordinator_def)

lemma disk_at_store:
  "disk_at G x lease d \<Longrightarrow>
   gc_sees (gs_request G) (gs_operation G) t (sg_state y) lease' (map_option (entry_of_stage G) (sg_row y)) \<Longrightarrow>
   sg_original y = sg_original x \<Longrightarrow> sg_quarantined y = sg_quarantined x \<Longrightarrow> sg_container y = sg_container x \<Longrightarrow>
   disk_at G y lease' (d\<lparr>dk_db := t\<rparr>)"
proof -
  have "is_directory (d\<lparr>dk_db := t\<rparr>) path = is_directory d path" for path by (simp add: is_directory_def split: option.split)
  then have "fs_at G o' q k (d\<lparr>dk_db := t\<rparr>) \<longleftrightarrow> fs_at G o' q k d" for o' q k by (cases k) (simp_all add: fs_at_def)
  then show "disk_at G x lease d \<Longrightarrow>
     gc_sees (gs_request G) (gs_operation G) t (sg_state y) lease' (map_option (entry_of_stage G) (sg_row y)) \<Longrightarrow>
     sg_original y = sg_original x \<Longrightarrow> sg_quarantined y = sg_quarantined x \<Longrightarrow> sg_container y = sg_container x \<Longrightarrow>
     disk_at G y lease' (d\<lparr>dk_db := t\<rparr>)" by (simp add: disk_at_def)
qed

lemma ttl_positive: "0 < cleanup_ttl_ms"
  by (simp add: cleanup_ttl_ms_def)

lemma ttl_later: "(now :: time) < now + nat cleanup_ttl_ms"
  by (simp add: cleanup_ttl_ms_def)

lemma runs_acquire:
  assumes "st \<in> {SO_STALE, SO_ORPHANED, SO_QUARANTINED}" and "resumable (stage_of o' q k SO_QUARANTINED row)"
    and "h = Gone_Lease \<or> h = Stale_Lease"
  shows "runs (collecting G s0 now h n (stage_of o' q k st row)) (gl_acquire sqlite_lease_coordinator (req G st) token)
    (\<lambda>a w. a = True \<and> collecting G s0 now (Held token) n (stage_of o' q k SO_QUARANTINED row) w)"
  unfolding coordinator_simps store_call_def
proof (rule runs_write [OF _ assms(2)])
  fix d lease assume d: "disk_at G (stage_of o' q k st row) lease d" "tenure_ok now h lease" "dk_now d = now"
  then have sees: "gc_sees (gs_request G) (gs_operation G) (dk_db d) st lease (map_option (entry_of_stage G) row)" by (simp add: disk_at_def)
  have stale: "case lease of None \<Rightarrow> True | Some (_, expiry) \<Rightarrow> expiry \<le> now" using d(2) assms(3) by (auto split: option.splits)
  from sees_acquire [OF sees assms(1) stale ttl_positive] obtain t where t:
    "acquire_cleanup_lease (dk_db d) (req G st) token (Some cleanup_ttl_ms) now = (t, True)"
    "gc_sees (gs_request G) (gs_operation G) t SO_QUARANTINED (Some (token, now + nat cleanup_ttl_ms)) (map_option (entry_of_stage G) row)"
    unfolding req_def by blast
  from disk_at_store [OF d(1), of t "stage_of o' q k SO_QUARANTINED row"] t(2)
  have "disk_at G (stage_of o' q k SO_QUARANTINED row) (Some (token, now + nat cleanup_ttl_ms)) (d\<lparr>dk_db := t\<rparr>)" by simp
  with t(1) d(3) ttl_later [of now]
  show "\<exists>t a lease'. (case acquire_cleanup_lease (dk_db d) (req G st) token (Some cleanup_ttl_ms) (dk_now d) of
      (s, a) \<Rightarrow> (d\<lparr>dk_db := s\<rparr>, Inr a)) = (t, Inr a) \<and> a = True \<and> disk_at G (stage_of o' q k SO_QUARANTINED row) lease' t \<and>
      tenure_ok now (Held token) lease' \<and> dk_now t = now \<and> dk_drawn t = dk_drawn d"
    by (intro exI [of _ "d\<lparr>dk_db := t\<rparr>"] exI [of _ True] exI [of _ "Some (token, now + nat cleanup_ttl_ms)"]) simp
qed

lemma runs_renew:
  assumes "resumable (stage_of o' q k SO_QUARANTINED row)"
  shows "runs (collecting G s0 now (Held token) n (stage_of o' q k SO_QUARANTINED row))
    (renew_or_fail sqlite_lease_coordinator (req G st) token message)
    (\<lambda>a w. True \<and> collecting G s0 now (Held token) n (stage_of o' q k SO_QUARANTINED row) w)"
proof -
  let ?x = "stage_of o' q k SO_QUARANTINED row"
  have "runs (collecting G s0 now (Held token) n ?x) (gl_renew sqlite_lease_coordinator (req G st) token)
    (\<lambda>a w. a = True \<and> collecting G s0 now (Held token) n ?x w)"
    unfolding coordinator_simps store_call_def
  proof (rule runs_write [OF _ assms])
    fix d lease assume d: "disk_at G ?x lease d" "tenure_ok now (Held token) lease" "dk_now d = now"
    then obtain expiry where lease: "lease = Some (token, expiry)" "now < expiry" by (auto split: option.splits)
    with d have sees: "gc_sees (gs_request G) (gs_operation G) (dk_db d) SO_QUARANTINED (Some (token, expiry)) (map_option (entry_of_stage G) row)"
      by (simp add: disk_at_def)
    from sees_renew [OF sees lease(2) ttl_positive] obtain t where t:
      "renew_cleanup_lease (dk_db d) (req G st) token (Some cleanup_ttl_ms) now = (t, True)"
      "gc_sees (gs_request G) (gs_operation G) t SO_QUARANTINED (Some (token, now + nat cleanup_ttl_ms)) (map_option (entry_of_stage G) row)"
      unfolding req_def by blast
    from disk_at_store [OF d(1), of t ?x] t(2)
    have "disk_at G ?x (Some (token, now + nat cleanup_ttl_ms)) (d\<lparr>dk_db := t\<rparr>)" by simp
    with t(1) d(3) ttl_later [of now]
    show "\<exists>t a lease'. (case renew_cleanup_lease (dk_db d) (req G st) token (Some cleanup_ttl_ms) (dk_now d) of
        (s, a) \<Rightarrow> (d\<lparr>dk_db := s\<rparr>, Inr a)) = (t, Inr a) \<and> a = True \<and> disk_at G ?x lease' t \<and>
        tenure_ok now (Held token) lease' \<and> dk_now t = now \<and> dk_drawn t = dk_drawn d"
      by (intro exI [of _ "d\<lparr>dk_db := t\<rparr>"] exI [of _ True] exI [of _ "Some (token, now + nat cleanup_ttl_ms)"]) simp
  qed
  then show ?thesis unfolding renew_or_fail_def by (rule runs_bind) simp
qed

definition follows :: "(journal_phase \<times> nat option) option \<Rightarrow> journal_phase \<Rightarrow> bool" where
  "follows row phase = (case row of None \<Rightarrow> True | Some (before, _) \<Rightarrow> phase_order before \<le> phase_order phase)"

lemma runs_record:
  assumes "resumable (stage_of o' q k st (Some (phase, recorded)))" and "follows row phase"
  shows "runs (collecting G s0 now h n (stage_of o' q k st row)) (sqlite_journal (entry_of_stage G (phase, recorded)))
    (\<lambda>a w. True \<and> collecting G s0 now h n (stage_of o' q k st (Some (phase, recorded))) w)"
  unfolding sqlite_journal_def store_attempt_def
proof (rule runs_write [OF _ assms(1)])
  fix d lease assume d: "disk_at G (stage_of o' q k st row) lease d" "tenure_ok now h lease" "dk_now d = now"
  let ?i = "entry_of_stage G (phase, recorded)"
  from d have sees: "gc_sees (gs_request G) (gs_operation G) (dk_db d) st lease (map_option (entry_of_stage G) row)" by (simp add: disk_at_def)
  have "gj_operation_id ?i = gs_operation G" "gj_storage_object_id ?i = cr_storage_object_id (gs_request G)"
    by (simp_all add: entry_of_stage_def journal_entry_def)
  moreover have "case map_option (entry_of_stage G) row of None \<Rightarrow> True
      | Some j \<Rightarrow> same_operation ?i j \<and> phase_order (gj_phase j) \<le> phase_order (gj_phase ?i)"
    using assms(2) by (auto simp: follows_def same_operation_def entry_of_stage_def journal_entry_def split: option.split)
  ultimately obtain t where t: "record_journal (dk_db d) ?i now = Inr t"
    "gc_sees (gs_request G) (gs_operation G) t st lease (Some ?i)" using sees_record [OF sees] by blast
  from disk_at_store [OF d(1), of t "stage_of o' q k st (Some (phase, recorded))"] t(2)
  have "disk_at G (stage_of o' q k st (Some (phase, recorded))) lease (d\<lparr>dk_db := t\<rparr>)" by simp
  with t(1) d(2,3)
  show "\<exists>t a lease'. (case map_sum id (\<lambda>t. (t, ())) (record_journal (dk_db d) ?i (dk_now d)) of
      Inl x \<Rightarrow> (d, Inl (Gc_Error None ''store'')) | Inr (s, a) \<Rightarrow> (d\<lparr>dk_db := s\<rparr>, Inr a)) = (t, Inr a) \<and> True \<and>
      disk_at G (stage_of o' q k st (Some (phase, recorded))) lease' t \<and> tenure_ok now h lease' \<and> dk_now t = now \<and> dk_drawn t = dk_drawn d"
    by (intro exI [of _ "d\<lparr>dk_db := t\<rparr>"] exI [of _ "()"] exI [of _ lease]) simp
qed

lemma runs_finalize:
  assumes "resumable (stage_of o' q k SO_REMOVED (Some (JP_Finalized, recorded)))"
  shows "runs (collecting G s0 now (Held token) n (stage_of o' q k SO_QUARANTINED (Some (JP_Deleted, recorded))))
    (finalize_or_fail sqlite_lease_coordinator (entry_of_stage G (JP_Finalized, recorded)) token message)
    (\<lambda>a w. True \<and> collecting G s0 now Gone_Lease n (stage_of o' q k SO_REMOVED (Some (JP_Finalized, recorded))) w)"
proof -
  let ?x = "stage_of o' q k SO_QUARANTINED (Some (JP_Deleted, recorded))"
  let ?y = "stage_of o' q k SO_REMOVED (Some (JP_Finalized, recorded))"
  let ?i = "entry_of_stage G (JP_Finalized, recorded)"
  have "runs (collecting G s0 now (Held token) n ?x) (gl_finalize sqlite_lease_coordinator ?i token)
    (\<lambda>a w. a = True \<and> collecting G s0 now Gone_Lease n ?y w)"
    unfolding coordinator_simps store_attempt_def
  proof (rule runs_write [OF _ assms])
    fix d lease assume d: "disk_at G ?x lease d" "tenure_ok now (Held token) lease" "dk_now d = now"
    then obtain expiry where lease: "lease = Some (token, expiry)" "now < expiry" by (auto split: option.splits)
    with d have sees: "gc_sees (gs_request G) (gs_operation G) (dk_db d) SO_QUARANTINED (Some (token, expiry))
        (Some (entry_of_stage G (JP_Deleted, recorded)))" by (simp add: disk_at_def)
    from sees_finalize [OF sees lease(2) entry_of_stage_for] obtain t where t:
      "finalize_journal (dk_db d) ?i token now = Inr (t, True)"
      "gc_sees (gs_request G) (gs_operation G) t SO_REMOVED None (Some ?i)" by auto
    from disk_at_store [OF d(1), of t ?y] t(2) have "disk_at G ?y None (d\<lparr>dk_db := t\<rparr>)" by simp
    with t(1) d(3)
    show "\<exists>t a lease'. (case finalize_journal (dk_db d) ?i token (dk_now d) of
        Inl x \<Rightarrow> (d, Inl (Gc_Error None ''store'')) | Inr (s, a) \<Rightarrow> (d\<lparr>dk_db := s\<rparr>, Inr a)) = (t, Inr a) \<and> a = True \<and>
        disk_at G ?y lease' t \<and> tenure_ok now Gone_Lease lease' \<and> dk_now t = now \<and> dk_drawn t = dk_drawn d"
      by (intro exI [of _ "d\<lparr>dk_db := t\<rparr>"] exI [of _ True] exI [of _ None]) simp
  qed
  then show ?thesis unfolding finalize_or_fail_def by (rule runs_bind) simp
qed

lemma runs_finalize_refused:
  assumes "resumable (stage_of o' q k SO_QUARANTINED (Some (phase, recorded)))"
  shows "runs (collecting G s0 now Stale_Lease n (stage_of o' q k SO_QUARANTINED (Some (phase, recorded))))
    (gl_finalize sqlite_lease_coordinator (entry_of_stage G (JP_Finalized, recorded)) token)
    (\<lambda>a w. a = False \<and> collecting G s0 now Stale_Lease n (stage_of o' q k SO_QUARANTINED (Some (phase, recorded))) w)"
  unfolding coordinator_simps store_attempt_def
proof (rule runs_write [OF _ assms])
  let ?x = "stage_of o' q k SO_QUARANTINED (Some (phase, recorded))"
  fix d lease assume d: "disk_at G ?x lease d" "tenure_ok now Stale_Lease lease" "dk_now d = now"
  then have sees: "gc_sees (gs_request G) (gs_operation G) (dk_db d) SO_QUARANTINED lease (Some (entry_of_stage G (phase, recorded)))"
    by (simp add: disk_at_def)
  from d(2) have "case lease of None \<Rightarrow> True | Some (_, expiry) \<Rightarrow> expiry \<le> now" by simp
  from sees_finalize_refused [OF sees this entry_of_stage_for, of token]
  have "finalize_journal (dk_db d) (entry_of_stage G (JP_Finalized, recorded)) token now = Inr (dk_db d, False)" by simp
  with d show "\<exists>t a lease'. (case finalize_journal (dk_db d) (entry_of_stage G (JP_Finalized, recorded)) token (dk_now d) of
        Inl x \<Rightarrow> (d, Inl (Gc_Error None ''store'')) | Inr (s, a) \<Rightarrow> (d\<lparr>dk_db := s\<rparr>, Inr a)) = (t, Inr a) \<and> a = False \<and>
        disk_at G ?x lease' t \<and> tenure_ok now Stale_Lease lease' \<and> dk_now t = now \<and> dk_drawn t = dk_drawn d"
    by (intro exI [of _ d] exI [of _ False] exI [of _ lease]) simp
qed

lemma runs_release:
  assumes "resumable (stage_of o' q k st row)"
  shows "runs (collecting G s0 now Gone_Lease n (stage_of o' q k st row))
    (gl_release sqlite_lease_coordinator (cr_storage_object_id (gs_request G)) token preserve)
    (\<lambda>a w. True \<and> collecting G s0 now Gone_Lease n (stage_of o' q k st row) w)"
  unfolding coordinator_simps store_call_def
proof (rule runs_write [OF _ assms])
  let ?x = "stage_of o' q k st row"
  fix d lease assume d: "disk_at G ?x lease d" "tenure_ok now Gone_Lease lease" "dk_now d = now"
  let ?t = "fst (release_cleanup_lease (dk_db d) (cr_storage_object_id (gs_request G)) token preserve)"
  from d have "gc_sees (gs_request G) (gs_operation G) (dk_db d) st None (map_option (entry_of_stage G) row)" by (simp add: disk_at_def)
  from sees_release [OF this, of token preserve] disk_at_store [OF d(1), of ?t ?x None]
  have "disk_at G ?x None (d\<lparr>dk_db := ?t\<rparr>)" by simp
  with d show "\<exists>t a lease'. (case (?t, ()) of (s, a) \<Rightarrow> (d\<lparr>dk_db := s\<rparr>, Inr a)) = (t, Inr a) \<and> True \<and> disk_at G ?x lease' t \<and>
      tenure_ok now Gone_Lease lease' \<and> dk_now t = now \<and> dk_drawn t = dk_drawn d"
    by (intro exI [of _ "d\<lparr>dk_db := ?t\<rparr>"] exI [of _ "()"] exI [of _ None]) simp
qed

end
