(* ===== verification/Gc_Crash.thy ===== *)
theory Gc_Crash
  imports Gc_Steps
begin

text \<open>
  An undisturbed collection of one file, and its recovery after crashes: every durable state on the way is one from
  which the recovery of the journal's entry finishes the work.
\<close>

section \<open>Sequences beside local variables\<close>

lemma bind_outside:
  assumes "runs P m (\<lambda>a w. R a \<and> S w)" and "\<And>a. R a \<Longrightarrow> runs (beside x S) (k a) Q"
  shows "runs (beside x P) (followed_by (outside m) k) Q"
  by (rule runs_bind [OF runs_outside [OF assms(1)] assms(2)])

lemma bind_assign:
  assumes "runs (beside (f x) P) (k ()) Q"
  shows "runs (beside x P) (followed_by (assign f) k) Q"
  by (rule runs_bind [OF runs_assign]) (use assms in simp)

lemma bind_outside_some:
  assumes "runs P m (\<lambda>a w. True \<and> (\<exists>i. S i w))" and "\<And>a i. runs (beside x (S i)) (k a) Q"
  shows "runs (beside x P) (followed_by (outside m) k) Q"
proof (rule bind_outside [OF assms(1)])
  fix a
  have "runs (\<lambda>s. \<exists>i. beside x (S i) s) (k a) Q" by (rule runs_ex) (rule assms(2))
  then show "runs (beside x (\<lambda>w. \<exists>i. S i w)) (k a) Q" by (rule runs_pre) (simp add: beside_ex)
qed

lemma bind_some:
  assumes "runs P m (\<lambda>a w. \<exists>i. R a i \<and> S i w)" and "\<And>a i. R a i \<Longrightarrow> runs (S i) (k a) Q"
  shows "runs P (followed_by m k) Q"
proof (rule runsI)
  fix w assume "P w"
  with assms(1) obtain t a i where m: "m w = (t, Inr a)" "R a i" "S i t" unfolding runs_def by blast
  with assms(2) obtain u b where "k a t = (u, Inr b)" "Q b u" unfolding runs_def by blast
  with m(1) show "\<exists>t a. followed_by m k w = (t, Inr a) \<and> Q a t" by (simp add: followed_by_def)
qed

section \<open>The deletion of the quarantined file\<close>

lemma runs_deletion:
  assumes "site_ok G" and "1 \<le> max_entries" and "resumable (stage_of False True (Some k) SO_QUARANTINED row)"
    and "resumable (stage_of False False (Some k) SO_QUARANTINED row)"
  shows "runs (collecting G s0 now (Held token) n (stage_of False True (Some k) SO_QUARANTINED row))
    (delete_exact_quarantine disk_world (object_path G) (req G st) max_entries max_depth
      (renew_or_fail sqlite_lease_coordinator (req G st') token message))
    (\<lambda>_ w. True \<and> collecting G s0 now (Held token) n (stage_of False False (Some k) SO_QUARANTINED row) w)"
proof -
  let ?x = "stage_of False True (Some k) SO_QUARANTINED row" and ?y = "stage_of False False (Some k) SO_QUARANTINED row"
  let ?P = "collecting G s0 now (Held token) n ?x"
  let ?before = "renew_or_fail sqlite_lease_coordinator (req G st') token message"
  have count: "(\<lambda>s. require (fst s \<le> max_entries) e s) = (\<lambda>s. if fst s \<le> max_entries then (s, Inr ()) else (s, Inl e))"
    for e :: gc_error by (rule ext) (simp add: require_def succeed_def fail_with_def)
  have counted: "runs (beside (Suc 0) ?P) (\<lambda>s. require (fst s \<le> max_entries) e s) (\<lambda>_ s. True \<and> beside (Suc 0) ?P s)" for e
    using assms(2) by (auto simp: count runs_def beside_def)
  have "runs (beside 0 ?P) (remove_entry (Suc max_depth) disk_world (req G st) max_entries ?before True (object_path G))
      (\<lambda>_ s. True \<and> beside (Suc 0) (collecting G s0 now (Held token) n ?y) s)"
    unfolding remove_entry.simps
  proof (rule bind_assign, rule runs_bind [OF counted], simp only: disk_world_simps, rule bind_outside [OF runs_lstat_object [OF assms(1)]])
    fix s assume s: "object_stat G (links False True) s"
    have fin: "runs (beside (Suc 0) ?P) (followed_by (outside ?before) (\<lambda>_. outside (writes (disk_unlink (object_path G)))))
        (\<lambda>_ s. True \<and> beside (Suc 0) (collecting G s0 now (Held token) n ?y) s)"
      by (rule bind_outside [OF runs_renew [OF assms(3)]], rule runs_outside [OF runs_unlink_object [OF assms(1,4)]])
    then show "runs (beside (Suc 0) ?P)
      (followed_by (require (nt_uid s = cr_uid (req G st) \<and> \<not> nt_symlink s)
        (cleanup_failure ''GC quarantine contains an unowned or symbolic-link entry.''))
       (\<lambda>_. followed_by (if True then outside (assert_candidate_identity disk_world (req G st) s) else succeed ())
         (\<lambda>_. if nt_file s
           then followed_by (require (nt_nlink s = 1) (cleanup_failure ''GC refuses hardlinked files.''))
             (\<lambda>_. followed_by (outside ?before) (\<lambda>_. outside (writes (disk_unlink (object_path G)))))
           else followed_by (require (nt_directory s) (cleanup_failure ''GC refuses special files.''))
             (\<lambda>_. followed_by (outside (reads (disk_readdir (object_path G))))
               (\<lambda>names. followed_by (each (\<lambda>name. remove_entry max_depth disk_world (req G st) max_entries ?before False
                  (join_path (object_path G) name)) (sort names))
                 (\<lambda>_. followed_by (outside (reads (disk_lstat (object_path G))))
                   (\<lambda>final. followed_by (require (nt_dev final = nt_dev s \<and> nt_ino final = nt_ino s \<and> nt_uid final = nt_uid s)
                      (cleanup_failure ''GC quarantine changed during traversal.''))
                     (\<lambda>_. followed_by (outside ?before) (\<lambda>_. outside (writes (disk_rmdir (object_path G))))))))))))
      (\<lambda>_ s. True \<and> beside (Suc 0) (collecting G s0 now (Held token) n ?y) s)"
      using s assms(1) by (simp add: object_stat_def [of G 1 s] identity_ok(1) [OF assms(1)])
  qed
  then show ?thesis
    by (fastforce simp: runs_def delete_exact_quarantine_def beside_def split: prod.split)
qed

section \<open>An undisturbed collection\<close>

lemmas stage_checks = resumable_def moving_def follows_def

text \<open>The names drawn for the operation and its container.\<close>

definition drawn_site :: "gc_case \<Rightarrow> nat \<Rightarrow> bool" where
  "drawn_site G n \<longleftrightarrow> gs_operation G = gs_uuid G n \<and>
     gs_container G = join_path (dirname (original_path G)) (''.wtm-gc-'' @ filter (\<lambda>x. x \<noteq> CHR ''-'') (gs_uuid G (Suc n)))"

abbreviation prepared :: "nat \<Rightarrow> bool \<Rightarrow> stage" where
  "prepared k quarantined \<equiv> stage_of True quarantined (Some k) SO_QUARANTINED (Some (JP_Prepared, Some k))"

lemma run_prepare:
  assumes "site_ok G" and "gs_container G = join_path (dirname (original_path G)) (''.wtm-gc-'' @ filter (\<lambda>x. x \<noteq> CHR ''-'') (gs_uuid G n))"
  shows "runs (beside x (collecting G s0 now (Held token) n (stage_of True False None SO_QUARANTINED None)))
    (prepare_container disk_world sqlite_journal (req G st) (gs_operation G))
    (\<lambda>a s. \<exists>k. a = (object_path G, container_of G k) \<and>
      beside (x\<lparr>gu_quarantine_path := Some (object_path G), gu_phase := Some JP_Prepared\<rparr>)
        (collecting G s0 now (Held token) (Suc n) (prepared k False)) s)"
  unfolding prepare_container_def disk_world_simps outside_succeed followed_by_succeed set_phase_def req_simps
proof (rule bind_outside [OF runs_uuid])
  fix a assume a: "a = gs_uuid G n"
  have path: "join_path (gs_container G) ''object'' = object_path G" by (simp add: object_path_def)
  let ?x = "x\<lparr>gu_quarantine_path := Some (object_path G), gu_phase := Some JP_Prepared\<rparr>"
  have "runs (beside ?x (collecting G s0 now (Held token) (Suc n) (stage_of True False None SO_QUARANTINED None)))
     (followed_by (outside (sqlite_journal (entry_of_stage G (JP_Prepared, None)))) (\<lambda>_.
      followed_by (outside (writes (disk_mkdir (gs_container G) 448))) (\<lambda>_.
      followed_by (outside (reads (disk_lstat (gs_container G)))) (\<lambda>s.
      followed_by (outside (quarantine_container_identity disk_world (gs_container G) s)) (\<lambda>identity.
      followed_by (outside (sqlite_journal (journal_entry (gs_operation G) (req G st) JP_Prepared (Some (object_path G)) (Some identity)))) (\<lambda>_.
      succeed (object_path G, identity)))))))
     (\<lambda>a s. \<exists>k. a = (object_path G, container_of G k) \<and> beside ?x (collecting G s0 now (Held token) (Suc n) (prepared k False)) s)"
    apply (rule bind_outside [OF runs_record])
      apply (simp add: stage_checks)
     apply (simp add: stage_checks)
    apply (rule bind_outside_some [OF runs_mkdir [OF assms(1)]])
     apply (simp add: stage_checks)
    apply (rule bind_outside [OF runs_lstat_container [OF assms(1)]])
    apply (rule bind_outside [OF runs_container_identity])
     apply assumption
    apply (simp only: journal_entry_req)
    apply (rule bind_outside [OF runs_record])
      apply (simp add: stage_checks)
     apply (simp add: stage_checks)
    apply (rule runs_post [OF runs_succeed])
    apply blast
    done
  then show "runs (beside x (collecting G s0 now (Held token) (Suc n) (stage_of True False None SO_QUARANTINED None)))
      (let container = join_path (dirname (original_path G)) (''.wtm-gc-'' @ filter (\<lambda>x. x \<noteq> CHR ''-'') a);
           quarantine_path = join_path container ''object''
       in followed_by (assign (\<lambda>x. x\<lparr>gu_quarantine_path := Some quarantine_path\<rparr>)) (\<lambda>_.
          followed_by (assign (\<lambda>x. x\<lparr>gu_phase := Some JP_Prepared\<rparr>)) (\<lambda>_.
          followed_by (outside (sqlite_journal (journal_entry (gs_operation G) (req G st) JP_Prepared (Some quarantine_path) None))) (\<lambda>_.
          followed_by (outside (writes (disk_mkdir container 448))) (\<lambda>_.
          followed_by (outside (reads (disk_lstat container))) (\<lambda>s.
          followed_by (outside (quarantine_container_identity disk_world container s)) (\<lambda>identity.
          followed_by (outside (sqlite_journal (journal_entry (gs_operation G) (req G st) JP_Prepared (Some quarantine_path) (Some identity)))) (\<lambda>_.
          succeed (quarantine_path, identity)))))))))
      (\<lambda>a s. \<exists>k. a = (object_path G, container_of G k) \<and> beside ?x (collecting G s0 now (Held token) (Suc n) (prepared k False)) s)"
    unfolding Let_def a assms(2) [symmetric] path journal_entry_req
    by (intro bind_assign) simp
qed

lemma runs_holds:
  assumes "site_ok G" and "object_stat G 1 s"
  shows "runs (collecting G s0 now h n (stage_of True False k st row))
    (reads (\<lambda>d. (d, Inr (nt_ino s = int (inode_of G) \<and> di_nlink (dk_inodes d (inode_of G)) \<noteq> 0))))
    (\<lambda>a w. a = True \<and> collecting G s0 now h n (stage_of True False k st row) w)"
  by (rule runs_read) (use assms in \<open>auto simp: disk_at_def fs_at_def object_stat_def inode_of_def site_ok_def\<close>)

lemma runs_pin:
  "runs (collecting G s0 now h n (stage_of True q k st row)) (reads (\<lambda>d. (d, Inr (map_of (dk_paths d) (original_path G)))))
    (\<lambda>a w. a = Some (inode_of G) \<and> collecting G s0 now h n (stage_of True q k st row) w)"
  by (rule runs_read) (simp add: disk_at_def fs_at_def)

lemma run_check_original:
  assumes "site_ok G"
  shows "runs (collecting G s0 now (Held token) n (prepared k False))
    (check_original disk_world sqlite_lease_coordinator (req G st) authorization token (inode_of G))
    (\<lambda>_ w. True \<and> collecting G s0 now (Held token) n (prepared k False) w)"
  unfolding check_original_def disk_world_simps followed_by_succeed req_simps
  apply (rule runs_bind [OF runs_renew])
   apply (simp add: stage_checks)
  apply (rule runs_bind [OF runs_find_original [OF assms]])
  apply clarsimp
  apply (simp add: identity_ok [OF assms])
  apply (rule runs_bind [OF runs_holds [OF assms]])
   apply assumption
  apply simp
  done

lemma run_check_free:
  assumes "site_ok G"
  shows "runs (collecting G s0 now h n (prepared k False)) (check_quarantine_free disk_world (object_path G))
    (\<lambda>_ w. True \<and> collecting G s0 now h n (prepared k False) w)"
  unfolding check_quarantine_free_def disk_world_simps followed_by_succeed
  by (rule runs_bind [OF runs_find_object [OF assms]]) simp

lemma runs_link_exclusively:
  assumes "runs P (writes (disk_link path new_path)) (\<lambda>a w. R a \<and> S w)"
  shows "runs P (link_exclusively disk_world path new_path) (\<lambda>a w. R a \<and> S w)"
  using assms by (fastforce simp: runs_def link_exclusively_def)

abbreviation unlinked :: "nat \<Rightarrow> journal_phase \<Rightarrow> stage" where
  "unlinked k phase \<equiv> stage_of False True (Some k) SO_QUARANTINED (Some (phase, Some k))"

lemma run_move_file:
  assumes "site_ok G"
  shows "runs (beside x (collecting G s0 now (Held token) n (prepared k False)))
    (move_file disk_world sqlite_lease_coordinator sqlite_journal (req G st) authorization token
      (\<lambda>phase. entry_of_stage G (phase, Some k)) (object_path G))
    (\<lambda>_ s. True \<and> beside (x\<lparr>gu_phase := Some JP_Unlinking\<rparr>) (collecting G s0 now (Held token) n (unlinked k JP_Unlinking)) s)"
  unfolding move_file_def disk_world_simps outside_succeed followed_by_succeed req_simps set_phase_def
  apply (rule bind_outside [OF runs_link_exclusively [OF runs_link [OF assms]]])
   apply (simp add: stage_checks)
  apply (rule bind_outside [OF runs_lstat_object [OF assms]])
  apply (rule bind_outside [OF runs_lstat_original [OF assms]])
  apply (simp only: links_simps two_links_ok [OF assms] followed_by_succeed)
  apply (rule bind_assign)
  apply (rule bind_outside [OF runs_record])
    apply (simp add: stage_checks)
   apply (simp add: stage_checks)
  apply (rule bind_assign)
  apply (rule bind_outside [OF runs_record])
    apply (simp add: stage_checks)
   apply (simp add: stage_checks)
  apply (rule bind_outside [OF runs_renew])
   apply (simp add: stage_checks)
  apply (rule bind_outside [OF runs_two_links [OF assms]])
  apply (rule bind_outside [OF runs_unlink_original [OF assms]])
   apply (simp add: stage_checks)
  apply (rule bind_outside [OF runs_lstat_object [OF assms]])
  apply (simp add: identity_ok [OF assms])
  done

lemma run_settle:
  assumes "site_ok G"
  shows "runs (beside x (collecting G s0 now h n (unlinked k JP_Unlinking)))
    (settle_quarantine disk_world sqlite_journal (req G st) (\<lambda>phase. entry_of_stage G (phase, Some k)) (object_path G))
    (\<lambda>_ s. True \<and> beside (x\<lparr>gu_phase := Some JP_Quarantined\<rparr>) (collecting G s0 now h n (unlinked k JP_Quarantined)) s)"
  unfolding settle_quarantine_def disk_world_simps outside_succeed set_phase_def
  apply (rule bind_outside [OF runs_lstat_object [OF assms]])
  apply (simp only: links_simps identity_ok [OF assms] outside_succeed followed_by_succeed)
  apply (rule bind_outside [OF runs_chmod [OF assms]])
   apply (simp add: stage_checks)
  apply (rule bind_assign)
  apply (rule bind_outside [OF runs_record])
    apply (simp add: stage_checks)
   apply (simp add: stage_checks)
  apply simp
  done

abbreviation removed :: "nat \<Rightarrow> nat option \<Rightarrow> stage" where
  "removed k container \<equiv> stage_of False False container SO_REMOVED (Some (JP_Finalized, Some k))"

lemma run_delete_and_finalize:
  assumes "site_ok G" and "1 \<le> max_entries"
  shows "runs (beside x (collecting G s0 now (Held token) n (unlinked k JP_Quarantined)))
    (delete_and_finalize disk_world sqlite_lease_coordinator sqlite_journal max_entries max_depth (req G st) token
      (\<lambda>phase. entry_of_stage G (phase, Some k)) (object_path G) (container_of G k))
    (\<lambda>_ s. True \<and> beside (x\<lparr>gu_phase := Some JP_Finalized, gu_items := gu_items x @ [item_of (req G st) Deleted], gu_lease_token := None\<rparr>)
      (collecting G s0 now Gone_Lease n (removed k None)) s)"
  unfolding delete_and_finalize_def disk_world_simps outside_succeed followed_by_succeed set_phase_def set_token_def push_item_def req_simps
  apply (rule bind_outside [OF runs_renew])
   apply (simp add: stage_checks)
  apply (rule bind_assign)
  apply (rule bind_outside [OF runs_record])
    apply (simp add: stage_checks)
   apply (simp add: stage_checks)
  apply (rule bind_outside [OF runs_deletion [OF assms]])
    apply (simp add: stage_checks)
   apply (simp add: stage_checks)
  apply (rule bind_assign)
  apply (rule bind_outside [OF runs_record])
    apply (simp add: stage_checks)
   apply (simp add: stage_checks)
  apply (rule bind_outside [OF runs_renew])
   apply (simp add: stage_checks)
  apply (rule bind_outside [OF runs_finalize])
   apply (simp add: stage_checks)
  apply (rule bind_assign)
  apply (rule bind_outside [OF runs_remove_container [OF assms(1)]])
    apply (simp add: stage_checks)
   apply simp
  apply (rule bind_assign)
  apply (rule bind_outside [OF runs_release])
   apply (simp add: stage_checks)
  apply (rule runs_post [OF runs_assign])
  apply simp
  done

definition applies :: "logged_disk gc_options \<Rightarrow> bool" where
  "applies opts \<longleftrightarrow> go_apply opts \<and> go_lease opts = Some sqlite_lease_coordinator \<and> go_journal opts = Some sqlite_journal"

lemma applies_coordinator: "applies opts \<Longrightarrow> lease_and_journal opts = Some (sqlite_lease_coordinator, sqlite_journal)"
  by (simp add: applies_def lease_and_journal_def)

lemma run_quarantine_and_delete:
  assumes "site_ok G" and "drawn_site G n" and "1 \<le> max_entries"
  shows "runs (beside x (collecting G s0 now (Held token) n (stage_of True False None SO_QUARANTINED None)))
    (quarantine_and_delete disk_world sqlite_lease_coordinator sqlite_journal max_entries max_depth (req G st) authorization (inode_of G) token)
    (\<lambda>_ s. gu_items (fst s) = gu_items x @ [item_of (req G st) Deleted] \<and>
      (\<exists>k. collecting G s0 now Gone_Lease (Suc (Suc n)) (removed k None) (snd s)))"
proof -
  let ?x = "x\<lparr>gu_quarantine_path := Some (object_path G), gu_phase := Some JP_Prepared\<rparr>"
  have site: "gs_container G = join_path (dirname (original_path G)) (''.wtm-gc-'' @ filter (\<lambda>x. x \<noteq> CHR ''-'') (gs_uuid G (Suc n)))"
    and operation: "gs_uuid G n = gs_operation G" using assms(2) by (simp_all add: drawn_site_def)
  have rest: "runs (beside ?x (collecting G s0 now (Held token) (Suc (Suc n)) (prepared k False)))
      (let entry = (\<lambda>phase. entry_of_stage G (phase, Some k)) in
       followed_by (outside (check_original disk_world sqlite_lease_coordinator (req G st) authorization token (inode_of G))) (\<lambda>_.
       followed_by (outside (check_quarantine_free disk_world (object_path G))) (\<lambda>_.
       followed_by (case cr_kind (req G st) of
           Kind_File \<Rightarrow> move_file disk_world sqlite_lease_coordinator sqlite_journal (req G st) authorization token entry (object_path G)
         | Kind_Directory \<Rightarrow> outside (gd_rename disk_world (cr_path (req G st)) (object_path G))) (\<lambda>_.
       followed_by (settle_quarantine disk_world sqlite_journal (req G st) entry (object_path G)) (\<lambda>_.
       delete_and_finalize disk_world sqlite_lease_coordinator sqlite_journal max_entries max_depth (req G st) token entry
         (object_path G) (container_of G k))))))
      (\<lambda>_ s. gu_items (fst s) = gu_items x @ [item_of (req G st) Deleted] \<and>
        (\<exists>k. collecting G s0 now Gone_Lease (Suc (Suc n)) (removed k None) (snd s)))" for k
    unfolding Let_def req_simps site_kind [OF assms(1)] storage_kind.case
    apply (rule bind_outside [OF run_check_original [OF assms(1)]])
    apply (rule bind_outside [OF run_check_free [OF assms(1)]])
    apply (rule runs_bind [OF run_move_file [OF assms(1)]])
    apply (rule runs_bind [OF run_settle [OF assms(1)]])
    apply (rule runs_post [OF run_delete_and_finalize [OF assms(1,3)]])
    apply (auto simp: beside_def)
    done
  show ?thesis
    unfolding quarantine_and_delete_def disk_world_simps
  proof (rule bind_outside [OF runs_uuid], simp only: operation, rule bind_some [OF run_prepare [OF assms(1) site]])
    fix a :: "string \<times> quarantine_container" and k assume "a = (object_path G, container_of G k)"
    then show "runs (beside ?x (collecting G s0 now (Held token) (Suc (Suc n)) (prepared k False)))
      (case a of (quarantine_path, container) \<Rightarrow>
        let entry = (\<lambda>phase. journal_entry (gs_operation G) (req G st) phase (Some quarantine_path) (Some container)) in
        followed_by (outside (check_original disk_world sqlite_lease_coordinator (req G st) authorization token (inode_of G))) (\<lambda>_.
        followed_by (outside (check_quarantine_free disk_world quarantine_path)) (\<lambda>_.
        followed_by (case cr_kind (req G st) of
            Kind_File \<Rightarrow> move_file disk_world sqlite_lease_coordinator sqlite_journal (req G st) authorization token entry quarantine_path
          | Kind_Directory \<Rightarrow> outside (gd_rename disk_world (cr_path (req G st)) quarantine_path)) (\<lambda>_.
        followed_by (settle_quarantine disk_world sqlite_journal (req G st) entry quarantine_path) (\<lambda>_.
        delete_and_finalize disk_world sqlite_lease_coordinator sqlite_journal max_entries max_depth (req G st) token entry
          quarantine_path container)))))
      (\<lambda>_ s. gu_items (fst s) = gu_items x @ [item_of (req G st) Deleted] \<and>
        (\<exists>k. collecting G s0 now Gone_Lease (Suc (Suc n)) (removed k None) (snd s)))"
      using rest [of k] by (simp only: prod.case journal_entry_req Let_def site_kind [OF assms(1)] req_simps storage_kind.case)
  qed
qed

lemma run_collect:
  assumes "site_ok G" and "drawn_site G (Suc n)" and "1 \<le> max_entries" and "applies opts"
    and "st \<in> {SO_STALE, SO_ORPHANED, SO_QUARANTINED}" and "h = Gone_Lease \<or> h = Stale_Lease"
  shows "runs (beside x (collecting G s0 now h n (stage_of True False None st None)))
    (collect disk_world opts max_entries max_depth (req G st))
    (\<lambda>_ s. gu_items (fst s) = gu_items x @ [item_of (req G st) Deleted] \<and>
      (\<exists>k. collecting G s0 now Gone_Lease (Suc (Suc (Suc n))) (removed k None) (snd s)))"
proof -
  let ?x0 = "stage_of True False None st None"
  let ?Q = "\<lambda>(_::unit) s. gu_items (fst s) = gu_items x @ [item_of (req G st) Deleted] \<and>
      (\<exists>k. collecting G s0 now Gone_Lease (Suc (Suc (Suc n))) (removed k None) (snd s))"
  have reserved: "runs (beside (x\<lparr>gu_pin := Some (inode_of G)\<rparr>) (collecting G s0 now h n ?x0))
    (reserve disk_world sqlite_lease_coordinator (req G st) (quarantine_and_delete disk_world sqlite_lease_coordinator sqlite_journal
       max_entries max_depth (req G st) () (inode_of G))) ?Q"
    unfolding reserve_def disk_world_simps set_token_def
    apply (rule bind_outside [OF runs_uuid])
    apply (rule bind_assign)
    apply (rule bind_outside [OF runs_acquire [OF assms(5) _ assms(6)]])
     apply (simp add: stage_checks)
    apply simp
    apply (rule runs_post [OF run_quarantine_and_delete [OF assms(1,2,3)]])
    apply simp
    done
  have present: "runs (beside x (collecting G s0 now h n ?x0)) (collect_present disk_world opts max_entries max_depth (req G st) () s) ?Q"
    if "object_stat G 1 s" for s
    unfolding collect_present_def pin_candidate_def Let_def disk_world_simps identity_ok(1) [OF assms(1) that] outside_succeed
      followed_by_succeed followed_by_assoc req_simps
    apply (rule bind_outside [OF runs_pin])
    apply (rule bind_assign)
    apply (simp add: followed_by_assoc applies_coordinator [OF assms(4)] assms(4) [unfolded applies_def])
    apply (rule bind_outside [OF runs_holds [OF assms(1) that]])
    apply (simp add: reserved)
    done
  show ?thesis
    unfolding collect_def disk_world_simps outside_succeed followed_by_succeed req_simps
    apply (rule bind_outside [OF runs_find_original [OF assms(1)]])
    using present by auto
qed

end
