(* ===== verification/Gc_Resume.thy ===== *)
theory Gc_Resume
  imports Gc_Crash
begin

text \<open>The recovery of an entry from each stage a crash may leave.\<close>

section \<open>The container\<close>

lemma run_confirm:
  assumes "site_ok G" and "container_stat G k s" and "recorded = None \<or> recorded = Some k"
  shows "runs (collecting G s0 now h n (stage_of o' q (Some k) st row))
    (confirm_container disk_world (entry_of_stage G (phase, recorded)) (gs_container G) s)
    (\<lambda>a w. a = container_of G k \<and> collecting G s0 now h n (stage_of o' q (Some k) st row) w)"
  unfolding confirm_container_def entry_of_stage_simps snd_conv
proof (rule runs_bind [OF runs_container_identity [OF assms(2)]])
  fix actual assume actual: "actual = container_of G k"
  let ?P = "collecting G s0 now h n (stage_of o' q (Some k) st row)"
  have children: "runs ?P (followed_by (reads (disk_readdir (gs_container G))) (\<lambda>names. require (list_all (\<lambda>name. name = ''object'') names) e))
      (\<lambda>_ w. True \<and> ?P w)" for e
    by (rule runs_bind [OF runs_readdir]) simp
  have "runs ?P (case map_option (container_of G) recorded of
      None \<Rightarrow> followed_by (gd_readdir disk_world (gs_container G)) (\<lambda>children. require (list_all (\<lambda>name. name = ''object'') children)
        (cleanup_failure ''Unrecorded quarantine container contains foreign entries.''))
    | Some r \<Rightarrow> assert_container_identity r s) (\<lambda>_ w. True \<and> ?P w)"
    using assms(2,3) children by auto
  then show "runs ?P (followed_by (case map_option (container_of G) recorded of
      None \<Rightarrow> followed_by (gd_readdir disk_world (gs_container G)) (\<lambda>children. require (list_all (\<lambda>name. name = ''object'') children)
        (cleanup_failure ''Unrecorded quarantine container contains foreign entries.''))
    | Some r \<Rightarrow> assert_container_identity r s) (\<lambda>_. succeed actual)) (\<lambda>a w. a = container_of G k \<and> ?P w)"
    by (rule runs_bind) (use runs_succeed actual in simp)
qed

lemma run_ensure_found:
  assumes "site_ok G" and "recorded = None \<or> recorded = Some k"
  shows "runs (collecting G s0 now h n (stage_of o' q (Some k) st row))
    (ensure_recovery_container disk_world (req G st') (entry_of_stage G (phase, recorded)) (object_path G))
    (\<lambda>a w. a = container_of G k \<and> collecting G s0 now h n (stage_of o' q (Some k) st row) w)"
  unfolding ensure_recovery_container_def Let_def site_paths(1) [OF assms(1)] site_paths(2) disk_world_simps followed_by_succeed
  apply simp
  apply (rule runs_bind [OF runs_find_container [OF assms(1)]])
  using run_confirm [OF assms(1) _ assms(2)] by auto

lemma run_ensure_created:
  assumes "site_ok G"
  shows "runs (collecting G s0 now h n (stage_of True False None SO_QUARANTINED (Some (JP_Prepared, None))))
    (ensure_recovery_container disk_world (req G st') (entry_of_stage G (JP_Prepared, None)) (object_path G))
    (\<lambda>a w. \<exists>k. a = container_of G k \<and> collecting G s0 now h n (stage_of True False (Some k) SO_QUARANTINED (Some (JP_Prepared, None))) w)"
proof -
  let ?x = "\<lambda>c. stage_of True False c SO_QUARANTINED (Some (JP_Prepared, None))"
  have made: "runs (collecting G s0 now h n (?x None)) (followed_by (writes (disk_mkdir (gs_container G) 448)) (\<lambda>_.
      followed_by (reads (disk_lstat (gs_container G))) (\<lambda>created.
        confirm_container disk_world (entry_of_stage G (JP_Prepared, None)) (gs_container G) created)))
    (\<lambda>a w. \<exists>k. a = container_of G k \<and> collecting G s0 now h n (?x (Some k)) w)"
  proof (rule bind_some [where R = "\<lambda>_ _. True" and S = "\<lambda>k. collecting G s0 now h n (?x (Some k))"])
    show "runs (collecting G s0 now h n (?x None)) (writes (disk_mkdir (gs_container G) 448))
        (\<lambda>_ w. \<exists>k. True \<and> collecting G s0 now h n (?x (Some k)) w)"
      using runs_mkdir [OF assms, of True SO_QUARANTINED "Some (JP_Prepared, None)"] by (simp add: stage_checks)
    show "runs (collecting G s0 now h n (?x (Some k))) (followed_by (reads (disk_lstat (gs_container G))) (\<lambda>created.
        confirm_container disk_world (entry_of_stage G (JP_Prepared, None)) (gs_container G) created))
      (\<lambda>a w. \<exists>k. a = container_of G k \<and> collecting G s0 now h n (?x (Some k)) w)" for k
      by (rule runs_bind [OF runs_lstat_container [OF assms]], rule runs_post [OF run_confirm [OF assms]]) auto
  qed
  have again: "runs (collecting G s0 now h n (?x None)) (recreate_container disk_world (req G st') (entry_of_stage G (JP_Prepared, None)) () (gs_container G))
    (\<lambda>a w. \<exists>k. a = container_of G k \<and> collecting G s0 now h n (?x (Some k)) w)"
    unfolding recreate_container_def entry_of_stage_simps fst_conv disk_world_simps followed_by_succeed
    apply simp
    apply (rule runs_bind [OF runs_find_original [OF assms]])
    using made by (auto simp: identity_ok [OF assms])
  show ?thesis
    unfolding ensure_recovery_container_def Let_def site_paths(1) [OF assms(1)] site_paths(2) disk_world_simps followed_by_succeed
    apply simp
    apply (rule runs_bind [OF runs_find_container [OF assms]])
    using again by (simp add: vanished_container_def)
qed

lemma run_ensure_vanished:
  assumes "site_ok G"
  shows "runs (collecting G s0 now h n (removed k None))
    (ensure_recovery_container disk_world (req G st') (entry_of_stage G (JP_Finalized, Some k)) (object_path G))
    (\<lambda>a w. a = container_of G k \<and> collecting G s0 now h n (removed k None) w)"
proof -
  let ?P = "collecting G s0 now h n (removed k None)"
  have gone: "runs ?P (vanished_container disk_world (req G st') (entry_of_stage G (JP_Finalized, Some k)) (object_path G))
      (\<lambda>a w. a = Some (container_of G k) \<and> ?P w)"
    unfolding vanished_container_def
    apply simp
    apply (rule runs_bind [OF runs_find_object [OF assms]])
    apply simp
    apply (rule runs_bind [OF runs_find_original [OF assms]])
    using runs_succeed by simp
  show ?thesis
    unfolding ensure_recovery_container_def Let_def site_paths(1) [OF assms(1)] site_paths(2) disk_world_simps followed_by_succeed
    apply simp
    apply (rule runs_bind [OF runs_find_container [OF assms]])
    apply simp
    apply (rule runs_bind [OF gone])
    using runs_succeed by simp
qed

section \<open>A finalized entry\<close>

lemma run_cleanup_finalized:
  assumes "site_ok G" and "c = None \<or> c = Some k"
  shows "runs (collecting G s0 now h n (removed k c)) (cleanup_finalized_container disk_world (req G st') (entry_of_stage G (JP_Finalized, Some k)))
    (\<lambda>_ w. True \<and> collecting G s0 now h n (removed k None) w)"
proof -
  have ensure: "runs (collecting G s0 now h n (removed k c))
    (ensure_recovery_container disk_world (req G st') (entry_of_stage G (JP_Finalized, Some k)) (object_path G))
    (\<lambda>a w. a = container_of G k \<and> collecting G s0 now h n (removed k c) w)"
    using assms(2) run_ensure_vanished [OF assms(1)] run_ensure_found [OF assms(1)] by auto
  show ?thesis
    unfolding cleanup_finalized_container_def entry_of_stage_simps option.case disk_world_simps followed_by_succeed
    apply (rule runs_bind [OF runs_find_original [OF assms(1)]])
    apply (rule runs_bind [OF runs_find_object [OF assms(1)]])
    apply simp
    apply (rule runs_bind [OF ensure])
    using runs_remove_container [OF assms(1), of False SO_REMOVED "Some (JP_Finalized, Some k)" c k] assms(2)
    apply (simp add: stage_checks)
    done
qed

lemma run_sweep:
  assumes "site_ok G" and "c = None \<or> c = Some k"
  shows "runs (collecting G s0 now h n (removed k c))
    (\<lambda>w. case sweep_finalized disk_world (req G st') (entry_of_stage G (JP_Finalized, Some k)) outcome w of (t, a) \<Rightarrow> (t, Inr a))
    (\<lambda>a w. a = outcome \<and> collecting G s0 now h n (removed k None) w)"
  using run_cleanup_finalized [OF assms, of s0 now h n st'] by (fastforce simp: runs_def sweep_finalized_def)

section \<open>The way into the quarantine\<close>

definition after_topology :: "journal_phase \<Rightarrow> journal_phase" where
  "after_topology phase = (if phase = JP_Unlinking then JP_Unlinking else JP_Linked)"

lemma run_record_phase:
  assumes "resumable (stage_of o' q k st (Some (phase, Some i)))" and "follows row phase"
  shows "runs (collecting G s0 now h n (stage_of o' q k st row)) (record_phase sqlite_journal (entry_of_stage G (phase, Some i)))
    (\<lambda>a w. a = entry_of_stage G (phase, Some i) \<and> collecting G s0 now h n (stage_of o' q k st (Some (phase, Some i))) w)"
  unfolding record_phase_def by (rule runs_bind [OF runs_record [OF assms]]) (rule runs_succeed)

lemma run_start_move:
  assumes "site_ok G" and "object_stat G 1 s"
  shows "runs (collecting G s0 now (Held token) n (prepared k False))
    (start_move disk_world sqlite_lease_coordinator sqlite_journal (req G st) token (entry_of_stage G (JP_Prepared, Some k)) (object_path G)
      (container_of G k) s)
    (\<lambda>a w. a = entry_of_stage G (JP_Linked, Some k) \<and>
      collecting G s0 now (Held token) n (stage_of True True (Some k) SO_QUARANTINED (Some (JP_Linked, Some k))) w)"
  unfolding start_move_def entry_of_stage_simps disk_world_simps followed_by_succeed identity_ok(1) [OF assms] req_simps
    site_kind [OF assms(1)] storage_kind.case
  apply (rule runs_bind [OF runs_renew])
   apply (simp add: stage_checks)
  apply (rule runs_bind [OF runs_link [OF assms(1)]])
   apply (simp add: stage_checks)
  apply (rule runs_bind [OF runs_two_links [OF assms(1)]])
  apply (rule run_record_phase)
   apply (simp_all add: stage_checks)
  done

abbreviation moving_stage :: "nat \<Rightarrow> bool \<Rightarrow> bool \<Rightarrow> journal_phase \<Rightarrow> stage" where
  "moving_stage k original quarantined phase \<equiv> stage_of original quarantined (Some k) SO_QUARANTINED (Some (phase, Some k))"

lemma run_topology:
  assumes "site_ok G" and "phase \<in> {JP_Prepared, JP_Linked, JP_Unlinking}" and "moving phase o' q"
    and "if o' then \<exists>s. original = Some s \<and> object_stat G (links True q) s else original = None"
    and "if q then \<exists>s. quarantine = Some s \<and> object_stat G (links o' True) s else quarantine = None"
  shows "runs (collecting G s0 now (Held token) n (moving_stage k o' q phase))
    (resume_topology disk_world sqlite_lease_coordinator sqlite_journal (req G st) token (entry_of_stage G (phase, Some k)) (object_path G)
      (container_of G k) original quarantine)
    (\<lambda>a w. a = entry_of_stage G (after_topology phase, Some k) \<and>
      collecting G s0 now (Held token) n (moving_stage k o' True (after_topology phase)) w)"
proof -
  have two: "runs (collecting G s0 now (Held token) n (moving_stage k True True phase))
      (followed_by (assert_exact_two_link_topology disk_world (req G st) (original_path G) (object_path G))
        (\<lambda>_. succeed (entry_of_stage G (phase, Some k))))
      (\<lambda>a w. a = entry_of_stage G (phase, Some k) \<and> collecting G s0 now (Held token) n (moving_stage k True True phase) w)"
    by (rule runs_bind [OF runs_two_links [OF assms(1)]]) (rule runs_succeed)
  have linked: "runs (collecting G s0 now (Held token) n (prepared k True))
      (followed_by (assert_exact_two_link_topology disk_world (req G st) (original_path G) (object_path G))
        (\<lambda>_. record_phase sqlite_journal (entry_of_stage G (JP_Linked, Some k))))
      (\<lambda>a w. a = entry_of_stage G (JP_Linked, Some k) \<and> collecting G s0 now (Held token) n (moving_stage k True True JP_Linked) w)"
    by (rule runs_bind [OF runs_two_links [OF assms(1)]], rule run_record_phase) (simp_all add: stage_checks)
  have here: "runs (collecting G s0 now (Held token) n (moving_stage k False True phase)) (succeed (entry_of_stage G (phase, Some k)))
      (\<lambda>a w. a = entry_of_stage G (phase, Some k) \<and> collecting G s0 now (Held token) n (moving_stage k False True phase) w)"
    by (rule runs_succeed)
  show ?thesis
    using assms(2-5) two linked here run_start_move [OF assms(1)]
    unfolding resume_topology_def
    by (auto simp: moving_def after_topology_def identity_ok(1) [OF assms(1)] site_kind [OF assms(1)] links_def split: if_splits)
qed

lemma run_announce:
  assumes "phase = JP_Unlinking \<or> phase = JP_Linked \<and> o'"
  shows "runs (collecting G s0 now h n (moving_stage k o' True phase))
    (announce_unlink disk_world sqlite_journal (req G st) (entry_of_stage G (phase, Some k)) (object_path G) (container_of G k))
    (\<lambda>a w. a = entry_of_stage G (JP_Unlinking, Some k) \<and> collecting G s0 now h n (moving_stage k o' True JP_Unlinking) w)"
proof (cases "phase = JP_Linked")
  case True
  show ?thesis unfolding announce_unlink_def entry_of_stage_simps fst_conv True disk_world_simps followed_by_succeed
    apply simp
    apply (rule runs_bind [OF run_record_phase])
      apply (simp add: stage_checks)
     apply (simp add: stage_checks)
    apply simp
    apply (rule runs_succeed)
    done
next
  case False
  with assms show ?thesis by (simp add: announce_unlink_def runs_succeed)
qed

lemma run_unlink:
  assumes "site_ok G"
  shows "runs (collecting G s0 now (Held token) n (moving_stage k o' True JP_Unlinking))
    (unlink_original disk_world sqlite_lease_coordinator (req G st) token (entry_of_stage G (JP_Unlinking, Some k)) (object_path G))
    (\<lambda>_ w. True \<and> collecting G s0 now (Held token) n (unlinked k JP_Unlinking) w)"
proof (cases o')
  case True
  then have o': "o' = True" by simp
  show ?thesis unfolding unlink_original_def entry_of_stage_simps disk_world_simps followed_by_succeed o'
    apply (rule runs_bind [OF runs_find_original [OF assms]])
    apply clarsimp
    apply (rule runs_bind [OF runs_renew])
     apply (simp add: stage_checks)
    apply (rule runs_bind [OF runs_two_links [OF assms]])
    apply (rule runs_bind [OF runs_unlink_original [OF assms]])
     apply (simp add: stage_checks)
    apply (rule runs_bind [OF runs_lstat_object [OF assms]])
    apply (simp add: identity_ok [OF assms])
    done
next
  case False
  show ?thesis unfolding unlink_original_def entry_of_stage_simps
    by (rule runs_bind [OF runs_find_original [OF assms]]) (use False in simp)
qed

lemma run_resume:
  assumes "site_ok G" and "phase \<in> {JP_Prepared, JP_Linked, JP_Unlinking}" and "moving phase o' q"
  shows "runs (collecting G s0 now (Held token) n (moving_stage k o' q phase))
    (resume_quarantine_prefix disk_world sqlite_lease_coordinator sqlite_journal (req G st) token (entry_of_stage G (phase, Some k))
      (object_path G) (container_of G k))
    (\<lambda>a w. a = entry_of_stage G (JP_Quarantined, Some k) \<and> collecting G s0 now (Held token) n (unlinked k JP_Quarantined) w)"
proof -
  have linked: "after_topology phase = JP_Unlinking \<or> after_topology phase = JP_Linked \<and> o'"
    using assms(2,3) by (auto simp: after_topology_def moving_def)
  show ?thesis
    unfolding resume_quarantine_prefix_def disk_world_simps entry_of_stage_simps req_simps site_kind [OF assms(1)] storage_kind.case
      followed_by_assoc
    apply (rule runs_bind [OF runs_find_original [OF assms(1)]])
    apply (rule runs_bind [OF runs_find_object [OF assms(1)]])
    apply (rule runs_bind [OF run_topology [OF assms]])
      apply assumption
     apply assumption
    apply simp
    apply (rule runs_bind [OF run_announce [OF linked]])
    apply simp
    apply (rule runs_bind [OF run_unlink [OF assms(1)]])
    apply (rule runs_bind [OF runs_lstat_object [OF assms(1)]])
    apply (simp add: identity_ok [OF assms(1)])
    apply (rule runs_bind [OF runs_chmod [OF assms(1)]])
     apply (simp add: stage_checks)
    apply (rule run_record_phase)
     apply (simp_all add: stage_checks)
    done
qed

section \<open>The recovery\<close>

lemma run_record_container:
  assumes "resumable (stage_of o' q (Some k) SO_QUARANTINED (Some (phase, Some k)))" and "recorded = None \<or> recorded = Some k"
  shows "runs (beside (entry_of_stage G (phase, recorded)) (collecting G s0 now h n (stage_of o' q (Some k) SO_QUARANTINED (Some (phase, recorded)))))
    (record_container sqlite_journal (container_of G k))
    (\<lambda>_ s. True \<and> beside (entry_of_stage G (phase, Some k)) (collecting G s0 now h n (moving_stage k o' q phase)) s)"
proof (cases recorded)
  case None
  show ?thesis unfolding record_container_def None
    apply (rule runs_with_entry)
    apply simp
    apply (rule bind_assign)
    apply (rule runs_with_entry)
    apply simp
    apply (rule runs_post [OF runs_outside [OF runs_record]])
      apply (use assms(1) in \<open>simp_all add: follows_def\<close>)
    done
next
  case (Some i)
  with assms(2) have "recorded = Some k" by simp
  then show ?thesis unfolding record_container_def by (intro runs_with_entry) simp
qed

lemma run_prefix:
  assumes "site_ok G" and "moving phase o' q"
  shows "runs (beside (entry_of_stage G (phase, Some k)) (collecting G s0 now (Held token) n (moving_stage k o' q phase)))
    (recover_prefix disk_world sqlite_lease_coordinator sqlite_journal (req G st) token (object_path G) (container_of G k))
    (\<lambda>_ s. True \<and> (if phase \<in> {JP_Prepared, JP_Linked, JP_Unlinking}
      then beside (entry_of_stage G (JP_Quarantined, Some k)) (collecting G s0 now (Held token) n (unlinked k JP_Quarantined)) s
      else beside (entry_of_stage G (phase, Some k)) (collecting G s0 now (Held token) n (moving_stage k o' q phase)) s))"
proof (cases "phase \<in> {JP_Prepared, JP_Linked, JP_Unlinking}")
  case True
  have "runs (beside (entry_of_stage G (phase, Some k)) (collecting G s0 now (Held token) n (moving_stage k o' q phase)))
      (followed_by (outside (resume_quarantine_prefix disk_world sqlite_lease_coordinator sqlite_journal (req G st) token
        (entry_of_stage G (phase, Some k)) (object_path G) (container_of G k))) (\<lambda>resumed. assign (\<lambda>_. resumed)))
      (\<lambda>_ s. True \<and> beside (entry_of_stage G (JP_Quarantined, Some k)) (collecting G s0 now (Held token) n (unlinked k JP_Quarantined)) s)"
    by (rule bind_outside [OF run_resume [OF assms(1) True assms(2)]], rule runs_post [OF runs_assign]) simp
  with True show ?thesis unfolding recover_prefix_def by (intro runs_with_entry) simp
next
  case False
  then show ?thesis unfolding recover_prefix_def by (intro runs_with_entry) simp
qed

lemma run_delete_found:
  assumes "site_ok G" and "1 \<le> max_entries" and "object_stat G 1 s" and "phase = JP_Quarantined \<or> phase = JP_Deleting"
  shows "runs (beside (entry_of_stage G (phase, Some k)) (collecting G s0 now (Held token) n (moving_stage k False True phase)))
    (delete_found disk_world sqlite_lease_coordinator sqlite_journal max_entries max_depth (req G st) token (object_path G) s)
    (\<lambda>_ s. True \<and> beside (entry_of_stage G (JP_Deleting, Some k)) (collecting G s0 now (Held token) n (moving_stage k False False JP_Deleting)) s)"
  unfolding delete_found_def identity_ok(1) [OF assms(1,3)] outside_succeed followed_by_succeed
  apply (rule bind_assign)
  apply simp
  apply (rule runs_bind [where R = "\<lambda>_. True"])
   apply (rule runs_with_entry)
   apply (rule runs_outside [OF runs_record])
    apply (simp add: stage_checks)
   apply (use assms(4) in \<open>auto simp: stage_checks\<close>) [1]
  apply (rule runs_post [OF runs_outside [OF runs_deletion [OF assms(1,2)]]])
     apply (simp_all add: stage_checks)
  done

lemma run_recover_deletion:
  assumes "site_ok G" and "1 \<le> max_entries" and "phase \<in> {JP_Quarantined, JP_Deleting, JP_Deleted}" and "moving phase False q"
  shows "runs (beside (entry_of_stage G (phase, Some k)) (collecting G s0 now (Held token) n (moving_stage k False q phase)))
    (recover_deletion disk_world sqlite_lease_coordinator sqlite_journal max_entries max_depth (req G st) token (object_path G))
    (\<lambda>_ s. True \<and> beside (entry_of_stage G (JP_Deleted, Some k)) (collecting G s0 now (Held token) n (moving_stage k False False JP_Deleted)) s)"
proof (cases "phase = JP_Deleted")
  case True
  with assms(4) show ?thesis unfolding recover_deletion_def by (intro runs_with_entry) (simp add: moving_def)
next
  case False
  with assms(3) have phase: "phase = JP_Quarantined \<or> phase = JP_Deleting" by auto
  let ?B = "\<lambda>q ph. beside (entry_of_stage G (ph, Some k)) (collecting G s0 now (Held token) n (moving_stage k False q ph))"
  let ?last = "followed_by (assign (\<lambda>e. e\<lparr>gj_phase := JP_Deleted\<rparr>)) (\<lambda>_. with_entry (\<lambda>e. outside (sqlite_journal e)))"
  have last: "runs (?B False ph) ?last (\<lambda>_ s. True \<and> ?B False JP_Deleted s)" if "ph = JP_Quarantined \<or> ph = JP_Deleting" for ph
    apply (rule bind_assign)
    apply (rule runs_with_entry)
    apply simp
    apply (rule runs_post [OF runs_outside [OF runs_record]])
      apply (use that in \<open>auto simp: stage_checks\<close>)
    done
  have rest: "runs (?B q phase) (followed_by (case found of
          None \<Rightarrow> followed_by (outside (lstat_if_exists disk_world (original_path G))) (\<lambda>original.
            require (original = None) (cleanup_failure ''GC journal quarantine is absent while the original path still exists.''))
        | Some s \<Rightarrow> delete_found disk_world sqlite_lease_coordinator sqlite_journal max_entries max_depth (req G st) token (object_path G) s)
      (\<lambda>_. ?last)) (\<lambda>_ s. True \<and> ?B False JP_Deleted s)"
    if found: "if q then \<exists>s. found = Some s \<and> object_stat G (links False True) s else found = None" for found
  proof (cases q)
    case True
    with found obtain s where s: "found = Some s" "object_stat G 1 s" by auto
    then show ?thesis using True
      by (simp only: s option.case) (rule runs_bind [OF run_delete_found [OF assms(1,2) s(2) phase]], rule last, simp)
  next
    case False
    have "runs (?B False phase) (followed_by (outside (lstat_if_exists disk_world (original_path G))) (\<lambda>original.
            require (original = None) (cleanup_failure ''GC journal quarantine is absent while the original path still exists.'')))
        (\<lambda>_ s. True \<and> ?B False phase s)"
      by (rule bind_outside [OF runs_find_original [OF assms(1)]]) simp
    from runs_bind [OF this last [OF phase]] False found show ?thesis by simp
  qed
  show ?thesis unfolding recover_deletion_def
    apply (rule runs_with_entry)
    using phase
    apply simp
    apply (rule bind_outside [OF runs_find_object [OF assms(1)]])
    apply (unfold entry_of_stage_simps)
    using rest
    apply simp
    done
qed

lemma run_recover_finalization:
  assumes "site_ok G"
  shows "runs (beside (entry_of_stage G (JP_Deleted, Some k)) (collecting G s0 now (Held token) n (moving_stage k False False JP_Deleted)))
    (recover_finalization disk_world sqlite_lease_coordinator (req G st) token (object_path G))
    (\<lambda>_ s. True \<and> beside (entry_of_stage G (JP_Finalized, Some k)) (collecting G s0 now Gone_Lease n (removed k (Some k))) s)"
  unfolding recover_finalization_def
  apply (rule runs_with_entry)
  apply simp
  apply (rule bind_outside [OF runs_find_object [OF assms]])
  apply simp
  apply (rule bind_outside [OF runs_renew])
   apply (simp add: stage_checks)
  apply (rule bind_outside [OF runs_finalize])
   apply (simp add: stage_checks)
  apply (rule runs_post [OF runs_assign])
  apply simp
  done

definition container_fits :: "journal_phase \<Rightarrow> nat option \<Rightarrow> bool \<Rightarrow> nat option \<Rightarrow> bool" where
  "container_fits phase recorded quarantined container \<longleftrightarrow>
     recorded \<noteq> None \<and> container = recorded \<or> recorded = None \<and> phase = JP_Prepared \<and> \<not> quarantined"

lemma run_ensure:
  assumes "site_ok G" and "moving phase o' q" and "container_fits phase recorded q c"
  shows "runs (collecting G s0 now h n (stage_of o' q c SO_QUARANTINED (Some (phase, recorded))))
    (ensure_recovery_container disk_world (req G st) (entry_of_stage G (phase, recorded)) (object_path G))
    (\<lambda>a w. \<exists>k. (a = container_of G k \<and> (recorded = None \<or> recorded = Some k)) \<and>
      collecting G s0 now h n (stage_of o' q (Some k) SO_QUARANTINED (Some (phase, recorded))) w)"
proof (cases c)
  case None
  with assms(2,3) have "recorded = None" "phase = JP_Prepared" "o'" "\<not> q" by (auto simp: container_fits_def moving_def)
  with run_ensure_created [OF assms(1)] None show ?thesis by simp
next
  case (Some k)
  with assms(3) have "recorded = None \<or> recorded = Some k" by (auto simp: container_fits_def)
  then show ?thesis unfolding Some by (intro runs_post [OF run_ensure_found [OF assms(1)]]) auto
qed

lemma run_recover_quarantined:
  assumes "site_ok G" and "1 \<le> max_entries" and "moving phase o' q" and "container_fits phase recorded q c"
  shows "runs (beside (entry_of_stage G (phase, recorded)) (collecting G s0 now (Held token) n (stage_of o' q c SO_QUARANTINED (Some (phase, recorded)))))
    (recover_quarantined disk_world sqlite_lease_coordinator sqlite_journal max_entries max_depth (req G st) token (object_path G))
    (\<lambda>a s. a = Deleted \<and> (\<exists>k. collecting G s0 now Gone_Lease n (removed k None) (snd s)))"
proof -
  have finish: "runs (beside (entry_of_stage G (JP_Finalized, Some k)) (collecting G s0 now Gone_Lease n (removed k (Some k))))
      (followed_by (outside (remove_exact_quarantine_container disk_world (container_of G k))) (\<lambda>_.
       followed_by (outside (gl_release sqlite_lease_coordinator (cr_storage_object_id (req G st)) token False)) (\<lambda>_. succeed Deleted)))
      (\<lambda>a s. a = Deleted \<and> (\<exists>k. collecting G s0 now Gone_Lease n (removed k None) (snd s)))" for k
    unfolding req_simps
    apply (rule bind_outside [OF runs_remove_container [OF assms(1)]])
      apply (simp add: stage_checks)
     apply simp
    apply (rule bind_outside [OF runs_release])
     apply (simp add: stage_checks)
    apply (rule runs_post [OF runs_succeed])
    apply (auto simp: beside_def)
    done
  have tail: "runs (beside (entry_of_stage G (ph, Some k)) (collecting G s0 now (Held token) n (moving_stage k False q' ph)))
      (followed_by (recover_deletion disk_world sqlite_lease_coordinator sqlite_journal max_entries max_depth (req G st) token (object_path G)) (\<lambda>_.
       followed_by (recover_finalization disk_world sqlite_lease_coordinator (req G st) token (object_path G)) (\<lambda>_.
       followed_by (outside (gd_hook disk_world (Before_Container_Cleanup (qc_path (container_of G k))))) (\<lambda>_.
       followed_by (outside (remove_exact_quarantine_container disk_world (container_of G k))) (\<lambda>_.
       followed_by (outside (gl_release sqlite_lease_coordinator (cr_storage_object_id (req G st)) token False)) (\<lambda>_. succeed Deleted))))))
      (\<lambda>a s. a = Deleted \<and> (\<exists>k. collecting G s0 now Gone_Lease n (removed k None) (snd s)))"
    if "ph \<in> {JP_Quarantined, JP_Deleting, JP_Deleted}" "moving ph False q'" for ph q' k
    unfolding disk_world_simps outside_succeed followed_by_succeed
    by (rule runs_bind [OF run_recover_deletion [OF assms(1,2) that]], rule runs_bind [OF run_recover_finalization [OF assms(1)]], rule finish)
  have middle: "runs (beside (entry_of_stage G (phase, Some k)) (collecting G s0 now (Held token) n (moving_stage k o' q phase)))
      (followed_by (recover_prefix disk_world sqlite_lease_coordinator sqlite_journal (req G st) token (object_path G) (container_of G k)) (\<lambda>_.
       followed_by (recover_deletion disk_world sqlite_lease_coordinator sqlite_journal max_entries max_depth (req G st) token (object_path G)) (\<lambda>_.
       followed_by (recover_finalization disk_world sqlite_lease_coordinator (req G st) token (object_path G)) (\<lambda>_.
       followed_by (outside (gd_hook disk_world (Before_Container_Cleanup (qc_path (container_of G k))))) (\<lambda>_.
       followed_by (outside (remove_exact_quarantine_container disk_world (container_of G k))) (\<lambda>_.
       followed_by (outside (gl_release sqlite_lease_coordinator (cr_storage_object_id (req G st)) token False)) (\<lambda>_. succeed Deleted)))))))
      (\<lambda>a s. a = Deleted \<and> (\<exists>k. collecting G s0 now Gone_Lease n (removed k None) (snd s)))" for k
  proof (cases "phase \<in> {JP_Prepared, JP_Linked, JP_Unlinking}")
    case True
    then show ?thesis using run_prefix [OF assms(1,3), of k s0 now token n st]
      by (intro runs_bind [where R = "\<lambda>_. True", OF _ tail [of JP_Quarantined True k]]) (auto simp: moving_def)
  next
    case False
    with assms(3) have "phase \<in> {JP_Quarantined, JP_Deleting, JP_Deleted}" "\<not> o'" by (cases phase; simp add: moving_def)+
    then show ?thesis using run_prefix [OF assms(1,3), of k s0 now token n st] assms(3) False
      by (intro runs_bind [where R = "\<lambda>_. True", OF _ tail [of phase q k]]) auto
  qed
  show ?thesis unfolding recover_quarantined_def
  proof (rule bind_some)
    show "runs (beside (entry_of_stage G (phase, recorded)) (collecting G s0 now (Held token) n (stage_of o' q c SO_QUARANTINED (Some (phase, recorded)))))
      (with_entry (\<lambda>e. outside (ensure_recovery_container disk_world (req G st) e (object_path G))))
      (\<lambda>a s. \<exists>k. (a = container_of G k \<and> (recorded = None \<or> recorded = Some k)) \<and>
        beside (entry_of_stage G (phase, recorded)) (collecting G s0 now (Held token) n (stage_of o' q (Some k) SO_QUARANTINED (Some (phase, recorded)))) s)"
      using run_ensure [OF assms(1,3,4), of s0 now "Held token" n st]
      by (intro runs_with_entry) (fastforce simp: runs_def outside_def beside_def)
  next
    fix a k assume a: "a = container_of G k \<and> (recorded = None \<or> recorded = Some k)"
    have r: "resumable (stage_of o' q (Some k) SO_QUARANTINED (Some (phase, Some k)))" using assms(3) by (auto simp: resumable_def moving_def)
    from runs_bind [OF run_record_container [OF r, of recorded] middle [of k]] a
    show "runs (beside (entry_of_stage G (phase, recorded)) (collecting G s0 now (Held token) n (stage_of o' q (Some k) SO_QUARANTINED (Some (phase, recorded)))))
      (followed_by (record_container sqlite_journal a) (\<lambda>_.
       followed_by (recover_prefix disk_world sqlite_lease_coordinator sqlite_journal (req G st) token (object_path G) a) (\<lambda>_.
       followed_by (recover_deletion disk_world sqlite_lease_coordinator sqlite_journal max_entries max_depth (req G st) token (object_path G)) (\<lambda>_.
       followed_by (recover_finalization disk_world sqlite_lease_coordinator (req G st) token (object_path G)) (\<lambda>_.
       followed_by (outside (gd_hook disk_world (Before_Container_Cleanup (qc_path a)))) (\<lambda>_.
       followed_by (outside (remove_exact_quarantine_container disk_world a)) (\<lambda>_.
       followed_by (outside (gl_release sqlite_lease_coordinator (cr_storage_object_id (req G st)) token False)) (\<lambda>_. succeed Deleted))))))))
      (\<lambda>a s. a = Deleted \<and> (\<exists>k. collecting G s0 now Gone_Lease n (removed k None) (snd s)))" by simp
  qed
qed

end
