(* ===== verification/Gc_Interrupted.thy ===== *)
theory Gc_Interrupted
  imports Gc_Resume
begin

text \<open>
  A collection that is interrupted, as often as it may be: whatever durable state the crash leaves, either the object
  is untouched or the recovery of the journal's entry finishes the collection.
\<close>

section \<open>The recovery from any stage\<close>

lemma run_without_lease:
  assumes "site_ok G" and "resumable x" and "sg_row x = Some (phase, recorded)" and "phase \<noteq> JP_Finalized"
  shows "runs (collecting G s0 now Stale_Lease n x)
    (finalize_without_lease disk_world sqlite_lease_coordinator (req G st) token (entry_of_stage G (phase, recorded)))
    (\<lambda>a w. a = None \<and> collecting G s0 now Stale_Lease n x w)"
proof (cases "phase = JP_Deleted")
  case True
  obtain o' q c s where x: "x = stage_of o' q c s (Some (phase, recorded))" using assms(3) by (cases x) auto
  with assms(2) True have x': "s = SO_QUARANTINED" "\<not> o'" "\<not> q" by (auto simp: resumable_def moving_def)
  have ok: "resumable (stage_of False False c SO_QUARANTINED (Some (JP_Deleted, recorded)))" using assms(2) x x' True by simp
  show ?thesis
    unfolding finalize_without_lease_def entry_of_stage_simps fst_conv x True option.case
    using x' apply simp
    apply (rule runs_bind [OF runs_find_object [OF assms(1)]])
    apply simp
    apply (rule runs_bind [OF runs_find_original [OF assms(1)]])
    apply simp
    apply (simp only: coordinator_simps(4) [symmetric])
    apply (rule runs_bind [OF runs_finalize_refused [OF ok]])
    apply simp
    apply (rule runs_post [OF runs_succeed])
    apply simp
    done
next
  case False
  then show ?thesis by (simp add: finalize_without_lease_def runs_post [OF runs_succeed])
qed

lemma run_recovery:
  assumes "site_ok G" and "resumable x" and "sg_row x = Some (phase, recorded)" and "max_entries \<noteq> Some 0"
  shows "runs (collecting G s0 now Stale_Lease n x)
    (recover_gc_journal_entry disk_world sqlite_lease_coordinator sqlite_journal max_entries max_depth (entry_of_stage G (phase, recorded)))
    (\<lambda>a w. a \<in> {Deleted, Already_Absent} \<and> (\<exists>h k. collecting G s0 now h (Suc n) (removed k None) w))"
proof -
  obtain o' q c s where x: "x = stage_of o' q c s (Some (phase, recorded))" using assms(3) by (cases x) auto
  define entries where "entries = (case max_entries of None \<Rightarrow> 10000 | Some n \<Rightarrow> n)"
  define depth where "depth = (case max_depth of None \<Rightarrow> 64 | Some n \<Rightarrow> (n :: nat))"
  have entries: "1 \<le> entries" using assms(4) by (cases max_entries) (auto simp: entries_def Suc_le_eq intro: gr0I)
  let ?e = "entry_of_stage G (phase, recorded)"
  show ?thesis
  proof (cases "phase = JP_Finalized")
    case True
    with assms(2) x obtain k where k: "recorded = Some k" "x = removed k c" "c = None \<or> c = Some k"
      by (auto simp: resumable_def)
    show ?thesis
      unfolding recover_gc_journal_entry_def Let_def disk_world_simps recovery_candidate_entry [OF assms(1)] k(2)
      apply (rule runs_bind [OF runs_uuid])
      using True k(1)
      apply simp
      apply (rule runs_post [OF run_sweep [OF assms(1) k(3)]])
      apply auto
      done
  next
    case False
    with assms(2) x have live: "s = SO_QUARANTINED" "moving phase o' q" "container_fits phase recorded q c"
      by (auto simp: resumable_def container_fits_def)
    have x': "x = stage_of o' q c SO_QUARANTINED (Some (phase, recorded))" using x live(1) by simp
    have leased: "runs (collecting G s0 now (Held token) (Suc n) x)
        (\<lambda>w. case recover_or_give_up disk_world sqlite_lease_coordinator sqlite_journal entries depth (req G SO_QUARANTINED) token ?e w of
          (t, outcome) \<Rightarrow> (t, Inr outcome))
        (\<lambda>a w. a \<in> {Deleted, Already_Absent} \<and> (\<exists>h k. collecting G s0 now h (Suc n) (removed k None) w))" for token
    proof (rule runsI)
      fix w assume w: "collecting G s0 now (Held token) (Suc n) x w"
      have bare: "recover_bare disk_world sqlite_lease_coordinator sqlite_journal (req G SO_QUARANTINED) token ?e (object_path G) = succeed False"
        using live(3) by (auto simp: recover_bare_def container_fits_def)
      have "beside ?e (collecting G s0 now (Held token) (Suc n) x) (?e, w)" using w by (simp add: beside_def)
      from runsD [OF run_recover_quarantined [OF assms(1) entries live(2,3)] this [unfolded x'], of depth SO_QUARANTINED]
      obtain t k where t: "recover_quarantined disk_world sqlite_lease_coordinator sqlite_journal entries depth (req G SO_QUARANTINED) token
          (object_path G) (?e, w) = (t, Inr Deleted)" "collecting G s0 now Gone_Lease (Suc n) (removed k None) (snd t)" by blast
      then have "recover_or_give_up disk_world sqlite_lease_coordinator sqlite_journal entries depth (req G SO_QUARANTINED) token ?e w = (snd t, Deleted)"
        by (cases t) (simp add: recover_or_give_up_def recover_leased_def bare)
      with t(2) show "\<exists>t a. (case recover_or_give_up disk_world sqlite_lease_coordinator sqlite_journal entries depth (req G SO_QUARANTINED)
          token ?e w of (t, outcome) \<Rightarrow> (t, Inr outcome)) = (t, Inr a) \<and>
          a \<in> {Deleted, Already_Absent} \<and> (\<exists>h k. collecting G s0 now h (Suc n) (removed k None) t)" by auto
    qed
    show ?thesis
      unfolding recover_gc_journal_entry_def Let_def disk_world_simps recovery_candidate_entry [OF assms(1)]
        entries_def [symmetric] depth_def [symmetric]
      apply (rule runs_bind [OF runs_uuid])
      using False
      apply (simp del: coordinator_simps)
      apply (rule runs_bind [OF run_without_lease [OF assms(1-3) False]])
      apply (simp del: coordinator_simps)
      apply (subst (1) x')
      apply (rule runs_bind [OF runs_acquire])
         apply simp
      using assms(2) x' apply simp
       apply simp
      using leased [simplified] x' apply simp
      done
  qed
qed

section \<open>Crashes\<close>

text \<open>The process is started again, at a later time.\<close>

definition restart :: "time \<Rightarrow> disk \<Rightarrow> logged_disk" where
  "restart now d = (d\<lparr>dk_now := now\<rparr>, [])"

definition leases_over :: "ident \<Rightarrow> time \<Rightarrow> disk \<Rightarrow> bool" where
  "leases_over object_id now d \<longleftrightarrow>
     (\<forall>l\<in>set (cleanup_leases (dk_db d)). cl_storage_object_id l = object_id \<longrightarrow> cl_expires_at l \<le> now)"

text \<open>The names that the next collection of an object draws.\<close>

definition case_of :: "cleanup_request \<Rightarrow> disk \<Rightarrow> gc_case" where
  "case_of c d = \<lparr> gs_request = c, gs_operation = dk_uuid d (Suc (dk_drawn d)),
     gs_container = join_path (dirname (cr_path c)) (''.wtm-gc-'' @ filter (\<lambda>x. x \<noteq> CHR ''-'') (dk_uuid d (Suc (Suc (dk_drawn d))))),
     gs_user = dk_user d, gs_uuid = dk_uuid d \<rparr>"

text \<open>
  A file that the store lists as garbage and the disk has, in a directory where the name of the container is free.
\<close>

definition collectable_file :: "cleanup_request \<Rightarrow> disk \<Rightarrow> bool" where
  "collectable_file c d \<longleftrightarrow> site_ok (case_of c d) \<and> fs_at (case_of c d) True False None d \<and>
     cr_state c \<in> {SO_STALE, SO_ORPHANED, SO_QUARANTINED} \<and>
     gc_sees c (gs_operation (case_of c d)) (dk_db d) (cr_state c) None None"

text \<open>
  The states a crash may leave: one of the durable states of the collection, or of a recovery that was started from
  such a state after the lease in it had run out.
\<close>

inductive interrupted :: "logged_disk gc_options \<Rightarrow> nat \<Rightarrow> nat \<Rightarrow> cleanup_request \<Rightarrow> disk \<Rightarrow> disk \<Rightarrow> bool"
  for opts max_entries max_depth c d0 where
  Collecting: "d \<in> set (snd (snd (apply_candidate disk_world opts max_entries max_depth c ([], (d0, []))))) \<Longrightarrow>
    interrupted opts max_entries max_depth c d0 d"
| Recovering: "interrupted opts max_entries max_depth c d0 d \<Longrightarrow>
    journal_row_of (gs_operation (case_of c d0)) (dk_db d) = Some e \<Longrightarrow> leases_over (cr_storage_object_id c) now d \<Longrightarrow>
    d' \<in> set (snd (fst (recover_gc_journal_entry disk_world sqlite_lease_coordinator sqlite_journal
      (Some max_entries) (Some max_depth) e (restart now d)))) \<Longrightarrow>
    interrupted opts max_entries max_depth c d0 d'"

text \<open>Nothing is left of the object but its record, which says so.\<close>

definition collected :: "gc_case \<Rightarrow> disk \<Rightarrow> bool" where
  "collected G d \<longleftrightarrow> map_of (dk_paths d) (original_path G) = None \<and> map_of (dk_paths d) (object_path G) = None \<and>
     map_of (dk_paths d) (gs_container G) = None \<and> leases_over (cr_storage_object_id (gs_request G)) 0 d \<and>
     (\<exists>q\<in>set (storage_objects (dk_db d)). so_id q = cr_storage_object_id (gs_request G) \<and> so_state q = SO_REMOVED) \<and>
     (\<exists>e. journal_row_of (gs_operation G) (dk_db d) = Some e \<and> gj_phase e = JP_Finalized)"

lemma removed_collected:
  assumes "collecting G s0 now h n (removed k None) w"
  shows "collected G (fst w)"
proof -
  from assms obtain lease where fs: "fs_at G False False None (fst w)"
    and sees: "gc_sees (gs_request G) (gs_operation G) (dk_db (fst w)) SO_REMOVED lease (Some (entry_of_stage G (JP_Finalized, Some k)))"
    by (auto simp: collecting_def disk_at_def)
  from sees obtain q where q: "resources_ok (dk_db (fst w))" "q \<in> set (storage_objects (dk_db (fst w)))" "same_object (gs_request G) q"
    "so_state q = SO_REMOVED" "journal_row_of (gs_operation G) (dk_db (fst w)) = Some (entry_of_stage G (JP_Finalized, Some k))"
    by (rule gc_seesE)
  have "cl_storage_object_id l \<noteq> cr_storage_object_id (gs_request G)" if l: "l \<in> set (cleanup_leases (dk_db (fst w)))" for l
  proof
    assume id: "cl_storage_object_id l = cr_storage_object_id (gs_request G)"
    from resources_okD(5) [OF q(1) l] obtain p where p: "p \<in> set (storage_objects (dk_db (fst w)))" "so_id p = cl_storage_object_id l"
      "so_state p = SO_QUARANTINED" by blast
    with id q(3) have "p = q" by (intro object_unique [OF q(1) p(1) q(2)]) (simp add: same_object_def)
    with p(3) q(4) show False by simp
  qed
  with fs q show ?thesis by (auto simp: collected_def fs_at_def leases_over_def same_object_def)
qed

lemma restart_collecting:
  assumes "disk_at G x lease d" and "leases_over (cr_storage_object_id (gs_request G)) now d"
  shows "collecting G (dk_db d) now Stale_Lease (dk_drawn d) x (restart now d)"
proof -
  have "is_directory (d\<lparr>dk_now := now\<rparr>) path = is_directory d path" for path by (simp add: is_directory_def split: option.split)
  then have fs: "fs_at G o' q k (d\<lparr>dk_now := now\<rparr>) \<longleftrightarrow> fs_at G o' q k d" for o' q k by (cases k) (simp_all add: fs_at_def)
  have "case lease of None \<Rightarrow> True | Some (_, expiry) \<Rightarrow> expiry \<le> now"
    using assms by (auto simp: disk_at_def gc_sees_def lease_is_def lease_for_def leases_over_def split: option.splits)
  then have "tenure_ok now Stale_Lease lease" by simp
  with assms(1) fs show ?thesis unfolding collecting_def restart_def disk_at_def by auto
qed

lemma crash_row:
  assumes "crash_ok G d" and "journal_row_of (gs_operation G) (dk_db d) = Some e"
  obtains x lease phase recorded where "resumable x" and "disk_at G x lease d" and "sg_row x = Some (phase, recorded)"
    and "e = entry_of_stage G (phase, recorded)"
proof -
  from assms(1) obtain x lease where x: "resumable x" "disk_at G x lease d" by (auto simp: crash_ok_def)
  with assms(2) have "map_option (entry_of_stage G) (sg_row x) = Some e" by (auto simp: disk_at_def gc_sees_def)
  then obtain row where "sg_row x = Some row" "e = entry_of_stage G row" by auto
  with x that show thesis by (cases row) auto
qed

lemma recovery_completes:
  assumes "site_ok G" and "crash_ok G d" and "journal_row_of (gs_operation G) (dk_db d) = Some e"
    and "leases_over (cr_storage_object_id (gs_request G)) now d" and "max_entries \<noteq> Some 0"
  shows "\<exists>t trail outcome. recover_gc_journal_entry disk_world sqlite_lease_coordinator sqlite_journal max_entries max_depth e (restart now d)
    = ((t, trail), Inr outcome) \<and> outcome \<in> {Deleted, Already_Absent} \<and> collected G t \<and> (\<forall>d'\<in>set trail. crash_ok G d')"
proof -
  from crash_row [OF assms(2,3)] obtain x lease phase recorded where x: "resumable x" "disk_at G x lease d"
    "sg_row x = Some (phase, recorded)" "e = entry_of_stage G (phase, recorded)" by metis
  from runsD [OF run_recovery [OF assms(1) x(1,3) assms(5)] restart_collecting [OF x(2) assms(4)], of max_depth]
  obtain w outcome h k where w: "recover_gc_journal_entry disk_world sqlite_lease_coordinator sqlite_journal max_entries max_depth e (restart now d)
      = (w, Inr outcome)" "outcome \<in> {Deleted, Already_Absent}" "collecting G (dk_db d) now h (Suc (dk_drawn d)) (removed k None) w"
    unfolding x(4) by blast
  from removed_collected [OF w(3)] w(3) have "collected G (fst w) \<and> (\<forall>d'\<in>set (snd w). crash_ok G d')"
    by (simp add: collecting_def)
  with w(1,2) show ?thesis by (cases w) auto
qed

lemma collection_completes:
  assumes "collectable_file c d" and "1 \<le> max_entries" and "applies opts"
  shows "\<exists>t trail. apply_candidate disk_world opts max_entries max_depth c ([], (d, [])) = ([item_of c Deleted], (t, trail)) \<and>
    collected (case_of c d) t \<and> (\<forall>d'\<in>set trail. crash_ok (case_of c d) d') \<and> trail \<noteq> [] \<and> dk_db (last trail) = dk_db t"
proof -
  let ?G = "case_of c d"
  have c: "req ?G (cr_state c) = c" by (simp add: req_def case_of_def)
  have "disk_at ?G (stage_of True False None (cr_state c) None) None d"
    using assms(1) by (simp add: collectable_file_def disk_at_def case_of_def)
  then have "collecting ?G (dk_db d) (dk_now d) Gone_Lease (dk_drawn d) (stage_of True False None (cr_state c) None) (d, [])"
    by (simp add: collecting_def)
  then have start: "beside (new_run []) (collecting ?G (dk_db d) (dk_now d) Gone_Lease (dk_drawn d) (stage_of True False None (cr_state c) None)) (new_run [], (d, []))"
    by (simp add: beside_def)
  have "drawn_site ?G (Suc (dk_drawn d))" by (simp add: drawn_site_def case_of_def original_path_def)
  moreover have "site_ok ?G" "cr_state c \<in> {SO_STALE, SO_ORPHANED, SO_QUARANTINED}" using assms(1) by (simp_all add: collectable_file_def)
  ultimately obtain x w k where run: "collect disk_world opts max_entries max_depth c (new_run [], (d, [])) = ((x, w), Inr ())"
    "gu_items x = [item_of c Deleted]" "collecting ?G (dk_db d) (dk_now d) Gone_Lease (Suc (Suc (Suc (dk_drawn d)))) (removed k None) w"
    using runsD [OF run_collect [OF _ _ assms(2,3)] start, of max_depth] unfolding c by (auto simp: new_run_def)
  have row: "journal_row_of (gs_operation ?G) (dk_db d) = None" using assms(1) by (simp add: collectable_file_def gc_sees_def)
  from removed_collected [OF run(3)] run(3) have final: "collected ?G (fst w) \<and> (\<forall>d'\<in>set (snd w). crash_ok ?G d')"
    "dk_db (fst w) = last (dk_db d # map dk_db (snd w))" by (simp_all add: collecting_def)
  with row have "snd w \<noteq> []" by (auto simp: collected_def)
  with final have "collected ?G (fst w) \<and> (\<forall>d'\<in>set (snd w). crash_ok ?G d') \<and> snd w \<noteq> [] \<and> dk_db (last (snd w)) = dk_db (fst w)"
    by (simp add: last_map)
  with run(1,2) show ?thesis by (cases w) (simp add: apply_candidate_def split: option.split)
qed

lemma interrupted_crash_ok:
  assumes "interrupted opts max_entries max_depth c d0 d" and "collectable_file c d0" and "1 \<le> max_entries" and "applies opts"
  shows "crash_ok (case_of c d0) d"
  using assms(1)
proof induction
  case (Collecting d)
  with collection_completes [OF assms(2-4), of max_depth] show ?case by auto
next
  case (Recovering d e now d')
  have G: "site_ok (case_of c d0)" "gs_request (case_of c d0) = c" using assms(2) by (simp_all add: collectable_file_def case_of_def)
  have "Some max_entries \<noteq> Some 0" using assms(3) by simp
  from recovery_completes [OF G(1) Recovering.IH Recovering.hyps(2) _ this, of now "Some max_depth"] Recovering.hyps(3) G(2)
  obtain t trail outcome where "recover_gc_journal_entry disk_world sqlite_lease_coordinator sqlite_journal (Some max_entries)
      (Some max_depth) e (restart now d) = ((t, trail), Inr outcome)" "\<forall>d'\<in>set trail. crash_ok (case_of c d0) d'" by auto
  with Recovering.hyps(4) show ?case by simp
qed

section \<open>Properties\<close>

text \<open>
  C7. An interrupted collection is never lost, and neither is the object. A file that is garbage is collected in one run
  that reports it deleted. If the run crashes after any of its writes, to the file system or to the store, and if the
  recovery of it crashes in turn, however often, then either the journal has no entry yet and the object is where it
  was, with nothing beside it; or the recovery of the entry, started once the lease has run out, ends without a
  failure and leaves nothing: no file, no quarantine, no container and no lease, the record removed, the entry finalized.
\<close>

theorem interrupted_collection_recovers:
  assumes "collectable_file c d0" and "1 \<le> max_entries" and "applies opts" and "interrupted opts max_entries max_depth c d0 d"
  shows "(\<exists>t trail. apply_candidate disk_world opts max_entries max_depth c ([], (d0, [])) = ([item_of c Deleted], (t, trail)) \<and>
      collected (case_of c d0) t) \<and>
    (case journal_row_of (gs_operation (case_of c d0)) (dk_db d) of
       None \<Rightarrow> fs_at (case_of c d0) True False None d
     | Some e \<Rightarrow> \<forall>now. leases_over (cr_storage_object_id c) now d \<longrightarrow>
         (\<exists>t trail outcome. recover_gc_journal_entry disk_world sqlite_lease_coordinator sqlite_journal (Some max_entries) (Some max_depth) e
            (restart now d) = ((t, trail), Inr outcome) \<and> outcome \<in> {Deleted, Already_Absent} \<and> collected (case_of c d0) t))"
proof (intro conjI)
  let ?G = "case_of c d0"
  from collection_completes [OF assms(1-3), of max_depth]
  show "\<exists>t trail. apply_candidate disk_world opts max_entries max_depth c ([], (d0, [])) = ([item_of c Deleted], (t, trail)) \<and> collected ?G t"
    by blast
  have ok: "crash_ok ?G d" by (rule interrupted_crash_ok [OF assms(4,1,2,3)])
  have G: "site_ok ?G" "gs_request ?G = c" using assms(1) by (simp_all add: collectable_file_def case_of_def)
  show "case journal_row_of (gs_operation ?G) (dk_db d) of
       None \<Rightarrow> fs_at ?G True False None d
     | Some e \<Rightarrow> \<forall>now. leases_over (cr_storage_object_id c) now d \<longrightarrow>
         (\<exists>t trail outcome. recover_gc_journal_entry disk_world sqlite_lease_coordinator sqlite_journal (Some max_entries) (Some max_depth) e
            (restart now d) = ((t, trail), Inr outcome) \<and> outcome \<in> {Deleted, Already_Absent} \<and> collected ?G t)"
  proof (cases "journal_row_of (gs_operation ?G) (dk_db d)")
    case None
    from ok obtain x lease where "resumable x" "disk_at ?G x lease d" by (auto simp: crash_ok_def)
    moreover from this None have "sg_row x = None" by (auto simp: disk_at_def gc_sees_def)
    ultimately show ?thesis using None by (auto simp: resumable_def disk_at_def)
  next
    case (Some e)
    have "Some max_entries \<noteq> Some 0" using assms(2) by simp
    from recovery_completes [OF G(1) ok Some _ this, of _ "Some max_depth"] Some G(2) show ?thesis by fastforce
  qed
qed

definition demo_gc_request :: cleanup_request where
  "demo_gc_request = \<lparr> cr_storage_object_id = ''o'', cr_sandbox_id = ''s'', cr_sandbox_generation = ''g'', cr_path = ''/r/a'',
     cr_dev = 1, cr_ino = 7, cr_uid = 5, cr_kind = Kind_File, cr_state = SO_STALE, cr_retention = Ephemeral \<rparr>"

definition demo_gc_db :: db where
  "demo_gc_db = empty_db\<lparr>sandboxes := [\<lparr> sb_id = ''s'', sb_root = ''/r'', sb_generation = ''g'', sb_dev = 1, sb_ino = 3, sb_uid = 5 \<rparr>],
     storage_objects := [\<lparr> so_id = ''o'', so_sandbox_id = ''s'', so_path = ''/r/a'', so_dev = 1, so_ino = 7, so_uid = 5, so_kind = Kind_File,
       so_state = SO_STALE, so_retention = Ephemeral, so_owned = True, so_created_at = 0, so_last_used_at = 0, so_last_verified_at = 0,
       so_logical_bytes = 1, so_allocated_bytes = 1 \<rparr>]\<rparr>"

definition demo_disk :: disk where
  "demo_disk = \<lparr> dk_paths = [(''/r'', 3), (''/r/a'', 7)],
     dk_inodes = (\<lambda>i. \<lparr> di_directory = (i = 3), di_uid = 5, di_mode = 0, di_nlink = 1 \<rparr>), dk_next = 9, dk_device = 1, dk_user = 5,
     dk_db = demo_gc_db, dk_now = 100, dk_uuid = (\<lambda>n. CHR ''u'' # decimal n), dk_drawn = 0 \<rparr>"

definition demo_gc_options :: "logged_disk gc_options" where
  "demo_gc_options = \<lparr> go_apply = True, go_lease = Some sqlite_lease_coordinator, go_journal = Some sqlite_journal,
     go_max_entries = None, go_max_depth = None \<rparr>"

lemma demo_collectable: "collectable_file demo_gc_request demo_disk"
proof -
  have site: "site_ok (case_of demo_gc_request demo_disk)" by code_simp
  have "original_path (case_of demo_gc_request demo_disk) = ''/r/a''" "object_path (case_of demo_gc_request demo_disk) = ''/r/.wtm-gc-u2/object''"
    "gs_container (case_of demo_gc_request demo_disk) = ''/r/.wtm-gc-u2''" "inode_of (case_of demo_gc_request demo_disk) = 7"
    "dirname ''/r'' = ''/''" "dirname ''/r/a'' = ''/r''" by code_simp+
  then have fs: "fs_at (case_of demo_gc_request demo_disk) True False None demo_disk"
    by (simp add: fs_at_def demo_disk_def is_directory_def links_def) (simp add: case_of_def demo_gc_request_def)
  have "gc_sees demo_gc_request ''u1'' demo_gc_db SO_STALE None None" by code_simp
  moreover have "gs_operation (case_of demo_gc_request demo_disk) = ''u1''" by code_simp
  ultimately show ?thesis using site fs by (simp add: collectable_file_def demo_gc_request_def demo_disk_def)
qed

text \<open>A crash after the last write of the collection.\<close>

lemma demo_crash:
  "\<exists>d e. interrupted demo_gc_options 10 10 demo_gc_request demo_disk d \<and>
     journal_row_of (gs_operation (case_of demo_gc_request demo_disk)) (dk_db d) = Some e \<and> leases_over ''o'' 0 d"
proof -
  have opts: "applies demo_gc_options" by (simp add: applies_def demo_gc_options_def)
  from collection_completes [OF demo_collectable _ opts, of 10 10] obtain t trail where run:
    "snd (apply_candidate disk_world demo_gc_options 10 10 demo_gc_request ([], (demo_disk, []))) = (t, trail)"
    "collected (case_of demo_gc_request demo_disk) t" "trail \<noteq> []" "dk_db (last trail) = dk_db t" by fastforce
  then have "interrupted demo_gc_options 10 10 demo_gc_request demo_disk (last trail)"
    by (intro interrupted.Collecting) (simp add: run(1))
  moreover from run(2,4) obtain e where "journal_row_of (gs_operation (case_of demo_gc_request demo_disk)) (dk_db (last trail)) = Some e"
    by (auto simp: collected_def)
  moreover have "leases_over ''o'' 0 (last trail)" using run(2,4) by (simp add: collected_def leases_over_def case_of_def demo_gc_request_def)
  ultimately show ?thesis by blast
qed

lemma interrupted_collection_recovers_witness:
  "\<exists>d e t trail outcome. interrupted demo_gc_options 10 10 demo_gc_request demo_disk d \<and>
     recover_gc_journal_entry disk_world sqlite_lease_coordinator sqlite_journal (Some 10) (Some 10) e (restart 0 d) = ((t, trail), Inr outcome) \<and>
     collected (case_of demo_gc_request demo_disk) t"
proof -
  from demo_crash obtain d e where d: "interrupted demo_gc_options 10 10 demo_gc_request demo_disk d"
    "journal_row_of (gs_operation (case_of demo_gc_request demo_disk)) (dk_db d) = Some e" "leases_over ''o'' 0 d" by blast
  have "applies demo_gc_options" "cr_storage_object_id demo_gc_request = ''o''"
    by (simp_all add: applies_def demo_gc_options_def demo_gc_request_def)
  with interrupted_collection_recovers [OF demo_collectable _ _ d(1)] d(2,3)
  have "\<exists>t trail outcome. recover_gc_journal_entry disk_world sqlite_lease_coordinator sqlite_journal (Some 10) (Some 10) e (restart 0 d)
      = ((t, trail), Inr outcome) \<and> outcome \<in> {Deleted, Already_Absent} \<and> collected (case_of demo_gc_request demo_disk) t" by simp
  with d(1) show ?thesis by blast
qed

end
