(* ===== verification/Spec2Isabelle.thy ===== *)
theory Spec2Isabelle
  imports Job_Guarantees Lease_Properties Operation_Lease Endpoint_Properties Process_Properties
    Child_Stores Registry_Properties Resource_Properties Feature_Properties Endpoint_Plan_Properties
    Job_Queue_Properties Ipc_Framing Template Worktree_Parser Proxy_Hostname Git_Runner Remove_Worktree
    Cleanup_Ranking Reconciler_Queue Lifecycle_Events Idle_Runtime
  Gc_Interrupted
begin

text \<open>
  A verification library for wtm, a manager of git worktrees: the program registers workspaces and
  repositories, reconciles the worktrees git reports, gives every worktree its own ports, processes and
  sandboxes, runs heavy jobs one after the other, and removes worktrees without losing work. All paths
  below are under \<open>src/packages/\<close>.

  \<^bold>\<open>The program's parts.\<close> \<open>core\<close> holds the state store (a SQLite database and its operations,
  \<open>core/src/state\<close>), the policies over it (operation leases, endpoint plans, templates, git parsing,
  host names) and the engines that touch files. \<open>daemon\<close> is the long-running process: it supervises
  processes, schedules heavy jobs and proxies host names to ports. \<open>cli\<close> talks to the daemon through
  length-prefixed frames (\<open>protocol\<close>). Every process that opens the database runs its operations as
  immediate transactions, so the model of an operation is one function from the tables to the tables.

  \<^bold>\<open>The model of the store.\<close> \<open>Store_Types\<close> has one record per table, the tables as lists of rows in insertion order, and the record
  \<open>db\<close> of all tables. \<open>Wtm_Prelude\<close> has errors as sums, the SQL idioms (insertion, update, deletion,
  lookup by key, \<open>ORDER BY\<close>) and their laws, and the locale \<open>step_machine\<close> of guarded operations with its
  induction over runs. An operation that throws gives \<open>Inl\<close> of an error and leaves no change; an
  operation that commits before it throws gives the changed state beside the error.

  \<^item> \<open>Job_Memory\<close>, \<open>Job_Schedule\<close>, \<open>Job_Store\<close>: memory admission, waiting reasons and the durable job
    table (\<open>job-memory.ts\<close>, \<open>job-scheduling.ts\<close>, \<open>jobs-store.ts\<close>). \<open>Job_Invariants\<close>, \<open>Job_Operations\<close>,
    \<open>Job_Properties\<close>, \<open>Job_Guarantees\<close>: the slot limit, reservations within capacity, order of claims,
    progress, cancellation and finality.
  \<^item> \<open>Lease_Store\<close>, \<open>Lease_Properties\<close>: repository operation leases (\<open>sqlite-store.ts\<close>); \<open>Operation_Lease\<close>:
    \<open>core/src/analysis/operation-lease.ts\<close>, the acquisition with its default time to live, liveness measurement,
    retry and refusal, and the guarantee that a lease is released on every path.
  \<^item> \<open>Endpoint_Store\<close>, \<open>Endpoint_Properties\<close>: port allocation, release and hand-over; \<open>Endpoint_Plan\<close>,
    \<open>Endpoint_Plan_Properties\<close>: \<open>core/src/runtime/endpoint-plan.ts\<close> and \<open>endpoints.ts\<close>, the endpoints of a
    worktree and those it shares with its feature siblings.
  \<^item> \<open>Process_Store\<close>, \<open>Process_Properties\<close>: managed processes, their transitions, start reservations.
  \<^item> \<open>Child_Stores\<close>: CI watches, checklists, task overrides, adapter trust.
  \<^item> \<open>Registry\<close>, \<open>Registry_Properties\<close>: workspaces, repositories, reconciliation of worktrees and where it leaves
    the ports of a worktree that is gone, forgetting with its cascades, once-only lifecycle events.
  \<^item> \<open>Resource_Store\<close>, \<open>Resource_Properties\<close>: sandboxes, storage objects, references, cleanup leases and the
    quarantine journal. \<open>Feature_Store\<close>, \<open>Feature_Properties\<close>: features and the creation journal.
  \<^item> \<open>Job_Queue\<close>, \<open>Job_Queue_Properties\<close>: the scheduler of the daemon
    (\<open>daemon/src/heavy-job-queue.ts\<close>) over the job table; what may happen during an await is an argument.
  \<^item> \<open>Js_Text\<close>: the string operations the code uses; \<open>Template\<close>: \<open>core/src/templates/resolve.ts\<close>;
    \<open>Utf8\<close>: the text decoders of the runtime, which replace malformed bytes or refuse them;
    \<open>Worktree_Parser\<close>: \<open>core/src/git/worktree-parser.ts\<close>; \<open>Ipc_Framing\<close>: \<open>protocol/src/ipc-framing.ts\<close>;
    \<open>Proxy_Hostname\<close>: \<open>core/src/runtime/proxy-hostname.ts\<close> and \<open>daemon/src/proxy-routes.ts\<close>.
  \<^item> \<open>Git_Status\<close>, \<open>Git_Runner\<close>, \<open>Remote_Persistence\<close>, \<open>Worktree_Analysis\<close>: what git is asked about a
    worktree and how its answers become blockers and warnings (\<open>core/src/git/git-runner.ts\<close>,
    \<open>core/src/analysis/worktree-analysis.ts\<close>, \<open>remote-persistence.ts\<close>): a worktree without blockers holds
    nothing that its removal would lose.
  \<^item> \<open>Paths\<close>: \<open>core/src/paths/contains.ts\<close>. \<open>Remove_Worktree\<close>: \<open>remove-worktree.ts\<close>, \<open>remove-policy.ts\<close>: the
    removal itself, its two checks, its stages and the lease around it.
  \<^item> \<open>Cleanup_Ranking\<close>: \<open>core/src/analysis/cleanup-ranking.ts\<close>, the order of cleanup candidates and its score.
    \<open>Reconciler_Queue\<close>: \<open>daemon/src/reconciler-queue.ts\<close>, the coalescing of signals, as a step relation over its
    awaits: the queue comes to rest, and no accepted signal is lost unless it is closed while a flush settles.
  \<^item> \<open>Environment\<close>, \<open>Task_Resolver\<close>: \<open>core/src/runtime/environment.ts\<close> and \<open>task-resolver.ts\<close>, the variables of a
    task as the unique solution of their definitions, and the task that is started.
  \<^item> \<open>Lifecycle_Events\<close>: \<open>daemon/src/events.ts\<close> and \<open>process-budgets.ts\<close>, which lifecycle events a reconciliation
    announces, which tasks they run, and the claims that make an event fire once. \<open>Idle_Runtime\<close>:
    \<open>daemon/src/idle-runtime.ts\<close>, the sweeps that stop tasks nobody uses, with \<open>core/src/config/idle.ts\<close> and
    \<open>task-timeout.ts\<close>.
  \<^item> \<open>Gc_Plan\<close>, \<open>Gc_Engine\<close>, \<open>Gc_Recovery\<close>: \<open>core/src/resources/gc.ts\<close>, the plan of a garbage collection, the engine
    that moves a candidate into a quarantine and deletes it there, and the recovery of an interrupted collection
    from its journal entry, over arbitrary surroundings. \<open>Gc_Disk\<close> gives surroundings that compute: a POSIX file
    system beside the store, which is the lease coordinator and the journal
    (\<open>cli/src/commands/resource-production.ts\<close>), with the trail of every durable state. \<open>Gc_View\<close>, \<open>Gc_Site\<close>,
    \<open>Gc_Runs\<close>, \<open>Gc_Steps\<close>, \<open>Gc_Crash\<close>, \<open>Gc_Resume\<close> are the lemmas, and \<open>Gc_Interrupted\<close> shows that a collection
    survives any number of crashes.

  \<^bold>\<open>Interfaces.\<close> Contracts between parts are locales, each interpreted on the model's definitions: the run
  of a guarded state machine (one interpretation per table), the service of endpoints that a plan
  relies on, the relations that every pass of the scheduler keeps, and the effects of its callbacks.

  \<^bold>\<open>Bounds and fuel.\<close> Every definition terminates without fuel. The retry of an acquisition is the
  code's \<open>max_acquisition_attempts\<close> of two; the search for a port stops after the code's 256 candidates; the loop of
  claims runs at most once per free slot, which its termination measure shows.

  \<^bold>\<open>Parameters.\<close> Clocks, fresh identifiers, the answers of the operating system about processes and
  ports, the answers of git and of the file system (\<open>lstat\<close>, \<open>realpath\<close>), \<open>localeCompare\<close>, \<open>Date.parse\<close>, SHA-256, and what
  other processes do during an await are arguments of the definitions. Texts are lists of
  \<open>char\<close>; a text that git wrote is the bytes of its UTF-8 form, after the decoder the code applies to them.

  \<^bold>\<open>Not modelled.\<close> Rendering, command-line parsing, sockets, signals and file-system walks; the schemas
  of the third-party library zod; the SQLite drivers; external adapters. The engine that copies
  files (\<open>materializer.ts\<close>) and the creation of features are represented by the store
  operations they call; the removal of a worktree leaves out the mutex between the removals of one
  process.
\<close>

end
